(* ===== verification/Prelude.thy ===== *)
theory Prelude
  imports Complex_Main "HOL-Library.Word" "HOL-Library.AList" "HOL-Library.Monad_Syntax"
begin

text \<open>
  Shared vocabulary of the development: the decimal numbers and their arithmetic parameter,
  time stamps, the insertion-ordered maps of the code base (\<open>FnvIndexMap\<close>), and the
  contract of a bounded memory of recently seen keys, which two components implement.
\<close>

named_theorems dec_simps \<open>unfolding rules of the decimal operators\<close>
named_theorems model_defs \<open>definitions that proofs unfold together\<close>

section \<open>Decimals\<close>

text \<open>
  The program computes with \<open>rust_decimal::Decimal\<close>, a third-party type: a number
  \<open>m / 10 ^ s\<close> with a 96-bit \<open>m\<close> and \<open>s \<le> 28\<close>. Its comparison and equality are those of
  the numbers it stands for, so a value is a rational. Its arithmetic is a parameter of the
  model: \<open>R x\<close> is the decimal that an operation with the exact result \<open>x\<close> returns, rounded to
  the digits a decimal has, or \<open>None\<close> when \<open>x\<close> is beyond the range. \<open>None\<close> is what
  \<open>checked_add\<close> and its kin return there, and a panic where the code uses the plain operators.
  A panic is the value \<open>None\<close> of the operation that panics.
\<close>

type_synonym decimal = rat
type_synonym rounding = "rat \<Rightarrow> rat option"

definition dec_add :: "rounding \<Rightarrow> decimal \<Rightarrow> decimal \<Rightarrow> decimal option" where
  [dec_simps]: "dec_add R a b = R (a + b)"

definition dec_sub :: "rounding \<Rightarrow> decimal \<Rightarrow> decimal \<Rightarrow> decimal option" where
  [dec_simps]: "dec_sub R a b = R (a - b)"

definition dec_mul :: "rounding \<Rightarrow> decimal \<Rightarrow> decimal \<Rightarrow> decimal option" where
  [dec_simps]: "dec_mul R a b = R (a * b)"

definition dec_div :: "rounding \<Rightarrow> decimal \<Rightarrow> decimal \<Rightarrow> decimal option" where
  [dec_simps]: "dec_div R a b = (if b = 0 then None else R (a / b))"

text \<open>
  What the code relies on of the arithmetic: a result that a decimal can hold is returned as it
  is, rounding never crosses another value, is symmetric in the sign, and the range has no
  holes. A decimal is any value \<open>R\<close> returns.
\<close>

definition rounding_laws :: "rounding \<Rightarrow> bool" where
  "rounding_laws R \<longleftrightarrow>
     R 0 = Some 0 \<and>
     (\<forall>x y. R x = Some y \<longrightarrow> R y = Some y) \<and>
     (\<forall>x x' y y'. x \<le> x' \<longrightarrow> R x = Some y \<longrightarrow> R x' = Some y' \<longrightarrow> y \<le> y') \<and>
     (\<forall>x y. R x = Some y \<longrightarrow> R (- x) = Some (- y)) \<and>
     (\<forall>x y z. 0 \<le> x \<longrightarrow> x \<le> y \<longrightarrow> R y = Some z \<longrightarrow> R x \<noteq> None)"

text \<open>A set of exact results on which the arithmetic neither rounds nor overflows.\<close>

definition exact_on :: "rounding \<Rightarrow> rat set \<Rightarrow> bool" where
  "exact_on R S \<longleftrightarrow> (\<forall>x \<in> S. R x = Some x)"

lemma exact_onD: "exact_on R S \<Longrightarrow> x \<in> S \<Longrightarrow> R x = Some x"
  by (simp add: exact_on_def)

lemma exact_on_Some: "exact_on Some S"
  by (simp add: exact_on_def)

lemma rounding_laws_zero: "rounding_laws R \<Longrightarrow> R 0 = Some 0"
  by (simp add: rounding_laws_def)

lemma rounding_laws_idem: "rounding_laws R \<Longrightarrow> R x = Some y \<Longrightarrow> R y = Some y"
  by (simp add: rounding_laws_def)

lemma rounding_laws_mono:
  "rounding_laws R \<Longrightarrow> x \<le> x' \<Longrightarrow> R x = Some y \<Longrightarrow> R x' = Some y' \<Longrightarrow> y \<le> y'"
  unfolding rounding_laws_def by blast

lemma rounding_laws_neg: "rounding_laws R \<Longrightarrow> R x = Some y \<Longrightarrow> R (- x) = Some (- y)"
  by (simp add: rounding_laws_def)

lemma rounding_no_hole:
  "rounding_laws R \<Longrightarrow> 0 \<le> x \<Longrightarrow> x \<le> y \<Longrightarrow> R y = Some z \<Longrightarrow> R x \<noteq> None"
  unfolding rounding_laws_def by blast

lemma rounding_nonneg: "rounding_laws R \<Longrightarrow> 0 \<le> x \<Longrightarrow> R x = Some y \<Longrightarrow> 0 \<le> y"
  by (metis rounding_laws_mono rounding_laws_zero)

lemma rounding_nonpos: "rounding_laws R \<Longrightarrow> x \<le> 0 \<Longrightarrow> R x = Some y \<Longrightarrow> y \<le> 0"
  by (metis rounding_laws_mono rounding_laws_zero)

lemma rounding_laws_Some: "rounding_laws Some"
  by (simp add: rounding_laws_def)

section \<open>Time and counters\<close>

text \<open>
  A \<open>DateTime<Utc>\<close> is an instant, of which the code uses the order: an integer. A \<open>u64\<close> is a
  64-bit word.
\<close>

type_synonym time = int
type_synonym u64 = "64 word"

section \<open>Insertion-ordered maps\<close>

text \<open>
  \<open>FnvIndexMap\<close> keeps its entries in insertion order: \<open>insert\<close> replaces the value of a known
  key where it stands and appends a new key, \<open>shift_remove\<close> closes the gap. That is an
  association list with \<open>AList.update\<close> and \<open>AList.delete\<close>, and \<open>map_of\<close> to look up.
\<close>

type_synonym ('k, 'v) index_map = "('k \<times> 'v) list"

definition im_wf :: "('k, 'v) index_map \<Rightarrow> bool" where
  "im_wf m \<longleftrightarrow> distinct (map fst m)"

definition im_insert :: "'k \<Rightarrow> 'v \<Rightarrow> ('k, 'v) index_map \<Rightarrow> ('k, 'v) index_map" where
  [model_defs]: "im_insert k v m = AList.update k v m"

definition im_remove :: "'k \<Rightarrow> ('k, 'v) index_map \<Rightarrow> ('k, 'v) index_map" where
  [model_defs]: "im_remove k m = AList.delete k m"

lemma im_wf_Nil [simp]: "im_wf []"
  by (simp add: im_wf_def)

lemma im_wf_insert [simp]: "im_wf m \<Longrightarrow> im_wf (im_insert k v m)"
  by (simp add: im_wf_def im_insert_def distinct_update)

lemma im_wf_remove [simp]: "im_wf m \<Longrightarrow> im_wf (im_remove k m)"
  by (simp add: im_wf_def im_remove_def distinct_delete)

lemma im_lookup_insert [simp]:
  "map_of (im_insert k v m) k' = (if k' = k then Some v else map_of m k')"
  by (simp add: im_insert_def update_conv')

lemma im_lookup_remove [simp]:
  "map_of (im_remove k m) k' = (if k' = k then None else map_of m k')"
  by (simp add: im_remove_def delete_conv')

lemma im_keys_insert_new: "k \<notin> fst ` set m \<Longrightarrow> map fst (im_insert k v m) = map fst m @ [k]"
  by (induction m) (auto simp: im_insert_def)

lemma im_keys_insert_old: "k \<in> fst ` set m \<Longrightarrow> map fst (im_insert k v m) = map fst m"
  by (induction m) (auto simp: im_insert_def)

lemma im_set_remove: "set (im_remove k m) = {p \<in> set m. fst p \<noteq> k}"
  by (auto simp: im_remove_def AList.delete_eq)

lemma im_set_insert:
  "im_wf m \<Longrightarrow> set (im_insert k v m) = insert (k, v) {p \<in> set m. fst p \<noteq> k}"
  by (induction m) (auto simp: im_insert_def im_wf_def image_iff)

lemma im_remove_id: "k \<notin> fst ` set m \<Longrightarrow> im_remove k m = m"
  by (simp add: im_remove_def delete_idem)

section \<open>A bounded memory of recent keys\<close>

lemma list_tl_mem: "x \<in> set (tl xs) \<Longrightarrow> x \<in> set xs"
  by (cases xs) auto

text \<open>
  Two components remember the last keys they saw end, oldest forgotten first, a known key
  keeping its place: the retired orders of \<open>Orders\<close> and of \<open>ReduceOnlyBook\<close>. Their
  common contract, over the list of remembered keys, oldest first.
\<close>

locale recent_memory =
  fixes keep :: "'k \<Rightarrow> 'm \<Rightarrow> 'm"
    and keys :: "'m \<Rightarrow> 'k list"
    and cap :: nat
  assumes cap_pos: "0 < cap"
    and keep_known: "k \<in> set (keys m) \<Longrightarrow> keys (keep k m) = keys m"
    and keep_new: "k \<notin> set (keys m) \<Longrightarrow> length (keys m) \<le> cap \<Longrightarrow>
      keys (keep k m) = (if length (keys m) = cap then tl (keys m) else keys m) @ [k]"
begin

lemma keep_mem: "length (keys m) \<le> cap \<Longrightarrow> k \<in> set (keys (keep k m))"
  by (cases "k \<in> set (keys m)") (simp_all add: keep_known keep_new)

lemma keep_length: "length (keys m) \<le> cap \<Longrightarrow> length (keys (keep k m)) \<le> cap"
  using cap_pos by (cases "k \<in> set (keys m)") (auto simp: keep_known keep_new)

lemma keep_distinct: "length (keys m) \<le> cap \<Longrightarrow> distinct (keys m) \<Longrightarrow> distinct (keys (keep k m))"
  by (cases "k \<in> set (keys m)")
    (auto simp: keep_known keep_new distinct_tl dest: list_tl_mem)

lemma keep_subset: "length (keys m) \<le> cap \<Longrightarrow> set (keys (keep k m)) \<subseteq> insert k (set (keys m))"
  by (cases "k \<in> set (keys m)") (auto simp: keep_known keep_new dest: list_tl_mem)

lemma keep_younger:
  assumes "length (keys m) \<le> cap" and "keys m = xs @ k # ys" and "length ys + Suc n < cap"
  shows "\<exists>xs' ys'. keys (keep j m) = xs' @ k # ys' \<and> length ys' + n < cap"
proof (cases "j \<in> set (keys m)")
  case True
  with assms have "keys (keep j m) = xs @ k # ys \<and> length ys + n < cap"
    by (simp add: keep_known)
  then show ?thesis by blast
next
  case False
  with assms(1) have eq: "keys (keep j m) =
      (if length (keys m) = cap then tl (keys m) else keys m) @ [j]" by (intro keep_new)
  show ?thesis
  proof (cases "length (keys m) = cap")
    case True
    with assms(2,3) obtain x zs where "xs = x # zs" by (cases xs) auto
    with eq True assms(2,3) have "keys (keep j m) = zs @ k # (ys @ [j]) \<and> length (ys @ [j]) + n < cap"
      by simp
    then show ?thesis by blast
  next
    case False
    with eq assms(2,3) have "keys (keep j m) = xs @ k # (ys @ [j]) \<and> length (ys @ [j]) + n < cap"
      by simp
    then show ?thesis by blast
  qed
qed

lemma fold_keep_length: "length (keys m) \<le> cap \<Longrightarrow> length (keys (fold keep js m)) \<le> cap"
  by (induction js arbitrary: m) (simp_all add: keep_length)

lemma fold_keep_subset: "length (keys m) \<le> cap \<Longrightarrow> set (keys (fold keep js m)) \<subseteq> set js \<union> set (keys m)"
proof (induction js arbitrary: m)
  case (Cons j js)
  then have "set (keys (fold keep js (keep j m))) \<subseteq> set js \<union> set (keys (keep j m))" by (simp add: keep_length)
  with keep_subset [OF Cons.prems, of j] show ?case by auto
qed simp

lemma fold_keep_younger:
  assumes "length (keys m) \<le> cap" and "keys m = xs @ k # ys" and "length ys + length js + n < cap"
  shows "\<exists>xs' ys'. keys (fold keep js m) = xs' @ k # ys' \<and> length ys' + n < cap"
  using assms
proof (induction js arbitrary: m xs ys)
  case Nil
  then show ?case by auto
next
  case (Cons j js)
  then obtain xs' ys' where "keys (keep j m) = xs' @ k # ys'" "length ys' + length js + n < cap"
    using keep_younger [of m xs k ys "length js + n" j] by auto
  moreover have "length (keys (keep j m)) \<le> cap" using Cons.prems(1) by (rule keep_length)
  ultimately show ?case using Cons.IH by simp
qed

text \<open>A key just kept survives any fewer than \<open>cap\<close> later ones.\<close>

lemma kept_survives:
  assumes "length (keys m) \<le> cap" and "k \<notin> set (keys m)" and "length js < cap"
  shows "k \<in> set (keys (fold keep js (keep k m)))"
proof -
  have "length (keys (keep k m)) \<le> cap" using assms(1) by (rule keep_length)
  moreover obtain xs where "keys (keep k m) = xs @ k # []"
    using assms(1,2) by (auto simp: keep_new)
  ultimately show ?thesis using assms(3) fold_keep_younger [of "keep k m" xs k "[]" js 0] by auto
qed

end

end
