(* ===== verification/Order_Model.thy ===== *)
theory Order_Model
  imports Prelude
begin

text \<open>
  The order vocabulary of \<open>rustrade-execution\<close> (\<open>order/id.rs\<close>, \<open>order/mod.rs\<close>,
  \<open>order/state.rs\<close>, \<open>order/request.rs\<close>, \<open>error.rs\<close>): identifiers, kinds, states and
  errors, the questions the code asks of them, and the order in which two reports of one
  working order supersede each other. Exchange, instrument and asset keys are type parameters,
  as in the source.
\<close>

section \<open>Identifiers\<close>

type_synonym client_order_id = string
type_synonym order_id = string
type_synonym strategy_id = string
type_synonym position_id = string

datatype side = Buy | Sell

datatype venue_order_id = Assigned order_id | ClientAssigned

fun assigned :: "venue_order_id \<Rightarrow> order_id option" where
  "assigned (Assigned i) = Some i"
| "assigned ClientAssigned = None"

definition is_same_order_as :: "venue_order_id \<Rightarrow> venue_order_id \<Rightarrow> bool" where
  "is_same_order_as a b =
     (case (assigned a, assigned b) of (Some x, Some y) \<Rightarrow> x = y | _ \<Rightarrow> False)"

definition contradicts :: "venue_order_id \<Rightarrow> venue_order_id \<Rightarrow> bool" where
  "contradicts a b =
     (case (assigned a, assigned b) of (Some x, Some y) \<Rightarrow> x \<noteq> y | _ \<Rightarrow> False)"

fun or_client_id :: "venue_order_id \<Rightarrow> client_order_id \<Rightarrow> order_id" where
  "or_client_id (Assigned i) c = i"
| "or_client_id ClientAssigned c = c"

section \<open>Errors\<close>

text \<open>A wait is a number of nanoseconds, as \<open>Duration\<close> counts.\<close>

datatype connectivity_error = ExchangeOffline string | Timeout | Socket string

datatype borrow_reject_reason =
  NotShortable | BorrowDisabled | InventoryUnavailable | BorrowLimitExceeded
  | ShortSaleRestricted | OtherReason

record borrow_reject =
  br_reason :: borrow_reject_reason
  br_venue_code :: "string option"
  br_message :: string
  br_available :: "decimal option"

datatype ('a, 'i) api_error =
  AssetInvalid 'a string
  | InstrumentInvalid 'i string
  | RateLimit "nat option"
  | CapacityExceeded string
  | Unauthenticated string
  | BalanceInsufficientApi "'a option" string
  | OrderRejected string
  | OrderAlreadyCancelled
  | OrderAlreadyFullyFilled
  | OrderAlreadyExpired
  | DuplicateClientOrderId string
  | RequestRejected string
  | BorrowRejected borrow_reject

datatype order_field = FieldQuantity | FieldPrice | FieldTriggerPrice | FieldTrailingOffset | FieldNotional

datatype precision_limit =
  DecimalPlaces nat | SignificantFigures nat | NotRepresentable | NotPositive | NotOnGrid decimal

record precision_violation =
  pv_field :: order_field
  pv_value :: decimal
  pv_limit :: precision_limit

datatype bound = BoundMin | BoundMax

record bounds_violation =
  bv_field :: order_field
  bv_bound :: bound
  bv_limit :: decimal
  bv_value :: decimal

datatype margin_effect = NoSideEffect | Borrow | Repay

datatype not_placed_reason = NotSent connectivity_error | UnknownToVenue

datatype ('a, 'i) order_error =
  Connectivity connectivity_error
  | NotPlaced not_placed_reason
  | Rejected "('a, 'i) api_error"
  | UnsupportedOrderType string
  | InvalidPrecision precision_violation
  | OutOfBounds bounds_violation
  | UnsupportedMarginEffect margin_effect

fun connectivity_is_transient :: "connectivity_error \<Rightarrow> bool" where
  "connectivity_is_transient (ExchangeOffline _) = True"
| "connectivity_is_transient Timeout = True"
| "connectivity_is_transient (Socket _) = True"

fun order_error_is_transient :: "('a, 'i) order_error \<Rightarrow> bool" where
  "order_error_is_transient (Connectivity e) = connectivity_is_transient e"
| "order_error_is_transient (NotPlaced (NotSent e)) = connectivity_is_transient e"
| "order_error_is_transient (NotPlaced UnknownToVenue) = False"
| "order_error_is_transient (Rejected (RateLimit _)) = True"
| "order_error_is_transient (Rejected _) = False"
| "order_error_is_transient (UnsupportedOrderType _) = False"
| "order_error_is_transient (InvalidPrecision _) = False"
| "order_error_is_transient (OutOfBounds _) = False"
| "order_error_is_transient (UnsupportedMarginEffect _) = False"

fun order_error_is_outcome_unknown :: "('a, 'i) order_error \<Rightarrow> bool" where
  "order_error_is_outcome_unknown (Connectivity _) = True"
| "order_error_is_outcome_unknown _ = False"

section \<open>Order states\<close>

record open_state =
  open_id :: venue_order_id
  open_time_exchange :: time
  open_filled_quantity :: decimal

record cancel_in_flight =
  cif_order :: "open_state option"
  cif_time_sent :: time

datatype active_order_state =
  OpenInFlight time
  | Open open_state
  | CancelInFlight cancel_in_flight

record filled_state =
  filled_id :: order_id
  filled_time_exchange :: time
  filled_filled_quantity :: decimal
  filled_avg_price :: "decimal option"

record ended_state =
  ended_id :: order_id
  ended_time_exchange :: time
  ended_filled_quantity :: "decimal option"

text \<open>\<open>Cancelled\<close> and \<open>Expired\<close> have the same three fields in the source.\<close>

datatype ('a, 'i) inactive_order_state =
  Cancelled ended_state
  | FullyFilled filled_state
  | OpenFailed "('a, 'i) order_error"
  | Expired ended_state

datatype ('a, 'i) order_state =
  Active active_order_state
  | Inactive "('a, 'i) inactive_order_state"

fun active_time_sent :: "active_order_state \<Rightarrow> time option" where
  "active_time_sent (OpenInFlight t) = Some t"
| "active_time_sent (Open _) = None"
| "active_time_sent (CancelInFlight c) = Some (cif_time_sent c)"

fun open_meta :: "active_order_state \<Rightarrow> open_state option" where
  "open_meta (OpenInFlight _) = None"
| "open_meta (Open op) = Some op"
| "open_meta (CancelInFlight c) = cif_order c"

fun order_state_time_exchange :: "('a, 'i) order_state \<Rightarrow> time option" where
  "order_state_time_exchange (Active (OpenInFlight _)) = None"
| "order_state_time_exchange (Active (Open op)) = Some (open_time_exchange op)"
| "order_state_time_exchange (Active (CancelInFlight c)) =
     map_option open_time_exchange (cif_order c)"
| "order_state_time_exchange (Inactive (Cancelled s)) = Some (ended_time_exchange s)"
| "order_state_time_exchange (Inactive (FullyFilled s)) = Some (filled_time_exchange s)"
| "order_state_time_exchange (Inactive (Expired s)) = Some (ended_time_exchange s)"
| "order_state_time_exchange (Inactive (OpenFailed _)) = None"

fun is_failed :: "('a, 'i) order_state \<Rightarrow> bool" where
  "is_failed (Inactive (OpenFailed _)) = True"
| "is_failed _ = False"

fun is_outcome_unknown :: "('a, 'i) order_state \<Rightarrow> bool" where
  "is_outcome_unknown (Inactive (OpenFailed e)) = order_error_is_outcome_unknown e"
| "is_outcome_unknown _ = False"

definition quantity_remaining :: "rounding \<Rightarrow> open_state \<Rightarrow> decimal \<Rightarrow> decimal option" where
  "quantity_remaining R op initial = dec_sub R initial (open_filled_quantity op)"

definition is_superseded_by :: "open_state \<Rightarrow> open_state \<Rightarrow> bool" where
  "is_superseded_by self update =
     (if open_filled_quantity update < open_filled_quantity self then False
      else open_time_exchange self \<le> open_time_exchange update
        \<or> open_filled_quantity self < open_filled_quantity update)"

section \<open>Orders and requests\<close>

datatype trailing_offset_type = Absolute | Percentage | BasisPoints

datatype conditional_family = FamStop | FamStopLimit | FamTakeProfit | FamTakeProfitLimit

datatype order_kind =
  Market
  | Limit
  | Stop decimal
  | StopLimit decimal
  | TakeProfit decimal
  | TakeProfitLimit decimal
  | TrailingStop decimal trailing_offset_type "decimal option"
  | TrailingStopLimit decimal trailing_offset_type decimal decimal
  | TrailingStopFixedLimit decimal trailing_offset_type "decimal option"
  | ConditionalUnresolved conditional_family "decimal option"

fun has_limit_price :: "conditional_family \<Rightarrow> bool" where
  "has_limit_price FamStopLimit = True"
| "has_limit_price FamTakeProfitLimit = True"
| "has_limit_price _ = False"

datatype time_in_force =
  GoodUntilCancelled bool
  | GoodUntilEndOfDay
  | FillOrKill
  | ImmediateOrCancel
  | GoodTillDate time
  | AtOpen
  | AtClose

datatype reduce_only = RONo | ROPosition | ROPositionAndFreeBase

definition is_reduce_only :: "reduce_only \<Rightarrow> bool" where
  "is_reduce_only r \<longleftrightarrow> r \<noteq> RONo"

record ('e, 'i) order_key =
  key_exchange :: 'e
  key_instrument :: 'i
  key_strategy :: strategy_id
  key_cid :: client_order_id

record ('e, 'i, 's) order =
  o_key :: "('e, 'i) order_key"
  o_side :: side
  o_price :: "decimal option"
  o_quantity :: decimal
  o_kind :: order_kind
  o_time_in_force :: time_in_force
  o_state :: 's

type_synonym ('e, 'i) active_order = "('e, 'i, active_order_state) order"
type_synonym ('e, 'i, 'a) order_snapshot = "('e, 'i, ('a, 'i) order_state) order"

definition map_state :: "('s \<Rightarrow> 't) \<Rightarrow> ('e, 'i, 's) order \<Rightarrow> ('e, 'i, 't) order" where
  "map_state f ord = \<lparr>o_key = o_key ord, o_side = o_side ord, o_price = o_price ord,
     o_quantity = o_quantity ord, o_kind = o_kind ord,
     o_time_in_force = o_time_in_force ord, o_state = f (o_state ord)\<rparr>"

definition to_active :: "('e, 'i, 'a) order_snapshot \<Rightarrow> ('e, 'i) active_order option" where
  "to_active ord =
     (case o_state ord of Active s \<Rightarrow> Some (map_state (\<lambda>_. s) ord) | Inactive _ \<Rightarrow> None)"

definition to_inactive ::
  "('e, 'i, 'a) order_snapshot \<Rightarrow> ('e, 'i, ('a, 'i) inactive_order_state) order option" where
  "to_inactive ord =
     (case o_state ord of Active _ \<Rightarrow> None | Inactive s \<Rightarrow> Some (map_state (\<lambda>_. s) ord))"

record request_open =
  ro_side :: side
  ro_price :: "decimal option"
  ro_quantity :: decimal
  ro_kind :: order_kind
  ro_time_in_force :: time_in_force
  ro_position_id :: "position_id option"
  ro_reduce_only :: reduce_only
  ro_margin_effect :: "margin_effect option"

text \<open>
  \<open>RequestOpen\<close> also carries the market the sender saw (\<open>market\<close>), which the engine's own
  operations do not read; the simulated venue does, and \<open>Venue_Orders\<close> adds it there.
\<close>

record ('e, 'i, 's) order_event =
  ev_key :: "('e, 'i) order_key"
  ev_state :: 's

type_synonym ('e, 'i) order_request_open = "('e, 'i, request_open) order_event"
type_synonym ('e, 'i) order_request_cancel = "('e, 'i, venue_order_id option) order_event"
type_synonym ('e, 'i, 'a) order_response_cancel =
  "('e, 'i, ('a, 'i) order_error + ended_state) order_event"

definition to_request_cancel ::
  "('e, 'i) active_order \<Rightarrow> ('e, 'i) order_request_cancel option" where
  "to_request_cancel ord =
     (case o_state ord of
        OpenInFlight _ \<Rightarrow> Some \<lparr>ev_key = o_key ord, ev_state = None\<rparr>
      | Open op \<Rightarrow> Some \<lparr>ev_key = o_key ord, ev_state = Some (open_id op)\<rparr>
      | CancelInFlight _ \<Rightarrow> None)"

definition open_in_flight ::
  "('e, 'i) order_request_open \<Rightarrow> time \<Rightarrow> ('e, 'i) active_order" where
  "open_in_flight req t = (let s = ev_state req in
     \<lparr>o_key = ev_key req, o_side = ro_side s, o_price = ro_price s, o_quantity = ro_quantity s,
      o_kind = ro_kind s, o_time_in_force = ro_time_in_force s, o_state = OpenInFlight t\<rparr>)"

section \<open>Facts about identity and order of reports\<close>

lemma to_active_key: "to_active s = Some u \<Longrightarrow> o_key u = o_key s \<and> o_quantity u = o_quantity s"
  by (auto simp: to_active_def map_state_def split: order_state.splits)

lemma contradicts_sym: "contradicts a b = contradicts b a"
  by (cases a; cases b) (auto simp: contradicts_def)

lemma contradicts_not_same: "contradicts a b \<Longrightarrow> \<not> is_same_order_as a b"
  by (cases a; cases b) (auto simp: contradicts_def is_same_order_as_def)

lemma contradicts_Assigned [simp]: "contradicts (Assigned x) (Assigned y) \<longleftrightarrow> x \<noteq> y"
  by (simp add: contradicts_def)

lemma contradicts_irrefl [simp]: "\<not> contradicts a a"
  by (cases a) (simp_all add: contradicts_def)

lemma contradicts_ClientAssigned [simp]:
  "\<not> contradicts ClientAssigned a" "\<not> contradicts a ClientAssigned"
  by (cases a; simp add: contradicts_def)+

text \<open>The report order: the cumulative fill first, the time stamp where fills agree.\<close>

definition report_le :: "open_state \<Rightarrow> open_state \<Rightarrow> bool" where
  "report_le a b \<longleftrightarrow> open_filled_quantity a < open_filled_quantity b
     \<or> open_filled_quantity a = open_filled_quantity b \<and> open_time_exchange a \<le> open_time_exchange b"

lemma superseded_report_le: "is_superseded_by a b = report_le a b"
  by (auto simp: is_superseded_by_def report_le_def)

lemma report_le_refl [simp]: "report_le a a"
  by (simp add: report_le_def)

lemma report_le_trans: "report_le a b \<Longrightarrow> report_le b c \<Longrightarrow> report_le a c"
  by (auto simp: report_le_def)

lemma report_le_total: "report_le a b \<or> report_le b a"
  by (auto simp: report_le_def)

lemma superseded_fill_mono:
  "is_superseded_by a b \<Longrightarrow> open_filled_quantity a \<le> open_filled_quantity b"
  by (auto simp: is_superseded_by_def split: if_splits)

lemma superseded_refl [simp]: "is_superseded_by a a"
  by (simp add: superseded_report_le)

end
