(* ===== verification/Orders.thy ===== *)
theory Orders
  imports Order_Model
begin

text \<open>
  The engine's order manager, \<open>rustrade/src/engine/state/order/mod.rs\<close>: the tracked orders
  by client order id, the bounded memory of orders that ended, and every operation on them. An
  operation that computes a remaining quantity can overflow, so it returns an option: \<open>None\<close>
  is the panic of the subtraction. Log lines are left out.
\<close>

section \<open>State\<close>

record ('e, 'i) orders =
  tracked :: "client_order_id \<rightharpoonup> ('e, 'i) active_order"
  retired :: "client_order_id list"

definition max_recently_retired :: nat where
  "max_recently_retired = 64"

definition retired_insert :: "client_order_id \<Rightarrow> client_order_id list \<Rightarrow> client_order_id list" where
  "retired_insert c r =
     (if c \<in> set r then r
      else (if length r = max_recently_retired then tl r else r) @ [c])"

definition retired_forget :: "client_order_id \<Rightarrow> client_order_id list \<Rightarrow> client_order_id list" where
  "retired_forget c r = filter (\<lambda>x. x \<noteq> c) r"

definition orders_new :: "(client_order_id \<rightharpoonup> ('e, 'i) active_order) \<Rightarrow> ('e, 'i) orders" where
  "orders_new m = \<lparr>tracked = m, retired = []\<rparr>"

definition retire :: "client_order_id \<Rightarrow> ('e, 'i) orders \<Rightarrow> ('e, 'i) orders" where
  [model_defs]: "retire c st = st\<lparr>retired := retired_insert c (retired st)\<rparr>"

text \<open>\<open>self.1.insert(entry.remove().key.cid)\<close>: drop the entry of the order, remember its id.\<close>

definition drop_order ::
  "client_order_id \<Rightarrow> ('e, 'i) active_order \<Rightarrow> ('e, 'i) orders \<Rightarrow> ('e, 'i) orders" where
  [model_defs]: "drop_order c ord st =
     \<lparr>tracked = (tracked st)(c := None), retired = retired_insert (key_cid (o_key ord)) (retired st)\<rparr>"

definition set_state ::
  "client_order_id \<Rightarrow> ('e, 'i) active_order \<Rightarrow> active_order_state \<Rightarrow> ('e, 'i) orders \<Rightarrow> ('e, 'i) orders" where
  [model_defs]: "set_state c ord s st = st\<lparr>tracked := (tracked st)(c \<mapsto> ord\<lparr>o_state := s\<rparr>)\<rparr>"

section \<open>Operations\<close>

text \<open>
  \<open>clear\<close> drains a hash map, in an order the language leaves open: \<open>cids\<close> is the order in which
  the ids come out, an enumeration of the tracked ids.
\<close>

definition orders_clear :: "client_order_id list \<Rightarrow> ('e, 'i) orders \<Rightarrow> ('e, 'i) orders" where
  "orders_clear cids st = \<lparr>tracked = Map.empty, retired = fold retired_insert cids (retired st)\<rparr>"

fun is_in_flight :: "active_order_state \<Rightarrow> bool" where
  "is_in_flight (OpenInFlight _) = True"
| "is_in_flight (Open _) = False"
| "is_in_flight (CancelInFlight _) = True"

fun is_open_in_flight :: "active_order_state \<Rightarrow> bool" where
  "is_open_in_flight (OpenInFlight _) = True"
| "is_open_in_flight _ = False"

definition has_request_in_flight :: "('e, 'i) orders \<Rightarrow> bool" where
  "has_request_in_flight st \<longleftrightarrow> (\<exists>ord \<in> ran (tracked st). is_in_flight (o_state ord))"

definition is_contradicted_never_placed ::
  "('e, 'i) orders \<Rightarrow> ('e, 'i, 'a) order_snapshot \<Rightarrow> bool" where
  "is_contradicted_never_placed st snap =
     (case o_state snap of
        Inactive (OpenFailed (NotPlaced _)) \<Rightarrow>
          (case tracked st (key_cid (o_key snap)) of
             None \<Rightarrow> False
           | Some ord \<Rightarrow>
               (case o_state ord of
                  OpenInFlight _ \<Rightarrow> False
                | Open _ \<Rightarrow> True
                | CancelInFlight c \<Rightarrow> cif_order c \<noteq> None))
      | _ \<Rightarrow> False)"

definition is_failed_open_to_ignore ::
  "('e, 'i) orders \<Rightarrow> ('e, 'i, 'a) order_snapshot \<Rightarrow> bool" where
  "is_failed_open_to_ignore st snap =
     (if is_outcome_unknown (o_state snap) then True
      else if is_contradicted_never_placed st snap then True
      else False)"

definition is_duplicate_cid_refusal :: "('a, 'i) order_state \<Rightarrow> bool" where
  "is_duplicate_cid_refusal s =
     (case s of Inactive (OpenFailed (Rejected (DuplicateClientOrderId _))) \<Rightarrow> True | _ \<Rightarrow> False)"

definition remove_open ::
  "client_order_id \<Rightarrow> venue_order_id \<Rightarrow> ('e, 'i) orders
     \<Rightarrow> ('e, 'i) active_order option \<times> ('e, 'i) orders" where
  "remove_open c i st =
     (case tracked st c of
        None \<Rightarrow> (None, st)
      | Some ord \<Rightarrow>
          (case o_state ord of
             Open op \<Rightarrow>
               (if is_same_order_as (open_id op) i
                then (Some ord, \<lparr>tracked = (tracked st)(c := None),
                                 retired = retired_insert c (retired st)\<rparr>)
                else (None, st))
           | _ \<Rightarrow> (None, st)))"

definition update_from_fill ::
  "rounding \<Rightarrow> client_order_id \<Rightarrow> order_id \<Rightarrow> decimal \<Rightarrow> ('e, 'i) orders
     \<Rightarrow> (bool \<times> ('e, 'i) orders) option" where
  "update_from_fill R c i filled st =
     (case tracked st c of
        None \<Rightarrow> Some (False, st)
      | Some ord \<Rightarrow>
          (case o_state ord of
             Open op \<Rightarrow>
               (if assigned (open_id op) \<noteq> Some i then Some (False, st)
                else if filled \<le> open_filled_quantity op then Some (False, st)
                else do {
                  let op' = op\<lparr>open_filled_quantity := filled\<rparr>;
                  rem \<leftarrow> quantity_remaining R op' (o_quantity ord);
                  if rem \<le> 0
                  then Some (True, \<lparr>tracked = (tracked st)(c := None),
                                    retired = retired_insert c (retired st)\<rparr>)
                  else Some (False, set_state c ord (Open op') st)
                })
           | _ \<Rightarrow> Some (False, st)))"

text \<open>A snapshot of an order that is not tracked.\<close>

definition update_untracked ::
  "rounding \<Rightarrow> client_order_id \<Rightarrow> ('e, 'i) active_order option \<Rightarrow> ('e, 'i) orders
     \<Rightarrow> ('e, 'i) orders option" where
  "update_untracked R c update st =
     (case update of
        None \<Rightarrow> if c \<in> set (retired st) then Some st else Some (retire c st)
      | Some u \<Rightarrow>
          if \<not> is_open_in_flight (o_state u) \<and> c \<in> set (retired st) then Some st
          else
            (case o_state u of
               Open op \<Rightarrow> do {
                 rem \<leftarrow> quantity_remaining R op (o_quantity u);
                 if rem = 0 then Some (retire c st)
                 else Some (st\<lparr>tracked := (tracked st)(c \<mapsto> u)\<rparr>)
               }
             | OpenInFlight _ \<Rightarrow>
                 Some \<lparr>tracked = (tracked st)(c \<mapsto> u), retired = retired_forget c (retired st)\<rparr>
             | CancelInFlight _ \<Rightarrow> Some (st\<lparr>tracked := (tracked st)(c \<mapsto> u)\<rparr>)))"

text \<open>A snapshot of a tracked order that carries an active state: the nine arms.\<close>

definition update_tracked ::
  "rounding \<Rightarrow> client_order_id \<Rightarrow> ('e, 'i) active_order \<Rightarrow> ('e, 'i) active_order
     \<Rightarrow> ('e, 'i) orders \<Rightarrow> ('e, 'i) orders option" where
  "update_tracked R c cur update st =
     (case (o_state cur, o_state update) of
        (OpenInFlight _, OpenInFlight _) \<Rightarrow> Some st
      | (OpenInFlight _, Open op) \<Rightarrow> do {
          rem \<leftarrow> quantity_remaining R op (o_quantity update);
          if rem = 0 then Some (drop_order c cur st) else Some (set_state c cur (Open op) st)
        }
      | (OpenInFlight _, CancelInFlight u) \<Rightarrow> Some (set_state c cur (CancelInFlight u) st)
      | (Open _, OpenInFlight _) \<Rightarrow> Some st
      | (Open held, Open op) \<Rightarrow>
          if contradicts (open_id held) (open_id op) then Some st
          else if is_superseded_by held op then do {
            rem \<leftarrow> quantity_remaining R op (o_quantity update);
            if rem = 0 then Some (drop_order c cur st) else Some (set_state c cur (Open op) st)
          }
          else Some st
      | (Open held, CancelInFlight u) \<Rightarrow>
          let latest = (case cif_order u of
               Some op \<Rightarrow> if \<not> contradicts (open_id held) (open_id op) \<and> is_superseded_by held op
                          then op else held
             | None \<Rightarrow> held)
          in Some (set_state c cur
               (CancelInFlight \<lparr>cif_order = Some latest, cif_time_sent = cif_time_sent u\<rparr>) st)
      | (CancelInFlight _, OpenInFlight _) \<Rightarrow> Some st
      | (CancelInFlight held, Open op) \<Rightarrow>
          if (case cif_order held of Some h \<Rightarrow> contradicts (open_id h) (open_id op) | None \<Rightarrow> False)
          then Some st
          else if (case cif_order held of Some h \<Rightarrow> is_superseded_by h op | None \<Rightarrow> True)
          then Some (set_state c cur
                 (CancelInFlight \<lparr>cif_order = Some op, cif_time_sent = cif_time_sent held\<rparr>) st)
          else Some st
      | (CancelInFlight _, CancelInFlight _) \<Rightarrow> Some st)"

definition update_from_order_snapshot ::
  "rounding \<Rightarrow> ('e, 'i, 'a) order_snapshot \<Rightarrow> ('e, 'i) orders \<Rightarrow> ('e, 'i) orders option" where
  "update_from_order_snapshot R snap st =
     (if is_failed_open_to_ignore st snap then Some st
      else
        let c = key_cid (o_key snap) in
        (case (tracked st c, to_active snap) of
           (None, update) \<Rightarrow> update_untracked R c update st
         | (Some cur, None) \<Rightarrow>
             if is_duplicate_cid_refusal (o_state snap) \<and> \<not> is_open_in_flight (o_state cur)
             then Some st else Some (drop_order c cur st)
         | (Some cur, Some update) \<Rightarrow> update_tracked R c cur update st))"

definition update_from_cancel_response ::
  "('e, 'i, 'a) order_response_cancel \<Rightarrow> ('e, 'i) orders \<Rightarrow> ('e, 'i) orders" where
  "update_from_cancel_response resp st =
     (let c = key_cid (ev_key resp) in
      case tracked st c of
        None \<Rightarrow> st
      | Some cur \<Rightarrow>
          (case (o_state cur, ev_state resp) of
             (CancelInFlight _, Inr _) \<Rightarrow> drop_order c cur st
           | (_, Inr _) \<Rightarrow> drop_order c cur st
           | (CancelInFlight held, Inl _) \<Rightarrow>
               (case cif_order held of
                  Some op \<Rightarrow> set_state c cur (Open op) st
                | None \<Rightarrow> st\<lparr>tracked := (tracked st)(c := None)\<rparr>)
           | (_, Inl _) \<Rightarrow> st))"

definition record_in_flight_cancel ::
  "('e, 'i) order_request_cancel \<Rightarrow> time \<Rightarrow> ('e, 'i) orders \<Rightarrow> ('e, 'i) orders" where
  "record_in_flight_cancel req t st =
     (let c = key_cid (ev_key req) in
      case tracked st c of
        None \<Rightarrow> st
      | Some cur \<Rightarrow>
          (case o_state cur of
             CancelInFlight _ \<Rightarrow> st
           | s \<Rightarrow> set_state c cur
                (CancelInFlight \<lparr>cif_order = open_meta s, cif_time_sent = t\<rparr>) st))"

definition record_in_flight_open ::
  "('e, 'i) order_request_open \<Rightarrow> time \<Rightarrow> ('e, 'i) orders \<Rightarrow> ('e, 'i) orders" where
  "record_in_flight_open req t st =
     (let c = key_cid (ev_key req) in
      case tracked st c of
        Some _ \<Rightarrow> st
      | None \<Rightarrow> \<lparr>tracked = (tracked st)(c \<mapsto> open_in_flight req t),
                 retired = retired_forget c (retired st)\<rparr>)"

section \<open>The memory of ended orders implements the bounded memory\<close>

interpretation retired_memory: recent_memory retired_insert "\<lambda>r. r" max_recently_retired
  by unfold_locales (simp_all add: retired_insert_def max_recently_retired_def)

lemma retired_forget_mem [simp]: "x \<in> set (retired_forget c r) \<longleftrightarrow> x \<in> set r \<and> x \<noteq> c"
  by (auto simp: retired_forget_def)

lemma retired_forget_length: "length (retired_forget c r) \<le> length r"
  by (simp add: retired_forget_def)

lemma retired_forget_distinct: "distinct r \<Longrightarrow> distinct (retired_forget c r)"
  by (simp add: retired_forget_def)


section \<open>Events\<close>

text \<open>
  One step of the manager is one call of an operation. A panic is no step: the operation does
  not return.
\<close>

datatype ('e, 'i, 'a) orders_event =
  EvSnapshot "('e, 'i, 'a) order_snapshot"
  | EvFill client_order_id order_id decimal
  | EvCancelResponse "('e, 'i, 'a) order_response_cancel"
  | EvRecordCancel "('e, 'i) order_request_cancel" time
  | EvRecordOpen "('e, 'i) order_request_open" time
  | EvRemoveOpen client_order_id venue_order_id
  | EvClear "client_order_id list"

inductive orders_step ::
  "rounding \<Rightarrow> ('e, 'i) orders \<Rightarrow> ('e, 'i, 'a) orders_event \<Rightarrow> ('e, 'i) orders \<Rightarrow> bool"
  for R where
  snapshot: "update_from_order_snapshot R s st = Some st' \<Longrightarrow> orders_step R st (EvSnapshot s) st'"
| fill: "update_from_fill R c i q st = Some (b, st') \<Longrightarrow> orders_step R st (EvFill c i q) st'"
| cancel_response: "orders_step R st (EvCancelResponse r) (update_from_cancel_response r st)"
| record_cancel: "orders_step R st (EvRecordCancel rc t) (record_in_flight_cancel rc t st)"
| record_open: "orders_step R st (EvRecordOpen ro t) (record_in_flight_open ro t st)"
| remove_open: "orders_step R st (EvRemoveOpen c v) (snd (remove_open c v st))"
| clear: "distinct cs \<Longrightarrow> set cs = dom (tracked st) \<Longrightarrow>
    orders_step R st (EvClear cs) (orders_clear cs st)"

inductive orders_run ::
  "rounding \<Rightarrow> ('e, 'i) orders \<Rightarrow> ('e, 'i, 'a) orders_event list \<Rightarrow> ('e, 'i) orders \<Rightarrow> bool"
  for R where
  run_Nil: "orders_run R st [] st"
| run_Cons: "orders_step R st ev st' \<Longrightarrow> orders_run R st' evs st'' \<Longrightarrow> orders_run R st (ev # evs) st''"

inductive_cases orders_step_snapshotE: "orders_step R st (EvSnapshot s) st'"
inductive_cases orders_run_ConsE: "orders_run R st (ev # evs) st'"
inductive_simps orders_run_Nil [simp]: "orders_run R st [] st'"
inductive_simps orders_run_Cons: "orders_run R st (ev # evs) st'"

section \<open>What one operation does to a tracked order and to the memory\<close>

text \<open>
  Every operation makes one of a few elementary changes. The case analysis of the handlers is
  done once, here; invariants are then about the elementary changes.
\<close>

inductive change ::
  "client_order_id \<Rightarrow> ('e, 'i) orders \<Rightarrow> ('e, 'i) orders \<Rightarrow> bool" where
  same: "change c st st"
| moved: "tracked st c = Some cur \<Longrightarrow> \<not> is_open_in_flight s' \<Longrightarrow>
    (\<And>a. open_meta (o_state cur) = Some a \<Longrightarrow>
       \<exists>b. open_meta s' = Some b \<and> report_le a b \<and> \<not> contradicts (open_id a) (open_id b)) \<Longrightarrow>
    change c st (set_state c cur s' st)"
| ended: "tracked st c = Some cur \<Longrightarrow> change c st (drop_order c cur st)"
| ended_by_id: "tracked st c = Some cur \<Longrightarrow>
    change c st \<lparr>tracked = (tracked st)(c := None), retired = retired_insert c (retired st)\<rparr>"
| untracked: "tracked st c = Some cur \<Longrightarrow> change c st (st\<lparr>tracked := (tracked st)(c := None)\<rparr>)"
| remembered: "tracked st c = None \<Longrightarrow> change c st (retire c st)"
| adopted: "tracked st c = None \<Longrightarrow> c \<notin> set (retired st) \<Longrightarrow> key_cid (o_key u) = c \<Longrightarrow>
    change c st (st\<lparr>tracked := (tracked st)(c \<mapsto> u)\<rparr>)"

lemma update_untracked_change:
  assumes "update_untracked R c up st = Some st'" and "tracked st c = None"
    and "\<And>u. up = Some u \<Longrightarrow> key_cid (o_key u) = c \<and> \<not> is_open_in_flight (o_state u)"
  shows "change c st st'"
  using assms
  by (auto simp: update_untracked_def Let_def change.simps
      split: option.splits if_splits active_order_state.splits Option.bind_splits)

lemma update_tracked_change:
  assumes "update_tracked R c cur up st = Some st'" and "tracked st c = Some cur"
  shows "change c st st'"
proof (cases "o_state cur")
  case (OpenInFlight t)
  with assms show ?thesis
    by (auto simp: update_tracked_def split: active_order_state.splits Option.bind_splits if_splits
        intro: change.intros)
next
  case (Open held)
  with assms show ?thesis
    by (auto simp: update_tracked_def Let_def superseded_report_le
        split: active_order_state.splits Option.bind_splits if_splits option.splits
        intro!: change.intros)
next
  case (CancelInFlight held)
  with assms show ?thesis
    by (auto simp: update_tracked_def superseded_report_le
        split: active_order_state.splits if_splits option.splits intro!: change.intros)
qed

text \<open>
  An open request recorded under an id that is not tracked, by the engine or through a snapshot
  of its own record, is the one change that forgets an ended order.
\<close>

inductive reopened :: "client_order_id \<Rightarrow> ('e, 'i) orders \<Rightarrow> ('e, 'i) orders \<Rightarrow> bool" where
  reopened: "tracked st c = None \<Longrightarrow> key_cid (o_key u) = c \<Longrightarrow> is_open_in_flight (o_state u) \<Longrightarrow>
    reopened c st \<lparr>tracked = (tracked st)(c \<mapsto> u), retired = retired_forget c (retired st)\<rparr>"

fun event_cid :: "('e, 'i, 'a) orders_event \<Rightarrow> client_order_id option" where
  "event_cid (EvSnapshot s) = Some (key_cid (o_key s))"
| "event_cid (EvFill c i q) = Some c"
| "event_cid (EvCancelResponse r) = Some (key_cid (ev_key r))"
| "event_cid (EvRecordCancel r t) = Some (key_cid (ev_key r))"
| "event_cid (EvRecordOpen r t) = Some (key_cid (ev_key r))"
| "event_cid (EvRemoveOpen c v) = Some c"
| "event_cid (EvClear cs) = None"

fun opens_request :: "('e, 'i, 'a) orders_event \<Rightarrow> bool" where
  "opens_request (EvSnapshot s) = (case o_state s of Active a \<Rightarrow> is_open_in_flight a | _ \<Rightarrow> False)"
| "opens_request (EvRecordOpen r t) = True"
| "opens_request _ = False"

lemma snapshot_change:
  assumes "update_from_order_snapshot R s st = Some st'"
  shows "change (key_cid (o_key s)) st st'
    \<or> opens_request (EvSnapshot s) \<and> reopened (key_cid (o_key s)) st st'"
proof (cases "is_failed_open_to_ignore st s")
  case True
  with assms show ?thesis by (simp add: update_from_order_snapshot_def change.same)
next
  case False
  note ignore = False
  show ?thesis
  proof (cases "tracked st (key_cid (o_key s))")
    case (Some cur)
    show ?thesis
    proof (cases "to_active s")
      case None
      with assms ignore Some show ?thesis
        by (auto simp: update_from_order_snapshot_def Let_def intro: change.intros split: if_splits)
    next
      case (Some up)
      with assms ignore \<open>tracked st _ = Some cur\<close> show ?thesis
        by (auto simp: update_from_order_snapshot_def Let_def dest: update_tracked_change)
    qed
  next
    case None
    with assms ignore have up: "update_untracked R (key_cid (o_key s)) (to_active s) st = Some st'"
      by (simp add: update_from_order_snapshot_def Let_def)
    show ?thesis
    proof (cases "\<exists>u. to_active s = Some u \<and> is_open_in_flight (o_state u)")
      case True
      then obtain u t where u: "to_active s = Some u" "o_state u = OpenInFlight t"
        by (auto elim: is_open_in_flight.elims)
      then have "opens_request (EvSnapshot s)"
        by (auto simp: to_active_def map_state_def split: order_state.splits)
      moreover from up u have "reopened (key_cid (o_key s)) st st'"
        using None to_active_key [OF u(1)] by (auto simp: update_untracked_def intro!: reopened)
      ultimately show ?thesis by simp
    next
      case False
      with up None show ?thesis
        by (auto dest: to_active_key intro!: update_untracked_change)
    qed
  qed
qed

lemma fill_change: "update_from_fill R c i q st = Some (b, st') \<Longrightarrow> change c st st'"
  by (auto simp: update_from_fill_def Let_def report_le_def
      split: option.splits active_order_state.splits if_splits Option.bind_splits
      intro!: change.intros)

lemma cancel_response_change:
  "change (key_cid (ev_key r)) st (update_from_cancel_response r st)"
  by (auto simp: update_from_cancel_response_def Let_def
      split: option.splits active_order_state.splits sum.splits intro: change.intros)

lemma record_cancel_change:
  "change (key_cid (ev_key r)) st (record_in_flight_cancel r t st)"
  by (auto simp: record_in_flight_cancel_def Let_def
      split: option.splits active_order_state.splits intro!: change.intros)

lemma record_open_change:
  "change (key_cid (ev_key r)) st (record_in_flight_open r t st)
   \<or> reopened (key_cid (ev_key r)) st (record_in_flight_open r t st)"
  by (auto simp: record_in_flight_open_def Let_def open_in_flight_def
      split: option.splits intro: change.same reopened)

lemma remove_open_change: "change c st (snd (remove_open c v st))"
  by (auto simp: remove_open_def split: option.splits active_order_state.splits
      intro: change.intros)

lemmas operation_changes = snapshot_change fill_change cancel_response_change
  record_cancel_change record_open_change remove_open_change

lemma step_cases:
  assumes "orders_step R st ev st'"
  obtains (changed) c where "event_cid ev = Some c" and "change c st st'"
  | (opened) c where "event_cid ev = Some c" and "opens_request ev" and "reopened c st st'"
  | (cleared) cs where "ev = EvClear cs" and "distinct cs" and "set cs = dom (tracked st)" and "st' = orders_clear cs st"
  using assms
proof (cases rule: orders_step.cases)
  case (snapshot s)
  with snapshot_change [of R s st st'] changed opened show ?thesis by auto
next
  case (fill c i q b)
  with fill_change changed show ?thesis by (metis event_cid.simps(2))
next
  case (cancel_response r)
  with cancel_response_change changed show ?thesis by (metis event_cid.simps(3))
next
  case (record_cancel r t)
  with record_cancel_change changed show ?thesis by (metis event_cid.simps(4))
next
  case (record_open r t)
  with record_open_change [of r st t] changed opened show ?thesis by auto
next
  case (remove_open c v)
  with remove_open_change changed show ?thesis by (metis event_cid.simps(6))
next
  case (clear cs)
  with cleared show ?thesis by simp
qed

section \<open>Invariant\<close>

text \<open>
  Orders are filed under their own id, an ended order is not tracked, and the memory lists at
  most its capacity of distinct ids.
\<close>

definition orders_inv :: "('e, 'i) orders \<Rightarrow> bool" where
  "orders_inv st \<longleftrightarrow>
     (\<forall>c ord. tracked st c = Some ord \<longrightarrow> key_cid (o_key ord) = c \<and> c \<notin> set (retired st)) \<and>
     distinct (retired st) \<and> length (retired st) \<le> max_recently_retired"

lemma orders_invD:
  assumes "orders_inv st"
  shows "tracked st c = Some ord \<Longrightarrow> key_cid (o_key ord) = c"
    and "tracked st c = Some ord \<Longrightarrow> c \<notin> set (retired st)"
    and "length (retired st) \<le> max_recently_retired"
    and "distinct (retired st)"
  using assms by (auto simp: orders_inv_def)

lemma orders_inv_new: "orders_inv (orders_new Map.empty)"
  by (simp add: orders_inv_def orders_new_def)

lemma retired_insert_subset:
  "length r \<le> max_recently_retired \<Longrightarrow> x \<in> set (retired_insert c r) \<Longrightarrow> x = c \<or> x \<in> set r"
  using retired_memory.keep_subset [of r c] by auto

lemma change_inv:
  assumes "change c st st'" and "orders_inv st"
  shows "orders_inv st'"
  using assms(1)
proof cases
  case same
  with assms(2) show ?thesis by simp
next
  case (moved cur s')
  with assms(2) show ?thesis by (auto simp: orders_inv_def set_state_def)
next
  case (ended cur)
  with orders_invD(1) [OF assms(2)] have "key_cid (o_key cur) = c" by simp
  with ended assms(2) show ?thesis
    by (auto simp: orders_inv_def drop_order_def retired_memory.keep_distinct
        retired_memory.keep_length dest: retired_insert_subset)
next
  case (ended_by_id cur)
  with assms(2) show ?thesis
    by (auto simp: orders_inv_def retired_memory.keep_distinct retired_memory.keep_length
        dest: retired_insert_subset)
next
  case (untracked cur)
  with assms(2) show ?thesis by (auto simp: orders_inv_def)
next
  case remembered
  with assms(2) show ?thesis
    by (auto simp: orders_inv_def retire_def retired_memory.keep_distinct
        retired_memory.keep_length dest: retired_insert_subset)
next
  case (adopted u)
  with assms(2) show ?thesis by (auto simp: orders_inv_def)
qed

lemma reopened_inv: "reopened c st st' \<Longrightarrow> orders_inv st \<Longrightarrow> orders_inv st'"
  by (erule reopened.cases)
    (auto simp: orders_inv_def retired_forget_distinct
      intro: order_trans [OF retired_forget_length])

lemma fold_retired_inv:
  "length r \<le> max_recently_retired \<Longrightarrow> distinct r \<Longrightarrow>
   length (fold retired_insert cs r) \<le> max_recently_retired \<and> distinct (fold retired_insert cs r)"
  by (induction cs arbitrary: r)
    (simp_all add: retired_memory.keep_length retired_memory.keep_distinct)

lemma clear_inv: "orders_inv st \<Longrightarrow> orders_inv (orders_clear cs st)"
  by (simp add: orders_inv_def orders_clear_def fold_retired_inv)

lemma step_inv: "orders_step R st ev st' \<Longrightarrow> orders_inv st \<Longrightarrow> orders_inv st'"
  by (erule step_cases) (auto dest: change_inv reopened_inv intro: clear_inv)

lemma run_inv: "orders_run R st evs st' \<Longrightarrow> orders_inv st \<Longrightarrow> orders_inv st'"
  by (induction rule: orders_run.induct) (auto dest: step_inv)

section \<open>The memory over a run\<close>

text \<open>How many ids a step adds to the memory: the orders it ended for good.\<close>

definition newly_retired :: "('e, 'i) orders \<Rightarrow> ('e, 'i) orders \<Rightarrow> nat" where
  "newly_retired st st' = card (set (retired st') - set (retired st))"

text \<open>A run, with the number of orders that its steps end.\<close>

inductive ending_run ::
  "rounding \<Rightarrow> ('e, 'i) orders \<Rightarrow> ('e, 'i, 'a) orders_event list \<Rightarrow> nat \<Rightarrow> ('e, 'i) orders \<Rightarrow> bool"
  for R where
  ending_Nil: "ending_run R st [] 0 st"
| ending_Cons: "orders_step R st ev st' \<Longrightarrow> ending_run R st' evs n st'' \<Longrightarrow>
    ending_run R st (ev # evs) (newly_retired st st' + n) st''"

lemma ending_run_run: "ending_run R st evs n st' \<Longrightarrow> orders_run R st evs st'"
  by (induction rule: ending_run.induct) (auto intro: orders_run.intros)

text \<open>\<open>younger n c r\<close>: the memory \<open>r\<close> holds \<open>c\<close>, with room for \<open>n\<close> more ids before it is evicted.\<close>

definition younger :: "nat \<Rightarrow> client_order_id \<Rightarrow> client_order_id list \<Rightarrow> bool" where
  "younger n c r \<longleftrightarrow> (\<exists>xs ys. r = xs @ c # ys \<and> length ys + n < max_recently_retired)"

lemma younger_mem: "younger n c r \<Longrightarrow> c \<in> set r"
  by (auto simp: younger_def)

lemma younger_mono: "younger n c r \<Longrightarrow> m \<le> n \<Longrightarrow> younger m c r"
  unfolding younger_def by (elim exE conjE, intro exI conjI) (assumption, simp)

lemma younger_fold:
  "younger (length cs + n) c r \<Longrightarrow> length r \<le> max_recently_retired \<Longrightarrow>
   younger n c (fold retired_insert cs r)"
  unfolding younger_def
  by (elim exE conjE, rule retired_memory.fold_keep_younger) auto

lemma younger_insert:
  "younger (Suc n) c r \<Longrightarrow> length r \<le> max_recently_retired \<Longrightarrow> younger n c (retired_insert k r)"
  using younger_fold [of "[k]" n c r] by simp

lemma younger_forget: "younger n c r \<Longrightarrow> k \<noteq> c \<Longrightarrow> younger n c (retired_forget k r)"
proof -
  assume "younger n c r" and k: "k \<noteq> c"
  then obtain xs ys where "r = xs @ c # ys" "length ys + n < max_recently_retired"
    by (auto simp: younger_def)
  moreover from this k have "retired_forget k r = retired_forget k xs @ c # retired_forget k ys"
    by (simp add: retired_forget_def)
  ultimately show ?thesis
    using retired_forget_length [of k ys] unfolding younger_def
    by (metis add_le_mono1 le_less_trans)
qed

lemma younger_keep:
  assumes "younger (card (set (retired_insert k r) - set r) + n) c r" and "length r \<le> max_recently_retired"
  shows "younger n c (retired_insert k r)"
proof (cases "k \<in> set r")
  case True
  then have "retired_insert k r = r" by (rule retired_memory.keep_known)
  with assms(1) show ?thesis by simp
next
  case False
  with retired_memory.keep_mem [OF assms(2), of k] retired_memory.keep_subset [OF assms(2), of k]
  have "set (retired_insert k r) - set r = {k}" by auto
  with assms show ?thesis by (simp add: younger_insert)
qed

lemma change_younger:
  assumes "change k st st'" and "younger (newly_retired st st' + n) c (retired st)" and "orders_inv st"
  shows "younger n c (retired st')"
proof -
  have same: "younger n c (retired st)" using assms(2) by (rule younger_mono) simp
  have keep: "younger n c (retired st')" if "retired st' = retired_insert j (retired st)" for j
    using assms(2) orders_invD(3) [OF assms(3)] unfolding newly_retired_def that by (rule younger_keep)
  show ?thesis using assms(1)
  proof (cases rule: change.cases)
    case ended
    then show ?thesis by (intro keep) (simp add: drop_order_def)
  next
    case ended_by_id
    then show ?thesis by (intro keep) simp
  next
    case remembered
    then show ?thesis by (intro keep) (simp add: retire_def)
  qed (use same in \<open>simp_all add: set_state_def\<close>)
qed

text \<open>Many new ids at once: the last 64 of them are what the memory holds of them.\<close>

lemma fold_retired_new:
  assumes "distinct cs" and "set cs \<inter> set r = {}" and "length r \<le> max_recently_retired"
  shows "set (drop (length cs - max_recently_retired) cs) \<subseteq> set (fold retired_insert cs r)"
  using assms
proof (induction cs arbitrary: r)
  case (Cons k cs)
  let ?r = "retired_insert k r"
  have len: "length ?r \<le> max_recently_retired" using Cons.prems(3) by (rule retired_memory.keep_length)
  have "set cs \<inter> set ?r = {}"
    using retired_memory.keep_subset [OF Cons.prems(3), of k] Cons.prems(1,2) by auto
  then have IH: "set (drop (length cs - max_recently_retired) cs) \<subseteq> set (fold retired_insert cs ?r)"
    using Cons.IH len Cons.prems(1) by simp
  show ?case
  proof (cases "length cs < max_recently_retired")
    case True
    then have "k \<in> set (fold retired_insert cs ?r)"
      using retired_memory.kept_survives [OF Cons.prems(3)] Cons.prems(2) by simp
    with IH True show ?thesis by simp
  next
    case False
    then have "Suc (length cs) - max_recently_retired = Suc (length cs - max_recently_retired)" by simp
    with IH show ?thesis by simp
  qed
qed simp

lemma clear_younger:
  assumes "distinct cs" and "set cs = dom (tracked st)" and "orders_inv st"
    and "younger (newly_retired st (orders_clear cs st) + n) c (retired st)"
  shows "younger n c (retired (orders_clear cs st))"
proof -
  let ?r = "fold retired_insert cs (retired st)"
  have apart: "set cs \<inter> set (retired st) = {}" using assms(2,3) by (auto simp: orders_inv_def)
  have len: "length (retired st) \<le> max_recently_retired" using assms(3) by (rule orders_invD(3))
  have "card (set (drop (length cs - max_recently_retired) cs)) \<le> card (set ?r - set (retired st))"
    using fold_retired_new [OF assms(1) apart len] apart by (intro card_mono) (auto dest: in_set_dropD)
  moreover have "card (set (drop (length cs - max_recently_retired) cs)) = min (length cs) max_recently_retired"
    using assms(1) by (simp add: distinct_card)
  moreover have "newly_retired st (orders_clear cs st) = card (set ?r - set (retired st))"
    by (simp add: newly_retired_def orders_clear_def)
  ultimately have many: "min (length cs) max_recently_retired \<le> newly_retired st (orders_clear cs st)" by simp
  from assms(4) have "newly_retired st (orders_clear cs st) < max_recently_retired" by (auto simp: younger_def)
  with many have "length cs \<le> newly_retired st (orders_clear cs st)" by simp
  then have "younger (length cs + n) c (retired st)" using assms(4) by (auto elim: younger_mono)
  with len show ?thesis by (simp add: orders_clear_def younger_fold)
qed

lemma step_younger:
  assumes "orders_step R st ev st'" and "younger (newly_retired st st' + n) c (retired st)"
    and "orders_inv st" and "opens_request ev \<Longrightarrow> event_cid ev \<noteq> Some c"
  shows "younger n c (retired st')"
  using assms(1)
proof (cases rule: step_cases)
  case (changed k)
  with assms(2,3) show ?thesis by (blast intro: change_younger)
next
  case (opened k)
  with assms(4) have "k \<noteq> c" by auto
  moreover from assms(2) have "younger n c (retired st)" by (rule younger_mono) simp
  ultimately show ?thesis using opened(3)
    by (auto elim!: reopened.cases intro!: younger_forget)
next
  case (cleared cs)
  with assms(2,3) show ?thesis using clear_younger by blast
qed

lemma run_younger:
  assumes "ending_run R st evs m st'" and "orders_inv st" and "younger (m + n) c (retired st)"
    and "\<And>ev. ev \<in> set evs \<Longrightarrow> opens_request ev \<Longrightarrow> event_cid ev \<noteq> Some c"
  shows "younger n c (retired st')"
  using assms
proof (induction rule: ending_run.induct)
  case (ending_Nil st)
  then show ?case by simp
next
  case (ending_Cons st ev st' evs m st'')
  have "younger (m + n) c (retired st')"
    by (rule step_younger [OF ending_Cons.hyps(1)]) (use ending_Cons.prems in \<open>auto simp: add.assoc\<close>)
  moreover have "orders_inv st'" using ending_Cons.hyps(1) ending_Cons.prems(1) by (rule step_inv)
  ultimately show ?case using ending_Cons by simp
qed

section \<open>Progress of one order\<close>

lemma change_progress:
  assumes "change k st st'" and "tracked st c = Some ord" and "tracked st' c = Some ord'"
    and "open_meta (o_state ord) = Some a"
  shows "\<exists>b. open_meta (o_state ord') = Some b \<and> report_le a b
    \<and> \<not> contradicts (open_id a) (open_id b)"
  using assms
  by (cases rule: change.cases)
    (auto simp: set_state_def drop_order_def retire_def split: if_splits)

lemma step_progress:
  assumes "orders_step R st ev st'" and "tracked st c = Some ord" and "tracked st' c = Some ord'"
    and "open_meta (o_state ord) = Some a"
  shows "\<exists>b. open_meta (o_state ord') = Some b \<and> report_le a b
    \<and> \<not> contradicts (open_id a) (open_id b)"
  using assms(1)
proof (cases rule: step_cases)
  case (changed k)
  with assms show ?thesis by (blast intro: change_progress)
next
  case (opened k)
  with assms(2-4) show ?thesis by (auto elim!: reopened.cases split: if_splits)
next
  case (cleared cs)
  with assms(3) show ?thesis by (simp add: orders_clear_def)
qed

text \<open>A run in which \<open>c\<close> is tracked in every state, the first and the last included.\<close>

inductive tracked_run ::
  "rounding \<Rightarrow> client_order_id \<Rightarrow> ('e, 'i) orders \<Rightarrow> ('e, 'i, 'a) orders_event list \<Rightarrow> ('e, 'i) orders \<Rightarrow> bool"
  for R c where
  tracked_Nil: "tracked st c \<noteq> None \<Longrightarrow> tracked_run R c st [] st"
| tracked_Cons: "tracked st c \<noteq> None \<Longrightarrow> orders_step R st ev st' \<Longrightarrow> tracked_run R c st' evs st'' \<Longrightarrow>
    tracked_run R c st (ev # evs) st''"

lemma tracked_run_progress:
  assumes "tracked_run R c st evs st'" and "tracked st c = Some ord"
    and "open_meta (o_state ord) = Some a"
  shows "\<exists>ord' b. tracked st' c = Some ord' \<and> open_meta (o_state ord') = Some b \<and> report_le a b"
  using assms
proof (induction arbitrary: ord a rule: tracked_run.induct)
  case (tracked_Nil st)
  then show ?case by auto
next
  case (tracked_Cons st ev st' evs st'')
  then obtain ord' where o': "tracked st' c = Some ord'"
    by (auto elim: tracked_run.cases)
  with tracked_Cons obtain b where b: "open_meta (o_state ord') = Some b" "report_le a b"
    using step_progress by blast
  from tracked_Cons.IH [OF o' b(1)] b(2) show ?case by (auto intro: report_le_trans)
qed

section \<open>Order of arrival\<close>

text \<open>A list of reports of one working order, applied one after the other.\<close>

fun apply_reports ::
  "rounding \<Rightarrow> ('e, 'i, 'a) order_snapshot \<Rightarrow> open_state list \<Rightarrow> ('e, 'i) orders \<Rightarrow> ('e, 'i) orders option" where
  "apply_reports R s [] st = Some st"
| "apply_reports R s (op # ops) st =
     Option.bind (update_from_order_snapshot R (s\<lparr>o_state := Active (Open op)\<rparr>) st)
       (apply_reports R s ops)"

text \<open>The later of two reports, the one that arrives second where they tie.\<close>

definition later_report :: "open_state \<Rightarrow> open_state \<Rightarrow> open_state" where
  "later_report held op = (if is_superseded_by held op then op else held)"

lemma later_report_upper: "report_le held (later_report held op)" "report_le op (later_report held op)"
  using report_le_total [of held op] by (auto simp: later_report_def superseded_report_le)

lemma fold_later_upper:
  "report_le held (foldl later_report held ops) \<and> (\<forall>op \<in> set ops. report_le op (foldl later_report held ops))"
proof (induction ops arbitrary: held)
  case Nil
  then show ?case by simp
next
  case (Cons op ops)
  from Cons [of "later_report held op"] later_report_upper [of held op] later_report_upper(2) [of op held]
  show ?case by (auto intro: report_le_trans)
qed

lemma fold_later_mem: "foldl later_report held ops \<in> insert held (set ops)"
  by (induction ops arbitrary: held) (auto simp: later_report_def split: if_splits)

lemma report_le_antisym:
  assumes "report_le a b" and "report_le b a" and "open_id a = open_id b"
  shows "a = (b :: open_state)"
  using assms by (cases a; cases b) (auto simp: report_le_def)

lemma fold_later_cong:
  assumes "set xs = set ys" and "\<forall>op \<in> insert held (set xs). open_id op = i"
  shows "foldl later_report held xs = foldl later_report held ys"
proof (rule report_le_antisym)
  have x: "foldl later_report held xs \<in> insert held (set xs)"
    and y: "foldl later_report held ys \<in> insert held (set xs)"
    using fold_later_mem [of held xs] fold_later_mem [of held ys] assms(1) by auto
  show "report_le (foldl later_report held xs) (foldl later_report held ys)"
    using x fold_later_upper [of held ys] assms(1) by auto
  show "report_le (foldl later_report held ys) (foldl later_report held xs)"
    using y fold_later_upper [of held xs] by auto
  show "open_id (foldl later_report held xs) = open_id (foldl later_report held ys)"
    using x y assms(2) by metis
qed

lemma open_snapshot_step:
  assumes "tracked st (key_cid (o_key s)) = Some cur" and "o_state cur = Open held"
    and "\<not> contradicts (open_id held) (open_id op)"
    and "R (o_quantity s - open_filled_quantity op) = Some q" and "q \<noteq> 0"
  shows "update_from_order_snapshot R (s\<lparr>o_state := Active (Open op)\<rparr>) st =
    Some (set_state (key_cid (o_key s)) cur (Open (later_report held op)) st)"
proof -
  let ?s = "s\<lparr>o_state := Active (Open op)\<rparr>"
  have keep: "set_state (key_cid (o_key s)) cur (Open held) st = st"
    using assms(1,2) by (cases cur) (simp add: set_state_def map_upd_triv)
  have "to_active ?s = Some (map_state (\<lambda>_. Open op) ?s)"
    by (simp add: to_active_def map_state_def)
  moreover have "\<not> is_failed_open_to_ignore st ?s"
    by (simp add: is_failed_open_to_ignore_def is_contradicted_never_placed_def)
  moreover have "update_tracked R (key_cid (o_key s)) cur (map_state (\<lambda>_. Open op) ?s) st =
      Some (set_state (key_cid (o_key s)) cur (Open (later_report held op)) st)"
    using assms(2-5) keep
    by (simp add: update_tracked_def map_state_def later_report_def quantity_remaining_def dec_simps)
  ultimately show ?thesis using assms(1) by (simp add: update_from_order_snapshot_def)
qed

lemma apply_reports_eq:
  assumes "tracked st (key_cid (o_key s)) = Some cur" and "o_state cur = Open held"
    and "\<forall>op \<in> insert held (set ops). open_id op = i"
    and "\<forall>op \<in> set ops. R (o_quantity s - open_filled_quantity op) \<noteq> None
      \<and> R (o_quantity s - open_filled_quantity op) \<noteq> Some 0"
  shows "apply_reports R s ops st =
    Some (set_state (key_cid (o_key s)) cur (Open (foldl later_report held ops)) st)"
  using assms
proof (induction ops arbitrary: st cur held)
  case Nil
  then show ?case by (simp add: set_state_def map_upd_triv)
next
  case (Cons op ops)
  let ?c = "key_cid (o_key s)" and ?cur = "cur\<lparr>o_state := Open (later_report held op)\<rparr>"
  let ?st = "set_state ?c cur (Open (later_report held op)) st"
  have ids: "open_id held = i" "open_id op = i" "open_id (later_report held op) = i"
    using Cons.prems(3) by (simp_all add: later_report_def)
  obtain q where q: "R (o_quantity s - open_filled_quantity op) = Some q" "q \<noteq> 0"
    using Cons.prems(4) by auto
  have "\<not> contradicts (open_id held) (open_id op)" by (simp add: ids)
  with Cons.prems(1,2) have st:
      "update_from_order_snapshot R (s\<lparr>o_state := Active (Open op)\<rparr>) st = Some ?st"
    using q by (rule open_snapshot_step)
  have "apply_reports R s ops ?st =
      Some (set_state ?c ?cur (Open (foldl later_report (later_report held op) ops)) ?st)"
  proof (rule Cons.IH)
    show "tracked ?st ?c = Some ?cur" by (simp add: set_state_def)
    show "o_state ?cur = Open (later_report held op)" by simp
    show "\<forall>op' \<in> insert (later_report held op) (set ops). open_id op' = i"
      using Cons.prems(3) ids(3) by simp
    show "\<forall>op' \<in> set ops. R (o_quantity s - open_filled_quantity op') \<noteq> None
      \<and> R (o_quantity s - open_filled_quantity op') \<noteq> Some 0"
      using Cons.prems(4) by (meson list.set_intros(2))
  qed
  with st show ?case by (simp add: set_state_def)
qed

section \<open>An order that has just ended\<close>

lemma change_ended_last:
  assumes "change k st st'" and "orders_inv st" and "tracked st c \<noteq> None"
    and "c \<in> set (retired st')"
  shows "younger 63 c (retired st')"
proof -
  have c: "c \<notin> set (retired st)" using assms(2,3) by (auto simp: orders_inv_def)
  have last: "younger 63 c (retired_insert c (retired st))"
    using c by (auto simp: younger_def retired_insert_def max_recently_retired_def
      intro!: exI [where x = "[]"])
  have other: "c \<in> set (retired_insert j (retired st)) \<Longrightarrow> j = c" for j
    using c retired_insert_subset [of "retired st" c j] orders_invD(3) [OF assms(2)] by auto
  show ?thesis
    using assms(1,4) c last other
    by (cases rule: change.cases) (auto simp: set_state_def drop_order_def retire_def)
qed

section \<open>Concrete orders for the witnesses\<close>

definition ex_key :: "(unit, unit) order_key" where
  "ex_key = \<lparr>key_exchange = (), key_instrument = (), key_strategy = ''s'', key_cid = ''c''\<rparr>"

definition ex_request :: "(unit, unit) order_request_open" where
  "ex_request = \<lparr>ev_key = ex_key, ev_state = \<lparr>ro_side = Buy, ro_price = Some 10, ro_quantity = 5,
     ro_kind = Limit, ro_time_in_force = GoodUntilCancelled False, ro_position_id = None,
     ro_reduce_only = RONo, ro_margin_effect = None\<rparr>\<rparr>"

definition ex_open :: "decimal \<Rightarrow> time \<Rightarrow> open_state" where
  "ex_open q t = \<lparr>open_id = Assigned ''v'', open_time_exchange = t, open_filled_quantity = q\<rparr>"

definition ex_snapshot :: "(unit, unit) order_state \<Rightarrow> (unit, unit, unit) order_snapshot" where
  "ex_snapshot s = \<lparr>o_key = ex_key, o_side = Buy, o_price = Some 10, o_quantity = 5, o_kind = Limit,
     o_time_in_force = GoodUntilCancelled False, o_state = s\<rparr>"

definition ex_tracked :: "active_order_state \<Rightarrow> (unit, unit) orders" where
  "ex_tracked s = \<lparr>tracked = [''c'' \<mapsto> open_in_flight ex_request 0\<lparr>o_state := s\<rparr>], retired = []\<rparr>"

lemmas ex_defs = ex_key_def ex_request_def ex_open_def ex_snapshot_def ex_tracked_def
  open_in_flight_def orders_new_def

lemma ex_run_request:
  "orders_run R (orders_new Map.empty) [EvRecordOpen ex_request 0] (ex_tracked (OpenInFlight 0))"
proof -
  have "record_in_flight_open ex_request 0 (orders_new Map.empty) = ex_tracked (OpenInFlight 0)"
    by (simp add: record_in_flight_open_def ex_defs retired_forget_def)
  then show ?thesis
    by (metis orders_run.intros orders_step.record_open)
qed

lemma ex_step_filled:
  "orders_step R (ex_tracked (OpenInFlight 0))
     (EvSnapshot (ex_snapshot (Inactive (FullyFilled \<lparr>filled_id = ''v'', filled_time_exchange = 1,
        filled_filled_quantity = 5, filled_avg_price = None\<rparr>))))
     \<lparr>tracked = Map.empty, retired = [''c'']\<rparr>"
  by (rule orders_step.snapshot)
    (simp add: update_from_order_snapshot_def is_failed_open_to_ignore_def to_active_def ex_defs
      is_contradicted_never_placed_def is_duplicate_cid_refusal_def drop_order_def retired_insert_def
      max_recently_retired_def)

section \<open>Properties\<close>

text \<open>In every state the manager can reach, each tracked order is filed under its own client
  order id, an id remembered as ended is not tracked, and the memory of ended orders lists at most
  64 ids, none twice.\<close>

theorem orders_reachable_invariant:
  assumes "orders_run R (orders_new Map.empty) evs st"
  shows "(\<forall>c ord. tracked st c = Some ord \<longrightarrow> key_cid (o_key ord) = c \<and> c \<notin> set (retired st)) \<and>
    distinct (retired st) \<and> length (retired st) \<le> 64"
  using run_inv [OF assms orders_inv_new] by (simp add: orders_inv_def max_recently_retired_def)

theorem orders_reachable_invariant_witness:
  "tracked (ex_tracked (OpenInFlight 0)) ''c'' \<noteq> None \<and>
   ''c'' \<notin> set (retired (ex_tracked (OpenInFlight 0)))"
  using orders_reachable_invariant [OF ex_run_request]
  by (simp add: ex_tracked_def)

text \<open>C1: An order that ended stays ended. Once a step retires a tracked order, no run of events
  tracks its id again, however many reports, listings, fills and cancel answers arrive and in whatever
  order, as long as they end fewer than 64 other orders for good and none is a new open request under
  the id. An event that ends no order does not count.\<close>

theorem orders_retired_stays_retired:
  assumes "orders_run R (orders_new Map.empty) before st"
    and "orders_step R st ev st1" and "event_cid ev = Some c"
    and "tracked st c \<noteq> None" and "c \<in> set (retired st1)"
    and "ending_run R st1 evs n st2" and "n < 64"
    and "\<forall>e \<in> set evs. opens_request e \<longrightarrow> event_cid e \<noteq> Some c"
  shows "tracked st2 c = None"
proof -
  have inv: "orders_inv st" using assms(1) orders_inv_new by (rule run_inv)
  then have inv1: "orders_inv st1" using assms(2) by (blast intro: step_inv)
  have "younger 63 c (retired st1)"
    using assms(2)
  proof (cases rule: step_cases)
    case (changed k)
    with inv assms(4,5) show ?thesis by (blast intro: change_ended_last)
  next
    case (opened k)
    with inv assms(4,5) show ?thesis by (auto elim!: reopened.cases simp: orders_inv_def)
  next
    case (cleared cs)
    with assms(3) show ?thesis by simp
  qed
  then have "younger (n + 0) c (retired st1)"
    by (rule younger_mono) (use assms(7) in simp)
  then have "younger 0 c (retired st2)"
    by (rule run_younger [OF assms(6) inv1]) (use assms(8) in blast)
  then have "c \<in> set (retired st2)" by (rule younger_mem)
  with run_inv [OF ending_run_run [OF assms(6)] inv1] show ?thesis
    by (cases "tracked st2 c") (auto simp: orders_inv_def)
qed

theorem orders_retired_stays_retired_witness:
  "tracked (\<lparr>tracked = Map.empty, retired = [''c'']\<rparr> :: (unit, unit) orders) ''c'' = None"
proof (rule orders_retired_stays_retired [OF ex_run_request ex_step_filled])
  let ?st = "\<lparr>tracked = Map.empty, retired = [''c'']\<rparr> :: (unit, unit) orders"
  let ?late = "EvSnapshot (ex_snapshot (Active (Open (ex_open 0 0))))"
  have "orders_step Some ?st ?late ?st"
    by (rule orders_step.snapshot)
      (simp add: update_from_order_snapshot_def is_failed_open_to_ignore_def to_active_def ex_defs
        is_contradicted_never_placed_def update_untracked_def map_state_def)
  from ending_Cons [OF this ending_Nil] show "ending_run Some ?st [?late] 0 ?st"
    by (simp add: newly_retired_def)
qed (simp_all add: ex_defs)

text \<open>C2: While an order stays tracked, what the venue reported of it only advances: whatever events
  arrive, the report held at the end is no earlier than the one held at the start, so its
  cumulative fill never decreases and, at one cumulative fill, its time stamp never goes back.\<close>

theorem orders_report_never_rewinds:
  assumes "tracked_run R c st evs st'" and "tracked st c = Some ord"
    and "open_meta (o_state ord) = Some a"
  shows "\<exists>ord' b. tracked st' c = Some ord' \<and> open_meta (o_state ord') = Some b \<and>
    open_filled_quantity a \<le> open_filled_quantity b \<and>
    (open_filled_quantity a = open_filled_quantity b \<longrightarrow> open_time_exchange a \<le> open_time_exchange b)"
  using tracked_run_progress [OF assms] by (fastforce simp: report_le_def)

theorem orders_report_never_rewinds_witness:
  "\<exists>ord' b. tracked (ex_tracked (Open (ex_open 2 7))) ''c'' = Some ord' \<and>
    open_meta (o_state ord') = Some b \<and> open_filled_quantity (ex_open 2 7) \<le> open_filled_quantity b \<and>
    (open_filled_quantity (ex_open 2 7) = open_filled_quantity b \<longrightarrow>
       open_time_exchange (ex_open 2 7) \<le> open_time_exchange b)"
proof (rule orders_report_never_rewinds)
  let ?st = "ex_tracked (Open (ex_open 2 7))"
  let ?stale = "EvSnapshot (ex_snapshot (Active (Open (ex_open 1 9))))"
  have "orders_step Some ?st ?stale ?st"
    by (rule orders_step.snapshot)
      (simp add: update_from_order_snapshot_def is_failed_open_to_ignore_def to_active_def ex_defs
        is_contradicted_never_placed_def update_tracked_def map_state_def is_superseded_by_def Let_def)
  moreover have "tracked ?st ''c'' \<noteq> None" by (simp add: ex_tracked_def)
  ultimately show "tracked_run Some ''c'' ?st [?stale] ?st"
    by (blast intro: tracked_run.intros)
  show "tracked ?st ''c'' = Some (open_in_flight ex_request 0\<lparr>o_state := Open (ex_open 2 7)\<rparr>)"
    by (simp add: ex_tracked_def)
qed simp

text \<open>C3: The reports of a working order can arrive in any order, any of them more than once: two
  lists with the same reports of one venue order, none of them complete or out of the range of a
  decimal, leave the manager in the same state.\<close>

theorem orders_arrival_order_irrelevant:
  assumes "tracked st (key_cid (o_key s)) = Some cur" and "o_state cur = Open held"
    and "set xs = set ys" and "\<forall>op \<in> insert held (set xs). open_id op = i"
    and "\<forall>op \<in> set xs. R (o_quantity s - open_filled_quantity op) \<notin> {None, Some 0}"
  shows "apply_reports R s xs st \<noteq> None \<and> apply_reports R s xs st = apply_reports R s ys st"
proof -
  have "apply_reports R s xs st =
      Some (set_state (key_cid (o_key s)) cur (Open (foldl later_report held xs)) st)"
    using assms(1,2,4) by (rule apply_reports_eq) (use assms(5) in auto)
  moreover have "apply_reports R s ys st =
      Some (set_state (key_cid (o_key s)) cur (Open (foldl later_report held ys)) st)"
    using assms(1,2) by (rule apply_reports_eq [where i = i]) (use assms(3-5) in auto)
  ultimately show ?thesis using fold_later_cong [OF assms(3,4)] by simp
qed

theorem orders_arrival_order_irrelevant_witness:
  "apply_reports Some (ex_snapshot (Active (OpenInFlight 0))) [ex_open 2 3, ex_open 4 1, ex_open 2 9]
     (ex_tracked (Open (ex_open 1 0))) =
   apply_reports Some (ex_snapshot (Active (OpenInFlight 0))) [ex_open 4 1, ex_open 2 9, ex_open 2 3, ex_open 2 9]
     (ex_tracked (Open (ex_open 1 0)))"
proof (rule orders_arrival_order_irrelevant [where i = "Assigned ''v''", THEN conjunct2])
  show "tracked (ex_tracked (Open (ex_open 1 0)))
      (key_cid (o_key (ex_snapshot (Active (OpenInFlight 0))))) =
      Some (open_in_flight ex_request 0\<lparr>o_state := Open (ex_open 1 0)\<rparr>)"
    by (simp add: ex_tracked_def ex_snapshot_def ex_key_def)
  show "\<forall>op \<in> insert (ex_open 1 0) (set [ex_open 2 3, ex_open 4 1, ex_open 2 9]). open_id op = Assigned ''v''"
    by (simp add: ex_open_def)
  show "\<forall>op \<in> set [ex_open 2 3, ex_open 4 1, ex_open 2 9].
      Some (o_quantity (ex_snapshot (Active (OpenInFlight 0))) - open_filled_quantity op) \<notin> {None, Some 0}"
    by (simp add: ex_open_def ex_snapshot_def)
qed auto

text \<open>Fills commute: two fills of one order leave the same orders and the same memory whichever
  is applied first, and a fill delivered twice counts once, since a fill carries the order's
  cumulative quantity and is never added up.\<close>

theorem orders_fills_commute:
  assumes "rounding_laws R" and "tracked st c = Some ord"
    and "R (o_quantity ord - p) \<noteq> None" and "R (o_quantity ord - q) \<noteq> None"
  shows "Option.bind (update_from_fill R c i p st) (\<lambda>(_, st'). map_option snd (update_from_fill R c i q st')) =
         Option.bind (update_from_fill R c i q st) (\<lambda>(_, st'). map_option snd (update_from_fill R c i p st'))
    \<and> Option.bind (update_from_fill R c i p st) (\<lambda>(_, st'). map_option snd (update_from_fill R c i p st')) =
         map_option snd (update_from_fill R c i p st)
    \<and> update_from_fill R c i p st \<noteq> None"
proof -
  obtain x y where xy: "R (o_quantity ord - p) = Some x" "R (o_quantity ord - q) = Some y"
    using assms(3,4) by auto
  have "p \<le> q \<Longrightarrow> y \<le> x" and "q \<le> p \<Longrightarrow> x \<le> y"
    using rounding_laws_mono [OF assms(1) _ xy(2) xy(1)] rounding_laws_mono [OF assms(1) _ xy] by auto
  with assms(2) xy show ?thesis
    by (cases "o_state ord")
      (auto simp: update_from_fill_def set_state_def quantity_remaining_def dec_simps)
qed

theorem orders_fills_commute_witness:
  "Option.bind (update_from_fill Some ''c'' ''v'' 3 (ex_tracked (Open (ex_open 1 0))))
      (\<lambda>(_, st'). map_option snd (update_from_fill Some ''c'' ''v'' 5 st')) =
   Option.bind (update_from_fill Some ''c'' ''v'' 5 (ex_tracked (Open (ex_open 1 0))))
      (\<lambda>(_, st'). map_option snd (update_from_fill Some ''c'' ''v'' 3 st'))"
  by (rule orders_fills_commute [where ord = "open_in_flight ex_request 0\<lparr>o_state := Open (ex_open 1 0)\<rparr>",
        OF rounding_laws_Some, THEN conjunct1])
    (simp_all add: ex_tracked_def)

text \<open>What a failed open does to a tracked order, exactly: it is left alone when the outcome is
  unknown, when the venue is said never to have seen an order it reported working, and when it
  refuses a request under an id in use by an order that is past its own request. Every other
  failure ends the order and remembers its id.\<close>

theorem orders_failed_open_effect:
  assumes "tracked st (key_cid (o_key s)) = Some cur" and "o_state s = Inactive (OpenFailed e)"
  shows "update_from_order_snapshot R s st = Some
    (if order_error_is_outcome_unknown e
        \<or> (\<exists>r. e = NotPlaced r) \<and> open_meta (o_state cur) \<noteq> None
        \<or> (\<exists>m. e = Rejected (DuplicateClientOrderId m)) \<and> \<not> is_open_in_flight (o_state cur)
     then st
     else \<lparr>tracked = (tracked st)(key_cid (o_key s) := None),
           retired = retired_insert (key_cid (o_key cur)) (retired st)\<rparr>)"
proof -
  have "is_contradicted_never_placed st s \<longleftrightarrow> (\<exists>r. e = NotPlaced r) \<and> open_meta (o_state cur) \<noteq> None"
    using assms by (auto simp: is_contradicted_never_placed_def
      split: order_error.splits active_order_state.splits)
  moreover have "is_duplicate_cid_refusal (o_state s) \<longleftrightarrow> (\<exists>m. e = Rejected (DuplicateClientOrderId m))"
    using assms by (auto simp: is_duplicate_cid_refusal_def split: order_error.splits api_error.splits)
  moreover have "is_outcome_unknown (o_state s) = order_error_is_outcome_unknown e"
    using assms(2) by simp
  ultimately show ?thesis using assms
    by (auto simp: update_from_order_snapshot_def is_failed_open_to_ignore_def to_active_def drop_order_def)
qed

theorem orders_failed_open_effect_witness:
  "update_from_order_snapshot Some
     (ex_snapshot (Inactive (OpenFailed (NotPlaced UnknownToVenue)))) (ex_tracked (OpenInFlight 0)) =
   Some \<lparr>tracked = Map.empty, retired = [''c'']\<rparr>"
  using orders_failed_open_effect [where R = Some and st = "ex_tracked (OpenInFlight 0)"
      and s = "ex_snapshot (Inactive (OpenFailed (NotPlaced UnknownToVenue)))"
      and e = "NotPlaced UnknownToVenue" and cur = "open_in_flight ex_request 0\<lparr>o_state := OpenInFlight 0\<rparr>"]
  by (simp add: ex_defs retired_insert_def max_recently_retired_def)

text \<open>Applying an order snapshot never panics, provided the snapshot's own quantity less the
  cumulative fill it reports is a decimal: no other arithmetic is done, whatever the manager holds
  and whatever state the snapshot carries.\<close>

theorem orders_snapshot_no_panic:
  assumes "\<And>op. o_state s = Active (Open op) \<Longrightarrow> R (o_quantity s - open_filled_quantity op) \<noteq> None"
  shows "update_from_order_snapshot R s st \<noteq> None"
proof -
  have rem: "\<exists>y. quantity_remaining R op (o_quantity u) = Some y"
    if "to_active s = Some u" "o_state u = Open op" for u op
    using that assms by (auto simp: to_active_def map_state_def quantity_remaining_def dec_simps
      split: order_state.splits)
  show ?thesis
  proof (cases "to_active s")
    case None
    then show ?thesis
      by (auto simp: update_from_order_snapshot_def update_untracked_def Let_def split: option.splits)
  next
    case (Some u)
    show ?thesis
    proof (cases "o_state u")
      case (Open op)
      with rem [OF Some] obtain y where "quantity_remaining R op (o_quantity u) = Some y" by blast
      with Some Open show ?thesis
        unfolding update_from_order_snapshot_def update_untracked_def update_tracked_def Let_def
        by (auto split: option.splits active_order_state.splits)
    qed (use Some in \<open>auto simp: update_from_order_snapshot_def update_untracked_def update_tracked_def Let_def
          split: option.splits active_order_state.splits\<close>)
  qed
qed

theorem orders_snapshot_no_panic_witness:
  "update_from_order_snapshot Some (ex_snapshot (Active (Open (ex_open 7 0)))) (ex_tracked (OpenInFlight 0)) \<noteq> None"
  by (rule orders_snapshot_no_panic) simp

text \<open>A cancel in flight hides a completed fill. A report that nothing is left to fill, applied
  while a cancel is in flight, is stored rather than retiring the order, and the venue's refusal of
  the cancel then makes it a tracked open order again, with nothing remaining.\<close>

theorem orders_completed_under_cancel_reopens:
  assumes "tracked st (key_cid (o_key s)) = Some cur"
    and "o_state cur = CancelInFlight held" and "o_state s = Active (Open op)"
    and "\<forall>h. cif_order held = Some h \<longrightarrow>
      \<not> contradicts (open_id h) (open_id op) \<and> is_superseded_by h op"
    and "R (o_quantity s - open_filled_quantity op) = Some 0"
    and "ev_key resp = o_key s" and "ev_state resp = Inl e"
  shows "\<exists>st'. update_from_order_snapshot R s st = Some st' \<and>
    tracked (update_from_cancel_response resp st') (key_cid (o_key s)) = Some (cur\<lparr>o_state := Open op\<rparr>) \<and>
    quantity_remaining R op (o_quantity s) = Some 0"
proof -
  have "update_from_order_snapshot R s st = Some (set_state (key_cid (o_key s)) cur
      (CancelInFlight \<lparr>cif_order = Some op, cif_time_sent = cif_time_sent held\<rparr>) st)"
    using assms(1-4)
    by (cases "cif_order held")
      (auto simp: update_from_order_snapshot_def is_failed_open_to_ignore_def to_active_def
        is_contradicted_never_placed_def map_state_def update_tracked_def)
  with assms show ?thesis
    by (simp add: update_from_cancel_response_def set_state_def quantity_remaining_def dec_simps)
qed

theorem orders_completed_under_cancel_reopens_witness:
  "\<exists>st'. update_from_order_snapshot Some (ex_snapshot (Active (Open (ex_open 5 1))))
     (ex_tracked (CancelInFlight \<lparr>cif_order = Some (ex_open 2 0), cif_time_sent = 0\<rparr>)) = Some st' \<and>
   tracked (update_from_cancel_response \<lparr>ev_key = ex_key, ev_state = Inl (Connectivity Timeout)\<rparr> st')
     (key_cid (o_key (ex_snapshot (Active (Open (ex_open 5 1)))))) =
     Some ((open_in_flight ex_request 0\<lparr>o_state := CancelInFlight \<lparr>cif_order = Some (ex_open 2 0),
       cif_time_sent = 0\<rparr>\<rparr>)\<lparr>o_state := Open (ex_open 5 1)\<rparr>) \<and>
   quantity_remaining Some (ex_open 5 1) (o_quantity (ex_snapshot (Active (Open (ex_open 5 1))))) = Some 0"
  by (rule orders_completed_under_cancel_reopens
      [where held = "\<lparr>cif_order = Some (ex_open 2 0), cif_time_sent = 0\<rparr>" and e = "Connectivity Timeout"])
    (simp_all add: ex_tracked_def ex_snapshot_def ex_open_def ex_key_def is_superseded_by_def)

end
