(* ===== verification/Books.thy ===== *)
theory Books
  imports Prelude "HOL-Library.Multiset"
begin

text \<open>
  Local order books, \<open>rustrade-data/src/books/mod.rs\<close>: the two sides as vectors of levels, best
  level first, updated in place by a binary search; books built from venue levels, cut to a
  depth, updated from events; and the prices read off the best levels. The abstract content of
  a side is a map from prices to amounts.
\<close>

section \<open>Data\<close>

record level =
  lv_price :: decimal
  lv_amount :: decimal

record order_book_times =
  bt_engine :: "time option"
  bt_exchange :: "time option"
  bt_received :: time

record order_book =
  ob_sequence :: u64
  ob_times :: order_book_times
  ob_bids :: "level list"
  ob_asks :: "level list"

datatype order_book_event = BookSnapshot order_book | BookUpdate order_book

lemma level_eqI: "lv_price a = lv_price b \<Longrightarrow> lv_amount a = lv_amount b \<Longrightarrow> a = (b :: level)"
  by simp

text \<open>\<open>std::cmp::Ordering\<close> and the comparison of two decimals.\<close>

datatype ordering = Less | Equal | Greater

fun reverse_ordering :: "ordering \<Rightarrow> ordering" where
  "reverse_ordering Less = Greater"
| "reverse_ordering Equal = Equal"
| "reverse_ordering Greater = Less"

definition dec_cmp :: "decimal \<Rightarrow> decimal \<Rightarrow> ordering" where
  "dec_cmp a b = (if a < b then Less else if a = b then Equal else Greater)"

lemma dec_cmp_simps [simp]:
  "dec_cmp a b = Less \<longleftrightarrow> a < b" "dec_cmp a b = Equal \<longleftrightarrow> a = b" "dec_cmp a b = Greater \<longleftrightarrow> b < a"
  by (auto simp: dec_cmp_def)

lemma reverse_ordering_simps [simp]:
  "reverse_ordering c = Less \<longleftrightarrow> c = Greater" "reverse_ordering c = Equal \<longleftrightarrow> c = Equal"
  "reverse_ordering c = Greater \<longleftrightarrow> c = Less"
  by (cases c; simp)+

section \<open>Binary search\<close>

text \<open>
  The standard library's \<open>slice::binary_search_by\<close>: a loop that halves the size of the interval,
  then one last comparison. \<open>Inr i\<close> is \<open>Ok(i)\<close>, the position of an element that compares equal,
  \<open>Inl i\<close> is \<open>Err(i)\<close>, the position where one would be inserted.
\<close>

function bs_loop :: "('a \<Rightarrow> ordering) \<Rightarrow> 'a list \<Rightarrow> nat \<Rightarrow> nat \<Rightarrow> nat" where
  "bs_loop f xs base n =
     (if n \<le> 1 then base
      else bs_loop f xs (if f (xs ! (base + n div 2)) = Greater then base else base + n div 2)
             (n - n div 2))"
  by pat_completeness auto

termination by (relation "measure (\<lambda>(_, _, _, n). n)") auto

declare bs_loop.simps [simp del]

definition binary_search_by :: "('a \<Rightarrow> ordering) \<Rightarrow> 'a list \<Rightarrow> nat + nat" where
  "binary_search_by f xs =
     (if xs = [] then Inl 0
      else
        let base = bs_loop f xs 0 (length xs) in
        case f (xs ! base) of
          Equal \<Rightarrow> Inr base
        | Less \<Rightarrow> Inl (base + 1)
        | Greater \<Rightarrow> Inl base)"

lemma bs_loop_inv:
  assumes "0 < n" and "base + n \<le> length xs"
    and "\<forall>k. base + n \<le> k \<longrightarrow> k < length xs \<longrightarrow> f (xs ! k) = Greater"
    and "base = 0 \<or> f (xs ! base) \<noteq> Greater"
    and "\<forall>i j. i \<le> j \<longrightarrow> j < length xs \<longrightarrow> f (xs ! i) = Greater \<longrightarrow> f (xs ! j) = Greater"
  shows "bs_loop f xs base n < length xs \<and>
    (\<forall>k > bs_loop f xs base n. k < length xs \<longrightarrow> f (xs ! k) = Greater) \<and>
    (bs_loop f xs base n = 0 \<or> f (xs ! bs_loop f xs base n) \<noteq> Greater)"
  using assms
proof (induction f xs base n rule: bs_loop.induct)
  case (1 f xs base n)
  show ?case
  proof (cases "n \<le> 1")
    case True
    with "1.prems" show ?thesis by (subst (1 2 3 4) bs_loop.simps) auto
  next
    case False
    let ?b = "if f (xs ! (base + n div 2)) = Greater then base else base + n div 2"
    have "bs_loop f xs base n = bs_loop f xs ?b (n - n div 2)"
      using False by (subst bs_loop.simps) simp
    moreover have "\<forall>k. ?b + (n - n div 2) \<le> k \<longrightarrow> k < length xs \<longrightarrow> f (xs ! k) = Greater"
    proof (intro allI impI)
      fix k assume k: "?b + (n - n div 2) \<le> k" "k < length xs"
      show "f (xs ! k) = Greater"
      proof (cases "f (xs ! (base + n div 2)) = Greater")
        case True
        then have "base + n div 2 \<le> k" using k(1) by simp
        with True k(2) "1.prems"(5) show ?thesis by blast
      next
        case False
        with k "1.prems"(3) show ?thesis by simp
      qed
    qed
    moreover have "0 < n - n div 2" and "?b + (n - n div 2) \<le> length xs"
      using False "1.prems"(2) by auto
    moreover have "?b = 0 \<or> f (xs ! ?b) \<noteq> Greater" using "1.prems"(4) by simp
    ultimately show ?thesis using "1.IH" [OF False _ _ _ _ "1.prems"(5)] by metis
  qed
qed

lemma binary_search_split:
  assumes "\<forall>e \<in> set xs. f e = Less" and "\<forall>e \<in> set ys. f e = Greater"
  shows "binary_search_by f (xs @ ys) = Inl (length xs)"
    and "f e = Equal \<Longrightarrow> binary_search_by f (xs @ e # ys) = Inr (length xs)"
proof -
  have search: "binary_search_by f (xs @ ms @ ys) =
      (if ms = [] then Inl (length xs) else Inr (length xs))"
    if ms: "length ms \<le> 1" "\<forall>e \<in> set ms. f e = Equal" for ms
  proof (cases "xs @ ms @ ys = []")
    case True
    then show ?thesis by (simp add: binary_search_by_def)
  next
    case False
    define zs where "zs = xs @ ms @ ys"
    define n where "n = length xs + length ms"
    define b where "b = bs_loop f zs 0 (length zs)"
    have val: "f (zs ! k) = (if k < length xs then Less else if k < n then Equal else Greater)"
      if "k < length zs" for k
      using that assms ms(2) by (auto simp: nth_append zs_def n_def)
    have nx: "length xs \<le> n" by (simp add: n_def)
    have le: "n \<le> length zs" by (simp add: n_def zs_def)
    have ne: "0 < length zs" using False by (simp add: zs_def)
    have mono: "\<forall>i j. i \<le> j \<longrightarrow> j < length zs \<longrightarrow> f (zs ! i) = Greater \<longrightarrow> f (zs ! j) = Greater"
    proof (intro allI impI)
      fix i j assume "i \<le> j" "j < length zs" "f (zs ! i) = Greater"
      then show "f (zs ! j) = Greater" using val [of i] val [of j] by (simp split: if_splits)
    qed
    have b: "b < length zs" "\<forall>k > b. k < length zs \<longrightarrow> f (zs ! k) = Greater"
        "b = 0 \<or> f (zs ! b) \<noteq> Greater"
      using bs_loop_inv [OF ne _ _ _ mono, of 0] unfolding b_def by auto
    have up: "n \<le> Suc b"
    proof (rule ccontr)
      assume "\<not> n \<le> Suc b"
      then have "Suc b < length zs" "Suc b < n" using le by auto
      then show False using b(2) val [of "Suc b"] by (simp split: if_splits)
    qed
    have "b < n \<or> b = 0 \<and> n = 0"
      using b(1,3) val [of b] nx by (auto split: if_splits)
    with up have cases: "Suc b = n \<or> b = 0 \<and> n = 0" by linarith
    have "binary_search_by f zs =
        (case f (zs ! b) of Equal \<Rightarrow> Inr b | Less \<Rightarrow> Inl (b + 1) | Greater \<Rightarrow> Inl b)"
      using ne unfolding binary_search_by_def Let_def b_def by simp
    also have "f (zs ! b) = (if b < length xs then Less else if b < n then Equal else Greater)"
      using b(1) by (rule val)
    finally have "binary_search_by f zs = (case if b < length xs then Less else if b < n then Equal
        else Greater of Equal \<Rightarrow> Inr b | Less \<Rightarrow> Inl (b + 1) | Greater \<Rightarrow> Inl b)" .
    moreover have "length ms = 0 \<or> length ms = 1" using ms(1) by linarith
    ultimately show ?thesis using cases unfolding n_def zs_def by auto
  qed
  show "binary_search_by f (xs @ ys) = Inl (length xs)"
    using search [of "[]"] by simp
  show "binary_search_by f (xs @ e # ys) = Inr (length xs)" if "f e = Equal"
    using search [of "[e]"] that by simp
qed

section \<open>Operations on one side\<close>

text \<open>
  A new side sorts its levels by price. The code's sort is unstable: levels of one price may come
  out in either order. A side of distinct prices is determined, see \<open>sorted_side_unique\<close>.
\<close>

definition bids_new :: "level list \<Rightarrow> level list" where
  "bids_new ls = sort_key (\<lambda>l. - lv_price l) ls"

definition asks_new :: "level list \<Rightarrow> level list" where
  "asks_new ls = sort_key lv_price ls"

text \<open>\<open>OrderBookSide::upsert_single\<close>, over the comparator of the side.\<close>

definition upsert_single :: "level \<Rightarrow> (level \<Rightarrow> ordering) \<Rightarrow> level list \<Rightarrow> level list" where
  "upsert_single new f ls =
     (case binary_search_by f ls of
        Inr i \<Rightarrow>
          if lv_amount new = 0 then take i ls @ drop (Suc i) ls
          else ls[i := (ls ! i)\<lparr>lv_amount := lv_amount new\<rparr>]
      | Inl i \<Rightarrow>
          if lv_amount new = 0 then ls else take i ls @ new # drop i ls)"

definition bids_upsert :: "level list \<Rightarrow> level list \<Rightarrow> level list" where
  "bids_upsert us ls =
     fold (\<lambda>u. upsert_single u (\<lambda>e. reverse_ordering (dec_cmp (lv_price e) (lv_price u)))) us ls"

definition asks_upsert :: "level list \<Rightarrow> level list \<Rightarrow> level list" where
  "asks_upsert us ls = fold (\<lambda>u. upsert_single u (\<lambda>e. dec_cmp (lv_price e) (lv_price u))) us ls"

definition side_best :: "level list \<Rightarrow> level option" where
  "side_best ls = (case ls of [] \<Rightarrow> None | l # _ \<Rightarrow> Some l)"

section \<open>Operations on a book\<close>

definition order_book_new ::
  "u64 \<Rightarrow> order_book_times \<Rightarrow> level list \<Rightarrow> level list \<Rightarrow> order_book" where
  "order_book_new s t bids asks =
     \<lparr>ob_sequence = s, ob_times = t, ob_bids = bids_new bids, ob_asks = asks_new asks\<rparr>"

definition order_book_snapshot :: "nat \<Rightarrow> order_book \<Rightarrow> order_book" where
  "order_book_snapshot depth b =
     \<lparr>ob_sequence = ob_sequence b, ob_times = ob_times b,
      ob_bids = bids_new (take depth (ob_bids b)), ob_asks = asks_new (take depth (ob_asks b))\<rparr>"

fun order_book_update :: "order_book_event \<Rightarrow> order_book \<Rightarrow> order_book" where
  "order_book_update (BookSnapshot s) b = s"
| "order_book_update (BookUpdate u) b =
     \<lparr>ob_sequence = ob_sequence u, ob_times = ob_times u,
      ob_bids = bids_upsert (ob_bids u) (ob_bids b), ob_asks = asks_upsert (ob_asks u) (ob_asks b)\<rparr>"

text \<open>The prices of a book. The outer option is the panic of the arithmetic.\<close>

definition mid_price :: "rounding \<Rightarrow> decimal \<Rightarrow> decimal \<Rightarrow> decimal option" where
  "mid_price R bid ask = do { s \<leftarrow> dec_add R bid ask; dec_div R s 2 }"

definition volume_weighted_mid_price :: "rounding \<Rightarrow> level \<Rightarrow> level \<Rightarrow> decimal option option" where
  "volume_weighted_mid_price R bid ask = do {
     total \<leftarrow> dec_add R (lv_amount bid) (lv_amount ask);
     if total = 0 then Some None
     else do {
       x \<leftarrow> dec_mul R (lv_price bid) (lv_amount ask);
       y \<leftarrow> dec_mul R (lv_price ask) (lv_amount bid);
       s \<leftarrow> dec_add R x y;
       q \<leftarrow> dec_div R s total;
       Some (Some q)
     }
   }"

definition book_mid_price :: "rounding \<Rightarrow> order_book \<Rightarrow> decimal option option" where
  "book_mid_price R b =
     (case (side_best (ob_bids b), side_best (ob_asks b)) of
        (Some bid, Some ask) \<Rightarrow> map_option Some (mid_price R (lv_price bid) (lv_price ask))
      | (Some bid, None) \<Rightarrow> Some (Some (lv_price bid))
      | (None, Some ask) \<Rightarrow> Some (Some (lv_price ask))
      | (None, None) \<Rightarrow> Some None)"

definition book_volume_weighted_mid_price :: "rounding \<Rightarrow> order_book \<Rightarrow> decimal option option" where
  "book_volume_weighted_mid_price R b =
     (case (side_best (ob_bids b), side_best (ob_asks b)) of
        (Some bid, Some ask) \<Rightarrow> volume_weighted_mid_price R bid ask
      | (Some bid, None) \<Rightarrow> Some (Some (lv_price bid))
      | (None, Some ask) \<Rightarrow> Some (Some (lv_price ask))
      | (None, None) \<Rightarrow> Some None)"

section \<open>The contract of a side\<close>

text \<open>A side is well formed when each level has a worse price than the one before it.\<close>

definition side_wf :: "(decimal \<Rightarrow> decimal \<Rightarrow> bool) \<Rightarrow> level list \<Rightarrow> bool" where
  "side_wf before ls \<longleftrightarrow> sorted_wrt (\<lambda>a b. before (lv_price a) (lv_price b)) ls"

lemma side_wf_Nil [simp]: "side_wf before []"
  by (simp add: side_wf_def)

lemma side_wf_Cons:
  "side_wf before (e # es) \<longleftrightarrow> (\<forall>x \<in> set es. before (lv_price e) (lv_price x)) \<and> side_wf before es"
  by (simp add: side_wf_def)

lemma sorted_wrt_distinct:
  "sorted_wrt Q xs \<Longrightarrow> distinct (map f xs) \<Longrightarrow> sorted_wrt (\<lambda>a b. Q a b \<and> f a \<noteq> f b) xs"
  by (induction xs) auto

text \<open>The content of a side: the amount at each price.\<close>

definition side_map :: "level list \<Rightarrow> decimal \<rightharpoonup> decimal" where
  "side_map ls = map_of (map (\<lambda>l. (lv_price l, lv_amount l)) ls)"

definition put_level :: "level \<Rightarrow> (decimal \<rightharpoonup> decimal) \<Rightarrow> decimal \<rightharpoonup> decimal" where
  "put_level u m = m(lv_price u := (if lv_amount u = 0 then None else Some (lv_amount u)))"

lemma side_map_Nil [simp]: "side_map [] = Map.empty"
  by (simp add: side_map_def)

lemma side_map_Cons [simp]: "side_map (l # ls) = (side_map ls)(lv_price l \<mapsto> lv_amount l)"
  by (simp add: side_map_def)

lemma side_map_append: "side_map (xs @ ys) = side_map ys ++ side_map xs"
  by (simp add: side_map_def)

lemma side_map_None: "side_map ls p = None \<longleftrightarrow> p \<notin> lv_price ` set ls"
  by (auto simp: side_map_def map_of_eq_None_iff image_comp comp_def)

lemma put_level_nonzero: "0 \<notin> ran m \<Longrightarrow> 0 \<notin> ran (put_level u m)"
  by (auto simp: put_level_def ran_def)

lemma fold_put_nonzero: "0 \<notin> ran m \<Longrightarrow> 0 \<notin> ran (fold put_level us m)"
  by (induction us arbitrary: m) (simp_all add: put_level_nonzero)

text \<open>The upsert without the search, over the order of the side: what the search computes.\<close>

fun linear_upsert :: "(decimal \<Rightarrow> decimal \<Rightarrow> bool) \<Rightarrow> level \<Rightarrow> level list \<Rightarrow> level list" where
  "linear_upsert before u [] = (if lv_amount u = 0 then [] else [u])"
| "linear_upsert before u (e # es) =
     (if before (lv_price e) (lv_price u) then e # linear_upsert before u es
      else if lv_price e = lv_price u
      then (if lv_amount u = 0 then es else e\<lparr>lv_amount := lv_amount u\<rparr> # es)
      else (if lv_amount u = 0 then e # es else u # e # es))"

lemma linear_upsert_append:
  "\<forall>e \<in> set xs. before (lv_price e) (lv_price u) \<Longrightarrow>
    linear_upsert before u (xs @ ys) = xs @ linear_upsert before u ys"
  by (induction xs) auto

text \<open>
  What a side promises, whatever end its best price is at: \<open>before\<close> orders the prices, best
  first, \<open>compare\<close> is the comparator the side hands to the search, \<open>build\<close> sorts the levels it
  is given and \<open>upsert\<close> applies one level after the other.
\<close>

locale book_side =
  fixes before :: "decimal \<Rightarrow> decimal \<Rightarrow> bool"
    and compare :: "level \<Rightarrow> level \<Rightarrow> ordering"
    and build :: "level list \<Rightarrow> level list"
    and upsert :: "level list \<Rightarrow> level list \<Rightarrow> level list"
  assumes before_trans: "before p q \<Longrightarrow> before q r \<Longrightarrow> before p r"
    and before_irrefl: "\<not> before p p"
    and before_total: "p \<noteq> q \<Longrightarrow> before p q \<or> before q p"
    and compare_less: "compare e u = Less \<longleftrightarrow> before (lv_price e) (lv_price u)"
    and compare_equal: "compare e u = Equal \<longleftrightarrow> lv_price e = lv_price u"
    and build_mset: "mset (build ls) = mset ls"
    and build_sorted: "sorted_wrt (\<lambda>a b. \<not> before (lv_price b) (lv_price a)) (build ls)"
    and upsert_fold: "upsert us ls = fold (\<lambda>u. upsert_single u (\<lambda>e. compare e u)) us ls"
begin

lemma before_asym: "before p q \<Longrightarrow> \<not> before q p"
  using before_trans before_irrefl by blast

lemma compare_greater: "compare e u = Greater \<longleftrightarrow> before (lv_price u) (lv_price e)"
proof (cases "compare e u")
  case Less
  then show ?thesis using before_asym compare_less [of e u] by auto
next
  case Equal
  then show ?thesis using compare_equal [of e u] before_irrefl by auto
next
  case Greater
  then have "\<not> before (lv_price e) (lv_price u)" "lv_price e \<noteq> lv_price u"
    using compare_less [of e u] compare_equal [of e u] by auto
  with Greater before_total show ?thesis by auto
qed

text \<open>On a sorted side, the search puts the level where the linear scan does.\<close>

lemma upsert_single_linear:
  assumes "side_wf before ls"
  shows "upsert_single u (\<lambda>e. compare e u) ls = linear_upsert before u ls"
proof -
  let ?p = "\<lambda>e. before (lv_price e) (lv_price u)"
  obtain xs ys where ls: "ls = xs @ ys" and xs: "\<forall>e \<in> set xs. ?p e"
    and ys: "\<And>e es. ys = e # es \<Longrightarrow> \<not> ?p e"
    by (rule that [of "takeWhile ?p ls" "dropWhile ?p ls"])
      (auto simp: dropWhile_eq_Cons_conv dest: set_takeWhileD)
  have less: "\<forall>e \<in> set xs. compare e u = Less" using xs by (simp add: compare_less)
  have lin: "linear_upsert before u ls = xs @ linear_upsert before u ys"
    unfolding ls using xs by (rule linear_upsert_append)
  have wf: "side_wf before ys" using assms by (simp add: ls side_wf_def sorted_wrt_append)
  show ?thesis
  proof (cases ys)
    case Nil
    have "binary_search_by (\<lambda>e. compare e u) (xs @ []) = Inl (length xs)"
      by (rule binary_search_split(1)) (use less in auto)
    with Nil lin ls show ?thesis by (simp add: upsert_single_def)
  next
    case (Cons e es)
    have after: "\<forall>x \<in> set es. before (lv_price e) (lv_price x)"
      using wf Cons by (simp add: side_wf_Cons)
    show ?thesis
    proof (cases "lv_price e = lv_price u")
      case True
      with after have "\<forall>x \<in> set es. compare x u = Greater" by (simp add: compare_greater)
      moreover have "compare e u = Equal" using True by (simp add: compare_equal)
      ultimately have "binary_search_by (\<lambda>e. compare e u) (xs @ e # es) = Inr (length xs)"
        using less by (intro binary_search_split(2))
      then show ?thesis using lin ls Cons ys [OF Cons] True
        by (simp add: upsert_single_def nth_append list_update_append)
    next
      case False
      then have "before (lv_price u) (lv_price e)" using ys [OF Cons] before_total by blast
      with after have "\<forall>x \<in> set (e # es). compare x u = Greater"
        using before_trans by (auto simp: compare_greater)
      with less have "binary_search_by (\<lambda>e. compare e u) (xs @ e # es) = Inl (length xs)"
        by (intro binary_search_split(1))
      then show ?thesis using lin ls Cons ys [OF Cons] False
        by (simp add: upsert_single_def)
    qed
  qed
qed

lemma linear_upsert_prices:
  "x \<in> set (linear_upsert before u ls) \<Longrightarrow> lv_price x = lv_price u \<or> lv_price x \<in> lv_price ` set ls"
  by (induction ls) (auto split: if_splits)

lemma linear_upsert_wf: "side_wf before ls \<Longrightarrow> side_wf before (linear_upsert before u ls)"
proof (induction ls)
  case Nil
  then show ?case by (simp add: side_wf_def)
next
  case (Cons e es)
  have "before (lv_price e) (lv_price x)"
    if "x \<in> set (linear_upsert before u es)" "before (lv_price e) (lv_price u)" for x
    using linear_upsert_prices [OF that(1)] that(2) Cons.prems by (auto simp: side_wf_Cons)
  moreover have "before (lv_price u) (lv_price x)"
    if "before (lv_price u) (lv_price e)" "x \<in> set es" for x
    using that Cons.prems before_trans by (auto simp: side_wf_Cons)
  ultimately show ?case using Cons before_total [of "lv_price e" "lv_price u"]
    by (auto simp: side_wf_Cons)
qed

lemma linear_upsert_map: "side_wf before ls \<Longrightarrow> side_map (linear_upsert before u ls) = put_level u (side_map ls)"
proof (induction ls)
  case Nil
  then show ?case by (auto simp: put_level_def)
next
  case (Cons e es)
  have "side_map es (lv_price u) = None"
    if "\<not> before (lv_price e) (lv_price u)"
    using that Cons.prems before_total before_trans
    by (auto simp: side_map_None side_wf_Cons) 
  then show ?case using Cons before_irrefl
    by (auto simp: put_level_def side_wf_Cons fun_eq_iff)
qed

lemma upsert_wf: "side_wf before ls \<Longrightarrow> side_wf before (upsert us ls)"
  unfolding upsert_fold
  by (induction us arbitrary: ls) (simp_all add: upsert_single_linear linear_upsert_wf)

lemma upsert_linear: "side_wf before ls \<Longrightarrow> upsert us ls = fold (linear_upsert before) us ls"
  unfolding upsert_fold
  by (induction us arbitrary: ls) (simp_all add: upsert_single_linear linear_upsert_wf)

lemma upsert_map: "side_wf before ls \<Longrightarrow> side_map (upsert us ls) = fold put_level us (side_map ls)"
  unfolding upsert_fold
  by (induction us arbitrary: ls)
    (simp_all add: upsert_single_linear linear_upsert_wf linear_upsert_map)

lemma upsert_nonzero:
  "side_wf before ls \<Longrightarrow> 0 \<notin> ran (side_map ls) \<Longrightarrow> 0 \<notin> ran (side_map (upsert us ls))"
  by (simp add: upsert_map fold_put_nonzero)

text \<open>Levels of distinct prices are sorted in one way only, whatever the sort does.\<close>

lemma sorted_side_unique:
  assumes "mset xs = mset ys" and "side_wf before xs" and "side_wf before ys"
  shows "xs = ys"
  using assms
proof (induction xs arbitrary: ys)
  case Nil
  then show ?case by simp
next
  case (Cons x xs)
  then obtain y ys' where ys: "ys = y # ys'" by (cases ys) auto
  have "x \<in> set ys" "y \<in> set (x # xs)"
    using Cons.prems(1) ys by (metis list.set_intros(1) mset_eq_setD)+
  then have "x = y"
    using Cons.prems(2,3) ys before_asym by (auto simp: side_wf_Cons)
  with Cons ys show ?case by (auto simp: side_wf_Cons)
qed

lemma wf_distinct: "side_wf before ls \<Longrightarrow> distinct (map lv_price ls)"
  using before_irrefl by (induction ls) (auto simp: side_wf_Cons)

lemma build_wf:
  assumes "distinct (map lv_price ls)"
  shows "side_wf before (build ls)"
proof -
  have "distinct (map lv_price (build ls))"
    using assms build_mset [of ls] by (metis mset_eq_imp_distinct_iff mset_map)
  with build_sorted [of ls]
  have "sorted_wrt (\<lambda>a b. \<not> before (lv_price b) (lv_price a) \<and> lv_price a \<noteq> lv_price b) (build ls)"
    by (rule sorted_wrt_distinct)
  then show ?thesis
    unfolding side_wf_def by (rule sorted_wrt_mono_rel [rotated]) (use before_total in blast)
qed

lemma build_id: "side_wf before ls \<Longrightarrow> build ls = ls"
  by (rule sorted_side_unique) (simp_all add: build_mset build_wf wf_distinct)

lemma build_map:
  assumes "distinct (map lv_price ls)"
  shows "side_map (build ls) = side_map ls"
proof -
  have "set (build ls) = set ls" using build_mset by (rule mset_eq_setD)
  moreover have "distinct (map lv_price (build ls))" using build_wf [OF assms] by (rule wf_distinct)
  ultimately show ?thesis using assms
    unfolding side_map_def by (intro map_of_inject_set [THEN iffD2]) (auto simp: comp_def)
qed

text \<open>A sorted side is determined by its content.\<close>

lemma wf_map_unique:
  assumes "side_wf before xs" and "side_wf before ys" and "side_map xs = side_map ys"
  shows "xs = ys"
proof (rule sorted_side_unique)
  have mem: "l \<in> set zs \<longleftrightarrow> side_map zs (lv_price l) = Some (lv_amount l)" if "side_wf before zs" for l zs
  proof -
    have "distinct (map fst (map (\<lambda>l. (lv_price l, lv_amount l)) zs))"
      using wf_distinct [OF that] by (simp add: comp_def)
    then have "side_map zs (lv_price l) = Some (lv_amount l) \<longleftrightarrow>
        (lv_price l, lv_amount l) \<in> (\<lambda>l. (lv_price l, lv_amount l)) ` set zs"
      unfolding side_map_def by (subst map_of_eq_Some_iff) auto
    then show ?thesis using level_eqI by fastforce
  qed
  have "set xs = set ys" using mem assms by auto
  moreover have "distinct xs" "distinct ys"
    using assms(1,2) wf_distinct distinct_map by blast+
  ultimately show "mset xs = mset ys" by (simp add: set_eq_iff_mset_eq_distinct)
qed (use assms in auto)

lemma best_first: "side_wf before ls \<Longrightarrow> side_best ls = Some l \<Longrightarrow> x \<in> set ls \<Longrightarrow> lv_price x \<noteq> lv_price l \<Longrightarrow>
    before (lv_price l) (lv_price x)"
  by (cases ls) (auto simp: side_best_def side_wf_Cons)

end

interpretation bids: book_side "\<lambda>p q. q < p" "\<lambda>e u. reverse_ordering (dec_cmp (lv_price e) (lv_price u))"
    bids_new bids_upsert
proof unfold_locales
  show "sorted_wrt (\<lambda>a b. \<not> lv_price a < lv_price b) (bids_new ls)" for ls
    using sorted_sort_key [of "\<lambda>l. - lv_price l" ls]
    by (auto simp: bids_new_def sorted_map not_less elim: sorted_wrt_mono_rel [rotated])
qed (auto simp: bids_new_def bids_upsert_def)

interpretation asks: book_side "(<)" "\<lambda>e u. dec_cmp (lv_price e) (lv_price u)" asks_new asks_upsert
proof unfold_locales
  show "sorted_wrt (\<lambda>a b. \<not> lv_price b < lv_price a) (asks_new ls)" for ls
    using sorted_sort_key [of lv_price ls]
    by (auto simp: asks_new_def sorted_map not_less elim: sorted_wrt_mono_rel [rotated])
qed (auto simp: asks_new_def asks_upsert_def)

section \<open>Books\<close>

definition book_wf :: "order_book \<Rightarrow> bool" where
  "book_wf b \<longleftrightarrow> side_wf (\<lambda>p q. q < p) (ob_bids b) \<and> side_wf (<) (ob_asks b)"

lemma book_wf_update: "book_wf b \<Longrightarrow> book_wf (order_book_update (BookUpdate u) b)"
  by (simp add: book_wf_def bids.upsert_wf asks.upsert_wf)

lemma fold_put_other: "p \<notin> lv_price ` set us \<Longrightarrow> fold put_level us m p = m p"
  by (induction us arbitrary: m) (auto simp: put_level_def)

lemma fold_put_mem: "p \<in> lv_price ` set us \<Longrightarrow> fold put_level us m p = fold put_level us m' p"
proof (induction us arbitrary: m m')
  case Nil
  then show ?case by simp
next
  case (Cons u us)
  show ?case
  proof (cases "p \<in> lv_price ` set us")
    case True
    then show ?thesis using Cons.IH by simp
  next
    case False
    with Cons.prems have "p = lv_price u" by auto
    then have "put_level u m p = put_level u m' p" by (simp add: put_level_def)
    with False show ?thesis by (simp add: fold_put_other)
  qed
qed

text \<open>The last level an update lists for a price decides, and is absolute.\<close>

lemma fold_put_twice: "fold put_level us (fold put_level us m) = fold put_level us m"
proof
  fix p
  show "fold put_level us (fold put_level us m) p = fold put_level us m p"
    by (cases "p \<in> lv_price ` set us") (auto simp: fold_put_other intro: fold_put_mem)
qed

lemma fold_put_distinct:
  assumes "distinct (map lv_price us)"
  shows "fold put_level us m p = (case side_map us p of
    Some a \<Rightarrow> if a = 0 then None else Some a | None \<Rightarrow> m p)"
  using assms
proof (induction us arbitrary: m)
  case Nil
  then show ?case by simp
next
  case (Cons u us)
  then have "lv_price u \<notin> lv_price ` set us" by simp
  with Cons show ?case
    by (auto simp: put_level_def side_map_None [symmetric] split: option.splits)
qed

lemma side_map_perm:
  assumes "mset us = mset vs" and "distinct (map lv_price us)"
  shows "side_map us = side_map vs"
proof -
  have "distinct (map lv_price vs)" using assms by (metis mset_eq_imp_distinct_iff mset_map)
  with assms(2) mset_eq_setD [OF assms(1)] show ?thesis
    unfolding side_map_def by (intro map_of_inject_set [THEN iffD2]) (auto simp: comp_def)
qed

lemma fold_put_perm:
  assumes "mset us = mset vs" and "distinct (map lv_price us)"
  shows "fold put_level us m = fold put_level vs m"
proof -
  have "distinct (map lv_price vs)" using assms by (metis mset_eq_imp_distinct_iff mset_map)
  then show ?thesis
    using assms side_map_perm [OF assms] by (auto simp: fold_put_distinct fun_eq_iff)
qed

section \<open>Properties\<close>

text \<open>C7: An update event changes a book exactly as its levels say. The sides stay sorted with one
  level per price; the amount at each price is the last one the event lists for it, gone where
  that is zero, and untouched where the event does not list the price; the sequence number and
  the time stamps are the event's.\<close>

theorem books_update_refines_map:
  assumes "book_wf b"
  shows "book_wf (order_book_update (BookUpdate u) b)
    \<and> side_map (ob_bids (order_book_update (BookUpdate u) b)) = fold put_level (ob_bids u) (side_map (ob_bids b))
    \<and> side_map (ob_asks (order_book_update (BookUpdate u) b)) = fold put_level (ob_asks u) (side_map (ob_asks b))
    \<and> ob_sequence (order_book_update (BookUpdate u) b) = ob_sequence u
    \<and> ob_times (order_book_update (BookUpdate u) b) = ob_times u"
  using assms book_wf_update by (simp add: book_wf_def bids.upsert_map asks.upsert_map)

definition ex_times :: order_book_times where
  "ex_times = \<lparr>bt_engine = None, bt_exchange = Some 1, bt_received = 2\<rparr>"

definition ex_book :: order_book where
  "ex_book = \<lparr>ob_sequence = 7, ob_times = ex_times,
     ob_bids = [\<lparr>lv_price = 10, lv_amount = 1\<rparr>, \<lparr>lv_price = 8, lv_amount = 3\<rparr>],
     ob_asks = [\<lparr>lv_price = 11, lv_amount = 2\<rparr>, \<lparr>lv_price = 12, lv_amount = 5\<rparr>]\<rparr>"

definition ex_diff :: order_book where
  "ex_diff = \<lparr>ob_sequence = 8, ob_times = ex_times,
     ob_bids = [\<lparr>lv_price = 9, lv_amount = 4\<rparr>, \<lparr>lv_price = 8, lv_amount = 0\<rparr>],
     ob_asks = [\<lparr>lv_price = 11, lv_amount = 6\<rparr>]\<rparr>"

lemma ex_book_wf: "book_wf ex_book"
  by (simp add: ex_book_def book_wf_def side_wf_def)

theorem books_update_refines_map_witness:
  "side_map (ob_bids (order_book_update (BookUpdate ex_diff) ex_book)) =
    [10 \<mapsto> 1, 9 \<mapsto> 4 :: rat]"
  using books_update_refines_map [OF ex_book_wf, of ex_diff]
  by (auto simp: ex_book_def ex_diff_def put_level_def fun_eq_iff)

text \<open>The binary search finds the place a scan of the side finds: on a sorted side the upsert of
  any list of levels, on either side, gives the same vector as the linear reference.\<close>

theorem books_upsert_equals_linear:
  assumes "book_wf b"
  shows "bids_upsert us (ob_bids b) = fold (linear_upsert (\<lambda>p q. q < p)) us (ob_bids b)
    \<and> asks_upsert us (ob_asks b) = fold (linear_upsert (<)) us (ob_asks b)"
  using assms by (simp add: book_wf_def bids.upsert_linear asks.upsert_linear)

theorem books_upsert_equals_linear_witness:
  "asks_upsert [\<lparr>lv_price = 12, lv_amount = 0\<rparr>] (ob_asks ex_book) = [\<lparr>lv_price = 11, lv_amount = 2\<rparr>]"
  using books_upsert_equals_linear [OF ex_book_wf, of "[\<lparr>lv_price = 12, lv_amount = 0\<rparr>]"]
  by (simp add: ex_book_def)

text \<open>Levels are absolute: applying an update event a second time changes nothing, and the order
  in which an event lists its levels does not matter when it lists no price twice.\<close>

theorem books_update_idempotent:
  assumes "book_wf b"
  shows "order_book_update (BookUpdate u) (order_book_update (BookUpdate u) b) = order_book_update (BookUpdate u) b
    \<and> (mset (ob_bids u) = mset (ob_bids v) \<and> mset (ob_asks u) = mset (ob_asks v)
        \<and> distinct (map lv_price (ob_bids u)) \<and> distinct (map lv_price (ob_asks u))
        \<and> ob_sequence u = ob_sequence v \<and> ob_times u = ob_times v
        \<longrightarrow> order_book_update (BookUpdate u) b = order_book_update (BookUpdate v) b)"
proof -
  have wf: "side_wf (\<lambda>p q. q < p) (ob_bids b)" "side_wf (<) (ob_asks b)"
    using assms by (simp_all add: book_wf_def)
  have bids: "bids_upsert us (ob_bids b) = bids_upsert vs (ob_bids b)"
    if "fold put_level us (side_map (ob_bids b)) = fold put_level vs (side_map (ob_bids b))" for us vs
    using wf that by (intro bids.wf_map_unique) (auto simp: bids.upsert_wf bids.upsert_map)
  have asks: "asks_upsert us (ob_asks b) = asks_upsert vs (ob_asks b)"
    if "fold put_level us (side_map (ob_asks b)) = fold put_level vs (side_map (ob_asks b))" for us vs
    using wf that by (intro asks.wf_map_unique) (auto simp: asks.upsert_wf asks.upsert_map)
  have "bids_upsert us (bids_upsert us (ob_bids b)) = bids_upsert us (ob_bids b)" for us
    using bids [of "us @ us" us] by (simp add: bids_upsert_def fold_put_twice)
  moreover have "asks_upsert us (asks_upsert us (ob_asks b)) = asks_upsert us (ob_asks b)" for us
    using asks [of "us @ us" us] by (simp add: asks_upsert_def fold_put_twice)
  ultimately show ?thesis
    by (auto intro!: bids asks fold_put_perm)
qed

theorem books_update_idempotent_witness:
  "order_book_update (BookUpdate ex_diff) (order_book_update (BookUpdate ex_diff) ex_book) =
   order_book_update (BookUpdate ex_diff) ex_book"
  using books_update_idempotent [OF ex_book_wf, of ex_diff] by blast

text \<open>A book built from levels of distinct prices is sorted and holds exactly them, and a
  snapshot cut to a depth is the source's first levels, none of them worse than a level left out.\<close>

theorem books_build_and_cut:
  assumes "distinct (map lv_price bs)" and "distinct (map lv_price as)"
  shows "book_wf (order_book_new s t bs as)
    \<and> side_map (ob_bids (order_book_new s t bs as)) = side_map bs
    \<and> side_map (ob_asks (order_book_new s t bs as)) = side_map as
    \<and> order_book_snapshot d (order_book_new s t bs as) = \<lparr>ob_sequence = s, ob_times = t,
        ob_bids = take d (bids_new bs), ob_asks = take d (asks_new as)\<rparr>
    \<and> (\<forall>x \<in> set (take d (bids_new bs)). \<forall>y \<in> set (drop d (bids_new bs)). lv_price y < lv_price x)
    \<and> (\<forall>x \<in> set (take d (asks_new as)). \<forall>y \<in> set (drop d (asks_new as)). lv_price x < lv_price y)"
proof -
  have b: "side_wf (\<lambda>p q. q < p) (take d (bids_new bs) @ drop d (bids_new bs))"
    and a: "side_wf (<) (take d (asks_new as) @ drop d (asks_new as))"
    using assms by (simp_all add: bids.build_wf asks.build_wf)
  then have "bids_new (take d (bids_new bs)) = take d (bids_new bs)"
    "asks_new (take d (asks_new as)) = take d (asks_new as)"
    unfolding side_wf_def sorted_wrt_append
    by (intro bids.build_id asks.build_id; simp add: side_wf_def)+
  with a b assms show ?thesis
    unfolding side_wf_def sorted_wrt_append
    by (auto simp: order_book_new_def order_book_snapshot_def book_wf_def bids.build_wf asks.build_wf
        bids.build_map asks.build_map)
qed

theorem books_build_and_cut_witness:
  "order_book_snapshot 1 (order_book_new 7 ex_times (ob_asks ex_book) (ob_bids ex_book)) =
    \<lparr>ob_sequence = 7, ob_times = ex_times, ob_bids = [\<lparr>lv_price = 12, lv_amount = 5\<rparr>],
     ob_asks = [\<lparr>lv_price = 8, lv_amount = 3\<rparr>]\<rparr>"
  using books_build_and_cut [of "ob_asks ex_book" "ob_bids ex_book" 7 ex_times 1]
  by (simp add: ex_book_def bids_new_def asks_new_def)

text \<open>The mid-price of an uncrossed book of positive prices exists and lies between the best bid
  and the best ask, rounding included, as long as a decimal holds each best price and its double.\<close>

theorem books_mid_price_between:
  assumes "rounding_laws R" and "side_best (ob_bids b) = Some bid" and "side_best (ob_asks b) = Some ask"
    and "0 \<le> lv_price bid" and "lv_price bid \<le> lv_price ask"
    and "exact_on R {lv_price bid, 2 * lv_price bid, lv_price ask, 2 * lv_price ask}"
  shows "\<exists>m. book_mid_price R b = Some (Some m) \<and> lv_price bid \<le> m \<and> m \<le> lv_price ask"
proof -
  let ?a = "lv_price bid" and ?b = "lv_price ask"
  have R: "R ?a = Some ?a" "R (2 * ?a) = Some (2 * ?a)" "R ?b = Some ?b" "R (2 * ?b) = Some (2 * ?b)"
    using assms(6) by (auto simp: exact_on_def)
  obtain s where s: "R (?a + ?b) = Some s"
    using assms(4,5) rounding_no_hole [OF assms(1) _ _ R(4), of "?a + ?b"] by auto
  have sa: "2 * ?a \<le> s" by (rule rounding_laws_mono [OF assms(1) _ R(2) s]) (use assms(5) in simp)
  have sb: "s \<le> 2 * ?b" by (rule rounding_laws_mono [OF assms(1) _ s R(4)]) (use assms(5) in simp)
  obtain m where m: "R (s / 2) = Some m"
    using assms(4) sa sb rounding_no_hole [OF assms(1) _ _ R(3), of "s / 2"] by auto
  have "?a \<le> m" by (rule rounding_laws_mono [OF assms(1) _ R(1) m]) (use sa in simp)
  moreover have "m \<le> ?b" by (rule rounding_laws_mono [OF assms(1) _ m R(3)]) (use sb in simp)
  ultimately show ?thesis
    using assms(2,3) s m by (simp add: book_mid_price_def mid_price_def dec_simps)
qed

theorem books_mid_price_between_witness:
  "\<exists>m. book_mid_price Some ex_book = Some (Some m) \<and> 10 \<le> m \<and> m \<le> 11"
  using books_mid_price_between [OF rounding_laws_Some, of ex_book "\<lparr>lv_price = 10, lv_amount = 1\<rparr>"
      "\<lparr>lv_price = 11, lv_amount = 2\<rparr>"]
  by (simp add: ex_book_def side_best_def exact_on_Some)

text \<open>The volume-weighted mid-price of a two-sided book never divides by zero: it is absent exactly
  when the two best amounts are both zero, and otherwise, where the arithmetic is exact, it lies
  between the best bid and the best ask.\<close>

theorem books_microprice:
  assumes "side_best (ob_bids b) = Some bid" and "side_best (ob_asks b) = Some ask"
    and "0 \<le> lv_amount bid" and "0 \<le> lv_amount ask" and "lv_price bid \<le> lv_price ask"
    and "exact_on R {lv_amount bid + lv_amount ask, lv_price bid * lv_amount ask, lv_price ask * lv_amount bid,
      lv_price bid * lv_amount ask + lv_price ask * lv_amount bid,
      (lv_price bid * lv_amount ask + lv_price ask * lv_amount bid) / (lv_amount bid + lv_amount ask)}"
  shows "if lv_amount bid = 0 \<and> lv_amount ask = 0
    then book_volume_weighted_mid_price R b = Some None
    else \<exists>m. book_volume_weighted_mid_price R b = Some (Some m) \<and> lv_price bid \<le> m \<and> m \<le> lv_price ask"
proof -
  let ?p = "lv_price bid" and ?q = "lv_price ask" and ?v = "lv_amount bid" and ?w = "lv_amount ask"
  have R: "R (?v + ?w) = Some (?v + ?w)" "R (?p * ?w) = Some (?p * ?w)" "R (?q * ?v) = Some (?q * ?v)"
    "R (?p * ?w + ?q * ?v) = Some (?p * ?w + ?q * ?v)"
    "R ((?p * ?w + ?q * ?v) / (?v + ?w)) = Some ((?p * ?w + ?q * ?v) / (?v + ?w))"
    using assms(6) by (auto simp: exact_on_def)
  show ?thesis
  proof (cases "?v = 0 \<and> ?w = 0")
    case True
    then show ?thesis using assms(1,2) R(1)
      by (simp add: book_volume_weighted_mid_price_def volume_weighted_mid_price_def dec_simps)
  next
    case False
    then have pos: "0 < ?v + ?w" using assms(3,4) by linarith
    have "?p * (?v + ?w) \<le> ?p * ?w + ?q * ?v" and "?p * ?w + ?q * ?v \<le> ?q * (?v + ?w)"
      using mult_right_mono [OF assms(5) assms(3)] mult_right_mono [OF assms(5) assms(4)]
      by (simp_all add: distrib_left)
    with pos have "?p \<le> (?p * ?w + ?q * ?v) / (?v + ?w)" "(?p * ?w + ?q * ?v) / (?v + ?w) \<le> ?q"
      by (simp_all add: le_divide_eq divide_le_eq)
    then show ?thesis using assms(1,2) R False pos
      by (auto simp: book_volume_weighted_mid_price_def volume_weighted_mid_price_def dec_simps)
  qed
qed

theorem books_microprice_witness:
  "\<exists>m. book_volume_weighted_mid_price Some ex_book = Some (Some m) \<and> 10 \<le> m \<and> m \<le> 11"
  using books_microprice [of ex_book "\<lparr>lv_price = 10, lv_amount = 1\<rparr>" "\<lparr>lv_price = 11, lv_amount = 2\<rparr>" Some]
  by (simp add: ex_book_def side_best_def exact_on_Some)

end
