(* ===== verification/L2_Sequencer.thy ===== *)
theory L2_Sequencer
  imports Books
begin

text \<open>
  Local Binance books from depth streams: \<open>rustrade-data/src/exchange/binance/spot/l2.rs\<close> and
  \<open>futures/l2.rs\<close> with their common \<open>book/l2.rs\<close>, the map of subscriptions of
  \<open>subscription/mod.rs\<close>, and the manager of \<open>books/manager.rs\<close> that applies the events to the
  books. A sequencer lets an update through only when it continues the book; the two venues
  number their updates differently but keep one contract, from which the local book is shown to
  equal the venue's. Update ids are 64-bit words. The HTTP and websocket traffic is left out.
\<close>

section \<open>Data\<close>

type_synonym subscription_id = string

datatype data_error =
    InvalidSequence u64 u64
  | InitialSnapshotMissing subscription_id
  | InitialSnapshotInvalid
  | Unidentifiable subscription_id

fun data_error_is_terminal :: "data_error \<Rightarrow> bool" where
  "data_error_is_terminal (InvalidSequence _ _) = True"
| "data_error_is_terminal _ = False"

datatype exchange_id = BinanceSpot | BinanceFuturesUsd

record 'k market_event =
  me_time_exchange :: time
  me_time_received :: time
  me_exchange :: exchange_id
  me_instrument :: 'k
  me_kind :: order_book_event

record spot_update =
  su_subscription_id :: subscription_id
  su_time_exchange :: time
  su_first_update_id :: u64
  su_last_update_id :: u64
  su_bids :: "level list"
  su_asks :: "level list"

record futures_update =
  fu_subscription_id :: subscription_id
  fu_time_exchange :: time
  fu_time_engine :: time
  fu_first_update_id :: u64
  fu_last_update_id :: u64
  fu_prev_last_update_id :: u64
  fu_bids :: "level list"
  fu_asks :: "level list"

record l2_snapshot =
  sn_last_update_id :: u64
  sn_time_exchange :: "time option"
  sn_time_engine :: "time option"
  sn_bids :: "level list"
  sn_asks :: "level list"

record spot_sequencer =
  ss_updates_processed :: u64
  ss_last_update_id :: u64
  ss_prev_last_update_id :: u64

record futures_sequencer =
  fs_updates_processed :: u64
  fs_last_update_id :: u64

record ('k, 's) book_meta =
  bm_key :: 'k
  bm_sequencer :: 's

type_synonym ('k, 's) l2_transformer = "subscription_id \<rightharpoonup> ('k, 's) book_meta"

section \<open>Spot sequencer\<close>

definition spot_sequencer_new :: "u64 \<Rightarrow> spot_sequencer" where
  "spot_sequencer_new i =
     \<lparr>ss_updates_processed = 0, ss_last_update_id = i, ss_prev_last_update_id = i\<rparr>"

definition spot_is_first_update :: "spot_sequencer \<Rightarrow> bool" where
  "spot_is_first_update s \<longleftrightarrow> ss_updates_processed s = 0"

definition spot_validate_first_update :: "spot_update \<Rightarrow> spot_sequencer \<Rightarrow> data_error + unit" where
  "spot_validate_first_update u s =
     (let expected = ss_last_update_id s + 1 in
      if su_first_update_id u \<le> expected \<and> expected \<le> su_last_update_id u then Inr ()
      else Inl (InvalidSequence (ss_last_update_id s) (su_first_update_id u)))"

definition spot_validate_next_update :: "spot_update \<Rightarrow> spot_sequencer \<Rightarrow> data_error + unit" where
  "spot_validate_next_update u s =
     (let expected = ss_last_update_id s + 1 in
      if su_first_update_id u = expected then Inr ()
      else Inl (InvalidSequence (ss_last_update_id s) (su_first_update_id u)))"

definition spot_validate_sequence ::
  "spot_update \<Rightarrow> spot_sequencer \<Rightarrow> spot_sequencer \<times> (data_error + spot_update option)" where
  "spot_validate_sequence u s =
     (if su_last_update_id u \<le> ss_last_update_id s then (s, Inr None)
      else
        case (if spot_is_first_update s then spot_validate_first_update u s
              else spot_validate_next_update u s) of
          Inl e \<Rightarrow> (s, Inl e)
        | Inr _ \<Rightarrow>
            (\<lparr>ss_updates_processed = ss_updates_processed s + 1,
              ss_last_update_id = su_last_update_id u,
              ss_prev_last_update_id = ss_last_update_id s\<rparr>, Inr (Some u)))"

section \<open>Futures sequencer\<close>

definition futures_sequencer_new :: "u64 \<Rightarrow> futures_sequencer" where
  "futures_sequencer_new i = \<lparr>fs_updates_processed = 0, fs_last_update_id = i\<rparr>"

definition futures_is_first_update :: "futures_sequencer \<Rightarrow> bool" where
  "futures_is_first_update s \<longleftrightarrow> fs_updates_processed s = 0"

definition futures_validate_first_update ::
  "futures_update \<Rightarrow> futures_sequencer \<Rightarrow> data_error + unit" where
  "futures_validate_first_update u s =
     (if fu_first_update_id u \<le> fs_last_update_id s \<and> fs_last_update_id s \<le> fu_last_update_id u
      then Inr ()
      else Inl (InvalidSequence (fs_last_update_id s) (fu_first_update_id u)))"

definition futures_validate_next_update ::
  "futures_update \<Rightarrow> futures_sequencer \<Rightarrow> data_error + unit" where
  "futures_validate_next_update u s =
     (if fu_prev_last_update_id u = fs_last_update_id s then Inr ()
      else Inl (InvalidSequence (fs_last_update_id s) (fu_first_update_id u)))"

definition futures_validate_sequence ::
  "futures_update \<Rightarrow> futures_sequencer \<Rightarrow> futures_sequencer \<times> (data_error + futures_update option)" where
  "futures_validate_sequence u s =
     (if fu_last_update_id u < fs_last_update_id s then (s, Inr None)
      else
        case (if futures_is_first_update s then futures_validate_first_update u s
              else futures_validate_next_update u s) of
          Inl e \<Rightarrow> (s, Inl e)
        | Inr _ \<Rightarrow>
            (\<lparr>fs_updates_processed = fs_updates_processed s + 1,
              fs_last_update_id = fu_last_update_id u\<rparr>, Inr (Some u)))"

section \<open>Market events\<close>

text \<open>\<open>now\<close> is what \<open>Utc::now()\<close> returns.\<close>

definition spot_update_book :: "time \<Rightarrow> spot_update \<Rightarrow> order_book" where
  "spot_update_book now u =
     order_book_new (su_last_update_id u)
       \<lparr>bt_engine = None, bt_exchange = Some (su_time_exchange u), bt_received = now\<rparr>
       (su_bids u) (su_asks u)"

definition spot_market_event :: "time \<Rightarrow> 'k \<Rightarrow> spot_update \<Rightarrow> 'k market_event" where
  "spot_market_event now key u =
     \<lparr>me_time_exchange = su_time_exchange u, me_time_received = now, me_exchange = BinanceSpot,
      me_instrument = key, me_kind = BookUpdate (spot_update_book now u)\<rparr>"

definition futures_update_book :: "time \<Rightarrow> futures_update \<Rightarrow> order_book" where
  "futures_update_book now u =
     order_book_new (fu_last_update_id u)
       \<lparr>bt_engine = Some (fu_time_engine u), bt_exchange = Some (fu_time_exchange u), bt_received = now\<rparr>
       (fu_bids u) (fu_asks u)"

definition futures_market_event :: "time \<Rightarrow> 'k \<Rightarrow> futures_update \<Rightarrow> 'k market_event" where
  "futures_market_event now key u =
     \<lparr>me_time_exchange = fu_time_exchange u, me_time_received = now, me_exchange = BinanceFuturesUsd,
      me_instrument = key, me_kind = BookUpdate (futures_update_book now u)\<rparr>"

definition snapshot_market_event ::
  "time \<Rightarrow> exchange_id \<Rightarrow> 'k \<Rightarrow> l2_snapshot \<Rightarrow> 'k market_event" where
  "snapshot_market_event now x key sn =
     \<lparr>me_time_exchange = (case sn_time_exchange sn of None \<Rightarrow> now | Some t \<Rightarrow> t),
      me_time_received = now, me_exchange = x, me_instrument = key,
      me_kind = BookSnapshot (order_book_new (sn_last_update_id sn)
        \<lparr>bt_engine = sn_time_engine sn, bt_exchange = sn_time_exchange sn, bt_received = now\<rparr>
        (sn_bids sn) (sn_asks sn))\<rparr>"

section \<open>Transformers\<close>

definition map_find :: "subscription_id \<Rightarrow> (subscription_id \<rightharpoonup> 'a) \<Rightarrow> data_error + 'a" where
  "map_find i m = (case m i of None \<Rightarrow> Inl (Unidentifiable i) | Some x \<Rightarrow> Inr x)"

text \<open>
  The two transformers are written out twice in the code, alike but for the sequencer: \<open>init\<close>
  and \<open>transform\<close> over the sequencer's operations. The hash map's entries come as a list, in the
  order the map yields them.
\<close>

fun l2_init ::
  "(u64 \<Rightarrow> 's) \<Rightarrow> 'k market_event list \<Rightarrow> (subscription_id \<times> 'k) list
     \<Rightarrow> data_error + ('k, 's) l2_transformer" where
  "l2_init new snaps [] = Inr Map.empty"
| "l2_init new snaps ((sub, key) # rest) =
     (case find (\<lambda>e. me_instrument e = key) snaps of
        None \<Rightarrow> Inl (InitialSnapshotMissing sub)
      | Some e \<Rightarrow>
          (case me_kind e of
             BookUpdate _ \<Rightarrow> Inl InitialSnapshotInvalid
           | BookSnapshot b \<Rightarrow>
               (case l2_init new snaps rest of
                  Inl err \<Rightarrow> Inl err
                | Inr m \<Rightarrow> Inr (if sub \<in> fst ` set rest then m
                    else m(sub \<mapsto> \<lparr>bm_key = key, bm_sequencer = new (ob_sequence b)\<rparr>)))))"

definition l2_transform ::
  "('u \<Rightarrow> 's \<Rightarrow> 's \<times> (data_error + 'u option)) \<Rightarrow> ('u \<Rightarrow> subscription_id) \<Rightarrow> ('k \<Rightarrow> 'u \<Rightarrow> 'k market_event)
     \<Rightarrow> 'u \<Rightarrow> ('k, 's) l2_transformer
     \<Rightarrow> ('k, 's) l2_transformer \<times> (data_error + 'k market_event) list" where
  "l2_transform validate sub_id event u m =
     (case map_find (sub_id u) m of
        Inl e \<Rightarrow> (m, [Inl e])
      | Inr meta \<Rightarrow>
          (let (s, r) = validate u (bm_sequencer meta); m' = m(sub_id u \<mapsto> meta\<lparr>bm_sequencer := s\<rparr>) in
           case r of
             Inl e \<Rightarrow> (m', [Inl e])
           | Inr None \<Rightarrow> (m', [])
           | Inr (Some u') \<Rightarrow> (m', [Inr (event (bm_key meta) u')])))"

definition spot_init ::
  "'k market_event list \<Rightarrow> (subscription_id \<times> 'k) list \<Rightarrow> data_error + ('k, spot_sequencer) l2_transformer" where
  "spot_init = l2_init spot_sequencer_new"

definition futures_init ::
  "'k market_event list \<Rightarrow> (subscription_id \<times> 'k) list \<Rightarrow> data_error + ('k, futures_sequencer) l2_transformer" where
  "futures_init = l2_init futures_sequencer_new"

definition spot_transform ::
  "time \<Rightarrow> spot_update \<Rightarrow> ('k, spot_sequencer) l2_transformer
     \<Rightarrow> ('k, spot_sequencer) l2_transformer \<times> (data_error + 'k market_event) list" where
  "spot_transform now = l2_transform spot_validate_sequence su_subscription_id (spot_market_event now)"

definition futures_transform ::
  "time \<Rightarrow> futures_update \<Rightarrow> ('k, futures_sequencer) l2_transformer
     \<Rightarrow> ('k, futures_sequencer) l2_transformer \<times> (data_error + 'k market_event) list" where
  "futures_transform now =
     l2_transform futures_validate_sequence fu_subscription_id (futures_market_event now)"

section \<open>Manager\<close>

datatype 'k stream_event = Reconnecting exchange_id | Item "'k market_event"

definition manager_step :: "'k stream_event \<Rightarrow> ('k \<rightharpoonup> order_book) \<Rightarrow> 'k \<rightharpoonup> order_book" where
  "manager_step ev books =
     (case ev of
        Reconnecting _ \<Rightarrow> books
      | Item e \<Rightarrow>
          (case books (me_instrument e) of
             None \<Rightarrow> books
           | Some b \<Rightarrow> books(me_instrument e \<mapsto> order_book_update (me_kind e) b)))"

definition manager_run :: "'k stream_event list \<Rightarrow> ('k \<rightharpoonup> order_book) \<Rightarrow> 'k \<rightharpoonup> order_book" where
  "manager_run evs books = fold manager_step evs books"

text \<open>
  The whole path of one connection: each update, with the time it is received at, goes through
  the transformer, and the manager applies the events that come out. An error goes to the error
  handler, which logs it.
\<close>

fun right_values :: "('a + 'b) list \<Rightarrow> 'b list" where
  "right_values [] = []"
| "right_values (Inl _ # rs) = right_values rs"
| "right_values (Inr x # rs) = x # right_values rs"

definition l2_feed_step ::
  "('u \<Rightarrow> ('k, 's) l2_transformer \<Rightarrow> ('k, 's) l2_transformer \<times> (data_error + 'k market_event) list)
     \<Rightarrow> 'u \<Rightarrow> ('k, 's) l2_transformer \<times> ('k \<rightharpoonup> order_book)
     \<Rightarrow> ('k, 's) l2_transformer \<times> ('k \<rightharpoonup> order_book)" where
  "l2_feed_step transform u st =
     (let (m, rs) = transform u (fst st) in (m, manager_run (map Item (right_values rs)) (snd st)))"

definition spot_feed ::
  "(time \<times> spot_update) list \<Rightarrow> ('k, spot_sequencer) l2_transformer \<times> ('k \<rightharpoonup> order_book)
     \<Rightarrow> ('k, spot_sequencer) l2_transformer \<times> ('k \<rightharpoonup> order_book)" where
  "spot_feed us st = fold (\<lambda>(t, u). l2_feed_step (spot_transform t) u) us st"

definition futures_feed ::
  "(time \<times> futures_update) list \<Rightarrow> ('k, futures_sequencer) l2_transformer \<times> ('k \<rightharpoonup> order_book)
     \<Rightarrow> ('k, futures_sequencer) l2_transformer \<times> ('k \<rightharpoonup> order_book)" where
  "futures_feed us st = fold (\<lambda>(t, u). l2_feed_step (futures_transform t) u) us st"

section \<open>The venue's book\<close>

text \<open>
  The venue's side of a book after each update id is a function of the id. An update from \<open>lo\<close> to
  \<open>hi\<close> carries the side when each price it lists once has its amount at \<open>hi\<close>, zero standing for
  none, and no other price changed between \<open>lo\<close> and \<open>hi\<close>: the levels are absolute.
\<close>

type_synonym venue_side = "nat \<Rightarrow> decimal \<rightharpoonup> decimal"

definition carries :: "venue_side \<Rightarrow> nat \<Rightarrow> nat \<Rightarrow> level list \<Rightarrow> bool" where
  "carries v lo hi ls \<longleftrightarrow>
     distinct (map lv_price ls) \<and>
     (\<forall>l \<in> set ls. v hi (lv_price l) = (if lv_amount l = 0 then None else Some (lv_amount l))) \<and>
     (\<forall>k \<in> {lo..hi}. \<forall>p. p \<notin> lv_price ` set ls \<longrightarrow> v k p = v hi p)"

definition spot_faithful :: "venue_side \<Rightarrow> venue_side \<Rightarrow> spot_update \<Rightarrow> bool" where
  "spot_faithful vb va u \<longleftrightarrow>
     carries vb (unat (su_first_update_id u) - 1) (unat (su_last_update_id u)) (su_bids u) \<and>
     carries va (unat (su_first_update_id u) - 1) (unat (su_last_update_id u)) (su_asks u)"

definition futures_faithful :: "venue_side \<Rightarrow> venue_side \<Rightarrow> futures_update \<Rightarrow> bool" where
  "futures_faithful vb va u \<longleftrightarrow>
     fu_prev_last_update_id u \<le> fu_first_update_id u \<and>
     carries vb (unat (fu_prev_last_update_id u)) (unat (fu_last_update_id u)) (fu_bids u) \<and>
     carries va (unat (fu_prev_last_update_id u)) (unat (fu_last_update_id u)) (fu_asks u)"

text \<open>The books are the venue's as of the last update id each sequencer let through.\<close>

definition synced ::
  "('s \<Rightarrow> u64) \<Rightarrow> ('k \<Rightarrow> venue_side) \<Rightarrow> ('k \<Rightarrow> venue_side)
     \<Rightarrow> ('k, 's) l2_transformer \<times> ('k \<rightharpoonup> order_book) \<Rightarrow> bool" where
  "synced at_id vb va st \<longleftrightarrow>
     (\<forall>i j a b. fst st i = Some a \<longrightarrow> fst st j = Some b \<longrightarrow> bm_key a = bm_key b \<longrightarrow> i = j) \<and>
     (\<forall>i a. fst st i = Some a \<longrightarrow>
        (\<exists>b. snd st (bm_key a) = Some b \<and> book_wf b \<and> ob_sequence b = at_id (bm_sequencer a) \<and>
          side_map (ob_bids b) = vb (bm_key a) (unat (at_id (bm_sequencer a))) \<and>
          side_map (ob_asks b) = va (bm_key a) (unat (at_id (bm_sequencer a)))))"

text \<open>Between two states of a connection: the same subscriptions, each no further back.\<close>

definition advanced :: "('s \<Rightarrow> u64) \<Rightarrow> ('k, 's) l2_transformer \<Rightarrow> ('k, 's) l2_transformer \<Rightarrow> bool" where
  "advanced at_id m m' \<longleftrightarrow>
     (\<forall>i. (m i = None \<longleftrightarrow> m' i = None) \<and>
       (\<forall>a b. m i = Some a \<longrightarrow> m' i = Some b \<longrightarrow>
          bm_key a = bm_key b \<and> at_id (bm_sequencer a) \<le> at_id (bm_sequencer b)))"

lemma advanced_refl: "advanced at_id m m"
  by (auto simp: advanced_def)

lemma advanced_trans: "advanced at_id m m' \<Longrightarrow> advanced at_id m' m'' \<Longrightarrow> advanced at_id m m''"
  unfolding advanced_def by (metis (no_types, lifting) not_None_eq order_trans)

lemma carries_fold:
  assumes "carries v lo hi ls" and "lo \<le> k" and "k \<le> hi"
  shows "fold put_level ls (v k) = v hi"
proof
  fix p
  show "fold put_level ls (v k) p = v hi p"
  proof (cases "p \<in> lv_price ` set ls")
    case True
    then obtain l where l: "l \<in> set ls" "p = lv_price l" by auto
    have dist: "distinct (map lv_price ls)" and
      v: "v hi p = (if lv_amount l = 0 then None else Some (lv_amount l))"
      using assms(1) l unfolding carries_def by blast+
    have "side_map ls p = Some (lv_amount l)"
      unfolding side_map_def using dist l by (intro map_of_is_SomeI) (auto simp: comp_def)
    then show ?thesis using v by (simp add: fold_put_distinct [OF dist])
  next
    case False
    moreover have "k \<in> {lo..hi}" using assms(2,3) by simp
    ultimately have "v k p = v hi p" using assms(1) unfolding carries_def by blast
    with False show ?thesis by (simp add: fold_put_other)
  qed
qed

lemma carries_sides:
  assumes "book_wf b" and "carries vb lo hi bs" and "carries va lo hi as"
    and "side_map (ob_bids b) = vb k" and "side_map (ob_asks b) = va k" and "lo \<le> k" and "k \<le> hi"
  shows "book_wf (order_book_update (BookUpdate (order_book_new i t bs as)) b)
    \<and> side_map (ob_bids (order_book_update (BookUpdate (order_book_new i t bs as)) b)) = vb hi
    \<and> side_map (ob_asks (order_book_update (BookUpdate (order_book_new i t bs as)) b)) = va hi"
proof -
  have "fold put_level (bids_new bs) (vb k) = fold put_level bs (vb k)"
    using assms(2) by (intro fold_put_perm) (auto simp: carries_def bids.build_mset bids.wf_distinct bids.build_wf)
  moreover have "fold put_level (asks_new as) (va k) = fold put_level as (va k)"
    using assms(3) by (intro fold_put_perm) (auto simp: carries_def asks.build_mset asks.wf_distinct asks.build_wf)
  ultimately show ?thesis
    using assms carries_fold [OF assms(2,6,7)] carries_fold [OF assms(3,6,7)]
    by (simp add: book_wf_def bids.upsert_wf asks.upsert_wf bids.upsert_map asks.upsert_map order_book_new_def)
qed

section \<open>The contract of a sequencer\<close>

text \<open>
  What a sequencer promises: a fresh one stands at the snapshot's id; an update it lets through
  is the one it was given, starts no later than where the sequencer stands and moves it forward
  to the update's last id; anything else leaves it as it was.
\<close>

locale l2_sequencer =
  fixes new :: "u64 \<Rightarrow> 's"
    and validate :: "'u \<Rightarrow> 's \<Rightarrow> 's \<times> (data_error + 'u option)"
    and at_id :: "'s \<Rightarrow> u64"
    and from_id :: "'u \<Rightarrow> nat"
    and to_id :: "'u \<Rightarrow> u64"
    and proper :: "'u \<Rightarrow> bool"
  assumes new_last: "at_id (new i) = i"
    and accepted: "validate u s = (s', Inr (Some u')) \<Longrightarrow>
      u' = u \<and> at_id s' = to_id u \<and> at_id s \<le> to_id u \<and> (proper u \<longrightarrow> from_id u \<le> unat (at_id s))"
    and passed_over: "validate u s = (s', r) \<Longrightarrow> (\<And>u'. r \<noteq> Inr (Some u')) \<Longrightarrow> s' = s"

text \<open>A connection adds how an update finds its subscription and becomes an event.\<close>

locale l2_stream = l2_sequencer new validate at_id from_id to_id proper
  for new :: "u64 \<Rightarrow> 's" and validate :: "'u \<Rightarrow> 's \<Rightarrow> 's \<times> (data_error + 'u option)"
    and at_id from_id to_id proper +
  fixes sub_id :: "'u \<Rightarrow> subscription_id"
    and event :: "time \<Rightarrow> 'k \<Rightarrow> 'u \<Rightarrow> 'k market_event"
    and bids_of :: "'u \<Rightarrow> level list"
    and asks_of :: "'u \<Rightarrow> level list"
  assumes event_key: "me_instrument (event t key u) = key"
    and event_book: "\<exists>times. me_kind (event t key u) =
      BookUpdate (order_book_new (to_id u) times (bids_of u) (asks_of u))"
begin

lemma feed_step_synced:
  assumes sync: "synced at_id vb va (m, books)"
    and faithful: "\<And>a. m (sub_id u) = Some a \<Longrightarrow> proper u \<and>
      carries (vb (bm_key a)) (from_id u) (unat (to_id u)) (bids_of u) \<and>
      carries (va (bm_key a)) (from_id u) (unat (to_id u)) (asks_of u)"
    and step: "l2_feed_step (l2_transform validate sub_id (event t)) u (m, books) = (m', books')"
  shows "synced at_id vb va (m', books') \<and> advanced at_id m m'"
proof (cases "m (sub_id u)")
  case None
  with step have "m' = m \<and> books' = books"
    by (simp add: l2_feed_step_def l2_transform_def map_find_def manager_run_def)
  with sync show ?thesis by (simp add: advanced_refl)
next
  case (Some a)
  obtain s r where v: "validate u (bm_sequencer a) = (s, r)" by fastforce
  obtain b where b: "books (bm_key a) = Some b" "book_wf b" "ob_sequence b = at_id (bm_sequencer a)"
      "side_map (ob_bids b) = vb (bm_key a) (unat (at_id (bm_sequencer a)))"
      "side_map (ob_asks b) = va (bm_key a) (unat (at_id (bm_sequencer a)))"
    using sync Some unfolding synced_def by fastforce
  show ?thesis
  proof (cases "\<exists>u'. r = Inr (Some u')")
    case False
    with v have "s = bm_sequencer a" by (intro passed_over) auto
    with v False Some step have "m' = m \<and> books' = books"
      by (cases r)
        (auto simp: l2_feed_step_def l2_transform_def map_find_def manager_run_def fun_upd_idem
          split: option.splits)
    with sync show ?thesis by (simp add: advanced_refl)
  next
    case True
    then obtain u' where "r = Inr (Some u')" by blast
    with v accepted have acc: "r = Inr (Some u)" "at_id s = to_id u" "at_id (bm_sequencer a) \<le> to_id u"
        "from_id u \<le> unat (at_id (bm_sequencer a))"
      using faithful [OF Some] by fastforce+
    obtain times where ev: "me_kind (event t (bm_key a) u) =
        BookUpdate (order_book_new (to_id u) times (bids_of u) (asks_of u))"
      using event_book by blast
    let ?b = "order_book_update (BookUpdate (order_book_new (to_id u) times (bids_of u) (asks_of u))) b"
    have m': "m' = m(sub_id u \<mapsto> a\<lparr>bm_sequencer := s\<rparr>)" and books': "books' = books(bm_key a \<mapsto> ?b)"
      using step v acc(1) Some b(1) ev event_key
      by (auto simp: l2_feed_step_def l2_transform_def map_find_def manager_run_def manager_step_def)
    have "unat (at_id (bm_sequencer a)) \<le> unat (to_id u)" using acc(3) by (simp add: word_le_nat_alt)
    with faithful [OF Some] acc(4) b have "book_wf ?b \<and>
        side_map (ob_bids ?b) = vb (bm_key a) (unat (to_id u)) \<and>
        side_map (ob_asks ?b) = va (bm_key a) (unat (to_id u))"
      by (intro carries_sides) auto
    moreover have "ob_sequence ?b = to_id u" by (simp add: order_book_new_def)
    ultimately have "synced at_id vb va (m', books')"
      using sync Some acc(2) unfolding synced_def m' books' by (auto split: if_splits)
    moreover have "advanced at_id m m'" using Some acc(2,3) unfolding m' advanced_def by auto
    ultimately show ?thesis by blast
  qed
qed

lemma feed_synced:
  assumes "synced at_id vb va st"
    and "\<And>t u a. (t, u) \<in> set us \<Longrightarrow> fst st (sub_id u) = Some a \<Longrightarrow> proper u \<and>
      carries (vb (bm_key a)) (from_id u) (unat (to_id u)) (bids_of u) \<and>
      carries (va (bm_key a)) (from_id u) (unat (to_id u)) (asks_of u)"
    and "st' = fold (\<lambda>(t, u). l2_feed_step (l2_transform validate sub_id (event t)) u) us st"
  shows "synced at_id vb va st' \<and> advanced at_id (fst st) (fst st')"
  using assms
proof (induction us arbitrary: st)
  case Nil
  then show ?case by (simp add: advanced_refl)
next
  case (Cons tu us)
  obtain t u where tu: "tu = (t, u)" by fastforce
  let ?st1 = "l2_feed_step (l2_transform validate sub_id (event t)) u st"
  have step: "synced at_id vb va ?st1 \<and> advanced at_id (fst st) (fst ?st1)"
    using feed_step_synced [of vb va "fst st" "snd st" u t "fst ?st1" "snd ?st1"] Cons.prems tu by auto
  have "synced at_id vb va st' \<and> advanced at_id (fst ?st1) (fst st')"
  proof (rule Cons.IH)
    show "proper w \<and> carries (vb (bm_key a)) (from_id w) (unat (to_id w)) (bids_of w) \<and>
        carries (va (bm_key a)) (from_id w) (unat (to_id w)) (asks_of w)"
      if mem: "(x, w) \<in> set us" and sub: "fst ?st1 (sub_id w) = Some a" for x w a
    proof -
      obtain a' where "fst st (sub_id w) = Some a'" "bm_key a' = bm_key a"
        using step sub unfolding advanced_def by (metis not_None_eq)
      with Cons.prems(2) [of x w a'] mem show ?thesis by simp
    qed
  qed (use step Cons.prems(3) tu in simp_all)
  with step show ?case using advanced_trans by blast
qed

end

lemma word_succ_no_wrap:
  assumes "a < b"
  shows "unat (a + 1 :: u64) = unat a + 1"
proof -
  have "unat b < 2 ^ 64" by (rule order.strict_trans2 [OF unsigned_less]) simp
  with assms show ?thesis by (simp add: word_less_nat_alt unat_word_ariths)
qed

interpretation spot: l2_stream spot_sequencer_new spot_validate_sequence ss_last_update_id
    "\<lambda>u. unat (su_first_update_id u) - 1" su_last_update_id "\<lambda>_. True"
    su_subscription_id spot_market_event su_bids su_asks
proof unfold_locales
  fix u u' s s' assume v: "spot_validate_sequence u s = (s', Inr (Some u'))"
  then have lt: "ss_last_update_id s < su_last_update_id u"
    by (auto simp: spot_validate_sequence_def split: if_splits)
  have "su_first_update_id u \<le> ss_last_update_id s + 1"
    using v by (auto simp: spot_validate_sequence_def spot_validate_first_update_def
        spot_validate_next_update_def Let_def split: if_splits sum.splits)
  with word_succ_no_wrap [OF lt] have "unat (su_first_update_id u) - 1 \<le> unat (ss_last_update_id s)"
    by (simp add: word_le_nat_alt)
  with v lt show "u' = u \<and> ss_last_update_id s' = su_last_update_id u \<and>
      ss_last_update_id s \<le> su_last_update_id u \<and>
      (True \<longrightarrow> unat (su_first_update_id u) - 1 \<le> unat (ss_last_update_id s))"
    by (auto simp: spot_validate_sequence_def split: if_splits sum.splits)
next
  fix u s s' r assume "spot_validate_sequence u s = (s', r)" "\<And>u'. r \<noteq> Inr (Some u')"
  then show "s' = s" by (auto simp: spot_validate_sequence_def split: if_splits sum.splits)
qed (auto simp: spot_sequencer_new_def spot_market_event_def spot_update_book_def)

interpretation futures: l2_stream futures_sequencer_new futures_validate_sequence fs_last_update_id
    "\<lambda>u. unat (fu_prev_last_update_id u)" fu_last_update_id
    "\<lambda>u. fu_prev_last_update_id u \<le> fu_first_update_id u"
    fu_subscription_id futures_market_event fu_bids fu_asks
proof unfold_locales
  fix u u' s s' assume "futures_validate_sequence u s = (s', Inr (Some u'))"
  then show "u' = u \<and> fs_last_update_id s' = fu_last_update_id u \<and>
      fs_last_update_id s \<le> fu_last_update_id u \<and>
      (fu_prev_last_update_id u \<le> fu_first_update_id u \<longrightarrow>
        unat (fu_prev_last_update_id u) \<le> unat (fs_last_update_id s))"
    by (auto simp: futures_validate_sequence_def futures_validate_first_update_def
        futures_validate_next_update_def word_le_nat_alt word_less_nat_alt split: if_splits sum.splits)
next
  fix u s s' r assume "futures_validate_sequence u s = (s', r)" "\<And>u'. r \<noteq> Inr (Some u')"
  then show "s' = s" by (auto simp: futures_validate_sequence_def split: if_splits sum.splits)
qed (auto simp: futures_sequencer_new_def futures_market_event_def futures_update_book_def)

section \<open>Streams without gaps\<close>

text \<open>The updates a spot sequencer lets through, and the errors it reports, over a list.\<close>

fun spot_passes :: "spot_update list \<Rightarrow> spot_sequencer \<Rightarrow> spot_update list" where
  "spot_passes [] s = []"
| "spot_passes (u # us) s =
     (case spot_validate_sequence u s of
        (s', Inr (Some u')) \<Rightarrow> u' # spot_passes us s'
      | (s', _) \<Rightarrow> spot_passes us s')"

fun spot_results :: "spot_update list \<Rightarrow> spot_sequencer \<Rightarrow> spot_sequencer \<times> data_error list" where
  "spot_results [] s = (s, [])"
| "spot_results (u # us) s =
     (let (s', r) = spot_validate_sequence u s; (s'', es) = spot_results us s' in
      (s'', case r of Inl e \<Rightarrow> e # es | Inr _ \<Rightarrow> es))"

text \<open>A list of updates in which each one starts right after the one before it.\<close>

fun contiguous :: "spot_update list \<Rightarrow> bool" where
  "contiguous [] = True"
| "contiguous [u] = True"
| "contiguous (u # w # us) \<longleftrightarrow>
     unat (su_first_update_id w) = unat (su_last_update_id u) + 1 \<and> contiguous (w # us)"

lemma contiguous_Cons:
  "contiguous (u # us) \<longleftrightarrow> contiguous us \<and>
    (us \<noteq> [] \<longrightarrow> unat (su_first_update_id (hd us)) = unat (su_last_update_id u) + 1)"
  by (cases us) auto

lemma spot_validate_cases:
  "spot_validate_sequence u s =
    (if unat (su_last_update_id u) \<le> unat (ss_last_update_id s) then (s, Inr None)
     else if (if spot_is_first_update s
              then unat (su_first_update_id u) \<le> unat (ss_last_update_id s) + 1
              else unat (su_first_update_id u) = unat (ss_last_update_id s) + 1)
     then (\<lparr>ss_updates_processed = ss_updates_processed s + 1, ss_last_update_id = su_last_update_id u,
            ss_prev_last_update_id = ss_last_update_id s\<rparr>, Inr (Some u))
     else (s, Inl (InvalidSequence (ss_last_update_id s) (su_first_update_id u))))"
proof (cases "su_last_update_id u \<le> ss_last_update_id s")
  case True
  then show ?thesis by (simp add: spot_validate_sequence_def word_le_nat_alt)
next
  case False
  then have lt: "ss_last_update_id s < su_last_update_id u" by simp
  note wrap = word_succ_no_wrap [OF lt]
  have "ss_last_update_id s + 1 \<le> su_last_update_id u"
    using lt wrap by (simp add: word_le_nat_alt word_less_nat_alt)
  moreover have "(su_first_update_id u = ss_last_update_id s + 1) =
      (unat (su_first_update_id u) = unat (ss_last_update_id s) + 1)"
    using wrap word_unat_eq_iff by metis
  moreover have "(su_first_update_id u \<le> ss_last_update_id s + 1) =
      (unat (su_first_update_id u) \<le> unat (ss_last_update_id s) + 1)"
    using wrap by (simp add: word_le_nat_alt)
  ultimately show ?thesis using False
    by (simp add: spot_validate_sequence_def spot_validate_first_update_def
        spot_validate_next_update_def Let_def word_le_nat_alt)
qed

lemma spot_passes_chain:
  assumes "0 < unat (ss_updates_processed s)"
    and "unat (ss_updates_processed s) + length us < 2 ^ 64"
  shows "contiguous (spot_passes us s) \<and> (spot_passes us s \<noteq> [] \<longrightarrow>
    unat (su_first_update_id (hd (spot_passes us s))) = unat (ss_last_update_id s) + 1)"
  using assms
proof (induction us arbitrary: s)
  case Nil
  then show ?case by simp
next
  case (Cons u us)
  have notfirst: "\<not> spot_is_first_update s"
    using Cons.prems(1) by (auto simp: spot_is_first_update_def)
  have "unat (ss_updates_processed s + 1) = unat (ss_updates_processed s) + 1"
    using Cons.prems(2) by (simp add: unat_word_ariths)
  with Cons notfirst show ?case
    by (simp add: spot_validate_cases contiguous_Cons split: if_splits)
qed

lemma spot_results_contiguous:
  assumes "spot_results us s = (s', es)" and "contiguous us"
    and "\<forall>u \<in> set us. unat (su_first_update_id u) \<le> unat (su_last_update_id u)"
    and "us \<noteq> [] \<Longrightarrow> (if spot_is_first_update s
      then unat (su_first_update_id (hd us)) \<le> unat (ss_last_update_id s) + 1
      else unat (su_first_update_id (hd us)) = unat (ss_last_update_id s) + 1)"
    and "unat (ss_updates_processed s) + length us < 2 ^ 64"
  shows "es = [] \<and> unat (ss_last_update_id s') =
      (if us = [] then unat (ss_last_update_id s)
       else max (unat (ss_last_update_id s)) (unat (su_last_update_id (last us))))"
  using assms
proof (induction us arbitrary: s s' es)
  case Nil
  then show ?case by simp
next
  case (Cons u us)
  let ?s1 = "fst (spot_validate_sequence u s)"
  obtain es1 where rest: "spot_results us ?s1 = (s', es1)"
    using Cons.prems(1) by (auto simp: Let_def split: prod.splits)
  have next_hd: "us \<noteq> [] \<Longrightarrow> unat (su_first_update_id (hd us)) = unat (su_last_update_id u) + 1"
    and contig: "contiguous us"
    using Cons.prems(2) by (simp_all add: contiguous_Cons)
  have grow: "us \<noteq> [] \<Longrightarrow> contiguous us \<Longrightarrow> \<forall>w \<in> set us. unat (su_first_update_id w) \<le> unat (su_last_update_id w) \<Longrightarrow>
      unat (su_first_update_id (hd us)) \<le> unat (su_last_update_id (last us))" for us
    by (induction us) (auto simp: contiguous_Cons)
  have after: "us \<noteq> [] \<Longrightarrow> unat (su_last_update_id u) < unat (su_last_update_id (last us))"
    using grow [of us] next_hd contig Cons.prems(3) by fastforce
  have inc: "unat (ss_updates_processed s + 1) = unat (ss_updates_processed s) + 1"
    using Cons.prems(5) by (simp add: unat_word_ariths)
  show ?case
  proof (cases "unat (su_last_update_id u) \<le> unat (ss_last_update_id s)")
    case True
    then have v: "spot_validate_sequence u s = (s, Inr None)" by (simp add: spot_validate_cases)
    have first: "spot_is_first_update s"
      using True Cons.prems(3,4) by (auto split: if_splits)
    have "es1 = [] \<and> unat (ss_last_update_id s') = (if us = [] then unat (ss_last_update_id s)
       else max (unat (ss_last_update_id s)) (unat (su_last_update_id (last us))))"
      by (rule Cons.IH) (use rest v contig next_hd True first Cons.prems in auto)
    with v rest Cons.prems(1) True after show ?thesis by auto
  next
    case False
    then have v: "spot_validate_sequence u s = (\<lparr>ss_updates_processed = ss_updates_processed s + 1,
        ss_last_update_id = su_last_update_id u, ss_prev_last_update_id = ss_last_update_id s\<rparr>, Inr (Some u))"
      using Cons.prems(4) by (auto simp: spot_validate_cases)
    have notfirst: "\<not> spot_is_first_update ?s1"
      using v inc by (auto simp: spot_is_first_update_def)
    have "es1 = [] \<and> unat (ss_last_update_id s') = (if us = [] then unat (su_last_update_id u)
       else max (unat (su_last_update_id u)) (unat (su_last_update_id (last us))))"
      using Cons.IH [OF rest contig] notfirst v next_hd inc Cons.prems(3,5) by simp
    with v rest Cons.prems(1) False after show ?thesis by auto
  qed
qed

section \<open>Starting a connection\<close>

text \<open>An event with the venue's snapshot of a book: the venue's sides as of the id it names.\<close>

definition venue_snapshot ::
  "exchange_id \<Rightarrow> ('k \<Rightarrow> venue_side) \<Rightarrow> ('k \<Rightarrow> venue_side) \<Rightarrow> 'k market_event \<Rightarrow> bool" where
  "venue_snapshot x vb va e \<longleftrightarrow>
     (\<exists>now sn. e = snapshot_market_event now x (me_instrument e) sn \<and>
        distinct (map lv_price (sn_bids sn)) \<and> distinct (map lv_price (sn_asks sn)) \<and>
        side_map (sn_bids sn) = vb (me_instrument e) (unat (sn_last_update_id sn)) \<and>
        side_map (sn_asks sn) = va (me_instrument e) (unat (sn_last_update_id sn)))"

lemma venue_snapshot_book:
  assumes "venue_snapshot x vb va e" and "me_kind e = BookSnapshot b"
  shows "book_wf b \<and> side_map (ob_bids b) = vb (me_instrument e) (unat (ob_sequence b)) \<and>
    side_map (ob_asks b) = va (me_instrument e) (unat (ob_sequence b))"
proof -
  obtain now sn where sn: "e = snapshot_market_event now x (me_instrument e) sn"
      "distinct (map lv_price (sn_bids sn))" "distinct (map lv_price (sn_asks sn))"
      "side_map (sn_bids sn) = vb (me_instrument e) (unat (sn_last_update_id sn))"
      "side_map (sn_asks sn) = va (me_instrument e) (unat (sn_last_update_id sn))"
    using assms(1) unfolding venue_snapshot_def by blast
  have "me_kind e = me_kind (snapshot_market_event now x (me_instrument e) sn)"
    using sn(1) by (rule arg_cong)
  with assms(2) have "b = order_book_new (sn_last_update_id sn)
      \<lparr>bt_engine = sn_time_engine sn, bt_exchange = sn_time_exchange sn, bt_received = now\<rparr>
      (sn_bids sn) (sn_asks sn)"
    by (simp add: snapshot_market_event_def)
  with sn(2-5) show ?thesis
    by (simp add: order_book_new_def book_wf_def bids.build_wf asks.build_wf bids.build_map asks.build_map)
qed

lemma l2_init_Cons:
  "l2_init new snaps ((sub, key) # rest) = Inr m \<longleftrightarrow>
    (\<exists>e b m'. find (\<lambda>e. me_instrument e = key) snaps = Some e \<and> me_kind e = BookSnapshot b \<and>
       l2_init new snaps rest = Inr m' \<and>
       m = (if sub \<in> fst ` set rest then m'
            else m'(sub \<mapsto> \<lparr>bm_key = key, bm_sequencer = new (ob_sequence b)\<rparr>)))"
  by (auto split: option.splits order_book_event.splits sum.splits)

lemma l2_init_entry:
  "l2_init new snaps entries = Inr m \<Longrightarrow> m i = Some a \<Longrightarrow> (i, bm_key a) \<in> set entries \<and>
    (\<exists>e b. e \<in> set snaps \<and> me_instrument e = bm_key a \<and> me_kind e = BookSnapshot b \<and>
       bm_sequencer a = new (ob_sequence b))"
proof (induction entries arbitrary: m)
  case Nil
  then show ?case by auto
next
  case (Cons entry rest)
  obtain sub key where entry: "entry = (sub, key)" by fastforce
  obtain e b m' where e: "find (\<lambda>e. me_instrument e = key) snaps = Some e" "me_kind e = BookSnapshot b"
      "l2_init new snaps rest = Inr m'"
      "m = (if sub \<in> fst ` set rest then m'
        else m'(sub \<mapsto> \<lparr>bm_key = key, bm_sequencer = new (ob_sequence b)\<rparr>))"
    using Cons.prems(1) unfolding entry l2_init_Cons by blast
  have "e \<in> set snaps \<and> me_instrument e = key" using e(1) by (auto simp: find_Some_iff)
  with e Cons.IH [OF e(3)] Cons.prems(2) entry show ?case by (auto split: if_splits)
qed

lemma l2_init_dom: "l2_init new snaps entries = Inr m \<Longrightarrow> dom m = fst ` set entries"
proof (induction entries arbitrary: m)
  case Nil
  then show ?case by auto
next
  case (Cons entry rest)
  obtain sub key where entry: "entry = (sub, key)" by fastforce
  obtain m' and b :: order_book where m': "l2_init new snaps rest = Inr m'" "m = (if sub \<in> fst ` set rest then m'
      else m'(sub \<mapsto> \<lparr>bm_key = key, bm_sequencer = new (ob_sequence b)\<rparr>))"
    using Cons.prems unfolding entry l2_init_Cons by blast
  have "dom m' = fst ` set rest" using m'(1) by (rule Cons.IH)
  moreover have "dom m = (if sub \<in> fst ` set rest then dom m' else insert sub (dom m'))"
    unfolding m'(2) by (cases "sub \<in> fst ` set rest") (simp_all only: if_True if_False dom_fun_upd, simp_all)
  ultimately show ?case using entry by (auto simp: insert_absorb)
qed

lemma manager_other:
  "k \<notin> me_instrument ` set evs \<Longrightarrow> manager_run (map Item evs) books k = books k"
  unfolding manager_run_def
  by (induction evs arbitrary: books) (auto simp: manager_step_def split: option.splits)

lemma manager_snapshots:
  "distinct (map me_instrument evs) \<Longrightarrow> e \<in> set evs \<Longrightarrow> me_kind e = BookSnapshot b \<Longrightarrow>
    books (me_instrument e) \<noteq> None \<Longrightarrow> manager_run (map Item evs) books (me_instrument e) = Some b"
proof (induction evs arbitrary: books)
  case Nil
  then show ?case by simp
next
  case (Cons f evs)
  let ?books = "manager_step (Item f) books"
  have run: "manager_run (map Item (f # evs)) books = manager_run (map Item evs) ?books"
    by (simp add: manager_run_def)
  show ?case
  proof (cases "e = f")
    case True
    then have "manager_run (map Item evs) ?books (me_instrument e) = ?books (me_instrument e)"
      using Cons.prems(1) by (intro manager_other) simp
    then show ?thesis using run True Cons.prems(3,4) by (auto simp: manager_step_def)
  next
    case False
    then have "?books (me_instrument e) \<noteq> None"
      using Cons.prems(4) by (auto simp: manager_step_def split: option.splits)
    with False Cons run show ?thesis by simp
  qed
qed

section \<open>Concrete streams\<close>

text \<open>A venue whose bids gain a level with update 8 and whose asks stay empty, at one instrument.\<close>

definition ex_vb :: "nat \<Rightarrow> venue_side" where
  "ex_vb k n = (if n < 8 then [10 \<mapsto> 1] else [10 \<mapsto> 1, 9 \<mapsto> 4])"

definition ex_va :: "nat \<Rightarrow> venue_side" where
  "ex_va k n = Map.empty"

definition ex_start :: order_book where
  "ex_start = \<lparr>ob_sequence = 7, ob_times = ex_times, ob_bids = [\<lparr>lv_price = 10, lv_amount = 1\<rparr>], ob_asks = []\<rparr>"

definition ex_spot :: spot_update where
  "ex_spot = \<lparr>su_subscription_id = ''s'', su_time_exchange = 3, su_first_update_id = 7, su_last_update_id = 8,
     su_bids = [\<lparr>lv_price = 9, lv_amount = 4\<rparr>], su_asks = []\<rparr>"

definition ex_futures :: futures_update where
  "ex_futures = \<lparr>fu_subscription_id = ''s'', fu_time_exchange = 3, fu_time_engine = 2,
     fu_first_update_id = 7, fu_last_update_id = 8, fu_prev_last_update_id = 6,
     fu_bids = [\<lparr>lv_price = 9, lv_amount = 4\<rparr>], fu_asks = []\<rparr>"

definition ex_conn :: "'s \<Rightarrow> (nat, 's) l2_transformer \<times> (nat \<rightharpoonup> order_book)" where
  "ex_conn s = ([''s'' \<mapsto> \<lparr>bm_key = 0, bm_sequencer = s\<rparr>], [0 \<mapsto> ex_start])"

definition ex_snap :: "nat market_event" where
  "ex_snap = snapshot_market_event 5 BinanceSpot 0 \<lparr>sn_last_update_id = 7, sn_time_exchange = None,
     sn_time_engine = None, sn_bids = [\<lparr>lv_price = 10, lv_amount = 1\<rparr>], sn_asks = []\<rparr>"

lemmas ex_l2_defs = ex_vb_def ex_va_def ex_start_def ex_spot_def ex_futures_def ex_conn_def

lemma ex_synced: "at_id s = 7 \<Longrightarrow> synced at_id ex_vb ex_va (ex_conn s)"
  by (auto simp: synced_def ex_l2_defs book_wf_def side_wf_def split: if_splits)

lemma ex_carries: "k \<in> {6, 7} \<Longrightarrow> carries (ex_vb 0) k 8 [\<lparr>lv_price = 9, lv_amount = 4\<rparr>] \<and> carries (ex_va 0) k 8 []"
  by (auto simp: carries_def ex_l2_defs)

section \<open>Properties\<close>

text \<open>C4: A spot book is the venue's book. Whatever updates arrive, late, repeated, out of order or
  after a gap, each local book stays the venue's book as of the last update id let through, level
  for level, and that id only moves forward: an update that does not continue the book is dropped
  or refused and changes nothing.\<close>

theorem spot_book_follows_venue:
  assumes "synced ss_last_update_id vb va st"
    and "\<forall>(t, u) \<in> set us. \<forall>a. fst st (su_subscription_id u) = Some a \<longrightarrow>
      spot_faithful (vb (bm_key a)) (va (bm_key a)) u"
  shows "synced ss_last_update_id vb va (spot_feed us st)
    \<and> advanced ss_last_update_id (fst st) (fst (spot_feed us st))"
proof (rule spot.feed_synced [OF assms(1)])
  show "spot_feed us st =
      fold (\<lambda>(t, u). l2_feed_step (l2_transform spot_validate_sequence su_subscription_id (spot_market_event t)) u) us st"
    by (simp add: spot_feed_def spot_transform_def)
qed (use assms(2) in \<open>fastforce simp: spot_faithful_def\<close>)

theorem spot_book_follows_venue_witness:
  "synced ss_last_update_id ex_vb ex_va
     (spot_feed [(4, ex_spot), (5, ex_spot)] (ex_conn (spot_sequencer_new 7)))"
  by (rule spot_book_follows_venue [THEN conjunct1, OF ex_synced])
    (use ex_carries [of 6] in \<open>simp_all add: spot_sequencer_new_def spot_faithful_def, simp_all add: ex_l2_defs\<close>)

text \<open>C5: A futures book is the venue's book in the same sense, where each update also names the last
  id of the update before it and starts no earlier than that.\<close>

theorem futures_book_follows_venue:
  assumes "synced fs_last_update_id vb va st"
    and "\<forall>(t, u) \<in> set us. \<forall>a. fst st (fu_subscription_id u) = Some a \<longrightarrow>
      futures_faithful (vb (bm_key a)) (va (bm_key a)) u"
  shows "synced fs_last_update_id vb va (futures_feed us st)
    \<and> advanced fs_last_update_id (fst st) (fst (futures_feed us st))"
proof (rule futures.feed_synced [OF assms(1)])
  show "futures_feed us st =
      fold (\<lambda>(t, u). l2_feed_step (l2_transform futures_validate_sequence fu_subscription_id (futures_market_event t)) u) us st"
    by (simp add: futures_feed_def futures_transform_def)
qed (use assms(2) in \<open>fastforce simp: futures_faithful_def\<close>)

theorem futures_book_follows_venue_witness:
  "synced fs_last_update_id ex_vb ex_va
     (futures_feed [(4, ex_futures), (5, ex_futures)] (ex_conn (futures_sequencer_new 7)))"
  by (rule futures_book_follows_venue [THEN conjunct1, OF ex_synced])
    (use ex_carries [of 6] in \<open>simp_all add: futures_sequencer_new_def futures_faithful_def, simp_all add: ex_l2_defs\<close>)

text \<open>A connection starts on the venue's book. When \<open>init\<close> accepts the snapshots fetched for its
  subscriptions and the manager applies them, every book is the venue's as of the snapshot's id,
  for distinct instruments whose books the manager holds.\<close>

theorem spot_init_synced:
  assumes "spot_init snaps entries = Inr m"
    and "distinct (map fst entries)" and "distinct (map snd entries)" and "distinct (map me_instrument snaps)"
    and "\<forall>e \<in> set snaps. venue_snapshot BinanceSpot vb va e \<and> books (me_instrument e) \<noteq> None"
  shows "synced ss_last_update_id vb va (m, manager_run (map Item snaps) books)
    \<and> dom m = fst ` set entries"
proof -
  have init: "l2_init spot_sequencer_new snaps entries = Inr m" using assms(1) by (simp add: spot_init_def)
  have "\<exists>b. manager_run (map Item snaps) books (bm_key a) = Some b \<and> book_wf b \<and>
      ob_sequence b = ss_last_update_id (bm_sequencer a) \<and>
      side_map (ob_bids b) = vb (bm_key a) (unat (ss_last_update_id (bm_sequencer a))) \<and>
      side_map (ob_asks b) = va (bm_key a) (unat (ss_last_update_id (bm_sequencer a)))"
    if entry: "m i = Some a" for i a
  proof -
    obtain e b where e: "e \<in> set snaps" "me_instrument e = bm_key a" "me_kind e = BookSnapshot b"
        "bm_sequencer a = spot_sequencer_new (ob_sequence b)"
      using l2_init_entry [OF init entry] by blast
    moreover have "manager_run (map Item snaps) books (bm_key a) = Some b"
      using manager_snapshots [OF assms(4) e(1,3)] assms(5) e(1,2) by auto
    moreover have "venue_snapshot BinanceSpot vb va e" using assms(5) e(1) by blast
    ultimately show ?thesis
      using venue_snapshot_book [of BinanceSpot vb va e b] by (auto simp: spot_sequencer_new_def)
  qed
  moreover have "i = j" if "m i = Some a" "m j = Some b" "bm_key a = bm_key b" for i j a b
  proof -
    have "(i, bm_key a) \<in> set entries" "(j, bm_key a) \<in> set entries"
      using l2_init_entry [OF init that(1)] l2_init_entry [OF init that(2)] that(3) by auto
    moreover have inj: "inj_on snd (set entries)" using assms(3) by (simp add: distinct_map)
    ultimately have "(i, bm_key a) = (j, bm_key a)" by (intro inj_onD [OF inj]) simp_all
    then show ?thesis by simp
  qed
  ultimately show ?thesis
    using l2_init_dom [OF init] by (auto simp: synced_def)
qed

theorem spot_init_synced_witness:
  "\<exists>m. spot_init [ex_snap] [(''s'', 0)] = Inr m \<and>
    synced ss_last_update_id ex_vb ex_va (m, manager_run (map Item [ex_snap]) [0 \<mapsto> ex_start])"
proof -
  let ?m = "[''s'' \<mapsto> \<lparr>bm_key = 0 :: nat, bm_sequencer = spot_sequencer_new 7\<rparr>]"
  have init: "spot_init [ex_snap] [(''s'', 0)] = Inr ?m"
    by (simp add: spot_init_def ex_snap_def snapshot_market_event_def order_book_new_def)
  have "venue_snapshot BinanceSpot ex_vb ex_va ex_snap"
    unfolding venue_snapshot_def
    by (rule exI [of _ 5], rule exI [of _ "\<lparr>sn_last_update_id = 7, sn_time_exchange = None,
        sn_time_engine = None, sn_bids = [\<lparr>lv_price = 10, lv_amount = 1\<rparr>], sn_asks = []\<rparr>"])
      (simp add: ex_snap_def snapshot_market_event_def ex_l2_defs)
  then have "synced ss_last_update_id ex_vb ex_va (?m, manager_run (map Item [ex_snap]) [0 \<mapsto> ex_start])"
    by (intro spot_init_synced [OF init, THEN conjunct1])
      (simp_all add: ex_snap_def snapshot_market_event_def)
  with init show ?thesis by blast
qed

text \<open>The spot sequencer decides exactly as documented over the natural numbers: it drops an
  update that ends at or before the book, refuses a first update that starts beyond the next id
  and a later one that does not start at it, and lets the rest through. The increment of the last
  id never wraps where it is compared.\<close>

theorem spot_sequencer_decides:
  "spot_validate_sequence u s =
    (if unat (su_last_update_id u) \<le> unat (ss_last_update_id s) then (s, Inr None)
     else if (if spot_is_first_update s
              then unat (su_first_update_id u) \<le> unat (ss_last_update_id s) + 1
              else unat (su_first_update_id u) = unat (ss_last_update_id s) + 1)
     then (\<lparr>ss_updates_processed = ss_updates_processed s + 1, ss_last_update_id = su_last_update_id u,
            ss_prev_last_update_id = ss_last_update_id s\<rparr>, Inr (Some u))
     else (s, Inl (InvalidSequence (ss_last_update_id s) (su_first_update_id u))))"
  by (rule spot_validate_cases)

text \<open>The updates a fresh spot sequencer lets through leave no gap: the first one covers the id
  after the snapshot's, and each later one starts right after the one before it, however the
  stream is broken, for any stream shorter than the 64-bit count of updates.\<close>

theorem spot_passes_no_gap:
  assumes "length us < 2 ^ 64"
  shows "contiguous (spot_passes us (spot_sequencer_new i)) \<and>
    (spot_passes us (spot_sequencer_new i) \<noteq> [] \<longrightarrow>
      unat (su_first_update_id (hd (spot_passes us (spot_sequencer_new i)))) \<le> unat i + 1 \<and>
      unat i + 1 \<le> unat (su_last_update_id (hd (spot_passes us (spot_sequencer_new i)))))"
  using assms
proof (induction us)
  case Nil
  then show ?case by simp
next
  case (Cons u us)
  let ?s1 = "\<lparr>ss_updates_processed = 1, ss_last_update_id = su_last_update_id u, ss_prev_last_update_id = i\<rparr>"
  have "contiguous (spot_passes us ?s1) \<and> (spot_passes us ?s1 \<noteq> [] \<longrightarrow>
      unat (su_first_update_id (hd (spot_passes us ?s1))) = unat (su_last_update_id u) + 1)"
    using spot_passes_chain [of ?s1 us] Cons.prems by simp
  with Cons show ?case
    by (auto simp: spot_validate_cases contiguous_Cons spot_sequencer_new_def spot_is_first_update_def)
qed

theorem spot_passes_no_gap_witness:
  "unat (su_first_update_id (hd (spot_passes [ex_spot, ex_spot] (spot_sequencer_new 7)))) \<le> unat (7 :: u64) + 1"
  using spot_passes_no_gap [of "[ex_spot, ex_spot]" 7]
  by (simp add: spot_validate_cases spot_sequencer_new_def spot_is_first_update_def ex_spot_def)

text \<open>C6: A stream without gaps that starts early enough is never refused, and brings the book up to
  its end: nothing the code needs is dropped.\<close>

theorem spot_stream_catches_up:
  assumes "contiguous us" and "us \<noteq> []"
    and "\<forall>u \<in> set us. su_first_update_id u \<le> su_last_update_id u"
    and "unat (su_first_update_id (hd us)) \<le> unat i + 1" and "length us < 2 ^ 64"
  shows "snd (spot_results us (spot_sequencer_new i)) = [] \<and>
    ss_last_update_id (fst (spot_results us (spot_sequencer_new i))) = max i (su_last_update_id (last us))"
proof -
  obtain s' es where r: "spot_results us (spot_sequencer_new i) = (s', es)" by fastforce
  have "es = [] \<and> unat (ss_last_update_id s') =
      (if us = [] then unat (ss_last_update_id (spot_sequencer_new i))
       else max (unat (ss_last_update_id (spot_sequencer_new i))) (unat (su_last_update_id (last us))))"
    by (rule spot_results_contiguous [OF r assms(1)])
      (use assms in \<open>auto simp: spot_sequencer_new_def spot_is_first_update_def word_le_nat_alt\<close>)
  then show ?thesis using r assms(2)
    by (auto simp: spot_sequencer_new_def max_def word_le_nat_alt word_unat_eq_iff)
qed

theorem spot_stream_catches_up_witness:
  "ss_last_update_id (fst (spot_results [ex_spot] (spot_sequencer_new 7))) = 8"
  using spot_stream_catches_up [of "[ex_spot]" 7] by (simp add: ex_spot_def)

end
