(* ===== verification/Position.thy ===== *)
theory Position
  imports Order_Model
begin

text \<open>
  Positions and their profit and loss, \<open>rustrade/src/engine/state/position.rs\<close>, over the fills
  of \<open>rustrade-execution/src/trade.rs\<close>: opening, increasing, reducing, closing and flipping a
  position, the manager of an instrument's positions in both modes, seeds, carry and splits.
  Plain decimal arithmetic panics on overflow, so an operation that uses it returns an option
  and \<open>None\<close> is the panic; the result of the checked operations is an option of its own inside.
  Log lines are left out.
\<close>

section \<open>Fills\<close>

type_synonym trade_id = string

datatype trade_origin =
  OriginOrder | OriginLiquidation | OriginAdl | OriginAssignment | OriginExercise | OriginExpiry | OriginExternal

datatype time_source = SourceVenue | SourceHost

record 'a asset_fees =
  af_asset :: 'a
  af_fees :: decimal
  af_fees_quote :: "decimal option"

record ('a, 'i) trade =
  tr_id :: trade_id
  tr_order_id :: order_id
  tr_instrument :: 'i
  tr_strategy :: strategy_id
  tr_time_exchange :: time
  tr_side :: side
  tr_price :: decimal
  tr_quantity :: decimal
  tr_order_filled_quantity :: "decimal option"
  tr_fees :: "'a asset_fees"
  tr_origin :: trade_origin
  tr_position_side :: "side option"
  tr_client_order_id :: "client_order_id option"
  tr_time_source :: time_source

definition fee_in_quote :: "'a asset_fees \<Rightarrow> decimal" where
  "fee_in_quote f = (case af_fees_quote f of None \<Rightarrow> 0 | Some q \<Rightarrow> q)"

text \<open>The inner option is the sum, absent when neither fee has a quote equivalent.\<close>

definition sum_quote_fees :: "rounding \<Rightarrow> decimal option \<Rightarrow> decimal option \<Rightarrow> decimal option option" where
  "sum_quote_fees R held fee =
     (case (held, fee) of
        (None, None) \<Rightarrow> Some None
      | _ \<Rightarrow> map_option Some
          (dec_add R (case held of None \<Rightarrow> 0 | Some x \<Rightarrow> x) (case fee of None \<Rightarrow> 0 | Some x \<Rightarrow> x)))"

section \<open>Data\<close>

datatype oms_mode = Netting | Hedging

datatype split_rounding_policy = Floor | Fractional

record split_result =
  sr_remainder :: decimal
  sr_pnl_unrealised_overflowed :: bool

datatype split_error = SplitOverflow

datatype pnl_update = PnlUpdated | PnlOverflowed

datatype 'a carry_slot = CarryQuote | CarryBase | CarryOther 'a

record 'a asset_carry =
  ac_base :: decimal
  ac_other :: "('a \<times> decimal) list"

datatype net_pnl_error = NetPnlOverflow | BaseCarryUnpriced

datatype carry_update = CarryApplied | CarryOverflowed

record prepared_split =
  sp_quantity_abs :: decimal
  sp_price_entry_average :: decimal
  sp_quantity_abs_max :: decimal
  sp_remainder :: decimal

record ('a, 'i) position =
  ps_instrument :: 'i
  ps_side :: side
  ps_price_entry_average :: decimal
  ps_quantity_abs :: decimal
  ps_quantity_abs_max :: decimal
  ps_pnl_unrealised :: decimal
  ps_pnl_realised :: decimal
  ps_carry :: decimal
  ps_carry_assets :: "'a asset_carry"
  ps_fees_enter :: "'a asset_fees"
  ps_fees_exit :: "'a asset_fees"
  ps_time_enter :: time
  ps_time_exchange_update :: time
  ps_trades :: "trade_id list"
  ps_orders_enter :: "order_id list"
  ps_contract_size :: decimal

record ('a, 'i) position_exited =
  px_position_id :: position_id
  px_instrument :: 'i
  px_side :: side
  px_price_entry_average :: decimal
  px_quantity_abs_max :: decimal
  px_pnl_realised :: decimal
  px_carry :: decimal
  px_carry_assets :: "'a asset_carry"
  px_price_exit :: "decimal option"
  px_fees_enter :: "'a asset_fees"
  px_fees_exit :: "'a asset_fees"
  px_time_enter :: time
  px_time_exit :: time
  px_trades :: "trade_id list"

datatype ('a, 'i) trade_outcome =
    TradeApplied "('a, 'i) position_exited option"
  | TradeUnapplied "'a asset_fees"

definition position_id_netting :: position_id where
  "position_id_netting = ''netting''"

definition asset_carry_default :: "'a asset_carry" where
  "asset_carry_default = \<lparr>ac_base = 0, ac_other = []\<rparr>"

definition base_value_at :: "rounding \<Rightarrow> 'a asset_carry \<Rightarrow> decimal \<Rightarrow> decimal option" where
  "base_value_at R c price = dec_mul R (ac_base c) price"

section \<open>Calculations\<close>

definition calculate_price_entry_average ::
  "rounding \<Rightarrow> decimal \<Rightarrow> decimal \<Rightarrow> decimal \<Rightarrow> decimal \<Rightarrow> decimal option" where
  "calculate_price_entry_average R avg qty price tqty =
     (if qty = 0 \<and> tqty = 0 then Some 0
      else do {
        current \<leftarrow> dec_mul R avg qty;
        traded \<leftarrow> dec_mul R price tqty;
        v \<leftarrow> dec_add R current traded;
        q \<leftarrow> dec_add R qty tqty;
        dec_div R v q
      })"

definition approximate_remaining_exit_fees :: "rounding \<Rightarrow> decimal \<Rightarrow> decimal \<Rightarrow> decimal \<Rightarrow> decimal option" where
  "approximate_remaining_exit_fees R qty qty_max fees =
     (if qty_max = 0 then Some 0 else do { x \<leftarrow> dec_div R qty qty_max; dec_mul R x fees })"

text \<open>
  The value of a quantity between two prices, less a cost, checked at every step: the part that
  the unrealised and the realised calculation have in common.
\<close>

definition checked_gain :: "rounding \<Rightarrow> side \<Rightarrow> decimal \<Rightarrow> decimal \<Rightarrow> decimal \<Rightarrow> decimal \<Rightarrow> decimal \<Rightarrow> decimal option" where
  "checked_gain R sd entry qty price cost csize = do {
     c \<leftarrow> dec_mul R qty price;
     current \<leftarrow> dec_mul R c csize;
     e \<leftarrow> dec_mul R qty entry;
     entered \<leftarrow> dec_mul R e csize;
     gross \<leftarrow> (case sd of Buy \<Rightarrow> dec_sub R current entered | Sell \<Rightarrow> dec_sub R entered current);
     dec_sub R gross cost
   }"

definition calculate_pnl_unrealised ::
  "rounding \<Rightarrow> side \<Rightarrow> decimal \<Rightarrow> decimal \<Rightarrow> decimal \<Rightarrow> decimal \<Rightarrow> decimal \<Rightarrow> decimal \<Rightarrow> decimal option option" where
  "calculate_pnl_unrealised R sd entry qty qty_max fees_enter price csize = do {
     exit_fees \<leftarrow> approximate_remaining_exit_fees R qty qty_max fees_enter;
     Some (checked_gain R sd entry qty price exit_fees csize)
   }"

definition calculate_pnl_realised ::
  "rounding \<Rightarrow> side \<Rightarrow> decimal \<Rightarrow> decimal \<Rightarrow> decimal \<Rightarrow> decimal \<Rightarrow> decimal \<Rightarrow> decimal option" where
  "calculate_pnl_realised R sd entry closed_quantity closed_price closed_fee csize =
     checked_gain R sd entry \<bar>closed_quantity\<bar> closed_price closed_fee csize"

definition calculate_pnl_return :: "rounding \<Rightarrow> decimal \<Rightarrow> decimal \<Rightarrow> decimal \<Rightarrow> decimal option" where
  "calculate_pnl_return R pnl entry qty_max =
     (if entry = 0 \<or> qty_max = 0 then Some 0
      else do { cost \<leftarrow> dec_mul R entry qty_max; dec_div R pnl cost })"

section \<open>One position\<close>

definition checked_pnl_unrealised :: "rounding \<Rightarrow> ('a, 'i) position \<Rightarrow> decimal \<Rightarrow> decimal option option" where
  "checked_pnl_unrealised R p price =
     calculate_pnl_unrealised R (ps_side p) (ps_price_entry_average p) (ps_quantity_abs p)
       (ps_quantity_abs_max p) (fee_in_quote (ps_fees_enter p)) price (ps_contract_size p)"

definition update_pnl_unrealised ::
  "rounding \<Rightarrow> decimal \<Rightarrow> ('a, 'i) position \<Rightarrow> (pnl_update \<times> ('a, 'i) position) option" where
  "update_pnl_unrealised R price p = do {
     r \<leftarrow> checked_pnl_unrealised R p price;
     Some (case r of
        Some pnl \<Rightarrow> (PnlUpdated, p\<lparr>ps_pnl_unrealised := pnl\<rparr>)
      | None \<Rightarrow> (PnlOverflowed, p))
   }"

definition update_pnl_unrealised_post_trade ::
  "rounding \<Rightarrow> decimal \<Rightarrow> ('a, 'i) position \<Rightarrow> ('a, 'i) position option" where
  "update_pnl_unrealised_post_trade R price p = do {
     r \<leftarrow> checked_pnl_unrealised R p price;
     Some (p\<lparr>ps_pnl_unrealised := (case r of Some pnl \<Rightarrow> pnl | None \<Rightarrow> 0)\<rparr>)
   }"

definition update_pnl_realised ::
  "rounding \<Rightarrow> decimal \<Rightarrow> decimal \<Rightarrow> decimal \<Rightarrow> ('a, 'i) position \<Rightarrow> pnl_update \<times> ('a, 'i) position" where
  "update_pnl_realised R qty price fee p =
     (case do {
        delta \<leftarrow> calculate_pnl_realised R (ps_side p) (ps_price_entry_average p) qty price fee
          (ps_contract_size p);
        dec_add R (ps_pnl_realised p) delta
      } of
        Some new_sum \<Rightarrow> (PnlUpdated, p\<lparr>ps_pnl_realised := new_sum\<rparr>)
      | None \<Rightarrow> (PnlOverflowed, p))"

definition position_from_trade :: "('a, 'i) trade \<Rightarrow> ('a, 'i) position" where
  "position_from_trade t =
     \<lparr>ps_instrument = tr_instrument t, ps_side = tr_side t, ps_price_entry_average = tr_price t,
      ps_quantity_abs = \<bar>tr_quantity t\<bar>, ps_quantity_abs_max = \<bar>tr_quantity t\<bar>,
      ps_pnl_unrealised = 0, ps_pnl_realised = - fee_in_quote (tr_fees t), ps_carry = 0,
      ps_carry_assets = asset_carry_default, ps_fees_enter = tr_fees t,
      ps_fees_exit = \<lparr>af_asset = af_asset (tr_fees t), af_fees = 0, af_fees_quote = Some 0\<rparr>,
      ps_time_enter = tr_time_exchange t, ps_time_exchange_update = tr_time_exchange t,
      ps_trades = [tr_id t], ps_orders_enter = [tr_order_id t], ps_contract_size = 1\<rparr>"

definition into_exited :: "decimal option \<Rightarrow> ('a, 'i) position \<Rightarrow> ('a, 'i) position_exited" where
  "into_exited price_exit p =
     \<lparr>px_position_id = position_id_netting, px_instrument = ps_instrument p, px_side = ps_side p,
      px_price_entry_average = ps_price_entry_average p, px_quantity_abs_max = ps_quantity_abs_max p,
      px_pnl_realised = ps_pnl_realised p, px_carry = ps_carry p, px_carry_assets = ps_carry_assets p,
      px_price_exit = price_exit, px_fees_enter = ps_fees_enter p, px_fees_exit = ps_fees_exit p,
      px_time_enter = ps_time_enter p, px_time_exit = ps_time_exchange_update p, px_trades = ps_trades p\<rparr>"

text \<open>The fees of one side of a position after a further fee.\<close>

definition add_fees :: "rounding \<Rightarrow> 'a asset_fees \<Rightarrow> decimal \<Rightarrow> decimal option \<Rightarrow> 'a asset_fees option" where
  "add_fees R held fees quote = do {
     sum_fees \<leftarrow> dec_add R (af_fees held) fees;
     sum_quote \<leftarrow> sum_quote_fees R (af_fees_quote held) quote;
     Some (held\<lparr>af_fees := sum_fees, af_fees_quote := sum_quote\<rparr>)
   }"

text \<open>A fill on the position's own side.\<close>

definition position_increase ::
  "rounding \<Rightarrow> ('a, 'i) trade \<Rightarrow> ('a, 'i) position \<Rightarrow> ('a, 'i) position option" where
  "position_increase R t p = do {
     let orders = (if tr_order_id t \<in> set (ps_orders_enter p) then ps_orders_enter p
       else ps_orders_enter p @ [tr_order_id t]);
     avg \<leftarrow> calculate_price_entry_average R (ps_price_entry_average p) (ps_quantity_abs p)
       (tr_price t) \<bar>tr_quantity t\<bar>;
     q \<leftarrow> dec_add R (ps_quantity_abs p) \<bar>tr_quantity t\<bar>;
     let realised = (case dec_sub R (ps_pnl_realised p) (fee_in_quote (tr_fees t)) of
         Some x \<Rightarrow> x | None \<Rightarrow> ps_pnl_realised p);
     fees \<leftarrow> add_fees R (ps_fees_enter p) (af_fees (tr_fees t)) (af_fees_quote (tr_fees t));
     update_pnl_unrealised_post_trade R (tr_price t)
       (p\<lparr>ps_orders_enter := orders, ps_price_entry_average := avg, ps_quantity_abs := q,
          ps_quantity_abs_max := (if ps_quantity_abs_max p < q then q else ps_quantity_abs_max p),
          ps_pnl_realised := realised, ps_fees_enter := fees,
          ps_time_exchange_update := tr_time_exchange t\<rparr>)
   }"

text \<open>A fill against the position for less than it holds.\<close>

definition position_reduce ::
  "rounding \<Rightarrow> ('a, 'i) trade \<Rightarrow> ('a, 'i) position \<Rightarrow> ('a, 'i) position option" where
  "position_reduce R t p = do {
     let p1 = snd (update_pnl_realised R (tr_quantity t) (tr_price t) (fee_in_quote (tr_fees t)) p);
     q \<leftarrow> dec_sub R (ps_quantity_abs p1) \<bar>tr_quantity t\<bar>;
     fees \<leftarrow> add_fees R (ps_fees_exit p1) (af_fees (tr_fees t)) (af_fees_quote (tr_fees t));
     update_pnl_unrealised_post_trade R (tr_price t)
       (p1\<lparr>ps_quantity_abs := q, ps_fees_exit := fees, ps_time_exchange_update := tr_time_exchange t\<rparr>)
   }"

text \<open>A fill against the position for exactly what it holds.\<close>

definition position_close ::
  "rounding \<Rightarrow> ('a, 'i) trade \<Rightarrow> ('a, 'i) position \<Rightarrow> ('a, 'i) position_exited option" where
  "position_close R t p = do {
     q \<leftarrow> dec_sub R (ps_quantity_abs p) \<bar>tr_quantity t\<bar>;
     fees \<leftarrow> add_fees R (ps_fees_exit p) (af_fees (tr_fees t)) (af_fees_quote (tr_fees t));
     let p1 = p\<lparr>ps_quantity_abs := q, ps_fees_exit := fees, ps_time_exchange_update := tr_time_exchange t\<rparr>;
     let p2 = snd (update_pnl_realised R (tr_quantity t) (tr_price t) (fee_in_quote (tr_fees t)) p1);
     p3 \<leftarrow> update_pnl_unrealised_post_trade R (tr_price t) p2;
     Some (into_exited (Some (tr_price t)) p3)
   }"

text \<open>The part of a quote fee that a share of the fill's quantity bears.\<close>

definition share_quote :: "rounding \<Rightarrow> decimal \<Rightarrow> decimal \<Rightarrow> decimal option \<Rightarrow> decimal option option" where
  "share_quote R part whole fee =
     (case fee of
        None \<Rightarrow> Some None
      | Some f \<Rightarrow> do { r \<leftarrow> dec_div R part whole; x \<leftarrow> dec_mul R f r; Some (Some x) })"

text \<open>
  A fill against the position for more than it holds: the position exits and the rest of the
  fill opens the next one, each bearing its share of the fee.
\<close>

definition position_flip ::
  "rounding \<Rightarrow> ('a, 'i) trade \<Rightarrow> ('a, 'i) position \<Rightarrow> (('a, 'i) position \<times> ('a, 'i) position_exited) option" where
  "position_flip R t p = do {
     next_quantity \<leftarrow> dec_sub R \<bar>tr_quantity t\<bar> (ps_quantity_abs p);
     next_ratio \<leftarrow> dec_div R next_quantity \<bar>tr_quantity t\<bar>;
     next_fee \<leftarrow> dec_mul R (af_fees (tr_fees t)) next_ratio;
     next_fee_quote \<leftarrow> share_quote R next_quantity \<bar>tr_quantity t\<bar> (af_fees_quote (tr_fees t));
     let next_trade = t\<lparr>tr_quantity := next_quantity, tr_order_filled_quantity := None,
       tr_fees := (tr_fees t)\<lparr>af_fees := next_fee, af_fees_quote := next_fee_quote\<rparr>\<rparr>;
     exit_ratio \<leftarrow> dec_div R (ps_quantity_abs p) \<bar>tr_quantity t\<bar>;
     exit_fee \<leftarrow> dec_mul R (af_fees (tr_fees t)) exit_ratio;
     exit_fee_quote \<leftarrow> share_quote R (ps_quantity_abs p) \<bar>tr_quantity t\<bar> (af_fees_quote (tr_fees t));
     fees \<leftarrow> add_fees R (ps_fees_exit p) exit_fee exit_fee_quote;
     let p1 = p\<lparr>ps_fees_exit := fees, ps_time_exchange_update := tr_time_exchange t\<rparr>;
     let p2 = snd (update_pnl_realised R (ps_quantity_abs p1) (tr_price t)
       (case exit_fee_quote of None \<Rightarrow> 0 | Some x \<Rightarrow> x) p1);
     p3 \<leftarrow> update_pnl_unrealised_post_trade R (tr_price t) (p2\<lparr>ps_quantity_abs := 0\<rparr>);
     Some ((position_from_trade next_trade)\<lparr>ps_contract_size := ps_contract_size p3\<rparr>,
           into_exited (Some (tr_price t)) p3)
   }"

definition position_update_from_trade ::
  "rounding \<Rightarrow> ('a, 'i) trade \<Rightarrow> ('a, 'i) position
     \<Rightarrow> (('a, 'i) position option \<times> ('a, 'i) position_exited option) option" where
  "position_update_from_trade R t p0 =
     (if ps_instrument p0 \<noteq> tr_instrument t then Some (Some p0, None)
      else
        let p = p0\<lparr>ps_trades := ps_trades p0 @ [tr_id t]\<rparr> in
        if ps_side p = tr_side t
        then map_option (\<lambda>p'. (Some p', None)) (position_increase R t p)
        else if \<bar>tr_quantity t\<bar> < ps_quantity_abs p
        then map_option (\<lambda>p'. (Some p', None)) (position_reduce R t p)
        else if ps_quantity_abs p = \<bar>tr_quantity t\<bar>
        then map_option (\<lambda>x. (None, Some x)) (position_close R t p)
        else map_option (\<lambda>(p', x). (Some p', Some x)) (position_flip R t p))"

definition pnl_realised_net :: "rounding \<Rightarrow> decimal \<Rightarrow> ('a, 'i) position \<Rightarrow> decimal option" where
  "pnl_realised_net R price p = do {
     a \<leftarrow> dec_add R (ps_pnl_realised p) (ps_carry p);
     v \<leftarrow> base_value_at R (ps_carry_assets p) price;
     dec_add R a v
   }"

definition carry_held :: "'a carry_slot \<Rightarrow> ('a, 'i) position \<Rightarrow> decimal" where
  "carry_held slot p =
     (case slot of
        CarryQuote \<Rightarrow> ps_carry p
      | CarryBase \<Rightarrow> ac_base (ps_carry_assets p)
      | CarryOther a \<Rightarrow>
          (case map_of (ac_other (ps_carry_assets p)) a of None \<Rightarrow> 0 | Some x \<Rightarrow> x))"

definition apply_carry ::
  "rounding \<Rightarrow> 'a carry_slot \<Rightarrow> decimal \<Rightarrow> time \<Rightarrow> ('a, 'i) position \<Rightarrow> carry_update \<times> ('a, 'i) position" where
  "apply_carry R slot amount t p =
     (case dec_add R (carry_held slot p) amount of
        None \<Rightarrow> (CarryOverflowed, p)
      | Some new_sum \<Rightarrow>
          (let p' = (case slot of
               CarryQuote \<Rightarrow> p\<lparr>ps_carry := new_sum\<rparr>
             | CarryBase \<Rightarrow> p\<lparr>ps_carry_assets := (ps_carry_assets p)\<lparr>ac_base := new_sum\<rparr>\<rparr>
             | CarryOther a \<Rightarrow> p\<lparr>ps_carry_assets := (ps_carry_assets p)
                 \<lparr>ac_other := AList.update a new_sum (ac_other (ps_carry_assets p))\<rparr>\<rparr>)
           in (CarryApplied, p'\<lparr>ps_time_exchange_update := max (ps_time_exchange_update p') t\<rparr>)))"

section \<open>Splits\<close>

text \<open>A \<open>SplitRatio\<close> is a positive decimal. The outer option of a preparation is the panic.\<close>

definition split_ratio_new :: "decimal \<Rightarrow> decimal option" where
  "split_ratio_new r = (if 0 < r then Some r else None)"

definition prepare_split ::
  "rounding \<Rightarrow> decimal \<Rightarrow> split_rounding_policy \<Rightarrow> ('a, 'i) position \<Rightarrow> (split_error + prepared_split) option" where
  "prepare_split R ratio policy p =
     (case dec_mul R (ps_quantity_abs p) ratio of
        None \<Rightarrow> Some (Inl SplitOverflow)
      | Some scaled \<Rightarrow> do {
          let q = (case policy of Floor \<Rightarrow> of_int \<lfloor>scaled\<rfloor> | Fractional \<Rightarrow> scaled);
          remainder \<leftarrow> dec_sub R scaled q;
          Some (case dec_div R (ps_price_entry_average p) ratio of
              None \<Rightarrow> Inl SplitOverflow
            | Some avg \<Rightarrow>
                (case dec_mul R (ps_quantity_abs_max p) ratio of
                   None \<Rightarrow> Inl SplitOverflow
                 | Some qmax \<Rightarrow> Inr \<lparr>sp_quantity_abs = q, sp_price_entry_average = avg,
                     sp_quantity_abs_max = qmax, sp_remainder = remainder\<rparr>))
        })"

definition commit_split ::
  "rounding \<Rightarrow> prepared_split \<Rightarrow> decimal option \<Rightarrow> ('a, 'i) position \<Rightarrow> (split_result \<times> ('a, 'i) position) option" where
  "commit_split R sp last_price p =
     (let p1 = p\<lparr>ps_price_entry_average := sp_price_entry_average sp, ps_quantity_abs := sp_quantity_abs sp,
        ps_quantity_abs_max := sp_quantity_abs_max sp\<rparr> in
      case last_price of
        None \<Rightarrow> Some (\<lparr>sr_remainder = sp_remainder sp, sr_pnl_unrealised_overflowed = False\<rparr>,
                      p1\<lparr>ps_pnl_unrealised := 0\<rparr>)
      | Some price \<Rightarrow> do {
          r \<leftarrow> checked_pnl_unrealised R p1 price;
          Some (case r of
              Some pnl \<Rightarrow> (\<lparr>sr_remainder = sp_remainder sp, sr_pnl_unrealised_overflowed = False\<rparr>,
                           p1\<lparr>ps_pnl_unrealised := pnl\<rparr>)
            | None \<Rightarrow> (\<lparr>sr_remainder = sp_remainder sp, sr_pnl_unrealised_overflowed = True\<rparr>,
                       p1\<lparr>ps_pnl_unrealised := 0\<rparr>))
        })"

definition apply_split ::
  "rounding \<Rightarrow> decimal \<Rightarrow> split_rounding_policy \<Rightarrow> decimal option \<Rightarrow> ('a, 'i) position
     \<Rightarrow> ((split_error + split_result) \<times> ('a, 'i) position) option" where
  "apply_split R ratio policy last_price p = do {
     r \<leftarrow> prepare_split R ratio policy p;
     (case r of
        Inl e \<Rightarrow> Some (Inl e, p)
      | Inr sp \<Rightarrow> do { (res, p') \<leftarrow> commit_split R sp last_price p; Some (Inr res, p') })
   }"

definition validate_split ::
  "rounding \<Rightarrow> decimal \<Rightarrow> split_rounding_policy \<Rightarrow> ('a, 'i) position \<Rightarrow> (split_error + unit) option" where
  "validate_split R ratio policy p =
     map_option (map_sum id (\<lambda>_. ())) (prepare_split R ratio policy p)"

section \<open>An exited position\<close>

definition carry_valued :: "rounding \<Rightarrow> ('a, 'i) position_exited \<Rightarrow> net_pnl_error + decimal" where
  "carry_valued R x =
     (case (if ac_base (px_carry_assets x) = 0 then Inr 0
            else case px_price_exit x of
              None \<Rightarrow> Inl BaseCarryUnpriced
            | Some price \<Rightarrow>
                (case base_value_at R (px_carry_assets x) price of
                   None \<Rightarrow> Inl NetPnlOverflow | Some v \<Rightarrow> Inr v)) of
        Inl e \<Rightarrow> Inl e
      | Inr base \<Rightarrow> (case dec_add R (px_carry x) base of None \<Rightarrow> Inl NetPnlOverflow | Some v \<Rightarrow> Inr v))"

definition exited_pnl_realised_net :: "rounding \<Rightarrow> ('a, 'i) position_exited \<Rightarrow> net_pnl_error + decimal" where
  "exited_pnl_realised_net R x =
     (case carry_valued R x of
        Inl e \<Rightarrow> Inl e
      | Inr c \<Rightarrow> (case dec_add R (px_pnl_realised x) c of None \<Rightarrow> Inl NetPnlOverflow | Some v \<Rightarrow> Inr v))"

section \<open>The manager\<close>

record ('a, 'i) position_manager =
  pm_mode :: oms_mode
  pm_positions :: "(position_id, ('a, 'i) position) index_map"
  pm_time_history_start :: "time option"

definition position_manager_new :: "oms_mode \<Rightarrow> ('a, 'i) position_manager" where
  "position_manager_new mode = \<lparr>pm_mode = mode, pm_positions = [], pm_time_history_start = None\<rparr>"

definition record_position_end :: "time \<Rightarrow> ('a, 'i) position_manager \<Rightarrow> ('a, 'i) position_manager" where
  "record_position_end t m = m\<lparr>pm_time_history_start :=
     Some (case pm_time_history_start m of None \<Rightarrow> t | Some s \<Rightarrow> max s t)\<rparr>"

definition remove_ended ::
  "position_id \<Rightarrow> time \<Rightarrow> ('a, 'i) position_manager \<Rightarrow> ('a, 'i) position option \<times> ('a, 'i) position_manager" where
  "remove_ended i t m =
     (case map_of (pm_positions m) i of
        None \<Rightarrow> (None, m)
      | Some p \<Rightarrow> (Some p, record_position_end t (m\<lparr>pm_positions := im_remove i (pm_positions m)\<rparr>)))"

definition update_from_trade_with_id ::
  "rounding \<Rightarrow> ('a, 'i) trade \<Rightarrow> position_id \<Rightarrow> decimal \<Rightarrow> ('a, 'i) position_manager
     \<Rightarrow> (('a, 'i) trade_outcome \<times> ('a, 'i) position_manager) option" where
  "update_from_trade_with_id R t i csize m =
     (let finish = (\<lambda>(updated, closed).
        let closed' = map_option (\<lambda>x. x\<lparr>px_position_id := i\<rparr>) closed;
            m1 = m\<lparr>pm_positions := im_remove i (pm_positions m)\<rparr>;
            m2 = (case closed' of None \<Rightarrow> m1 | Some x \<Rightarrow> record_position_end (px_time_exit x) m1);
            m3 = (case updated of None \<Rightarrow> m2 | Some p \<Rightarrow> m2\<lparr>pm_positions := im_insert i p (pm_positions m2)\<rparr>)
        in (TradeApplied closed', m3))
      in case map_of (pm_positions m) i of
           Some p \<Rightarrow> map_option finish (position_update_from_trade R t (p\<lparr>ps_contract_size := csize\<rparr>))
         | None \<Rightarrow>
             if tr_quantity t = 0 then Some (TradeUnapplied (tr_fees t), m)
             else Some (finish (Some ((position_from_trade t)\<lparr>ps_contract_size := csize\<rparr>), None)))"

definition trade_position_id :: "oms_mode \<Rightarrow> ('a, 'i) trade \<Rightarrow> position_id" where
  "trade_position_id mode t = (case mode of Netting \<Rightarrow> position_id_netting | Hedging \<Rightarrow> tr_order_id t)"

definition update_from_trade ::
  "rounding \<Rightarrow> ('a, 'i) trade \<Rightarrow> decimal \<Rightarrow> ('a, 'i) position_manager
     \<Rightarrow> (('a, 'i) trade_outcome \<times> ('a, 'i) position_manager) option" where
  "update_from_trade R t csize m = update_from_trade_with_id R t (trade_position_id (pm_mode m) t) csize m"

section \<open>Seeds\<close>

record position_seed =
  sd_instrument :: string
  sd_side :: side
  sd_quantity_abs :: decimal
  sd_price_entry_average :: decimal
  sd_time_enter :: time
  sd_position_id :: "position_id option"
  sd_fees_enter :: decimal
  sd_carry :: decimal
  sd_carry_base :: decimal

datatype position_seed_error =
    SeedNonPositiveQuantity string decimal
  | SeedDuplicateSlot string position_id
  | SeedPositionIdInNetting string position_id
  | SeedMissingPositionIdInHedging string

definition seed_position :: "position_seed \<Rightarrow> 'i \<Rightarrow> 'a \<Rightarrow> decimal \<Rightarrow> ('a, 'i) position" where
  "seed_position sd instrument quote csize =
     \<lparr>ps_instrument = instrument, ps_side = sd_side sd,
      ps_price_entry_average = sd_price_entry_average sd, ps_quantity_abs = sd_quantity_abs sd,
      ps_quantity_abs_max = sd_quantity_abs sd, ps_pnl_unrealised = 0,
      ps_pnl_realised = - sd_fees_enter sd, ps_carry = sd_carry sd,
      ps_carry_assets = \<lparr>ac_base = sd_carry_base sd, ac_other = []\<rparr>,
      ps_fees_enter = \<lparr>af_asset = quote, af_fees = sd_fees_enter sd, af_fees_quote = Some (sd_fees_enter sd)\<rparr>,
      ps_fees_exit = \<lparr>af_asset = quote, af_fees = 0, af_fees_quote = Some 0\<rparr>,
      ps_time_enter = sd_time_enter sd, ps_time_exchange_update = sd_time_enter sd,
      ps_trades = [], ps_orders_enter = [], ps_contract_size = csize\<rparr>"

definition seed_slot :: "oms_mode \<Rightarrow> position_seed \<Rightarrow> position_seed_error + position_id" where
  "seed_slot mode sd =
     (case (mode, sd_position_id sd) of
        (Netting, None) \<Rightarrow> Inr position_id_netting
      | (Netting, Some i) \<Rightarrow>
          if i = position_id_netting then Inr i else Inl (SeedPositionIdInNetting (sd_instrument sd) i)
      | (Hedging, Some i) \<Rightarrow> Inr i
      | (Hedging, None) \<Rightarrow> Inl (SeedMissingPositionIdInHedging (sd_instrument sd)))"

definition seed_into ::
  "position_seed \<Rightarrow> 'i \<Rightarrow> 'a \<Rightarrow> decimal \<Rightarrow> ('a, 'i) position_manager
     \<Rightarrow> (position_seed_error + unit) \<times> ('a, 'i) position_manager" where
  "seed_into sd instrument quote csize m =
     (if sd_quantity_abs sd \<le> 0
      then (Inl (SeedNonPositiveQuantity (sd_instrument sd) (sd_quantity_abs sd)), m)
      else
        case seed_slot (pm_mode m) sd of
          Inl e \<Rightarrow> (Inl e, m)
        | Inr i \<Rightarrow>
            if map_of (pm_positions m) i \<noteq> None
            then (Inl (SeedDuplicateSlot (sd_instrument sd) i), m)
            else (Inr (), record_position_end (sd_time_enter sd)
              (m\<lparr>pm_positions := im_insert i (seed_position sd instrument quote csize) (pm_positions m)\<rparr>)))"

section \<open>What a position is worth\<close>

fun side_sign :: "side \<Rightarrow> decimal" where
  "side_sign Buy = 1"
| "side_sign Sell = - 1"

text \<open>The signed quantity of a position, and its worth at a price: what it realised so far and the
  gain on what it still holds.\<close>

definition position_net :: "('a, 'i) position \<Rightarrow> decimal" where
  "position_net p = side_sign (ps_side p) * ps_quantity_abs p"

definition position_worth :: "decimal \<Rightarrow> ('a, 'i) position \<Rightarrow> decimal" where
  "position_worth price p =
     ps_pnl_realised p + position_net p * (price - ps_price_entry_average p) * ps_contract_size p"

definition trade_net :: "('a, 'i) trade \<Rightarrow> decimal" where
  "trade_net t = side_sign (tr_side t) * \<bar>tr_quantity t\<bar>"

text \<open>What a fill adds to the worth of an account at a price: the signed quantity at the price less
  what was paid for it, less the fee.\<close>

definition trade_worth :: "decimal \<Rightarrow> decimal \<Rightarrow> ('a, 'i) trade \<Rightarrow> decimal" where
  "trade_worth price csize t = trade_net t * (price - tr_price t) * csize - fee_in_quote (tr_fees t)"

definition position_ok :: "'i \<Rightarrow> decimal \<Rightarrow> decimal set \<Rightarrow> ('a, 'i) position \<Rightarrow> bool" where
  "position_ok i csize prices p \<longleftrightarrow>
     ps_instrument p = i \<and> ps_contract_size p = csize \<and> 0 < ps_quantity_abs p \<and>
     ps_quantity_abs p \<le> ps_quantity_abs_max p \<and> ps_price_entry_average p \<in> prices"

definition worth_of :: "('p \<Rightarrow> decimal) \<Rightarrow> 'p option \<Rightarrow> decimal" where
  "worth_of f u = (case u of None \<Rightarrow> 0 | Some p \<Rightarrow> f p)"

lemma worth_of_simps [simp]: "worth_of f None = 0" "worth_of f (Some p) = f p"
  by (simp_all add: worth_of_def)

lemma post_trade_exact:
  "update_pnl_unrealised_post_trade Some price p \<noteq> None"
  by (simp add: update_pnl_unrealised_post_trade_def checked_pnl_unrealised_def calculate_pnl_unrealised_def
      approximate_remaining_exit_fees_def dec_simps)

lemma post_trade_fields:
  "update_pnl_unrealised_post_trade R price p = Some p' \<Longrightarrow> \<exists>x. p' = p\<lparr>ps_pnl_unrealised := x\<rparr>"
  by (auto simp: update_pnl_unrealised_post_trade_def split: Option.bind_splits)

lemma post_trade_ex:
  "\<exists>x. update_pnl_unrealised_post_trade Some price p = Some (p\<lparr>ps_pnl_unrealised := x\<rparr>)"
  using post_trade_exact [of price p] post_trade_fields by fastforce

lemma sum_quote_fees_exact: "sum_quote_fees Some a b \<noteq> None"
  by (auto simp: sum_quote_fees_def dec_simps split: option.splits)

lemma add_fees_exact: "add_fees Some held fees quote \<noteq> None"
  using sum_quote_fees_exact [of "af_fees_quote held" quote] by (auto simp: add_fees_def dec_simps)

lemma realised_exact:
  "update_pnl_realised Some q price fee p = (PnlUpdated, p\<lparr>ps_pnl_realised := ps_pnl_realised p +
     side_sign (ps_side p) * \<bar>q\<bar> * (price - ps_price_entry_average p) * ps_contract_size p - fee\<rparr>)"
  by (cases "ps_side p")
    (simp_all add: update_pnl_realised_def calculate_pnl_realised_def checked_gain_def dec_simps algebra_simps)

text \<open>The four ways a fill meets a position, where the arithmetic is exact.\<close>

lemma increase_exact:
  assumes "position_ok i csize {lo..hi} p" and "tr_price t \<in> {lo..hi}" and "ps_side p = tr_side t"
  shows "\<exists>p'. position_increase Some t p = Some p' \<and> position_ok i csize {lo..hi} p' \<and>
    position_net p' = position_net p + trade_net t \<and>
    position_worth price p' = position_worth price p + trade_worth price csize t"
proof -
  let ?q = "ps_quantity_abs p" and ?t = "\<bar>tr_quantity t\<bar>" and ?e = "ps_price_entry_average p"
  have pos: "0 < ?q" and cs: "ps_contract_size p = csize" using assms(1) by (simp_all add: position_ok_def)
  then have sum_pos: "0 < ?q + ?t" by linarith
  define avg where "avg = (?e * ?q + tr_price t * ?t) / (?q + ?t)"
  have avg: "avg * (?q + ?t) = ?e * ?q + tr_price t * ?t"
    unfolding avg_def using sum_pos by simp
  have "lo * ?q \<le> ?e * ?q" "lo * ?t \<le> tr_price t * ?t" "?e * ?q \<le> hi * ?q" "tr_price t * ?t \<le> hi * ?t"
    using assms(1,2) by (auto simp: position_ok_def intro: mult_right_mono)
  then have "lo \<le> avg" "avg \<le> hi"
    unfolding avg_def using sum_pos by (simp_all add: le_divide_eq divide_le_eq distrib_left)
  obtain fees where fees: "add_fees Some (ps_fees_enter p) (af_fees (tr_fees t)) (af_fees_quote (tr_fees t)) = Some fees"
    using add_fees_exact by fastforce
  have calc: "calculate_price_entry_average Some ?e ?q (tr_price t) ?t = Some avg"
    using pos sum_pos by (simp add: calculate_price_entry_average_def dec_simps avg_def)
  obtain p' x where p': "position_increase Some t p = Some p'" "p' = p\<lparr>ps_orders_enter := (if tr_order_id t \<in> set (ps_orders_enter p) then ps_orders_enter p
       else ps_orders_enter p @ [tr_order_id t]), ps_price_entry_average := avg, ps_quantity_abs := ?q + ?t,
       ps_quantity_abs_max := (if ps_quantity_abs_max p < ?q + ?t then ?q + ?t else ps_quantity_abs_max p),
       ps_pnl_realised := ps_pnl_realised p - fee_in_quote (tr_fees t), ps_fees_enter := fees,
       ps_time_exchange_update := tr_time_exchange t, ps_pnl_unrealised := x\<rparr>"
    using post_trade_exact post_trade_fields calc fees
    by (fastforce simp: position_increase_def dec_simps Let_def)
  have "position_ok i csize {lo..hi} p'"
    using assms(1) pos sum_pos \<open>lo \<le> avg\<close> \<open>avg \<le> hi\<close> by (auto simp: position_ok_def p'(2))
  moreover have "position_net p' = position_net p + trade_net t"
    using assms(3) by (simp add: position_net_def trade_net_def p'(2) distrib_left)
  moreover have "position_worth price p' = position_worth price p + trade_worth price csize t"
  proof -
    have "(?q + ?t) * (price - avg) = ?q * (price - ?e) + ?t * (price - tr_price t)"
      using avg by (simp add: algebra_simps)
    then have "side_sign (tr_side t) * csize * ((?q + ?t) * (price - avg)) =
        side_sign (tr_side t) * csize * (?q * (price - ?e) + ?t * (price - tr_price t))" by simp
    then show ?thesis using assms(3) cs
      by (simp add: position_worth_def position_net_def trade_worth_def trade_net_def p'(2) algebra_simps)
  qed
  ultimately show ?thesis using p'(1) by blast
qed

lemma reduce_exact:
  assumes "position_ok i csize S p" and "ps_side p \<noteq> tr_side t" and "\<bar>tr_quantity t\<bar> < ps_quantity_abs p"
  shows "\<exists>p'. position_reduce Some t p = Some p' \<and> position_ok i csize S p' \<and>
    position_net p' = position_net p + trade_net t \<and>
    position_worth price p' = position_worth price p + trade_worth price csize t"
proof -
  obtain fees where "add_fees Some (ps_fees_exit p) (af_fees (tr_fees t)) (af_fees_quote (tr_fees t)) = Some fees"
    using add_fees_exact by fastforce
  then obtain p' x where p': "position_reduce Some t p = Some p'" "p' = p\<lparr>
      ps_pnl_realised := ps_pnl_realised p + side_sign (ps_side p) * \<bar>tr_quantity t\<bar> *
        (tr_price t - ps_price_entry_average p) * ps_contract_size p - fee_in_quote (tr_fees t),
      ps_quantity_abs := ps_quantity_abs p - \<bar>tr_quantity t\<bar>, ps_fees_exit := fees,
      ps_time_exchange_update := tr_time_exchange t, ps_pnl_unrealised := x\<rparr>"
    using post_trade_exact post_trade_fields
    by (fastforce simp: position_reduce_def dec_simps realised_exact)
  have sign: "side_sign (tr_side t) = - side_sign (ps_side p)"
    using assms(2) by (cases "ps_side p"; cases "tr_side t") auto
  have "ps_quantity_abs p - \<bar>tr_quantity t\<bar> \<le> ps_quantity_abs_max p"
    using assms(1) abs_ge_zero [of "tr_quantity t"] unfolding position_ok_def by linarith
  then have "position_ok i csize S p'" using assms(1,3) by (simp add: position_ok_def p'(2))
  moreover have "position_net p' = position_net p + trade_net t"
    by (simp add: position_net_def trade_net_def p'(2) sign algebra_simps)
  moreover have "position_worth price p' = position_worth price p + trade_worth price csize t"
    using assms(1) by (simp add: position_worth_def position_net_def trade_worth_def trade_net_def p'(2)
        sign position_ok_def algebra_simps)
  ultimately show ?thesis using p'(1) by blast
qed

lemma close_exact:
  assumes "position_ok i csize S p" and "ps_side p \<noteq> tr_side t" and "ps_quantity_abs p = \<bar>tr_quantity t\<bar>"
  shows "\<exists>x. position_close Some t p = Some x \<and> position_net p + trade_net t = 0 \<and>
    px_pnl_realised x = position_worth price p + trade_worth price csize t \<and>
    px_time_exit x = tr_time_exchange t"
proof -
  obtain fees where fees:
    "add_fees Some (ps_fees_exit p) (af_fees (tr_fees t)) (af_fees_quote (tr_fees t)) = Some fees"
    using add_fees_exact by fastforce
  let ?p2 = "p\<lparr>ps_quantity_abs := ps_quantity_abs p - \<bar>tr_quantity t\<bar>, ps_fees_exit := fees,
      ps_time_exchange_update := tr_time_exchange t,
      ps_pnl_realised := ps_pnl_realised p + side_sign (ps_side p) * \<bar>tr_quantity t\<bar> *
        (tr_price t - ps_price_entry_average p) * ps_contract_size p - fee_in_quote (tr_fees t)\<rparr>"
  obtain y where y: "update_pnl_unrealised_post_trade Some (tr_price t) ?p2 = Some (?p2\<lparr>ps_pnl_unrealised := y\<rparr>)"
    using post_trade_ex by blast
  obtain x where x: "position_close Some t p = Some x"
    "x = into_exited (Some (tr_price t)) (?p2\<lparr>ps_pnl_unrealised := y\<rparr>)"
    using fees y by (simp add: position_close_def dec_simps realised_exact)
  have sign: "side_sign (tr_side t) = - side_sign (ps_side p)"
    using assms(2) by (cases "ps_side p"; cases "tr_side t") auto
  have "px_pnl_realised x = position_worth price p + trade_worth price csize t"
    using assms(1,3) by (simp add: position_worth_def position_net_def trade_worth_def trade_net_def x(2)
        sign position_ok_def into_exited_def algebra_simps)
  moreover have "position_net p + trade_net t = 0"
    using assms(3) by (simp add: position_net_def trade_net_def sign)
  ultimately show ?thesis using x by (auto simp: into_exited_def)
qed

lemma share_quote_exact: "w \<noteq> 0 \<Longrightarrow> share_quote Some a w f = Some (map_option (\<lambda>q. q * (a / w)) f)"
  by (auto simp: share_quote_def dec_simps split: option.splits)

lemma flip_exact:
  assumes "position_ok i csize S p" and "ps_side p \<noteq> tr_side t" and "ps_quantity_abs p < \<bar>tr_quantity t\<bar>"
    and "tr_price t \<in> S" and "tr_instrument t = i"
  shows "\<exists>p' x. position_flip Some t p = Some (p', x) \<and> position_ok i csize S p' \<and>
    position_net p' = position_net p + trade_net t \<and>
    position_worth price p' + px_pnl_realised x = position_worth price p + trade_worth price csize t \<and>
    px_time_exit x = tr_time_exchange t"
proof -
  let ?t = "\<bar>tr_quantity t\<bar>" and ?q = "ps_quantity_abs p"
  have pos: "0 < ?q" "0 < ?t" "?t \<noteq> 0" using assms(1,3) by (auto simp: position_ok_def)
  let ?exit_fee = "map_option (\<lambda>f. f * (?q / ?t)) (af_fees_quote (tr_fees t))"
  let ?next_fee = "map_option (\<lambda>f. f * ((?t - ?q) / ?t)) (af_fees_quote (tr_fees t))"
  obtain fees where fees:
    "add_fees Some (ps_fees_exit p) (af_fees (tr_fees t) * (?q / ?t)) ?exit_fee = Some fees"
    using add_fees_exact by fastforce
  let ?p2 = "p\<lparr>ps_fees_exit := fees, ps_time_exchange_update := tr_time_exchange t,
      ps_pnl_realised := ps_pnl_realised p + side_sign (ps_side p) * ?q *
        (tr_price t - ps_price_entry_average p) * ps_contract_size p -
        (case ?exit_fee of None \<Rightarrow> 0 | Some f \<Rightarrow> f),
      ps_quantity_abs := 0\<rparr>"
  obtain y where y: "update_pnl_unrealised_post_trade Some (tr_price t) ?p2 = Some (?p2\<lparr>ps_pnl_unrealised := y\<rparr>)"
    using post_trade_ex by blast
  define p' where "p' = (position_from_trade (t\<lparr>tr_quantity := ?t - ?q, tr_order_filled_quantity := None,
       tr_fees := (tr_fees t)\<lparr>af_fees := af_fees (tr_fees t) * ((?t - ?q) / ?t), af_fees_quote := ?next_fee\<rparr>\<rparr>))
       \<lparr>ps_contract_size := ps_contract_size p\<rparr>"
  define x where "x = into_exited (Some (tr_price t)) (?p2\<lparr>ps_pnl_unrealised := y\<rparr>)"
  have "position_flip Some t p = Some (p', x)"
    unfolding position_flip_def dec_simps Let_def share_quote_exact [OF pos(3)]
    using fees y pos(3) by (simp add: realised_exact abs_of_pos [OF pos(1)] p'_def x_def)
  note p' = this p'_def x_def
  have sign: "side_sign (tr_side t) = - side_sign (ps_side p)"
    using assms(2) by (cases "ps_side p"; cases "tr_side t") auto
  have "position_ok i csize S p'"
    using assms by (auto simp: position_ok_def p'(2) position_from_trade_def)
  moreover have "position_net p' = position_net p + trade_net t"
    using assms(3) by (simp add: position_net_def trade_net_def p'(2) position_from_trade_def sign algebra_simps)
  moreover have "position_worth price p' + px_pnl_realised x = position_worth price p + trade_worth price csize t"
  proof -
    have "fee_in_quote (tr_fees t) = (case ?exit_fee of None \<Rightarrow> 0 | Some f \<Rightarrow> f) +
        fee_in_quote ((tr_fees t)\<lparr>af_fees := z, af_fees_quote := ?next_fee\<rparr>)" for z
      using pos by (cases "af_fees_quote (tr_fees t)") (auto simp: fee_in_quote_def field_simps)
    moreover have "\<bar>?t - ?q\<bar> = ?t - ?q" using assms(3) by simp
    ultimately show ?thesis using assms(1)
      by (simp add: position_worth_def position_net_def trade_worth_def trade_net_def p'(2,3)
          sign position_ok_def into_exited_def position_from_trade_def algebra_simps)
  qed
  ultimately show ?thesis using p'(1) by (auto simp: p'(3) into_exited_def)
qed

lemma worth_ignores_trades [simp]:
  "position_worth price (p\<lparr>ps_trades := ts\<rparr>) = position_worth price p"
  "position_net (p\<lparr>ps_trades := ts\<rparr>) = position_net p"
  "position_ok i csize S (p\<lparr>ps_trades := ts\<rparr>) = position_ok i csize S p"
  by (simp_all add: position_worth_def position_net_def position_ok_def)

lemma update_exact:
  assumes "position_ok i csize {lo..hi} p" and "tr_instrument t = i" and "tr_price t \<in> {lo..hi}"
  shows "\<exists>u c. position_update_from_trade Some t p = Some (u, c) \<and>
    (\<forall>p'. u = Some p' \<longrightarrow> position_ok i csize {lo..hi} p') \<and>
    worth_of position_net u = position_net p + trade_net t \<and>
    worth_of (position_worth price) u + worth_of px_pnl_realised c =
      position_worth price p + trade_worth price csize t \<and>
    (\<forall>x. c = Some x \<longrightarrow> px_time_exit x = tr_time_exchange t)"
proof -
  let ?p = "p\<lparr>ps_trades := ps_trades p @ [tr_id t]\<rparr>"
  have ok: "position_ok i csize {lo..hi} ?p" and inst: "ps_instrument p = tr_instrument t"
    using assms by (simp_all add: position_ok_def)
  consider "ps_side ?p = tr_side t"
    | "ps_side ?p \<noteq> tr_side t" "\<bar>tr_quantity t\<bar> < ps_quantity_abs ?p"
    | "ps_side ?p \<noteq> tr_side t" "ps_quantity_abs ?p = \<bar>tr_quantity t\<bar>"
    | "ps_side ?p \<noteq> tr_side t" "ps_quantity_abs ?p < \<bar>tr_quantity t\<bar>" by linarith
  then show ?thesis
  proof cases
    case 1
    from increase_exact [OF ok assms(3) 1, of price] 1 inst show ?thesis
      by (auto simp: position_update_from_trade_def)
  next
    case 2
    from reduce_exact [OF ok 2, of price] 2 inst show ?thesis
      by (auto simp: position_update_from_trade_def)
  next
    case 3
    from close_exact [OF ok 3, of price] 3 inst show ?thesis
      by (auto simp: position_update_from_trade_def)
  next
    case 4
    from flip_exact [OF ok 4 assms(3,2), of price] 4 inst show ?thesis
      by (auto simp: position_update_from_trade_def)
  qed
qed

section \<open>What a manager is worth\<close>

definition manager_net :: "('a, 'i) position_manager \<Rightarrow> decimal" where
  "manager_net m = (\<Sum>(i, p)\<leftarrow>pm_positions m. position_net p)"

definition manager_worth :: "decimal \<Rightarrow> ('a, 'i) position_manager \<Rightarrow> decimal" where
  "manager_worth price m = (\<Sum>(i, p)\<leftarrow>pm_positions m. position_worth price p)"

definition manager_ok :: "'i \<Rightarrow> decimal \<Rightarrow> decimal set \<Rightarrow> ('a, 'i) position_manager \<Rightarrow> bool" where
  "manager_ok i csize S m \<longleftrightarrow> im_wf (pm_positions m) \<and> (\<forall>(k, p) \<in> set (pm_positions m). position_ok i csize S p)
     \<and> (pm_mode m = Netting \<longrightarrow> fst ` set (pm_positions m) \<subseteq> {position_id_netting})"

text \<open>What an outcome realised, and the fee it left to its caller.\<close>

fun outcome_realised :: "('a, 'i) trade_outcome \<Rightarrow> decimal" where
  "outcome_realised (TradeApplied c) = worth_of px_pnl_realised c"
| "outcome_realised (TradeUnapplied _) = 0"

fun outcome_fees :: "('a, 'i) trade_outcome \<Rightarrow> decimal" where
  "outcome_fees (TradeApplied _) = 0"
| "outcome_fees (TradeUnapplied f) = fee_in_quote f"

lemma im_sum_remove:
  fixes f :: "'v \<Rightarrow> decimal"
  assumes "im_wf m"
  shows "(\<Sum>(k, v)\<leftarrow>m. f v) = worth_of f (map_of m i) + (\<Sum>(k, v)\<leftarrow>im_remove i m. f v)"
  using assms
proof (induction m)
  case Nil
  then show ?case by (simp add: im_remove_def)
next
  case (Cons kv m)
  obtain k v where kv: "kv = (k, v)" by fastforce
  have wf: "im_wf m" and new: "k \<notin> fst ` set m" using Cons.prems kv by (auto simp: im_wf_def)
  show ?case
  proof (cases "k = i")
    case True
    then have "im_remove i m = m" using new by (intro im_remove_id) simp
    then show ?thesis using kv True by (simp add: im_remove_def)
  next
    case False
    then show ?thesis using kv Cons.IH [OF wf] by (simp add: im_remove_def)
  qed
qed

lemma im_sum_insert_new:
  fixes f :: "'v \<Rightarrow> decimal"
  shows "i \<notin> fst ` set m \<Longrightarrow> (\<Sum>(k, v)\<leftarrow>im_insert i v m. f v) = (\<Sum>(k, v)\<leftarrow>m. f v) + f v"
  by (induction m) (auto simp: im_insert_def)

lemma im_remove_keys: "fst ` set (im_remove i m) = fst ` set m - {i}"
  by (auto simp: im_set_remove)

lemma update_with_id_held:
  assumes "map_of (pm_positions m) k = Some p"
    and "position_update_from_trade R t (p\<lparr>ps_contract_size := csize\<rparr>) = Some (u, c)"
  shows "\<exists>m'. update_from_trade_with_id R t k csize m =
      Some (TradeApplied (map_option (\<lambda>x. x\<lparr>px_position_id := k\<rparr>) c), m') \<and>
    pm_positions m' = (case u of None \<Rightarrow> im_remove k (pm_positions m)
      | Some p' \<Rightarrow> im_insert k p' (im_remove k (pm_positions m))) \<and> pm_mode m' = pm_mode m"
  unfolding update_from_trade_with_id_def Let_def using assms
  by (cases u; cases c) (simp_all add: record_position_end_def)

text \<open>A fill moves the manager's worth and net quantity as it moves an account's.\<close>

lemma update_with_id_exact:
  assumes ok: "manager_ok i csize {lo..hi} m" and "tr_instrument t = i" and "tr_price t \<in> {lo..hi}"
    and k: "pm_mode m = Netting \<longrightarrow> k = position_id_netting"
  shows "\<exists>out m'. update_from_trade_with_id Some t k csize m = Some (out, m') \<and>
    manager_ok i csize {lo..hi} m' \<and> pm_mode m' = pm_mode m \<and>
    manager_net m' = manager_net m + trade_net t \<and>
    manager_worth price m' + outcome_realised out =
      manager_worth price m + trade_worth price csize t + outcome_fees out"
proof (cases "map_of (pm_positions m) k")
  case None
  then have new: "k \<notin> fst ` set (pm_positions m)" by (simp add: map_of_eq_None_iff)
  then have rem: "im_remove k (pm_positions m) = pm_positions m" by (rule im_remove_id)
  show ?thesis
  proof (cases "tr_quantity t = 0")
    case True
    with None ok show ?thesis
      by (simp add: update_from_trade_with_id_def trade_net_def trade_worth_def)
  next
    case False
    let ?p = "(position_from_trade t)\<lparr>ps_contract_size := csize\<rparr>"
    let ?m = "m\<lparr>pm_positions := im_insert k ?p (pm_positions m)\<rparr>"
    have "update_from_trade_with_id Some t k csize m = Some (TradeApplied None, ?m)"
      using None False rem by (simp add: update_from_trade_with_id_def)
    moreover have "position_ok i csize {lo..hi} ?p"
      using False assms(2,3) by (simp add: position_ok_def position_from_trade_def)
    then have "manager_ok i csize {lo..hi} ?m"
      using ok k new by (auto simp: manager_ok_def im_set_insert)
    moreover have "manager_net ?m = manager_net m + trade_net t"
      using new by (simp add: manager_net_def im_sum_insert_new position_net_def trade_net_def position_from_trade_def)
    moreover have "manager_worth price ?m = manager_worth price m + trade_worth price csize t"
      using new by (simp add: manager_worth_def im_sum_insert_new position_worth_def position_net_def
          trade_worth_def trade_net_def position_from_trade_def)
    ultimately show ?thesis by simp
  qed
next
  case (Some p)
  have p: "position_ok i csize {lo..hi} p"
    using ok map_of_SomeD [OF Some] by (auto simp: manager_ok_def)
  then have same: "p\<lparr>ps_contract_size := csize\<rparr> = p" by (simp add: position_ok_def)
  obtain u c where u: "position_update_from_trade Some t p = Some (u, c)"
    "\<forall>p'. u = Some p' \<longrightarrow> position_ok i csize {lo..hi} p'"
    "worth_of position_net u = position_net p + trade_net t"
    "worth_of (position_worth price) u + worth_of px_pnl_realised c =
      position_worth price p + trade_worth price csize t"
    using update_exact [OF p assms(2,3), of price] by blast
  let ?rest = "im_remove k (pm_positions m)"
  let ?c = "map_option (\<lambda>x. x\<lparr>px_position_id := k\<rparr>) c"
  obtain m' where m': "update_from_trade_with_id Some t k csize m = Some (TradeApplied ?c, m')"
    "pm_positions m' = (case u of None \<Rightarrow> ?rest | Some p' \<Rightarrow> im_insert k p' ?rest)" "pm_mode m' = pm_mode m"
    using update_with_id_held [OF Some, of Some t csize u c] u(1) same by auto
  have new: "k \<notin> fst ` set ?rest" by (simp add: im_remove_keys)
  have wf: "im_wf (pm_positions m)" using ok by (simp add: manager_ok_def)
  have "manager_ok i csize {lo..hi} m'"
    using ok u(2) k new
    by (cases u) (auto simp: manager_ok_def m'(2,3) im_set_insert im_set_remove)
  moreover have "manager_net m' = manager_net m + trade_net t"
    using im_sum_remove [OF wf, of position_net k] Some u(3) new
    by (cases u) (auto simp: manager_net_def m'(2) im_sum_insert_new)
  moreover have "manager_worth price m' + outcome_realised (TradeApplied ?c) =
      manager_worth price m + trade_worth price csize t"
    using im_sum_remove [OF wf, of "position_worth price" k] Some u(4) new
    by (cases u; cases c) (auto simp: manager_worth_def m'(2) im_sum_insert_new)
  ultimately show ?thesis using m'(1,3) by simp
qed

fun trades_run ::
  "rounding \<Rightarrow> decimal \<Rightarrow> ('a, 'i) trade list \<Rightarrow> ('a, 'i) position_manager
     \<Rightarrow> (('a, 'i) trade_outcome list \<times> ('a, 'i) position_manager) option" where
  "trades_run R csize [] m = Some ([], m)"
| "trades_run R csize (t # ts) m = do {
     (out, m1) \<leftarrow> update_from_trade R t csize m;
     (outs, m2) \<leftarrow> trades_run R csize ts m1;
     Some (out # outs, m2)
   }"

lemma trades_run_exact:
  assumes "manager_ok i csize {lo..hi} m"
    and "\<forall>t \<in> set ts. tr_instrument t = i \<and> tr_price t \<in> {lo..hi}"
  shows "\<exists>outs m'. trades_run Some csize ts m = Some (outs, m') \<and>
    manager_ok i csize {lo..hi} m' \<and> pm_mode m' = pm_mode m \<and>
    manager_net m' = manager_net m + sum_list (map trade_net ts) \<and>
    manager_worth price m' + sum_list (map outcome_realised outs) =
      manager_worth price m + sum_list (map (trade_worth price csize) ts) + sum_list (map outcome_fees outs)"
  using assms
proof (induction ts arbitrary: m)
  case Nil
  then show ?case by simp
next
  case (Cons t ts)
  obtain out m1 where step: "update_from_trade Some t csize m = Some (out, m1)"
    "manager_ok i csize {lo..hi} m1" "pm_mode m1 = pm_mode m" "manager_net m1 = manager_net m + trade_net t"
    "manager_worth price m1 + outcome_realised out =
      manager_worth price m + trade_worth price csize t + outcome_fees out"
    using update_with_id_exact [OF Cons.prems(1), of t "trade_position_id (pm_mode m) t" price] Cons.prems(2)
    by (auto simp: update_from_trade_def trade_position_id_def)
  obtain outs m' where rest: "trades_run Some csize ts m1 = Some (outs, m')"
    "manager_ok i csize {lo..hi} m'" "pm_mode m' = pm_mode m1"
    "manager_net m' = manager_net m1 + sum_list (map trade_net ts)"
    "manager_worth price m' + sum_list (map outcome_realised outs) =
      manager_worth price m1 + sum_list (map (trade_worth price csize) ts) + sum_list (map outcome_fees outs)"
    using Cons.IH [OF step(2)] Cons.prems(2) by auto
  from step rest show ?case by simp
qed

lemma manager_new_ok: "manager_ok i csize S (position_manager_new mode)"
  by (simp add: manager_ok_def position_manager_new_def)

lemma manager_new_worth: "manager_worth price (position_manager_new mode) = 0" "manager_net (position_manager_new mode) = 0"
  by (simp_all add: manager_worth_def manager_net_def position_manager_new_def)

lemma checked_pnl_exact: "checked_pnl_unrealised Some p price \<noteq> None"
  by (simp add: checked_pnl_unrealised_def calculate_pnl_unrealised_def approximate_remaining_exit_fees_def dec_simps)

lemma commit_split_exact:
  "\<exists>overflowed pnl. commit_split Some sp last_price p =
    Some (\<lparr>sr_remainder = sp_remainder sp, sr_pnl_unrealised_overflowed = overflowed\<rparr>,
      p\<lparr>ps_price_entry_average := sp_price_entry_average sp, ps_quantity_abs := sp_quantity_abs sp,
        ps_quantity_abs_max := sp_quantity_abs_max sp, ps_pnl_unrealised := pnl\<rparr>)"
proof (cases last_price)
  case None
  then show ?thesis by (auto simp: commit_split_def)
next
  case (Some price)
  let ?p = "p\<lparr>ps_price_entry_average := sp_price_entry_average sp, ps_quantity_abs := sp_quantity_abs sp,
    ps_quantity_abs_max := sp_quantity_abs_max sp\<rparr>"
  obtain r where "checked_pnl_unrealised Some ?p price = Some r"
    using checked_pnl_exact by fastforce
  then show ?thesis using Some by (cases r) (auto simp: commit_split_def Let_def)
qed

lemma manager_new_mode: "pm_mode (position_manager_new mode) = mode"
  by (simp add: position_manager_new_def)

lemma price_range:
  fixes f :: "'t \<Rightarrow> decimal"
  shows "\<exists>lo hi. \<forall>t \<in> set ts. f t \<in> {lo..hi}"
proof (induction ts)
  case Nil
  then show ?case by simp
next
  case (Cons t ts)
  then obtain lo hi where "\<forall>t \<in> set ts. f t \<in> {lo..hi}" by blast
  then have "\<forall>u \<in> set (t # ts). f u \<in> {min lo (f t)..max hi (f t)}"
    by (auto simp: min_def max_def)
  then show ?case by blast
qed

text \<open>A netting manager's positions are its signed net quantity.\<close>

lemma netting_positions:
  assumes "manager_ok i csize S m" and "pm_mode m = Netting"
  shows "if manager_net m = 0 then pm_positions m = []
    else \<exists>p. pm_positions m = [(position_id_netting, p)] \<and> position_ok i csize S p \<and>
      ps_side p = (if 0 < manager_net m then Buy else Sell) \<and> ps_quantity_abs p = \<bar>manager_net m\<bar>"
proof (cases "pm_positions m")
  case Nil
  then show ?thesis by (simp add: manager_net_def)
next
  case (Cons kp rest)
  obtain k p where kp: "kp = (k, p)" by fastforce
  have "fst ` set (pm_positions m) \<subseteq> {position_id_netting}" and "im_wf (pm_positions m)"
    using assms by (simp_all add: manager_ok_def)
  then have "k = position_id_netting \<and> rest = []"
    unfolding Cons kp im_wf_def by (cases rest) auto
  moreover have ok: "position_ok i csize S p" using assms(1) Cons kp by (simp add: manager_ok_def)
  moreover have "0 < ps_quantity_abs p" using ok by (simp add: position_ok_def)
  ultimately show ?thesis
    by (cases "ps_side p") (simp_all add: Cons kp manager_net_def position_net_def)
qed

section \<open>Concrete fills\<close>

definition ex_fill :: "side \<Rightarrow> decimal \<Rightarrow> decimal \<Rightarrow> (unit, unit) trade" where
  "ex_fill sd price qty = \<lparr>tr_id = ''t'', tr_order_id = ''o'', tr_instrument = (), tr_strategy = ''s'',
     tr_time_exchange = 1, tr_side = sd, tr_price = price, tr_quantity = qty, tr_order_filled_quantity = None,
     tr_fees = \<lparr>af_asset = (), af_fees = 1, af_fees_quote = Some 1\<rparr>, tr_origin = OriginOrder,
     tr_position_side = None, tr_client_order_id = None, tr_time_source = SourceVenue\<rparr>"

definition ex_position :: "(unit, unit) position" where
  "ex_position = (position_from_trade (ex_fill Buy 100 7))\<lparr>ps_contract_size := 10,
     ps_carry := 3, ps_carry_assets := \<lparr>ac_base = 2, ac_other = []\<rparr>\<rparr>"

lemmas ex_position_defs = ex_fill_def ex_position_def position_from_trade_def asset_carry_default_def

section \<open>Properties\<close>

text \<open>C8: No profit or loss appears from nowhere. Whatever fills of an instrument a fresh manager is
  given, in either mode, in any order, it processes all of them, and what its positions are worth at
  any price plus what they realised on exit is exactly what the fills are worth at that price: the
  quantities at the price, less what was paid for them, less their fees. The fee of a fill that
  moved nothing is the only one left out, and is handed back. Stated for exact arithmetic.\<close>

theorem positions_accounting:
  assumes "\<forall>t \<in> set ts. tr_instrument t = i"
  shows "\<exists>outs m. trades_run Some csize ts (position_manager_new mode) = Some (outs, m) \<and>
    manager_worth price m + sum_list (map outcome_realised outs) =
      sum_list (map (trade_worth price csize) ts) + sum_list (map outcome_fees outs)"
proof -
  obtain lo hi where "\<forall>t \<in> set ts. tr_price t \<in> {lo..hi}" using price_range [of ts tr_price] by blast
  with assms have "\<forall>t \<in> set ts. tr_instrument t = i \<and> tr_price t \<in> {lo..hi}" by simp
  from trades_run_exact [OF manager_new_ok this, of csize mode price] show ?thesis
    unfolding manager_new_worth by auto
qed

theorem positions_accounting_witness:
  "\<exists>outs m. trades_run Some 10 [ex_fill Buy 100 7, ex_fill Sell 103 9] (position_manager_new Netting) = Some (outs, m) \<and>
    manager_worth 101 m + sum_list (map outcome_realised outs) =
      sum_list (map (trade_worth 101 10) [ex_fill Buy 100 7, ex_fill Sell 103 9]) + sum_list (map outcome_fees outs)"
  by (rule positions_accounting) simp

text \<open>C9: A netting manager is a signed ledger. After any fills of an instrument it holds no position
  when the signed quantities cancel, and otherwise one, on the side of the net quantity and of its
  size, however often the fills opened, closed and flipped it. The average entry price lies
  between the lowest and the highest price paid. Stated for exact arithmetic.\<close>

theorem positions_netting_ledger:
  assumes "\<forall>t \<in> set ts. tr_instrument t = i \<and> lo \<le> tr_price t \<and> tr_price t \<le> hi"
    and "net = sum_list (map trade_net ts)"
  shows "\<exists>outs m. trades_run Some csize ts (position_manager_new Netting) = Some (outs, m) \<and>
    (if net = 0 then pm_positions m = []
     else \<exists>p. pm_positions m = [(position_id_netting, p)] \<and>
       ps_side p = (if 0 < net then Buy else Sell) \<and> ps_quantity_abs p = \<bar>net\<bar> \<and>
       lo \<le> ps_price_entry_average p \<and> ps_price_entry_average p \<le> hi)"
proof -
  have "\<forall>t \<in> set ts. tr_instrument t = i \<and> tr_price t \<in> {lo..hi}" using assms(1) by simp
  from trades_run_exact [OF manager_new_ok this, of csize Netting 0] obtain outs m where
    m: "trades_run Some csize ts (position_manager_new Netting) = Some (outs, m)"
      "manager_ok i csize {lo..hi} m" "pm_mode m = Netting" "manager_net m = net"
    by (auto simp: manager_new_worth assms(2) manager_new_mode)
  with netting_positions [OF m(2,3)] show ?thesis
    by (auto simp: position_ok_def split: if_splits)
qed

theorem positions_netting_ledger_witness:
  "\<exists>outs m p. trades_run Some 10 [ex_fill Buy 100 7, ex_fill Sell 103 9] (position_manager_new Netting) = Some (outs, m) \<and>
    pm_positions m = [(position_id_netting, p)] \<and> ps_side p = Sell \<and> ps_quantity_abs p = 2"
  using positions_netting_ledger [of "[ex_fill Buy 100 7, ex_fill Sell 103 9]" "()" 100 103 "- 2" 10]
  by (auto simp: ex_fill_def trade_net_def)

text \<open>A seeded position is accounted for like a traded one: after a seed, the worth of the manager
  and what it realised follow the fills from the worth of the seed, its entry fees paid.\<close>

theorem positions_accounting_from_seed:
  assumes "seed_into sd i quote csize (position_manager_new mode) = (Inr (), m0)"
    and "\<forall>t \<in> set ts. tr_instrument t = i"
  shows "\<exists>outs m. trades_run Some csize ts m0 = Some (outs, m) \<and>
    manager_worth price m + sum_list (map outcome_realised outs) =
      side_sign (sd_side sd) * sd_quantity_abs sd * (price - sd_price_entry_average sd) * csize - sd_fees_enter sd
      + sum_list (map (trade_worth price csize) ts) + sum_list (map outcome_fees outs)"
proof -
  obtain lo hi where price: "\<forall>t \<in> set ts. tr_price t \<in> {lo..hi}" using price_range [of ts tr_price] by blast
  let ?lo = "min lo (sd_price_entry_average sd)" and ?hi = "max hi (sd_price_entry_average sd)"
  obtain k where k: "seed_slot mode sd = Inr k" and pos: "0 < sd_quantity_abs sd"
    and m0: "m0 = record_position_end (sd_time_enter sd) ((position_manager_new mode)
      \<lparr>pm_positions := im_insert k (seed_position sd i quote csize) []\<rparr>)"
    using assms(1) by (auto simp: seed_into_def position_manager_new_def split: if_splits sum.splits)
  have "manager_ok i csize {?lo..?hi} m0"
    using pos k unfolding m0
    by (auto simp: manager_ok_def position_manager_new_def record_position_end_def im_insert_def im_wf_def
        position_ok_def seed_position_def seed_slot_def split: option.splits if_splits)
  moreover have "\<forall>t \<in> set ts. tr_instrument t = i \<and> tr_price t \<in> {?lo..?hi}"
    using assms(2) price by (auto simp: min_def max_def)
  ultimately obtain outs m where m: "trades_run Some csize ts m0 = Some (outs, m)"
    "manager_worth price m + sum_list (map outcome_realised outs) =
      manager_worth price m0 + sum_list (map (trade_worth price csize) ts) + sum_list (map outcome_fees outs)"
    using trades_run_exact [of i csize ?lo ?hi m0 ts price] by blast
  moreover have "manager_worth price m0 =
      side_sign (sd_side sd) * sd_quantity_abs sd * (price - sd_price_entry_average sd) * csize - sd_fees_enter sd"
    by (simp add: m0 manager_worth_def record_position_end_def position_manager_new_def im_insert_def
        position_worth_def position_net_def seed_position_def)
  ultimately show ?thesis by auto
qed

definition ex_seed :: position_seed where
  "ex_seed = \<lparr>sd_instrument = ''x'', sd_side = Buy, sd_quantity_abs = 2, sd_price_entry_average = 50,
     sd_time_enter = 0, sd_position_id = None, sd_fees_enter = 1, sd_carry = 0, sd_carry_base = 0\<rparr>"

theorem positions_accounting_from_seed_witness:
  "\<exists>m0 outs m. seed_into ex_seed () () 1 (position_manager_new Netting) = (Inr (), m0) \<and>
    trades_run Some 1 [ex_fill Sell 60 2] m0 = Some (outs, m) \<and>
    manager_worth 60 m + sum_list (map outcome_realised outs) =
      side_sign (sd_side ex_seed) * sd_quantity_abs ex_seed * (60 - sd_price_entry_average ex_seed) * 1 - sd_fees_enter ex_seed
      + sum_list (map (trade_worth 60 1) [ex_fill Sell 60 2]) + sum_list (map outcome_fees outs)"
proof -
  obtain m0 where m0: "seed_into ex_seed () () 1 (position_manager_new Netting) = (Inr (), m0)"
    by (simp add: seed_into_def ex_seed_def seed_slot_def position_manager_new_def)
  have "\<forall>t \<in> set [ex_fill Sell 60 2]. tr_instrument t = ()" by simp
  from positions_accounting_from_seed [OF m0 this, of 60] m0 show ?thesis by blast
qed

text \<open>Marking a position at a price never panics, whatever the price and with rounding: the share
  of the entry fees that is still to be paid is at most the fees themselves, and every other step is
  checked. When a checked step overflows the position keeps its last value.\<close>

theorem position_mark_never_panics:
  assumes "rounding_laws R" and "R 1 = Some 1"
    and "R (fee_in_quote (ps_fees_enter p)) = Some (fee_in_quote (ps_fees_enter p))"
    and "0 \<le> ps_quantity_abs p" and "ps_quantity_abs p \<le> ps_quantity_abs_max p"
  shows "update_pnl_unrealised R price p = Some (PnlOverflowed, p) \<or>
    (\<exists>pnl. update_pnl_unrealised R price p = Some (PnlUpdated, p\<lparr>ps_pnl_unrealised := pnl\<rparr>))"
proof -
  let ?q = "ps_quantity_abs p" and ?m = "ps_quantity_abs_max p" and ?f = "fee_in_quote (ps_fees_enter p)"
  have "approximate_remaining_exit_fees R ?q ?m ?f \<noteq> None"
  proof (cases "?m = 0")
    case True
    then show ?thesis by (simp add: approximate_remaining_exit_fees_def)
  next
    case False
    with assms(4,5) have r: "0 \<le> ?q / ?m" "?q / ?m \<le> 1" by simp_all
    then obtain x where x: "R (?q / ?m) = Some x" using rounding_no_hole [OF assms(1) r assms(2)] by auto
    have x01: "0 \<le> x" "x \<le> 1"
      using rounding_nonneg [OF assms(1) r(1) x] rounding_laws_mono [OF assms(1) r(2) x assms(2)] by auto
    have "R (x * ?f) \<noteq> None"
    proof (cases "0 \<le> ?f")
      case True
      have "x * ?f \<le> 1 * ?f" using x01 True by (intro mult_right_mono) auto
      then show ?thesis using x01 True by (intro rounding_no_hole [OF assms(1) _ _ assms(3)]) auto
    next
      case False
      have "x * (- ?f) \<le> 1 * (- ?f)" using x01 False by (intro mult_right_mono) auto
      then have "R (x * (- ?f)) \<noteq> None"
        using x01 False by (intro rounding_no_hole [OF assms(1) _ _ rounding_laws_neg [OF assms(1,3)]])
          (auto simp: mult_nonneg_nonpos)
      then obtain y where "R (- (x * ?f)) = Some y" by auto
      from rounding_laws_neg [OF assms(1) this] show ?thesis by simp
    qed
    then show ?thesis using x False by (simp add: approximate_remaining_exit_fees_def dec_simps)
  qed
  then show ?thesis
    by (auto simp: update_pnl_unrealised_def checked_pnl_unrealised_def calculate_pnl_unrealised_def
        split: option.splits)
qed

theorem position_mark_never_panics_witness:
  "update_pnl_unrealised Some 120 ex_position \<noteq> None"
  using position_mark_never_panics [OF rounding_laws_Some, of ex_position 120]
  by (auto simp: ex_position_defs)

text \<open>A split keeps the cost of a position. The quantity times the ratio is the new quantity and
  the remainder returned, whole and below one in the new quantity's stead when the policy rounds
  down; the new quantity and the remainder at the new average price cost what the old quantity cost;
  nothing but the quantities, the average price and the unrealised profit changes. Stated for exact
  arithmetic.\<close>

theorem position_split_keeps_cost:
  assumes "split_ratio_new r = Some ratio"
  shows "\<exists>res q avg qmax pnl. apply_split Some ratio policy last_price p = Some (Inr res,
      p\<lparr>ps_price_entry_average := avg, ps_quantity_abs := q, ps_quantity_abs_max := qmax, ps_pnl_unrealised := pnl\<rparr>) \<and>
    q + sr_remainder res = ps_quantity_abs p * ratio \<and>
    (q + sr_remainder res) * avg = ps_quantity_abs p * ps_price_entry_average p \<and>
    qmax * avg = ps_quantity_abs_max p * ps_price_entry_average p \<and>
    (case policy of Fractional \<Rightarrow> sr_remainder res = 0
     | Floor \<Rightarrow> q \<in> \<int> \<and> 0 \<le> sr_remainder res \<and> sr_remainder res < 1)"
proof -
  have pos: "0 < ratio" using assms by (auto simp: split_ratio_new_def split: if_splits)
  let ?scaled = "ps_quantity_abs p * ratio" and ?avg = "ps_price_entry_average p / ratio"
  let ?q = "case policy of Floor \<Rightarrow> of_int \<lfloor>?scaled\<rfloor> | Fractional \<Rightarrow> ?scaled"
  have prep: "prepare_split Some ratio policy p = Some (Inr \<lparr>sp_quantity_abs = ?q,
      sp_price_entry_average = ?avg, sp_quantity_abs_max = ps_quantity_abs_max p * ratio,
      sp_remainder = ?scaled - ?q\<rparr>)"
    using pos by (simp add: prepare_split_def dec_simps Let_def)
  let ?sp = "\<lparr>sp_quantity_abs = ?q, sp_price_entry_average = ?avg,
      sp_quantity_abs_max = ps_quantity_abs_max p * ratio, sp_remainder = ?scaled - ?q\<rparr>"
  obtain o1 pnl where commit: "commit_split Some ?sp last_price p =
      Some (\<lparr>sr_remainder = ?scaled - ?q, sr_pnl_unrealised_overflowed = o1\<rparr>,
        p\<lparr>ps_price_entry_average := ?avg, ps_quantity_abs := ?q,
          ps_quantity_abs_max := ps_quantity_abs_max p * ratio, ps_pnl_unrealised := pnl\<rparr>)"
    using commit_split_exact [of ?sp last_price p] by auto
  from prep commit have "apply_split Some ratio policy last_price p =
      Some (Inr \<lparr>sr_remainder = ?scaled - ?q, sr_pnl_unrealised_overflowed = o1\<rparr>,
        p\<lparr>ps_price_entry_average := ?avg, ps_quantity_abs := ?q,
          ps_quantity_abs_max := ps_quantity_abs_max p * ratio, ps_pnl_unrealised := pnl\<rparr>)"
    by (simp add: apply_split_def)
  moreover have "of_int \<lfloor>?scaled\<rfloor> \<le> ?scaled" "?scaled < of_int \<lfloor>?scaled\<rfloor> + 1"
    by linarith+
  ultimately show ?thesis using pos
    by (intro exI [of _ "\<lparr>sr_remainder = ?scaled - ?q, sr_pnl_unrealised_overflowed = o1\<rparr>"] exI [of _ ?q]
        exI [of _ ?avg] exI [of _ "ps_quantity_abs_max p * ratio"] exI [of _ pnl])
      (cases policy; simp add: linorder_not_less)
qed

theorem position_split_keeps_cost_witness:
  "\<exists>res q avg qmax pnl. apply_split Some (3 / 2) Floor (Some 70) ex_position = Some (Inr res,
      ex_position\<lparr>ps_price_entry_average := avg, ps_quantity_abs := q, ps_quantity_abs_max := qmax, ps_pnl_unrealised := pnl\<rparr>) \<and>
    q + sr_remainder res = 7 * (3 / 2)"
  using position_split_keeps_cost [of "3 / 2" "3 / 2" Floor "Some 70" ex_position]
  by (fastforce simp: split_ratio_new_def ex_position_defs)

text \<open>A split is all or nothing, with rounding: when it fails, it fails exactly when checking it
  first says so, and leaves the position as it was.\<close>

theorem position_split_atomic:
  "apply_split R ratio policy last_price p = Some (Inl e, p') \<longleftrightarrow>
    validate_split R ratio policy p = Some (Inl e) \<and> p' = p"
  by (auto simp: apply_split_def validate_split_def map_sum_def split: Option.bind_splits sum.splits)

text \<open>Carry is booked in one slot: the slot's amount grows by the payment, every other slot, the
  quantity and the traded profit stay as they were, and the time of the last update never goes
  back; a sum out of range changes nothing and says so.\<close>

theorem carry_books_one_slot:
  "case R (carry_held slot p + amount) of
     None \<Rightarrow> apply_carry R slot amount t p = (CarryOverflowed, p)
   | Some v \<Rightarrow> \<exists>p'. apply_carry R slot amount t p = (CarryApplied, p') \<and> carry_held slot p' = v \<and>
       (\<forall>other. other = slot \<or> carry_held other p' = carry_held other p) \<and>
       ps_time_exchange_update p' = max (ps_time_exchange_update p) t \<and>
       position_worth price p' = position_worth price p \<and> position_net p' = position_net p"
proof (cases "R (carry_held slot p + amount)")
  case None
  then show ?thesis by (simp add: apply_carry_def dec_simps)
next
  case (Some v)
  then show ?thesis
    by (cases slot) (auto simp: apply_carry_def dec_simps carry_held_def position_worth_def
        position_net_def update_conv' split: carry_slot.splits)
qed

text \<open>An exited position nets what it would have netted open at its exit price: its traded profit,
  its carry and its base-asset carry at that price. Without an exit price the figure exists exactly
  when there is no base-asset carry to value. Stated for exact arithmetic.\<close>

theorem exited_net_matches:
  "case price_exit of
     Some price \<Rightarrow> \<exists>v. pnl_realised_net Some price p = Some v \<and>
       exited_pnl_realised_net Some (into_exited price_exit p) = Inr v
   | None \<Rightarrow> exited_pnl_realised_net Some (into_exited price_exit p) =
       (if ac_base (ps_carry_assets p) = 0 then Inr (ps_pnl_realised p + ps_carry p) else Inl BaseCarryUnpriced)"
  by (auto simp: pnl_realised_net_def exited_pnl_realised_net_def carry_valued_def into_exited_def
      base_value_at_def dec_simps split: option.splits)

end
