(* ===== verification/Open_Orders.thy ===== *)
theory Open_Orders
  imports Order_Model "HOL-Library.Char_ord" "HOL-Library.List_Lexorder" "HOL-Library.Product_Lexorder"
begin

text \<open>
  The open orders of a simulated venue, \<open>rustrade-execution/src/exchange/mock/orders.rs\<close>: one map
  of the orders by client order id, a price-time queue per instrument and side, the deadlines, and
  the orders held back from the queues. A \<open>BTreeMap\<close> is an association list sorted by key, a
  \<open>BTreeSet\<close> a sorted list, a hash map a map; the insertion sequence is a 64-bit word. The listing
  of a book for a snapshot (\<open>entries\<close>, \<open>from_entries\<close>) is left out.
\<close>

section \<open>Data\<close>

type_synonym instrument_name = string
type_synonym asset_name = string

record 'f reservation =
  rv_asset :: asset_name
  rv_amount :: decimal
  rv_borrowed :: decimal
  rv_excess_borrowed :: decimal
  rv_effect :: margin_effect
  rv_unreported_interest :: "'f list"

definition reservation_loan :: "rounding \<Rightarrow> 'f reservation \<Rightarrow> decimal option" where
  "reservation_loan R r = dec_add R (rv_borrowed r) (rv_excess_borrowed r)"

type_synonym 'e open_order = "('e, instrument_name, open_state) order"

record ('e, 'f) resting_order =
  rs_order :: "'e open_order"
  rs_reservation :: "'f reservation option"

text \<open>The place of an order in a queue. Its derived order is the priority rule.\<close>

datatype queue_position =
  QueuePosition (qp_price_rank: decimal) (qp_time_exchange: time) (qp_seq: u64)

instantiation queue_position :: linorder
begin

definition less_eq_queue_position :: "queue_position \<Rightarrow> queue_position \<Rightarrow> bool" where
  "less_eq_queue_position a b \<longleftrightarrow>
     qp_price_rank a < qp_price_rank b \<or> qp_price_rank a = qp_price_rank b \<and>
       (qp_time_exchange a < qp_time_exchange b \<or>
        qp_time_exchange a = qp_time_exchange b \<and> qp_seq a \<le> qp_seq b)"

definition less_queue_position :: "queue_position \<Rightarrow> queue_position \<Rightarrow> bool" where
  "less_queue_position a b \<longleftrightarrow>
     qp_price_rank a < qp_price_rank b \<or> qp_price_rank a = qp_price_rank b \<and>
       (qp_time_exchange a < qp_time_exchange b \<or>
        qp_time_exchange a = qp_time_exchange b \<and> qp_seq a < qp_seq b)"

instance
  by standard (auto simp: less_eq_queue_position_def less_queue_position_def queue_position.expand)

end

fun queue_position_new :: "side \<Rightarrow> decimal \<Rightarrow> time \<Rightarrow> u64 \<Rightarrow> queue_position" where
  "queue_position_new Buy price t s = QueuePosition (- price) t s"
| "queue_position_new Sell price t s = QueuePosition price t s"

lemma queue_position_new_inject [simp]:
  "queue_position_new sd p t s = queue_position_new sd p' t' s' \<longleftrightarrow> p = p' \<and> t = t' \<and> s = s'"
  by (cases sd) auto

lemma qp_seq_new [simp]: "qp_seq (queue_position_new sd p t s) = s"
  by (cases sd) auto

record ('e, 'f) open_orders =
  oo_by_id :: "client_order_id \<rightharpoonup> ('e, 'f) resting_order"
  oo_queues :: "instrument_name \<times> side \<rightharpoonup> (queue_position \<times> client_order_id) list"
  oo_expiries :: "(time \<times> client_order_id) list"
  oo_held :: "instrument_name \<rightharpoonup> client_order_id list"
  oo_unqueued :: "client_order_id set"
  oo_seq :: u64

definition open_orders_default :: "('e, 'f) open_orders" where
  "open_orders_default = \<lparr>oo_by_id = Map.empty, oo_queues = Map.empty, oo_expiries = [],
     oo_held = Map.empty, oo_unqueued = {}, oo_seq = 0\<rparr>"

definition deadline_of :: "'e open_order \<Rightarrow> time option" where
  "deadline_of ord = (case o_time_in_force ord of GoodTillDate t \<Rightarrow> Some t | _ \<Rightarrow> None)"

abbreviation cid_of :: "'e open_order \<Rightarrow> client_order_id" where
  "cid_of ord \<equiv> key_cid (o_key ord)"

abbreviation instrument_of :: "'e open_order \<Rightarrow> instrument_name" where
  "instrument_of ord \<equiv> key_instrument (o_key ord)"

section \<open>Sorted maps and sets\<close>

fun bt_insert :: "'k::linorder \<Rightarrow> 'v \<Rightarrow> ('k \<times> 'v) list \<Rightarrow> ('k \<times> 'v) list" where
  "bt_insert k v [] = [(k, v)]"
| "bt_insert k v ((k', v') # xs) =
     (if k < k' then (k, v) # (k', v') # xs
      else if k = k' then (k, v) # xs
      else (k', v') # bt_insert k v xs)"

fun bs_insert :: "'k::linorder \<Rightarrow> 'k list \<Rightarrow> 'k list" where
  "bs_insert k [] = [k]"
| "bs_insert k (x # xs) = (if k < x then k # x # xs else if k = x then x # xs else x # bs_insert k xs)"

definition bs_remove :: "'k \<Rightarrow> 'k list \<Rightarrow> 'k list" where
  "bs_remove k xs = filter (\<lambda>x. x \<noteq> k) xs"

lemma bs_insert_set [simp]: "set (bs_insert k xs) = insert k (set xs)"
  by (induction xs) auto

lemma bs_insert_sorted: "sorted_wrt (<) xs \<Longrightarrow> sorted_wrt (<) (bs_insert k xs)"
  by (induction xs) (auto intro: less_trans)

lemma bs_remove_set [simp]: "set (bs_remove k xs) = set xs - {k}"
  by (auto simp: bs_remove_def)

lemma bs_remove_sorted: "sorted_wrt (<) xs \<Longrightarrow> sorted_wrt (<) (bs_remove k xs)"
  by (simp add: bs_remove_def sorted_wrt_filter)

lemma bs_insert_remove: "k \<notin> set xs \<Longrightarrow> bs_remove k (bs_insert k xs) = xs"
  by (induction xs) (auto simp: bs_remove_def filter_id_conv)

lemma bt_insert_split:
  "sorted_wrt (<) (map fst xs) \<Longrightarrow> k \<notin> fst ` set xs \<Longrightarrow>
    bt_insert k v xs = filter (\<lambda>p. fst p < k) xs @ (k, v) # filter (\<lambda>p. k < fst p) xs"
proof (induction xs)
  case Nil
  then show ?case by simp
next
  case (Cons p xs)
  obtain k' v' where p: "p = (k', v')" by fastforce
  show ?case
  proof (cases "k < k'")
    case True
    then have "\<forall>q \<in> set xs. k < fst q" using Cons.prems(1) p by (auto intro: less_trans)
    then have "filter (\<lambda>q. fst q < k) xs = []" "filter (\<lambda>q. k < fst q) xs = xs"
      by (auto simp: filter_empty_conv filter_id_conv)
    with True p show ?thesis by auto
  next
    case False
    with Cons p show ?thesis by auto
  qed
qed

lemma bt_insert_set: "k \<notin> fst ` set xs \<Longrightarrow> set (bt_insert k v xs) = insert (k, v) (set xs)"
  by (induction xs) (auto split: if_splits)

lemma bt_insert_distinct:
  "k \<notin> fst ` set xs \<Longrightarrow> v \<notin> snd ` set xs \<Longrightarrow> distinct (map snd xs) \<Longrightarrow> distinct (map snd (bt_insert k v xs))"
  by (induction xs) (auto simp: bt_insert_set)

lemma bt_insert_keys: "p \<in> set (bt_insert k v xs) \<Longrightarrow> fst p = k \<or> fst p \<in> fst ` set xs"
  by (induction xs) (auto split: if_splits)

lemma bt_insert_sorted: "sorted_wrt (<) (map fst xs) \<Longrightarrow> sorted_wrt (<) (map fst (bt_insert k v xs))"
proof (induction xs)
  case Nil
  then show ?case by simp
next
  case (Cons p xs)
  have "fst p < fst q" if "q \<in> set (bt_insert k v xs)" "fst p < k" for q
    using bt_insert_keys [OF that(1)] that(2) Cons.prems by auto
  with Cons show ?case by (cases p) (auto intro: less_trans)
qed

section \<open>Operations\<close>

definition already_resting ::
  "'e open_order \<Rightarrow> 'f reservation option \<Rightarrow> ('e, 'f) resting_order" where
  "already_resting ord res = \<lparr>rs_order = ord, rs_reservation = res\<rparr>"

definition queue_of :: "('e, 'f) open_orders \<Rightarrow> instrument_name \<Rightarrow> side \<Rightarrow> (queue_position \<times> client_order_id) list" where
  "queue_of b i sd = (case oo_queues b (i, sd) of None \<Rightarrow> [] | Some q \<Rightarrow> q)"

definition oo_index ::
  "'e open_order \<Rightarrow> 'f reservation option \<Rightarrow> bool \<Rightarrow> ('e, 'f) open_orders
     \<Rightarrow> (('e, 'f) resting_order + unit) \<times> ('e, 'f) open_orders" where
  "oo_index ord res queue b =
     (let c = cid_of ord in
      case oo_by_id b c of
        Some _ \<Rightarrow> (Inl (already_resting ord res), b)
      | None \<Rightarrow>
          let b1 = (case deadline_of ord of
                None \<Rightarrow> b | Some t \<Rightarrow> b\<lparr>oo_expiries := bs_insert (t, c) (oo_expiries b)\<rparr>);
              b2 = (case (if queue then o_price ord else None) of
                None \<Rightarrow> b1
              | Some price \<Rightarrow>
                  let s = oo_seq b1 + 1 in
                  b1\<lparr>oo_seq := s, oo_queues := (oo_queues b1)((instrument_of ord, o_side ord) \<mapsto>
                    bt_insert (queue_position_new (o_side ord) price (open_time_exchange (o_state ord)) s) c
                      (queue_of b1 (instrument_of ord) (o_side ord)))\<rparr>)
          in (Inr (), b2\<lparr>oo_by_id := (oo_by_id b2)(c \<mapsto> \<lparr>rs_order = ord, rs_reservation = res\<rparr>)\<rparr>))"

definition oo_insert ::
  "'e open_order \<Rightarrow> 'f reservation option \<Rightarrow> ('e, 'f) open_orders
     \<Rightarrow> (('e, 'f) resting_order + unit) \<times> ('e, 'f) open_orders" where
  "oo_insert ord res b = oo_index ord res True b"

definition oo_hold ::
  "'e open_order \<Rightarrow> 'f reservation option \<Rightarrow> ('e, 'f) open_orders
     \<Rightarrow> (('e, 'f) resting_order + unit) \<times> ('e, 'f) open_orders" where
  "oo_hold ord res b =
     (case oo_index ord res False b of
        (Inl e, b1) \<Rightarrow> (Inl e, b1)
      | (Inr _, b1) \<Rightarrow>
          let b2 = (if o_price ord = None then b1
                else b1\<lparr>oo_unqueued := insert (cid_of ord) (oo_unqueued b1)\<rparr>);
              h = (case oo_held b2 (instrument_of ord) of None \<Rightarrow> [] | Some l \<Rightarrow> l)
          in (Inr (), b2\<lparr>oo_held := (oo_held b2)(instrument_of ord \<mapsto> h @ [cid_of ord])\<rparr>))"

definition oo_holds :: "instrument_name \<Rightarrow> ('e, 'f) open_orders \<Rightarrow> bool" where
  "oo_holds i b \<longleftrightarrow> oo_held b i \<noteq> None"

definition oo_held_on :: "instrument_name \<Rightarrow> ('e, 'f) open_orders \<Rightarrow> client_order_id list" where
  "oo_held_on i b = (case oo_held b i of None \<Rightarrow> [] | Some l \<Rightarrow> l)"

definition oo_take_held ::
  "instrument_name \<Rightarrow> ('e, 'f) open_orders \<Rightarrow> client_order_id list \<times> ('e, 'f) open_orders" where
  "oo_take_held i b =
     ((case oo_held b i of None \<Rightarrow> [] | Some l \<Rightarrow> l), b\<lparr>oo_held := (oo_held b)(i := None)\<rparr>)"

definition oo_unhold :: "'e open_order \<Rightarrow> ('e, 'f) open_orders \<Rightarrow> ('e, 'f) open_orders" where
  "oo_unhold ord b =
     (case oo_held b (instrument_of ord) of
        None \<Rightarrow> b
      | Some l \<Rightarrow>
          let l' = filter (\<lambda>c. c \<noteq> cid_of ord) l in
          b\<lparr>oo_held := (oo_held b)(instrument_of ord := (if l' = [] then None else Some l'))\<rparr>)"

definition oo_dequeue :: "'e open_order \<Rightarrow> ('e, 'f) open_orders \<Rightarrow> ('e, 'f) open_orders" where
  "oo_dequeue ord b =
     (case o_price ord of
        None \<Rightarrow> b
      | Some price \<Rightarrow>
          (case oo_queues b (instrument_of ord, o_side ord) of
             None \<Rightarrow> b
           | Some q \<Rightarrow>
               let start = queue_position_new (o_side ord) price (open_time_exchange (o_state ord)) 0;
                   q' = (case find (\<lambda>(_, c). c = cid_of ord) (filter (\<lambda>(pos, _). start \<le> pos) q) of
                     None \<Rightarrow> q
                   | Some (pos, _) \<Rightarrow> filter (\<lambda>(pos', _). pos' \<noteq> pos) q)
               in b\<lparr>oo_queues := (oo_queues b)((instrument_of ord, o_side ord) :=
                    (if q' = [] then None else Some q'))\<rparr>))"

definition oo_unindex :: "'e open_order \<Rightarrow> ('e, 'f) open_orders \<Rightarrow> ('e, 'f) open_orders" where
  "oo_unindex ord b =
     (let b1 = b\<lparr>oo_unqueued := oo_unqueued b - {cid_of ord}\<rparr>;
          b2 = (if cid_of ord \<in> oo_unqueued b \<or> o_price ord = None then oo_unhold ord b1
                else oo_dequeue ord b1)
      in case deadline_of ord of
           None \<Rightarrow> b2
         | Some t \<Rightarrow> b2\<lparr>oo_expiries := bs_remove (t, cid_of ord) (oo_expiries b2)\<rparr>)"

definition oo_remove ::
  "client_order_id \<Rightarrow> ('e, 'f) open_orders \<Rightarrow> ('e, 'f) resting_order option \<times> ('e, 'f) open_orders" where
  "oo_remove c b =
     (case oo_by_id b c of
        None \<Rightarrow> (None, b)
      | Some r \<Rightarrow> (Some r, oo_unindex (rs_order r) (b\<lparr>oo_by_id := (oo_by_id b)(c := None)\<rparr>)))"

definition oo_contains :: "client_order_id \<Rightarrow> ('e, 'f) open_orders \<Rightarrow> bool" where
  "oo_contains c b \<longleftrightarrow> oo_by_id b c \<noteq> None"

definition oo_expired_as_of :: "time \<Rightarrow> ('e, 'f) open_orders \<Rightarrow> client_order_id list" where
  "oo_expired_as_of now b = map snd (takeWhile (\<lambda>(t, _). t \<le> now) (oo_expiries b))"

definition oo_next_expiry :: "('e, 'f) open_orders \<Rightarrow> time option" where
  "oo_next_expiry b = (case oo_expiries b of [] \<Rightarrow> None | (t, _) # _ \<Rightarrow> Some t)"

definition oo_resting :: "instrument_name \<Rightarrow> side \<Rightarrow> ('e, 'f) open_orders \<Rightarrow> 'e open_order list" where
  "oo_resting i sd b = map rs_order (List.map_filter (oo_by_id b) (map snd (queue_of b i sd)))"

section \<open>The invariant of a book\<close>

text \<open>
  Each order is filed under its id; a queue is in the order of its positions, holds each id once and
  only orders of its instrument and side that carry a price and are not held back, and holds all of
  those; the deadlines are those of the orders; the ids kept off the queues are of priced orders; a
  held list holds orders of its instrument that are off the queues.
\<close>

definition ids_ok :: "('e, 'f) open_orders \<Rightarrow> bool" where
  "ids_ok b \<longleftrightarrow> (\<forall>c r. oo_by_id b c = Some r \<longrightarrow> cid_of (rs_order r) = c)"

definition queueable :: "('e, 'f) open_orders \<Rightarrow> instrument_name \<Rightarrow> side \<Rightarrow> client_order_id \<Rightarrow> bool" where
  "queueable b i sd c \<longleftrightarrow> (\<exists>r. oo_by_id b c = Some r \<and> instrument_of (rs_order r) = i \<and>
     o_side (rs_order r) = sd \<and> o_price (rs_order r) \<noteq> None \<and> c \<notin> oo_unqueued b)"

definition position_for :: "'e open_order \<Rightarrow> queue_position \<Rightarrow> bool" where
  "position_for ord pos \<longleftrightarrow> (\<exists>p. o_price ord = Some p \<and>
     pos = queue_position_new (o_side ord) p (open_time_exchange (o_state ord)) (qp_seq pos))"

definition queues_ok :: "('e, 'f) open_orders \<Rightarrow> bool" where
  "queues_ok b \<longleftrightarrow> (\<forall>i sd. oo_queues b (i, sd) \<noteq> Some [] \<and>
     sorted_wrt (<) (map fst (queue_of b i sd)) \<and> distinct (map snd (queue_of b i sd)) \<and>
     snd ` set (queue_of b i sd) = {c. queueable b i sd c} \<and>
     (\<forall>pos c r. (pos, c) \<in> set (queue_of b i sd) \<longrightarrow> oo_by_id b c = Some r \<longrightarrow>
        position_for (rs_order r) pos \<and> qp_seq pos \<le> oo_seq b))"

definition expiries_ok :: "('e, 'f) open_orders \<Rightarrow> bool" where
  "expiries_ok b \<longleftrightarrow> sorted_wrt (<) (oo_expiries b) \<and>
     set (oo_expiries b) = {(t, c). \<exists>r. oo_by_id b c = Some r \<and> deadline_of (rs_order r) = Some t}"

definition off_queues :: "('e, 'f) open_orders \<Rightarrow> instrument_name \<Rightarrow> client_order_id \<Rightarrow> bool" where
  "off_queues b i c \<longleftrightarrow> (\<exists>r. oo_by_id b c = Some r \<and> instrument_of (rs_order r) = i \<and>
     (c \<in> oo_unqueued b \<or> o_price (rs_order r) = None))"

definition held_ok :: "('e, 'f) open_orders \<Rightarrow> bool" where
  "held_ok b \<longleftrightarrow>
     (\<forall>c \<in> oo_unqueued b. \<exists>r. oo_by_id b c = Some r \<and> o_price (rs_order r) \<noteq> None) \<and>
     (\<forall>i. oo_held b i \<noteq> Some [] \<and> distinct (oo_held_on i b) \<and>
       (\<forall>c \<in> set (oo_held_on i b). off_queues b i c))"

definition open_orders_inv :: "('e, 'f) open_orders \<Rightarrow> bool" where
  "open_orders_inv b \<longleftrightarrow> ids_ok b \<and> queues_ok b \<and> expiries_ok b \<and> held_ok b"

lemma open_orders_inv_default: "open_orders_inv open_orders_default"
  by (simp add: open_orders_inv_def ids_ok_def queues_ok_def expiries_ok_def held_ok_def
      open_orders_default_def queue_of_def queueable_def oo_held_on_def)

lemma queue_facts:
  assumes "queues_ok b"
  shows "oo_queues b (i, sd) \<noteq> Some []" and "sorted_wrt (<) (map fst (queue_of b i sd))"
    and "distinct (map snd (queue_of b i sd))" and "snd ` set (queue_of b i sd) = {c. queueable b i sd c}"
  using assms unfolding queues_ok_def by blast+

lemma queue_position_ok:
  "queues_ok b \<Longrightarrow> (pos, c) \<in> set (queue_of b i sd) \<Longrightarrow> oo_by_id b c = Some r \<Longrightarrow>
    position_for (rs_order r) pos \<and> qp_seq pos \<le> oo_seq b"
  unfolding queues_ok_def by blast

lemma queue_mem_queueable: "queues_ok b \<Longrightarrow> (pos, c) \<in> set (queue_of b i sd) \<Longrightarrow> queueable b i sd c"
  using queue_facts(4) by (metis (mono_tags) image_eqI mem_Collect_eq snd_conv)

text \<open>What each operation does to the parts of a book.\<close>

lemma insert_new:
  assumes "oo_by_id b (cid_of ord) = None" and "oo_insert ord res b = (out, b')"
  shows "out = Inr ()"
    and "oo_by_id b' = (oo_by_id b)(cid_of ord \<mapsto> \<lparr>rs_order = ord, rs_reservation = res\<rparr>)"
    and "oo_expiries b' = (case deadline_of ord of None \<Rightarrow> oo_expiries b
      | Some t \<Rightarrow> bs_insert (t, cid_of ord) (oo_expiries b))"
    and "queue_of b' i sd = (case o_price ord of
        Some p \<Rightarrow> if i = instrument_of ord \<and> sd = o_side ord
          then bt_insert (queue_position_new sd p (open_time_exchange (o_state ord)) (oo_seq b + 1))
            (cid_of ord) (queue_of b i sd)
          else queue_of b i sd
      | None \<Rightarrow> queue_of b i sd)"
    and "oo_held b' = oo_held b" and "oo_unqueued b' = oo_unqueued b"
    and "oo_seq b' = (if o_price ord = None then oo_seq b else oo_seq b + 1)"
    and "oo_queues b (i, sd) \<noteq> Some [] \<Longrightarrow> oo_queues b' (i, sd) \<noteq> Some []"
proof -
  have "bt_insert k v xs \<noteq> []" for k :: queue_position and v :: client_order_id and xs
    by (cases xs) (auto split: prod.splits if_splits)
  then show "oo_queues b (i, sd) \<noteq> Some [] \<Longrightarrow> oo_queues b' (i, sd) \<noteq> Some []"
    using assms by (auto simp: oo_insert_def oo_index_def Let_def split: option.splits if_splits)
qed (use assms in \<open>auto simp: oo_insert_def oo_index_def Let_def queue_of_def split: option.splits\<close>)

lemma hold_new:
  assumes "oo_by_id b (cid_of ord) = None" and "oo_hold ord res b = (out, b')"
  shows "out = Inr ()"
    and "oo_by_id b' = (oo_by_id b)(cid_of ord \<mapsto> \<lparr>rs_order = ord, rs_reservation = res\<rparr>)"
    and "oo_expiries b' = (case deadline_of ord of None \<Rightarrow> oo_expiries b
      | Some t \<Rightarrow> bs_insert (t, cid_of ord) (oo_expiries b))"
    and "oo_queues b' = oo_queues b"
    and "oo_held b' = (oo_held b)(instrument_of ord \<mapsto> oo_held_on (instrument_of ord) b @ [cid_of ord])"
    and "oo_unqueued b' = (if o_price ord = None then oo_unqueued b else insert (cid_of ord) (oo_unqueued b))"
    and "oo_seq b' = oo_seq b"
  using assms
  by (auto simp: oo_hold_def oo_index_def oo_held_on_def Let_def split: option.splits if_splits)

lemma insert_known:
  assumes "oo_by_id b (cid_of ord) \<noteq> None"
  shows "oo_insert ord res b = (Inl (already_resting ord res), b)"
    and "oo_hold ord res b = (Inl (already_resting ord res), b)"
  using assms by (auto simp: oo_insert_def oo_hold_def oo_index_def Let_def)

lemma seq_next:
  assumes "unat s + 1 < 2 ^ 64"
  shows "unat (s + 1 :: u64) = unat s + 1" and "x \<le> s \<Longrightarrow> x < s + 1"
proof -
  show *: "unat (s + 1) = unat s + 1" using assms by (simp add: unat_word_ariths)
  show "x \<le> s \<Longrightarrow> x < s + 1" by (simp only: word_le_nat_alt word_less_nat_alt *)
qed

lemma insert_expiries:
  assumes "expiries_ok b" and "oo_by_id b (cid_of ord) = None"
    and "oo_by_id b' = (oo_by_id b)(cid_of ord \<mapsto> \<lparr>rs_order = ord, rs_reservation = res\<rparr>)"
    and "oo_expiries b' = (case deadline_of ord of None \<Rightarrow> oo_expiries b
      | Some t \<Rightarrow> bs_insert (t, cid_of ord) (oo_expiries b))"
  shows "expiries_ok b'"
  using assms by (auto simp: expiries_ok_def bs_insert_sorted split: option.splits if_splits)

lemma insert_queues:
  assumes inv: "queues_ok b" "held_ok b" and new: "oo_by_id b (cid_of ord) = None"
    and step: "oo_insert ord res b = (out, b')" and seq: "unat (oo_seq b) + 1 < 2 ^ 64"
  shows "queues_ok b'"
proof -
  note b' = insert_new [OF new step]
  have fresh: "cid_of ord \<notin> oo_unqueued b" using inv(2) new by (auto simp: held_ok_def)
  have able: "queueable b' i sd c \<longleftrightarrow> queueable b i sd c \<or>
      c = cid_of ord \<and> i = instrument_of ord \<and> sd = o_side ord \<and> o_price ord \<noteq> None" for i sd c
    using new fresh by (auto simp: queueable_def b'(2,6))
  have le: "oo_seq b \<le> oo_seq b'"
    using seq_next [OF seq] by (simp add: b'(7) word_le_nat_alt)
  show ?thesis
    unfolding queues_ok_def
  proof (intro allI)
    fix i sd
    note q = queue_facts [OF inv(1), of i sd]
    let ?q = "queue_of b i sd"
    have notin: "cid_of ord \<notin> snd ` set ?q" using q(4) new by (auto simp: queueable_def)
    have nonempty: "oo_queues b' (i, sd) \<noteq> Some []" using q(1) by (rule b'(8))
    have old: "position_for (rs_order r) pos \<and> qp_seq pos \<le> oo_seq b'"
      if "(pos, c) \<in> set ?q" "oo_by_id b' c = Some r" for pos c r
    proof -
      have "c \<noteq> cid_of ord" using notin that(1) by force
      with that(2) have "oo_by_id b c = Some r" by (simp add: b'(2))
      with queue_position_ok [OF inv(1) that(1)] le show ?thesis by auto
    qed
    have sorted: "sorted_wrt (<) (map fst (queue_of b' i sd))"
      using q(2) by (auto simp: b'(4) bt_insert_sorted split: option.splits)
    have "distinct (map snd (queue_of b' i sd)) \<and> snd ` set (queue_of b' i sd) = {c. queueable b' i sd c} \<and>
      (\<forall>pos c r. (pos, c) \<in> set (queue_of b' i sd) \<longrightarrow> oo_by_id b' c = Some r \<longrightarrow>
        position_for (rs_order r) pos \<and> qp_seq pos \<le> oo_seq b')"
    proof (cases "\<exists>p. o_price ord = Some p \<and> i = instrument_of ord \<and> sd = o_side ord")
      case False
      then have "queue_of b' i sd = ?q" by (auto simp: b'(4) split: option.splits)
      with q(3,4) old False show ?thesis by (auto simp: able)
    next
      case True
      then obtain p where p: "o_price ord = Some p" "i = instrument_of ord" "sd = o_side ord" by blast
      let ?pos = "queue_position_new sd p (open_time_exchange (o_state ord)) (oo_seq b + 1)"
      have "pos \<noteq> ?pos" if mem: "(pos, c) \<in> set ?q" for pos c
      proof -
        obtain r where "oo_by_id b c = Some r"
          using queue_mem_queueable [OF inv(1) mem] by (auto simp: queueable_def)
        with queue_position_ok [OF inv(1) mem] seq_next(2) [OF seq, of "qp_seq pos"] show ?thesis by auto
      qed
      then have keys: "?pos \<notin> fst ` set ?q" by force
      have queue: "queue_of b' i sd = bt_insert ?pos (cid_of ord) ?q" using p by (simp add: b'(4))
      then have set: "set (queue_of b' i sd) = insert (?pos, cid_of ord) (set ?q)"
        using keys by (simp add: bt_insert_set)
      have able_set: "{c. queueable b' i sd c} = insert (cid_of ord) {c. queueable b i sd c}"
        using p by (auto simp: able)
      have "distinct (map snd (queue_of b' i sd))"
        using q(3) notin keys unfolding queue by (intro bt_insert_distinct)
      moreover have "snd ` set (queue_of b' i sd) = {c. queueable b' i sd c}"
        using q(4) by (simp add: set able_set)
      moreover have "position_for ord ?pos \<and> qp_seq ?pos \<le> oo_seq b'"
        using p by (simp add: position_for_def b'(7))
      ultimately show ?thesis using old by (auto simp: set b'(2) split: if_splits)
    qed
    with nonempty sorted
    show "oo_queues b' (i, sd) \<noteq> Some [] \<and> sorted_wrt (<) (map fst (queue_of b' i sd)) \<and>
      distinct (map snd (queue_of b' i sd)) \<and> snd ` set (queue_of b' i sd) = {c. queueable b' i sd c} \<and>
      (\<forall>pos c r. (pos, c) \<in> set (queue_of b' i sd) \<longrightarrow> oo_by_id b' c = Some r \<longrightarrow>
        position_for (rs_order r) pos \<and> qp_seq pos \<le> oo_seq b')" by blast
  qed
qed

lemma insert_inv:
  assumes "open_orders_inv b" and "oo_insert ord res b = (out, b')" and "unat (oo_seq b) + 1 < 2 ^ 64"
  shows "open_orders_inv b'"
proof (cases "oo_by_id b (cid_of ord)")
  case None
  note b' = insert_new [OF None assms(2)]
  have inv: "ids_ok b" "queues_ok b" "expiries_ok b" "held_ok b"
    using assms(1) by (simp_all add: open_orders_inv_def)
  have "ids_ok b'" using inv(1) by (simp add: ids_ok_def b'(2))
  moreover have "queues_ok b'" using inv(2,4) None assms(2,3) by (rule insert_queues)
  moreover have "expiries_ok b'" using inv(3) None b'(2,3) by (rule insert_expiries)
  moreover have "off_queues b' i c" if "off_queues b i c" for i c
    using that None by (auto simp: off_queues_def b'(2,6))
  then have "held_ok b'"
    using inv(4) None by (auto simp: held_ok_def b'(2,5,6) oo_held_on_def)
  ultimately show ?thesis by (simp add: open_orders_inv_def)
next
  case (Some r)
  with assms(1,2) insert_known [of b ord res] show ?thesis by simp
qed

lemma hold_inv:
  assumes "open_orders_inv b" and "oo_hold ord res b = (out, b')"
  shows "open_orders_inv b'"
proof (cases "oo_by_id b (cid_of ord)")
  case None
  note b' = hold_new [OF None assms(2)]
  have inv: "ids_ok b" "queues_ok b" "expiries_ok b" "held_ok b"
    using assms(1) by (simp_all add: open_orders_inv_def)
  have "ids_ok b'" using inv(1) by (simp add: ids_ok_def b'(2))
  moreover have "expiries_ok b'" using inv(3) None b'(2,3) by (rule insert_expiries)
  moreover have "queues_ok b'"
  proof -
    have q: "queue_of b' i sd = queue_of b i sd" for i sd by (simp add: queue_of_def b'(4))
    have able: "queueable b' i sd c \<longleftrightarrow> queueable b i sd c" for i sd c
      using None by (auto simp: queueable_def b'(2,6))
    have "position_for (rs_order r) pos \<and> qp_seq pos \<le> oo_seq b"
      if mem: "(pos, c) \<in> set (queue_of b i sd)" and r: "oo_by_id b' c = Some r" for pos c r i sd
    proof -
      have "c \<noteq> cid_of ord"
        using queue_mem_queueable [OF inv(2) mem] None by (auto simp: queueable_def)
      with r have "oo_by_id b c = Some r" by (simp add: b'(2))
      with inv(2) mem show ?thesis by (rule queue_position_ok)
    qed
    then show ?thesis
      unfolding queues_ok_def q able b'(4) b'(7) using queue_facts [OF inv(2)] by blast
  qed
  moreover have "held_ok b'"
  proof -
    have off: "off_queues b' i c" if "off_queues b i c" for i c
      using that None by (auto simp: off_queues_def b'(2,6))
    have own: "off_queues b' (instrument_of ord) (cid_of ord)"
      by (auto simp: off_queues_def b'(2,6))
    have fresh: "cid_of ord \<notin> set (oo_held_on i b)" for i
      using inv(4) None unfolding held_ok_def off_queues_def by (metis option.distinct(1))
    have held: "oo_held_on i b' = (if i = instrument_of ord then oo_held_on i b @ [cid_of ord] else oo_held_on i b)" for i
      by (simp add: oo_held_on_def b'(5))
    show ?thesis
      unfolding held_ok_def
    proof (intro conjI allI ballI)
      fix c assume "c \<in> oo_unqueued b'"
      then show "\<exists>r. oo_by_id b' c = Some r \<and> o_price (rs_order r) \<noteq> None"
        using inv(4) None by (auto simp: held_ok_def b'(2,6) split: if_splits)
    next
      fix i
      show "oo_held b' i \<noteq> Some []" using inv(4) by (auto simp: held_ok_def b'(5))
      show "distinct (oo_held_on i b')" using inv(4) fresh by (auto simp: held_ok_def held)
      fix c assume "c \<in> set (oo_held_on i b')"
      then show "off_queues b' i c" using inv(4) off own by (auto simp: held_ok_def held split: if_splits)
    qed
  qed
  ultimately show ?thesis by (simp add: open_orders_inv_def)
next
  case (Some r)
  with assms insert_known(2) [of b ord res] show ?thesis by simp
qed

lemma take_held_inv: "open_orders_inv b \<Longrightarrow> open_orders_inv (snd (oo_take_held i b))"
  by (simp add: open_orders_inv_def ids_ok_def queues_ok_def expiries_ok_def held_ok_def oo_take_held_def
      queue_of_def queueable_def off_queues_def oo_held_on_def)

lemma find_mem: "find P xs = Some y \<Longrightarrow> y \<in> set xs \<and> P y"
  by (induction xs) (auto split: if_splits)

text \<open>Taking an order out takes it out of every index.\<close>

lemma queue_without: "c \<notin> snd ` set q \<Longrightarrow> filter (\<lambda>(_, c'). c' \<noteq> c) q = q"
  by (force simp: filter_id_conv)

lemma queue_position_start: "queue_position_new sd p t 0 \<le> queue_position_new sd p t s"
  by (cases sd) (simp_all add: less_eq_queue_position_def)

lemma dequeue_queue:
  assumes ok: "queues_ok b" and able: "queueable b i sd c" and r: "oo_by_id b c = Some r"
    and c: "cid_of (rs_order r) = c" and same: "oo_queues b' = oo_queues b"
  shows "oo_dequeue (rs_order r) b' = b'\<lparr>oo_queues := (oo_queues b)((i, sd) :=
    (if filter (\<lambda>(_, c'). c' \<noteq> c) (queue_of b i sd) = [] then None
     else Some (filter (\<lambda>(_, c'). c' \<noteq> c) (queue_of b i sd))))\<rparr>"
proof -
  let ?q = "queue_of b i sd" and ?ord = "rs_order r"
  have place: "instrument_of ?ord = i" "o_side ?ord = sd"
    using able r by (auto simp: queueable_def)
  have "c \<in> snd ` set ?q" using able queue_facts(4) [OF ok] by simp
  then obtain pos where pos: "(pos, c) \<in> set ?q" by auto
  obtain p where p: "o_price ?ord = Some p"
      "pos = queue_position_new sd p (open_time_exchange (o_state ?ord)) (qp_seq pos)"
    using queue_position_ok [OF ok pos r] place(2) by (auto simp: position_for_def)
  let ?start = "queue_position_new sd p (open_time_exchange (o_state ?ord)) 0"
  let ?from = "filter (\<lambda>(pos, _). ?start \<le> pos) ?q"
  have "?start \<le> pos" by (subst p(2)) (rule queue_position_start)
  with pos have mem: "(pos, c) \<in> set ?from" by simp
  have uniq: "x = pos \<longleftrightarrow> y = c" if "(x, y) \<in> set ?q" for x y
  proof -
    have "inj_on fst (set ?q)" "inj_on snd (set ?q)"
      using queue_facts(2,3) [OF ok, of i sd] strict_sorted_iff distinct_map by blast+
    from inj_onD [OF this(1) _ that pos] inj_onD [OF this(2) _ that pos] show ?thesis by auto
  qed
  have "find (\<lambda>(_, c'). c' = c) ?from = Some (pos, c)"
  proof (cases "find (\<lambda>(_, c'). c' = c) ?from")
    case None
    with mem show ?thesis by (auto simp: find_None_iff)
  next
    case (Some y)
    then have "y \<in> set ?from" "snd y = c" using find_mem by fastforce+
    with uniq [of "fst y" "snd y"] show ?thesis using Some by (cases y) auto
  qed
  moreover have "oo_queues b (i, sd) = Some ?q"
    using pos by (cases "oo_queues b (i, sd)") (auto simp: queue_of_def)
  moreover have "filter (\<lambda>(pos', _). pos' \<noteq> pos) ?q = filter (\<lambda>(_, c'). c' \<noteq> c) ?q"
    using uniq by (intro filter_cong) auto
  ultimately show ?thesis
    using p(1) place c same by (simp add: oo_dequeue_def Let_def)
qed

lemma remove_effect:
  assumes inv: "open_orders_inv b" and r: "oo_by_id b c = Some r" and step: "oo_remove c b = (out, b')"
  shows "out = Some r" and "oo_by_id b' = (oo_by_id b)(c := None)"
    and "oo_unqueued b' = oo_unqueued b - {c}" and "oo_seq b' = oo_seq b"
    and "oo_expiries b' = filter (\<lambda>(_, c'). c' \<noteq> c) (oo_expiries b)"
    and "queue_of b' i sd = filter (\<lambda>(_, c'). c' \<noteq> c) (queue_of b i sd)"
    and "oo_queues b' (i, sd) \<noteq> Some []"
    and "oo_held_on i b' = filter (\<lambda>c'. c' \<noteq> c) (oo_held_on i b)"
    and "oo_held b' i \<noteq> Some []"
proof -
  let ?ord = "rs_order r"
  let ?b0 = "b\<lparr>oo_by_id := (oo_by_id b)(c := None), oo_unqueued := oo_unqueued b - {c}\<rparr>"
  let ?off = "c \<in> oo_unqueued b \<or> o_price ?ord = None"
  have parts: "ids_ok b" "queues_ok b" "expiries_ok b" "held_ok b"
    using inv by (simp_all add: open_orders_inv_def)
  have cid: "cid_of ?ord = c" using parts(1) r by (simp add: ids_ok_def)
  define b1 where "b1 = (if ?off then oo_unhold ?ord ?b0 else oo_dequeue ?ord ?b0)"
  have b': "out = Some r" "b' = (case deadline_of ?ord of None \<Rightarrow> b1
      | Some t \<Rightarrow> b1\<lparr>oo_expiries := bs_remove (t, c) (oo_expiries b1)\<rparr>)"
  proof -
    have "(out, b') = (Some r, oo_unindex ?ord (b\<lparr>oo_by_id := (oo_by_id b)(c := None)\<rparr>))"
      unfolding step [symmetric] using r by (simp add: oo_remove_def)
    moreover have "oo_unindex ?ord (b\<lparr>oo_by_id := (oo_by_id b)(c := None)\<rparr>) =
      (case deadline_of ?ord of None \<Rightarrow> b1
      | Some t \<Rightarrow> b1\<lparr>oo_expiries := bs_remove (t, c) (oo_expiries b1)\<rparr>)"
      unfolding oo_unindex_def Let_def b1_def cid by (simp split: option.split)
    ultimately show "out = Some r" and "b' = (case deadline_of ?ord of None \<Rightarrow> b1
      | Some t \<Rightarrow> b1\<lparr>oo_expiries := bs_remove (t, c) (oo_expiries b1)\<rparr>)"
      by simp_all
  qed
  have unhold: "oo_by_id (oo_unhold o' x) = oo_by_id x" "oo_unqueued (oo_unhold o' x) = oo_unqueued x"
    "oo_seq (oo_unhold o' x) = oo_seq x" "oo_expiries (oo_unhold o' x) = oo_expiries x"
    "oo_queues (oo_unhold o' x) = oo_queues x" for o' :: "'a open_order" and x :: "('a, 'b) open_orders"
    by (simp_all add: oo_unhold_def Let_def split: option.splits)
  have dequeue: "oo_by_id (oo_dequeue o' x) = oo_by_id x" "oo_unqueued (oo_dequeue o' x) = oo_unqueued x"
    "oo_seq (oo_dequeue o' x) = oo_seq x" "oo_expiries (oo_dequeue o' x) = oo_expiries x"
    "oo_held (oo_dequeue o' x) = oo_held x" for o' :: "'a open_order" and x :: "('a, 'b) open_orders"
    by (simp_all add: oo_dequeue_def Let_def split: option.splits)
  have b1: "oo_by_id b1 = (oo_by_id b)(c := None)" "oo_unqueued b1 = oo_unqueued b - {c}"
    "oo_seq b1 = oo_seq b" "oo_expiries b1 = oo_expiries b"
    by (simp_all add: b1_def unhold dequeue)
  have same: "oo_by_id b' = oo_by_id b1" "oo_unqueued b' = oo_unqueued b1" "oo_seq b' = oo_seq b1"
    "oo_queues b' = oo_queues b1" "oo_held b' = oo_held b1"
    by (simp_all add: b'(2) split: option.splits)
  show "out = Some r" by (rule b'(1))
  show "oo_by_id b' = (oo_by_id b)(c := None)" "oo_unqueued b' = oo_unqueued b - {c}" "oo_seq b' = oo_seq b"
    by (simp_all add: same b1)
  have exp: "(t, c) \<in> set (oo_expiries b) \<longleftrightarrow> deadline_of ?ord = Some t" for t
    using parts(3) r by (auto simp: expiries_ok_def)
  show "oo_expiries b' = filter (\<lambda>(_, c'). c' \<noteq> c) (oo_expiries b)"
  proof (cases "deadline_of ?ord")
    case None
    then have "\<forall>p \<in> set (oo_expiries b). snd p \<noteq> c" using exp by fastforce
    then have "filter (\<lambda>(_, c'). c' \<noteq> c) (oo_expiries b) = oo_expiries b"
      by (auto simp: filter_id_conv)
    then show ?thesis using None by (simp add: b'(2) b1)
  next
    case (Some t)
    have "(p \<noteq> (t, c)) = (case p of (_, c') \<Rightarrow> c' \<noteq> c)" if "p \<in> set (oo_expiries b)" for p
      using that exp [of "fst p"] Some by (cases p) auto
    then show ?thesis using Some by (simp add: b'(2) b1 bs_remove_def cong: filter_cong)
  qed
  have queue: "queue_of b1 i sd = filter (\<lambda>(_, c'). c' \<noteq> c) (queue_of b i sd) \<and> oo_queues b1 (i, sd) \<noteq> Some []" for i sd
  proof (cases "queueable b i sd c")
    case True
    then have off: "\<not> ?off" using r by (auto simp: queueable_def)
    show ?thesis
      using dequeue_queue [OF parts(2) True r cid, of ?b0] off queue_facts(1) [OF parts(2)]
      by (auto simp: b1_def queue_of_def split: if_splits)
  next
    case False
    then have "c \<notin> snd ` set (queue_of b i sd)" using queue_facts(4) [OF parts(2)] by simp
    moreover have "oo_queues b1 (i, sd) = oo_queues b (i, sd)"
    proof (cases ?off)
      case True
      then show ?thesis by (simp add: b1_def unhold)
    next
      case off: False
      then have able: "queueable b (instrument_of ?ord) (o_side ?ord) c" using r by (auto simp: queueable_def)
      with False have "(i, sd) \<noteq> (instrument_of ?ord, o_side ?ord)" by auto
      then show ?thesis
        using dequeue_queue [OF parts(2) able r cid, of ?b0] off by (auto simp: b1_def)
    qed
    ultimately show ?thesis
      using queue_facts(1) [OF parts(2)] by (simp add: queue_without queue_of_def)
  qed
  show "queue_of b' i sd = filter (\<lambda>(_, c'). c' \<noteq> c) (queue_of b i sd)" "oo_queues b' (i, sd) \<noteq> Some []"
    using queue by (simp_all add: queue_of_def same)
  have held: "oo_held_on i b1 = filter (\<lambda>c'. c' \<noteq> c) (oo_held_on i b) \<and> oo_held b1 i \<noteq> Some []"
  proof (cases "?off \<and> i = instrument_of ?ord")
    case True
    then show ?thesis using parts(4) cid
      by (auto simp: b1_def oo_unhold_def oo_held_on_def held_ok_def Let_def split: option.splits)
  next
    case False
    have "c \<notin> set (oo_held_on i b)"
    proof
      assume "c \<in> set (oo_held_on i b)"
      with parts(4) have "off_queues b i c" by (simp add: held_ok_def)
      with r False show False by (auto simp: off_queues_def)
    qed
    moreover have "oo_held b1 i = oo_held b i"
      using False by (auto simp: b1_def dequeue oo_unhold_def Let_def split: option.splits)
    moreover have "filter (\<lambda>c'. c' \<noteq> c) (oo_held_on i b) = oo_held_on i b"
      using \<open>c \<notin> set (oo_held_on i b)\<close> by (auto simp: filter_id_conv)
    ultimately show ?thesis
      using parts(4) by (simp add: oo_held_on_def held_ok_def)
  qed
  then show "oo_held_on i b' = filter (\<lambda>c'. c' \<noteq> c) (oo_held_on i b)" "oo_held b' i \<noteq> Some []"
    by (simp_all add: oo_held_on_def same)
qed

lemma remove_inv:
  assumes "open_orders_inv b" and "oo_remove c b = (out, b')"
  shows "open_orders_inv b'"
proof (cases "oo_by_id b c")
  case None
  with assms show ?thesis by (simp add: oo_remove_def)
next
  case (Some r)
  note b' = remove_effect [OF assms(1) Some assms(2)]
  have parts: "ids_ok b" "queues_ok b" "expiries_ok b" "held_ok b"
    using assms(1) by (simp_all add: open_orders_inv_def)
  have "ids_ok b'" using parts(1) by (auto simp: ids_ok_def b'(2))
  moreover have "expiries_ok b'"
    using parts(3) by (auto simp: expiries_ok_def b'(2,5) sorted_wrt_filter)
  moreover have "queues_ok b'"
    unfolding queues_ok_def
  proof (intro allI conjI impI)
    fix i sd
    note q = queue_facts [OF parts(2), of i sd]
    show "oo_queues b' (i, sd) \<noteq> Some []" by (rule b'(7))
    show "sorted_wrt (<) (map fst (queue_of b' i sd))"
      using q(2) by (simp add: b'(6) sorted_wrt_map sorted_wrt_filter)
    show "distinct (map snd (queue_of b' i sd))" using q(3) by (simp add: b'(6) distinct_map_filter)
    show "snd ` set (queue_of b' i sd) = {c. queueable b' i sd c}"
    proof -
      have "{d. queueable b' i sd d} = {d. queueable b i sd d} - {c}"
        by (auto simp: b'(2,3) queueable_def)
      moreover have "snd ` set (queue_of b' i sd) = snd ` set (queue_of b i sd) - {c}"
        by (auto simp: b'(6) image_iff)
      ultimately show ?thesis by (simp add: q(4))
    qed
    fix pos d s assume "(pos, d) \<in> set (queue_of b' i sd)" and "oo_by_id b' d = Some s"
    then show "position_for (rs_order s) pos" and "qp_seq pos \<le> oo_seq b'"
      using queue_position_ok [OF parts(2)] by (auto simp: b'(2,4,6) split: if_splits)
  qed
  moreover have "held_ok b'"
  proof -
    have "off_queues b' i d" if "off_queues b i d" "d \<noteq> c" for i d
      using that by (auto simp: off_queues_def b'(2,3))
    with parts(4) show ?thesis by (simp add: held_ok_def b'(2,3,8,9))
  qed
  ultimately show ?thesis by (simp add: open_orders_inv_def)
qed

end
