(* ===== verification/Price_Time.thy ===== *)
theory Price_Time
  imports Open_Orders
begin

text \<open>
  What the book of open orders of the simulated venue promises: its queues are the price-time
  priority of the orders in their order of arrival, its deadlines and held lists likewise.
\<close>

section \<open>The specification: the orders in their order of arrival\<close>

text \<open>
  A book is a history of steps. Its specification is the list of the open orders in the order they
  came, each queued, held ret, or held back and then taken; every view of the book is a filter and
  a stable sort of that list.
\<close>

datatype ('e, 'f) book_event =
    Insert_Order "'e open_order" "'f reservation option"
  | Hold_Order "'e open_order" "'f reservation option"
  | Remove_Order client_order_id
  | Take_Held instrument_name

fun book_step :: "('e, 'f) book_event \<Rightarrow> ('e, 'f) open_orders \<Rightarrow> ('e, 'f) open_orders" where
  "book_step (Insert_Order ord res) b = snd (oo_insert ord res b)"
| "book_step (Hold_Order ord res) b = snd (oo_hold ord res b)"
| "book_step (Remove_Order c) b = snd (oo_remove c b)"
| "book_step (Take_Held i) b = snd (oo_take_held i b)"

definition book_of :: "('e, 'f) book_event list \<Rightarrow> ('e, 'f) open_orders" where
  "book_of steps = fold book_step steps open_orders_default"

datatype standing = Queued | Held | Taken

record ('e, 'f) arrival =
  ar_rest :: "('e, 'f) resting_order"
  ar_standing :: standing

abbreviation ar_order :: "('e, 'f) arrival \<Rightarrow> 'e open_order" where
  "ar_order a \<equiv> rs_order (ar_rest a)"

abbreviation ar_cid :: "('e, 'f) arrival \<Rightarrow> client_order_id" where
  "ar_cid a \<equiv> cid_of (ar_order a)"

definition arrive :: "standing \<Rightarrow> 'e open_order \<Rightarrow> 'f reservation option \<Rightarrow> ('e, 'f) arrival list \<Rightarrow> ('e, 'f) arrival list" where
  "arrive st ord res as = (if cid_of ord \<in> ar_cid ` set as then as
     else as @ [\<lparr>ar_rest = \<lparr>rs_order = ord, rs_reservation = res\<rparr>, ar_standing = st\<rparr>])"

definition held_in :: "instrument_name \<Rightarrow> ('e, 'f) arrival \<Rightarrow> bool" where
  "held_in i a \<longleftrightarrow> ar_standing a = Held \<and> instrument_of (ar_order a) = i"

fun arrival_step :: "('e, 'f) book_event \<Rightarrow> ('e, 'f) arrival list \<Rightarrow> ('e, 'f) arrival list" where
  "arrival_step (Insert_Order ord res) as = arrive Queued ord res as"
| "arrival_step (Hold_Order ord res) as = arrive Held ord res as"
| "arrival_step (Remove_Order c) as = filter (\<lambda>a. ar_cid a \<noteq> c) as"
| "arrival_step (Take_Held i) as = map (\<lambda>a. if held_in i a then a\<lparr>ar_standing := Taken\<rparr> else a) as"

definition arrivals :: "('e, 'f) book_event list \<Rightarrow> ('e, 'f) arrival list" where
  "arrivals steps = fold arrival_step steps []"

definition in_queue :: "instrument_name \<Rightarrow> side \<Rightarrow> ('e, 'f) arrival \<Rightarrow> bool" where
  "in_queue i sd a \<longleftrightarrow> instrument_of (ar_order a) = i \<and> o_side (ar_order a) = sd \<and>
     o_price (ar_order a) \<noteq> None \<and> ar_standing a = Queued"

text \<open>Buys by descending price, sells by ascending price, then by the time the venue opened them.\<close>

definition priority :: "'e open_order \<Rightarrow> decimal \<times> time" where
  "priority ord = (case o_side ord of Buy \<Rightarrow> - the (o_price ord) | Sell \<Rightarrow> the (o_price ord),
     open_time_exchange (o_state ord))"

definition book_sim :: "('e, 'f) open_orders \<Rightarrow> ('e, 'f) arrival list \<Rightarrow> bool" where
  "book_sim b as \<longleftrightarrow> open_orders_inv b \<and> distinct (map ar_cid as) \<and>
     oo_by_id b = map_of (map (\<lambda>a. (ar_cid a, ar_rest a)) as) \<and>
     oo_unqueued b = ar_cid ` {a \<in> set as. ar_standing a \<noteq> Queued \<and> o_price (ar_order a) \<noteq> None} \<and>
     (\<forall>i sd. map snd (queue_of b i sd) =
        map ar_cid (sort_key (\<lambda>a. priority (ar_order a)) (filter (in_queue i sd) as))) \<and>
     (\<forall>i. oo_held_on i b = map ar_cid (filter (held_in i) as))"

text \<open>The stable sort of a list with one more element: it goes right behind its equals.\<close>

lemma insort_append_left:
  "f x \<le> f y \<Longrightarrow> insort_key f x (as @ y # bs) = insort_key f x as @ y # bs"
  by (induction as) auto

lemma insort_append_right:
  "\<forall>a \<in> set as. f a < f x \<Longrightarrow> insort_key f x (as @ bs) = as @ insort_key f x bs"
  by (induction as) auto

lemma sort_key_snoc:
  "sort_key f (xs @ [x]) =
    filter (\<lambda>y. f y \<le> f x) (sort_key f xs) @ x # filter (\<lambda>y. f x < f y) (sort_key f xs)"
proof (induction xs)
  case Nil
  then show ?case by simp
next
  case (Cons y xs)
  show ?case
  proof (cases "f y \<le> f x")
    case True
    then have "\<not> f x < f y" by simp
    with True Cons show ?thesis
      by (simp add: insort_append_left filter_insort filter_insort_triv)
  next
    case False
    have "insort_key f y (filter (\<lambda>y. f y \<le> f x) (sort_key f xs) @ x # filter (\<lambda>y. f x < f y) (sort_key f xs)) =
      filter (\<lambda>y. f y \<le> f x) (sort_key f xs) @ x # insort_key f y (filter (\<lambda>y. f x < f y) (sort_key f xs))"
      using False by (subst insort_append_right) auto
    with False Cons show ?thesis by (simp add: filter_insort filter_insort_triv)
  qed
qed

lemma filter_pairs:
  "map f xs = map g ys \<Longrightarrow> (\<And>x y. x \<in> set xs \<Longrightarrow> y \<in> set ys \<Longrightarrow> f x = g y \<Longrightarrow> P x = Q y) \<Longrightarrow>
    map f (filter P xs) = map g (filter Q ys)"
proof (induction xs arbitrary: ys)
  case Nil
  then show ?case by simp
next
  case (Cons x xs)
  then obtain y ys' where "ys = y # ys'" by (cases ys) auto
  with Cons show ?case by auto
qed

lemma sim_inv: "book_sim b as \<Longrightarrow> open_orders_inv b"
  by (simp add: book_sim_def)

lemma sim_lookup: "book_sim b as \<Longrightarrow> a \<in> set as \<Longrightarrow> oo_by_id b (ar_cid a) = Some (ar_rest a)"
  by (auto simp: book_sim_def comp_def intro!: map_of_is_SomeI)

lemma sim_dom: "book_sim b as \<Longrightarrow> dom (oo_by_id b) = ar_cid ` set as"
  by (auto simp: book_sim_def dom_map_of_conv_image_fst image_image)

lemma sim_known: "book_sim b as \<Longrightarrow> oo_by_id b c = None \<longleftrightarrow> c \<notin> ar_cid ` set as"
  using sim_dom [of b as] by (metis domIff)

lemma book_sim_start: "book_sim open_orders_default []"
  using open_orders_inv_default
  by (auto simp: book_sim_def open_orders_default_def queue_of_def oo_held_on_def)

lemma position_priority:
  assumes "position_for ord pos" and "qp_seq pos < s" and "o_side ord = o_side new" and "o_price new = Some p"
  shows "pos < queue_position_new (o_side new) p (open_time_exchange (o_state new)) s \<longleftrightarrow>
      priority ord \<le> priority new"
    and "queue_position_new (o_side new) p (open_time_exchange (o_state new)) s < pos \<longleftrightarrow>
      priority new < priority ord"
proof -
  obtain q where q: "o_price ord = Some q"
      "pos = queue_position_new (o_side ord) q (open_time_exchange (o_state ord)) (qp_seq pos)"
    using assms(1) by (auto simp: position_for_def)
  have s: "\<not> s < qp_seq pos" using assms(2) by simp
  show "pos < queue_position_new (o_side new) p (open_time_exchange (o_state new)) s \<longleftrightarrow>
      priority ord \<le> priority new"
    by (subst q(2), cases "o_side new")
      (use assms(2-4) q(1) in \<open>auto simp: less_queue_position_def priority_def less_eq_prod_def\<close>)
  show "queue_position_new (o_side new) p (open_time_exchange (o_state new)) s < pos \<longleftrightarrow>
      priority new < priority ord"
    by (subst q(2), cases "o_side new")
      (use s assms(3,4) q(1) in \<open>auto simp: less_queue_position_def priority_def less_prod_def\<close>)
qed

lemma insert_sim_queue:
  assumes sim: "book_sim b as" and new: "oo_by_id b (cid_of ord) = None"
    and step: "oo_insert ord res b = (out, b')" and seq: "unat (oo_seq b) + 1 < 2 ^ 64"
    and a: "a = \<lparr>ar_rest = \<lparr>rs_order = ord, rs_reservation = res\<rparr>, ar_standing = Queued\<rparr>"
  shows "map snd (queue_of b' i sd) =
    map ar_cid (sort_key (\<lambda>a. priority (ar_order a)) (filter (in_queue i sd) (as @ [a])))"
proof -
  note b' = insert_new [OF new step]
  have ok: "queues_ok b" using sim by (simp add: book_sim_def open_orders_inv_def)
  let ?q = "queue_of b i sd" and ?l = "sort_key (\<lambda>a. priority (ar_order a)) (filter (in_queue i sd) as)"
  have old: "map snd ?q = map ar_cid ?l" using sim by (simp add: book_sim_def)
  show ?thesis
  proof (cases "in_queue i sd a")
    case False
    then have "queue_of b' i sd = ?q" by (auto simp: b'(4) in_queue_def a split: option.splits)
    with False old show ?thesis by simp
  next
    case True
    then obtain p where p: "o_price ord = Some p" "i = instrument_of ord" "sd = o_side ord"
      by (auto simp: in_queue_def a)
    let ?pos = "queue_position_new (o_side ord) p (open_time_exchange (o_state ord)) (oo_seq b + 1)"
    have pos: "(x < ?pos \<longleftrightarrow> priority (ar_order e) \<le> priority ord) \<and>
        (?pos < x \<longleftrightarrow> priority ord < priority (ar_order e)) \<and> x \<noteq> ?pos"
      if "(x, ar_cid e) \<in> set ?q" "e \<in> set ?l" for x e
    proof -
      have e: "e \<in> set as" "o_side (ar_order e) = o_side ord" using that(2) p by (auto simp: in_queue_def)
      have x: "position_for (ar_order e) x" "qp_seq x < oo_seq b + 1"
        using queue_position_ok [OF ok that(1) sim_lookup [OF sim e(1)]] seq_next(2) [OF seq] by blast+
      show ?thesis using position_priority [OF x e(2) p(1)] x(2) by auto
    qed
    have mem: "\<exists>e \<in> set ?l. ar_cid e = c" if "(x, c) \<in> set ?q" for x c
    proof -
      have "c \<in> set (map ar_cid ?l)" unfolding old [symmetric] using that by force
      then show ?thesis by auto
    qed
    have keys: "?pos \<notin> fst ` set ?q"
    proof
      assume "?pos \<in> fst ` set ?q"
      then obtain c where c: "(?pos, c) \<in> set ?q" by auto
      with mem obtain e where "e \<in> set ?l" "ar_cid e = c" by blast
      with pos [of ?pos e] c show False by simp
    qed
    have "map snd (queue_of b' i sd) =
        map snd (filter (\<lambda>x. fst x < ?pos) ?q) @ cid_of ord # map snd (filter (\<lambda>x. ?pos < fst x) ?q)"
      using queue_facts(2) [OF ok] keys p by (simp add: b'(4) bt_insert_split)
    also have "map snd (filter (\<lambda>x. fst x < ?pos) ?q) =
        map ar_cid (filter (\<lambda>e. priority (ar_order e) \<le> priority ord) ?l)"
      using pos by (intro filter_pairs old) (metis prod.collapse)
    also have "map snd (filter (\<lambda>x. ?pos < fst x) ?q) =
        map ar_cid (filter (\<lambda>e. priority ord < priority (ar_order e)) ?l)"
      using pos by (intro filter_pairs old) (metis prod.collapse)
    finally show ?thesis using True by (simp add: sort_key_snoc a)
  qed
qed

lemma map_of_snoc: "c \<notin> fst ` set xs \<Longrightarrow> map_of (xs @ [(c, v)]) = (map_of xs)(c \<mapsto> v)"
  by (induction xs) (auto simp: fun_upd_twist)

lemma insert_sim:
  assumes sim: "book_sim b as" and seq: "unat (oo_seq b) + 1 < 2 ^ 64"
  shows "book_sim (snd (oo_insert ord res b)) (arrive Queued ord res as)"
proof (cases "oo_by_id b (cid_of ord)")
  case (Some r)
  then have "cid_of ord \<in> ar_cid ` set as" using sim_known [OF sim, of "cid_of ord"] by simp
  with Some sim insert_known(1) [of b ord res] show ?thesis by (simp add: arrive_def)
next
  case None
  then have fresh: "cid_of ord \<notin> ar_cid ` set as" using sim_known [OF sim] by simp
  obtain out b' where step: "oo_insert ord res b = (out, b')" by fastforce
  note b' = insert_new [OF None step]
  have "open_orders_inv b'" using sim_inv [OF sim] step seq by (rule insert_inv)
  moreover have "oo_held_on i b' = oo_held_on i b" for i by (simp add: oo_held_on_def b'(5))
  moreover note insert_sim_queue [OF sim None step seq refl]
  moreover have "oo_by_id b' = map_of (map (\<lambda>a. (ar_cid a, ar_rest a))
      (as @ [\<lparr>ar_rest = \<lparr>rs_order = ord, rs_reservation = res\<rparr>, ar_standing = Queued\<rparr>]))"
    using sim fresh by (simp add: book_sim_def b'(2) map_of_snoc image_image del: map_of_append)
  ultimately show ?thesis
    using sim fresh
    by (auto simp: book_sim_def arrive_def step b'(6) held_in_def)
qed

lemma filter_snoc_set:
  "{x \<in> set (xs @ [y]). P x} = (if P y then insert y {x \<in> set xs. P x} else {x \<in> set xs. P x})"
  by auto

lemma hold_sim:
  assumes sim: "book_sim b as"
  shows "book_sim (snd (oo_hold ord res b)) (arrive Held ord res as)"
proof (cases "oo_by_id b (cid_of ord)")
  case (Some r)
  then have "cid_of ord \<in> ar_cid ` set as" using sim_known [OF sim, of "cid_of ord"] by simp
  with Some sim insert_known(2) [of b ord res] show ?thesis by (simp add: arrive_def)
next
  case None
  then have fresh: "cid_of ord \<notin> ar_cid ` set as" using sim_known [OF sim] by simp
  obtain out b' where step: "oo_hold ord res b = (out, b')" by fastforce
  note b' = hold_new [OF None step]
  let ?a = "\<lparr>ar_rest = \<lparr>rs_order = ord, rs_reservation = res\<rparr>, ar_standing = Held\<rparr>"
  have "open_orders_inv b'" using sim_inv [OF sim] step by (rule hold_inv)
  moreover have "oo_held_on i b' = map ar_cid (filter (held_in i) (as @ [?a]))" for i
    using sim by (simp add: oo_held_on_def b'(5) held_in_def book_sim_def)
  moreover have "map snd (queue_of b' i sd) =
      map ar_cid (sort_key (\<lambda>a. priority (ar_order a)) (filter (in_queue i sd) (as @ [?a])))" for i sd
    using sim by (simp add: queue_of_def b'(4) in_queue_def book_sim_def)
  moreover have "oo_by_id b' = map_of (map (\<lambda>a. (ar_cid a, ar_rest a)) (as @ [?a]))"
    using sim fresh by (simp add: book_sim_def b'(2) map_of_snoc image_image del: map_of_append)
  moreover have "oo_unqueued b' = ar_cid ` {a \<in> set (as @ [?a]). ar_standing a \<noteq> Queued \<and> o_price (ar_order a) \<noteq> None}"
    using sim unfolding filter_snoc_set b'(6) by (simp add: book_sim_def)
  moreover have "distinct (map ar_cid (as @ [?a]))" using sim fresh by (simp add: book_sim_def)
  ultimately show ?thesis using fresh by (simp add: book_sim_def arrive_def step)
qed

lemma map_of_without: "map_of (filter (\<lambda>p. fst p \<noteq> c) xs) = (map_of xs)(c := None)"
  by (induction xs) (auto simp: fun_upd_twist)

lemma remove_sim:
  assumes sim: "book_sim b as"
  shows "book_sim (snd (oo_remove c b)) (filter (\<lambda>a. ar_cid a \<noteq> c) as)"
proof (cases "oo_by_id b c")
  case None
  then have "c \<notin> ar_cid ` set as" using sim_known [OF sim] by simp
  then have "filter (\<lambda>a. ar_cid a \<noteq> c) as = as" by (auto simp: filter_id_conv)
  with None sim show ?thesis by (simp add: oo_remove_def)
next
  case (Some r)
  obtain out b' where step: "oo_remove c b = (out, b')" by fastforce
  note b' = remove_effect [OF sim_inv [OF sim] Some step]
  have "open_orders_inv b'" using sim_inv [OF sim] step by (rule remove_inv)
  moreover have "distinct (map ar_cid (filter (\<lambda>a. ar_cid a \<noteq> c) as))"
    using sim by (simp add: book_sim_def distinct_map_filter)
  moreover have "oo_by_id b' = map_of (map (\<lambda>a. (ar_cid a, ar_rest a)) (filter (\<lambda>a. ar_cid a \<noteq> c) as))"
    using sim map_of_without [of c "map (\<lambda>a. (ar_cid a, ar_rest a)) as"]
    by (simp add: book_sim_def b'(2) filter_map comp_def)
  moreover have "oo_unqueued b' = ar_cid ` {a \<in> set (filter (\<lambda>a. ar_cid a \<noteq> c) as).
      ar_standing a \<noteq> Queued \<and> o_price (ar_order a) \<noteq> None}"
    using sim by (auto simp: book_sim_def b'(3))
  moreover have "map snd (queue_of b' i sd) = map ar_cid
      (sort_key (\<lambda>a. priority (ar_order a)) (filter (in_queue i sd) (filter (\<lambda>a. ar_cid a \<noteq> c) as)))" for i sd
  proof -
    have "filter (\<lambda>d. d \<noteq> c) (map snd (queue_of b i sd)) = filter (\<lambda>d. d \<noteq> c)
        (map ar_cid (sort_key (\<lambda>a. priority (ar_order a)) (filter (in_queue i sd) as)))"
      using sim by (simp add: book_sim_def)
    then show ?thesis
      by (simp add: b'(6) filter_map comp_def filter_sort split_def conj_commute)
  qed
  moreover have "oo_held_on i b' = map ar_cid (filter (held_in i) (filter (\<lambda>a. ar_cid a \<noteq> c) as))" for i
    using sim by (simp add: book_sim_def b'(8) filter_map comp_def conj_commute)
  ultimately show ?thesis by (simp add: book_sim_def step)
qed

lemma insort_key_map: "insort_key f (t x) (map t xs) = map t (insort_key (\<lambda>y. f (t y)) x xs)"
  by (induction xs) auto

lemma sort_key_map: "sort_key f (map t xs) = map t (sort_key (\<lambda>y. f (t y)) xs)"
  by (induction xs) (auto simp: insort_key_map)

lemma take_held_sim:
  assumes sim: "book_sim b as"
  shows "book_sim (snd (oo_take_held i b)) (arrival_step (Take_Held i) as)"
proof -
  define t where "t = (\<lambda>a :: ('a, 'b) arrival. if held_in i a then a\<lparr>ar_standing := Taken\<rparr> else a)"
  let ?b = "snd (oo_take_held i b)"
  have t: "ar_rest (t a) = ar_rest a" "in_queue j sd (t a) = in_queue j sd a"
    "held_in j (t a) \<longleftrightarrow> j \<noteq> i \<and> held_in j a" "ar_standing (t a) = Queued \<longleftrightarrow> ar_standing a = Queued"
    for a j sd by (auto simp: t_def in_queue_def held_in_def)
  have b: "oo_by_id ?b = oo_by_id b" "oo_unqueued ?b = oo_unqueued b"
    "queue_of ?b j sd = queue_of b j sd" "oo_held_on j ?b = (if j = i then [] else oo_held_on j b)" for j sd
    by (auto simp: oo_take_held_def queue_of_def oo_held_on_def)
  have f0: "open_orders_inv ?b" using sim_inv [OF sim] by (rule take_held_inv)
  have f1: "map ar_cid (map t as) = map ar_cid as" by (simp add: t)
  have f2: "map (\<lambda>a. (ar_cid a, ar_rest a)) (map t as) = map (\<lambda>a. (ar_cid a, ar_rest a)) as"
    by (simp add: t)
  have f3: "map ar_cid (sort_key (\<lambda>a. priority (ar_order a)) (filter (in_queue j sd) (map t as))) =
      map ar_cid (sort_key (\<lambda>a. priority (ar_order a)) (filter (in_queue j sd) as))" for j sd
    by (simp add: filter_map comp_def sort_key_map t)
  have f4: "map ar_cid (filter (held_in j) (map t as)) = (if j = i then [] else map ar_cid (filter (held_in j) as))" for j
    by (simp add: filter_map comp_def t)
  have f5: "ar_cid ` {a \<in> set (map t as). ar_standing a \<noteq> Queued \<and> o_price (ar_order a) \<noteq> None} =
      ar_cid ` {a \<in> set as. ar_standing a \<noteq> Queued \<and> o_price (ar_order a) \<noteq> None}"
  proof -
    have "{a \<in> set (map t as). ar_standing a \<noteq> Queued \<and> o_price (ar_order a) \<noteq> None} =
      t ` {a \<in> set as. ar_standing a \<noteq> Queued \<and> o_price (ar_order a) \<noteq> None}"
      by (auto simp: t)
    then show ?thesis by (simp add: image_image t)
  qed
  have "book_sim ?b (map t as)"
    unfolding book_sim_def b f1 f2 f3 f4 f5 using f0 sim [unfolded book_sim_def] by simp
  then show ?thesis by (simp add: t_def)
qed

lemma step_seq: "unat (oo_seq (book_step ev b)) \<le> unat (oo_seq b) + 1"
proof -
  have le: "unat (s + 1) \<le> unat s + 1" for s :: u64
    by (simp add: unat_word_ariths)
  show ?thesis
  proof (cases ev)
    case (Insert_Order ord res)
    then show ?thesis using le
      by (auto simp: oo_insert_def oo_index_def Let_def split: option.splits)
  next
    case (Hold_Order ord res)
    then show ?thesis
      by (auto simp: oo_hold_def oo_index_def Let_def split: option.splits prod.splits sum.splits if_splits)
  next
    case (Remove_Order c)
    have "oo_seq (oo_unhold o' x) = oo_seq x" "oo_seq (oo_dequeue o' x) = oo_seq x"
      for o' :: "'a open_order" and x :: "('a, 'b) open_orders"
      by (simp_all add: oo_unhold_def oo_dequeue_def Let_def split: option.splits)
    then show ?thesis using Remove_Order
      by (simp add: oo_remove_def oo_unindex_def Let_def split: option.splits)
  next
    case (Take_Held i)
    then show ?thesis by (simp add: oo_take_held_def)
  qed
qed

lemma step_sim:
  assumes "book_sim b as" and "unat (oo_seq b) + 1 < 2 ^ 64"
  shows "book_sim (book_step ev b) (arrival_step ev as)"
  using assms insert_sim hold_sim remove_sim take_held_sim
  by (cases ev) (simp_all del: arrival_step.simps(4))

lemma book_simulated:
  assumes "length steps < 2 ^ 64"
  shows "book_sim (book_of steps) (arrivals steps) \<and> unat (oo_seq (book_of steps)) \<le> length steps"
  using assms
proof (induction steps rule: rev_induct)
  case Nil
  then show ?case using book_sim_start by (simp add: book_of_def arrivals_def open_orders_default_def)
next
  case (snoc ev steps)
  then have sim: "book_sim (book_of steps) (arrivals steps)"
    and seq: "unat (oo_seq (book_of steps)) \<le> length steps" by simp_all
  have "unat (oo_seq (book_of steps)) + 1 < 2 ^ 64" using seq snoc.prems by simp
  from step_sim [OF sim this, of ev] step_seq [of ev "book_of steps"] seq
  show ?case by (simp add: book_of_def arrivals_def)
qed

section \<open>Properties\<close>

lemma resting_lookup:
  "(\<And>a. a \<in> set as \<Longrightarrow> m (ar_cid a) = Some (ar_rest a)) \<Longrightarrow>
    map rs_order (List.map_filter m (map ar_cid as)) = map ar_order as"
  by (induction as) (simp_all add: List.map_filter_simps)

text \<open>C10: price-time priority. However a venue's book came about, through insertions, holdings,
removals and refused duplicates, the orders resting on one side of an instrument are listed best
price first and, among equal prices, by the time the venue opened them and then by their arrival:
they are the stable sort of the priced, queued orders in the order they arrived.\<close>

lemma open_orders_price_time:
  assumes "length steps < 2 ^ 64"
  shows "oo_resting i sd (book_of steps) =
    map ar_order (sort_key (\<lambda>a. priority (ar_order a)) (filter (in_queue i sd) (arrivals steps)))"
proof -
  let ?l = "sort_key (\<lambda>a. priority (ar_order a)) (filter (in_queue i sd) (arrivals steps))"
  have sim: "book_sim (book_of steps) (arrivals steps)" using book_simulated [OF assms] by blast
  then have "map snd (queue_of (book_of steps) i sd) = map ar_cid ?l" by (simp add: book_sim_def)
  moreover have "map rs_order (List.map_filter (oo_by_id (book_of steps)) (map ar_cid ?l)) = map ar_order ?l"
    using sim_lookup [OF sim] by (intro resting_lookup) auto
  ultimately show ?thesis by (simp add: oo_resting_def)
qed

definition sample_order :: "client_order_id \<Rightarrow> side \<Rightarrow> decimal option \<Rightarrow> time \<Rightarrow> time_in_force \<Rightarrow> nat open_order" where
  "sample_order c sd p t tif = \<lparr>o_key = \<lparr>key_exchange = 0, key_instrument = ''btc'', key_strategy = ''s'', key_cid = c\<rparr>,
     o_side = sd, o_price = p, o_quantity = 1, o_kind = Limit, o_time_in_force = tif,
     o_state = \<lparr>open_id = Assigned c, open_time_exchange = t, open_filled_quantity = 0\<rparr>\<rparr>"

definition sample_steps :: "(nat, unit) book_event list" where
  "sample_steps =
     [Insert_Order (sample_order ''a'' Buy (Some 10) 5 (GoodTillDate 9)) None,
      Hold_Order (sample_order ''b'' Buy (Some 12) 5 (GoodUntilCancelled False)) None,
      Insert_Order (sample_order ''c'' Buy (Some 11) 6 (GoodTillDate 8)) None,
      Insert_Order (sample_order ''d'' Buy (Some 11) 6 (GoodUntilCancelled False)) None,
      Remove_Order ''e'']"

lemmas sample_simps = sample_steps_def sample_order_def arrivals_def arrive_def in_queue_def priority_def
  held_in_def deadline_of_def less_eq_prod_def

lemma open_orders_price_time_witness:
  "map cid_of (oo_resting ''btc'' Buy (book_of sample_steps)) = [''c'', ''d'', ''a'']"
  using open_orders_price_time [of sample_steps "''btc''" Buy] by (simp add: sample_simps)

lemma sorted_takeWhile_le:
  "sorted xs \<Longrightarrow> (\<And>x y. x \<le> y \<Longrightarrow> P y \<Longrightarrow> P x) \<Longrightarrow> set (takeWhile P xs) = {x \<in> set xs. P x}"
  by (induction xs) auto

lemma sorted_map_sort_key: "sorted (map f (sort_key f xs))"
  by simp

definition due :: "time \<Rightarrow> ('e, 'f) arrival \<Rightarrow> bool" where
  "due now a = (case deadline_of (ar_order a) of None \<Rightarrow> False | Some t \<Rightarrow> t \<le> now)"

definition deadline_key :: "('e, 'f) arrival \<Rightarrow> time \<times> client_order_id" where
  "deadline_key a = (the (deadline_of (ar_order a)), ar_cid a)"

lemma sim_expiries:
  assumes "book_sim b as"
  shows "set (oo_expiries b) = {(t, c). \<exists>a \<in> set as. ar_cid a = c \<and> deadline_of (ar_order a) = Some t}"
proof -
  have "set (oo_expiries b) = {(t, c). \<exists>r. oo_by_id b c = Some r \<and> deadline_of (rs_order r) = Some t}"
    using assms by (simp add: book_sim_def open_orders_inv_def expiries_ok_def)
  moreover have "(\<exists>r. oo_by_id b c = Some r \<and> deadline_of (rs_order r) = Some t) \<longleftrightarrow>
      (\<exists>a \<in> set as. ar_cid a = c \<and> deadline_of (ar_order a) = Some t)" for c t
  proof
    assume "\<exists>r. oo_by_id b c = Some r \<and> deadline_of (rs_order r) = Some t"
    then obtain r where r: "oo_by_id b c = Some r" "deadline_of (rs_order r) = Some t" by blast
    then obtain a where a: "a \<in> set as" "ar_cid a = c" using sim_dom [OF assms] by (force simp: domIff)
    with sim_lookup [OF assms a(1)] r show "\<exists>a \<in> set as. ar_cid a = c \<and> deadline_of (ar_order a) = Some t"
      by auto
  next
    assume "\<exists>a \<in> set as. ar_cid a = c \<and> deadline_of (ar_order a) = Some t"
    then show "\<exists>r. oo_by_id b c = Some r \<and> deadline_of (rs_order r) = Some t"
      using sim_lookup [OF assms] by blast
  qed
  ultimately show ?thesis by simp
qed

lemma sim_expired:
  assumes sim: "book_sim b as"
  shows "oo_expired_as_of now b = map ar_cid (sort_key deadline_key (filter (due now) as))"
proof -
  let ?l = "sort_key deadline_key (filter (due now) as)" and ?P = "\<lambda>(t, _). t \<le> now"
  have e: "sorted_wrt (<) (oo_expiries b)"
    using sim by (simp add: book_sim_def open_orders_inv_def expiries_ok_def)
  then have sd: "sorted (oo_expiries b)" "distinct (oo_expiries b)" by (auto simp: strict_sorted_iff)
  have "set (takeWhile ?P (oo_expiries b)) = {x \<in> set (oo_expiries b). ?P x}"
    using sd(1) by (rule sorted_takeWhile_le) auto
  also have "\<dots> = deadline_key ` set (filter (due now) as)"
    by (auto simp: sim_expiries [OF sim] deadline_key_def due_def split: option.splits intro!: image_eqI)
  finally have set: "set (takeWhile ?P (oo_expiries b)) = set (map deadline_key ?l)" by simp
  have "inj_on deadline_key (set as)"
    using sim by (auto simp: book_sim_def deadline_key_def inj_on_def distinct_map)
  then have "distinct (map deadline_key ?l)"
    using sim by (auto simp: book_sim_def distinct_map intro: inj_on_subset)
  with set sd have "takeWhile ?P (oo_expiries b) = map deadline_key ?l"
    by (intro sorted_distinct_set_unique) (auto simp: sorted_takeWhile)
  then show ?thesis by (simp add: oo_expired_as_of_def deadline_key_def comp_def)
qed

lemma head_of_sorted:
  assumes "sorted xs" and "sorted ys" and "set xs = set ys"
  shows "(case xs of [] \<Rightarrow> None | x # _ \<Rightarrow> Some x) = (case ys of [] \<Rightarrow> None | y # _ \<Rightarrow> Some (y :: 'a::linorder))"
proof (cases xs)
  case Nil
  with assms show ?thesis by simp
next
  case (Cons x xs')
  with assms(3) obtain y ys' where ys: "ys = y # ys'" by (cases ys) auto
  have "x \<in> set ys" "y \<in> set xs" using assms(3) Cons ys by auto
  with assms(1,2) Cons ys have "x \<le> y" "y \<le> x" by auto
  with Cons ys show ?thesis by simp
qed

lemma map_filter_set: "set (List.map_filter f xs) = {y. \<exists>x \<in> set xs. f x = Some y}"
  by (induction xs) (auto simp: List.map_filter_simps split: option.splits)

lemma sim_next_expiry:
  assumes sim: "book_sim b as"
  shows "oo_next_expiry b =
    (case sort (List.map_filter (\<lambda>a. deadline_of (ar_order a)) as) of [] \<Rightarrow> None | t # _ \<Rightarrow> Some t)"
proof -
  have "sorted (oo_expiries b)"
    using sim by (simp add: book_sim_def open_orders_inv_def expiries_ok_def strict_sorted_iff)
  then have "sorted (map fst (oo_expiries b))"
    unfolding sorted_map by (rule sorted_wrt_mono_rel [rotated]) (auto simp: less_eq_prod_def)
  moreover have "set (map fst (oo_expiries b)) = set (sort (List.map_filter (\<lambda>a. deadline_of (ar_order a)) as))"
    by (force simp: sim_expiries [OF sim] map_filter_set image_iff)
  ultimately have "(case map fst (oo_expiries b) of [] \<Rightarrow> None | t # _ \<Rightarrow> Some t) =
      (case sort (List.map_filter (\<lambda>a. deadline_of (ar_order a)) as) of [] \<Rightarrow> None | t # _ \<Rightarrow> Some t)"
    by (intro head_of_sorted) simp_all
  moreover have "oo_next_expiry b = (case map fst (oo_expiries b) of [] \<Rightarrow> None | t # _ \<Rightarrow> Some t)"
    by (cases "oo_expiries b") (auto simp: oo_next_expiry_def)
  ultimately show ?thesis by simp
qed

text \<open>deadlines. The orders a venue finds expired as of a time are exactly the open orders,
queued or held ret, whose good-till date has come, in the order of their deadlines and then of
their ids; and the next deadline it waits for is the earliest one of the open orders.\<close>

lemma open_orders_deadlines:
  assumes "length steps < 2 ^ 64"
  shows "oo_expired_as_of now (book_of steps) =
      map ar_cid (sort_key deadline_key (filter (due now) (arrivals steps))) \<and>
    oo_next_expiry (book_of steps) =
      (case sort (List.map_filter (\<lambda>a. deadline_of (ar_order a)) (arrivals steps)) of
         [] \<Rightarrow> None | t # _ \<Rightarrow> Some t)"
proof
  have sim: "book_sim (book_of steps) (arrivals steps)" using book_simulated [OF assms] by blast
  then show "oo_expired_as_of now (book_of steps) =
      map ar_cid (sort_key deadline_key (filter (due now) (arrivals steps)))" by (rule sim_expired)
  show "oo_next_expiry (book_of steps) =
      (case sort (List.map_filter (\<lambda>a. deadline_of (ar_order a)) (arrivals steps)) of
         [] \<Rightarrow> None | t # _ \<Rightarrow> Some t)"
    using sim_next_expiry [OF sim] .
qed

lemma open_orders_deadlines_witness:
  "oo_expired_as_of 9 (book_of sample_steps) = [''c'', ''a''] \<and>
   oo_next_expiry (book_of sample_steps) = Some 8"
  using open_orders_deadlines [of sample_steps 9]
  by (simp add: sample_simps due_def deadline_key_def List.map_filter_def)

lemma find_map_of:
  "map_of (map (\<lambda>a. (f a, g a)) as) c = map_option g (List.find (\<lambda>a. f a = c) as)"
  by (induction as) auto

text \<open>what the callers are told. An order is refused exactly when an order of its id is open,
and is then handed back with its reservation while the book stays as it was; a removal hands back
exactly the open order of that id with the reservation it was entered with; and the held list of an
instrument gives its held orders in the order they came and gives them once.\<close>

lemma open_orders_outcomes:
  assumes "length steps < 2 ^ 64"
  shows "(let b = book_of steps; as = arrivals steps in
    (\<forall>ord res. oo_insert ord res b = (if cid_of ord \<in> ar_cid ` set as
        then (Inl \<lparr>rs_order = ord, rs_reservation = res\<rparr>, b) else (Inr (), snd (oo_insert ord res b)))) \<and>
    (\<forall>ord res. oo_hold ord res b = (if cid_of ord \<in> ar_cid ` set as
        then (Inl \<lparr>rs_order = ord, rs_reservation = res\<rparr>, b) else (Inr (), snd (oo_hold ord res b)))) \<and>
    (\<forall>c. fst (oo_remove c b) = map_option ar_rest (List.find (\<lambda>a. ar_cid a = c) as)) \<and>
    (\<forall>c. oo_contains c b = (c \<in> ar_cid ` set as)) \<and>
    (\<forall>i. fst (oo_take_held i b) = map ar_cid (filter (held_in i) as) \<and>
      \<not> oo_holds i (snd (oo_take_held i b)) \<and> oo_holds i b = (\<exists>a \<in> set as. held_in i a)))"
proof -
  define b where "b = book_of steps"
  define as where "as = arrivals steps"
  have sim: "book_sim b as" using book_simulated [OF assms] by (simp add: b_def as_def)
  have "oo_insert ord res b = (if cid_of ord \<in> ar_cid ` set as
      then (Inl \<lparr>rs_order = ord, rs_reservation = res\<rparr>, b) else (Inr (), snd (oo_insert ord res b)))" for ord res
    using sim_known [OF sim, of "cid_of ord"] insert_known(1) [of b ord res]
      insert_new(1) [of b ord res "fst (oo_insert ord res b)" "snd (oo_insert ord res b)"]
    by (cases "cid_of ord \<in> ar_cid ` set as") (simp_all add: already_resting_def prod_eq_iff)
  moreover have "oo_hold ord res b = (if cid_of ord \<in> ar_cid ` set as
      then (Inl \<lparr>rs_order = ord, rs_reservation = res\<rparr>, b) else (Inr (), snd (oo_hold ord res b)))" for ord res
    using sim_known [OF sim, of "cid_of ord"] insert_known(2) [of b ord res]
      hold_new(1) [of b ord res "fst (oo_hold ord res b)" "snd (oo_hold ord res b)"]
    by (cases "cid_of ord \<in> ar_cid ` set as") (simp_all add: already_resting_def prod_eq_iff)
  moreover have "fst (oo_remove c b) = map_option ar_rest (List.find (\<lambda>a. ar_cid a = c) as)" for c
  proof -
    have "fst (oo_remove c b) = oo_by_id b c" by (simp add: oo_remove_def split: option.splits)
    also have "\<dots> = map_option ar_rest (List.find (\<lambda>a. ar_cid a = c) as)"
      using sim by (simp add: book_sim_def find_map_of)
    finally show ?thesis .
  qed
  moreover have "oo_contains c b = (c \<in> ar_cid ` set as)" for c
    using sim_known [OF sim, of c] by (simp add: oo_contains_def)
  moreover have "fst (oo_take_held i b) = map ar_cid (filter (held_in i) as) \<and>
      \<not> oo_holds i (snd (oo_take_held i b)) \<and> oo_holds i b = (\<exists>a \<in> set as. held_in i a)" for i
  proof -
    have held: "oo_held_on i b = map ar_cid (filter (held_in i) as)" "oo_held b i \<noteq> Some []"
      using sim by (simp_all add: book_sim_def open_orders_inv_def held_ok_def)
    moreover have "oo_holds i b \<longleftrightarrow> oo_held_on i b \<noteq> []"
      using held(2) by (cases "oo_held b i") (auto simp: oo_holds_def oo_held_on_def)
    ultimately show ?thesis
      by (auto simp: oo_take_held_def oo_held_on_def oo_holds_def filter_empty_conv)
  qed
  ultimately show ?thesis unfolding Let_def b_def as_def by blast
qed

lemma open_orders_outcomes_witness:
  "oo_contains ''b'' (book_of sample_steps) \<and> \<not> oo_contains ''e'' (book_of sample_steps) \<and>
   fst (oo_take_held ''btc'' (book_of sample_steps)) = [''b'']"
  using open_orders_outcomes [of sample_steps] by (simp add: sample_simps Let_def)

lemma queues_determined:
  assumes "\<And>i sd. oo_queues b (i, sd) \<noteq> Some []" and "\<And>i sd. oo_queues b' (i, sd) \<noteq> Some []"
    and "\<And>i sd. queue_of b i sd = queue_of b' i sd"
  shows "oo_queues b = oo_queues b'"
proof
  fix k :: "instrument_name \<times> side"
  obtain i sd where k: "k = (i, sd)" by fastforce
  show "oo_queues b k = oo_queues b' k"
    using assms [of i sd] unfolding k queue_of_def by (auto split: option.splits)
qed

lemma held_determined:
  assumes "\<And>i. oo_held b i \<noteq> Some []" and "\<And>i. oo_held b' i \<noteq> Some []"
    and "\<And>i. oo_held_on i b = oo_held_on i b'"
  shows "oo_held b = oo_held b'"
proof
  fix i show "oo_held b i = oo_held b' i"
    using assms [of i] unfolding oo_held_on_def by (auto split: option.splits)
qed

lemma filter_fresh: "c \<notin> f ` set xs \<Longrightarrow> filter (\<lambda>x. f x \<noteq> c) xs = xs"
  by (auto simp: filter_id_conv)

lemma bs_insert_fresh:
  "c \<notin> snd ` set xs \<Longrightarrow> filter (\<lambda>(_, d). d \<noteq> c) (bs_insert (t, c) xs) = xs"
  by (induction xs) (force simp: filter_id_conv)+

lemma bt_insert_fresh:
  "c \<notin> snd ` set xs \<Longrightarrow> k \<notin> fst ` set xs \<Longrightarrow> filter (\<lambda>(_, d). d \<noteq> c) (bt_insert k c xs) = xs"
  by (induction xs) (force simp: filter_id_conv)+

lemma sim_nonempty:
  assumes "open_orders_inv b"
  shows "oo_queues b (i, sd) \<noteq> Some []" and "oo_held b i \<noteq> Some []"
  using assms by (auto simp: open_orders_inv_def queues_ok_def held_ok_def)

lemma fresh_indices:
  assumes inv: "open_orders_inv b" and new: "oo_by_id b c = None"
  shows "c \<notin> snd ` set (oo_expiries b)" and "c \<notin> snd ` set (queue_of b i sd)"
    and "c \<notin> set (oo_held_on i b)" and "c \<notin> oo_unqueued b"
proof -
  have parts: "queues_ok b" "expiries_ok b" "held_ok b"
    using inv by (simp_all add: open_orders_inv_def)
  show "c \<notin> snd ` set (oo_expiries b)" using parts(2) new by (auto simp: expiries_ok_def)
  show "c \<notin> snd ` set (queue_of b i sd)"
    using queue_facts(4) [OF parts(1)] new by (simp add: queueable_def)
  have "\<not> off_queues b i c" using new by (simp add: off_queues_def)
  then show "c \<notin> set (oo_held_on i b)" using parts(3) unfolding held_ok_def by blast
  show "c \<notin> oo_unqueued b" using parts(3) new by (auto simp: held_ok_def)
qed

lemma fresh_position:
  assumes "queues_ok b" and "unat (oo_seq b) + 1 < 2 ^ 64"
  shows "queue_position_new sd p t (oo_seq b + 1) \<notin> fst ` set (queue_of b i sd')"
proof
  let ?k = "queue_position_new sd p t (oo_seq b + 1)"
  assume "?k \<in> fst ` set (queue_of b i sd')"
  then obtain c where c: "(?k, c) \<in> set (queue_of b i sd')" by auto
  obtain r where "oo_by_id b c = Some r"
    using queue_mem_queueable [OF assms(1) c] by (auto simp: queueable_def)
  with queue_position_ok [OF assms(1) c] have "oo_seq b + 1 \<le> oo_seq b" by simp
  with seq_next(2) [OF assms(2), of "oo_seq b"] show False by simp
qed

lemma insert_remove:
  assumes inv: "open_orders_inv b" and new: "oo_by_id b (cid_of ord) = None" and seq: "unat (oo_seq b) + 1 < 2 ^ 64"
    and ins: "oo_insert ord res b = (out, b1)" and rem: "oo_remove (cid_of ord) b1 = (ret, b2)"
  shows "ret = Some \<lparr>rs_order = ord, rs_reservation = res\<rparr>" and "b2 = b\<lparr>oo_seq := oo_seq b1\<rparr>"
proof -
  note b1 = insert_new [OF new ins]
  have inv1: "open_orders_inv b1" using inv ins seq by (rule insert_inv)
  have inv2: "open_orders_inv b2" using inv1 rem by (rule remove_inv)
  have r: "oo_by_id b1 (cid_of ord) = Some \<lparr>rs_order = ord, rs_reservation = res\<rparr>" by (simp add: b1(2))
  note b2 = remove_effect [OF inv1 r rem]
  note fresh = fresh_indices [OF inv new]
  have ok: "queues_ok b" using inv by (simp add: open_orders_inv_def)
  show "ret = Some \<lparr>rs_order = ord, rs_reservation = res\<rparr>" by (rule b2(1))
  have "oo_by_id b2 = oo_by_id b" using new by (auto simp: b2(2) b1(2))
  moreover have "oo_expiries b2 = oo_expiries b"
    using fresh(1) filter_fresh [of "cid_of ord" snd "oo_expiries b"] bs_insert_fresh [of "cid_of ord" "oo_expiries b"]
    by (simp add: b2(5) b1(3) split_def split: option.splits)
  moreover have "oo_unqueued b2 = oo_unqueued b" using fresh(4) by (simp add: b2(3) b1(6))
  moreover have "oo_queues b2 = oo_queues b"
  proof (rule queues_determined)
    fix i sd
    show "queue_of b2 i sd = queue_of b i sd"
      using fresh(2) [of i sd] filter_fresh [of "cid_of ord" snd "queue_of b i sd"]
        bt_insert_fresh [OF fresh(2) fresh_position [OF ok seq]]
      by (auto simp: b2(6) b1(4) split_def split: option.splits)
  qed (use sim_nonempty [OF inv] sim_nonempty [OF inv2] in blast)+
  moreover have "oo_held b2 = oo_held b"
  proof (rule held_determined)
    fix i
    have "oo_held_on i b1 = oo_held_on i b" by (simp add: oo_held_on_def b1(5))
    with fresh(3) [of i] filter_fresh [of "cid_of ord" "\<lambda>x. x" "oo_held_on i b"]
    show "oo_held_on i b2 = oo_held_on i b" by (simp add: b2(8))
  qed (use sim_nonempty [OF inv] sim_nonempty [OF inv2] in blast)+
  ultimately show "b2 = b\<lparr>oo_seq := oo_seq b1\<rparr>"
    using b2(4) by (intro open_orders.equality) simp_all
qed

text \<open>insertion and removal cancel out. Whatever book a venue has, an order entered under a new id
and then taken off again comes back with its reservation and leaves the book, with all its queues,
deadlines and held lists, as it was; only the insertion counter may have moved on.\<close>

lemma open_orders_insert_remove:
  assumes "length steps + 1 < 2 ^ 64" and "cid_of ord \<notin> ar_cid ` set (arrivals steps)"
  shows "(let b = book_of steps; b1 = snd (oo_insert ord res b) in
    oo_remove (cid_of ord) b1 = (Some \<lparr>rs_order = ord, rs_reservation = res\<rparr>, b\<lparr>oo_seq := oo_seq b1\<rparr>))"
proof -
  define b where "b = book_of steps"
  have sim: "book_sim b (arrivals steps)" and seq: "unat (oo_seq b) + 1 < 2 ^ 64"
    using book_simulated [of steps] assms(1) by (simp_all add: b_def)
  have new: "oo_by_id b (cid_of ord) = None" using sim_known [OF sim] assms(2) by simp
  obtain out b1 where ins: "oo_insert ord res b = (out, b1)" by fastforce
  obtain ret b2 where rem: "oo_remove (cid_of ord) b1 = (ret, b2)" by fastforce
  show ?thesis
    using insert_remove [OF sim_inv [OF sim] new seq ins rem] ins rem by (simp add: Let_def b_def)
qed

lemma open_orders_insert_remove_witness:
  "fst (oo_remove ''z'' (snd (oo_insert (sample_order ''z'' Buy (Some 11) 5 (GoodTillDate 3)) None (book_of sample_steps))))
     = Some \<lparr>rs_order = sample_order ''z'' Buy (Some 11) 5 (GoodTillDate 3), rs_reservation = None\<rparr>"
  using open_orders_insert_remove [of sample_steps "sample_order ''z'' Buy (Some 11) 5 (GoodTillDate 3)" None]
  by (simp add: sample_simps Let_def)

end
