(* ===== verification/Balance.thy ===== *)
theory Balance
  imports Prelude
begin

text \<open>
  Balances of an asset, \<open>rustrade-execution/src/balance.rs\<close>: gross holdings, the part that is
  free, the debt on the asset and the carry not yet posted, and the partial updates of a stream.
\<close>

record margin_details =
  md_borrowed :: decimal
  md_interest :: decimal

definition margin_details_default :: margin_details where
  "margin_details_default = \<lparr>md_borrowed = 0, md_interest = 0\<rparr>"

definition margin_owed :: "rounding \<Rightarrow> margin_details \<Rightarrow> decimal option" where
  "margin_owed R m = dec_add R (md_borrowed m) (md_interest m)"

record balance =
  bl_total :: decimal
  bl_free :: decimal
  bl_margin :: "margin_details option"
  bl_accrued :: "decimal option"

record 'a asset_balance =
  ab_asset :: 'a
  ab_balance :: balance
  ab_time_exchange :: time

record balance_update =
  bu_free :: decimal
  bu_locked :: decimal

record 'a asset_balance_update =
  abu_asset :: 'a
  abu_update :: balance_update
  abu_time_exchange :: time

definition balance_new :: "decimal \<Rightarrow> decimal \<Rightarrow> balance" where
  "balance_new t f = \<lparr>bl_total = t, bl_free = f, bl_margin = None, bl_accrued = None\<rparr>"

definition balance_new_margin :: "decimal \<Rightarrow> decimal \<Rightarrow> decimal \<Rightarrow> decimal \<Rightarrow> balance" where
  "balance_new_margin t f borrowed interest = \<lparr>bl_total = t, bl_free = f,
     bl_margin = Some \<lparr>md_borrowed = borrowed, md_interest = interest\<rparr>, bl_accrued = None\<rparr>"

definition with_accrued :: "decimal \<Rightarrow> balance \<Rightarrow> balance" where
  "with_accrued a b = b\<lparr>bl_accrued := Some a\<rparr>"

definition balance_used :: "rounding \<Rightarrow> balance \<Rightarrow> decimal option" where
  "balance_used R b = dec_sub R (bl_total b) (bl_free b)"

definition net_asset :: "rounding \<Rightarrow> balance \<Rightarrow> decimal option" where
  "net_asset R b =
     (case bl_margin b of
        Some m \<Rightarrow> do { owed \<leftarrow> margin_owed R m; dec_sub R (bl_total b) owed }
      | None \<Rightarrow> Some (bl_total b))"

definition balance_update_total :: "rounding \<Rightarrow> balance_update \<Rightarrow> decimal option" where
  "balance_update_total R u = dec_add R (bu_free u) (bu_locked u)"

definition apply_stream_update :: "rounding \<Rightarrow> balance option \<Rightarrow> balance_update \<Rightarrow> balance option" where
  "apply_stream_update R prior u = do {
     total' \<leftarrow> balance_update_total R u;
     Some \<lparr>bl_total = total', bl_free = bu_free u,
       bl_margin = Option.bind prior bl_margin, bl_accrued = Option.bind prior bl_accrued\<rparr>
   }"

text \<open>A stream update moves what is held and never the debt or the accrual.\<close>

lemma apply_stream_update_keeps:
  assumes "apply_stream_update R (Some b) u = Some b'"
  shows "bl_margin b' = bl_margin b" and "bl_accrued b' = bl_accrued b" and "bl_free b' = bu_free u"
  using assms by (auto simp: apply_stream_update_def bind_eq_Some_conv)

text \<open>A balance a venue may hold: free is within the total, and no debt is negative.\<close>

definition balance_ok :: "balance \<Rightarrow> bool" where
  "balance_ok b \<longleftrightarrow> bl_free b \<le> bl_total b \<and>
     (case bl_margin b of None \<Rightarrow> True | Some m \<Rightarrow> 0 \<le> md_borrowed m \<and> 0 \<le> md_interest m)"

end
