(* ===== verification/Mock_Account.thy ===== *)
theory Mock_Account
  imports Balance Position Open_Orders
begin

text \<open>
  The account ledger of a simulated venue, \<open>rustrade-execution/src/exchange/mock/account.rs\<close>:
  balances with their loans, the open orders, and the ledgers of orders that ended. A balance that
  the code expects and that is absent is a panic, \<open>None\<close>. The checks the code makes in debug
  builds only are left out of the definitions; that they hold is part of the theorems. A decimal
  has no negative zero here.
\<close>

section \<open>Data\<close>

type_synonym name_balance = "asset_name asset_balance"

record ('e, 'f) account_state =
  ac_balances :: "asset_name \<rightharpoonup> name_balance"
  ac_orders_open :: "('e, 'f) open_orders"
  ac_orders_cancelled :: "client_order_id \<rightharpoonup> ('e, instrument_name, ended_state) order"
  ac_orders_filled :: "client_order_id \<rightharpoonup> ('e, instrument_name, filled_state) order"
  ac_orders_expired :: "client_order_id \<rightharpoonup> ('e, instrument_name, ended_state) order"
  ac_trades :: "(asset_name, instrument_name) trade list"
  ac_margin :: bool
  ac_loans_changed :: u64

record debit =
  db_asset :: asset_name
  db_settled :: decimal
  db_reserved :: decimal

record delivery =
  dl_asset :: asset_name
  dl_amount :: decimal

datatype credit = PaidBack decimal | Deliver delivery

record committed =
  cm_paid :: name_balance
  cm_received :: "name_balance option"
  cm_borrowed :: decimal
  cm_excess_borrowed :: decimal

record balance_insufficient =
  bi_asset :: asset_name
  bi_free :: decimal
  bi_required :: decimal
  bi_borrowable :: "decimal option"
  bi_min_borrow :: "decimal option"
  bi_max_borrow :: "decimal option"

record lending =
  ln_borrowable :: decimal
  ln_min_borrow :: decimal
  ln_max_borrow :: "decimal option"

definition shortfall_borrowed :: "rounding \<Rightarrow> committed \<Rightarrow> decimal option" where
  "shortfall_borrowed R c = dec_sub R (cm_borrowed c) (cm_excess_borrowed c)"

definition account_new ::
  "(asset_name \<rightharpoonup> name_balance) \<Rightarrow> ('e, 'f) open_orders
     \<Rightarrow> (client_order_id \<rightharpoonup> ('e, instrument_name, ended_state) order)
     \<Rightarrow> (asset_name, instrument_name) trade list \<Rightarrow> ('e, 'f) account_state" where
  "account_new balances orders cancelled trades = \<lparr>ac_balances = balances, ac_orders_open = orders,
     ac_orders_cancelled = cancelled, ac_orders_filled = Map.empty, ac_orders_expired = Map.empty,
     ac_trades = trades, ac_margin = False, ac_loans_changed = 0\<rparr>"

section \<open>Balances and loans\<close>

definition put_balance :: "name_balance \<Rightarrow> asset_name \<Rightarrow> ('e, 'f) account_state \<Rightarrow> ('e, 'f) account_state" where
  "put_balance ab a st = st\<lparr>ac_balances := (ac_balances st)(a \<mapsto> ab)\<rparr>"

definition count_loan_change :: "bool \<Rightarrow> ('e, 'f) account_state \<Rightarrow> ('e, 'f) account_state" where
  "count_loan_change changed st = st\<lparr>ac_loans_changed := ac_loans_changed st + (if changed then 1 else 0)\<rparr>"

definition enable_margin :: "('e, 'f) account_state \<Rightarrow> ('e, 'f) account_state" where
  "enable_margin st = st\<lparr>ac_margin := True, ac_balances := (\<lambda>a. case ac_balances st a of
       None \<Rightarrow> None
     | Some ab \<Rightarrow> Some (ab\<lparr>ab_balance := (ab_balance ab)\<lparr>bl_margin :=
         Some (case bl_margin (ab_balance ab) of None \<Rightarrow> margin_details_default | Some m \<Rightarrow> m)\<rparr>\<rparr>))\<rparr>"

definition account_free :: "asset_name \<Rightarrow> ('e, 'f) account_state \<Rightarrow> decimal" where
  "account_free a st = (case ac_balances st a of None \<Rightarrow> 0 | Some ab \<Rightarrow> bl_free (ab_balance ab))"

definition account_owed :: "rounding \<Rightarrow> asset_name \<Rightarrow> ('e, 'f) account_state \<Rightarrow> decimal option" where
  "account_owed R a st =
     (case Option.bind (ac_balances st a) (\<lambda>ab. bl_margin (ab_balance ab)) of
        None \<Rightarrow> Some 0
      | Some m \<Rightarrow> margin_owed R m)"

definition cap_room :: "rounding \<Rightarrow> asset_name \<Rightarrow> decimal \<Rightarrow> ('e, 'f) account_state \<Rightarrow> decimal option" where
  "cap_room R a cap st = do {
     owed \<leftarrow> account_owed R a st;
     room \<leftarrow> dec_sub R cap owed;
     Some (max room 0)
   }"

definition account_loan :: "asset_name \<Rightarrow> ('e, 'f) account_state \<Rightarrow> decimal option" where
  "account_loan a st =
     (case Option.bind (ac_balances st a) (\<lambda>ab. bl_margin (ab_balance ab)) of
        None \<Rightarrow> None
      | Some m \<Rightarrow> if md_borrowed m > 0 then Some (md_borrowed m) else None)"

definition charge_interest ::
  "rounding \<Rightarrow> asset_name \<Rightarrow> decimal \<Rightarrow> time \<Rightarrow> ('e, 'f) account_state
     \<Rightarrow> (name_balance \<times> ('e, 'f) account_state) option" where
  "charge_interest R a interest t st = do {
     ab \<leftarrow> ac_balances st a;
     let m = (case bl_margin (ab_balance ab) of None \<Rightarrow> margin_details_default | Some m \<Rightarrow> m);
     i \<leftarrow> dec_add R (md_interest m) interest;
     let ab' = ab\<lparr>ab_balance := (ab_balance ab)\<lparr>bl_margin := Some (m\<lparr>md_interest := i\<rparr>)\<rparr>, ab_time_exchange := t\<rparr>;
     Some (ab', put_balance ab' a st)
   }"

definition update_time_exchange :: "time \<Rightarrow> ('e, 'f) account_state \<Rightarrow> ('e, 'f) account_state" where
  "update_time_exchange t st =
     st\<lparr>ac_balances := (\<lambda>a. map_option (\<lambda>ab. ab\<lparr>ab_time_exchange := t\<rparr>) (ac_balances st a))\<rparr>"

definition reserve ::
  "rounding \<Rightarrow> asset_name \<Rightarrow> decimal \<Rightarrow> time \<Rightarrow> ('e, 'f) account_state
     \<Rightarrow> ((balance_insufficient + name_balance) \<times> ('e, 'f) account_state) option" where
  "reserve R a amount t st = do {
     ab \<leftarrow> ac_balances st a;
     if bl_free (ab_balance ab) < amount then
       Some (Inl \<lparr>bi_asset = a, bi_free = bl_free (ab_balance ab), bi_required = amount,
         bi_borrowable = None, bi_min_borrow = None, bi_max_borrow = None\<rparr>, st)
     else do {
       f \<leftarrow> dec_sub R (bl_free (ab_balance ab)) amount;
       let ab' = ab\<lparr>ab_balance := (ab_balance ab)\<lparr>bl_free := f\<rparr>, ab_time_exchange := t\<rparr>;
       Some (Inr ab', put_balance ab' a st)
     }
   }"

definition settle ::
  "rounding \<Rightarrow> asset_name \<Rightarrow> decimal \<Rightarrow> time \<Rightarrow> ('e, 'f) account_state
     \<Rightarrow> (name_balance \<times> ('e, 'f) account_state) option" where
  "settle R a amount t st = do {
     ab \<leftarrow> ac_balances st a;
     t' \<leftarrow> dec_sub R (bl_total (ab_balance ab)) amount;
     let ab' = ab\<lparr>ab_balance := (ab_balance ab)\<lparr>bl_total := t'\<rparr>, ab_time_exchange := t\<rparr>;
     Some (ab', put_balance ab' a st)
   }"

definition release ::
  "rounding \<Rightarrow> asset_name \<Rightarrow> decimal \<Rightarrow> time \<Rightarrow> ('e, 'f) account_state
     \<Rightarrow> (name_balance \<times> ('e, 'f) account_state) option" where
  "release R a amount t st = do {
     ab \<leftarrow> ac_balances st a;
     f \<leftarrow> dec_add R (bl_free (ab_balance ab)) amount;
     let ab' = ab\<lparr>ab_balance := (ab_balance ab)\<lparr>bl_free := f\<rparr>, ab_time_exchange := t\<rparr>;
     Some (ab', put_balance ab' a st)
   }"

text \<open>Total and free moved together.\<close>

definition balance_add :: "rounding \<Rightarrow> decimal \<Rightarrow> balance \<Rightarrow> balance option" where
  "balance_add R amount b = do {
     t \<leftarrow> dec_add R (bl_total b) amount;
     f \<leftarrow> dec_add R (bl_free b) amount;
     Some (b\<lparr>bl_total := t, bl_free := f\<rparr>)
   }"

definition charge ::
  "rounding \<Rightarrow> asset_name \<Rightarrow> decimal \<Rightarrow> time \<Rightarrow> ('e, 'f) account_state
     \<Rightarrow> (name_balance \<times> ('e, 'f) account_state) option" where
  "charge R a amount t st = do {
     ab \<leftarrow> ac_balances st a;
     b \<leftarrow> balance_add R amount (ab_balance ab);
     let ab' = ab\<lparr>ab_balance := b, ab_time_exchange := t\<rparr>;
     Some (ab', put_balance ab' a st)
   }"

text \<open>Repays a loan out of a balance, interest first; says whether it cleared the principal.\<close>

definition repay :: "rounding \<Rightarrow> balance \<Rightarrow> decimal \<Rightarrow> (bool \<times> balance) option" where
  "repay R b available =
     (case bl_margin b of
        None \<Rightarrow> Some (False, b)
      | Some m \<Rightarrow> do {
          let avail = max available 0;
          let interest = min (md_interest m) avail;
          rest \<leftarrow> dec_sub R avail interest;
          let principal = min (md_borrowed m) rest;
          i \<leftarrow> dec_sub R (md_interest m) interest;
          p \<leftarrow> dec_sub R (md_borrowed m) principal;
          repaid \<leftarrow> dec_add R interest principal;
          t \<leftarrow> dec_sub R (bl_total b) repaid;
          f \<leftarrow> dec_sub R (bl_free b) repaid;
          Some (principal > 0 \<and> p = 0, b\<lparr>bl_margin := Some \<lparr>md_borrowed = p, md_interest = i\<rparr>,
            bl_total := t, bl_free := f\<rparr>)
        })"

definition balance_or_open :: "asset_name \<Rightarrow> time \<Rightarrow> ('e, 'f) account_state \<Rightarrow> name_balance" where
  "balance_or_open a t st =
     (case ac_balances st a of
        Some ab \<Rightarrow> ab
      | None \<Rightarrow> \<lparr>ab_asset = a, ab_balance = (balance_new 0 0)\<lparr>bl_margin :=
          (if ac_margin st then Some margin_details_default else None)\<rparr>, ab_time_exchange = t\<rparr>)"

definition deliver ::
  "rounding \<Rightarrow> delivery \<Rightarrow> margin_effect \<Rightarrow> time \<Rightarrow> ('e, 'f) account_state
     \<Rightarrow> (name_balance \<times> ('e, 'f) account_state) option" where
  "deliver R d effect t st = do {
     let ab = balance_or_open (dl_asset d) t st;
     b \<leftarrow> balance_add R (dl_amount d) (ab_balance ab);
     (cleared, b') \<leftarrow> (if ac_margin st \<and> effect = Repay then repay R b (dl_amount d) else Some (False, b));
     let ab' = ab\<lparr>ab_balance := b', ab_time_exchange := t\<rparr>;
     Some (ab', count_loan_change cleared (put_balance ab' (dl_asset d) st))
   }"

definition repay_loan ::
  "rounding \<Rightarrow> asset_name \<Rightarrow> decimal \<Rightarrow> time \<Rightarrow> ('e, 'f) account_state
     \<Rightarrow> (name_balance \<times> ('e, 'f) account_state) option" where
  "repay_loan R a amount t st = do {
     ab \<leftarrow> ac_balances st a;
     (cleared, b') \<leftarrow> repay R (ab_balance ab) (min amount (bl_free (ab_balance ab)));
     let ab' = ab\<lparr>ab_balance := b', ab_time_exchange := t\<rparr>;
     Some (ab', count_loan_change cleared (put_balance ab' a st))
   }"

definition release_reservation ::
  "rounding \<Rightarrow> 'f reservation \<Rightarrow> bool \<Rightarrow> time \<Rightarrow> ('e, 'f) account_state
     \<Rightarrow> (name_balance \<times> ('e, 'f) account_state) option" where
  "release_reservation R r auto_repay t st = do {
     (released, st1) \<leftarrow> release R (rv_asset r) (rv_amount r) t st;
     if auto_repay then do {
       loan \<leftarrow> reservation_loan R r;
       if loan = 0 then Some (released, st1) else repay_loan R (rv_asset r) loan t st1
     } else Some (released, st1)
   }"

definition borrow :: "rounding \<Rightarrow> asset_name \<Rightarrow> decimal \<Rightarrow> time \<Rightarrow> ('e, 'f) account_state \<Rightarrow> ('e, 'f) account_state option" where
  "borrow R a amount t st = do {
     let ab = balance_or_open a t st;
     b \<leftarrow> balance_add R amount (ab_balance ab);
     let m = (case bl_margin b of None \<Rightarrow> margin_details_default | Some m \<Rightarrow> m);
     p \<leftarrow> dec_add R (md_borrowed m) amount;
     Some (count_loan_change (md_borrowed m = 0)
       (put_balance (ab\<lparr>ab_balance := b\<lparr>bl_margin := Some (m\<lparr>md_borrowed := p\<rparr>)\<rparr>\<rparr>) a st))
   }"

section \<open>One arriving order\<close>

text \<open>The loan the arrival takes and what of it is beyond its shortfall, or the refusal.\<close>

definition commit_lent ::
  "rounding \<Rightarrow> debit \<Rightarrow> decimal \<Rightarrow> decimal \<Rightarrow> margin_effect \<Rightarrow> lending \<Rightarrow> ('e, 'f) account_state
     \<Rightarrow> (balance_insufficient + decimal \<times> decimal) option" where
  "commit_lent R d required funding effect l st = do {
     let lends = (ac_margin st \<and> effect = Borrow);
     free \<leftarrow> (if ac_margin st then Some (account_free (db_asset d) st)
       else map_option (\<lambda>ab. bl_free (ab_balance ab)) (ac_balances st (db_asset d)));
     capped \<leftarrow> (case ln_max_borrow l of
         None \<Rightarrow> Some None
       | Some cap \<Rightarrow> do {
           room \<leftarrow> cap_room R (db_asset d) cap st;
           Some (if room < ln_borrowable l then Some room else None) });
     let lendable = (case capped of None \<Rightarrow> ln_borrowable l | Some room \<Rightarrow> room);
     covered \<leftarrow> dec_add R free funding;
     shortfall \<leftarrow> dec_sub R required covered;
     let loan = max shortfall (ln_min_borrow l);
     if \<not> 0 < shortfall then Some (Inr (0, 0))
     else if lends \<and> loan \<le> lendable then do {
       excess \<leftarrow> dec_sub R loan shortfall;
       Some (Inr (loan, excess)) }
     else Some (Inl \<lparr>bi_asset = db_asset d, bi_free = covered, bi_required = required,
       bi_borrowable = (if lends then Some (max lendable 0) else None),
       bi_min_borrow = (if lends \<and> shortfall \<le> lendable then Some (ln_min_borrow l) else None),
       bi_max_borrow = (if lends \<and> capped \<noteq> None then ln_max_borrow l else None)\<rparr>)
   }"

text \<open>A delivery that takes more than it gives must be covered too.\<close>

definition commit_covers ::
  "rounding \<Rightarrow> delivery option \<Rightarrow> ('e, 'f) account_state \<Rightarrow> (balance_insufficient + unit) option" where
  "commit_covers R delivery st =
     (case delivery of
        None \<Rightarrow> Some (Inr ())
      | Some x \<Rightarrow>
          if dl_amount x < 0 then do {
            left \<leftarrow> dec_add R (account_free (dl_asset x) st) (dl_amount x);
            Some (if left < 0 then Inl \<lparr>bi_asset = dl_asset x, bi_free = account_free (dl_asset x) st,
              bi_required = - dl_amount x, bi_borrowable = None, bi_min_borrow = None, bi_max_borrow = None\<rparr>
            else Inr ()) }
          else Some (Inr ()))"

definition commit_apply ::
  "rounding \<Rightarrow> debit \<Rightarrow> decimal \<Rightarrow> decimal \<Rightarrow> delivery option \<Rightarrow> margin_effect \<Rightarrow> decimal \<times> decimal \<Rightarrow> time
     \<Rightarrow> ('e, 'f) account_state \<Rightarrow> ((balance_insufficient + committed) \<times> ('e, 'f) account_state) option" where
  "commit_apply R d required funding delivery effect lent t st = do {
     st1 \<leftarrow> (if fst lent \<noteq> 0 then borrow R (db_asset d) (fst lent) t st else Some st);
     st2 \<leftarrow> (if funding \<noteq> 0 then do {
         ab \<leftarrow> ac_balances st1 (db_asset d);
         b \<leftarrow> balance_add R funding (ab_balance ab);
         Some (put_balance (ab\<lparr>ab_balance := b\<rparr>) (db_asset d) st1) }
       else Some st1);
     (reserved, st3) \<leftarrow> reserve R (db_asset d) required t st2;
     (case reserved of
        Inl e \<Rightarrow> Some (Inl e, st3)
      | Inr _ \<Rightarrow> do {
          (paid, st4) \<leftarrow> settle R (db_asset d) (db_settled d) t st3;
          (received, st5) \<leftarrow> (case delivery of
              None \<Rightarrow> Some (None, st4)
            | Some x \<Rightarrow> do { (ab, st5) \<leftarrow> deliver R x effect t st4; Some (Some ab, st5) });
          Some (Inr \<lparr>cm_paid = paid, cm_received = received, cm_borrowed = fst lent,
            cm_excess_borrowed = snd lent\<rparr>, st5)
        })
   }"

definition commit ::
  "rounding \<Rightarrow> debit \<Rightarrow> credit option \<Rightarrow> margin_effect \<Rightarrow> lending \<Rightarrow> time \<Rightarrow> ('e, 'f) account_state
     \<Rightarrow> ((balance_insufficient + committed) \<times> ('e, 'f) account_state) option" where
  "commit R d credit effect l t st = do {
     let funding = (case credit of Some (PaidBack x) \<Rightarrow> x | _ \<Rightarrow> 0);
     let delivery = (case credit of Some (Deliver x) \<Rightarrow> Some x | _ \<Rightarrow> None);
     required \<leftarrow> dec_add R (db_settled d) (db_reserved d);
     lent \<leftarrow> commit_lent R d required funding effect l st;
     (case lent of
        Inl e \<Rightarrow> Some (Inl e, st)
      | Inr loan \<Rightarrow> do {
          covers \<leftarrow> commit_covers R delivery st;
          (case covers of
             Inl e \<Rightarrow> Some (Inl e, st)
           | Inr _ \<Rightarrow> commit_apply R d required funding delivery effect loan t st)
        })
   }"

section \<open>Open orders and the ledgers of orders that ended\<close>

definition forget_ended :: "client_order_id \<Rightarrow> ('e, 'f) account_state \<Rightarrow> ('e, 'f) account_state" where
  "forget_ended c st = st\<lparr>ac_orders_cancelled := (ac_orders_cancelled st)(c := None),
     ac_orders_filled := (ac_orders_filled st)(c := None),
     ac_orders_expired := (ac_orders_expired st)(c := None)\<rparr>"

definition remove_order ::
  "client_order_id \<Rightarrow> ('e, 'f) account_state \<Rightarrow> ('e, 'f) resting_order option \<times> ('e, 'f) account_state" where
  "remove_order c st = (case oo_remove c (ac_orders_open st) of (r, b) \<Rightarrow> (r, st\<lparr>ac_orders_open := b\<rparr>))"

definition account_book ::
  "'e open_order \<Rightarrow> 'f reservation option \<Rightarrow> ('e, 'f) account_state
     \<Rightarrow> (('e, 'f) resting_order + unit) \<times> ('e, 'f) account_state" where
  "account_book ord res st =
     (case oo_insert ord res (ac_orders_open st) of
        (Inl e, b) \<Rightarrow> (Inl e, st\<lparr>ac_orders_open := b\<rparr>)
      | (Inr _, b) \<Rightarrow> (Inr (), forget_ended (cid_of ord) (st\<lparr>ac_orders_open := b\<rparr>)))"

definition account_hold ::
  "'e open_order \<Rightarrow> 'f reservation option \<Rightarrow> ('e, 'f) account_state
     \<Rightarrow> (('e, 'f) resting_order + unit) \<times> ('e, 'f) account_state" where
  "account_hold ord res st =
     (case oo_hold ord res (ac_orders_open st) of
        (Inl e, b) \<Rightarrow> (Inl e, st\<lparr>ac_orders_open := b\<rparr>)
      | (Inr _, b) \<Rightarrow> (Inr (), forget_ended (cid_of ord) (st\<lparr>ac_orders_open := b\<rparr>)))"

definition account_take_held ::
  "instrument_name \<Rightarrow> ('e, 'f) account_state \<Rightarrow> client_order_id list \<times> ('e, 'f) account_state" where
  "account_take_held i st = (case oo_take_held i (ac_orders_open st) of (l, b) \<Rightarrow> (l, st\<lparr>ac_orders_open := b\<rparr>))"

definition ack_cancelled :: "('e, instrument_name, ended_state) order \<Rightarrow> ('e, 'f) account_state \<Rightarrow> ('e, 'f) account_state" where
  "ack_cancelled ord st = (let st1 = forget_ended (key_cid (o_key ord)) st in
     st1\<lparr>ac_orders_cancelled := (ac_orders_cancelled st1)(key_cid (o_key ord) \<mapsto> ord)\<rparr>)"

definition ack_filled :: "('e, instrument_name, filled_state) order \<Rightarrow> ('e, 'f) account_state \<Rightarrow> ('e, 'f) account_state" where
  "ack_filled ord st = (let st1 = forget_ended (key_cid (o_key ord)) st in
     st1\<lparr>ac_orders_filled := (ac_orders_filled st1)(key_cid (o_key ord) \<mapsto> ord)\<rparr>)"

definition ack_expired :: "('e, instrument_name, ended_state) order \<Rightarrow> ('e, 'f) account_state \<Rightarrow> ('e, 'f) account_state" where
  "ack_expired ord st = (let st1 = forget_ended (key_cid (o_key ord)) st in
     st1\<lparr>ac_orders_expired := (ac_orders_expired st1)(key_cid (o_key ord) \<mapsto> ord)\<rparr>)"

definition is_cancelled :: "client_order_id \<Rightarrow> ('e, 'f) account_state \<Rightarrow> bool" where
  "is_cancelled c st \<longleftrightarrow> ac_orders_cancelled st c \<noteq> None"

definition is_filled :: "client_order_id \<Rightarrow> ('e, 'f) account_state \<Rightarrow> bool" where
  "is_filled c st \<longleftrightarrow> ac_orders_filled st c \<noteq> None"

definition is_expired :: "client_order_id \<Rightarrow> ('e, 'f) account_state \<Rightarrow> bool" where
  "is_expired c st \<longleftrightarrow> ac_orders_expired st c \<noteq> None"

definition order_ended ::
  "client_order_id \<Rightarrow> ('e, 'f) account_state
     \<Rightarrow> ('e, instrument_name, (asset_name, instrument_name) inactive_order_state) order option" where
  "order_ended c st =
     (if oo_contains c (ac_orders_open st) then None
      else case ac_orders_filled st c of
        Some f \<Rightarrow> Some (map_state FullyFilled f)
      | None \<Rightarrow> (case ac_orders_cancelled st c of
          Some x \<Rightarrow> Some (map_state Cancelled x)
        | None \<Rightarrow> map_option (map_state Expired) (ac_orders_expired st c)))"

definition account_trades ::
  "time \<Rightarrow> ('e, 'f) account_state \<Rightarrow> (asset_name, instrument_name) trade list" where
  "account_trades since st = filter (\<lambda>t. since \<le> tr_time_exchange t) (ac_trades st)"

definition ack_trade :: "(asset_name, instrument_name) trade \<Rightarrow> ('e, 'f) account_state \<Rightarrow> ('e, 'f) account_state" where
  "ack_trade t st = st\<lparr>ac_trades := ac_trades st @ [t]\<rparr>"

section \<open>Seeding an account\<close>

definition as_open :: "('e, 'i, 'a) order_snapshot \<Rightarrow> ('e, 'i, open_state) order option" where
  "as_open ord = (case o_state ord of Active (Open s) \<Rightarrow> Some (map_state (\<lambda>_. s) ord) | _ \<Rightarrow> None)"

type_synonym ('e, 'f) seeded =
  "('e, 'f) open_orders \<times> (client_order_id \<rightharpoonup> ('e, instrument_name, ended_state) order)"

text \<open>One order of the snapshot; an error names the id listed twice.\<close>

definition seed_order ::
  "('e, instrument_name, asset_name) order_snapshot \<Rightarrow> ('e, 'f) seeded \<Rightarrow> client_order_id + ('e, 'f) seeded" where
  "seed_order ord s = (case s of (orders, cancelled) \<Rightarrow> let c = key_cid (o_key ord) in
     (case o_state ord of
        Active _ \<Rightarrow>
          (case as_open ord of
             None \<Rightarrow> Inr (orders, cancelled)
           | Some op \<Rightarrow>
               if cancelled c \<noteq> None then Inl c
               else (case oo_insert op None orders of
                   (Inl _, _) \<Rightarrow> Inl c
                 | (Inr _, orders') \<Rightarrow> Inr (orders', cancelled)))
      | Inactive (Cancelled x) \<Rightarrow>
          if oo_contains c orders \<or> cancelled c \<noteq> None then Inl c
          else Inr (orders, cancelled(c \<mapsto> map_state (\<lambda>_. x) ord))
      | Inactive _ \<Rightarrow> Inr (orders, cancelled)))"

fun seed_orders ::
  "('e, instrument_name, asset_name) order_snapshot list \<Rightarrow> ('e, 'f) seeded \<Rightarrow> client_order_id + ('e, 'f) seeded" where
  "seed_orders [] s = Inr s"
| "seed_orders (ord # ords) s = (case seed_order ord s of Inl c \<Rightarrow> Inl c | Inr s' \<Rightarrow> seed_orders ords s')"

definition account_seed ::
  "name_balance list \<Rightarrow> ('e, instrument_name, asset_name) order_snapshot list
     \<Rightarrow> client_order_id + ('e, 'f) account_state" where
  "account_seed balances ords =
     (case seed_orders ords (open_orders_default, Map.empty) of
        Inl c \<Rightarrow> Inl c
      | Inr (orders, cancelled) \<Rightarrow> Inr \<lparr>
          ac_balances = map_of (rev (map (\<lambda>ab. (ab_asset ab, ab)) balances)), ac_orders_open = orders,
          ac_orders_cancelled = cancelled, ac_orders_filled = Map.empty, ac_orders_expired = Map.empty,
          ac_trades = [], ac_margin = False, ac_loans_changed = 0\<rparr>)"

end
