(* ===== verification/Account_Ledger.thy ===== *)
theory Account_Ledger
  imports Mock_Account
begin

text \<open>
  What the account of the simulated venue promises: how each operation moves an asset's total,
  free balance and loan, that an arriving order is committed whole or not at all, and that an id
  is in at most one place.
\<close>

section \<open>Reading the ledger\<close>

definition principal :: "balance \<Rightarrow> decimal" where
  "principal b = (case bl_margin b of None \<Rightarrow> 0 | Some m \<Rightarrow> md_borrowed m)"

definition owed_interest :: "balance \<Rightarrow> decimal" where
  "owed_interest b = (case bl_margin b of None \<Rightarrow> 0 | Some m \<Rightarrow> md_interest m)"

definition held_balance :: "asset_name \<Rightarrow> ('e, 'f) account_state \<Rightarrow> balance" where
  "held_balance a st = (case ac_balances st a of None \<Rightarrow> balance_new 0 0 | Some ab \<Rightarrow> ab_balance ab)"

abbreviation total_of :: "asset_name \<Rightarrow> ('e, 'f) account_state \<Rightarrow> decimal" where
  "total_of a st \<equiv> bl_total (held_balance a st)"

abbreviation free_of :: "asset_name \<Rightarrow> ('e, 'f) account_state \<Rightarrow> decimal" where
  "free_of a st \<equiv> bl_free (held_balance a st)"

abbreviation principal_of :: "asset_name \<Rightarrow> ('e, 'f) account_state \<Rightarrow> decimal" where
  "principal_of a st \<equiv> principal (held_balance a st)"

abbreviation interest_of :: "asset_name \<Rightarrow> ('e, 'f) account_state \<Rightarrow> decimal" where
  "interest_of a st \<equiv> owed_interest (held_balance a st)"

definition net_of :: "asset_name \<Rightarrow> ('e, 'f) account_state \<Rightarrow> decimal" where
  "net_of a st = total_of a st - principal_of a st - interest_of a st"

lemma account_free_of: "account_free a st = free_of a st"
  by (simp add: account_free_def held_balance_def balance_new_def split: option.split)

lemma account_owed_of: "account_owed Some a st = Some (principal_of a st + interest_of a st)"
  by (simp add: account_owed_def held_balance_def principal_def owed_interest_def balance_new_def
      margin_owed_def dec_simps split: option.split)

lemma net_asset_exact: "net_asset Some b = Some (bl_total b - principal b - owed_interest b)"
  by (simp add: net_asset_def principal_def owed_interest_def margin_owed_def dec_simps split: option.split)

text \<open>Every balance is filed under its asset and sound.\<close>

definition ledger_ok :: "('e, 'f) account_state \<Rightarrow> bool" where
  "ledger_ok st \<longleftrightarrow> (\<forall>a ab. ac_balances st a = Some ab \<longrightarrow> ab_asset ab = a \<and> balance_ok (ab_balance ab))"

lemma held_ok: "ledger_ok st \<Longrightarrow> balance_ok (held_balance a st)"
  by (auto simp: ledger_ok_def held_balance_def balance_ok_def balance_new_def split: option.splits)

lemma balance_ok_bounds:
  "balance_ok b \<Longrightarrow> bl_free b \<le> bl_total b \<and> 0 \<le> principal b \<and> 0 \<le> owed_interest b"
  by (auto simp: balance_ok_def principal_def owed_interest_def split: option.splits)

text \<open>One asset moved by the given amounts, everything else as it was.\<close>

definition moved ::
  "asset_name \<Rightarrow> decimal \<Rightarrow> decimal \<Rightarrow> decimal \<Rightarrow> decimal \<Rightarrow> ('e, 'f) account_state \<Rightarrow> ('e, 'f) account_state \<Rightarrow> bool" where
  "moved a dt df dp di st st' \<longleftrightarrow>
     (\<exists>ab n. st' = (put_balance ab a st)\<lparr>ac_loans_changed := n\<rparr> \<and>
       (\<forall>ab0. ac_balances st a = Some ab0 \<longrightarrow> ab_asset ab = ab_asset ab0) \<and>
       (ac_balances st a = None \<longrightarrow> ab_asset ab = a) \<and>
       bl_total (ab_balance ab) = total_of a st + dt \<and> bl_free (ab_balance ab) = free_of a st + df \<and>
       principal (ab_balance ab) = principal_of a st + dp \<and>
       owed_interest (ab_balance ab) = interest_of a st + di)"

lemma movedE:
  assumes "moved a dt df dp di st st'"
  obtains ab n where "st' = (put_balance ab a st)\<lparr>ac_loans_changed := n\<rparr>"
    and "\<forall>ab0. ac_balances st a = Some ab0 \<longrightarrow> ab_asset ab = ab_asset ab0"
    and "ac_balances st a = None \<longrightarrow> ab_asset ab = a"
    and "bl_total (ab_balance ab) = total_of a st + dt" and "bl_free (ab_balance ab) = free_of a st + df"
    and "principal (ab_balance ab) = principal_of a st + dp"
    and "owed_interest (ab_balance ab) = interest_of a st + di"
  using assms unfolding moved_def by (elim exE conjE) (rule that)

lemma moved_readers:
  assumes "moved a dt df dp di st st'"
  shows "total_of b st' = total_of b st + (if b = a then dt else 0)"
    and "free_of b st' = free_of b st + (if b = a then df else 0)"
    and "principal_of b st' = principal_of b st + (if b = a then dp else 0)"
    and "interest_of b st' = interest_of b st + (if b = a then di else 0)"
    and "ac_margin st' = ac_margin st" and "ac_orders_open st' = ac_orders_open st"
    and "ac_orders_cancelled st' = ac_orders_cancelled st" and "ac_orders_filled st' = ac_orders_filled st"
    and "ac_orders_expired st' = ac_orders_expired st" and "ac_trades st' = ac_trades st"
    and "dom (ac_balances st') = insert a (dom (ac_balances st))"
  using assms by (auto simp: moved_def put_balance_def held_balance_def)

lemma moved_trans:
  assumes "moved a dt df dp di st st1" and "moved a dt' df' dp' di' st1 st2"
  shows "moved a (dt + dt') (df + df') (dp + dp') (di + di') st st2"
proof -
  obtain ab n where 1: "st1 = (put_balance ab a st)\<lparr>ac_loans_changed := n\<rparr>"
      "\<forall>ab0. ac_balances st a = Some ab0 \<longrightarrow> ab_asset ab = ab_asset ab0"
      "ac_balances st a = None \<longrightarrow> ab_asset ab = a"
    using assms(1) by (rule movedE)
  obtain ab' n' where 2: "st2 = (put_balance ab' a st1)\<lparr>ac_loans_changed := n'\<rparr>"
      "\<forall>ab0. ac_balances st1 a = Some ab0 \<longrightarrow> ab_asset ab' = ab_asset ab0"
      "bl_total (ab_balance ab') = total_of a st1 + dt'" "bl_free (ab_balance ab') = free_of a st1 + df'"
      "principal (ab_balance ab') = principal_of a st1 + dp'"
      "owed_interest (ab_balance ab') = interest_of a st1 + di'"
    using assms(2) by (rule movedE)
  have "ab_asset ab' = ab_asset ab" using 2(2) 1(1) by (simp add: put_balance_def)
  moreover have "st2 = (put_balance ab' a st)\<lparr>ac_loans_changed := n'\<rparr>"
    by (simp add: 2(1) 1(1) put_balance_def)
  ultimately show ?thesis
    unfolding moved_def using 1(2,3) 2(3-6) moved_readers(1-4) [OF assms(1), of a]
    by (intro exI [of _ ab'] exI [of _ n']) simp
qed

lemma moved_ok:
  assumes "ledger_ok st" and "moved a dt df dp di st st'"
    and "free_of a st + df \<le> total_of a st + dt" and "0 \<le> principal_of a st + dp" and "0 \<le> interest_of a st + di"
  shows "ledger_ok st'"
proof -
  obtain ab n where ab: "st' = (put_balance ab a st)\<lparr>ac_loans_changed := n\<rparr>"
      "\<forall>ab0. ac_balances st a = Some ab0 \<longrightarrow> ab_asset ab = ab_asset ab0"
      "ac_balances st a = None \<longrightarrow> ab_asset ab = a"
      "bl_total (ab_balance ab) = total_of a st + dt" "bl_free (ab_balance ab) = free_of a st + df"
      "principal (ab_balance ab) = principal_of a st + dp" "owed_interest (ab_balance ab) = interest_of a st + di"
    using assms(2) by (rule movedE)
  have "ab_asset ab = a" using ab(2,3) assms(1) by (cases "ac_balances st a") (auto simp: ledger_ok_def)
  moreover have "balance_ok (ab_balance ab)"
    using assms(3-5) ab(4-7) by (auto simp: balance_ok_def principal_def owed_interest_def split: option.splits)
  ultimately show ?thesis using assms(1) by (auto simp: ledger_ok_def ab(1) put_balance_def)
qed

section \<open>What each operation moves\<close>

lemma movedI:
  assumes "st' = (put_balance ab a st)\<lparr>ac_loans_changed := n\<rparr>"
    and "ab_asset ab = ab_asset (balance_or_open a t st)"
    and "bl_total (ab_balance ab) = total_of a st + dt" and "bl_free (ab_balance ab) = free_of a st + df"
    and "principal (ab_balance ab) = principal_of a st + dp" and "owed_interest (ab_balance ab) = interest_of a st + di"
  shows "moved a dt df dp di st st'"
  unfolding moved_def using assms
  by (intro exI [of _ ab] exI [of _ n]) (auto simp: balance_or_open_def)

lemma put_balance_loans: "put_balance ab a st = (put_balance ab a st)\<lparr>ac_loans_changed := ac_loans_changed st\<rparr>"
  by (simp add: put_balance_def)

lemma count_put: "count_loan_change c (put_balance ab a st) =
    (put_balance ab a st)\<lparr>ac_loans_changed := ac_loans_changed st + (if c then 1 else 0)\<rparr>"
  by (simp add: put_balance_def count_loan_change_def)

lemmas held_Some = held_balance_def balance_or_open_def principal_def owed_interest_def

lemma reserve_moves:
  assumes "ac_balances st a = Some ab" and "x \<le> free_of a st"
  obtains ab' st' where "reserve Some a x t st = Some (Inr ab', st')" and "moved a 0 (- x) 0 0 st st'"
    and "ac_balances st' a = Some ab'"
proof -
  let ?ab = "ab\<lparr>ab_balance := (ab_balance ab)\<lparr>bl_free := bl_free (ab_balance ab) - x\<rparr>, ab_time_exchange := t\<rparr>"
  have "reserve Some a x t st = Some (Inr ?ab, put_balance ?ab a st)"
    using assms by (simp add: reserve_def held_Some dec_simps Let_def)
  moreover have "moved a 0 (- x) 0 0 st (put_balance ?ab a st)"
    using assms(1) by (intro movedI [OF put_balance_loans, where t = t]) (simp_all add: held_Some)
  ultimately show thesis by (rule that) (simp add: put_balance_def)
qed

lemma settle_moves:
  assumes "ac_balances st a = Some ab"
  obtains ab' st' where "settle Some a x t st = Some (ab', st')" and "moved a (- x) 0 0 0 st st'"
    and "ac_balances st' a = Some ab'"
proof -
  let ?ab = "ab\<lparr>ab_balance := (ab_balance ab)\<lparr>bl_total := bl_total (ab_balance ab) - x\<rparr>, ab_time_exchange := t\<rparr>"
  have "settle Some a x t st = Some (?ab, put_balance ?ab a st)"
    using assms by (simp add: settle_def dec_simps Let_def)
  moreover have "moved a (- x) 0 0 0 st (put_balance ?ab a st)"
    using assms by (intro movedI [OF put_balance_loans, where t = t]) (simp_all add: held_Some)
  ultimately show thesis by (rule that) (simp add: put_balance_def)
qed

lemma release_moves:
  assumes "ac_balances st a = Some ab"
  obtains ab' st' where "release Some a x t st = Some (ab', st')" and "moved a 0 x 0 0 st st'"
    and "ac_balances st' a = Some ab'"
proof -
  let ?ab = "ab\<lparr>ab_balance := (ab_balance ab)\<lparr>bl_free := bl_free (ab_balance ab) + x\<rparr>, ab_time_exchange := t\<rparr>"
  have "release Some a x t st = Some (?ab, put_balance ?ab a st)"
    using assms by (simp add: release_def dec_simps Let_def)
  moreover have "moved a 0 x 0 0 st (put_balance ?ab a st)"
    using assms by (intro movedI [OF put_balance_loans, where t = t]) (simp_all add: held_Some)
  ultimately show thesis by (rule that) (simp add: put_balance_def)
qed

lemma charge_moves:
  assumes "ac_balances st a = Some ab"
  obtains ab' st' where "charge Some a x t st = Some (ab', st')" and "moved a x x 0 0 st st'"
    and "ac_balances st' a = Some ab'"
proof -
  let ?ab = "ab\<lparr>ab_balance := (ab_balance ab)\<lparr>bl_total := bl_total (ab_balance ab) + x,
    bl_free := bl_free (ab_balance ab) + x\<rparr>, ab_time_exchange := t\<rparr>"
  have "charge Some a x t st = Some (?ab, put_balance ?ab a st)"
    using assms by (simp add: charge_def balance_add_def dec_simps Let_def)
  moreover have "moved a x x 0 0 st (put_balance ?ab a st)"
    using assms by (intro movedI [OF put_balance_loans, where t = t]) (simp_all add: held_Some)
  ultimately show thesis by (rule that) (simp add: put_balance_def)
qed

lemma charge_interest_moves:
  assumes "ac_balances st a = Some ab"
  obtains ab' st' where "charge_interest Some a x t st = Some (ab', st')" and "moved a 0 0 0 x st st'"
    and "ac_balances st' a = Some ab'"
proof -
  let ?m = "case bl_margin (ab_balance ab) of None \<Rightarrow> margin_details_default | Some m \<Rightarrow> m"
  let ?ab = "ab\<lparr>ab_balance := (ab_balance ab)\<lparr>bl_margin := Some (?m\<lparr>md_interest := md_interest ?m + x\<rparr>)\<rparr>,
    ab_time_exchange := t\<rparr>"
  have "charge_interest Some a x t st = Some (?ab, put_balance ?ab a st)"
    using assms by (simp add: charge_interest_def dec_simps Let_def)
  moreover have "moved a 0 0 0 x st (put_balance ?ab a st)"
    using assms by (intro movedI [OF put_balance_loans, where t = t])
      (simp_all add: held_Some margin_details_default_def split: option.split)
  ultimately show thesis by (rule that) (simp add: put_balance_def)
qed

text \<open>What an amount repays of a loan: its interest first, then its principal.\<close>

definition repaid_interest :: "balance \<Rightarrow> decimal \<Rightarrow> decimal" where
  "repaid_interest b available = min (owed_interest b) (max available 0)"

definition repaid_principal :: "balance \<Rightarrow> decimal \<Rightarrow> decimal" where
  "repaid_principal b available = min (principal b) (max available 0 - repaid_interest b available)"

lemma principal_upd [simp]:
  "principal (b\<lparr>bl_total := t\<rparr>) = principal b" "principal (b\<lparr>bl_free := t\<rparr>) = principal b"
  "owed_interest (b\<lparr>bl_total := t\<rparr>) = owed_interest b" "owed_interest (b\<lparr>bl_free := t\<rparr>) = owed_interest b"
  "principal (b\<lparr>bl_margin := Some m\<rparr>) = md_borrowed m" "owed_interest (b\<lparr>bl_margin := Some m\<rparr>) = md_interest m"
  by (simp_all add: principal_def owed_interest_def)

lemma repay_exact:
  obtains cleared b' where "repay Some b x = Some (cleared, b')"
    and "bl_total b' = bl_total b - (repaid_interest b x + repaid_principal b x)"
    and "bl_free b' = bl_free b - (repaid_interest b x + repaid_principal b x)"
    and "principal b' = principal b - repaid_principal b x"
    and "owed_interest b' = owed_interest b - repaid_interest b x"
proof (cases "bl_margin b")
  case None
  then have "repay Some b x = Some (False, b)" by (simp add: repay_def)
  moreover have "repaid_interest b x = 0" "repaid_principal b x = 0"
    using None by (simp_all add: repaid_interest_def repaid_principal_def principal_def owed_interest_def)
  ultimately show thesis by (intro that [of False b]) simp_all
next
  case (Some m)
  then have m: "principal b = md_borrowed m" "owed_interest b = md_interest m"
    by (simp_all add: principal_def owed_interest_def)
  define i where "i = repaid_interest b x"
  define p where "p = repaid_principal b x"
  have i: "min (md_interest m) (max x 0) = i" by (simp add: i_def repaid_interest_def m)
  have p: "min (md_borrowed m) (max x 0 - i) = p" by (simp add: p_def repaid_principal_def i_def [symmetric] m)
  let ?b = "b\<lparr>bl_margin := Some \<lparr>md_borrowed = md_borrowed m - p, md_interest = md_interest m - i\<rparr>,
    bl_total := bl_total b - (i + p), bl_free := bl_free b - (i + p)\<rparr>"
  have "repay Some b x = Some (p > 0 \<and> md_borrowed m - p = 0, ?b)"
    using Some by (simp add: repay_def dec_simps Let_def i p del: min_less_iff_conj)
  then show thesis
    unfolding i_def p_def by (rule that) (simp_all add: m)
qed

lemma opened_balance:
  "bl_total (ab_balance (balance_or_open a t st)) = total_of a st"
  "bl_free (ab_balance (balance_or_open a t st)) = free_of a st"
  "principal (ab_balance (balance_or_open a t st)) = principal_of a st"
  "owed_interest (ab_balance (balance_or_open a t st)) = interest_of a st"
  by (simp_all add: held_Some balance_new_def margin_details_default_def split: option.split)

lemma repaid_cong:
  assumes "principal b = principal b'" and "owed_interest b = owed_interest b'"
  shows "repaid_interest b x = repaid_interest b' x" and "repaid_principal b x = repaid_principal b' x"
  using assms by (simp_all add: repaid_interest_def repaid_principal_def)

lemma balance_add_exact:
  "balance_add Some x b = Some (b\<lparr>bl_total := bl_total b + x, bl_free := bl_free b + x\<rparr>)"
  by (simp add: balance_add_def dec_simps)

lemma borrow_moves:
  obtains st' where "borrow Some a x t st = Some st'" and "moved a x x x 0 st st'"
proof -
  let ?b = "ab_balance (balance_or_open a t st)"
  let ?m = "case bl_margin ?b of None \<Rightarrow> margin_details_default | Some m \<Rightarrow> m"
  let ?ab = "(balance_or_open a t st)\<lparr>ab_balance := ?b\<lparr>bl_total := bl_total ?b + x, bl_free := bl_free ?b + x,
    bl_margin := Some (?m\<lparr>md_borrowed := md_borrowed ?m + x\<rparr>)\<rparr>\<rparr>"
  have m: "md_borrowed ?m = principal ?b" "md_interest ?m = owed_interest ?b"
    by (simp_all add: principal_def owed_interest_def margin_details_default_def split: option.split)
  have "borrow Some a x t st = Some (count_loan_change (md_borrowed ?m = 0) (put_balance ?ab a st))"
    by (simp add: borrow_def balance_add_exact dec_simps Let_def)
  moreover have "moved a x x x 0 st (count_loan_change (md_borrowed ?m = 0) (put_balance ?ab a st))"
    by (rule movedI [OF count_put, where t = t])
      (simp_all add: opened_balance m)
  ultimately show thesis by (rule that)
qed

definition settles_loan :: "margin_effect \<Rightarrow> ('e, 'f) account_state \<Rightarrow> bool" where
  "settles_loan effect st \<longleftrightarrow> ac_margin st \<and> effect = Repay"

definition delivery_interest :: "delivery \<Rightarrow> margin_effect \<Rightarrow> ('e, 'f) account_state \<Rightarrow> decimal" where
  "delivery_interest d effect st =
     (if settles_loan effect st then repaid_interest (held_balance (dl_asset d) st) (dl_amount d) else 0)"

definition delivery_principal :: "delivery \<Rightarrow> margin_effect \<Rightarrow> ('e, 'f) account_state \<Rightarrow> decimal" where
  "delivery_principal d effect st =
     (if settles_loan effect st then repaid_principal (held_balance (dl_asset d) st) (dl_amount d) else 0)"

lemma deliver_moves:
  fixes d effect and st :: "('e, 'f) account_state"
  defines "i \<equiv> delivery_interest d effect st" and "p \<equiv> delivery_principal d effect st"
  obtains ab' st' where "deliver Some d effect t st = Some (ab', st')"
    and "moved (dl_asset d) (dl_amount d - (i + p)) (dl_amount d - (i + p)) (- p) (- i) st st'"
    and "ac_balances st' (dl_asset d) = Some ab'"
proof -
  let ?ab = "balance_or_open (dl_asset d) t st"
  let ?b = "(ab_balance ?ab)\<lparr>bl_total := bl_total (ab_balance ?ab) + dl_amount d,
    bl_free := bl_free (ab_balance ?ab) + dl_amount d\<rparr>"
  note cong = repaid_cong [OF opened_balance(3,4)]
  have same: "repaid_interest ?b x = repaid_interest (held_balance (dl_asset d) st) x"
    "repaid_principal ?b x = repaid_principal (held_balance (dl_asset d) st) x" for x
    by (rule repaid_cong; simp add: opened_balance)+
  obtain cleared b' where b': "(if settles_loan effect st then repay Some ?b (dl_amount d) else Some (False, ?b)) = Some (cleared, b')"
    "bl_total b' = bl_total ?b - (i + p)" "bl_free b' = bl_free ?b - (i + p)"
    "principal b' = principal ?b - p" "owed_interest b' = owed_interest ?b - i"
  proof (cases "settles_loan effect st")
    case True
    obtain cleared b' where "repay Some ?b (dl_amount d) = Some (cleared, b')"
        "bl_total b' = bl_total ?b - (repaid_interest ?b (dl_amount d) + repaid_principal ?b (dl_amount d))"
        "bl_free b' = bl_free ?b - (repaid_interest ?b (dl_amount d) + repaid_principal ?b (dl_amount d))"
        "principal b' = principal ?b - repaid_principal ?b (dl_amount d)"
        "owed_interest b' = owed_interest ?b - repaid_interest ?b (dl_amount d)"
      by (rule repay_exact)
    with True that show thesis by (simp add: same i_def p_def delivery_interest_def delivery_principal_def)
  next
    case False
    with that show thesis by (simp add: i_def p_def delivery_interest_def delivery_principal_def)
  qed
  let ?ab' = "?ab\<lparr>ab_balance := b', ab_time_exchange := t\<rparr>"
  have "deliver Some d effect t st = Some (?ab', count_loan_change cleared (put_balance ?ab' (dl_asset d) st))"
    using b'(1) by (simp add: deliver_def balance_add_exact settles_loan_def Let_def)
  moreover have "moved (dl_asset d) (dl_amount d - (i + p)) (dl_amount d - (i + p)) (- p) (- i) st
      (count_loan_change cleared (put_balance ?ab' (dl_asset d) st))"
    by (rule movedI [OF count_put, where t = t]) (simp_all add: b'(2-5) opened_balance)
  ultimately show thesis by (rule that) (simp add: put_balance_def count_loan_change_def)
qed

lemma repay_loan_moves:
  fixes a x and st :: "('e, 'f) account_state"
  assumes "ac_balances st a = Some ab"
  defines "i \<equiv> repaid_interest (held_balance a st) (min x (free_of a st))"
    and "p \<equiv> repaid_principal (held_balance a st) (min x (free_of a st))"
  obtains ab' st' where "repay_loan Some a x t st = Some (ab', st')"
    and "moved a (- (i + p)) (- (i + p)) (- p) (- i) st st'" and "ac_balances st' a = Some ab'"
proof -
  have hb: "held_balance a st = ab_balance ab" using assms(1) by (simp add: held_balance_def)
  obtain cleared b' where b': "repay Some (ab_balance ab) (min x (bl_free (ab_balance ab))) = Some (cleared, b')"
      "bl_total b' = bl_total (ab_balance ab) - (i + p)" "bl_free b' = bl_free (ab_balance ab) - (i + p)"
      "principal b' = principal (ab_balance ab) - p" "owed_interest b' = owed_interest (ab_balance ab) - i"
    unfolding i_def p_def hb by (rule repay_exact)
  let ?ab' = "ab\<lparr>ab_balance := b', ab_time_exchange := t\<rparr>"
  have "repay_loan Some a x t st = Some (?ab', count_loan_change cleared (put_balance ?ab' a st))"
    using b'(1) assms(1) by (simp add: repay_loan_def Let_def)
  moreover have "moved a (- (i + p)) (- (i + p)) (- p) (- i) st (count_loan_change cleared (put_balance ?ab' a st))"
    using assms(1) by (intro movedI [OF count_put, where t = t]) (simp_all add: b'(2-5) hb balance_or_open_def)
  ultimately show thesis by (rule that) (simp add: put_balance_def count_loan_change_def)
qed

lemma moved_refl:
  assumes "ac_balances st a = Some ab"
  shows "moved a 0 0 0 0 st st"
proof -
  have "st = (put_balance ab a st)\<lparr>ac_loans_changed := ac_loans_changed st\<rparr>"
    using assms by (simp add: put_balance_def fun_upd_idem)
  then show ?thesis using assms by (intro movedI) (simp_all add: held_Some)
qed

lemma moved_present: "moved a dt df dp di st st' \<Longrightarrow> \<exists>ab. ac_balances st' a = Some ab"
  using moved_readers(11) by blast

section \<open>The commitment of an arriving order\<close>

definition funding_of :: "credit option \<Rightarrow> decimal" where
  "funding_of credit = (case credit of Some (PaidBack x) \<Rightarrow> x | _ \<Rightarrow> 0)"

definition delivery_of :: "credit option \<Rightarrow> delivery option" where
  "delivery_of credit = (case credit of Some (Deliver x) \<Rightarrow> Some x | _ \<Rightarrow> None)"

definition required_of :: "debit \<Rightarrow> decimal" where
  "required_of d = db_settled d + db_reserved d"

text \<open>What the arrival lacks, what the account may lend it, and what it then lends.\<close>

definition shortfall_of :: "debit \<Rightarrow> credit option \<Rightarrow> ('e, 'f) account_state \<Rightarrow> decimal" where
  "shortfall_of d credit st = required_of d - (free_of (db_asset d) st + funding_of credit)"

definition lendable_of :: "debit \<Rightarrow> lending \<Rightarrow> ('e, 'f) account_state \<Rightarrow> decimal" where
  "lendable_of d l st = (case ln_max_borrow l of
       None \<Rightarrow> ln_borrowable l
     | Some cap \<Rightarrow> min (ln_borrowable l)
         (max 0 (cap - (principal_of (db_asset d) st + interest_of (db_asset d) st))))"

definition loan_of :: "debit \<Rightarrow> credit option \<Rightarrow> lending \<Rightarrow> ('e, 'f) account_state \<Rightarrow> decimal" where
  "loan_of d credit l st =
     (if shortfall_of d credit st \<le> 0 then 0 else max (shortfall_of d credit st) (ln_min_borrow l))"

definition lending_refuses ::
  "debit \<Rightarrow> credit option \<Rightarrow> margin_effect \<Rightarrow> lending \<Rightarrow> ('e, 'f) account_state \<Rightarrow> bool" where
  "lending_refuses d credit effect l st \<longleftrightarrow> 0 < shortfall_of d credit st \<and>
     \<not> (ac_margin st \<and> effect = Borrow \<and> loan_of d credit l st \<le> lendable_of d l st)"

definition delivery_refuses :: "credit option \<Rightarrow> ('e, 'f) account_state \<Rightarrow> bool" where
  "delivery_refuses credit st = (case delivery_of credit of
       None \<Rightarrow> False
     | Some x \<Rightarrow> dl_amount x < 0 \<and> free_of (dl_asset x) st + dl_amount x < 0)"

lemma commit_lent_exact:
  assumes "ac_margin st \<or> ac_balances st (db_asset d) \<noteq> None"
  shows "\<exists>e. commit_lent Some d (required_of d) (funding_of credit) effect l st =
    Some (if lending_refuses d credit effect l st then Inl e
      else Inr (loan_of d credit l st, loan_of d credit l st - max 0 (shortfall_of d credit st)))"
proof -
  let ?room = "\<lambda>cap. max (cap - (principal_of (db_asset d) st + interest_of (db_asset d) st)) 0"
  have free: "(if ac_margin st then Some (account_free (db_asset d) st)
      else map_option (\<lambda>ab. bl_free (ab_balance ab)) (ac_balances st (db_asset d))) = Some (free_of (db_asset d) st)"
    using assms by (auto simp: account_free_of held_balance_def)
  have room: "cap_room Some (db_asset d) cap st = Some (?room cap)" for cap
    by (simp add: cap_room_def account_owed_of dec_simps)
  define capped where "capped = (case ln_max_borrow l of None \<Rightarrow> None
    | Some cap \<Rightarrow> if ?room cap < ln_borrowable l then Some (?room cap) else None)"
  have capped: "(case ln_max_borrow l of None \<Rightarrow> Some None
       | Some cap \<Rightarrow> do {
           room \<leftarrow> cap_room Some (db_asset d) cap st;
           Some (if room < ln_borrowable l then Some room else None) }) = Some capped"
    by (simp add: capped_def room split: option.split)
  have lendable: "(case capped of None \<Rightarrow> ln_borrowable l | Some room \<Rightarrow> room) = lendable_of d l st"
    by (auto simp: capped_def lendable_of_def max.commute split: option.split)
  show ?thesis
    unfolding commit_lent_def free capped
    by (simp add: lendable dec_simps Let_def lending_refuses_def loan_of_def shortfall_of_def max_def)
qed

lemma commit_covers_exact:
  "\<exists>e. commit_covers Some (delivery_of credit) st =
    Some (if delivery_refuses credit st then Inl e else Inr ())"
  by (auto simp: commit_covers_def delivery_refuses_def account_free_of dec_simps split: option.split)

lemma commit_apply_moves:
  assumes present: "ac_balances st (db_asset d) \<noteq> None \<or> fst lent \<noteq> 0"
    and covered: "required_of d \<le> free_of (db_asset d) st + fst lent + funding"
  obtains cm st4 st' where
    "commit_apply Some d (required_of d) funding delivery effect lent t st = Some (Inr cm, st')"
    and "moved (db_asset d) (fst lent + funding - db_settled d) (fst lent + funding - required_of d) (fst lent) 0 st st4"
    and "ac_balances st4 (db_asset d) = Some (cm_paid cm)"
    and "cm_borrowed cm = fst lent" and "cm_excess_borrowed cm = snd lent"
    and "case delivery of None \<Rightarrow> st' = st4 \<and> cm_received cm = None
      | Some x \<Rightarrow> deliver Some x effect t st4 = Some (the (cm_received cm), st') \<and> cm_received cm \<noteq> None"
proof -
  let ?a = "db_asset d" and ?n = "fst lent"
  obtain st1 where st1: "(if ?n \<noteq> 0 then borrow Some ?a ?n t st else Some st) = Some st1" "moved ?a ?n ?n ?n 0 st st1"
  proof (cases "?n = 0")
    case True
    with present moved_refl that show thesis by fastforce
  next
    case False
    obtain st1 where "borrow Some ?a ?n t st = Some st1" "moved ?a ?n ?n ?n 0 st st1" by (rule borrow_moves)
    with False that show thesis by simp
  qed
  obtain ab1 where ab1: "ac_balances st1 ?a = Some ab1" using moved_present [OF st1(2)] by blast
  obtain st2 where st2: "(if funding \<noteq> 0 then do {
         ab \<leftarrow> ac_balances st1 ?a;
         b \<leftarrow> balance_add Some funding (ab_balance ab);
         Some (put_balance (ab\<lparr>ab_balance := b\<rparr>) ?a st1) } else Some st1) = Some st2"
      "moved ?a funding funding 0 0 st1 st2"
  proof (cases "funding = 0")
    case True
    with moved_refl [OF ab1] that show thesis by simp
  next
    case False
    let ?ab = "ab1\<lparr>ab_balance := (ab_balance ab1)\<lparr>bl_total := bl_total (ab_balance ab1) + funding,
      bl_free := bl_free (ab_balance ab1) + funding\<rparr>\<rparr>"
    have "moved ?a funding funding 0 0 st1 (put_balance ?ab ?a st1)"
      using ab1 by (intro movedI [OF put_balance_loans, where t = t]) (simp_all add: held_Some)
    with False ab1 that show thesis by (simp add: balance_add_exact)
  qed
  obtain ab2 where ab2: "ac_balances st2 ?a = Some ab2" using moved_present [OF st2(2)] by blast
  note to2 = moved_trans [OF st1(2) st2(2)]
  have le: "required_of d \<le> free_of ?a st2" using covered moved_readers(2) [OF to2, of ?a] by simp
  obtain ab3 st3 where st3: "reserve Some ?a (required_of d) t st2 = Some (Inr ab3, st3)"
      "moved ?a 0 (- required_of d) 0 0 st2 st3" "ac_balances st3 ?a = Some ab3"
    by (rule reserve_moves [OF ab2 le])
  obtain paid st4 where st4: "settle Some ?a (db_settled d) t st3 = Some (paid, st4)"
      "moved ?a (- db_settled d) 0 0 0 st3 st4" "ac_balances st4 ?a = Some paid"
    by (rule settle_moves [OF st3(3)])
  have to4: "moved ?a (?n + funding - db_settled d) (?n + funding - required_of d) ?n 0 st st4"
    using moved_trans [OF moved_trans [OF to2 st3(2)] st4(2)] by simp
  define tail where "tail = (case delivery of
      None \<Rightarrow> Some (None, st4)
    | Some x \<Rightarrow> do { (ab, st5) \<leftarrow> deliver Some x effect t st4; Some (Some ab, st5) })"
  have unfolded: "commit_apply Some d (required_of d) funding delivery effect lent t st = do {
      (received, st5) \<leftarrow> tail;
      Some (Inr \<lparr>cm_paid = paid, cm_received = received, cm_borrowed = ?n, cm_excess_borrowed = snd lent\<rparr>, st5) }"
    unfolding commit_apply_def st1(1) tail_def
    by (simp only: Option.bind.bind_lunit st2(1) st3(1) st4(1) prod.case sum.case)
  show thesis
  proof (cases delivery)
    case None
    with unfolded have eq: "commit_apply Some d (required_of d) funding delivery effect lent t st =
        Some (Inr \<lparr>cm_paid = paid, cm_received = None, cm_borrowed = ?n, cm_excess_borrowed = snd lent\<rparr>, st4)"
      by (simp add: tail_def)
    show thesis by (rule that [OF eq to4]) (simp_all add: st4(3) None)
  next
    case (Some x)
    obtain ab5 st5 where d5: "deliver Some x effect t st4 = Some (ab5, st5)" by (rule deliver_moves [of x effect t st4])
    then have "tail = Some (Some ab5, st5)" using Some by (simp add: tail_def)
    with unfolded have eq: "commit_apply Some d (required_of d) funding delivery effect lent t st =
        Some (Inr \<lparr>cm_paid = paid, cm_received = Some ab5, cm_borrowed = ?n, cm_excess_borrowed = snd lent\<rparr>, st5)"
      by simp
    show thesis by (rule that [OF eq to4]) (simp_all add: st4(3) Some d5)
  qed
qed

lemma commit_apply_absent:
  assumes "ac_balances st (db_asset d) = None" and "fst lent = 0"
  shows "commit_apply R d required funding delivery effect lent t st = None"
  using assms by (simp add: commit_apply_def reserve_def)

text \<open>The whole commitment, in exact arithmetic.\<close>

lemma commit_unfold:
  assumes "ac_margin st \<or> ac_balances st (db_asset d) \<noteq> None"
  shows "\<exists>e. commit Some d credit effect l t st =
    (if lending_refuses d credit effect l st \<or> delivery_refuses credit st then Some (Inl e, st)
     else commit_apply Some d (required_of d) (funding_of credit) (delivery_of credit) effect
       (loan_of d credit l st, loan_of d credit l st - max 0 (shortfall_of d credit st)) t st)"
proof -
  obtain e1 where lent: "commit_lent Some d (required_of d) (funding_of credit) effect l st =
      Some (if lending_refuses d credit effect l st then Inl e1
        else Inr (loan_of d credit l st, loan_of d credit l st - max 0 (shortfall_of d credit st)))"
    using commit_lent_exact [OF assms] by blast
  obtain e2 where covers: "commit_covers Some (delivery_of credit) st =
      Some (if delivery_refuses credit st then Inl e2 else Inr ())"
    using commit_covers_exact by blast
  have "commit Some d credit effect l t st = do {
     lent \<leftarrow> commit_lent Some d (required_of d) (funding_of credit) effect l st;
     (case lent of
        Inl e \<Rightarrow> Some (Inl e, st)
      | Inr loan \<Rightarrow> do {
          covers \<leftarrow> commit_covers Some (delivery_of credit) st;
          (case covers of
             Inl e \<Rightarrow> Some (Inl e, st)
           | Inr _ \<Rightarrow> commit_apply Some d (required_of d) (funding_of credit) (delivery_of credit) effect loan t st)
        }) }"
    unfolding commit_def Let_def funding_of_def delivery_of_def required_of_def dec_add_def
    by (simp only: Option.bind.bind_lunit)
  then show ?thesis
    unfolding lent covers by (cases "lending_refuses d credit effect l st") auto
qed

lemma commit_absent:
  assumes "\<not> ac_margin st" and "ac_balances st (db_asset d) = None"
  shows "commit Some d credit effect l t st = None"
  using assms by (simp add: commit_def commit_lent_def dec_simps Let_def)

lemma covered_if_not_refused:
  assumes "\<not> lending_refuses d credit effect l st"
  shows "required_of d \<le> free_of (db_asset d) st + loan_of d credit l st + funding_of credit"
  using assms by (auto simp: lending_refuses_def loan_of_def shortfall_of_def)

lemma commit_accepted:
  assumes "ac_balances st (db_asset d) \<noteq> None \<or> loan_of d credit l st \<noteq> 0"
    and "ac_margin st \<or> ac_balances st (db_asset d) \<noteq> None"
    and "\<not> lending_refuses d credit effect l st" and "\<not> delivery_refuses credit st"
  obtains cm st4 st' where "commit Some d credit effect l t st = Some (Inr cm, st')"
    and "moved (db_asset d) (loan_of d credit l st + funding_of credit - db_settled d)
      (loan_of d credit l st + funding_of credit - required_of d) (loan_of d credit l st) 0 st st4"
    and "ac_balances st4 (db_asset d) = Some (cm_paid cm)"
    and "cm_borrowed cm = loan_of d credit l st"
    and "cm_excess_borrowed cm = loan_of d credit l st - max 0 (shortfall_of d credit st)"
    and "case delivery_of credit of None \<Rightarrow> st' = st4 \<and> cm_received cm = None
      | Some x \<Rightarrow> deliver Some x effect t st4 = Some (the (cm_received cm), st') \<and> cm_received cm \<noteq> None"
proof -
  let ?lent = "(loan_of d credit l st, loan_of d credit l st - max 0 (shortfall_of d credit st))"
  have eq: "commit Some d credit effect l t st =
      commit_apply Some d (required_of d) (funding_of credit) (delivery_of credit) effect ?lent t st"
    using commit_unfold [OF assms(2)] assms(3,4) by metis
  have "required_of d \<le> free_of (db_asset d) st + fst ?lent + funding_of credit"
    using covered_if_not_refused [OF assms(3)] by simp
  moreover have "ac_balances st (db_asset d) \<noteq> None \<or> fst ?lent \<noteq> 0" using assms(1) by simp
  ultimately show thesis
    using that unfolding eq by (elim commit_apply_moves) auto
qed

definition sample_account :: "(nat, unit) account_state" where
  "sample_account = (enable_margin (account_new [''usd'' \<mapsto> \<lparr>ab_asset = ''usd'', ab_balance = balance_new 100 60,
     ab_time_exchange = 0\<rparr>] open_orders_default Map.empty []))"

definition no_lending :: lending where
  "no_lending = \<lparr>ln_borrowable = 0, ln_min_borrow = 0, ln_max_borrow = None\<rparr>"

lemmas sample_account_simps = sample_account_def no_lending_def enable_margin_def account_new_def balance_new_def
  margin_details_default_def

text \<open>What the committed order delivers to an asset, and what of it repays the asset's loan.\<close>

definition delivered_to :: "asset_name \<Rightarrow> credit option \<Rightarrow> decimal" where
  "delivered_to a credit = (case delivery_of credit of
     Some x \<Rightarrow> if dl_asset x = a then dl_amount x else 0 | None \<Rightarrow> 0)"

definition interest_cleared :: "asset_name \<Rightarrow> credit option \<Rightarrow> margin_effect \<Rightarrow> ('e, 'f) account_state \<Rightarrow> decimal" where
  "interest_cleared a credit effect st = (case delivery_of credit of
     Some x \<Rightarrow> if dl_asset x = a then delivery_interest x effect st else 0 | None \<Rightarrow> 0)"

definition principal_cleared :: "asset_name \<Rightarrow> credit option \<Rightarrow> margin_effect \<Rightarrow> ('e, 'f) account_state \<Rightarrow> decimal" where
  "principal_cleared a credit effect st = (case delivery_of credit of
     Some x \<Rightarrow> if dl_asset x = a then delivery_principal x effect st else 0 | None \<Rightarrow> 0)"

lemma delivery_parts_cong:
  assumes "ac_margin st' = ac_margin st" and "principal_of (dl_asset x) st' = principal_of (dl_asset x) st"
    and "interest_of (dl_asset x) st' = interest_of (dl_asset x) st"
  shows "delivery_interest x effect st' = delivery_interest x effect st"
    and "delivery_principal x effect st' = delivery_principal x effect st"
  using assms repaid_cong [OF assms(2,3)] by (simp_all add: delivery_interest_def delivery_principal_def settles_loan_def)

lemma no_loan_unless_borrowing:
  "\<not> lending_refuses d credit effect l st \<Longrightarrow> effect \<noteq> Borrow \<Longrightarrow> loan_of d credit l st = 0"
  by (auto simp: lending_refuses_def loan_of_def)

lemma commit_present:
  assumes "commit Some d credit effect l t st = Some (Inr cm, st')"
  shows "ac_margin st \<or> ac_balances st (db_asset d) \<noteq> None"
    and "\<not> lending_refuses d credit effect l st" and "\<not> delivery_refuses credit st"
    and "ac_balances st (db_asset d) \<noteq> None \<or> loan_of d credit l st \<noteq> 0"
proof -
  show 1: "ac_margin st \<or> ac_balances st (db_asset d) \<noteq> None"
    using commit_absent [of st d credit effect l t] assms by force
  obtain e where e: "commit Some d credit effect l t st =
    (if lending_refuses d credit effect l st \<or> delivery_refuses credit st then Some (Inl e, st)
     else commit_apply Some d (required_of d) (funding_of credit) (delivery_of credit) effect
       (loan_of d credit l st, loan_of d credit l st - max 0 (shortfall_of d credit st)) t st)"
    using commit_unfold [OF 1] by blast
  then show 2: "\<not> lending_refuses d credit effect l st" "\<not> delivery_refuses credit st"
    using assms by (auto split: if_splits)
  show "ac_balances st (db_asset d) \<noteq> None \<or> loan_of d credit l st \<noteq> 0"
    using e 2 assms(1) commit_apply_absent [of st d] by (cases "ac_balances st (db_asset d)") auto
qed

lemma commit_effect:
  assumes "commit Some d credit effect l t st = Some (Inr cm, st')"
  defines "loan \<equiv> loan_of d credit l st"
  defines "i a \<equiv> interest_cleared a credit effect st" and "p a \<equiv> principal_cleared a credit effect st"
  defines "g a \<equiv> delivered_to a credit"
  shows "total_of a st' = total_of a st +
      (if a = db_asset d then loan + funding_of credit - db_settled d else 0) + g a - (i a + p a)"
    and "free_of a st' = free_of a st +
      (if a = db_asset d then loan + funding_of credit - required_of d else 0) + g a - (i a + p a)"
    and "principal_of a st' = principal_of a st + (if a = db_asset d then loan else 0) - p a"
    and "interest_of a st' = interest_of a st - i a"
    and "cm_borrowed cm = loan" and "cm_excess_borrowed cm = loan - max 0 (shortfall_of d credit st)"
    and "ac_margin st' = ac_margin st" and "ac_orders_open st' = ac_orders_open st"
    and "ac_orders_cancelled st' = ac_orders_cancelled st" and "ac_orders_filled st' = ac_orders_filled st"
    and "ac_orders_expired st' = ac_orders_expired st" and "ac_trades st' = ac_trades st"
proof -
  note pre = commit_present [OF assms(1)]
  obtain cm' st4 st'' where c: "commit Some d credit effect l t st = Some (Inr cm', st'')"
      "moved (db_asset d) (loan + funding_of credit - db_settled d) (loan + funding_of credit - required_of d) loan 0 st st4"
      "cm_borrowed cm' = loan" "cm_excess_borrowed cm' = loan - max 0 (shortfall_of d credit st)"
      "case delivery_of credit of None \<Rightarrow> st'' = st4 \<and> cm_received cm' = None
        | Some x \<Rightarrow> deliver Some x effect t st4 = Some (the (cm_received cm'), st'') \<and> cm_received cm' \<noteq> None"
    using commit_accepted [OF pre(4,1,2,3), of t] unfolding loan_def by metis
  have same: "cm' = cm" "st'' = st'" using c(1) assms(1) by simp_all
  show "cm_borrowed cm = loan" "cm_excess_borrowed cm = loan - max 0 (shortfall_of d credit st)"
    using c(3,4) same by simp_all
  note r4 = moved_readers [OF c(2)]
  have "total_of a st' = total_of a st4 + g a - (i a + p a) \<and> free_of a st' = free_of a st4 + g a - (i a + p a) \<and>
      principal_of a st' = principal_of a st4 - p a \<and> interest_of a st' = interest_of a st4 - i a \<and>
      ac_margin st' = ac_margin st4 \<and> ac_orders_open st' = ac_orders_open st4 \<and>
      ac_orders_cancelled st' = ac_orders_cancelled st4 \<and> ac_orders_filled st' = ac_orders_filled st4 \<and>
      ac_orders_expired st' = ac_orders_expired st4 \<and> ac_trades st' = ac_trades st4" for a
  proof (cases "delivery_of credit")
    case None
    then show ?thesis
      using c(5) same by (simp add: i_def p_def g_def interest_cleared_def principal_cleared_def delivered_to_def)
  next
    case (Some x)
    then have del: "deliver Some x effect t st4 = Some (the (cm_received cm), st')" using c(5) same by simp
    obtain ab st6 where "deliver Some x effect t st4 = Some (ab, st6)"
      and mv: "moved (dl_asset x) (dl_amount x - (delivery_interest x effect st4 + delivery_principal x effect st4))
        (dl_amount x - (delivery_interest x effect st4 + delivery_principal x effect st4))
        (- delivery_principal x effect st4) (- delivery_interest x effect st4) st4 st6"
      by (rule deliver_moves [of x effect t st4])
    with del have st6: "st6 = st'" by simp
    have "delivery_interest x effect st4 = delivery_interest x effect st \<and>
        delivery_principal x effect st4 = delivery_principal x effect st"
    proof (cases "effect = Repay")
      case True
      then have "loan = 0" using no_loan_unless_borrowing [OF pre(2)] by (simp add: loan_def)
      then show ?thesis using delivery_parts_cong [of st4 st x] r4 by simp
    qed (simp add: delivery_interest_def delivery_principal_def settles_loan_def)
    with moved_readers [OF mv] Some show ?thesis
      by (simp add: st6 i_def p_def g_def interest_cleared_def principal_cleared_def delivered_to_def)
  qed
  with r4 show "total_of a st' = total_of a st +
      (if a = db_asset d then loan + funding_of credit - db_settled d else 0) + g a - (i a + p a)"
    "free_of a st' = free_of a st +
      (if a = db_asset d then loan + funding_of credit - required_of d else 0) + g a - (i a + p a)"
    "principal_of a st' = principal_of a st + (if a = db_asset d then loan else 0) - p a"
    "interest_of a st' = interest_of a st - i a"
    "ac_margin st' = ac_margin st" "ac_orders_open st' = ac_orders_open st"
    "ac_orders_cancelled st' = ac_orders_cancelled st" "ac_orders_filled st' = ac_orders_filled st"
    "ac_orders_expired st' = ac_orders_expired st" "ac_trades st' = ac_trades st" by simp_all
qed

section \<open>Properties of the commitment\<close>

text \<open>When committing would pay with an asset that the account has never held.\<close>

definition pays_from_nothing ::
  "debit \<Rightarrow> credit option \<Rightarrow> margin_effect \<Rightarrow> lending \<Rightarrow> ('e, 'f) account_state \<Rightarrow> bool" where
  "pays_from_nothing d credit effect l st \<longleftrightarrow> ac_balances st (db_asset d) = None \<and> (\<not> ac_margin st \<or>
     \<not> lending_refuses d credit effect l st \<and> \<not> delivery_refuses credit st \<and> loan_of d credit l st = 0)"

text \<open>C11: an arriving order is committed whole or not at all. In exact arithmetic committing panics exactly
when it would pay with an asset that the account has never held: on an account without margin always, on
a margin account when the order is refused for nothing and borrows none of it. Otherwise the account
refuses the order exactly when its free balance and what it is paid back do not cover what it settles
and reserves and no loan within the limits does either, or when the fill takes more of the delivered
asset than is free; a refusal leaves the account as it was, and nothing that is accepted is refused
halfway.\<close>

lemma account_commit_all_or_nothing:
  "(commit Some d credit effect l t st = None \<longleftrightarrow> pays_from_nothing d credit effect l st) \<and>
   (\<not> pays_from_nothing d credit effect l st \<longrightarrow>
     (if lending_refuses d credit effect l st \<or> delivery_refuses credit st
      then \<exists>e. commit Some d credit effect l t st = Some (Inl e, st)
      else \<exists>cm st'. commit Some d credit effect l t st = Some (Inr cm, st')))"
proof (cases "ac_margin st \<or> ac_balances st (db_asset d) \<noteq> None")
  case False
  then show ?thesis by (simp add: commit_absent pays_from_nothing_def)
next
  case True
  show ?thesis
  proof (cases "lending_refuses d credit effect l st \<or> delivery_refuses credit st")
    case refused: True
    then obtain e where "commit Some d credit effect l t st = Some (Inl e, st)"
      using commit_unfold [OF True] by metis
    with refused True show ?thesis by (auto simp: pays_from_nothing_def)
  next
    case accepted: False
    show ?thesis
    proof (cases "ac_balances st (db_asset d) \<noteq> None \<or> loan_of d credit l st \<noteq> 0")
      case present: True
      obtain cm st' where "commit Some d credit effect l t st = Some (Inr cm, st')"
        using commit_accepted [OF present True] accepted by metis
      with accepted present True show ?thesis by (auto simp: pays_from_nothing_def)
    next
      case False
      then have "commit_apply Some d (required_of d) (funding_of credit) (delivery_of credit) effect
          (loan_of d credit l st, loan_of d credit l st - max 0 (shortfall_of d credit st)) t st = None"
        by (simp add: commit_apply_absent)
      then have "commit Some d credit effect l t st = None"
        using accepted commit_unfold [OF True, of credit effect l t] False by (auto split: option.split)
      with False accepted show ?thesis by (simp add: pays_from_nothing_def)
    qed
  qed
qed

text \<open>the books of a committed order balance. When an order is accepted, its paying asset moves by
the loan and what it is paid back, less what it settles, and free by the same less what it reserves
too; a delivery is added to its asset after repaying, on a repaying margin order, that asset's
interest and then its principal; no other asset moves. So the net worth of an asset changes by what
was paid back, settled and delivered alone, loans neither make nor lose anything, and an order that
pays and receives different assets never takes the free balance it pays from below zero.\<close>

lemma account_commit_accounting:
  assumes "commit Some d credit effect l t st = Some (Inr cm, st')"
  shows "(\<forall>a.
      total_of a st' = total_of a st
        + (if a = db_asset d then cm_borrowed cm + funding_of credit - db_settled d else 0)
        + delivered_to a credit - (interest_cleared a credit effect st + principal_cleared a credit effect st) \<and>
      free_of a st' = free_of a st
        + (if a = db_asset d then cm_borrowed cm + funding_of credit - db_settled d - db_reserved d else 0)
        + delivered_to a credit - (interest_cleared a credit effect st + principal_cleared a credit effect st) \<and>
      principal_of a st' = principal_of a st + (if a = db_asset d then cm_borrowed cm else 0)
        - principal_cleared a credit effect st \<and>
      interest_of a st' = interest_of a st - interest_cleared a credit effect st \<and>
      net_of a st' = net_of a st + (if a = db_asset d then funding_of credit - db_settled d else 0)
        + delivered_to a credit) \<and>
    cm_borrowed cm = loan_of d credit l st \<and>
    cm_excess_borrowed cm = loan_of d credit l st - max 0 (shortfall_of d credit st) \<and>
    ((\<forall>x. delivery_of credit = Some x \<longrightarrow> dl_asset x \<noteq> db_asset d) \<longrightarrow> 0 \<le> free_of (db_asset d) st')"
proof -
  note eff = commit_effect [OF assms]
  have "0 \<le> free_of (db_asset d) st'" if "\<forall>x. delivery_of credit = Some x \<longrightarrow> dl_asset x \<noteq> db_asset d"
  proof -
    have "delivered_to (db_asset d) credit = 0" "interest_cleared (db_asset d) credit effect st = 0"
      "principal_cleared (db_asset d) credit effect st = 0"
      using that by (simp_all add: delivered_to_def interest_cleared_def principal_cleared_def split: option.split)
    then show ?thesis
      using eff(2) [of "db_asset d"] covered_if_not_refused [OF commit_present(2) [OF assms]] by simp
  qed
  then show ?thesis by (simp add: eff net_of_def required_of_def)
qed

definition sample_debit :: debit where
  "sample_debit = \<lparr>db_asset = ''usd'', db_settled = 80, db_reserved = 0\<rparr>"

definition sample_lending :: lending where
  "sample_lending = \<lparr>ln_borrowable = 50, ln_min_borrow = 30, ln_max_borrow = Some 45\<rparr>"

lemma account_commit_accounting_witness:
  "\<exists>cm st'. commit Some sample_debit (Some (Deliver \<lparr>dl_asset = ''btc'', dl_amount = 2\<rparr>)) Borrow sample_lending 7 sample_account
     = Some (Inr cm, st') \<and> cm_borrowed cm = 30 \<and> cm_excess_borrowed cm = 10 \<and>
     free_of ''usd'' st' = 10 \<and> net_of ''usd'' st' = 20 \<and> net_of ''btc'' st' = 2"
proof -
  define credit where "credit = Some (Deliver \<lparr>dl_asset = ''btc'', dl_amount = 2\<rparr>)"
  have parts: "loan_of sample_debit credit sample_lending sample_account = 30"
    "shortfall_of sample_debit credit sample_account = 20" "delivery_of credit = Some \<lparr>dl_asset = ''btc'', dl_amount = 2\<rparr>"
    "funding_of credit = 0" "free_of ''usd'' sample_account = 60" "net_of ''usd'' sample_account = 100"
    "net_of ''btc'' sample_account = 0" "interest_of ''usd'' sample_account = 0"
    "lendable_of sample_debit sample_lending sample_account = 45" "ac_margin sample_account"
    "ac_balances sample_account ''usd'' \<noteq> None"
    by (simp_all add: credit_def sample_debit_def sample_lending_def sample_account_simps loan_of_def shortfall_of_def
        funding_of_def delivery_of_def required_of_def held_balance_def net_of_def principal_def owed_interest_def lendable_of_def)
  have ok: "\<not> lending_refuses sample_debit credit Borrow sample_lending sample_account"
    "\<not> delivery_refuses credit sample_account"
    using parts by (simp_all add: lending_refuses_def delivery_refuses_def)
  obtain cm st' where c: "commit Some sample_debit credit Borrow sample_lending 7 sample_account = Some (Inr cm, st')"
    using commit_accepted [of sample_account sample_debit credit sample_lending Borrow 7] ok parts
    by (metis debit.select_convs(1) sample_debit_def)
  from account_commit_accounting [OF c] show ?thesis
    using c parts by (auto simp: credit_def sample_debit_def delivered_to_def interest_cleared_def principal_cleared_def)
qed

lemma account_commit_all_or_nothing_witness:
  "\<exists>e. commit Some sample_debit None Borrow no_lending 7 sample_account = Some (Inl e, sample_account)"
proof -
  have "lending_refuses sample_debit None Borrow no_lending sample_account"
    by (simp add: lending_refuses_def sample_debit_def sample_account_simps loan_of_def shortfall_of_def
        funding_of_def required_of_def held_balance_def lendable_of_def)
  moreover from this have "\<not> pays_from_nothing sample_debit None Borrow no_lending sample_account"
    by (simp add: pays_from_nothing_def sample_account_simps)
  ultimately show ?thesis
    using account_commit_all_or_nothing [where d = sample_debit and credit = None and effect = Borrow
      and l = no_lending and t = 7 and st = sample_account] by simp
qed

end
