(* ===== verification/Account_Invariants.thy ===== *)
theory Account_Invariants
  imports Account_Ledger Price_Time
begin

text \<open>
  The invariants of the account of the simulated venue over any sequence of its operations: sound
  balances and an id in at most one place, the book or one ledger of ended orders. What the account
  needs of its book is stated as an interface, which entering and holding an order both provide.
\<close>

section \<open>The interface to the book\<close>

definition apart :: "(client_order_id \<Rightarrow> 'b \<Rightarrow> bool) \<Rightarrow> 'b \<Rightarrow> client_order_id set \<Rightarrow> bool" where
  "apart contains b ended \<longleftrightarrow> (\<forall>c. contains c b \<longrightarrow> c \<notin> ended)"

lemma apart_mono: "apart contains b ended \<Longrightarrow> ended' \<subseteq> ended \<Longrightarrow> apart contains b ended'"
  unfolding apart_def by blast

locale open_order_index =
  fixes contains :: "client_order_id \<Rightarrow> 'b \<Rightarrow> bool"
    and put :: "'o \<Rightarrow> 'r \<Rightarrow> 'b \<Rightarrow> ('x + unit) \<times> 'b"
    and take_out :: "client_order_id \<Rightarrow> 'b \<Rightarrow> 'y \<times> 'b"
    and cid :: "'o \<Rightarrow> client_order_id"
  assumes put_known: "contains (cid ord) b \<Longrightarrow> \<exists>e. put ord res b = (Inl e, b)"
    and put_new: "\<not> contains (cid ord) b \<Longrightarrow> fst (put ord res b) = Inr ()"
    and put_contains: "\<not> contains (cid ord) b \<Longrightarrow>
      contains c (snd (put ord res b)) \<longleftrightarrow> c = cid ord \<or> contains c b"
    and take_contains: "contains c' (snd (take_out c b)) \<longleftrightarrow> c' \<noteq> c \<and> contains c' b"
begin

text \<open>An entered order whose id is forgotten, and a removed one whose id is recorded, keep apart.\<close>

lemma put_apart:
  assumes "apart contains b ended" and "put ord res b = (out, b')"
  shows "apart contains b' (case out of Inl _ \<Rightarrow> ended | Inr _ \<Rightarrow> ended - {cid ord})"
proof (cases "contains (cid ord) b")
  case True
  then obtain e where "put ord res b = (Inl e, b)" using put_known by blast
  with assms show ?thesis by auto
next
  case False
  with put_new [OF False, of res] put_contains [OF False, of _ res] assms show ?thesis
    by (auto simp: apart_def)
qed

lemma take_apart: "apart contains b ended \<Longrightarrow> apart contains (snd (take_out c b)) (insert c ended)"
  by (simp add: apart_def take_contains)

end

lemma unindex_by_id: "oo_by_id (oo_unindex ord b) = oo_by_id b"
  by (simp add: oo_unindex_def oo_unhold_def oo_dequeue_def Let_def split: option.split)

lemma remove_contains: "oo_contains c' (snd (oo_remove c b)) \<longleftrightarrow> c' \<noteq> c \<and> oo_contains c' b"
  by (auto simp: oo_contains_def oo_remove_def unindex_by_id split: option.split)

lemma insert_contains:
  "\<not> oo_contains (cid_of ord) b \<Longrightarrow>
    oo_contains c (snd (oo_insert ord res b)) \<longleftrightarrow> c = cid_of ord \<or> oo_contains c b"
  using insert_new(2) [of b ord res "fst (oo_insert ord res b)" "snd (oo_insert ord res b)"]
  by (simp add: oo_contains_def)

lemma hold_contains:
  "\<not> oo_contains (cid_of ord) b \<Longrightarrow>
    oo_contains c (snd (oo_hold ord res b)) \<longleftrightarrow> c = cid_of ord \<or> oo_contains c b"
  using hold_new(2) [of b ord res "fst (oo_hold ord res b)" "snd (oo_hold ord res b)"]
  by (simp add: oo_contains_def)

interpretation booked: open_order_index oo_contains oo_insert oo_remove "\<lambda>ord. cid_of ord"
proof
  fix ord :: "'a open_order" and b :: "('a, 'b) open_orders" and res
  show "oo_contains (cid_of ord) b \<Longrightarrow> \<exists>e. oo_insert ord res b = (Inl e, b)"
    using insert_known(1) [of b ord res] by (simp add: oo_contains_def)
  show "\<not> oo_contains (cid_of ord) b \<Longrightarrow> fst (oo_insert ord res b) = Inr ()"
    using insert_new(1) [of b ord res "fst (oo_insert ord res b)" "snd (oo_insert ord res b)"]
    by (simp add: oo_contains_def)
qed (rule insert_contains remove_contains, assumption?)+

interpretation held_back: open_order_index oo_contains oo_hold oo_remove "\<lambda>ord. cid_of ord"
proof
  fix ord :: "'a open_order" and b :: "('a, 'b) open_orders" and res
  show "oo_contains (cid_of ord) b \<Longrightarrow> \<exists>e. oo_hold ord res b = (Inl e, b)"
    using insert_known(2) [of b ord res] by (simp add: oo_contains_def)
  show "\<not> oo_contains (cid_of ord) b \<Longrightarrow> fst (oo_hold ord res b) = Inr ()"
    using hold_new(1) [of b ord res "fst (oo_hold ord res b)" "snd (oo_hold ord res b)"]
    by (simp add: oo_contains_def)
qed (rule hold_contains remove_contains, assumption?)+

section \<open>The operations as steps\<close>

text \<open>
  The calls a venue makes, each under its documented obligation: no negative amount is reserved,
  charged as interest or paid back, no more is settled or released than is held, and an order is
  recorded as ended only when it is not open. A refused call is a step too.
\<close>

inductive account_step :: "('e, 'f) account_state \<Rightarrow> ('e, 'f) account_state \<Rightarrow> bool" where
  Reserve: "0 \<le> x \<Longrightarrow> reserve Some a x t st = Some (out, st') \<Longrightarrow> account_step st st'"
| Settle: "free_of a st + x \<le> total_of a st \<Longrightarrow> settle Some a x t st = Some (ab, st') \<Longrightarrow> account_step st st'"
| Release: "free_of a st + x \<le> total_of a st \<Longrightarrow> release Some a x t st = Some (ab, st') \<Longrightarrow> account_step st st'"
| Release_Reservation: "free_of (rv_asset r) st + rv_amount r \<le> total_of (rv_asset r) st \<Longrightarrow>
    release_reservation Some r auto t st = Some (ab, st') \<Longrightarrow> account_step st st'"
| Charge: "charge Some a x t st = Some (ab, st') \<Longrightarrow> account_step st st'"
| Charge_Interest: "0 \<le> x \<Longrightarrow> charge_interest Some a x t st = Some (ab, st') \<Longrightarrow> account_step st st'"
| Deliver: "deliver Some d effect t st = Some (ab, st') \<Longrightarrow> account_step st st'"
| Repay_Loan: "repay_loan Some a x t st = Some (ab, st') \<Longrightarrow> account_step st st'"
| Commit: "0 \<le> db_reserved d \<Longrightarrow> commit Some d credit effect l t st = Some (out, st') \<Longrightarrow> account_step st st'"
| Enable_Margin: "account_step st (enable_margin st)"
| Update_Time: "account_step st (update_time_exchange t st)"
| Book: "account_book ord res st = (out, st') \<Longrightarrow> account_step st st'"
| Hold: "account_hold ord res st = (out, st') \<Longrightarrow> account_step st st'"
| Take_Held: "account_take_held i st = (cids, st') \<Longrightarrow> account_step st st'"
| Remove: "remove_order c st = (r, st') \<Longrightarrow> account_step st st'"
| Cancelled: "\<not> oo_contains (key_cid (o_key ord)) (ac_orders_open st) \<Longrightarrow> account_step st (ack_cancelled ord st)"
| Filled: "\<not> oo_contains (key_cid (o_key ord')) (ac_orders_open st) \<Longrightarrow> account_step st (ack_filled ord' st)"
| Expired: "\<not> oo_contains (key_cid (o_key ord)) (ac_orders_open st) \<Longrightarrow> account_step st (ack_expired ord st)"
| Trade: "account_step st (ack_trade tr st)"

inductive_cases account_stepE: "account_step st st'"

definition ended_ids :: "('e, 'f) account_state \<Rightarrow> client_order_id set" where
  "ended_ids st = dom (ac_orders_cancelled st) \<union> dom (ac_orders_filled st) \<union> dom (ac_orders_expired st)"

text \<open>An id is in at most one place, and every ended order is filed under its own.\<close>

definition places_ok :: "('e, 'f) account_state \<Rightarrow> bool" where
  "places_ok st \<longleftrightarrow> apart oo_contains (ac_orders_open st) (ended_ids st) \<and>
     dom (ac_orders_cancelled st) \<inter> dom (ac_orders_filled st) = {} \<and>
     dom (ac_orders_cancelled st) \<inter> dom (ac_orders_expired st) = {} \<and>
     dom (ac_orders_filled st) \<inter> dom (ac_orders_expired st) = {} \<and>
     (\<forall>c ord. ac_orders_cancelled st c = Some ord \<longrightarrow> key_cid (o_key ord) = c) \<and>
     (\<forall>c ord. ac_orders_filled st c = Some ord \<longrightarrow> key_cid (o_key ord) = c) \<and>
     (\<forall>c ord. ac_orders_expired st c = Some ord \<longrightarrow> key_cid (o_key ord) = c)"

section \<open>Every step keeps them\<close>

definition account_ok :: "('e, 'f) account_state \<Rightarrow> bool" where
  "account_ok st \<longleftrightarrow> ledger_ok st \<and> places_ok st"

lemma places_cong:
  assumes "ac_orders_open st' = ac_orders_open st" and "ac_orders_cancelled st' = ac_orders_cancelled st"
    and "ac_orders_filled st' = ac_orders_filled st" and "ac_orders_expired st' = ac_orders_expired st"
  shows "places_ok st' = places_ok st"
  using assms by (simp add: places_ok_def ended_ids_def)

lemma moved_account_ok:
  assumes "account_ok st" and "moved a dt df dp di st st'"
    and "free_of a st + df \<le> total_of a st + dt" and "0 \<le> principal_of a st + dp" and "0 \<le> interest_of a st + di"
  shows "account_ok st'"
  using assms moved_ok [of st] places_cong [of st' st] moved_readers(6-9) [OF assms(2)]
  by (simp add: account_ok_def)

lemma account_bounds:
  assumes "account_ok st"
  shows "free_of a st \<le> total_of a st" and "0 \<le> principal_of a st" and "0 \<le> interest_of a st"
  using assms balance_ok_bounds [OF held_ok, of st a] by (simp_all add: account_ok_def)

lemma repaid_bounds:
  assumes "0 \<le> principal b" and "0 \<le> owed_interest b"
  shows "0 \<le> repaid_interest b x" and "repaid_interest b x \<le> owed_interest b"
    and "0 \<le> repaid_principal b x" and "repaid_principal b x \<le> principal b"
  using assms by (auto simp: repaid_interest_def repaid_principal_def)

lemma deliver_ok:
  assumes ok: "account_ok st" and "deliver Some d effect t st = Some (ab, st')"
  shows "account_ok st'"
proof -
  let ?i = "delivery_interest d effect st" and ?p = "delivery_principal d effect st"
  have mv: "moved (dl_asset d) (dl_amount d - (?i + ?p)) (dl_amount d - (?i + ?p)) (- ?p) (- ?i) st st'"
    using assms(2) by (rule_tac deliver_moves [of d effect t st]) simp
  have "?p \<le> principal_of (dl_asset d) st" "?i \<le> interest_of (dl_asset d) st"
    using account_bounds [OF ok] repaid_bounds [of "held_balance (dl_asset d) st"]
    by (simp_all add: delivery_interest_def delivery_principal_def)
  then show ?thesis
    using account_bounds [OF ok] by (intro moved_account_ok [OF ok mv]) simp_all
qed

lemma repay_loan_ok:
  assumes ok: "account_ok st" and step: "repay_loan Some a x t st = Some (ab, st')"
  shows "account_ok st'"
proof -
  let ?i = "repaid_interest (held_balance a st) (min x (free_of a st))"
  let ?p = "repaid_principal (held_balance a st) (min x (free_of a st))"
  obtain ab0 where "ac_balances st a = Some ab0"
    using step by (auto simp: repay_loan_def bind_eq_Some_conv)
  then have mv: "moved a (- (?i + ?p)) (- (?i + ?p)) (- ?p) (- ?i) st st'"
    by (rule repay_loan_moves [of st a ab0 x t]) (use step in simp)
  show ?thesis
    using account_bounds [OF ok] repaid_bounds [of "held_balance a st"]
    by (intro moved_account_ok [OF ok mv]) simp_all
qed

lemma release_ok:
  assumes ok: "account_ok st" and held: "free_of a st + x \<le> total_of a st"
    and step: "release Some a x t st = Some (ab, st')"
  shows "account_ok st'"
proof -
  obtain ab0 where "ac_balances st a = Some ab0" using step by (auto simp: release_def bind_eq_Some_conv)
  then have "moved a 0 x 0 0 st st'" by (rule release_moves [of st a ab0 x t]) (use step in simp)
  with ok show ?thesis by (rule moved_account_ok) (use held account_bounds [OF ok] in simp_all)
qed

lemma reserve_ok:
  assumes ok: "account_ok st" and pos: "0 \<le> x" and step: "reserve Some a x t st = Some (out, st')"
  shows "account_ok st'"
proof -
  obtain ab0 where ab0: "ac_balances st a = Some ab0" using step by (auto simp: reserve_def bind_eq_Some_conv)
  show ?thesis
  proof (cases "x \<le> free_of a st")
    case True
    have "moved a 0 (- x) 0 0 st st'" by (rule reserve_moves [OF ab0 True, of t]) (use step in simp)
    with ok show ?thesis by (rule moved_account_ok) (use pos account_bounds [OF ok, of a] in simp_all)
  next
    case False
    then have "st' = st" using step ab0 by (auto simp: reserve_def held_balance_def)
    with ok show ?thesis by simp
  qed
qed

lemma settle_ok:
  assumes ok: "account_ok st" and held: "free_of a st + x \<le> total_of a st"
    and step: "settle Some a x t st = Some (ab, st')"
  shows "account_ok st'"
proof -
  obtain ab0 where "ac_balances st a = Some ab0" using step by (auto simp: settle_def bind_eq_Some_conv)
  then have "moved a (- x) 0 0 0 st st'" by (rule settle_moves [of st a ab0 x t]) (use step in simp)
  with ok show ?thesis by (rule moved_account_ok) (use held account_bounds [OF ok] in simp_all)
qed

lemma charge_ok:
  assumes ok: "account_ok st" and step: "charge Some a x t st = Some (ab, st')"
  shows "account_ok st'"
proof -
  obtain ab0 where "ac_balances st a = Some ab0" using step by (auto simp: charge_def bind_eq_Some_conv)
  then have "moved a x x 0 0 st st'" by (rule charge_moves [of st a ab0 x t]) (use step in simp)
  with ok show ?thesis by (rule moved_account_ok) (use account_bounds [OF ok] in simp_all)
qed

lemma charge_interest_ok:
  assumes ok: "account_ok st" and pos: "0 \<le> x" and step: "charge_interest Some a x t st = Some (ab, st')"
  shows "account_ok st'"
proof -
  obtain ab0 where "ac_balances st a = Some ab0" using step by (auto simp: charge_interest_def bind_eq_Some_conv)
  then have "moved a 0 0 0 x st st'" by (rule charge_interest_moves [of st a ab0 x t]) (use step in simp)
  with ok show ?thesis by (rule moved_account_ok) (use pos account_bounds [OF ok] in simp_all)
qed

lemma commit_ok:
  assumes ok: "account_ok st" and pos: "0 \<le> db_reserved d"
    and step: "commit Some d credit effect l t st = Some (out, st')"
  shows "account_ok st'"
proof (cases out)
  case (Inl e)
  have present: "ac_margin st \<or> ac_balances st (db_asset d) \<noteq> None"
    using commit_absent [of st d credit effect l t] step by force
  show ?thesis
  proof (cases "lending_refuses d credit effect l st \<or> delivery_refuses credit st")
    case True
    then show ?thesis using commit_unfold [OF present, of credit effect l t] step ok by auto
  next
    case False
    then have "ac_balances st (db_asset d) \<noteq> None \<or> loan_of d credit l st \<noteq> 0"
      using commit_unfold [OF present, of credit effect l t] step commit_apply_absent [of st d]
      by (cases "ac_balances st (db_asset d)") auto
    then obtain cm st'' where "commit Some d credit effect l t st = Some (Inr cm, st'')"
      using commit_accepted [OF _ present] False by metis
    with step Inl show ?thesis by simp
  qed
next
  case (Inr cm)
  with step have step: "commit Some d credit effect l t st = Some (Inr cm, st')" by simp
  note pre = commit_present [OF step]
  obtain cm' st4 st'' where c: "commit Some d credit effect l t st = Some (Inr cm', st'')"
      "moved (db_asset d) (loan_of d credit l st + funding_of credit - db_settled d)
        (loan_of d credit l st + funding_of credit - required_of d) (loan_of d credit l st) 0 st st4"
      "case delivery_of credit of None \<Rightarrow> st'' = st4 \<and> cm_received cm' = None
        | Some x \<Rightarrow> deliver Some x effect t st4 = Some (the (cm_received cm'), st'') \<and> cm_received cm' \<noteq> None"
    using commit_accepted [OF pre(4,1,2,3), of t] by metis
  have "0 \<le> loan_of d credit l st" by (simp add: loan_of_def le_max_iff_disj)
  then have "account_ok st4"
    using account_bounds [OF ok, of "db_asset d"] pos
    by (intro moved_account_ok [OF ok c(2)]) (simp_all add: required_of_def)
  moreover have "st'' = st'" using c(1) step by simp
  ultimately show ?thesis using c(3) deliver_ok [of st4] by (auto split: option.splits)
qed

lemma release_reservation_ok:
  assumes ok: "account_ok st" and held: "free_of (rv_asset r) st + rv_amount r \<le> total_of (rv_asset r) st"
    and step: "release_reservation Some r auto t st = Some (ab, st')"
  shows "account_ok st'"
proof -
  obtain ab1 st1 where rel: "release Some (rv_asset r) (rv_amount r) t st = Some (ab1, st1)"
    using step by (auto simp: release_reservation_def bind_eq_Some_conv)
  have ok1: "account_ok st1" using ok held rel by (rule release_ok)
  have "st' = st1 \<or> (\<exists>loan. repay_loan Some (rv_asset r) loan t st1 = Some (ab, st'))"
    using step rel by (auto simp: release_reservation_def bind_eq_Some_conv split: if_splits)
  with ok1 repay_loan_ok [OF ok1] show ?thesis by blast
qed

lemma put_places:
  assumes "places_ok st"
    and "\<And>ended. apart oo_contains (ac_orders_open st) ended \<Longrightarrow>
      apart oo_contains b (case out of Inl _ \<Rightarrow> ended | Inr _ \<Rightarrow> ended - {c})"
  shows "places_ok (case out of Inl _ \<Rightarrow> st\<lparr>ac_orders_open := b\<rparr>
    | Inr _ \<Rightarrow> forget_ended c (st\<lparr>ac_orders_open := b\<rparr>))"
proof -
  have "apart oo_contains b (case out of Inl _ \<Rightarrow> ended_ids st | Inr _ \<Rightarrow> ended_ids st - {c})"
    using assms by (simp add: places_ok_def)
  moreover have "ended_ids (forget_ended c (st\<lparr>ac_orders_open := b\<rparr>)) = ended_ids st - {c}"
    by (auto simp: ended_ids_def forget_ended_def)
  ultimately show ?thesis
    using assms(1) by (cases out) (auto simp: places_ok_def ended_ids_def forget_ended_def)
qed

lemma put_account_ok:
  assumes ok: "account_ok st"
    and "\<And>ended. apart oo_contains (ac_orders_open st) ended \<Longrightarrow>
      apart oo_contains b (case out of Inl _ \<Rightarrow> ended | Inr _ \<Rightarrow> ended - {c})"
  shows "account_ok (case out of Inl _ \<Rightarrow> st\<lparr>ac_orders_open := b\<rparr>
    | Inr _ \<Rightarrow> forget_ended c (st\<lparr>ac_orders_open := b\<rparr>))"
proof -
  have "places_ok st" using ok by (simp add: account_ok_def)
  from put_places [OF this assms(2)] show ?thesis
    using ok by (cases out) (simp_all add: account_ok_def ledger_ok_def forget_ended_def)
qed

lemma book_ok:
  assumes ok: "account_ok st" and step: "account_book ord res st = (out, st')"
  shows "account_ok st'"
proof -
  obtain o' b where ins: "oo_insert ord res (ac_orders_open st) = (o', b)" by fastforce
  have "st' = (case o' of Inl _ \<Rightarrow> st\<lparr>ac_orders_open := b\<rparr>
      | Inr _ \<Rightarrow> forget_ended (cid_of ord) (st\<lparr>ac_orders_open := b\<rparr>))"
    using step ins by (auto simp: account_book_def split: sum.splits)
  then show ?thesis
    using put_account_ok [OF ok booked.put_apart [OF _ ins]] by simp
qed

lemma hold_ok:
  assumes ok: "account_ok st" and step: "account_hold ord res st = (out, st')"
  shows "account_ok st'"
proof -
  obtain o' b where ins: "oo_hold ord res (ac_orders_open st) = (o', b)" by fastforce
  have "st' = (case o' of Inl _ \<Rightarrow> st\<lparr>ac_orders_open := b\<rparr>
      | Inr _ \<Rightarrow> forget_ended (cid_of ord) (st\<lparr>ac_orders_open := b\<rparr>))"
    using step ins by (auto simp: account_hold_def split: sum.splits)
  then show ?thesis
    using put_account_ok [OF ok held_back.put_apart [OF _ ins]] by simp
qed

lemma remove_order_ok:
  assumes ok: "account_ok st"
  shows "account_ok (snd (remove_order c st))"
proof -
  obtain r b where rem: "oo_remove c (ac_orders_open st) = (r, b)" by fastforce
  have "apart oo_contains (snd (oo_remove c (ac_orders_open st))) (insert c (ended_ids st))"
    using ok by (intro booked.take_apart) (simp add: account_ok_def places_ok_def)
  then have "apart oo_contains b (ended_ids st)" using rem by (auto intro: apart_mono)
  with ok rem show ?thesis
    by (simp add: account_ok_def places_ok_def ended_ids_def ledger_ok_def remove_order_def)
qed

lemma take_held_ok:
  assumes "account_ok st"
  shows "account_ok (snd (account_take_held i st))"
  using assms by (simp add: account_ok_def places_ok_def ended_ids_def ledger_ok_def account_take_held_def
      oo_take_held_def apart_def oo_contains_def)

lemma ack_ok:
  assumes ok: "account_ok st" and free: "\<not> oo_contains (key_cid (o_key ord)) (ac_orders_open st)"
  shows "account_ok (ack_cancelled ord st)" and "account_ok (ack_expired ord st)"
  using assms
  by (auto simp: account_ok_def places_ok_def ended_ids_def ledger_ok_def apart_def ack_cancelled_def
      ack_expired_def forget_ended_def Let_def split: if_splits)

lemma ack_filled_ok:
  assumes ok: "account_ok st" and free: "\<not> oo_contains (key_cid (o_key ord)) (ac_orders_open st)"
  shows "account_ok (ack_filled ord st)"
  using assms
  by (auto simp: account_ok_def places_ok_def ended_ids_def ledger_ok_def apart_def ack_filled_def
      forget_ended_def Let_def split: if_splits)

lemma enable_margin_ok: "account_ok st \<Longrightarrow> account_ok (enable_margin st)"
  by (auto simp: account_ok_def places_ok_def ended_ids_def ledger_ok_def enable_margin_def balance_ok_def
      margin_details_default_def split: option.splits)

lemma update_time_ok: "account_ok st \<Longrightarrow> account_ok (update_time_exchange t st)"
  by (auto simp: account_ok_def places_ok_def ended_ids_def ledger_ok_def update_time_exchange_def)

lemma ack_trade_ok: "account_ok st \<Longrightarrow> account_ok (ack_trade tr st)"
  by (simp add: account_ok_def places_ok_def ended_ids_def ledger_ok_def ack_trade_def)

lemma account_step_ok: "account_step st st' \<Longrightarrow> account_ok st \<Longrightarrow> account_ok st'"
proof (induction rule: account_step.induct)
  case (Take_Held i st cids st')
  then show ?case using take_held_ok [of st i] by simp
next
  case (Remove c st r st')
  then show ?case using remove_order_ok [of st c] by simp
qed (blast intro: reserve_ok settle_ok release_ok release_reservation_ok charge_ok charge_interest_ok deliver_ok
    repay_loan_ok commit_ok enable_margin_ok update_time_ok book_ok hold_ok ack_ok ack_filled_ok ack_trade_ok)+

section \<open>The seeded account\<close>

lemma seed_order_inv:
  assumes "seed_order ord (b, cs) = Inr (b', cs')"
    and "apart oo_contains b (dom cs)" and "\<forall>c x. cs c = Some x \<longrightarrow> key_cid (o_key x) = c"
  shows "apart oo_contains b' (dom cs') \<and> (\<forall>c x. cs' c = Some x \<longrightarrow> key_cid (o_key x) = c)"
proof (cases "o_state ord")
  case (Active s)
  show ?thesis
  proof (cases "as_open ord")
    case None
    with Active assms show ?thesis by (simp add: seed_order_def Let_def)
  next
    case (Some op)
    then have key: "o_key op = o_key ord"
      by (auto simp: as_open_def map_state_def split: order_state.splits active_order_state.splits)
    obtain out where ins: "oo_insert op None b = (out, b')" and new: "cs (cid_of op) = None" "cs' = cs" "out = Inr ()"
      using assms(1) Active Some by (auto simp: seed_order_def Let_def key split: if_splits prod.splits sum.splits)
    have "apart oo_contains b' (dom cs - {cid_of op})"
      using booked.put_apart [OF assms(2) ins] new(3) by simp
    with new(1) have "apart oo_contains b' (dom cs)" by (simp add: apart_def domIff)
    with assms(3) new(2) show ?thesis by simp
  qed
next
  case (Inactive s)
  show ?thesis
  proof (cases s)
    case (Cancelled x)
    with Inactive assms show ?thesis
      by (auto simp: seed_order_def Let_def apart_def map_state_def split: if_splits)
  qed (use Inactive assms in \<open>simp_all add: seed_order_def Let_def\<close>)
qed

lemma seed_orders_inv:
  assumes "seed_orders ords (b, cs) = Inr (b', cs')"
    and "apart oo_contains b (dom cs)" and "\<forall>c x. cs c = Some x \<longrightarrow> key_cid (o_key x) = c"
  shows "apart oo_contains b' (dom cs') \<and> (\<forall>c x. cs' c = Some x \<longrightarrow> key_cid (o_key x) = c)"
  using assms
proof (induction ords arbitrary: b cs)
  case Nil
  then show ?case by simp
next
  case (Cons ord ords)
  then obtain b1 cs1 where s: "seed_order ord (b, cs) = Inr (b1, cs1)" "seed_orders ords (b1, cs1) = Inr (b', cs')"
    by (auto split: sum.splits)
  have "apart oo_contains b1 (dom cs1) \<and> (\<forall>c x. cs1 c = Some x \<longrightarrow> key_cid (o_key x) = c)"
    using s(1) Cons.prems(2,3) by (rule seed_order_inv)
  with Cons.IH [OF s(2)] show ?case by blast
qed

lemma account_seed_ok:
  assumes "account_seed balances ords = Inr st" and "\<forall>ab \<in> set balances. balance_ok (ab_balance ab)"
  shows "account_ok st"
proof -
  obtain b cs where s: "seed_orders ords (open_orders_default, Map.empty) = Inr (b, cs)"
    and st: "st = \<lparr>ac_balances = map_of (rev (map (\<lambda>ab. (ab_asset ab, ab)) balances)), ac_orders_open = b,
      ac_orders_cancelled = cs, ac_orders_filled = Map.empty, ac_orders_expired = Map.empty,
      ac_trades = [], ac_margin = False, ac_loans_changed = 0\<rparr>"
    using assms(1) by (auto simp: account_seed_def split: sum.splits)
  have "apart oo_contains b (dom cs) \<and> (\<forall>c x. cs c = Some x \<longrightarrow> key_cid (o_key x) = c)"
    using s by (rule seed_orders_inv) (simp_all add: apart_def oo_contains_def open_orders_default_def)
  then have "places_ok st" by (auto simp: places_ok_def ended_ids_def st)
  moreover have "ledger_ok st"
    unfolding ledger_ok_def
  proof (intro allI impI)
    fix a ab assume "ac_balances st a = Some ab"
    then have "(a, ab) \<in> set (map (\<lambda>ab. (ab_asset ab, ab)) balances)"
      using map_of_SomeD [of "rev (map (\<lambda>ab. (ab_asset ab, ab)) balances)" a ab] by (simp add: st)
    with assms(2) show "ab_asset ab = a \<and> balance_ok (ab_balance ab)" by auto
  qed
  ultimately show ?thesis by (simp add: account_ok_def)
qed

lemma account_run_ok: "account_step\<^sup>*\<^sup>* st st' \<Longrightarrow> account_ok st \<Longrightarrow> account_ok st'"
  by (induction rule: rtranclp_induct) (blast intro: account_step_ok)+

section \<open>Properties\<close>

text \<open>C12: every account a venue can reach is sound. From any seeded snapshot with sound balances, over
any sequence of the account's operations under their documented obligations, refused ones included,
no balance has more free than it holds, no debt is negative, every balance and ended order is filed
under its own key, and no id is in two places of the book and the ledgers of ended orders; so how an
order ended is told exactly when its id is in such a ledger.\<close>

lemma account_reachable_invariant:
  assumes "account_seed balances ords = Inr st" and "\<forall>ab \<in> set balances. balance_ok (ab_balance ab)"
    and "account_step\<^sup>*\<^sup>* st st'"
  shows "(\<forall>a ab. ac_balances st' a = Some ab \<longrightarrow> ab_asset ab = a \<and> balance_ok (ab_balance ab)) \<and>
    (\<forall>c. oo_contains c (ac_orders_open st') \<longrightarrow> \<not> is_cancelled c st' \<and> \<not> is_filled c st' \<and> \<not> is_expired c st') \<and>
    (\<forall>c. \<not> (is_cancelled c st' \<and> is_filled c st') \<and> \<not> (is_cancelled c st' \<and> is_expired c st') \<and>
      \<not> (is_filled c st' \<and> is_expired c st')) \<and>
    (\<forall>c. order_ended c st' \<noteq> None \<longleftrightarrow> is_cancelled c st' \<or> is_filled c st' \<or> is_expired c st') \<and>
    (\<forall>c ord. order_ended c st' = Some ord \<longrightarrow> key_cid (o_key ord) = c)"
proof -
  have ok: "account_ok st'"
    using account_run_ok [OF assms(3)] account_seed_ok [OF assms(1,2)] .
  then have "\<forall>a ab. ac_balances st' a = Some ab \<longrightarrow> ab_asset ab = a \<and> balance_ok (ab_balance ab)"
    by (simp add: account_ok_def ledger_ok_def)
  moreover have apart: "\<forall>c. oo_contains c (ac_orders_open st') \<longrightarrow>
      \<not> is_cancelled c st' \<and> \<not> is_filled c st' \<and> \<not> is_expired c st'"
    using ok by (auto simp: account_ok_def places_ok_def apart_def ended_ids_def is_cancelled_def is_filled_def is_expired_def)
  moreover have "\<forall>c. \<not> (is_cancelled c st' \<and> is_filled c st') \<and> \<not> (is_cancelled c st' \<and> is_expired c st') \<and>
      \<not> (is_filled c st' \<and> is_expired c st')"
    using ok by (auto simp: account_ok_def places_ok_def is_cancelled_def is_filled_def is_expired_def)
  moreover have "\<forall>c. order_ended c st' \<noteq> None \<longleftrightarrow> is_cancelled c st' \<or> is_filled c st' \<or> is_expired c st'"
    using apart by (auto simp: order_ended_def is_cancelled_def is_filled_def is_expired_def split: option.splits)
  moreover have "\<forall>c ord. order_ended c st' = Some ord \<longrightarrow> key_cid (o_key ord) = c"
    using ok by (auto simp: order_ended_def account_ok_def places_ok_def map_state_def split: if_splits option.splits)
  ultimately show ?thesis by blast
qed

definition sample_seed :: "(nat, unit) account_state" where
  "sample_seed = (case account_seed [\<lparr>ab_asset = ''usd'', ab_balance = balance_new 100 60, ab_time_exchange = 0\<rparr>]
     [map_state (\<lambda>s. Active (Open s)) (sample_order ''a'' Buy (Some 10) 5 (GoodUntilCancelled False))] of Inr st \<Rightarrow> st)"

definition sample_filled :: "(nat, instrument_name, filled_state) order" where
  "sample_filled = map_state (\<lambda>_. \<lparr>filled_id = ''v'', filled_time_exchange = 6, filled_filled_quantity = 1,
     filled_avg_price = None\<rparr>) (sample_order ''a'' Buy (Some 10) 5 (GoodUntilCancelled False))"

lemma account_reachable_invariant_witness:
  "\<exists>st' :: (nat, unit) account_state. account_step\<^sup>*\<^sup>* sample_seed st' \<and> is_filled ''a'' st' \<and>
     order_ended ''a'' st' \<noteq> None \<and> \<not> oo_contains ''a'' (ac_orders_open st')"
proof -
  let ?balances = "[\<lparr>ab_asset = ''usd'', ab_balance = balance_new 100 60, ab_time_exchange = 0\<rparr>]"
  let ?orders = "[map_state (\<lambda>s. Active (Open s)) (sample_order ''a'' Buy (Some 10) 5 (GoodUntilCancelled False))]"
  let ?st1 = "snd (remove_order ''a'' sample_seed)" and ?st2 = "ack_filled sample_filled (snd (remove_order ''a'' sample_seed))"
  have seed: "account_seed ?balances ?orders = Inr sample_seed"
    by (simp add: sample_seed_def account_seed_def seed_order_def as_open_def map_state_def sample_order_def
        oo_insert_def oo_index_def open_orders_default_def deadline_of_def Let_def)
  have ok: "\<forall>ab \<in> set ?balances. balance_ok (ab_balance ab)" by (simp add: balance_ok_def balance_new_def)
  have "account_step sample_seed ?st1" by (rule account_step.Remove [where r = "fst (remove_order ''a'' sample_seed)"]) simp
  moreover have gone: "\<not> oo_contains (key_cid (o_key sample_filled)) (ac_orders_open ?st1)"
    by (simp add: remove_order_def split_def remove_contains sample_filled_def map_state_def sample_order_def)
  then have "account_step ?st1 ?st2" by (rule account_step.Filled)
  ultimately have run: "account_step\<^sup>*\<^sup>* sample_seed ?st2" by simp
  have "is_filled ''a'' ?st2"
    by (simp add: is_filled_def ack_filled_def Let_def sample_filled_def map_state_def sample_order_def)
  with account_reachable_invariant [OF seed ok run] run show ?thesis by blast
qed

text \<open>The reservation a venue records for an order it rests.\<close>

definition reservation_for :: "debit \<Rightarrow> margin_effect \<Rightarrow> 'f list \<Rightarrow> committed \<Rightarrow> 'f reservation option" where
  "reservation_for d effect charges cm = map_option (\<lambda>borrowed. \<lparr>rv_asset = db_asset d, rv_amount = db_reserved d,
     rv_borrowed = borrowed, rv_excess_borrowed = cm_excess_borrowed cm, rv_effect = effect,
     rv_unreported_interest = charges\<rparr>) (shortfall_borrowed Some cm)"

text \<open>C13: resting an order and cancelling it cancel out. An order that rests untraded, whatever it
borrows for it, and is then taken off with the automatic repayment, leaves every asset's total, free
balance, loan and interest as they were, if its asset owed no interest and was not overdrawn.\<close>

lemma account_reservation_roundtrip:
  assumes "account_ok st" and "commit Some d None effect l t st = Some (Inr cm, st1)"
    and "db_settled d = 0" and "0 \<le> db_reserved d" and "interest_of (db_asset d) st = 0" and "0 \<le> free_of (db_asset d) st"
    and "reservation_for d effect charges cm = Some r"
  shows "\<exists>ab st2. release_reservation Some r True t' st1 = Some (ab, st2) \<and>
    (\<forall>a. total_of a st2 = total_of a st \<and> free_of a st2 = free_of a st \<and>
      principal_of a st2 = principal_of a st \<and> interest_of a st2 = interest_of a st)"
proof -
  define loan where "loan = loan_of d None l st"
  have parts: "delivered_to a None = 0" "interest_cleared a None effect st = 0" "principal_cleared a None effect st = 0"
      "funding_of None = 0" for a
    by (simp_all add: delivered_to_def interest_cleared_def principal_cleared_def delivery_of_def funding_of_def)
  note eff = commit_effect(1-6) [OF assms(2), unfolded parts, folded loan_def]
  have r: "rv_asset r = db_asset d" "rv_amount r = db_reserved d" "reservation_loan Some r = Some loan"
    using assms(7) eff(5)
    by (auto simp: reservation_for_def shortfall_borrowed_def reservation_loan_def dec_simps)
  have loan: "0 \<le> loan" by (simp add: loan_def loan_of_def le_max_iff_disj)
  obtain cm' st4 st'' where c: "commit Some d None effect l t st = Some (Inr cm', st'')"
      "ac_balances st4 (db_asset d) = Some (cm_paid cm')"
      "case delivery_of None of None \<Rightarrow> st'' = st4 \<and> cm_received cm' = None
        | Some x \<Rightarrow> deliver Some x effect t st4 = Some (the (cm_received cm'), st'') \<and> cm_received cm' \<noteq> None"
    using commit_accepted [OF commit_present(4,1,2,3) [OF assms(2)], of t] by metis
  then have "ac_balances st1 (db_asset d) = Some (cm_paid cm')"
    using assms(2) by (simp add: delivery_of_def)
  then obtain ab2 st2 where rel: "release Some (db_asset d) (db_reserved d) t' st1 = Some (ab2, st2)"
      "moved (db_asset d) 0 (db_reserved d) 0 0 st1 st2" "ac_balances st2 (db_asset d) = Some ab2"
    by (rule release_moves)
  note r2 = moved_readers(1-4) [OF rel(2)]
  show ?thesis
  proof (cases "loan = 0")
    case True
    then have "release_reservation Some r True t' st1 = Some (ab2, st2)"
      using rel(1) r by (simp add: release_reservation_def)
    moreover have "total_of a st2 = total_of a st \<and> free_of a st2 = free_of a st \<and>
        principal_of a st2 = principal_of a st \<and> interest_of a st2 = interest_of a st" for a
      using True assms(3) by (simp add: r2 eff required_of_def)
    ultimately show ?thesis by blast
  next
    case False
    let ?b = "held_balance (db_asset d) st2" and ?x = "min loan (free_of (db_asset d) st2)"
    obtain ab3 st3 where rep: "repay_loan Some (db_asset d) loan t' st2 = Some (ab3, st3)"
        "moved (db_asset d) (- (repaid_interest ?b ?x + repaid_principal ?b ?x))
          (- (repaid_interest ?b ?x + repaid_principal ?b ?x)) (- repaid_principal ?b ?x) (- repaid_interest ?b ?x) st2 st3"
      by (rule repay_loan_moves [OF rel(3)])
    have "free_of (db_asset d) st2 = free_of (db_asset d) st + loan"
      by (simp add: r2 eff required_of_def assms(3))
    then have x: "?x = loan" using assms(6) by simp
    have "interest_of (db_asset d) st2 = 0" "principal_of (db_asset d) st2 = principal_of (db_asset d) st + loan"
      using assms(5) by (simp_all add: r2 eff)
    then have "repaid_interest ?b ?x = 0" "repaid_principal ?b ?x = loan"
      using loan account_bounds(2) [OF assms(1), of "db_asset d"]
      by (simp_all add: repaid_interest_def repaid_principal_def x)
    note r3 = moved_readers(1-4) [OF rep(2), unfolded this]
    have "release_reservation Some r True t' st1 = Some (ab3, st3)"
      using rel(1) rep(1) r False by (simp add: release_reservation_def)
    moreover have "total_of a st3 = total_of a st \<and> free_of a st3 = free_of a st \<and>
        principal_of a st3 = principal_of a st \<and> interest_of a st3 = interest_of a st" for a
      using assms(3) by (simp add: r3 r2 eff required_of_def)
    ultimately show ?thesis by blast
  qed
qed

definition resting_debit :: debit where
  "resting_debit = \<lparr>db_asset = ''usd'', db_settled = 0, db_reserved = 80\<rparr>"

lemma account_reservation_roundtrip_witness:
  "\<exists>cm st1 ab st2. commit Some resting_debit None Borrow sample_lending 7 sample_account = Some (Inr cm, st1) \<and>
     free_of ''usd'' st1 = 10 \<and>
     release_reservation Some (the (reservation_for resting_debit Borrow [] cm)) True 8 st1 = Some (ab, st2) \<and>
     free_of ''usd'' st2 = 60 \<and> principal_of ''usd'' st2 = 0"
proof -
  have parts: "loan_of resting_debit None sample_lending sample_account = 30"
    "lendable_of resting_debit sample_lending sample_account = 45" "ac_margin sample_account"
    "ac_balances sample_account ''usd'' \<noteq> None" "free_of ''usd'' sample_account = 60"
    "interest_of ''usd'' sample_account = 0" "principal_of ''usd'' sample_account = 0" "delivery_of None = None"
    by (simp_all add: resting_debit_def sample_lending_def sample_account_simps loan_of_def shortfall_of_def
        funding_of_def delivery_of_def required_of_def held_balance_def principal_def owed_interest_def lendable_of_def)
  have ok: "account_ok sample_account"
    by (auto simp: account_ok_def ledger_ok_def balance_ok_def places_ok_def ended_ids_def apart_def oo_contains_def
        open_orders_default_def sample_account_simps)
  have accept: "\<not> lending_refuses resting_debit None Borrow sample_lending sample_account"
    "\<not> delivery_refuses None sample_account"
    using parts by (simp_all add: lending_refuses_def delivery_refuses_def)
  obtain cm st1 where c: "commit Some resting_debit None Borrow sample_lending 7 sample_account = Some (Inr cm, st1)"
    using commit_accepted [of sample_account resting_debit None sample_lending Borrow 7] accept parts
    by (metis debit.select_convs(1) resting_debit_def)
  obtain r where r: "reservation_for resting_debit Borrow [] cm = Some (r :: unit reservation)"
    by (simp add: reservation_for_def shortfall_borrowed_def dec_simps)
  have "free_of ''usd'' st1 = 10"
    using commit_effect(2) [OF c, of "''usd''"] parts
    by (simp add: resting_debit_def required_of_def delivered_to_def interest_cleared_def principal_cleared_def funding_of_def)
  with account_reservation_roundtrip [OF ok c _ _ _ _ r, of 8] c r parts show ?thesis
    by (auto simp: resting_debit_def)
qed

end
