(* ===== verification/Order_Rules.thy ===== *)
theory Order_Rules
  imports Order_Model "HOL-Library.Signed_Division"
begin

text \<open>
  The order rules of an instrument, \<open>rustrade-execution/src/rules.rs\<close>: the grid and range of
  prices, quantities and notionals, the check of an order before it is sent, and the rounding of a
  value to its grid. The remainder of two decimals is exact, and its divisor is always a positive
  step here; the parts of a decimal (mantissa and scale) and its rebuilding are parameters.
\<close>

section \<open>Rules of one value\<close>

datatype pre_send_rules = Enforce | RulesOff

record value_rule =
  vr_min :: "decimal option"
  vr_max :: "decimal option"
  vr_step :: "decimal option"

definition value_rule_default :: value_rule where
  "value_rule_default = \<lparr>vr_min = None, vr_max = None, vr_step = None\<rparr>"

definition value_rule_new :: "decimal \<Rightarrow> decimal \<Rightarrow> decimal \<Rightarrow> value_rule" where
  "value_rule_new mn mx st = (let on = (\<lambda>v. if v > 0 then Some v else None) in
     \<lparr>vr_min = on mn, vr_max = on mx, vr_step = on st\<rparr>)"

definition value_rule_is_off :: "value_rule \<Rightarrow> bool" where
  "value_rule_is_off r \<longleftrightarrow> vr_min r = None \<and> vr_max r = None \<and> vr_step r = None"

text \<open>The remainder of decimals takes the sign of the dividend.\<close>

definition dec_trunc :: "decimal \<Rightarrow> int" where
  "dec_trunc x = (if 0 \<le> x then \<lfloor>x\<rfloor> else \<lceil>x\<rceil>)"

definition dec_rem :: "decimal \<Rightarrow> decimal \<Rightarrow> decimal" where
  "dec_rem a b = a - b * of_int (dec_trunc (a / b))"

definition rule_grid :: "value_rule \<Rightarrow> decimal option" where
  "rule_grid r = (case vr_step r of Some st \<Rightarrow> if st > 0 then Some st else None | None \<Rightarrow> None)"

text \<open>Checks one after the other, each left early by \<open>?\<close>.\<close>

fun in_turn :: "('e + unit) list \<Rightarrow> 'e + unit" where
  "in_turn [] = Inr ()"
| "in_turn (Inl e # cs) = Inl e"
| "in_turn (Inr _ # cs) = in_turn cs"

definition rule_check :: "value_rule \<Rightarrow> order_field \<Rightarrow> decimal \<Rightarrow> ('a, 'i) order_error + unit" where
  "rule_check r f v = in_turn
     [case rule_grid r of
        Some st \<Rightarrow> if dec_rem v st \<noteq> 0
          then Inl (InvalidPrecision \<lparr>pv_field = f, pv_value = v, pv_limit = NotOnGrid st\<rparr>)
          else Inr ()
      | None \<Rightarrow> Inr (),
      case vr_min r of
        Some m \<Rightarrow> if v < m then Inl (OutOfBounds \<lparr>bv_field = f, bv_bound = BoundMin, bv_limit = m, bv_value = v\<rparr>)
          else Inr ()
      | None \<Rightarrow> Inr (),
      case vr_max r of
        Some m \<Rightarrow> if m < v then Inl (OutOfBounds \<lparr>bv_field = f, bv_bound = BoundMax, bv_limit = m, bv_value = v\<rparr>)
          else Inr ()
      | None \<Rightarrow> Inr ()]"

section \<open>Rounding to a grid\<close>

text \<open>The outer option is a panic of the plain subtraction, the inner one the code's.\<close>

definition on_grid :: "decimal \<Rightarrow> decimal \<Rightarrow> decimal option" where
  "on_grid v st = (if dec_rem v st = 0 then Some v else None)"

definition round_down_to :: "rounding \<Rightarrow> decimal \<Rightarrow> decimal option \<Rightarrow> decimal option option" where
  "round_down_to R v grid =
     (case grid of
        None \<Rightarrow> Some (Some v)
      | Some st \<Rightarrow>
          let remainder = dec_rem v st in
          if remainder = 0 then Some (Some v)
          else do {
            toward_zero \<leftarrow> dec_sub R v remainder;
            Some (do {
              rounded \<leftarrow> (if remainder < 0 then dec_sub R toward_zero st else Some toward_zero);
              on_grid rounded st })
          })"

definition round_up_to :: "rounding \<Rightarrow> decimal \<Rightarrow> decimal option \<Rightarrow> decimal option option" where
  "round_up_to R v grid =
     (case grid of
        None \<Rightarrow> Some (Some v)
      | Some st \<Rightarrow>
          let remainder = dec_rem v st in
          if remainder = 0 then Some (Some v)
          else do {
            toward_zero \<leftarrow> dec_sub R v remainder;
            Some (do {
              rounded \<leftarrow> (if remainder < 0 then Some toward_zero else dec_add R toward_zero st);
              on_grid rounded st })
          })"

definition rule_round_down :: "rounding \<Rightarrow> value_rule \<Rightarrow> decimal \<Rightarrow> decimal option option" where
  "rule_round_down R r v = round_down_to R v (rule_grid r)"

definition rule_round_up :: "rounding \<Rightarrow> value_rule \<Rightarrow> decimal \<Rightarrow> decimal option option" where
  "rule_round_up R r v = round_up_to R v (rule_grid r)"

text \<open>A 128-bit integer, or \<open>None\<close> beyond its range, as \<open>checked_mul\<close> and \<open>checked_pow\<close> say.\<close>

definition i128 :: "int \<Rightarrow> int option" where
  "i128 x = (if - (2 ^ 127) \<le> x \<and> x < 2 ^ 127 then Some x else None)"

text \<open>The loop \<open>while y != 0 { (x, y) = (y, x % y) }\<close>; \<open>%\<close> takes the sign of the dividend.\<close>

function gcd_loop :: "int \<Rightarrow> int \<Rightarrow> int" where
  "gcd_loop x y = (if y = 0 then x else gcd_loop y (x smod y))"
  by auto
termination
proof (relation "measure (\<lambda>(_, y). nat \<bar>y\<bar>)")
  fix x y :: int
  assume "y \<noteq> 0"
  then have "\<bar>x smod y\<bar> < \<bar>y\<bar>" by (simp add: signed_modulo_int_def abs_mult abs_mod_less)
  then show "((y, x smod y), (x, y)) \<in> measure (\<lambda>(_, y). nat \<bar>y\<bar>)" by simp
qed simp

declare gcd_loop.simps [simp del]

text \<open>A decimal's mantissa and scale, and the decimal of a mantissa and scale where it fits.\<close>

record decimal_parts =
  dp_parts :: "decimal \<Rightarrow> int \<times> nat"
  dp_from_parts :: "int \<Rightarrow> nat \<Rightarrow> decimal option"

definition common_step :: "decimal_parts \<Rightarrow> decimal \<Rightarrow> decimal \<Rightarrow> decimal option" where
  "common_step D a b =
     (let scale = max (snd (dp_parts D a)) (snd (dp_parts D b));
          whole = (\<lambda>st. do {
            factor \<leftarrow> i128 (10 ^ (scale - snd (dp_parts D st)));
            i128 (fst (dp_parts D st) * factor) })
      in do {
        x \<leftarrow> whole a;
        y \<leftarrow> whole b;
        lcm \<leftarrow> i128 (x sdiv gcd_loop x y * y);
        dp_from_parts D lcm scale
      })"

section \<open>The rules of an instrument\<close>

record order_rules =
  or_price :: value_rule
  or_quantity :: value_rule
  or_market_quantity :: value_rule
  or_notional :: value_rule
  or_market_notional :: value_rule
  or_trailing_offset_above :: value_rule
  or_trailing_offset_below :: value_rule

definition order_rules_new :: "value_rule \<Rightarrow> value_rule \<Rightarrow> value_rule \<Rightarrow> value_rule \<Rightarrow> order_rules" where
  "order_rules_new price quantity market_quantity notional = \<lparr>or_price = price, or_quantity = quantity,
     or_market_quantity = market_quantity, or_notional = notional, or_market_notional = value_rule_default,
     or_trailing_offset_above = value_rule_default, or_trailing_offset_below = value_rule_default\<rparr>"

definition with_market_notional :: "value_rule \<Rightarrow> order_rules \<Rightarrow> order_rules" where
  "with_market_notional r rules = rules\<lparr>or_market_notional := r\<rparr>"

definition with_trailing_offsets :: "value_rule \<Rightarrow> value_rule \<Rightarrow> order_rules \<Rightarrow> order_rules" where
  "with_trailing_offsets a b rules = rules\<lparr>or_trailing_offset_above := a, or_trailing_offset_below := b\<rparr>"

definition order_rules_is_off :: "order_rules \<Rightarrow> bool" where
  "order_rules_is_off rules \<longleftrightarrow> value_rule_is_off (or_price rules) \<and> value_rule_is_off (or_quantity rules) \<and>
     value_rule_is_off (or_market_quantity rules) \<and> value_rule_is_off (or_notional rules) \<and>
     value_rule_is_off (or_market_notional rules) \<and> value_rule_is_off (or_trailing_offset_above rules) \<and>
     value_rule_is_off (or_trailing_offset_below rules)"

definition quantity_grid :: "decimal_parts \<Rightarrow> order_rules \<Rightarrow> order_kind \<Rightarrow> decimal option option" where
  "quantity_grid D rules kind =
     (let q = rule_grid (or_quantity rules) in
      if kind \<noteq> Market then Some q
      else case (q, rule_grid (or_market_quantity rules)) of
        (Some a, Some b) \<Rightarrow> map_option Some (common_step D a b)
      | (st, None) \<Rightarrow> Some st
      | (None, st) \<Rightarrow> Some st)"

definition round_quantity_down ::
  "rounding \<Rightarrow> decimal_parts \<Rightarrow> order_rules \<Rightarrow> order_kind \<Rightarrow> decimal \<Rightarrow> decimal option option" where
  "round_quantity_down R D rules kind q =
     (case quantity_grid D rules kind of None \<Rightarrow> Some None | Some grid \<Rightarrow> round_down_to R q grid)"

definition round_quantity_up ::
  "rounding \<Rightarrow> decimal_parts \<Rightarrow> order_rules \<Rightarrow> order_kind \<Rightarrow> decimal \<Rightarrow> decimal option option" where
  "round_quantity_up R D rules kind q =
     (case quantity_grid D rules kind of None \<Rightarrow> Some None | Some grid \<Rightarrow> round_up_to R q grid)"

text \<open>The limit price, the trigger price and whether the price is the order's own limit.\<close>

fun priced_parts :: "order_kind \<Rightarrow> decimal option \<Rightarrow> decimal option \<times> decimal option \<times> bool" where
  "priced_parts Market price = (None, None, False)"
| "priced_parts Limit price = (price, None, True)"
| "priced_parts (Stop trigger) price = (None, Some trigger, False)"
| "priced_parts (TakeProfit trigger) price = (None, Some trigger, False)"
| "priced_parts (StopLimit trigger) price = (price, Some trigger, True)"
| "priced_parts (TakeProfitLimit trigger) price = (price, Some trigger, True)"
| "priced_parts (TrailingStop _ _ activation) price = (None, activation, False)"
| "priced_parts (TrailingStopFixedLimit _ _ activation) price = (price, activation, True)"
| "priced_parts (TrailingStopLimit _ _ _ _) price = (None, None, False)"
| "priced_parts (ConditionalUnresolved family trigger) price =
     (if has_limit_price family then price else None, trigger, has_limit_price family)"

fun trailing_parts :: "order_kind \<Rightarrow> (decimal \<times> trailing_offset_type) option" where
  "trailing_parts (TrailingStop offset ty _) = Some (offset, ty)"
| "trailing_parts (TrailingStopLimit offset ty _ _) = Some (offset, ty)"
| "trailing_parts (TrailingStopFixedLimit offset ty _) = Some (offset, ty)"
| "trailing_parts _ = None"

text \<open>A bound in percent; the division cannot overflow, which the type keeps as \<open>None\<close>.\<close>

definition percent_bound :: "rounding \<Rightarrow> decimal option \<Rightarrow> decimal option option" where
  "percent_bound R b = (case b of None \<Rightarrow> Some None | Some x \<Rightarrow> map_option Some (dec_div R x 100))"

definition check_trailing_offset ::
  "rounding \<Rightarrow> order_rules \<Rightarrow> side \<Rightarrow> order_kind \<Rightarrow> (('a, 'i) order_error + unit) option" where
  "check_trailing_offset R rules sd kind =
     (case trailing_parts kind of
        None \<Rightarrow> Some (Inr ())
      | Some (offset, ty) \<Rightarrow>
          let bps = (case sd of Buy \<Rightarrow> or_trailing_offset_above rules | Sell \<Rightarrow> or_trailing_offset_below rules) in
          (case ty of
             BasisPoints \<Rightarrow> Some (rule_check (bps\<lparr>vr_step := None\<rparr>) FieldTrailingOffset offset)
           | Percentage \<Rightarrow> do {
               mn \<leftarrow> percent_bound R (vr_min bps);
               mx \<leftarrow> percent_bound R (vr_max bps);
               Some (rule_check \<lparr>vr_min = mn, vr_max = mx, vr_step = None\<rparr> FieldTrailingOffset offset) }
           | Absolute \<Rightarrow> Some (Inr ())))"

text \<open>A product out of range becomes the largest decimal of its sign.\<close>

definition saturating_mul :: "rounding \<Rightarrow> decimal \<Rightarrow> decimal \<Rightarrow> decimal \<Rightarrow> decimal" where
  "saturating_mul R biggest a b =
     (case dec_mul R a b of Some x \<Rightarrow> x | None \<Rightarrow> if (a < 0) \<noteq> (b < 0) then - biggest else biggest)"

definition check_order ::
  "rounding \<Rightarrow> decimal \<Rightarrow> order_rules \<Rightarrow> side \<Rightarrow> order_kind \<Rightarrow> decimal option \<Rightarrow> decimal
     \<Rightarrow> (('a, 'i) order_error + unit) option" where
  "check_order R biggest rules sd kind price q =
     (case priced_parts kind price of (limit_price, trigger_price, own_limit) \<Rightarrow>
        case in_turn
          [case limit_price of Some p \<Rightarrow> rule_check (or_price rules) FieldPrice p | None \<Rightarrow> Inr (),
           case trigger_price of Some p \<Rightarrow> rule_check (or_price rules) FieldTriggerPrice p | None \<Rightarrow> Inr ()] of
          Inl e \<Rightarrow> Some (Inl e)
        | Inr _ \<Rightarrow> do {
            trailing \<leftarrow> check_trailing_offset R rules sd kind;
            Some (in_turn
              [trailing,
               rule_check (or_quantity rules) FieldQuantity q,
               if kind = Market then rule_check (or_market_quantity rules) FieldQuantity q else Inr (),
               case (if own_limit then limit_price else None) of
                 Some p \<Rightarrow> rule_check (or_notional rules) FieldNotional (saturating_mul R biggest p q)
               | None \<Rightarrow> Inr ()]) })"

section \<open>Grids\<close>

definition grid_point :: "decimal \<Rightarrow> decimal \<Rightarrow> bool" where
  "grid_point st v \<longleftrightarrow> (\<exists>k :: int. v = of_int k * st)"

lemma dec_trunc_of_int [simp]: "dec_trunc (of_int k) = k"
  by (simp add: dec_trunc_def)

lemma dec_rem_zero: "0 < st \<Longrightarrow> dec_rem v st = 0 \<longleftrightarrow> grid_point st v"
proof
  assume st: "0 < st" and "dec_rem v st = 0"
  then have "v = of_int (dec_trunc (v / st)) * st" by (simp add: dec_rem_def mult.commute)
  then show "grid_point st v" unfolding grid_point_def by blast
next
  assume st: "0 < st" and "grid_point st v"
  then obtain k where "v = of_int k * st" unfolding grid_point_def by blast
  then show "dec_rem v st = 0" using st by (simp add: dec_rem_def mult.commute)
qed

text \<open>The grid value below a value, and what the remainder says of it.\<close>

definition grid_floor :: "decimal \<Rightarrow> decimal \<Rightarrow> decimal" where
  "grid_floor st v = of_int \<lfloor>v / st\<rfloor> * st"

definition grid_ceil :: "decimal \<Rightarrow> decimal \<Rightarrow> decimal" where
  "grid_ceil st v = of_int \<lceil>v / st\<rceil> * st"

lemma grid_floor_point [simp]: "grid_point st (grid_floor st v)" "grid_point st (grid_ceil st v)"
  by (auto simp: grid_point_def grid_floor_def grid_ceil_def)

lemma grid_floor_greatest:
  assumes "0 < st"
  shows "grid_floor st v \<le> v" and "grid_point st g \<Longrightarrow> g \<le> v \<Longrightarrow> g \<le> grid_floor st v"
proof -
  show "grid_floor st v \<le> v"
    using assms floor_divide_lower [of st v] by (simp add: grid_floor_def)
  assume "grid_point st g" "g \<le> v"
  then obtain k where k: "g = of_int k * st" by (auto simp: grid_point_def)
  then have "of_int k \<le> v / st" using \<open>g \<le> v\<close> assms by (simp add: pos_le_divide_eq)
  then have "k \<le> \<lfloor>v / st\<rfloor>" by (simp add: le_floor_iff)
  then show "g \<le> grid_floor st v" using assms by (simp add: k grid_floor_def mult_right_mono)
qed

lemma grid_ceil_least:
  assumes "0 < st"
  shows "v \<le> grid_ceil st v" and "grid_point st g \<Longrightarrow> v \<le> g \<Longrightarrow> grid_ceil st v \<le> g"
proof -
  show "v \<le> grid_ceil st v"
    using assms ceiling_divide_upper [of st v] by (simp add: grid_ceil_def)
  assume "grid_point st g" "v \<le> g"
  then obtain k where k: "g = of_int k * st" by (auto simp: grid_point_def)
  then have "v / st \<le> of_int k" using \<open>v \<le> g\<close> assms by (simp add: pos_divide_le_eq)
  then have "\<lceil>v / st\<rceil> \<le> k" by (simp add: ceiling_le_iff)
  then show "grid_ceil st v \<le> g" using assms by (simp add: k grid_ceil_def mult_right_mono)
qed

lemma grid_point_fixed:
  assumes "0 < st" and "grid_point st v"
  shows "grid_floor st v = v" and "grid_ceil st v = v"
  using assms by (auto simp: grid_point_def grid_floor_def grid_ceil_def)

lemma grid_rem_cases:
  assumes "0 < st" and "\<not> grid_point st v"
  shows "0 \<le> v \<Longrightarrow> dec_rem v st > 0 \<and> v - dec_rem v st = grid_floor st v \<and> grid_ceil st v = grid_floor st v + st"
    and "v < 0 \<Longrightarrow> dec_rem v st < 0 \<and> v - dec_rem v st = grid_ceil st v \<and> grid_floor st v = grid_ceil st v - st"
proof -
  have noint: "v / st \<noteq> of_int k" for k
  proof
    assume "v / st = of_int k"
    then have "v = of_int k * st" using assms(1) by (simp add: divide_eq_eq)
    with assms(2) show False unfolding grid_point_def by blast
  qed
  then have ceil: "\<lceil>v / st\<rceil> = \<lfloor>v / st\<rfloor> + 1" by (simp add: ceiling_altdef)
  have nz: "dec_rem v st \<noteq> 0" using dec_rem_zero [OF assms(1)] assms(2) by simp
  show "0 \<le> v \<Longrightarrow> dec_rem v st > 0 \<and> v - dec_rem v st = grid_floor st v \<and> grid_ceil st v = grid_floor st v + st"
  proof -
    assume "0 \<le> v"
    then have t: "dec_trunc (v / st) = \<lfloor>v / st\<rfloor>" using assms(1) by (simp add: dec_trunc_def)
    then have "v - dec_rem v st = grid_floor st v" by (simp add: dec_rem_def grid_floor_def mult.commute)
    then show ?thesis
      using grid_floor_greatest(1) [OF assms(1), of v] nz ceil by (simp add: grid_floor_def grid_ceil_def algebra_simps)
  qed
  show "v < 0 \<Longrightarrow> dec_rem v st < 0 \<and> v - dec_rem v st = grid_ceil st v \<and> grid_floor st v = grid_ceil st v - st"
  proof -
    assume "v < 0"
    then have "\<not> 0 \<le> v / st" using assms(1) by (simp add: zero_le_divide_iff)
    then have t: "dec_trunc (v / st) = \<lceil>v / st\<rceil>" by (simp add: dec_trunc_def)
    then have "v - dec_rem v st = grid_ceil st v" by (simp add: dec_rem_def grid_ceil_def mult.commute)
    then show ?thesis
      using grid_ceil_least(1) [OF assms(1), of v] nz ceil by (simp add: grid_floor_def grid_ceil_def algebra_simps)
  qed
qed

text \<open>Rounding gives the nearest decimal: no decimal is closer to the exact result.\<close>

definition rounds_to_nearest :: "rounding \<Rightarrow> bool" where
  "rounds_to_nearest R \<longleftrightarrow> (\<forall>x y z. R x = Some y \<longrightarrow> R z = Some z \<longrightarrow> \<bar>y - x\<bar> \<le> \<bar>z - x\<bar>)"

lemma grid_apart:
  assumes "0 < st" and "grid_point st a" and "grid_point st b" and "\<bar>a - b\<bar> < st"
  shows "a = b"
proof -
  obtain j k where jk: "a = of_int j * st" "b = of_int k * st" using assms(2,3) by (auto simp: grid_point_def)
  then have "\<bar>of_int (j - k)\<bar> * st < 1 * st"
    using assms(1,4) by (simp add: left_diff_distrib [symmetric] abs_mult)
  then have "\<bar>of_int (j - k) :: rat\<bar> < 1" using assms(1) by (simp only: mult_less_cancel_right_pos)
  then have "j = k" by linarith
  then show ?thesis by (simp add: jk)
qed

lemma toward_zero_not_grid:
  assumes near: "rounds_to_nearest R" and v: "R v = Some v" and st: "0 < st"
    and f: "grid_point st f" and close: "\<bar>v - f\<bar> < st" and r: "R f = Some y" "y \<noteq> f"
  shows "\<not> grid_point st y"
proof
  assume "grid_point st y"
  moreover have "\<bar>y - f\<bar> \<le> \<bar>v - f\<bar>" using near r(1) v by (simp add: rounds_to_nearest_def)
  ultimately have "y = f" using grid_apart [OF st _ f] close by fastforce
  with r(2) show False by simp
qed

text \<open>The value toward zero is a decimal, or is rounded to one: there is no panic.\<close>

lemma toward_zero_in_range:
  assumes laws: "rounding_laws R" and v: "R v = Some v" and between: "\<bar>f\<bar> \<le> \<bar>v\<bar>" and side: "0 \<le> f * v"
  shows "\<exists>y. R f = Some y"
proof (cases "0 \<le> f")
  case True
  show ?thesis
  proof (cases "f = 0")
    case False
    then have "0 \<le> v" using True side by (simp add: zero_le_mult_iff)
    then have "R f \<noteq> None" using rounding_no_hole [OF laws True _ v] between True by simp
    then show ?thesis by blast
  qed (use rounding_laws_zero [OF laws] in simp)
next
  case False
  then have "v \<le> 0" using side by (simp add: zero_le_mult_iff)
  moreover have "R (- v) = Some (- v)" using rounding_laws_neg [OF laws v] .
  ultimately have "R (- f) \<noteq> None" using rounding_no_hole [OF laws, of "- f" "- v"] between False by simp
  then obtain y where "R (- f) = Some y" by blast
  then have "R f = Some (- y)" using rounding_laws_neg [OF laws, of "- f"] by simp
  then show ?thesis by blast
qed

lemma round_on_grid_value: "0 < st \<Longrightarrow> grid_point st v \<Longrightarrow>
    round_down_to R v (Some st) = Some (Some v) \<and> round_up_to R v (Some st) = Some (Some v)"
  by (simp add: round_down_to_def round_up_to_def dec_rem_zero)

lemma on_grid_eq: "0 < st \<Longrightarrow> on_grid v st = (if grid_point st v then Some v else None)"
  by (simp add: on_grid_def dec_rem_zero)

text \<open>The neighbour toward zero of a value, exact when a decimal holds it.\<close>

definition inner_neighbour :: "decimal \<Rightarrow> decimal \<Rightarrow> decimal" where
  "inner_neighbour st v = (if 0 \<le> v then grid_floor st v else grid_ceil st v)"

lemma round_from_inner:
  assumes st: "0 < st" and off: "\<not> grid_point st v"
    and inner: "R (inner_neighbour st v) = Some t"
  shows "round_down_to R v (Some st) =
      Some (if 0 \<le> v then on_grid t st else Option.bind (R (t - st)) (\<lambda>y. on_grid y st))"
    and "round_up_to R v (Some st) =
      Some (if 0 \<le> v then Option.bind (R (t + st)) (\<lambda>y. on_grid y st) else on_grid t st)"
proof -
  note rem = grid_rem_cases [OF st off]
  have "dec_rem v st \<noteq> 0" using dec_rem_zero [OF st] off by simp
  moreover have "v - dec_rem v st = inner_neighbour st v \<and> (dec_rem v st < 0 \<longleftrightarrow> v < 0)"
  proof (cases "0 \<le> v")
    case True
    have "dec_rem v st > 0 \<and> v - dec_rem v st = grid_floor st v" using rem(1) [OF True] by blast
    with True show ?thesis by (auto simp: inner_neighbour_def)
  next
    case False
    then have "dec_rem v st < 0 \<and> v - dec_rem v st = grid_ceil st v" using rem(2) by force
    with False show ?thesis by (auto simp: inner_neighbour_def)
  qed
  ultimately show "round_down_to R v (Some st) =
      Some (if 0 \<le> v then on_grid t st else Option.bind (R (t - st)) (\<lambda>y. on_grid y st))"
    "round_up_to R v (Some st) =
      Some (if 0 \<le> v then Option.bind (R (t + st)) (\<lambda>y. on_grid y st) else on_grid t st)"
    using inner by (auto simp: round_down_to_def round_up_to_def dec_simps Let_def)
qed

lemma bind_on_grid:
  assumes near: "rounds_to_nearest R" and v: "R v = Some v" and st: "0 < st"
    and f: "grid_point st f" and close: "\<bar>v - f\<bar> < st"
  shows "Option.bind (R f) (\<lambda>y. on_grid y st) = (if R f = Some f then Some f else None)"
proof (cases "R f")
  case None
  then show ?thesis by simp
next
  case (Some y)
  show ?thesis
  proof (cases "y = f")
    case True
    with Some f st show ?thesis by (simp add: on_grid_eq)
  next
    case False
    then have "\<not> grid_point st y" using toward_zero_not_grid [OF near v st f close Some] by simp
    with Some False st show ?thesis by (simp add: on_grid_eq)
  qed
qed

lemma inner_bounds:
  assumes st: "0 < st"
  shows "\<bar>inner_neighbour st v\<bar> \<le> \<bar>v\<bar>" and "0 \<le> inner_neighbour st v * v" and "grid_point st (inner_neighbour st v)"
proof -
  have z: "grid_point st 0" unfolding grid_point_def by (intro exI [of _ 0]) simp
  have "\<bar>inner_neighbour st v\<bar> \<le> \<bar>v\<bar> \<and> 0 \<le> inner_neighbour st v * v"
  proof (cases "0 \<le> v")
    case True
    then have "0 \<le> grid_floor st v" "grid_floor st v \<le> v"
      using grid_floor_greatest(1) [OF st, of v] grid_floor_greatest(2) [OF st z, of v] by simp_all
    with True show ?thesis by (simp add: inner_neighbour_def)
  next
    case False
    then have "grid_ceil st v \<le> 0" "v \<le> grid_ceil st v"
      using grid_ceil_least(1) [OF st, of v] grid_ceil_least(2) [OF st z, of v] by simp_all
    with False show ?thesis by (simp add: inner_neighbour_def mult_nonpos_nonpos)
  qed
  then show "\<bar>inner_neighbour st v\<bar> \<le> \<bar>v\<bar>" "0 \<le> inner_neighbour st v * v" by simp_all
  show "grid_point st (inner_neighbour st v)" by (simp add: inner_neighbour_def)
qed

section \<open>The check\<close>

lemma in_turn_ok: "in_turn cs = Inr u \<longleftrightarrow> (\<forall>c \<in> set cs. c = Inr ())"
  by (induction cs rule: in_turn.induct) auto

lemma in_turn_error: "in_turn cs = Inl e \<Longrightarrow> Inl e \<in> set cs"
  by (induction cs rule: in_turn.induct) auto

definition rule_ok :: "value_rule \<Rightarrow> decimal \<Rightarrow> bool" where
  "rule_ok r v \<longleftrightarrow> (\<forall>st. rule_grid r = Some st \<longrightarrow> grid_point st v) \<and>
     (\<forall>m. vr_min r = Some m \<longrightarrow> m \<le> v) \<and> (\<forall>m. vr_max r = Some m \<longrightarrow> v \<le> m)"

text \<open>An error that says the truth of the value it names.\<close>

definition truthful :: "('a, 'i) order_error \<Rightarrow> bool" where
  "truthful e \<longleftrightarrow>
     (\<exists>f v st. e = InvalidPrecision \<lparr>pv_field = f, pv_value = v, pv_limit = NotOnGrid st\<rparr> \<and>
        0 < st \<and> \<not> grid_point st v) \<or>
     (\<exists>f v m. e = OutOfBounds \<lparr>bv_field = f, bv_bound = BoundMin, bv_limit = m, bv_value = v\<rparr> \<and> v < m) \<or>
     (\<exists>f v m. e = OutOfBounds \<lparr>bv_field = f, bv_bound = BoundMax, bv_limit = m, bv_value = v\<rparr> \<and> m < v)"

lemma rule_grid_pos: "rule_grid r = Some st \<Longrightarrow> 0 < st"
  by (auto simp: rule_grid_def split: option.splits if_splits)

lemma rule_check_ok: "rule_check r f v = Inr u \<longleftrightarrow> rule_ok r v"
  using rule_grid_pos [of r]
  by (auto simp: rule_check_def in_turn_ok rule_ok_def dec_rem_zero not_less split: option.splits)

lemma rule_check_truthful: "rule_check r f v = Inl e \<Longrightarrow> truthful e"
proof -
  assume "rule_check r f v = Inl e"
  from in_turn_error [OF this [unfolded rule_check_def]] show "truthful e"
    using rule_grid_pos [of r] by (auto simp: truthful_def dec_rem_zero split: option.splits if_splits)
qed

text \<open>What an order must satisfy: its limit, its trigger, its trailing offset in basis points.\<close>

definition limit_price_of :: "order_kind \<Rightarrow> decimal option \<Rightarrow> decimal option" where
  "limit_price_of kind price = fst (priced_parts kind price)"

definition trigger_price_of :: "order_kind \<Rightarrow> decimal option" where
  "trigger_price_of kind = fst (snd (priced_parts kind None))"

definition offset_basis_points :: "order_kind \<Rightarrow> decimal option" where
  "offset_basis_points kind = (case trailing_parts kind of
       Some (x, BasisPoints) \<Rightarrow> Some x
     | Some (x, Percentage) \<Rightarrow> Some (x * 100)
     | _ \<Rightarrow> None)"

definition trailing_rule :: "order_rules \<Rightarrow> side \<Rightarrow> value_rule" where
  "trailing_rule rules sd =
     (case sd of Buy \<Rightarrow> or_trailing_offset_above rules | Sell \<Rightarrow> or_trailing_offset_below rules)\<lparr>vr_step := None\<rparr>"

definition order_ok :: "order_rules \<Rightarrow> side \<Rightarrow> order_kind \<Rightarrow> decimal option \<Rightarrow> decimal \<Rightarrow> bool" where
  "order_ok rules sd kind price q \<longleftrightarrow>
     (\<forall>p. limit_price_of kind price = Some p \<longrightarrow> rule_ok (or_price rules) p \<and> rule_ok (or_notional rules) (p * q)) \<and>
     (\<forall>p. trigger_price_of kind = Some p \<longrightarrow> rule_ok (or_price rules) p) \<and>
     (\<forall>x. offset_basis_points kind = Some x \<longrightarrow> rule_ok (trailing_rule rules sd) x) \<and>
     rule_ok (or_quantity rules) q \<and> (kind = Market \<longrightarrow> rule_ok (or_market_quantity rules) q)"

lemma own_limit: "limit_price_of kind price = Some p \<Longrightarrow> snd (snd (priced_parts kind price))"
  by (cases kind) (auto simp: limit_price_of_def split: if_splits)

lemma trigger_same: "fst (snd (priced_parts kind price)) = trigger_price_of kind"
  by (cases kind) (auto simp: trigger_price_of_def)

lemma percent_exact: "percent_bound Some b = Some (map_option (\<lambda>x. x / 100) b)"
  by (simp add: percent_bound_def dec_simps split: option.split)

lemma all_scaled: "(\<forall>m :: rat. a = m * 100 \<longrightarrow> P m) \<longleftrightarrow> P (a / 100)"
  by auto

lemma trailing_exact:
  "\<exists>out. check_trailing_offset Some rules sd kind = Some out \<and>
    (out = Inr () \<longleftrightarrow> (\<forall>x. offset_basis_points kind = Some x \<longrightarrow> rule_ok (trailing_rule rules sd) x)) \<and>
    (\<forall>e. out = Inl e \<longrightarrow> truthful e)"
proof (cases "trailing_parts kind")
  case None
  then show ?thesis by (simp add: check_trailing_offset_def offset_basis_points_def)
next
  case (Some part)
  obtain x ty where p: "trailing_parts kind = Some (x, ty)" using Some by (cases part) auto
  show ?thesis
  proof (cases ty)
    case Absolute
    with p show ?thesis by (simp add: check_trailing_offset_def offset_basis_points_def)
  next
    case Percentage
    let ?r = "case sd of Buy \<Rightarrow> or_trailing_offset_above rules | Sell \<Rightarrow> or_trailing_offset_below rules"
    have "rule_ok \<lparr>vr_min = map_option (\<lambda>x. x / 100) (vr_min ?r), vr_max = map_option (\<lambda>x. x / 100) (vr_max ?r),
        vr_step = None\<rparr> x \<longleftrightarrow> rule_ok (trailing_rule rules sd) (x * 100)"
      by (cases "vr_min ?r"; cases "vr_max ?r")
        (simp_all add: rule_ok_def rule_grid_def trailing_rule_def all_scaled pos_divide_le_eq pos_le_divide_eq)
    with p Percentage show ?thesis
      using rule_check_truthful
      by (auto simp: check_trailing_offset_def offset_basis_points_def percent_exact rule_check_ok Let_def)
  next
    case BasisPoints
    with p show ?thesis
      using rule_check_truthful
      by (auto simp: check_trailing_offset_def offset_basis_points_def trailing_rule_def rule_check_ok Let_def split: side.splits)
  qed
qed

section \<open>Properties\<close>

text \<open>C14: the pre-send check says exactly what the rules say. In exact arithmetic it never panics; it
passes an order exactly when its limit and trigger prices are on the price grid and in range, its
trailing offset in basis points, in whichever unit it is given, is in the range of its direction, its
quantity fits, a market order's fits the market rule too, and the notional of its own limit is in
range; and an error it returns names a value, a limit and a relation between them that holds.\<close>

lemma order_rules_check_exact:
  "\<exists>out :: ('a, 'i) order_error + unit. check_order Some biggest rules sd kind price q = Some out \<and>
    (out = Inr () \<longleftrightarrow> order_ok rules sd kind price q) \<and>
    (case out of Inl e \<Rightarrow> truthful e | Inr _ \<Rightarrow> True)"
proof -
  obtain lp tp own where parts: "priced_parts kind price = (lp, tp, own)" by (cases "priced_parts kind price") auto
  then have lim: "limit_price_of kind price = lp" "trigger_price_of kind = tp" "lp = Some p \<Longrightarrow> own" for p
    using trigger_same [of kind price] own_limit [of kind price p] by (simp_all add: limit_price_of_def)
  obtain tr :: "('a, 'i) order_error + unit" where tr: "check_trailing_offset Some rules sd kind = Some tr"
      "tr = Inr () \<longleftrightarrow> (\<forall>x. offset_basis_points kind = Some x \<longrightarrow> rule_ok (trailing_rule rules sd) x)"
      "\<forall>e. tr = Inl e \<longrightarrow> truthful e"
    using trailing_exact by blast
  define prices :: "(('a, 'i) order_error + unit) list" where "prices = [case lp of Some p \<Rightarrow> rule_check (or_price rules) FieldPrice p | None \<Rightarrow> Inr (),
    case tp of Some p \<Rightarrow> rule_check (or_price rules) FieldTriggerPrice p | None \<Rightarrow> Inr ()]"
  define rest :: "(('a, 'i) order_error + unit) list" where "rest = [tr, rule_check (or_quantity rules) FieldQuantity q,
    if kind = Market then rule_check (or_market_quantity rules) FieldQuantity q else Inr (),
    case (if own then lp else None) of
      Some p \<Rightarrow> rule_check (or_notional rules) FieldNotional (saturating_mul Some biggest p q)
    | None \<Rightarrow> Inr ()]"
  have prices_ok: "in_turn prices = Inr () \<longleftrightarrow>
      (\<forall>p. lp = Some p \<longrightarrow> rule_ok (or_price rules) p) \<and> (\<forall>p. tp = Some p \<longrightarrow> rule_ok (or_price rules) p)"
    by (auto simp: prices_def in_turn_ok rule_check_ok split: option.splits)
  have rest_ok: "in_turn rest = Inr () \<longleftrightarrow>
      (\<forall>x. offset_basis_points kind = Some x \<longrightarrow> rule_ok (trailing_rule rules sd) x) \<and>
      rule_ok (or_quantity rules) q \<and> (kind = Market \<longrightarrow> rule_ok (or_market_quantity rules) q) \<and>
      (\<forall>p. lp = Some p \<longrightarrow> rule_ok (or_notional rules) (p * q))"
    using lim(3) by (auto simp: rest_def in_turn_ok tr(2) rule_check_ok saturating_mul_def dec_simps split: option.splits)
  have prices_err: "truthful e" if "in_turn prices = Inl e" for e :: "('a, 'i) order_error"
    using in_turn_error [OF that] rule_check_truthful [of _ _ _ e]
    by (auto simp: prices_def split: option.splits)
  have rest_err: "truthful e" if "in_turn rest = Inl e" for e :: "('a, 'i) order_error"
    using in_turn_error [OF that] rule_check_truthful [of _ _ _ e] tr(3)
    by (auto simp: rest_def split: option.splits if_splits)
  have eq: "check_order Some biggest rules sd kind price q =
      Some (case in_turn prices of Inl e \<Rightarrow> Inl e | Inr _ \<Rightarrow> in_turn rest)"
    unfolding check_order_def parts prod.case tr(1) prices_def rest_def Option.bind.bind_lunit
    by (simp split: sum.split del: in_turn.simps)
  show ?thesis
  proof (cases "in_turn prices")
    case (Inl e)
    then have "\<not> order_ok rules sd kind price q" using prices_ok by (auto simp: order_ok_def lim)
    with eq Inl prices_err show ?thesis by auto
  next
    case (Inr u)
    then have "order_ok rules sd kind price q \<longleftrightarrow> in_turn rest = Inr ()"
      using prices_ok rest_ok by (auto simp: order_ok_def lim)
    with eq Inr rest_err show ?thesis by (auto split: sum.split)
  qed
qed

text \<open>rounding to the grid. For a value a decimal holds and a rule with a step, under the laws of
decimal arithmetic, neither rounding panics. Whatever they return is on the grid. Rounding down a
value that is not negative returns the largest grid value below it, or nothing exactly when no
decimal holds that value; so does rounding up for one that is not positive; and both do so on either
sign when the grid value toward zero is a decimal.\<close>

lemma order_rules_rounding:
  assumes "rounding_laws R" and "rounds_to_nearest R" and "R v = Some v" and "rule_grid r = Some st"
  shows "rule_round_down R r v \<noteq> None \<and> rule_round_up R r v \<noteq> None \<and>
    (\<forall>y. rule_round_down R r v = Some (Some y) \<longrightarrow> grid_point st y) \<and>
    (\<forall>y. rule_round_up R r v = Some (Some y) \<longrightarrow> grid_point st y) \<and>
    (0 \<le> v \<or> R (inner_neighbour st v) = Some (inner_neighbour st v) \<longrightarrow> rule_round_down R r v =
      Some (if R (grid_floor st v) = Some (grid_floor st v) then Some (grid_floor st v) else None)) \<and>
    (v \<le> 0 \<or> R (inner_neighbour st v) = Some (inner_neighbour st v) \<longrightarrow> rule_round_up R r v =
      Some (if R (grid_ceil st v) = Some (grid_ceil st v) then Some (grid_ceil st v) else None))"
proof -
  have st: "0 < st" using assms(4) by (rule rule_grid_pos)
  have eqs: "rule_round_down R r v = round_down_to R v (Some st)" "rule_round_up R r v = round_up_to R v (Some st)"
    by (simp_all add: rule_round_down_def rule_round_up_def assms(4))
  show ?thesis
  proof (cases "grid_point st v")
    case True
    then show ?thesis
      using round_on_grid_value [OF st True, of R] grid_point_fixed [OF st True] assms(3) by (simp add: eqs)
  next
    case off: False
    let ?n = "inner_neighbour st v"
    obtain t where t: "R ?n = Some t"
      using toward_zero_in_range [OF assms(1,3) inner_bounds(1,2) [OF st]] by blast
    note rd = round_from_inner [where R = R, OF st off t]
    have floor: "\<bar>v - grid_floor st v\<bar> < st" "\<bar>v - grid_ceil st v\<bar> < st"
    proof -
      have step: "grid_ceil st v = grid_floor st v + st"
        using grid_rem_cases [OF st off] by (cases "0 \<le> v") auto
      have "grid_floor st v \<noteq> v" "grid_ceil st v \<noteq> v" using off grid_floor_point by metis+
      then show "\<bar>v - grid_floor st v\<bar> < st" "\<bar>v - grid_ceil st v\<bar> < st"
        using grid_floor_greatest(1) [OF st, of v] grid_ceil_least(1) [OF st, of v] step by auto
    qed
    note bf = bind_on_grid [OF assms(2,3) st grid_floor_point(1) floor(1)]
    note bc = bind_on_grid [OF assms(2,3) st grid_floor_point(2) floor(2)]
    have down: "round_down_to R v (Some st) =
        Some (if R (grid_floor st v) = Some (grid_floor st v) then Some (grid_floor st v) else None)"
      if "0 \<le> v \<or> R ?n = Some ?n"
    proof (cases "0 \<le> v")
      case True
      then have "R (grid_floor st v) = Some t" using t by (simp add: inner_neighbour_def)
      with True bf show ?thesis by (simp add: rd)
    next
      case False
      then have "t = grid_ceil st v" using that t by (simp add: inner_neighbour_def)
      then have "t - st = grid_floor st v" using grid_rem_cases(2) [OF st off] False by simp
      with False bf show ?thesis by (simp add: rd)
    qed
    have up: "round_up_to R v (Some st) =
        Some (if R (grid_ceil st v) = Some (grid_ceil st v) then Some (grid_ceil st v) else None)"
      if "v \<le> 0 \<or> R ?n = Some ?n"
    proof (cases "0 \<le> v")
      case False
      then have "R (grid_ceil st v) = Some t" using t by (simp add: inner_neighbour_def)
      with False bc show ?thesis by (simp add: rd)
    next
      case True
      have "v \<noteq> 0" using off unfolding grid_point_def by (metis mult_zero_left of_int_0)
      then have "t = grid_floor st v" using that True t by (simp add: inner_neighbour_def)
      then have "t + st = grid_ceil st v" using grid_rem_cases(1) [OF st off True] by simp
      with True bc show ?thesis by (simp add: rd)
    qed
    have "grid_point st y" if "Option.bind x (\<lambda>y. on_grid y st) = Some y" for x y
      using that st by (auto simp: bind_eq_Some_conv on_grid_eq split: if_splits)
    then have pts: "round_down_to R v (Some st) = Some (Some y) \<Longrightarrow> grid_point st y"
      "round_up_to R v (Some st) = Some (Some y) \<Longrightarrow> grid_point st y" for y
      using st by (auto simp: rd on_grid_eq split: if_splits)
    show ?thesis
      unfolding eqs using down up pts by (auto simp: rd)
  qed
qed

lemma exact_nearest: "rounds_to_nearest Some"
  by (simp add: rounds_to_nearest_def)

definition lot_rule :: value_rule where
  "lot_rule = value_rule_new 0 0 (1/20)"

lemma order_rules_rounding_witness:
  "rule_round_down Some lot_rule (19/100) = Some (Some (3/20)) \<and> rule_round_up Some lot_rule (19/100) = Some (Some (1/5))"
proof -
  have "rule_grid lot_rule = Some (1/20)" by (simp add: lot_rule_def value_rule_new_def rule_grid_def)
  moreover have floors: "\<lfloor>19 / 5 :: rat\<rfloor> = 3" "\<lceil>19 / 5 :: rat\<rceil> = 4"
    by (simp_all add: floor_eq_iff ceiling_eq_iff)
  ultimately show ?thesis
    using order_rules_rounding [OF rounding_laws_Some exact_nearest refl, of lot_rule "1/20" "19/100"]
    by (simp add: grid_floor_def grid_ceil_def)
qed

section \<open>The grid two rules share\<close>

lemma gcd_loop_gcd: "0 \<le> x \<Longrightarrow> 0 \<le> y \<Longrightarrow> gcd_loop x y = gcd x y"
proof (induction x y rule: gcd_loop.induct)
  case (1 x y)
  show ?case
  proof (cases "y = 0")
    case True
    with 1 show ?thesis by (simp add: gcd_loop.simps)
  next
    case False
    have "x smod y = x mod y"
      using 1 False by (cases "x = 0") (simp_all add: signed_modulo_int_def)
    with 1 False show ?thesis by (simp add: gcd_loop.simps [of x y] gcd_red_int [of x y] gcd.commute)
  qed
qed

text \<open>The parts of a decimal are a mantissa and scale of its value, and so is what is rebuilt.\<close>

definition parts_laws :: "decimal_parts \<Rightarrow> bool" where
  "parts_laws D \<longleftrightarrow> (\<forall>m s v. dp_from_parts D m s = Some v \<longrightarrow> v = of_int m / 10 ^ s)"

definition has_parts :: "decimal_parts \<Rightarrow> decimal \<Rightarrow> bool" where
  "has_parts D v \<longleftrightarrow> v = of_int (fst (dp_parts D v)) / 10 ^ snd (dp_parts D v)"

lemma common_step_grid:
  assumes "parts_laws D" and "has_parts D a" and "has_parts D b" and "0 < a" and "0 < b"
    and "common_step D a b = Some st"
  shows "0 < st" and "grid_point st v \<longleftrightarrow> grid_point a v \<and> grid_point b v"
proof -
  define S where "S = max (snd (dp_parts D a)) (snd (dp_parts D b))"
  define u :: rat where "u = 10 ^ S"
  have u: "0 < u" by (simp add: u_def)
  define x where "x = fst (dp_parts D a) * 10 ^ (S - snd (dp_parts D a))"
  define y where "y = fst (dp_parts D b) * 10 ^ (S - snd (dp_parts D b))"
  have scale: "of_int (m * 10 ^ (S - s)) = of_int m / 10 ^ s * u" if "s \<le> S" for m s
  proof -
    have "(10 :: rat) ^ S = 10 ^ (S - s) * 10 ^ s" using that by (simp flip: power_add)
    then show ?thesis by (simp add: u_def)
  qed
  have xa: "of_int x = a * u" and yb: "of_int y = b * u"
  proof -
    have "of_int x = of_int (fst (dp_parts D a)) / 10 ^ snd (dp_parts D a) * u"
      "of_int y = of_int (fst (dp_parts D b)) / 10 ^ snd (dp_parts D b) * u"
      using scale [of "snd (dp_parts D a)"] scale [of "snd (dp_parts D b)"] by (simp_all add: x_def y_def S_def)
    then show "of_int x = a * u" "of_int y = b * u"
      by (simp_all only: assms(2,3) [unfolded has_parts_def, symmetric])
  qed
  have pos: "0 < x" "0 < y"
    using assms(4,5) u xa yb by (simp_all flip: of_int_0_less_iff [where 'a = rat])
  have "x sdiv gcd_loop x y * y = lcm x y"
  proof -
    have "x sdiv gcd x y = x div gcd x y" using pos by (simp add: signed_divide_int_def)
    moreover have "x div gcd x y * y = lcm x y"
    proof -
      define g where "g = gcd x y"
      have g: "0 < g" using pos by (simp add: g_def)
      obtain k where k: "x = g * k" unfolding g_def by (metis dvdE gcd_dvd1)
      have "g * lcm x y = x * y" using pos prod_gcd_lcm_int [of x y] by (simp add: g_def)
      then have "lcm x y = k * y" using g by (subst (asm) (2) k) (simp add: mult.assoc)
      moreover have "x div g = k" using g by (subst k) simp
      ultimately show ?thesis by (simp add: g_def)
    qed
    ultimately show ?thesis using pos by (simp add: gcd_loop_gcd)
  qed
  then have "dp_from_parts D (lcm x y) S = Some st"
    using assms(6) by (auto simp: common_step_def S_def [symmetric] x_def [symmetric] y_def [symmetric] i128_def
        Let_def bind_eq_Some_conv split: if_splits)
  then have "st = of_int (lcm x y) / 10 ^ S" using assms(1) unfolding parts_laws_def by blast
  then have st: "st * u = of_int (lcm x y)" using u by (simp add: u_def)
  have "0 < lcm x y" using pos by (simp add: lcm_pos_int)
  then have "0 < st * u" by (simp add: st)
  then show "0 < st" using u by (simp add: zero_less_mult_iff)
  show "grid_point st v \<longleftrightarrow> grid_point a v \<and> grid_point b v"
  proof
    assume "grid_point st v"
    then obtain k where k: "v = of_int k * st" by (auto simp: grid_point_def)
    obtain i j where ij: "lcm x y = i * x" "lcm x y = j * y" by (metis dvdE dvd_lcm1 dvd_lcm2 mult.commute)
    have "st * u = of_int i * a * u" "st * u = of_int j * b * u"
      using st ij xa yb by (metis mult.assoc of_int_mult)+
    then have "st = of_int i * a" "st = of_int j * b" using u by simp_all
    then have "v = of_int (k * i) * a" "v = of_int (k * j) * b" using k by simp_all
    then show "grid_point a v \<and> grid_point b v" unfolding grid_point_def by blast
  next
    assume "grid_point a v \<and> grid_point b v"
    then obtain k l where kl: "v = of_int k * a" "v = of_int l * b"
      unfolding grid_point_def by blast
    then have n: "v * u = of_int (k * x)" "v * u = of_int (l * y)" by (simp_all add: xa yb)
    then have "k * x = l * y" by (metis of_int_eq_iff)
    then have "lcm x y dvd k * x" by (intro lcm_least) (simp_all, metis dvd_triv_right)
    then obtain m where "k * x = lcm x y * m" by (rule dvdE)
    then have "v * u = of_int m * st * u" using n(1) st by (simp add: mult.commute mult.left_commute)
    then have "v = of_int m * st" using u by simp
    then show "grid_point st v" unfolding grid_point_def by blast
  qed
qed

text \<open>a market order's quantity is rounded onto both grids. When the quantity rule and the market rule
each have a step, the loop that finds their common step ends, and the quantity rounded down, when a
decimal can hold the common step, is the largest at or below the given one that is on both grids,
so that neither rule refuses it for its grid; rounded up, the smallest at or above it.\<close>

lemma order_rules_market_grid:
  assumes "parts_laws D" and "rule_grid (or_quantity rules) = Some a" and "rule_grid (or_market_quantity rules) = Some b"
    and "has_parts D a" and "has_parts D b"
  shows "(case common_step D a b of
      None \<Rightarrow> round_quantity_down Some D rules Market q = Some None \<and> round_quantity_up Some D rules Market q = Some None
    | Some st \<Rightarrow> \<exists>y z. round_quantity_down Some D rules Market q = Some (Some y) \<and>
        round_quantity_up Some D rules Market q = Some (Some z) \<and> y \<le> q \<and> q \<le> z \<and>
        grid_point a y \<and> grid_point b y \<and> grid_point a z \<and> grid_point b z \<and>
        (\<forall>g. grid_point a g \<and> grid_point b g \<longrightarrow> (g \<le> q \<longrightarrow> g \<le> y) \<and> (q \<le> g \<longrightarrow> z \<le> g)))"
proof (cases "common_step D a b")
  case None
  then show ?thesis by (simp add: round_quantity_down_def round_quantity_up_def quantity_grid_def assms Let_def)
next
  case (Some st)
  have pos: "0 < a" "0 < b" using rule_grid_pos assms(2,3) by blast+
  note grid = common_step_grid [OF assms(1,4,5) pos Some]
  note st = grid(1)
  have eqs: "round_quantity_down Some D rules Market q = round_down_to Some q (Some st)"
    "round_quantity_up Some D rules Market q = round_up_to Some q (Some st)"
    by (simp_all add: round_quantity_down_def round_quantity_up_def quantity_grid_def assms Some Let_def)
  have "round_down_to Some q (Some st) = Some (Some (grid_floor st q)) \<and>
      round_up_to Some q (Some st) = Some (Some (grid_ceil st q))"
  proof (cases "grid_point st q")
    case True
    then show ?thesis using round_on_grid_value [OF st True, of Some] grid_point_fixed [OF st True] by simp
  next
    case off: False
    have inner: "Some (inner_neighbour st q) = Some (inner_neighbour st q)" by simp
    have pts: "on_grid (grid_floor st q) st = Some (grid_floor st q)" "on_grid (grid_ceil st q) st = Some (grid_ceil st q)"
      using st by (simp_all add: on_grid_eq)
    show ?thesis
    proof (cases "0 \<le> q")
      case True
      then have "grid_floor st q + st = grid_ceil st q" using grid_rem_cases(1) [OF st off True] by simp
      then show ?thesis
        using round_from_inner [where R = Some, OF st off inner] True pts by (simp add: inner_neighbour_def)
    next
      case False
      then have "grid_ceil st q - st = grid_floor st q" using grid_rem_cases(2) [OF st off] by simp
      then show ?thesis
        using round_from_inner [where R = Some, OF st off inner] False pts by (simp add: inner_neighbour_def)
    qed
  qed
  moreover have "grid_point a (grid_floor st q) \<and> grid_point b (grid_floor st q)"
    "grid_point a (grid_ceil st q) \<and> grid_point b (grid_ceil st q)"
    using grid(2) grid_floor_point by blast+
  moreover have "(g \<le> q \<longrightarrow> g \<le> grid_floor st q) \<and> (q \<le> g \<longrightarrow> grid_ceil st q \<le> g)"
    if "grid_point a g \<and> grid_point b g" for g
    using grid_floor_greatest(2) [OF st] grid_ceil_least(2) [OF st] grid(2) that by blast
  ultimately show ?thesis
    using grid_floor_greatest(1) [OF st, of q] grid_ceil_least(1) [OF st, of q] unfolding eqs Some by auto
qed

definition milli_parts :: decimal_parts where
  "milli_parts = \<lparr>dp_parts = (\<lambda>v. (\<lfloor>v * 1000\<rfloor>, 3)),
     dp_from_parts = (\<lambda>m s. if \<bar>m\<bar> < 2 ^ 96 \<and> s \<le> 28 then Some (of_int m / 10 ^ s) else None)\<rparr>"

definition two_lots :: order_rules where
  "two_lots = order_rules_new value_rule_default (value_rule_new 0 0 (1/50)) (value_rule_new 0 0 (3/100)) value_rule_default"

lemma order_rules_market_grid_witness:
  "\<exists>y. round_quantity_down Some milli_parts two_lots Market (1/4) = Some (Some y) \<and> y \<le> 1/4 \<and>
     grid_point (1/50) y \<and> grid_point (3/100) y \<and> 6/25 \<le> y"
proof -
  have laws: "parts_laws milli_parts" by (auto simp: parts_laws_def milli_parts_def)
  have steps: "rule_grid (or_quantity two_lots) = Some (1/50)" "rule_grid (or_market_quantity two_lots) = Some (3/100)"
    by (simp_all add: two_lots_def order_rules_new_def value_rule_new_def rule_grid_def)
  have floors: "\<lfloor>20 :: rat\<rfloor> = 20" "\<lfloor>30 :: rat\<rfloor> = 30" by simp_all
  have parts: "has_parts milli_parts (1/50)" "has_parts milli_parts (3/100)"
    by (simp_all add: has_parts_def milli_parts_def)
  have "gcd_loop 20 30 = 10" by (simp add: gcd_loop.simps signed_modulo_int_def)
  then have common: "common_step milli_parts (1/50) (3/100) = Some (3/50)"
    by (simp add: common_step_def milli_parts_def i128_def signed_divide_int_def)
  have "grid_point (1/50) (6/25)" "grid_point (3/100) (6/25)"
    unfolding grid_point_def by (rule exI [of _ 12], simp) (rule exI [of _ 8], simp)
  with order_rules_market_grid [OF laws steps parts, of "1/4"] show ?thesis
    unfolding common by auto
qed

end
