(* ===== verification/Venue_Market.thy ===== *)
theory Venue_Market
  imports Order_Model
begin

text \<open>
  What a simulated venue prices a fill from: the market of an instrument and the size on offer
  (\<open>rustrade-execution/src/market.rs\<close>), the models that price a fill (\<open>fill.rs\<close>), the adverse
  slippage with its random stream (\<open>slippage.rs\<close>) and the fees (\<open>fee.rs\<close>). The generator of random
  numbers and the rounding of a drawn rate are third-party code and parameters.
\<close>

section \<open>Markets and sizes\<close>

record market_snapshot =
  ms_best_bid :: "decimal option"
  ms_best_ask :: "decimal option"
  ms_last_price :: "decimal option"

definition from_last_price :: "decimal option \<Rightarrow> market_snapshot" where
  "from_last_price p = \<lparr>ms_best_bid = None, ms_best_ask = None, ms_last_price = p\<rparr>"

definition snapshot_is_empty :: "market_snapshot \<Rightarrow> bool" where
  "snapshot_is_empty s \<longleftrightarrow> ms_best_bid s = None \<and> ms_best_ask s = None \<and> ms_last_price s = None"

definition snapshot_mid_price :: "rounding \<Rightarrow> market_snapshot \<Rightarrow> decimal option option" where
  "snapshot_mid_price R s =
     (case (ms_best_bid s, ms_best_ask s) of
        (Some bid, Some ask) \<Rightarrow> do { t \<leftarrow> dec_add R bid ask; m \<leftarrow> dec_div R t 2; Some (Some m) }
      | _ \<Rightarrow> Some None)"

record market_bar =
  mb_open :: decimal
  mb_high :: decimal
  mb_low :: decimal
  mb_close :: decimal

record market_depth =
  dp_best_bid :: "decimal option"
  dp_best_ask :: "decimal option"

definition depth_unknown :: market_depth where
  "depth_unknown = \<lparr>dp_best_bid = None, dp_best_ask = None\<rparr>"

definition available_to :: "side \<Rightarrow> market_depth \<Rightarrow> decimal option" where
  "available_to sd d = (case sd of Buy \<Rightarrow> dp_best_ask d | Sell \<Rightarrow> dp_best_bid d)"

definition draw_down :: "rounding \<Rightarrow> decimal \<Rightarrow> decimal option \<Rightarrow> decimal option option" where
  "draw_down R q avail =
     (case avail of
        None \<Rightarrow> Some None
      | Some a \<Rightarrow> do { x \<leftarrow> dec_sub R a q; Some (Some (max x 0)) })"

definition depth_consume :: "rounding \<Rightarrow> side \<Rightarrow> decimal \<Rightarrow> market_depth \<Rightarrow> market_depth option" where
  "depth_consume R sd q d =
     (case sd of
        Buy \<Rightarrow> do { a \<leftarrow> draw_down R q (dp_best_ask d); Some (d\<lparr>dp_best_ask := a\<rparr>) }
      | Sell \<Rightarrow> do { a \<leftarrow> draw_down R q (dp_best_bid d); Some (d\<lparr>dp_best_bid := a\<rparr>) })"

record market_observation =
  mo_snapshot :: market_snapshot
  mo_depth :: market_depth
  mo_bar :: "market_bar option"
  mo_fresh :: bool

definition market_observation_new :: "market_snapshot \<Rightarrow> market_observation" where
  "market_observation_new s = \<lparr>mo_snapshot = s, mo_depth = depth_unknown, mo_bar = None, mo_fresh = True\<rparr>"

section \<open>Fill models\<close>

text \<open>
  A fill model prices an order of a side and a quantity from a market. The outer option is a panic
  of its arithmetic, the inner one the absence of a price.
\<close>

type_synonym fill_model = "side \<Rightarrow> decimal \<Rightarrow> market_snapshot \<Rightarrow> decimal option option"

datatype sim_fill_config = FillLastPrice | FillBidAsk | FillMidpoint

definition or_else :: "'v option \<Rightarrow> 'v option \<Rightarrow> 'v option" where
  "or_else a b = (case a of None \<Rightarrow> b | Some _ \<Rightarrow> a)"

definition last_price_fill :: fill_model where
  "last_price_fill sd q s = Some (or_else (ms_last_price s)
     (case sd of Buy \<Rightarrow> ms_best_ask s | Sell \<Rightarrow> ms_best_bid s))"

definition bid_ask_fill :: fill_model where
  "bid_ask_fill sd q s = Some (case sd of
       Buy \<Rightarrow> or_else (ms_best_ask s) (ms_last_price s)
     | Sell \<Rightarrow> or_else (ms_best_bid s) (ms_last_price s))"

definition midpoint_fill :: "rounding \<Rightarrow> fill_model" where
  "midpoint_fill R sd q s = do {
     m \<leftarrow> snapshot_mid_price R s;
     Some (or_else m (ms_last_price s))
   }"

fun sim_fill_price :: "rounding \<Rightarrow> sim_fill_config \<Rightarrow> fill_model" where
  "sim_fill_price R FillLastPrice = last_price_fill"
| "sim_fill_price R FillBidAsk = bid_ask_fill"
| "sim_fill_price R FillMidpoint = midpoint_fill R"

datatype next_bar_price = BarOpen | AdverseExtreme

datatype market_order_timing = OnArrival | NextBar next_bar_price

text \<open>The age is a duration in the unit of the time stamps.\<close>

datatype stale_market_policy = StaleOff | StaleWait int

fun bar_reference :: "next_bar_price \<Rightarrow> side \<Rightarrow> market_bar \<Rightarrow> decimal" where
  "bar_reference BarOpen _ bar = mb_open bar"
| "bar_reference AdverseExtreme Buy bar = mb_high bar"
| "bar_reference AdverseExtreme Sell bar = mb_low bar"

section \<open>Slippage\<close>

datatype slippage_config = NoSlippage | FixedRate decimal | UniformRate decimal decimal u64

datatype slippage_config_error =
    SlipNegative decimal
  | SlipNotBelowOne decimal
  | SlipInverted decimal decimal

fun slip_low :: "slippage_config \<Rightarrow> decimal" where
  "slip_low NoSlippage = 0"
| "slip_low (FixedRate r) = r"
| "slip_low (UniformRate lo _ _) = lo"

fun slip_high :: "slippage_config \<Rightarrow> decimal" where
  "slip_high NoSlippage = 0"
| "slip_high (FixedRate r) = r"
| "slip_high (UniformRate _ hi _) = hi"

fun slip_seed :: "slippage_config \<Rightarrow> u64 option" where
  "slip_seed (UniformRate _ _ s) = Some s"
| "slip_seed _ = None"

definition slippage_try_from :: "slippage_config \<Rightarrow> slippage_config_error + slippage_config" where
  "slippage_try_from c =
     (let check = (\<lambda>lo hi.
        if lo < 0 then Inl (SlipNegative lo)
        else if 1 \<le> hi then Inl (SlipNotBelowOne hi)
        else if hi < lo then Inl (SlipInverted lo hi)
        else Inr c)
      in case c of
           NoSlippage \<Rightarrow> Inr c
         | FixedRate r \<Rightarrow> check r r
         | UniformRate lo hi _ \<Rightarrow> check lo hi)"

text \<open>
  The generator is a state \<open>'g\<close> with a function that seeds it and one that yields its next value;
  \<open>rdp\<close> rounds a rate to the places a drawn rate keeps.
\<close>

record 'g slippage =
  sl_config :: slippage_config
  sl_rng :: 'g
  sl_draws :: u64

definition slippage_new :: "(u64 \<Rightarrow> 'g) \<Rightarrow> slippage_config \<Rightarrow> 'g slippage" where
  "slippage_new seed_from c =
     \<lparr>sl_config = c, sl_rng = seed_from (case slip_seed c of None \<Rightarrow> 0 | Some s \<Rightarrow> s), sl_draws = 0\<rparr>"

definition slippage_resumed ::
  "(u64 \<Rightarrow> 'g) \<Rightarrow> ('g \<Rightarrow> u64 \<times> 'g) \<Rightarrow> slippage_config \<Rightarrow> u64 \<Rightarrow> 'g slippage" where
  "slippage_resumed seed_from next_u64 c draws =
     (let s = slippage_new seed_from c
      in s\<lparr>sl_rng := ((snd \<circ> next_u64) ^^ unat draws) (sl_rng s), sl_draws := draws\<rparr>)"

definition slippage_draw ::
  "rounding \<Rightarrow> (decimal \<Rightarrow> decimal) \<Rightarrow> ('g \<Rightarrow> u64 \<times> 'g) \<Rightarrow> 'g slippage \<Rightarrow> (decimal \<times> 'g slippage) option" where
  "slippage_draw R rdp next_u64 s =
     (let lo = slip_low (sl_config s); hi = slip_high (sl_config s)
      in if lo = hi then Some (lo, s)
         else case next_u64 (sl_rng s) of (k, g) \<Rightarrow> do {
           unit \<leftarrow> dec_div R (of_nat (unat k)) (of_nat (unat (- 1 :: u64)));
           width \<leftarrow> dec_sub R hi lo;
           part \<leftarrow> dec_mul R width unit;
           rate \<leftarrow> dec_add R lo part;
           Some (max lo (min hi (rdp rate)), s\<lparr>sl_draws := sl_draws s + 1, sl_rng := g\<rparr>)
         })"

definition slippage_apply ::
  "rounding \<Rightarrow> (decimal \<Rightarrow> decimal) \<Rightarrow> ('g \<Rightarrow> u64 \<times> 'g) \<Rightarrow> side \<Rightarrow> decimal \<Rightarrow> 'g slippage
     \<Rightarrow> (decimal \<times> 'g slippage) option" where
  "slippage_apply R rdp next_u64 sd reference s = do {
     (rate, s') \<leftarrow> slippage_draw R rdp next_u64 s;
     if rate = 0 then Some (reference, s')
     else do {
       f \<leftarrow> (case sd of Buy \<Rightarrow> dec_add R 1 rate | Sell \<Rightarrow> dec_sub R 1 rate);
       p \<leftarrow> dec_mul R reference f;
       Some (p, s')
     }
   }"

section \<open>Fees\<close>

datatype liquidity = Taker | Maker

record percentage_fee =
  pf_rate :: decimal
  pf_maker_rate :: "decimal option"

datatype fee_model_config = ZeroFee | PerContractFee decimal | PercentageFee percentage_fee

definition rate_for :: "percentage_fee \<Rightarrow> liquidity \<Rightarrow> decimal" where
  "rate_for m l = (case l of
       Maker \<Rightarrow> (case pf_maker_rate m of None \<Rightarrow> pf_rate m | Some r \<Rightarrow> r)
     | Taker \<Rightarrow> pf_rate m)"

fun compute_fee ::
  "rounding \<Rightarrow> fee_model_config \<Rightarrow> decimal \<Rightarrow> decimal \<Rightarrow> decimal \<Rightarrow> liquidity \<Rightarrow> decimal option" where
  "compute_fee R ZeroFee price quantity csize l = Some 0"
| "compute_fee R (PerContractFee commission) price quantity csize l = dec_mul R commission \<bar>quantity\<bar>"
| "compute_fee R (PercentageFee m) price quantity csize l = do {
     a \<leftarrow> dec_mul R (rate_for m l) price;
     b \<leftarrow> dec_mul R a \<bar>quantity\<bar>;
     dec_mul R b csize
   }"

datatype spot_fee_asset = FeeInQuote | FeeInReceived

record fee_asset_config =
  fa_asset :: string
  fa_discount :: decimal

datatype fee_asset_config_error = DiscountOutOfRange decimal

definition fee_asset_config_new :: "string \<Rightarrow> decimal \<Rightarrow> fee_asset_config_error + fee_asset_config" where
  "fee_asset_config_new a discount =
     (if discount < 0 \<or> 1 < discount then Inl (DiscountOutOfRange discount)
      else Inr \<lparr>fa_asset = a, fa_discount = discount\<rparr>)"

end
