(* ===== verification/Settlement.thy ===== *)
theory Settlement
  imports Venue_Market Mock_Account
begin

text \<open>
  What one order costs on a simulated venue, and what an arriving order does, the pure part of
  \<open>rustrade-execution/src/exchange/mock/venue.rs\<close>: the terms of an instrument
  (\<open>rustrade-instrument/src/instrument/kind\<close>), the net position a cash-settled fill trades against,
  the settlement of a fill or a reservation, the supported kinds and times in force, and the
  disposition of an arriving order. A decimal has no negative zero here.
\<close>

section \<open>Instruments\<close>

datatype option_kind = Call | Put

datatype option_exercise = American | Bermudan | European

record 'a contract =
  ct_contract_size :: decimal
  ct_settlement_asset :: 'a

record 'a future_contract = "'a contract" +
  fc_expiry :: time

record 'a option_contract = "'a contract" +
  oc_kind :: option_kind
  oc_exercise :: option_exercise
  oc_expiry :: time
  oc_strike :: decimal

datatype 'a instrument_kind =
    Spot
  | Perpetual "'a contract"
  | Future "'a future_contract"
  | OptionKind "'a option_contract"
  | Cfd "'a contract"

fun kind_contract_size :: "'a instrument_kind \<Rightarrow> decimal" where
  "kind_contract_size Spot = 1"
| "kind_contract_size (Perpetual c) = ct_contract_size c"
| "kind_contract_size (Future c) = ct_contract_size c"
| "kind_contract_size (OptionKind c) = ct_contract_size c"
| "kind_contract_size (Cfd c) = ct_contract_size c"

fun kind_expiry :: "'a instrument_kind \<Rightarrow> time option" where
  "kind_expiry Spot = None"
| "kind_expiry (Perpetual c) = None"
| "kind_expiry (Future c) = Some (fc_expiry c)"
| "kind_expiry (OptionKind c) = Some (oc_expiry c)"
| "kind_expiry (Cfd c) = None"

fun kind_settlement_asset :: "'a instrument_kind \<Rightarrow> 'a option" where
  "kind_settlement_asset Spot = None"
| "kind_settlement_asset (Perpetual c) = Some (ct_settlement_asset c)"
| "kind_settlement_asset (Future c) = Some (ct_settlement_asset c)"
| "kind_settlement_asset (OptionKind c) = Some (ct_settlement_asset c)"
| "kind_settlement_asset (Cfd c) = Some (ct_settlement_asset c)"

fun kind_is_split_eligible :: "'a instrument_kind \<Rightarrow> bool" where
  "kind_is_split_eligible Spot = True"
| "kind_is_split_eligible (Perpetual c) = False"
| "kind_is_split_eligible (Future c) = False"
| "kind_is_split_eligible (OptionKind c) = False"
| "kind_is_split_eligible (Cfd c) = False"

record 'a underlying =
  un_base :: 'a
  un_quote :: 'a

text \<open>The fields of an instrument that the venue reads.\<close>

record venue_instrument =
  vi_name :: instrument_name
  vi_underlying :: "asset_name underlying"
  vi_kind :: "asset_name instrument_kind"

record instrument_terms =
  it_underlying :: "asset_name underlying"
  it_contract_size :: decimal
  it_cash_settled :: bool

definition find_instrument_data ::
  "(instrument_name \<rightharpoonup> venue_instrument) \<Rightarrow> instrument_name
     \<Rightarrow> (asset_name, instrument_name) api_error + venue_instrument" where
  "find_instrument_data instruments i =
     (case instruments i of
        Some d \<Rightarrow> Inr d
      | None \<Rightarrow> Inl (InstrumentInvalid i ''SimulatedVenue is not set-up for managing''))"

fun settlement_of_supported_kind ::
  "instrument_name \<Rightarrow> asset_name instrument_kind \<Rightarrow> (asset_name, instrument_name) api_error + bool" where
  "settlement_of_supported_kind i Spot = Inr False"
| "settlement_of_supported_kind i (Cfd _) = Inr True"
| "settlement_of_supported_kind i (Perpetual _) = Inl (InstrumentInvalid i ''InstrumentKind::Perpetual'')"
| "settlement_of_supported_kind i (Future _) = Inl (InstrumentInvalid i ''InstrumentKind::Future'')"
| "settlement_of_supported_kind i (OptionKind _) = Inl (InstrumentInvalid i ''InstrumentKind::Option'')"

definition terms_of ::
  "(instrument_name \<rightharpoonup> venue_instrument) \<Rightarrow> instrument_name
     \<Rightarrow> (asset_name, instrument_name) api_error + instrument_terms" where
  "terms_of instruments i =
     (case find_instrument_data instruments i of
        Inl e \<Rightarrow> Inl e
      | Inr d \<Rightarrow> (case settlement_of_supported_kind (vi_name d) (vi_kind d) of
            Inl e \<Rightarrow> Inl e
          | Inr cash \<Rightarrow> Inr \<lparr>it_underlying = vi_underlying d,
              it_contract_size = kind_contract_size (vi_kind d), it_cash_settled = cash\<rparr>))"

section \<open>The net position\<close>

record net_position =
  np_quantity :: decimal
  np_entry :: decimal

definition net_position_default :: net_position where
  "net_position_default = \<lparr>np_quantity = 0, np_entry = 0\<rparr>"

definition np_is_long :: "net_position \<Rightarrow> bool" where
  "np_is_long p \<longleftrightarrow> 0 < np_quantity p"

definition np_closing :: "side \<Rightarrow> decimal \<Rightarrow> net_position \<Rightarrow> decimal" where
  "np_closing sd quantity p =
     (let opposes = (case sd of Buy \<Rightarrow> np_quantity p < 0 | Sell \<Rightarrow> np_is_long p)
      in if opposes then min quantity \<bar>np_quantity p\<bar> else 0)"

definition np_after ::
  "rounding \<Rightarrow> side \<Rightarrow> decimal \<Rightarrow> decimal \<Rightarrow> net_position \<Rightarrow> net_position option" where
  "np_after R sd quantity price p =
     (let signed = (case sd of Buy \<Rightarrow> quantity | Sell \<Rightarrow> - quantity)
      in do {
        next \<leftarrow> dec_add R (np_quantity p) signed;
        entry \<leftarrow>
          (if next = 0 then Some 0
           else if np_quantity p = 0 \<or> (next < 0) \<noteq> (np_quantity p < 0) then Some price
           else if (signed < 0) = (np_quantity p < 0) then do {
             held \<leftarrow> dec_mul R (np_entry p) \<bar>np_quantity p\<bar>;
             added \<leftarrow> dec_mul R price quantity;
             value \<leftarrow> dec_add R held added;
             dec_div R value \<bar>next\<bar>
           }
           else Some (np_entry p));
        Some \<lparr>np_quantity = next, np_entry = entry\<rparr>
      })"

text \<open>
  The positions of the venue: a position closed has no entry. The second result says whether one
  was opened or closed, which is when the venue recomputes its next charge.
\<close>

definition positions_record_fill ::
  "rounding \<Rightarrow> instrument_terms \<Rightarrow> instrument_name \<Rightarrow> side \<Rightarrow> decimal \<Rightarrow> decimal
     \<Rightarrow> (instrument_name \<rightharpoonup> net_position) \<Rightarrow> ((instrument_name \<rightharpoonup> net_position) \<times> bool) option" where
  "positions_record_fill R terms i sd quantity price positions =
     (if \<not> it_cash_settled terms then Some (positions, False)
      else case positions i of
        Some p \<Rightarrow> do {
          p' \<leftarrow> np_after R sd quantity price p;
          Some (if np_quantity p' = 0 then (positions(i := None), True) else (positions(i \<mapsto> p'), False))
        }
      | None \<Rightarrow> do {
          p' \<leftarrow> np_after R sd quantity price net_position_default;
          Some (if np_quantity p' \<noteq> 0 then (positions(i \<mapsto> p'), True) else (positions, False))
        })"

definition position_of :: "instrument_terms \<Rightarrow> instrument_name \<Rightarrow> (instrument_name \<rightharpoonup> net_position) \<Rightarrow> net_position" where
  "position_of terms i positions =
     (if \<not> it_cash_settled terms then net_position_default
      else case positions i of None \<Rightarrow> net_position_default | Some p \<Rightarrow> p)"

section \<open>Settlements\<close>

record settlement =
  st_asset :: asset_name
  st_amount :: decimal
  st_credit :: credit
  st_fees :: "asset_name asset_fees"
  st_fee_apart :: bool

definition requirement :: "rounding \<Rightarrow> settlement \<Rightarrow> decimal option" where
  "requirement R s =
     (case st_credit s of
        PaidBack c \<Rightarrow> do { x \<leftarrow> dec_sub R (st_amount s) c; Some (max x 0) }
      | Deliver _ \<Rightarrow> Some (st_amount s))"

definition settled_debit :: "settlement \<Rightarrow> debit" where
  "settled_debit s = \<lparr>db_asset = st_asset s, db_settled = st_amount s, db_reserved = 0\<rparr>"

definition reserved_debit :: "rounding \<Rightarrow> settlement \<Rightarrow> debit option" where
  "reserved_debit R s = do {
     r \<leftarrow> requirement R s;
     Some \<lparr>db_asset = st_asset s, db_settled = 0, db_reserved = r\<rparr>
   }"

definition settled_holding :: "rounding \<Rightarrow> settlement \<Rightarrow> settlement \<Rightarrow> debit option" where
  "settled_holding R remainder s = do {
     r \<leftarrow> requirement R remainder;
     Some \<lparr>db_asset = st_asset s, db_settled = st_amount s, db_reserved = r\<rparr>
   }"

text \<open>The settlement of a fill of a cash-settled instrument, which pays and receives quote.\<close>

definition cash_settlement ::
  "rounding \<Rightarrow> instrument_terms \<Rightarrow> net_position \<Rightarrow> side \<Rightarrow> decimal \<Rightarrow> decimal \<Rightarrow> decimal \<Rightarrow> settlement option" where
  "cash_settlement R terms p sd quantity price fees_quote = do {
     let closing = np_closing sd quantity p;
     opening \<leftarrow> dec_sub R quantity closing;
     m \<leftarrow> dec_mul R price opening;
     open_margin \<leftarrow> dec_mul R m (it_contract_size terms);
     c \<leftarrow> dec_mul R closing (it_contract_size terms);
     unit \<leftarrow> (if np_is_long p then Some price
       else do { e \<leftarrow> dec_add R (np_entry p) (np_entry p); dec_sub R e price });
     close_proceeds \<leftarrow> dec_mul R c unit;
     let (credit, shortfall) = (if close_proceeds < 0 then (0, - close_proceeds) else (close_proceeds, 0));
     a \<leftarrow> dec_add R open_margin fees_quote;
     amount \<leftarrow> dec_add R a shortfall;
     Some \<lparr>st_asset = un_quote (it_underlying terms), st_amount = amount, st_credit = PaidBack credit,
       st_fees = \<lparr>af_asset = un_quote (it_underlying terms), af_fees = fees_quote, af_fees_quote = Some fees_quote\<rparr>,
       st_fee_apart = False\<rparr>
   }"

text \<open>The settlement of a spot fill, which exchanges the two assets.\<close>

definition spot_settlement ::
  "rounding \<Rightarrow> spot_fee_asset \<Rightarrow> instrument_terms \<Rightarrow> side \<Rightarrow> decimal \<Rightarrow> decimal \<Rightarrow> decimal \<Rightarrow> settlement option" where
  "spot_settlement R rule terms sd quantity price fees_quote = do {
     let base = un_base (it_underlying terms);
     let quote = un_quote (it_underlying terms);
     let fees = \<lparr>af_asset = quote, af_fees = fees_quote, af_fees_quote = Some fees_quote\<rparr>;
     n \<leftarrow> dec_mul R price quantity;
     notional \<leftarrow> dec_mul R n (it_contract_size terms);
     (case sd of
        Buy \<Rightarrow>
          if rule = FeeInReceived \<and> 0 < price \<and> fees_quote \<noteq> 0 then do {
            fee_base \<leftarrow> dec_div R fees_quote price;
            received \<leftarrow> dec_sub R quantity fee_base;
            Some \<lparr>st_asset = quote, st_amount = notional,
              st_credit = Deliver \<lparr>dl_asset = base, dl_amount = received\<rparr>,
              st_fees = \<lparr>af_asset = base, af_fees = fee_base, af_fees_quote = Some fees_quote\<rparr>,
              st_fee_apart = False\<rparr>
          }
          else do {
            amount \<leftarrow> dec_add R notional fees_quote;
            Some \<lparr>st_asset = quote, st_amount = amount,
              st_credit = Deliver \<lparr>dl_asset = base, dl_amount = quantity\<rparr>,
              st_fees = fees, st_fee_apart = False\<rparr>
          }
      | Sell \<Rightarrow> do {
          received \<leftarrow> dec_sub R notional fees_quote;
          Some \<lparr>st_asset = base, st_amount = quantity,
            st_credit = Deliver \<lparr>dl_asset = quote, dl_amount = received\<rparr>,
            st_fees = fees, st_fee_apart = False\<rparr>
        })
   }"

definition settlement_with_fee ::
  "rounding \<Rightarrow> spot_fee_asset \<Rightarrow> instrument_terms \<Rightarrow> net_position \<Rightarrow> side \<Rightarrow> decimal \<Rightarrow> decimal \<Rightarrow> decimal
     \<Rightarrow> settlement option" where
  "settlement_with_fee R rule terms p sd quantity price fees_quote =
     (if it_cash_settled terms then cash_settlement R terms p sd \<bar>quantity\<bar> price fees_quote
      else spot_settlement R rule terms sd \<bar>quantity\<bar> price fees_quote)"

definition order_settlement ::
  "rounding \<Rightarrow> fee_model_config \<Rightarrow> spot_fee_asset \<Rightarrow> instrument_terms \<Rightarrow> net_position \<Rightarrow> side
     \<Rightarrow> decimal \<Rightarrow> decimal \<Rightarrow> liquidity \<Rightarrow> settlement option" where
  "order_settlement R fee_model rule terms p sd quantity price l = do {
     fees_quote \<leftarrow> compute_fee R fee_model price \<bar>quantity\<bar> (it_contract_size terms) l;
     settlement_with_fee R rule terms p sd quantity price fees_quote
   }"

section \<open>Arriving orders\<close>

datatype venue_regime = RequestPriced | MarketDriven

definition validate_order_kind_supported ::
  "venue_regime \<Rightarrow> order_kind \<Rightarrow> (asset_name, instrument_name) order_error + unit" where
  "validate_order_kind_supported regime kind =
     (case (kind, regime) of
        (Market, _) \<Rightarrow> Inr ()
      | (Limit, MarketDriven) \<Rightarrow> Inr ()
      | (Limit, RequestPriced) \<Rightarrow> Inl (Rejected (OrderRejected ''SimulatedVenue has no market feed for a limit order''))
      | _ \<Rightarrow> Inl (Rejected (OrderRejected ''SimulatedVenue does not support this OrderKind'')))"

definition validate_time_in_force_supported ::
  "order_kind \<Rightarrow> time_in_force \<Rightarrow> (asset_name, instrument_name) order_error + unit" where
  "validate_time_in_force_supported kind tif =
     (let refused = (\<lambda>missing. Inl (Rejected (OrderRejected missing)))
      in case (kind, tif) of
        (_, AtOpen) \<Rightarrow> refused ''a session calendar''
      | (_, AtClose) \<Rightarrow> refused ''a session calendar''
      | (Market, GoodUntilCancelled True) \<Rightarrow> refused ''an order that both takes liquidity and refuses to''
      | (Market, _) \<Rightarrow> Inr ()
      | (Limit, GoodUntilEndOfDay) \<Rightarrow> refused ''a session calendar''
      | _ \<Rightarrow> Inr ())"

datatype disposition = FillAndRest | FillAndCancel | FillOrNothing | RestOrder | CancelUnfilled | Expire

definition crosses :: "side \<Rightarrow> decimal \<Rightarrow> market_snapshot \<Rightarrow> bool" where
  "crosses sd limit s =
     (case sd of
        Buy \<Rightarrow> (case ms_best_ask s of
            Some ask \<Rightarrow> ask \<le> limit
          | None \<Rightarrow> (case ms_last_price s of None \<Rightarrow> False | Some p \<Rightarrow> p \<le> limit))
      | Sell \<Rightarrow> (case ms_best_bid s of
            Some bid \<Rightarrow> limit \<le> bid
          | None \<Rightarrow> (case ms_last_price s of None \<Rightarrow> False | Some p \<Rightarrow> limit \<le> p)))"

definition clamp_to_limit :: "side \<Rightarrow> decimal \<Rightarrow> decimal \<Rightarrow> decimal" where
  "clamp_to_limit sd price limit = (case sd of Buy \<Rightarrow> min price limit | Sell \<Rightarrow> max price limit)"

definition mid_or_last :: "rounding \<Rightarrow> market_snapshot \<Rightarrow> decimal option option" where
  "mid_or_last R s =
     (case (ms_best_bid s, ms_best_ask s) of
        (Some bid, Some ask) \<Rightarrow> do { t \<leftarrow> dec_add R bid ask; m \<leftarrow> dec_div R t 2; Some (Some m) }
      | _ \<Rightarrow> Some (ms_last_price s))"

definition order_disposition :: "order_kind \<Rightarrow> time_in_force \<Rightarrow> bool \<Rightarrow> time \<Rightarrow> disposition" where
  "order_disposition kind tif marketable now =
     (if tif = GoodUntilCancelled True \<and> marketable then CancelUnfilled
      else if (case tif of GoodTillDate expiry \<Rightarrow> expiry \<le> now | _ \<Rightarrow> False) then Expire
      else if tif = FillOrKill \<and> marketable then FillOrNothing
      else if marketable then
        (case (kind, tif) of
           (Limit, GoodUntilCancelled _) \<Rightarrow> FillAndRest
         | (Limit, GoodTillDate _) \<Rightarrow> FillAndRest
         | _ \<Rightarrow> FillAndCancel)
      else if tif = ImmediateOrCancel \<or> tif = FillOrKill then CancelUnfilled
      else RestOrder)"

end
