(* ===== verification/Settlement_Ledger.thy ===== *)
theory Settlement_Ledger
  imports Settlement
begin

text \<open>
  What the settlements of a simulated venue promise: over any fills of a contract for difference the
  venue's net position and cash are the engine's position and profit, a spot fill costs the same
  under either fee rule, a taker's price is slipped against the order and within its limit, and an
  arriving order keeps its time in force.
\<close>

section \<open>A run of fills of a cash-settled instrument\<close>

text \<open>What a settlement moves in the asset it pays with.\<close>

definition cash_moved :: "settlement \<Rightarrow> decimal" where
  "cash_moved s = (case st_credit s of PaidBack c \<Rightarrow> c - st_amount s | Deliver _ \<Rightarrow> - st_amount s)"

text \<open>The margin a net position holds: its size at its entry price.\<close>

definition margin_posted :: "instrument_terms \<Rightarrow> net_position \<Rightarrow> decimal" where
  "margin_posted terms p = \<bar>np_quantity p\<bar> * np_entry p * it_contract_size terms"

text \<open>
  The venue over a list of fills: each is settled against the net position it meets, moves it, and
  is reported as a trade with the fee of its settlement.
\<close>

fun venue_fills ::
  "rounding \<Rightarrow> fee_model_config \<Rightarrow> spot_fee_asset \<Rightarrow> instrument_terms
     \<Rightarrow> ((asset_name, 'i) trade \<times> liquidity) list \<Rightarrow> net_position
     \<Rightarrow> (((asset_name, 'i) trade \<times> settlement) list \<times> net_position) option" where
  "venue_fills R fm rule terms [] p = Some ([], p)"
| "venue_fills R fm rule terms ((t, l) # fs) p = do {
     s \<leftarrow> order_settlement R fm rule terms p (tr_side t) (tr_quantity t) (tr_price t) l;
     p1 \<leftarrow> np_after R (tr_side t) (tr_quantity t) (tr_price t) p;
     (rest, p2) \<leftarrow> venue_fills R fm rule terms fs p1;
     Some ((t\<lparr>tr_fees := st_fees s\<rparr>, s) # rest, p2)
   }"

lemma compute_fee_exact: "\<exists>f. compute_fee Some fm price q csize l = Some f"
  by (cases fm) (simp_all add: dec_simps)

lemma np_after_exact: "\<exists>p'. np_after Some sd q price p = Some p'"
  by (auto simp: np_after_def dec_simps Let_def)

lemma np_after_quantity:
  "np_after Some sd q price p = Some p' \<Longrightarrow> np_quantity p' = np_quantity p + side_sign sd * q"
  by (cases sd) (auto simp: np_after_def dec_simps Let_def split: Option.bind_splits if_splits)

lemma cash_settlement_exact:
  "cash_settlement Some terms p sd q price f = Some \<lparr>st_asset = un_quote (it_underlying terms),
     st_amount = price * (q - np_closing sd q p) * it_contract_size terms + f +
       max 0 (- (np_closing sd q p * it_contract_size terms * (if np_is_long p then price else np_entry p + np_entry p - price))),
     st_credit = PaidBack (max 0 (np_closing sd q p * it_contract_size terms *
       (if np_is_long p then price else np_entry p + np_entry p - price))),
     st_fees = \<lparr>af_asset = un_quote (it_underlying terms), af_fees = f, af_fees_quote = Some f\<rparr>,
     st_fee_apart = False\<rparr>"
  by (auto simp: cash_settlement_def dec_simps Let_def max_def)

lemma cash_moved_exact:
  assumes "cash_settlement Some terms p sd q price f = Some s"
  shows "cash_moved s = np_closing sd q p * it_contract_size terms *
      (if np_is_long p then price else np_entry p + np_entry p - price)
    - price * (q - np_closing sd q p) * it_contract_size terms - f"
  using assms unfolding cash_settlement_exact by (auto simp: cash_moved_def max_def)

text \<open>The three ways a fill meets a net position: it opens or increases it, reduces it, or flips it.\<close>

lemma np_after_increase:
  assumes n: "np_after Some sd q price p = Some p'" and "0 \<le> q" and "0 \<le> side_sign sd * np_quantity p"
    and flat: "np_quantity p = 0 \<longrightarrow> np_entry p = 0"
  shows "np_closing sd q p = 0" and "\<bar>np_quantity p'\<bar> * np_entry p' = \<bar>np_quantity p\<bar> * np_entry p + price * q"
    and "np_quantity p' = side_sign sd * \<bar>np_quantity p'\<bar>" and "np_quantity p = side_sign sd * \<bar>np_quantity p\<bar>"
proof -
  show "np_closing sd q p = 0" using assms(3) by (cases sd) (auto simp: np_closing_def np_is_long_def)
  have q': "np_quantity p' = np_quantity p + side_sign sd * q" by (rule np_after_quantity [OF n])
  show "np_quantity p = side_sign sd * \<bar>np_quantity p\<bar>" "np_quantity p' = side_sign sd * \<bar>np_quantity p'\<bar>"
    using assms(2,3) q' by (cases sd; simp)+
  show "\<bar>np_quantity p'\<bar> * np_entry p' = \<bar>np_quantity p\<bar> * np_entry p + price * q"
  proof (cases "np_quantity p = 0 \<or> q = 0")
    case True
    then show ?thesis using n assms(2,3) flat q'
      by (cases sd) (auto simp: np_after_def dec_simps Let_def field_simps split: Option.bind_splits if_splits)
  next
    case False
    then have "np_quantity p' \<noteq> 0" "(np_quantity p' < 0) = (np_quantity p < 0)"
      using q' assms(2,3) by (cases sd; simp)+
    moreover have "((case sd of Buy \<Rightarrow> q | Sell \<Rightarrow> - q) < 0) = (np_quantity p < 0)"
      using False assms(2,3) by (cases sd) auto
    ultimately show ?thesis using n q' False
      by (cases sd) (auto simp: np_after_def dec_simps Let_def split: Option.bind_splits if_splits)
  qed
qed

lemma np_after_reduce:
  assumes n: "np_after Some sd q price p = Some p'" and "0 \<le> q" and "side_sign sd * np_quantity p < 0"
    and "q \<le> \<bar>np_quantity p\<bar>"
  shows "np_closing sd q p = q" and "\<bar>np_quantity p'\<bar> = \<bar>np_quantity p\<bar> - q"
    and "np_quantity p' \<noteq> 0 \<Longrightarrow> q \<noteq> 0 \<Longrightarrow> np_entry p' = np_entry p"
    and "\<bar>np_quantity p'\<bar> * np_entry p' = (\<bar>np_quantity p\<bar> - q) * np_entry p"
    and "np_quantity p' = - side_sign sd * \<bar>np_quantity p'\<bar>" and "np_quantity p = - side_sign sd * \<bar>np_quantity p\<bar>"
proof -
  show "np_closing sd q p = q" using assms(3,4) by (cases sd) (auto simp: np_closing_def np_is_long_def)
  have q': "np_quantity p' = np_quantity p + side_sign sd * q" by (rule np_after_quantity [OF n])
  show abs: "\<bar>np_quantity p'\<bar> = \<bar>np_quantity p\<bar> - q"
    using assms(3,4) q' by (cases sd) auto
  show "np_quantity p = - side_sign sd * \<bar>np_quantity p\<bar>" "np_quantity p' = - side_sign sd * \<bar>np_quantity p'\<bar>"
    using assms(3,4) q' by (cases sd; simp)+
  show entry: "np_quantity p' \<noteq> 0 \<Longrightarrow> q \<noteq> 0 \<Longrightarrow> np_entry p' = np_entry p"
    using n assms(2-4) q'
    by (cases sd) (auto simp: np_after_def dec_simps Let_def split: Option.bind_splits if_splits)
  show "\<bar>np_quantity p'\<bar> * np_entry p' = (\<bar>np_quantity p\<bar> - q) * np_entry p"
  proof (cases "q = 0")
    case True
    then show ?thesis using n assms(3)
      by (cases sd) (auto simp: np_after_def dec_simps Let_def split: Option.bind_splits if_splits)
  next
    case False
    then show ?thesis using entry abs by (cases "np_quantity p' = 0") auto
  qed
qed

lemma np_after_flip:
  assumes n: "np_after Some sd q price p = Some p'" and "side_sign sd * np_quantity p < 0" and "\<bar>np_quantity p\<bar> < q"
  shows "np_closing sd q p = \<bar>np_quantity p\<bar>" and "\<bar>np_quantity p'\<bar> = q - \<bar>np_quantity p\<bar>"
    and "np_entry p' = price"
    and "np_quantity p' = side_sign sd * \<bar>np_quantity p'\<bar>" and "np_quantity p = - side_sign sd * \<bar>np_quantity p\<bar>"
proof -
  show "np_closing sd q p = \<bar>np_quantity p\<bar>" using assms(2,3) by (cases sd) (auto simp: np_closing_def np_is_long_def)
  have q': "np_quantity p' = np_quantity p + side_sign sd * q" by (rule np_after_quantity [OF n])
  show "\<bar>np_quantity p'\<bar> = q - \<bar>np_quantity p\<bar>" using assms(2,3) q' by (cases sd) auto
  show "np_quantity p = - side_sign sd * \<bar>np_quantity p\<bar>" "np_quantity p' = side_sign sd * \<bar>np_quantity p'\<bar>"
    using assms(2,3) q' by (cases sd; simp)+
  show "np_entry p' = price" using n assms(2,3)
    by (cases sd) (auto simp: np_after_def dec_simps Let_def split: Option.bind_splits if_splits)
qed

text \<open>One fill, in the net position's own terms: cash and margin follow the fill's worth.\<close>

lemma cash_settlement_step:
  assumes s: "cash_settlement Some terms p sd q price f = Some s" and "0 \<le> q"
    and n: "np_after Some sd q price p = Some p'"
    and flat: "np_quantity p = 0 \<longrightarrow> np_entry p = 0"
  shows "cash_moved s + margin_posted terms p' - margin_posted terms p =
    (np_quantity p' * np_entry p' - np_quantity p * np_entry p - side_sign sd * q * price)
      * it_contract_size terms - f"
proof -
  let ?cs = "it_contract_size terms" and ?Q = "\<bar>np_quantity p\<bar>" and ?Q' = "\<bar>np_quantity p'\<bar>"
  have moved: "cash_moved s = np_closing sd q p * ?cs *
      (if np_is_long p then price else np_entry p + np_entry p - price)
    - price * (q - np_closing sd q p) * ?cs - f" by (rule cash_moved_exact [OF s])
  have sign: "side_sign sd * side_sign sd = 1" by (cases sd) simp_all
  consider (inc) "0 \<le> side_sign sd * np_quantity p" | (red) "side_sign sd * np_quantity p < 0" "q \<le> ?Q"
    | (flip) "side_sign sd * np_quantity p < 0" "?Q < q" by linarith
  then show ?thesis
  proof cases
    case inc
    note a = np_after_increase [OF n assms(2) inc flat]
    have "?Q' * np_entry p' * side_sign sd * ?cs = (?Q * np_entry p + price * q) * side_sign sd * ?cs" using a(2) by simp
    moreover have "?Q' * np_entry p' * ?cs = (?Q * np_entry p + price * q) * ?cs" using a(2) by simp
    ultimately show ?thesis
      unfolding moved margin_posted_def a(1) by (subst a(3), subst a(4)) (simp add: algebra_simps)
  next
    case red
    note a = np_after_reduce [OF n assms(2) red]
    have "?Q' * np_entry p' * ?cs = (?Q - q) * np_entry p * ?cs" using a(4) by simp
    moreover have "np_is_long p \<longleftrightarrow> sd = Sell" using red(1) by (cases sd) (auto simp: np_is_long_def)
    ultimately show ?thesis
      unfolding moved margin_posted_def a(1) by (subst a(5), subst a(6)) (cases sd; simp add: algebra_simps)
  next
    case flip
    note a = np_after_flip [OF n flip]
    have "np_is_long p \<longleftrightarrow> sd = Sell" using flip(1) by (cases sd) (auto simp: np_is_long_def)
    then show ?thesis
      unfolding moved margin_posted_def a(1,3) by (subst a(4), subst a(5)) (cases sd; simp add: a(2) algebra_simps)
  qed
qed

section \<open>The engine's position\<close>

text \<open>The engine's average entry price follows the same rule as the venue's.\<close>

lemma increase_entry:
  assumes "position_increase Some t p = Some p'" and "0 < ps_quantity_abs p"
  shows "ps_price_entry_average p' * (ps_quantity_abs p + \<bar>tr_quantity t\<bar>) =
    ps_price_entry_average p * ps_quantity_abs p + tr_price t * \<bar>tr_quantity t\<bar>"
  using assms
  by (auto simp: position_increase_def calculate_price_entry_average_def dec_simps Let_def
      dest!: post_trade_fields split: Option.bind_splits if_splits)

lemma reduce_entry:
  "position_reduce Some t p = Some p' \<Longrightarrow> ps_price_entry_average p' = ps_price_entry_average p"
  by (auto simp: position_reduce_def realised_exact dest!: post_trade_fields split: Option.bind_splits)

lemma flip_entry: "position_flip R t p = Some (p', x) \<Longrightarrow> ps_price_entry_average p' = tr_price t"
  by (auto simp: position_flip_def Let_def position_from_trade_def split: Option.bind_splits)

lemma update_entry:
  assumes ok: "position_ok i csize S p" and inst: "tr_instrument t = i" and "0 \<le> tr_quantity t"
    and u: "position_update_from_trade Some t p = Some (Some p', c)"
    and n: "np_after Some (tr_side t) (tr_quantity t) (tr_price t)
      \<lparr>np_quantity = position_net p, np_entry = ps_price_entry_average p\<rparr> = Some np"
    and nz: "np_quantity np \<noteq> 0"
  shows "ps_price_entry_average p' = np_entry np"
proof -
  let ?np = "\<lparr>np_quantity = position_net p, np_entry = ps_price_entry_average p\<rparr>"
  let ?p = "p\<lparr>ps_trades := ps_trades p @ [tr_id t]\<rparr>"
  have pos: "0 < ps_quantity_abs p" and i: "ps_instrument p = tr_instrument t"
    using ok inst by (simp_all add: position_ok_def)
  have flat: "np_quantity ?np = 0 \<longrightarrow> np_entry ?np = 0" using pos by (cases "ps_side p") (simp_all add: position_net_def)
  have same: "0 \<le> side_sign (tr_side t) * np_quantity ?np \<longleftrightarrow> ps_side p = tr_side t"
    using pos by (cases "ps_side p"; cases "tr_side t") (simp_all add: position_net_def)
  have abs: "\<bar>np_quantity ?np\<bar> = ps_quantity_abs p" using pos by (cases "ps_side p") (simp_all add: position_net_def)
  consider (inc) "ps_side p = tr_side t"
    | (red) "ps_side p \<noteq> tr_side t" "\<bar>tr_quantity t\<bar> < ps_quantity_abs p"
    | (close) "ps_side p \<noteq> tr_side t" "ps_quantity_abs p = \<bar>tr_quantity t\<bar>"
    | (flip) "ps_side p \<noteq> tr_side t" "ps_quantity_abs p < \<bar>tr_quantity t\<bar>" by linarith
  then show ?thesis
  proof cases
    case inc
    then have "position_increase Some t ?p = Some p'" using u i by (auto simp: position_update_from_trade_def)
    from increase_entry [OF this] pos have avg: "ps_price_entry_average p' * (ps_quantity_abs p + \<bar>tr_quantity t\<bar>) =
        ps_price_entry_average p * ps_quantity_abs p + tr_price t * \<bar>tr_quantity t\<bar>" by simp
    have "0 \<le> side_sign (tr_side t) * np_quantity ?np" using inc same by simp
    note a = np_after_increase [OF n assms(3) this flat]
    have "\<bar>np_quantity np\<bar> = ps_quantity_abs p + \<bar>tr_quantity t\<bar>"
      using np_after_quantity [OF n] inc pos assms(3) by (cases "tr_side t") (simp_all add: position_net_def)
    with a(2) avg abs assms(3) have "ps_price_entry_average p' * \<bar>np_quantity np\<bar> = np_entry np * \<bar>np_quantity np\<bar>"
      by (simp add: mult.commute)
    then show ?thesis using nz by simp
  next
    case red
    then have "position_reduce Some t ?p = Some p'" using u i by (auto simp: position_update_from_trade_def)
    from reduce_entry [OF this] have e: "ps_price_entry_average p' = ps_price_entry_average p" by simp
    have le: "side_sign (tr_side t) * np_quantity ?np < 0" "tr_quantity t \<le> \<bar>np_quantity ?np\<bar>"
      using red same abs by linarith+
    note a = np_after_reduce [OF n assms(3) le]
    have "\<bar>np_quantity np\<bar> * np_entry np = \<bar>np_quantity np\<bar> * ps_price_entry_average p" using a(2,4) by simp
    then show ?thesis using nz e by simp
  next
    case close
    then show ?thesis using u i by (auto simp: position_update_from_trade_def)
  next
    case flip
    then have "\<exists>x. position_flip Some t ?p = Some (p', x)" using u i by (auto simp: position_update_from_trade_def)
    then have e: "ps_price_entry_average p' = tr_price t" using flip_entry by blast
    have le: "side_sign (tr_side t) * np_quantity ?np < 0" "\<bar>np_quantity ?np\<bar> < tr_quantity t"
      using flip same abs assms(3) by linarith+
    show ?thesis using np_after_flip(3) [OF n le] e by simp
  qed
qed

section \<open>The venue's ledger and the engine's profit\<close>

text \<open>What the open positions of a manager have realised so far.\<close>

definition manager_realised :: "('a, 'i) position_manager \<Rightarrow> decimal" where
  "manager_realised m = (\<Sum>(k, p)\<leftarrow>pm_positions m. ps_pnl_realised p)"

text \<open>A netting manager that holds the venue's net position.\<close>

definition holds_net :: "net_position \<Rightarrow> ('a, 'i) position_manager \<Rightarrow> bool" where
  "holds_net np m \<longleftrightarrow> pm_mode m = Netting \<and> manager_net m = np_quantity np \<and>
     (\<forall>(k, p) \<in> set (pm_positions m). ps_price_entry_average p = np_entry np) \<and>
     (np_quantity np = 0 \<longrightarrow> np_entry np = 0)"

lemma worth_at_zero:
  "\<forall>(k, p) \<in> set ps. ps_price_entry_average p = e \<and> ps_contract_size p = csize \<Longrightarrow>
   (\<Sum>(k, p)\<leftarrow>ps. position_worth 0 p) =
     (\<Sum>(k, p)\<leftarrow>ps. ps_pnl_realised p) - (\<Sum>(k, p)\<leftarrow>ps. position_net p) * e * csize"
  by (induction ps) (auto simp: position_worth_def algebra_simps)

lemma manager_worth_at_zero:
  assumes "manager_ok i csize S m" and "holds_net np m"
  shows "manager_worth 0 m = manager_realised m - np_quantity np * np_entry np * csize"
proof -
  have "\<forall>(k, p) \<in> set (pm_positions m). ps_price_entry_average p = np_entry np \<and> ps_contract_size p = csize"
    using assms by (force simp: holds_net_def manager_ok_def position_ok_def)
  from worth_at_zero [OF this] assms(2) show ?thesis
    by (simp add: manager_worth_def manager_realised_def holds_net_def manager_net_def)
qed

lemma np_after_flat:
  "np_after Some sd q price p = Some p' \<Longrightarrow> np_quantity p' = 0 \<Longrightarrow> np_entry p' = 0"
  by (auto simp: np_after_def dec_simps Let_def split: Option.bind_splits if_splits)

lemma holds_net_step:
  assumes ok: "manager_ok i csize {lo..hi} m" and h: "holds_net np m"
    and t: "tr_instrument t = i" "tr_price t \<in> {lo..hi}" "0 \<le> tr_quantity t"
    and n: "np_after Some (tr_side t) (tr_quantity t) (tr_price t) np = Some np'"
    and step: "update_from_trade Some t csize m = Some (out, m')"
  shows "manager_ok i csize {lo..hi} m'" and "holds_net np' m'"
    and "manager_worth 0 m' + outcome_realised out = manager_worth 0 m + trade_worth 0 csize t + outcome_fees out"
proof -
  have mode: "pm_mode m = Netting" using h by (simp add: holds_net_def)
  have step': "update_from_trade_with_id Some t position_id_netting csize m = Some (out, m')"
    using step mode by (simp add: update_from_trade_def trade_position_id_def)
  from update_with_id_exact [OF ok t(1,2), of position_id_netting 0] mode step'
  show ok': "manager_ok i csize {lo..hi} m'"
    and "manager_worth 0 m' + outcome_realised out = manager_worth 0 m + trade_worth 0 csize t + outcome_fees out"
    by auto
  from update_with_id_exact [OF ok t(1,2), of position_id_netting 0] mode step'
  have mode': "pm_mode m' = Netting" and net: "manager_net m' = manager_net m + trade_net t" by auto
  have q': "manager_net m' = np_quantity np'"
    using net h np_after_quantity [OF n] t(3) by (simp add: holds_net_def trade_net_def)
  have entry: "ps_price_entry_average p' = np_entry np'" if p': "(k, p') \<in> set (pm_positions m')" for k p'
  proof -
    from netting_positions [OF ok' mode'] p' have nz: "np_quantity np' \<noteq> 0" and only: "pm_positions m' = [(k, p')]"
      using q' by (auto split: if_splits)
    show ?thesis
    proof (cases "manager_net m = 0")
      case True
      with netting_positions [OF ok mode] have none: "pm_positions m = []" by simp
      with step' only have "p' = (position_from_trade t)\<lparr>ps_contract_size := csize\<rparr>"
        by (auto simp: update_from_trade_with_id_def Let_def im_insert_def im_remove_def split: if_splits)
      moreover have "np_entry np' = tr_price t"
        using n nz True h by (auto simp: np_after_def dec_simps Let_def holds_net_def split: Option.bind_splits if_splits)
      ultimately show ?thesis by (simp add: position_from_trade_def)
    next
      case False
      with netting_positions [OF ok mode] obtain p where
        p: "pm_positions m = [(position_id_netting, p)]" "position_ok i csize {lo..hi} p" by auto
      then have same: "p\<lparr>ps_contract_size := csize\<rparr> = p" by (simp add: position_ok_def)
      have np: "np = \<lparr>np_quantity = position_net p, np_entry = ps_price_entry_average p\<rparr>"
        using h p(1) by (cases np) (simp add: holds_net_def manager_net_def)
      obtain u c where u: "position_update_from_trade Some t p = Some (u, c)"
        using update_exact [OF p(2) t(1,2)] by blast
      have "map_of (pm_positions m) position_id_netting = Some p" using p(1) by simp
      from update_with_id_held [OF this, of Some t csize u c] u same step' only p(1)
      have "u = Some p'" by (cases u) (auto simp: im_insert_def im_remove_def)
      from update_entry [OF p(2) t(1,3) u [unfolded this] n [unfolded np] nz] show ?thesis .
    qed
  qed
  show "holds_net np' m'"
    using mode' q' entry np_after_flat [OF n] by (auto simp: holds_net_def)
qed

lemma venue_fills_exact:
  assumes cash: "it_cash_settled terms" and "manager_ok i (it_contract_size terms) {lo..hi} m" and "holds_net np m"
    and "\<forall>(t, l) \<in> set fs. tr_instrument t = i \<and> tr_price t \<in> {lo..hi} \<and> 0 \<le> tr_quantity t"
  shows "\<exists>out np' outs m'. venue_fills Some fm rule terms fs np = Some (out, np') \<and>
    trades_run Some (it_contract_size terms) (map fst out) m = Some (outs, m') \<and> holds_net np' m' \<and>
    sum_list (map (\<lambda>x. cash_moved (snd x)) out) + margin_posted terms np' - margin_posted terms np =
      manager_realised m' + sum_list (map outcome_realised outs) - sum_list (map outcome_fees outs) - manager_realised m"
  using assms(2-4)
proof (induction fs arbitrary: np m)
  case Nil
  then show ?case by simp
next
  case (Cons f fs)
  obtain t l where f: "f = (t, l)" by fastforce
  have t: "tr_instrument t = i" "tr_price t \<in> {lo..hi}" "0 \<le> tr_quantity t" using Cons.prems(3) f by auto
  let ?cs = "it_contract_size terms"
  obtain fee where fee: "compute_fee Some fm (tr_price t) (tr_quantity t) ?cs l = Some fee"
    using compute_fee_exact by blast
  obtain s where s: "cash_settlement Some terms np (tr_side t) (tr_quantity t) (tr_price t) fee = Some s"
    using cash_settlement_exact by blast
  then have settled: "order_settlement Some fm rule terms np (tr_side t) (tr_quantity t) (tr_price t) l = Some s"
    and fees: "fee_in_quote (st_fees s) = fee"
    using cash fee t(3) by (auto simp: order_settlement_def settlement_with_fee_def cash_settlement_exact fee_in_quote_def)
  obtain np1 where n: "np_after Some (tr_side t) (tr_quantity t) (tr_price t) np = Some np1"
    using np_after_exact by blast
  let ?t = "t\<lparr>tr_fees := st_fees s\<rparr>"
  obtain o1 m1 where step: "update_from_trade Some ?t ?cs m = Some (o1, m1)"
    using update_with_id_exact [OF Cons.prems(1), of ?t position_id_netting 0] t Cons.prems(2)
    by (simp add: update_from_trade_def trade_position_id_def holds_net_def) blast
  note h = holds_net_step [OF Cons.prems(1,2), of ?t np1 o1 m1, simplified, OF t(1) _ t(3) n step]
  have h1: "manager_ok i ?cs {lo..hi} m1" "holds_net np1 m1"
    "manager_worth 0 m1 + outcome_realised o1 = manager_worth 0 m + trade_worth 0 ?cs ?t + outcome_fees o1"
    using h t(2) by auto
  have flat: "np_quantity np = 0 \<longrightarrow> np_entry np = 0" using Cons.prems(2) by (simp add: holds_net_def)
  have worth: "trade_worth 0 ?cs ?t = - (side_sign (tr_side t) * tr_quantity t * tr_price t * ?cs) - fee"
    using fees t(3) by (simp add: trade_worth_def trade_net_def)
  have one: "cash_moved s + margin_posted terms np1 - margin_posted terms np =
      manager_realised m1 + outcome_realised o1 - outcome_fees o1 - manager_realised m"
    using cash_settlement_step [OF s t(3) n flat] h1(3) worth
      manager_worth_at_zero [OF Cons.prems(1,2)] manager_worth_at_zero [OF h1(1,2)]
    by (simp add: left_diff_distrib)
  have "\<forall>(t, l) \<in> set fs. tr_instrument t = i \<and> tr_price t \<in> {lo..hi} \<and> 0 \<le> tr_quantity t" using Cons.prems(3) by auto
  from Cons.IH [OF h1(1,2) this] obtain out np' outs m' where rest:
    "venue_fills Some fm rule terms fs np1 = Some (out, np')"
    "trades_run Some ?cs (map fst out) m1 = Some (outs, m')" "holds_net np' m'"
    "sum_list (map (\<lambda>x. cash_moved (snd x)) out) + margin_posted terms np' - margin_posted terms np1 =
      manager_realised m' + sum_list (map outcome_realised outs) - sum_list (map outcome_fees outs) - manager_realised m1"
    by blast
  have "venue_fills Some fm rule terms (f # fs) np = Some ((?t, s) # out, np')"
    using f settled n rest(1) by simp
  moreover have "trades_run Some ?cs (map fst ((?t, s) # out)) m = Some (o1 # outs, m')"
    using step rest(2) by simp
  ultimately show ?case using rest(3,4) one by (intro exI conjI) (assumption | simp)+
qed

section \<open>Slippage\<close>

text \<open>A run of taker fills, each a side and a reference price.\<close>

fun slippage_run ::
  "rounding \<Rightarrow> (decimal \<Rightarrow> decimal) \<Rightarrow> ('g \<Rightarrow> u64 \<times> 'g) \<Rightarrow> (side \<times> decimal) list \<Rightarrow> 'g slippage
     \<Rightarrow> (decimal list \<times> 'g slippage) option" where
  "slippage_run R rdp next_u64 [] s = Some ([], s)"
| "slippage_run R rdp next_u64 ((sd, ref) # xs) s = do {
     (p, s1) \<leftarrow> slippage_apply R rdp next_u64 sd ref s;
     (ps, s2) \<leftarrow> slippage_run R rdp next_u64 xs s1;
     Some (p # ps, s2)
   }"

lemma slippage_apply_state:
  assumes "slippage_apply R rdp next_u64 sd ref s = Some (p, s')"
  shows "s' = s \<or> s' = s\<lparr>sl_draws := sl_draws s + 1, sl_rng := snd (next_u64 (sl_rng s))\<rparr>"
  using assms by (auto simp: slippage_apply_def slippage_draw_def Let_def
      split: Option.bind_splits if_splits prod.splits side.splits)

lemma slippage_run_state:
  assumes "slippage_run R rdp next_u64 xs s = Some (ps, s')"
  shows "\<exists>k \<le> length xs. s' = s\<lparr>sl_draws := sl_draws s + of_nat k, sl_rng := ((snd \<circ> next_u64) ^^ k) (sl_rng s)\<rparr>"
  using assms
proof (induction xs arbitrary: s ps)
  case Nil
  then show ?case by simp
next
  case (Cons x xs)
  obtain sd ref where x: "x = (sd, ref)" by fastforce
  from Cons.prems x obtain p s1 ps1 where a: "slippage_apply R rdp next_u64 sd ref s = Some (p, s1)"
    "slippage_run R rdp next_u64 xs s1 = Some (ps1, s')" by (auto split: Option.bind_splits)
  from Cons.IH [OF a(2)] obtain k where k: "k \<le> length xs"
    "s' = s1\<lparr>sl_draws := sl_draws s1 + of_nat k, sl_rng := ((snd \<circ> next_u64) ^^ k) (sl_rng s1)\<rparr>" by blast
  from slippage_apply_state [OF a(1)] show ?case
  proof
    assume "s1 = s"
    with k show ?thesis by (intro exI [of _ k]) (simp add: comp_def)
  next
    assume "s1 = s\<lparr>sl_draws := sl_draws s + 1, sl_rng := snd (next_u64 (sl_rng s))\<rparr>"
    with k show ?thesis by (intro exI [of _ "Suc k"]) (simp add: funpow_Suc_right comp_def algebra_simps del: funpow.simps)
  qed
qed

text \<open>The rate of a fill under a validated configuration.\<close>

lemma slippage_valid:
  "slippage_try_from c = Inr c' \<Longrightarrow> 0 \<le> slip_low c \<and> slip_low c \<le> slip_high c \<and> slip_high c < 1"
  by (cases c) (auto simp: slippage_try_from_def Let_def split: if_splits)

lemma slippage_draw_exact:
  assumes "slippage_try_from (sl_config s) = Inr c"
  shows "\<exists>rate s'. slippage_draw Some rdp next_u64 s = Some (rate, s') \<and>
    slip_low (sl_config s) \<le> rate \<and> rate \<le> slip_high (sl_config s)"
proof -
  have "(unsigned (- 1 :: u64) :: rat) \<noteq> 0" by (simp add: unsigned_eq_0_iff)
  then show ?thesis
    using slippage_valid [OF assms] by (auto simp: slippage_draw_def dec_simps Let_def split: prod.splits)
qed

lemma slippage_apply_exact:
  assumes "slippage_try_from (sl_config s) = Inr c" and "0 < reference"
  shows "\<exists>rate s'. 0 \<le> rate \<and> rate \<le> slip_high (sl_config s) \<and>
    slippage_apply Some rdp next_u64 sd reference s = Some (reference * (1 + side_sign sd * rate), s')"
proof -
  obtain rate s' where d: "slippage_draw Some rdp next_u64 s = Some (rate, s')"
    "slip_low (sl_config s) \<le> rate" "rate \<le> slip_high (sl_config s)"
    using slippage_draw_exact [OF assms(1)] by blast
  then have "slippage_apply Some rdp next_u64 sd reference s = Some (reference * (1 + side_sign sd * rate), s')"
    by (cases sd) (simp_all add: slippage_apply_def dec_simps)
  moreover have "0 \<le> rate" using d slippage_valid [OF assms(1)] by linarith
  ultimately show ?thesis using d(3) by blast
qed

section \<open>Concrete fills\<close>

definition ex_terms :: "bool \<Rightarrow> decimal \<Rightarrow> instrument_terms" where
  "ex_terms cash csize =
     \<lparr>it_underlying = \<lparr>un_base = ''BTC'', un_quote = ''USD''\<rparr>, it_contract_size = csize, it_cash_settled = cash\<rparr>"

definition ex_fee :: fee_model_config where
  "ex_fee = PercentageFee \<lparr>pf_rate = 1 / 1000, pf_maker_rate = None\<rparr>"

definition ex_trade :: "side \<Rightarrow> decimal \<Rightarrow> decimal \<Rightarrow> (asset_name, unit) trade" where
  "ex_trade sd price qty = \<lparr>tr_id = ''t'', tr_order_id = ''o'', tr_instrument = (), tr_strategy = ''s'',
     tr_time_exchange = 1, tr_side = sd, tr_price = price, tr_quantity = qty, tr_order_filled_quantity = None,
     tr_fees = \<lparr>af_asset = ''USD'', af_fees = 0, af_fees_quote = Some 0\<rparr>, tr_origin = OriginOrder,
     tr_position_side = None, tr_client_order_id = None, tr_time_source = SourceVenue\<rparr>"

section \<open>Properties\<close>

text \<open>C15: The simulated venue and the engine agree on every profit and loss. Over any fills of a
  contract for difference, opening, averaging, reducing, closing and flipping a position, the venue's
  cash plus the margin its net position holds is exactly what the engine realised on the trades the
  venue reported, fees included, and both hold the same net quantity at the same average entry price.
  The fee of a fill that moved nothing is the only one the engine leaves out. Stated for exact
  arithmetic.\<close>

theorem venue_cash_is_engine_pnl:
  assumes "it_cash_settled terms" and "\<forall>(t, l) \<in> set fs. tr_instrument t = i \<and> 0 \<le> tr_quantity t"
  shows "\<exists>out np outs m. venue_fills Some fm rule terms fs net_position_default = Some (out, np) \<and>
    trades_run Some (it_contract_size terms) (map fst out) (position_manager_new Netting) = Some (outs, m) \<and>
    manager_net m = np_quantity np \<and> (\<forall>(k, p) \<in> set (pm_positions m). ps_price_entry_average p = np_entry np) \<and>
    sum_list (map (\<lambda>x. cash_moved (snd x)) out) + margin_posted terms np =
      manager_realised m + sum_list (map outcome_realised outs) - sum_list (map outcome_fees outs)"
proof -
  obtain lo hi where "\<forall>f \<in> set fs. tr_price (fst f) \<in> {lo..hi}" using price_range [of fs "\<lambda>f. tr_price (fst f)"] by blast
  with assms(2) have fs: "\<forall>(t, l) \<in> set fs. tr_instrument t = i \<and> tr_price t \<in> {lo..hi} \<and> 0 \<le> tr_quantity t" by fastforce
  have new: "holds_net net_position_default (position_manager_new Netting)"
    unfolding holds_net_def manager_new_worth manager_new_mode
    by (simp add: net_position_default_def position_manager_new_def)
  have "manager_realised (position_manager_new Netting) = 0" "margin_posted terms net_position_default = 0"
    by (simp_all add: manager_realised_def position_manager_new_def margin_posted_def net_position_default_def)
  then show ?thesis using venue_fills_exact [OF assms(1) manager_new_ok new fs, of fm rule]
    unfolding holds_net_def by auto
qed

theorem venue_cash_is_engine_pnl_witness:
  "\<exists>out np outs m. venue_fills Some ex_fee FeeInQuote (ex_terms True 10)
      [(ex_trade Buy 100 7, Taker), (ex_trade Sell 103 9, Maker)] net_position_default = Some (out, np) \<and>
    trades_run Some 10 (map fst out) (position_manager_new Netting) = Some (outs, m) \<and>
    manager_net m = np_quantity np \<and>
    sum_list (map (\<lambda>x. cash_moved (snd x)) out) + margin_posted (ex_terms True 10) np =
      manager_realised m + sum_list (map outcome_realised outs) - sum_list (map outcome_fees outs)"
  using venue_cash_is_engine_pnl [of "ex_terms True 10" "[(ex_trade Buy 100 7, Taker), (ex_trade Sell 103 9, Maker)]"
      "()" ex_fee FeeInQuote]
  by (auto simp: ex_terms_def ex_trade_def)

text \<open>The asset a spot fee is charged in changes no cost. Whatever the rule, the side, the price, the
  quantity and the fee model, the settlement of a spot fill gives up and receives amounts whose
  difference, valued at the fill's price, is the fee of the fee model. It exchanges the two assets of
  the instrument, and reports the fee in the asset it was charged in, with the same value in quote: in
  base, out of the quantity a buy receives, under the rule that says so, and in quote otherwise.
  Stated for exact arithmetic.\<close>

theorem spot_settlement_costs_its_fee:
  assumes "terms_of instruments i = Inr terms" and "\<not> it_cash_settled terms" and "0 \<le> quantity"
    and "order_settlement Some fm rule terms p sd quantity price l = Some s"
    and "base = un_base (it_underlying terms)" and "quote = un_quote (it_underlying terms)"
  shows "\<exists>fee d. compute_fee Some fm price quantity 1 l = Some fee \<and> st_credit s = Deliver d \<and>
    st_asset s = (case sd of Buy \<Rightarrow> quote | Sell \<Rightarrow> base) \<and> dl_asset d = (case sd of Buy \<Rightarrow> base | Sell \<Rightarrow> quote) \<and>
    (case sd of Buy \<Rightarrow> st_amount s - price * dl_amount d | Sell \<Rightarrow> price * st_amount s - dl_amount d) = fee \<and>
    af_fees_quote (st_fees s) = Some fee \<and>
    (if sd = Buy \<and> rule = FeeInReceived \<and> 0 < price \<and> fee \<noteq> 0
     then af_asset (st_fees s) = base \<and> price * af_fees (st_fees s) = fee \<and> dl_amount d = quantity - af_fees (st_fees s)
     else af_asset (st_fees s) = quote \<and> af_fees (st_fees s) = fee \<and> (sd = Buy \<longrightarrow> dl_amount d = quantity))"
proof -
  obtain v :: venue_instrument where v: "vi_kind v = Spot" "terms = \<lparr>it_underlying = vi_underlying v,
      it_contract_size = kind_contract_size (vi_kind v), it_cash_settled = False\<rparr>"
    using assms(1,2)
    by (auto simp: terms_of_def split: sum.splits elim!: settlement_of_supported_kind.elims)
  then have size: "it_contract_size terms = 1" by simp
  obtain fee where fee: "compute_fee Some fm price quantity 1 l = Some fee" using compute_fee_exact by blast
  with assms(2-4) size have s: "spot_settlement Some rule terms sd quantity price fee = Some s"
    by (simp add: order_settlement_def settlement_with_fee_def)
  show ?thesis
  proof (cases sd)
    case Buy
    then show ?thesis using s fee assms(5,6) size
      by (auto simp: spot_settlement_def dec_simps Let_def field_simps split: if_splits)
  next
    case Sell
    then show ?thesis using s fee assms(5,6) size
      by (auto simp: spot_settlement_def dec_simps Let_def)
  qed
qed

definition ex_instruments :: "instrument_name \<rightharpoonup> venue_instrument" where
  "ex_instruments = [''BTC-USD'' \<mapsto> \<lparr>vi_name = ''BTC-USD'', vi_underlying = \<lparr>un_base = ''BTC'', un_quote = ''USD''\<rparr>,
     vi_kind = Spot\<rparr>]"

definition ex_settlement :: settlement where
  "ex_settlement = \<lparr>st_asset = ''USD'', st_amount = 200,
     st_credit = Deliver \<lparr>dl_asset = ''BTC'', dl_amount = 1998 / 1000\<rparr>,
     st_fees = \<lparr>af_asset = ''BTC'', af_fees = 2 / 1000, af_fees_quote = Some (1 / 5)\<rparr>, st_fee_apart = False\<rparr>"

theorem spot_settlement_costs_its_fee_witness:
  "\<exists>fee d. compute_fee Some ex_fee 100 2 1 Taker = Some fee \<and> st_credit ex_settlement = Deliver d \<and>
    st_amount ex_settlement - 100 * dl_amount d = fee"
proof -
  have terms: "terms_of ex_instruments ''BTC-USD'' = Inr (ex_terms False 1)"
    by (simp add: ex_instruments_def ex_terms_def terms_of_def find_instrument_data_def)
  have spot: "\<not> it_cash_settled (ex_terms False 1)"
    and assets: "un_base (it_underlying (ex_terms False 1)) = ''BTC''" "un_quote (it_underlying (ex_terms False 1)) = ''USD''"
    and size: "it_contract_size (ex_terms False 1) = 1"
    by (simp_all add: ex_terms_def)
  have s: "order_settlement Some ex_fee FeeInReceived (ex_terms False 1) net_position_default Buy 2 100 Taker = Some ex_settlement"
    using spot assets size
    by (simp add: ex_fee_def order_settlement_def settlement_with_fee_def spot_settlement_def dec_simps rate_for_def ex_settlement_def Let_def)
  have "(0::decimal) \<le> 2" by simp
  from spot_settlement_costs_its_fee [OF terms spot this s assets [symmetric]] show ?thesis by auto
qed

text \<open>A taker's price moves against the order, by no more than the configured rate, and never past
  its limit. Under a validated configuration the fill of a marketable limit order, priced at the touch,
  slipped by a drawn rate and clamped to the limit, is positive, no better than the touch, no worse
  than the limit, and no worse than the touch moved by the highest rate, whatever the generator draws
  and however the rate is rounded. Stated for exact arithmetic.\<close>

theorem taker_price_bounds:
  assumes "slippage_try_from (sl_config s) = Inr c" and "sim_fill_price Some FillBidAsk sd quantity m = Some (Some touch)"
    and "0 < touch" and "crosses sd limit m"
  shows "\<exists>slipped s' price. slippage_apply Some rdp next_u64 sd touch s = Some (slipped, s') \<and>
    price = clamp_to_limit sd slipped limit \<and> 0 < price \<and>
    (case sd of
       Buy \<Rightarrow> touch \<le> price \<and> price \<le> limit \<and> price \<le> touch * (1 + slip_high (sl_config s))
     | Sell \<Rightarrow> price \<le> touch \<and> limit \<le> price \<and> touch * (1 - slip_high (sl_config s)) \<le> price)"
proof -
  obtain rate s' where r: "0 \<le> rate" "rate \<le> slip_high (sl_config s)"
    "slippage_apply Some rdp next_u64 sd touch s = Some (touch * (1 + side_sign sd * rate), s')"
    using slippage_apply_exact [OF assms(1,3)] by blast
  have "rate < 1" using r(2) slippage_valid [OF assms(1)] by linarith
  define x where "x = touch * (1 + side_sign sd * rate)"
  define bound where "bound = touch * (1 + side_sign sd * slip_high (sl_config s))"
  have up: "sd = Buy \<Longrightarrow> touch \<le> x \<and> x \<le> bound" and down: "sd = Sell \<Longrightarrow> x \<le> touch \<and> bound \<le> x \<and> 0 < x"
    using r(1,2) assms(3) \<open>rate < 1\<close> by (simp_all add: x_def bound_def)
  have r3: "slippage_apply Some rdp next_u64 sd touch s = Some (x, s')" using r(3) by (simp add: x_def)
  show ?thesis
  proof (cases sd)
    case Buy
    then have "touch \<le> limit" using assms(2,4)
      by (auto simp: bid_ask_fill_def or_else_def crosses_def split: option.splits)
    with Buy r3 up assms(3) show ?thesis by (auto simp: clamp_to_limit_def min_def bound_def)
  next
    case Sell
    then have "limit \<le> touch" using assms(2,4)
      by (auto simp: bid_ask_fill_def or_else_def crosses_def split: option.splits)
    with Sell r3 down show ?thesis by (auto simp: clamp_to_limit_def max_def bound_def)
  qed
qed

text \<open>A generator for the examples.\<close>

definition ex_next :: "u64 \<Rightarrow> u64 \<times> u64" where
  "ex_next g = (g, g + 7)"

definition ex_market :: market_snapshot where
  "ex_market = \<lparr>ms_best_bid = Some 99, ms_best_ask = Some 100, ms_last_price = Some 100\<rparr>"

theorem taker_price_bounds_witness:
  "\<exists>slipped s' price. slippage_apply Some id ex_next Buy 100 (slippage_new id (UniformRate (1/100) (2/100) 5)) = Some (slipped, s') \<and>
    price = clamp_to_limit Buy slipped 101 \<and> 0 < price \<and> 100 \<le> price \<and> price \<le> 101"
  using taker_price_bounds [of "slippage_new id (UniformRate (1/100) (2/100) 5)" "UniformRate (1/100) (2/100) 5" Buy 3 ex_market 100 101
      id ex_next]
  by (auto simp: slippage_try_from_def slippage_new_def ex_market_def bid_ask_fill_def or_else_def crosses_def)

text \<open>A restored venue draws the slippage the original would have drawn. After any taker fills, the
  configuration and the number of draws restore the whole state of the slippage, so every later run of
  fills gives the same prices; this holds for any generator and any rounding, and a configuration of a
  single rate draws nothing.\<close>

theorem slippage_resumes:
  assumes "slippage_run R rdp next_u64 xs (slippage_new seed_from c) = Some (ps, s)" and "length xs < 2 ^ 64"
  shows "slippage_resumed seed_from next_u64 (sl_config s) (sl_draws s) = s \<and> sl_config s = c \<and>
    unat (sl_draws s) \<le> length xs \<and>
    slippage_run R rdp next_u64 ys (slippage_resumed seed_from next_u64 c (sl_draws s)) = slippage_run R rdp next_u64 ys s"
proof -
  let ?s = "slippage_new seed_from c"
  obtain k where k: "k \<le> length xs"
    "s = ?s\<lparr>sl_draws := sl_draws ?s + of_nat k, sl_rng := ((snd \<circ> next_u64) ^^ k) (sl_rng ?s)\<rparr>"
    using slippage_run_state [OF assms(1)] by blast
  have "unat (of_nat k :: u64) = k" using k(1) assms(2) by (simp add: unat_of_nat)
  then have "unat (sl_draws s) = k" using k(2) by (simp add: slippage_new_def)
  moreover have "sl_config s = c" using k(2) by (simp add: slippage_new_def)
  moreover have "slippage_resumed seed_from next_u64 c (sl_draws s) = s"
    using calculation(1) k(2) by (simp add: slippage_resumed_def slippage_new_def Let_def)
  ultimately show ?thesis using k(1) by simp
qed

lemma ex_slippage_apply:
  assumes "sl_config s = UniformRate (1/100) (2/100) 5"
  shows "\<exists>p. slippage_apply Some id ex_next sd ref s =
    Some (p, s\<lparr>sl_draws := sl_draws s + 1, sl_rng := sl_rng s + 7\<rparr>)"
  using assms by (cases sd)
    (auto simp: slippage_apply_def slippage_draw_def ex_next_def dec_simps Let_def unsigned_eq_0_iff)

theorem slippage_resumes_witness:
  "\<exists>ps s. slippage_run Some id ex_next [(Buy, 100), (Sell, 101)] (slippage_new id (UniformRate (1/100) (2/100) 5)) = Some (ps, s) \<and>
    slippage_resumed id ex_next (sl_config s) (sl_draws s) = s \<and> sl_draws s = 2"
proof -
  let ?s = "slippage_new id (UniformRate (1/100) (2/100) 5)"
  obtain p where p: "slippage_apply Some id ex_next Buy 100 ?s = Some (p, ?s\<lparr>sl_draws := sl_draws ?s + 1, sl_rng := sl_rng ?s + 7\<rparr>)"
    using ex_slippage_apply [of ?s Buy 100] by (auto simp: slippage_new_def)
  let ?s1 = "?s\<lparr>sl_draws := sl_draws ?s + 1, sl_rng := sl_rng ?s + 7\<rparr>"
  obtain q where q: "slippage_apply Some id ex_next Sell 101 ?s1 = Some (q, ?s1\<lparr>sl_draws := sl_draws ?s1 + 1, sl_rng := sl_rng ?s1 + 7\<rparr>)"
    using ex_slippage_apply [of ?s1 Sell 101] by (auto simp: slippage_new_def)
  let ?s2 = "?s1\<lparr>sl_draws := sl_draws ?s1 + 1, sl_rng := sl_rng ?s1 + 7\<rparr>"
  have run: "slippage_run Some id ex_next [(Buy, 100), (Sell, 101)] ?s = Some ([p, q], ?s2)"
    using p q by simp
  have "sl_draws ?s2 = 2" by (simp add: slippage_new_def)
  with slippage_resumes [OF run, of "[]"] run show ?thesis by auto
qed

text \<open>What an arriving order does is what its time in force allows. Among the orders the venue
  supports, where a market order is always marketable, an order retires as expired exactly when its
  deadline has passed; it takes liquidity exactly when it is marketable, not expired and not post-only;
  it may wait on the book exactly when it is a limit order good until cancelled or till an unexpired
  date, other than a marketable post-only one; all or nothing is exactly a marketable fill-or-kill; and
  it retires untraded exactly when it may neither trade nor wait.\<close>

theorem order_disposition_honours_time_in_force:
  assumes "validate_order_kind_supported regime kind = Inr ()" and "validate_time_in_force_supported kind tif = Inr ()"
    and "kind = Market \<longrightarrow> marketable"
    and "expired \<longleftrightarrow> (\<exists>expiry. tif = GoodTillDate expiry \<and> expiry \<le> now)"
    and "post_only \<longleftrightarrow> tif = GoodUntilCancelled True"
    and "waits \<longleftrightarrow> kind = Limit \<and> ((\<exists>b. tif = GoodUntilCancelled b) \<or> (\<exists>e. tif = GoodTillDate e))"
    and "d = order_disposition kind tif marketable now"
  shows "(d = Expire \<longleftrightarrow> expired) \<and>
    (d \<in> {FillAndRest, FillAndCancel, FillOrNothing} \<longleftrightarrow> marketable \<and> \<not> expired \<and> \<not> post_only) \<and>
    (d \<in> {FillAndRest, RestOrder} \<longleftrightarrow> waits \<and> \<not> expired \<and> \<not> (post_only \<and> marketable)) \<and>
    (d = FillOrNothing \<longleftrightarrow> tif = FillOrKill \<and> marketable) \<and>
    (d = CancelUnfilled \<longleftrightarrow> (post_only \<and> marketable) \<or> (\<not> marketable \<and> \<not> waits))"
  using assms(1-3) unfolding assms(4-7)
  by (cases kind; cases tif; cases regime)
    (auto simp: order_disposition_def validate_order_kind_supported_def validate_time_in_force_supported_def
      split: if_splits bool.splits)

theorem order_disposition_honours_time_in_force_witness:
  "order_disposition Limit (GoodTillDate 9) True 8 = FillAndRest"
proof -
  have "order_disposition Limit (GoodTillDate 9) True 8 \<in> {FillAndRest, FillAndCancel, FillOrNothing} \<and>
    order_disposition Limit (GoodTillDate 9) True 8 \<in> {FillAndRest, RestOrder}"
    using order_disposition_honours_time_in_force [of MarketDriven Limit "GoodTillDate 9" True False 8 False True
        "order_disposition Limit (GoodTillDate 9) True 8"]
    by (simp add: validate_order_kind_supported_def validate_time_in_force_supported_def) blast
  then show ?thesis by auto
qed

end
