(* ===== verification/Reduce_Only.thy ===== *)
theory Reduce_Only
  imports Position
begin

text \<open>
  The record of which orders were sent reduce-only, \<open>rustrade-execution/src/reduce_only.rs\<close>: the
  live orders and a bounded memory of the reduce-only ones that ended, by which a fill finds how its
  order was sent. The counter of live reduce-only orders is a \<open>usize\<close> that panics below zero,
  \<open>None\<close>. What a fill carries are its client order id, if it has one, and the venue's order id.
\<close>

section \<open>Data\<close>

record sent_order =
  so_reduce_only :: reduce_only
  so_venue_id :: "order_id option"

type_synonym sent_orders = "(client_order_id, sent_order) index_map"

record reduce_only_book =
  rb_live :: sent_orders
  rb_retired :: sent_orders
  rb_live_reduce_only :: nat

definition retired_capacity :: nat where
  "retired_capacity = 64"

definition book_new :: reduce_only_book where
  "book_new = \<lparr>rb_live = [], rb_retired = [], rb_live_reduce_only = 0\<rparr>"

definition sent_reduce_only :: "sent_order \<Rightarrow> bool" where
  "sent_reduce_only o' \<longleftrightarrow> is_reduce_only (so_reduce_only o')"

definition usize_sub :: "nat \<Rightarrow> nat \<Rightarrow> nat option" where
  "usize_sub a b = (if b \<le> a then Some (a - b) else None)"

section \<open>Operations\<close>

definition book_from_parts :: "sent_orders \<Rightarrow> sent_orders \<Rightarrow> reduce_only_book" where
  "book_from_parts live retired =
     (let kept = filter (\<lambda>(c, o'). sent_reduce_only o') retired;
          kept = filter (\<lambda>(c, o'). c \<notin> fst ` set live) kept;
          kept = drop (length kept - retired_capacity) kept
      in \<lparr>rb_live = live, rb_retired = kept,
          rb_live_reduce_only = length (filter (\<lambda>(c, o'). sent_reduce_only o') live)\<rparr>)"

definition book_is_empty :: "reduce_only_book \<Rightarrow> bool" where
  "book_is_empty b \<longleftrightarrow> rb_live b = [] \<and> rb_retired b = []"

definition has_reduce_only :: "reduce_only_book \<Rightarrow> bool" where
  "has_reduce_only b \<longleftrightarrow> 0 < rb_live_reduce_only b \<or> rb_retired b \<noteq> []"

definition register :: "client_order_id \<Rightarrow> reduce_only \<Rightarrow> reduce_only_book \<Rightarrow> reduce_only_book option" where
  "register c r b = do {
     n \<leftarrow> (case map_of (rb_live b) c of
         None \<Rightarrow> Some (rb_live_reduce_only b)
       | Some earlier \<Rightarrow> usize_sub (rb_live_reduce_only b) (if sent_reduce_only earlier then 1 else 0));
     Some (b\<lparr>rb_retired := im_remove c (rb_retired b),
       rb_live_reduce_only := n + (if is_reduce_only r then 1 else 0),
       rb_live := im_insert c \<lparr>so_reduce_only = r, so_venue_id = None\<rparr> (im_remove c (rb_live b))\<rparr>)
   }"

definition acknowledge :: "client_order_id \<Rightarrow> order_id \<Rightarrow> reduce_only_book \<Rightarrow> reduce_only_book" where
  "acknowledge c v b =
     (case map_of (rb_live b) c of
        Some o' \<Rightarrow> b\<lparr>rb_live := im_insert c (o'\<lparr>so_venue_id := Some v\<rparr>) (rb_live b)\<rparr>
      | None \<Rightarrow>
          (case map_of (rb_retired b) c of
             Some o' \<Rightarrow> b\<lparr>rb_retired := im_insert c (o'\<lparr>so_venue_id := Some v\<rparr>) (rb_retired b)\<rparr>
           | None \<Rightarrow> b))"

definition insert_retired :: "client_order_id \<Rightarrow> sent_order \<Rightarrow> sent_orders \<Rightarrow> sent_orders" where
  "insert_retired c o' retired =
     im_insert c o' (if retired_capacity \<le> length retired \<and> c \<notin> fst ` set retired then tl retired else retired)"

definition retire_order :: "client_order_id \<Rightarrow> reduce_only_book \<Rightarrow> reduce_only_book option" where
  "retire_order c b =
     (case map_of (rb_live b) c of
        None \<Rightarrow> Some b
      | Some o' \<Rightarrow>
          let b' = b\<lparr>rb_live := im_remove c (rb_live b)\<rparr>
          in if sent_reduce_only o' then do {
               n \<leftarrow> usize_sub (rb_live_reduce_only b) 1;
               Some (b'\<lparr>rb_live_reduce_only := n, rb_retired := insert_retired c o' (rb_retired b)\<rparr>)
             }
             else Some b')"

definition retire_untracked :: "(client_order_id \<Rightarrow> bool) \<Rightarrow> reduce_only_book \<Rightarrow> reduce_only_book option" where
  "retire_untracked is_tracked b =
     (let ended = filter (\<lambda>(c, o'). \<not> is_tracked c \<and> sent_reduce_only o') (rb_live b)
      in do {
        n \<leftarrow> usize_sub (rb_live_reduce_only b) (length ended);
        Some (b\<lparr>rb_live := filter (\<lambda>(c, o'). is_tracked c) (rb_live b), rb_live_reduce_only := n,
          rb_retired := fold (\<lambda>(c, o'). insert_retired c o') ended (rb_retired b)\<rparr>)
      })"

definition lookup_ids ::
  "client_order_id option \<Rightarrow> order_id \<Rightarrow> reduce_only_book \<Rightarrow> (client_order_id \<times> reduce_only) option" where
  "lookup_ids c v b =
     (let booked = map_option (\<lambda>(c, o'). (c, so_reduce_only o'))
      in case c of
           Some c \<Rightarrow> booked (case map_of (rb_live b) c of
               Some o' \<Rightarrow> Some (c, o')
             | None \<Rightarrow> map_option (\<lambda>o'. (c, o')) (map_of (rb_retired b) c))
         | None \<Rightarrow>
             let by_venue_id = (\<lambda>(c, o'). so_venue_id o' = Some v)
             in booked (case find by_venue_id (rb_live b) of
                  Some x \<Rightarrow> Some x
                | None \<Rightarrow> find by_venue_id (rb_retired b)))"

definition lookup_trade :: "('a, 'i) trade \<Rightarrow> reduce_only_book \<Rightarrow> (client_order_id \<times> reduce_only) option" where
  "lookup_trade t b = lookup_ids (tr_client_order_id t) (tr_order_id t) b"

definition is_reduce_only_fill :: "('a, 'i) trade \<Rightarrow> reduce_only_book \<Rightarrow> bool" where
  "is_reduce_only_fill t b \<longleftrightarrow> (case lookup_trade t b of None \<Rightarrow> False | Some (c, r) \<Rightarrow> is_reduce_only r)"

definition book_clear :: "reduce_only_book \<Rightarrow> reduce_only_book" where
  "book_clear b = b\<lparr>rb_live := [], rb_retired := [], rb_live_reduce_only := 0\<rparr>"

section \<open>Histories\<close>

datatype book_event =
    Register client_order_id reduce_only
  | Acknowledge client_order_id order_id
  | RetireOrder client_order_id
  | RetireUntracked "client_order_id \<Rightarrow> bool"
  | ClearBook

fun book_step :: "book_event \<Rightarrow> reduce_only_book \<Rightarrow> reduce_only_book option" where
  "book_step (Register c r) b = register c r b"
| "book_step (Acknowledge c v) b = Some (acknowledge c v b)"
| "book_step (RetireOrder c) b = retire_order c b"
| "book_step (RetireUntracked f) b = retire_untracked f b"
| "book_step ClearBook b = Some (book_clear b)"

fun book_run :: "book_event list \<Rightarrow> reduce_only_book \<Rightarrow> reduce_only_book option" where
  "book_run [] b = Some b"
| "book_run (e # es) b = Option.bind (book_step e b) (book_run es)"

text \<open>What the last registration of a client order id sent it as, since the last clearing.\<close>

fun sent_as :: "book_event list \<Rightarrow> client_order_id \<Rightarrow> reduce_only option \<Rightarrow> reduce_only option" where
  "sent_as [] c r = r"
| "sent_as (Register c' r' # es) c r = sent_as es c (if c' = c then Some r' else r)"
| "sent_as (ClearBook # es) c r = sent_as es c None"
| "sent_as (_ # es) c r = sent_as es c r"

text \<open>How many reduce-only orders an event retires, and a history.\<close>

fun retirements :: "book_event \<Rightarrow> reduce_only_book \<Rightarrow> nat" where
  "retirements (RetireOrder c) b = (case map_of (rb_live b) c of
      Some o' \<Rightarrow> if sent_reduce_only o' then 1 else 0 | None \<Rightarrow> 0)"
| "retirements (RetireUntracked f) b = length (filter (\<lambda>(c, o'). \<not> f c \<and> sent_reduce_only o') (rb_live b))"
| "retirements _ b = 0"

fun run_retirements :: "book_event list \<Rightarrow> reduce_only_book \<Rightarrow> nat" where
  "run_retirements [] b = 0"
| "run_retirements (e # es) b = retirements e b +
     (case book_step e b of None \<Rightarrow> 0 | Some b' \<Rightarrow> run_retirements es b')"

text \<open>
  How many reduce-only orders a history retires from the event on that ends the live order \<open>c\<close>, that
  event's own included. While the order is live nothing counts.
\<close>

fun retirements_since :: "client_order_id \<Rightarrow> book_event list \<Rightarrow> reduce_only_book \<Rightarrow> nat" where
  "retirements_since c [] b = 0"
| "retirements_since c (e # es) b =
     (case book_step e b of
        None \<Rightarrow> 0
      | Some b' \<Rightarrow> if map_of (rb_live b') c \<noteq> None then retirements_since c es b'
          else retirements e b + run_retirements es b')"

section \<open>The invariant\<close>

definition reduce_only_count :: "sent_orders \<Rightarrow> nat" where
  "reduce_only_count m = length (filter (\<lambda>(c, o'). sent_reduce_only o') m)"

definition book_inv :: "reduce_only_book \<Rightarrow> bool" where
  "book_inv b \<longleftrightarrow> im_wf (rb_live b) \<and> im_wf (rb_retired b) \<and>
     fst ` set (rb_live b) \<inter> fst ` set (rb_retired b) = {} \<and>
     (\<forall>(c, o') \<in> set (rb_retired b). sent_reduce_only o') \<and>
     length (rb_retired b) \<le> retired_capacity \<and> rb_live_reduce_only b = reduce_only_count (rb_live b)"

interpretation retired: recent_memory "\<lambda>c. insert_retired c (v c)" "map fst" retired_capacity for v
proof
  show "0 < retired_capacity" by (simp add: retired_capacity_def)
next
  fix c and m :: sent_orders
  assume "c \<in> set (map fst m)"
  then show "map fst (insert_retired c (v c) m) = map fst m"
    by (simp add: insert_retired_def im_keys_insert_old)
next
  fix c and m :: sent_orders
  assume new: "c \<notin> set (map fst m)" and len: "length (map fst m) \<le> retired_capacity"
  then have "c \<notin> fst ` set (tl m)" by (auto dest: list_tl_mem)
  then show "map fst (insert_retired c (v c) m) =
      (if length (map fst m) = retired_capacity then tl (map fst m) else map fst m) @ [c]"
    using new len by (simp add: insert_retired_def im_keys_insert_new map_tl)
qed

lemma reduce_only_count_remove:
  "im_wf m \<Longrightarrow> reduce_only_count m = reduce_only_count (im_remove c m) +
     (case map_of m c of None \<Rightarrow> 0 | Some o' \<Rightarrow> if sent_reduce_only o' then 1 else 0)"
proof (induction m)
  case Nil
  then show ?case by (simp add: reduce_only_count_def im_remove_def)
next
  case (Cons x m)
  obtain k o' where x: "x = (k, o')" by fastforce
  have "k \<notin> fst ` set m" using Cons.prems x by (simp add: im_wf_def)
  moreover have "im_wf m" using Cons.prems by (simp add: im_wf_def)
  moreover have "map_of m k = None" using calculation(1) by (simp add: map_of_eq_None_iff)
  ultimately show ?case using Cons.IH x
    by (auto simp: reduce_only_count_def im_remove_def AList.delete_eq filter_id_conv)
qed

lemma reduce_only_count_insert:
  "c \<notin> fst ` set m \<Longrightarrow> reduce_only_count (im_insert c o' m) = reduce_only_count m + (if sent_reduce_only o' then 1 else 0)"
  by (induction m) (auto simp: reduce_only_count_def im_insert_def)

lemma im_insert_same_count:
  "map_of m c = Some o' \<Longrightarrow> sent_reduce_only p = sent_reduce_only o' \<Longrightarrow> reduce_only_count (im_insert c p m) = reduce_only_count m"
  by (induction m) (auto simp: reduce_only_count_def im_insert_def split: if_splits)

text \<open>A well-formed memory of reduce-only orders, and what it may hold after one more.\<close>

definition retired_ok :: "sent_orders \<Rightarrow> bool" where
  "retired_ok m \<longleftrightarrow> im_wf m \<and> length m \<le> retired_capacity \<and> (\<forall>(c, o') \<in> set m. sent_reduce_only o')"

lemma im_wf_tl: "im_wf m \<Longrightarrow> im_wf (tl m)"
  by (simp add: im_wf_def map_tl distinct_tl)

lemma map_of_tl: "im_wf m \<Longrightarrow> map_of (tl m) k = Some x \<Longrightarrow> map_of m k = Some x"
  by (cases m) (force simp: im_wf_def dest: map_of_SomeD)+

lemma insert_retired_ok:
  assumes "retired_ok m" and "sent_reduce_only o'"
  shows "retired_ok (insert_retired c o' m)"
    and "map_of (insert_retired c o' m) k = Some x \<Longrightarrow> k = c \<and> x = o' \<or> map_of m k = Some x"
    and "fst ` set (insert_retired c o' m) \<subseteq> insert c (fst ` set m)"
proof -
  have wf: "im_wf m" "length m \<le> retired_capacity" using assms(1) by (simp_all add: retired_ok_def)
  have "length (map fst (insert_retired c o' m)) \<le> retired_capacity"
    using retired.keep_length [of m c "\<lambda>_. o'"] wf by simp
  moreover have "im_wf (insert_retired c o' m)"
    using retired.keep_distinct [of m c "\<lambda>_. o'"] wf by (simp add: im_wf_def)
  moreover have "set (insert_retired c o' m) \<subseteq> insert (c, o') (set m)"
    using wf im_wf_tl [OF wf(1)] by (auto simp: insert_retired_def im_set_insert dest: list_tl_mem)
  ultimately show "retired_ok (insert_retired c o' m)"
    and "fst ` set (insert_retired c o' m) \<subseteq> insert c (fst ` set m)"
    using assms by (auto simp: retired_ok_def)
  show "map_of (insert_retired c o' m) k = Some x \<Longrightarrow> k = c \<and> x = o' \<or> map_of m k = Some x"
    using wf map_of_tl by (auto simp: insert_retired_def split: if_splits)
qed

lemma fold_retired_ok:
  assumes "retired_ok m" and "\<forall>(c, o') \<in> set ended. sent_reduce_only o'"
  shows "retired_ok (fold (\<lambda>(c, o'). insert_retired c o') ended m)"
    and "map_of (fold (\<lambda>(c, o'). insert_retired c o') ended m) k = Some x \<Longrightarrow> (k, x) \<in> set ended \<or> map_of m k = Some x"
    and "fst ` set (fold (\<lambda>(c, o'). insert_retired c o') ended m) \<subseteq> fst ` set ended \<union> fst ` set m"
  using assms
proof (induction ended arbitrary: m)
  case Nil
  case 1 then show ?case by simp
next
  case Nil
  case 2 then show ?case by simp
next
  case Nil
  case 3 then show ?case by simp
next
  case (Cons y ended)
  obtain c o' where y: "y = (c, o')" by fastforce
  case 1
  then show ?case using Cons.IH(1) insert_retired_ok(1) y by auto
next
  case (Cons y ended)
  obtain c o' where y: "y = (c, o')" by fastforce
  case 2
  then show ?case using Cons.IH(2) [OF _ insert_retired_ok(1)] insert_retired_ok(2) y by fastforce
next
  case (Cons y ended)
  obtain c o' where y: "y = (c, o')" by fastforce
  case 3
  then have ok: "retired_ok m" "sent_reduce_only o'" using y by auto
  have "fst ` set (fold (\<lambda>(c, o'). insert_retired c o') (y # ended) m) \<subseteq> fst ` set ended \<union> fst ` set (insert_retired c o' m)"
    using Cons.IH(3) [OF insert_retired_ok(1) [OF ok]] 3 y by auto
  then show ?case using insert_retired_ok(3) [OF ok, of c] y by auto
qed

text \<open>What the book says of a client order id.\<close>

definition booked_as :: "client_order_id \<Rightarrow> reduce_only_book \<Rightarrow> reduce_only option" where
  "booked_as c b = map_option so_reduce_only
     (case map_of (rb_live b) c of Some o' \<Rightarrow> Some o' | None \<Rightarrow> map_of (rb_retired b) c)"

lemma lookup_by_client_id: "lookup_ids (Some c) v b = map_option (Pair c) (booked_as c b)"
  by (auto simp: lookup_ids_def booked_as_def Let_def option.map_comp comp_def split: option.splits)

text \<open>One event: it never panics, keeps the invariant, and the book never says what was not sent.\<close>

definition book_step_ok :: "book_event \<Rightarrow> reduce_only_book \<Rightarrow> reduce_only_book \<Rightarrow> bool" where
  "book_step_ok e b b' \<longleftrightarrow> book_step e b = Some b' \<and> book_inv b' \<and>
     (\<forall>c r. booked_as c b' = Some r \<longrightarrow> sent_as [e] c (booked_as c b) = Some r)"

lemma book_inv_parts:
  assumes "book_inv b"
  shows "im_wf (rb_live b)" "retired_ok (rb_retired b)" "fst ` set (rb_live b) \<inter> fst ` set (rb_retired b) = {}"
    "rb_live_reduce_only b = reduce_only_count (rb_live b)"
  using assms by (auto simp: book_inv_def retired_ok_def)

lemma book_invI:
  "im_wf (rb_live b) \<Longrightarrow> retired_ok (rb_retired b) \<Longrightarrow> fst ` set (rb_live b) \<inter> fst ` set (rb_retired b) = {} \<Longrightarrow>
    rb_live_reduce_only b = reduce_only_count (rb_live b) \<Longrightarrow> book_inv b"
  by (auto simp: book_inv_def retired_ok_def)

lemma retired_ok_remove: "retired_ok m \<Longrightarrow> retired_ok (im_remove c m)"
  unfolding retired_ok_def using im_wf_remove [of m c] le_trans [OF length_filter_le]
  by (auto simp: im_set_remove) (simp add: im_remove_def AList.delete_eq)

lemma step_register:
  assumes "book_inv b"
  shows "\<exists>b'. book_step_ok (Register c r) b b' \<and> map_of (rb_live b') c = Some \<lparr>so_reduce_only = r, so_venue_id = None\<rparr>"
proof -
  note p = book_inv_parts [OF assms]
  let ?o = "\<lparr>so_reduce_only = r, so_venue_id = None\<rparr>"
  let ?live = "im_insert c ?o (im_remove c (rb_live b))"
  have new: "c \<notin> fst ` set (im_remove c (rb_live b))" by (auto simp: im_set_remove)
  let ?n = "reduce_only_count (im_remove c (rb_live b))"
  have "(case map_of (rb_live b) c of None \<Rightarrow> Some (rb_live_reduce_only b)
      | Some earlier \<Rightarrow> usize_sub (rb_live_reduce_only b) (if sent_reduce_only earlier then 1 else 0)) = Some ?n"
    using reduce_only_count_remove [OF p(1), of c] p(4) by (auto simp: usize_sub_def split: option.splits)
  then have reg: "register c r b = Some (b\<lparr>rb_retired := im_remove c (rb_retired b),
      rb_live_reduce_only := ?n + (if is_reduce_only r then 1 else 0), rb_live := ?live\<rparr>)" (is "_ = Some ?b")
    by (simp add: register_def)
  have "book_inv ?b"
  proof (rule book_invI)
    show "im_wf (rb_live ?b)" using p(1) by simp
    show "retired_ok (rb_retired ?b)" using p(2) retired_ok_remove by simp
    show "fst ` set (rb_live ?b) \<inter> fst ` set (rb_retired ?b) = {}"
      using p(1,3) by (auto simp: im_set_insert im_set_remove)
    show "rb_live_reduce_only ?b = reduce_only_count (rb_live ?b)"
      using reduce_only_count_insert [OF new, of ?o] by (simp add: sent_reduce_only_def)
  qed
  moreover have "booked_as d ?b = Some r' \<Longrightarrow> (if c = d then Some r else booked_as d b) = Some r'" for d r'
    by (auto simp: booked_as_def split: option.splits if_splits)
  ultimately show ?thesis using reg by (auto simp: book_step_ok_def)
qed

lemma step_acknowledge:
  assumes "book_inv b"
  shows "book_step_ok (Acknowledge c v) b (acknowledge c v b)" and "booked_as d (acknowledge c v b) = booked_as d b"
    and "map fst (rb_live (acknowledge c v b)) = map fst (rb_live b)"
    and "map fst (rb_retired (acknowledge c v b)) = map fst (rb_retired b)"
proof -
  note p = book_inv_parts [OF assms]
  have keys: "map fst (im_insert c x m) = map fst m" if "map_of m c = Some y" for x y and m :: sent_orders
    using that by (intro im_keys_insert_old) (force dest: map_of_SomeD)
  show k: "map fst (rb_live (acknowledge c v b)) = map fst (rb_live b)"
    "map fst (rb_retired (acknowledge c v b)) = map fst (rb_retired b)"
    by (auto simp: acknowledge_def keys split: option.splits)
  show b: "booked_as d (acknowledge c v b) = booked_as d b" for d
    by (auto simp: acknowledge_def booked_as_def split: option.splits)
  have ks: "fst ` set (rb_live (acknowledge c v b)) = fst ` set (rb_live b)"
    "fst ` set (rb_retired (acknowledge c v b)) = fst ` set (rb_retired b)"
    using arg_cong [OF k(1), of set] arg_cong [OF k(2), of set] by simp_all
  have "book_inv (acknowledge c v b)"
  proof (rule book_invI)
    show "im_wf (rb_live (acknowledge c v b))" using p(1) k(1) by (simp add: im_wf_def)
    show "fst ` set (rb_live (acknowledge c v b)) \<inter> fst ` set (rb_retired (acknowledge c v b)) = {}" using p(3) ks by simp
    show "rb_live_reduce_only (acknowledge c v b) = reduce_only_count (rb_live (acknowledge c v b))"
      using p(4) by (auto simp: acknowledge_def im_insert_same_count sent_reduce_only_def split: option.splits)
    show "retired_ok (rb_retired (acknowledge c v b))"
      using p(2) arg_cong [OF k(2), of length] k(2) map_of_SomeD [of "rb_retired b" c]
      by (auto simp: retired_ok_def im_wf_def acknowledge_def im_set_insert [unfolded im_wf_def] sent_reduce_only_def
          split: option.splits)
  qed
  then show "book_step_ok (Acknowledge c v) b (acknowledge c v b)" using b by (simp add: book_step_ok_def)
qed

lemma not_both:
  "fst ` set l \<inter> fst ` set m = {} \<Longrightarrow> map_of m d = Some x \<Longrightarrow> map_of l d = None"
  by (metis disjoint_iff domI domIff dom_map_of_conv_image_fst)

lemma keys_disjointI:
  assumes "\<And>x. x \<in> set m \<Longrightarrow> fst x \<notin> fst ` set l"
  shows "fst ` set l \<inter> fst ` set m = {}"
proof (rule equals0I)
  fix k assume "k \<in> fst ` set l \<inter> fst ` set m"
  then obtain x where "x \<in> set m" "k = fst x" "k \<in> fst ` set l" by blast
  with assms [of x] show False by simp
qed

lemma disjoint_moved:
  "A \<inter> B = {} \<Longrightarrow> A' \<subseteq> A \<Longrightarrow> A' \<inter> E = {} \<Longrightarrow> B' \<subseteq> E \<union> B \<Longrightarrow> A' \<inter> B' = {}"
  by blast

lemma step_retire:
  assumes "book_inv b"
  shows "\<exists>b'. book_step_ok (RetireOrder c) b b'"
proof (cases "map_of (rb_live b) c")
  case None
  with assms show ?thesis by (auto simp: book_step_ok_def retire_order_def)
next
  case (Some o')
  note p = book_inv_parts [OF assms]
  have count: "reduce_only_count (rb_live b) = reduce_only_count (im_remove c (rb_live b)) + (if sent_reduce_only o' then 1 else 0)"
    using reduce_only_count_remove [OF p(1), of c] Some by simp
  have c: "c \<in> fst ` set (rb_live b)" using map_of_SomeD [OF Some] by force
  show ?thesis
  proof (cases "sent_reduce_only o'")
    case True
    let ?b = "b\<lparr>rb_live := im_remove c (rb_live b), rb_live_reduce_only := reduce_only_count (im_remove c (rb_live b)),
      rb_retired := insert_retired c o' (rb_retired b)\<rparr>"
    have "retire_order c b = Some ?b" using Some True p(4) count by (simp add: retire_order_def usize_sub_def)
    moreover have "book_inv ?b"
    proof (rule book_invI)
      show "fst ` set (rb_live ?b) \<inter> fst ` set (rb_retired ?b) = {}"
      proof (rule disjoint_moved [OF p(3), of _ "{c}"])
        show "fst ` set (rb_retired ?b) \<subseteq> {c} \<union> fst ` set (rb_retired b)"
          using insert_retired_ok(3) [OF p(2) True, of c] by simp
      qed (simp_all add: im_remove_keys)
    qed (use p insert_retired_ok(1) [OF p(2) True] in simp_all)
    moreover have "booked_as d b = Some r" if "booked_as d ?b = Some r" for d r
    proof (cases "map_of (im_remove c (rb_live b)) d")
      case None
      with that obtain x where x: "map_of (insert_retired c o' (rb_retired b)) d = Some x" "so_reduce_only x = r"
        by (auto simp: booked_as_def simp del: im_lookup_remove)
      from insert_retired_ok(2) [OF p(2) True x(1)] x(2) Some not_both [OF p(3), of d x] show ?thesis
        by (auto simp: booked_as_def)
    next
      case (Some y)
      with that show ?thesis by (auto simp: booked_as_def split: if_splits)
    qed
    ultimately show ?thesis by (auto simp: book_step_ok_def)
  next
    case False
    let ?b = "b\<lparr>rb_live := im_remove c (rb_live b)\<rparr>"
    have "retire_order c b = Some ?b" using Some False by (simp add: retire_order_def)
    moreover have "book_inv ?b"
      using p count False by (intro book_invI) (auto simp: im_set_remove)
    moreover have "booked_as d b = Some r" if "booked_as d ?b = Some r" for d r
      using that Some not_both [OF p(3), of d] by (auto simp: booked_as_def split: option.splits if_splits)
    ultimately show ?thesis by (auto simp: book_step_ok_def)
  qed
qed

lemma untracked_count:
  "reduce_only_count m = reduce_only_count (filter (\<lambda>(c, o'). f c) m) + length (filter (\<lambda>(c, o'). \<not> f c \<and> sent_reduce_only o') m)"
  by (induction m) (auto simp: reduce_only_count_def)

lemma map_of_filter_key: "map_of (filter (\<lambda>(c, v). f c) m) k = (if f k then map_of m k else None)"
  by (induction m) auto

lemma im_wf_filter: "im_wf m \<Longrightarrow> im_wf (filter P m)"
  by (induction m) (auto simp: im_wf_def)

lemma step_untracked:
  assumes "book_inv b"
  shows "\<exists>b'. book_step_ok (RetireUntracked f) b b'"
proof -
  note p = book_inv_parts [OF assms]
  let ?ended = "filter (\<lambda>(c, o'). \<not> f c \<and> sent_reduce_only o') (rb_live b)"
  let ?live = "filter (\<lambda>(c, o'). f c) (rb_live b)"
  let ?retired = "fold (\<lambda>(c, o'). insert_retired c o') ?ended (rb_retired b)"
  let ?b = "b\<lparr>rb_live := ?live, rb_live_reduce_only := reduce_only_count ?live, rb_retired := ?retired\<rparr>"
  have ro: "\<forall>(c, o') \<in> set ?ended. sent_reduce_only o'" by auto
  note fr = fold_retired_ok [OF p(2) ro]
  have "retire_untracked f b = Some ?b"
    using untracked_count [of "rb_live b" f] p(4) by (simp add: retire_untracked_def usize_sub_def)
  moreover have "book_inv ?b"
  proof (rule book_invI)
    show "fst ` set (rb_live ?b) \<inter> fst ` set (rb_retired ?b) = {}"
    proof (rule disjoint_moved [OF p(3), of _ "fst ` set ?ended"])
      show "fst ` set (rb_retired ?b) \<subseteq> fst ` set ?ended \<union> fst ` set (rb_retired b)" using fr(3) by simp
    qed auto
  qed (use p fr(1) im_wf_filter in simp_all)
  moreover have "booked_as d b = Some r" if "booked_as d ?b = Some r" for d r
  proof (cases "f d \<and> map_of (rb_live b) d \<noteq> None")
    case True
    with that show ?thesis by (auto simp: booked_as_def map_of_filter_key)
  next
    case False
    with that obtain x where x: "map_of ?retired d = Some x" "so_reduce_only x = r"
      by (auto simp: booked_as_def map_of_filter_key split: if_splits)
    from fr(2) [OF x(1)] show ?thesis
    proof
      assume "(d, x) \<in> set ?ended"
      then have "map_of (rb_live b) d = Some x" using p(1) by (simp add: im_wf_def)
      with x(2) show ?thesis by (simp add: booked_as_def)
    next
      assume old: "map_of (rb_retired b) d = Some x"
      then have "map_of (rb_live b) d = None" using not_both [OF p(3)] by blast
      with old x(2) show ?thesis by (simp add: booked_as_def)
    qed
  qed
  ultimately show ?thesis by (auto simp: book_step_ok_def)
qed

lemma book_step_total:
  assumes "book_inv b"
  shows "\<exists>b'. book_step_ok e b b'"
proof (cases e)
  case (Register c r)
  then show ?thesis using step_register [OF assms] by blast
next
  case (Acknowledge c v)
  then show ?thesis using step_acknowledge [OF assms] by blast
next
  case ClearBook
  have "book_inv (book_clear b)" by (simp add: book_inv_def book_clear_def reduce_only_count_def)
  then show ?thesis unfolding ClearBook
    by (intro exI [of _ "book_clear b"]) (simp add: book_step_ok_def booked_as_def book_clear_def)
qed (use step_retire [OF assms] step_untracked [OF assms] in auto)

lemma sent_as_Cons: "sent_as (e # es) c r = sent_as es c (sent_as [e] c r)"
  by (cases e) simp_all

lemma sent_as_mono: "r = None \<or> r = r' \<Longrightarrow> sent_as es c r = None \<or> sent_as es c r = sent_as es c r'"
proof (induction es arbitrary: r r')
  case (Cons e es)
  have "sent_as [e] c r = None \<or> sent_as [e] c r = sent_as [e] c r'" using Cons.prems by (cases e) auto
  with Cons.IH show ?case by (metis sent_as_Cons)
qed simp

lemma book_run_total:
  assumes "book_inv b"
  shows "\<exists>b'. book_run es b = Some b' \<and> book_inv b' \<and>
    (\<forall>c r. booked_as c b' = Some r \<longrightarrow> sent_as es c (booked_as c b) = Some r)"
  using assms
proof (induction es arbitrary: b)
  case Nil
  then show ?case by simp
next
  case (Cons e es)
  obtain b1 where b1: "book_step e b = Some b1" "book_inv b1"
    "\<forall>c r. booked_as c b1 = Some r \<longrightarrow> sent_as [e] c (booked_as c b) = Some r"
    using book_step_total [OF Cons.prems, of e] by (auto simp: book_step_ok_def)
  from Cons.IH [OF b1(2)] obtain b' where b': "book_run es b1 = Some b'" "book_inv b'"
    "\<forall>c r. booked_as c b' = Some r \<longrightarrow> sent_as es c (booked_as c b1) = Some r" by blast
  have "sent_as (e # es) c (booked_as c b) = Some r" if r: "booked_as c b' = Some r" for c r
  proof -
    have "booked_as c b1 = None \<or> booked_as c b1 = sent_as [e] c (booked_as c b)" using b1(3) by (cases "booked_as c b1") auto
    from sent_as_mono [OF this, of es c] show ?thesis using b'(3) r by (auto simp: sent_as_Cons [of e es])
  qed
  with b1(1) b'(1,2) show ?case by (auto simp del: sent_as.simps)
qed

lemma book_new_inv: "book_inv book_new"
  by (simp add: book_inv_def book_new_def reduce_only_count_def)

section \<open>How long a retired order is remembered\<close>

text \<open>An order the book still finds after \<open>n\<close> further retirements of reduce-only orders.\<close>

definition found_for :: "nat \<Rightarrow> client_order_id \<Rightarrow> reduce_only_book \<Rightarrow> bool" where
  "found_for n c b \<longleftrightarrow>
     c \<in> fst ` set (rb_live b) \<and> n \<le> retired_capacity \<or>
     (\<exists>xs ys. map fst (rb_retired b) = xs @ c # ys \<and> length ys + n < retired_capacity)"

lemma found_live: "map_of (rb_live b) c = Some o' \<Longrightarrow> n \<le> retired_capacity \<Longrightarrow> found_for n c b"
  unfolding found_for_def by (metis domI dom_map_of_conv_image_fst)

lemma found_cases:
  assumes "found_for (k + n) c b" and "fst ` set (rb_live b) \<inter> fst ` set (rb_retired b) = {}"
  obtains (live) "c \<in> fst ` set (rb_live b)" "c \<notin> fst ` set (rb_retired b)" "k + n \<le> retired_capacity"
    | (old) xs ys where "map fst (rb_retired b) = xs @ c # ys" "length ys + k + n < retired_capacity"
proof (cases "c \<in> fst ` set (rb_live b) \<and> k + n \<le> retired_capacity")
  case True
  then have "c \<notin> fst ` set (rb_retired b)" using assms(2) by blast
  with True show thesis using live by blast
next
  case False
  then obtain xs ys where "map fst (rb_retired b) = xs @ c # ys" "length ys + (k + n) < retired_capacity"
    using assms(1) unfolding found_for_def by blast
  then show thesis using old by simp
qed

lemma fold_retired_keep:
  assumes "im_wf ended"
  shows "fold (\<lambda>(c, o'). insert_retired c o') ended m =
    fold (\<lambda>c. insert_retired c (the (map_of ended c))) (map fst ended) m"
proof -
  have "fold (\<lambda>(c, o'). insert_retired c o') es m = fold (\<lambda>c. insert_retired c (the (map_of ended c))) (map fst es) m"
    if "set es \<subseteq> set ended" for es and m
    using that assms by (induction es arbitrary: m) (auto simp: im_wf_def)
  then show ?thesis by blast
qed

lemma filter_split_key:
  "map fst m = xs @ c # ys \<Longrightarrow> c \<noteq> d \<Longrightarrow> \<exists>xs' ys'. map fst (im_remove d m) = xs' @ c # ys' \<and> length ys' \<le> length ys"
proof -
  assume "map fst m = xs @ c # ys" and "c \<noteq> d"
  moreover have "map fst (im_remove d m) = filter (\<lambda>k. k \<noteq> d) (map fst m)"
    by (induction m) (auto simp: im_remove_def)
  ultimately have "map fst (im_remove d m) = filter (\<lambda>k. k \<noteq> d) xs @ c # filter (\<lambda>k. k \<noteq> d) ys" by simp
  then show ?thesis using length_filter_le by blast
qed

lemma found_register:
  assumes inv: "book_inv b" and found: "found_for (retirements e b + n) c b" and booked: "booked_as c b = Some r"
    and r: "is_reduce_only r" and step: "book_step e b = Some b'" and e: "e = Register d r'" "c \<noteq> d"
  shows "found_for n c b'"
proof -
  note p = book_inv_parts [OF inv]
  have len: "length (map fst (rb_retired b)) \<le> retired_capacity" using p(2) by (simp add: retired_ok_def)
  from e(1) step have live: "fst ` set (rb_live b) - {d} \<subseteq> fst ` set (rb_live b')"
    and ret: "rb_retired b' = im_remove d (rb_retired b)"
    using p(1) by (auto simp: register_def im_set_insert im_set_remove split: Option.bind_splits)
  from found show ?thesis unfolding found_for_def e(1)
  proof
    assume "c \<in> fst ` set (rb_live b) \<and> retirements (Register d r') b + n \<le> retired_capacity"
    with live e(2) show "c \<in> fst ` set (rb_live b') \<and> n \<le> retired_capacity \<or>
      (\<exists>xs ys. map fst (rb_retired b') = xs @ c # ys \<and> length ys + n < retired_capacity)" by auto
  next
    assume "\<exists>xs ys. map fst (rb_retired b) = xs @ c # ys \<and> length ys + (retirements (Register d r') b + n) < retired_capacity"
    then show "c \<in> fst ` set (rb_live b') \<and> n \<le> retired_capacity \<or>
      (\<exists>xs ys. map fst (rb_retired b') = xs @ c # ys \<and> length ys + n < retired_capacity)"
      using filter_split_key [OF _ e(2)] ret by fastforce
  qed
qed

lemma found_retire:
  assumes inv: "book_inv b" and found: "found_for (retirements e b + n) c b" and booked: "booked_as c b = Some r"
    and r: "is_reduce_only r" and step: "book_step e b = Some b'" and e: "e = RetireOrder d"
  shows "found_for n c b'"
proof -
  note p = book_inv_parts [OF inv]
  have len: "length (map fst (rb_retired b)) \<le> retired_capacity" using p(2) by (simp add: retired_ok_def)
  show ?thesis
  proof (cases "\<exists>o'. map_of (rb_live b) d = Some o' \<and> sent_reduce_only o'")
    case True
    then obtain o' where o': "map_of (rb_live b) d = Some o'" "sent_reduce_only o'" by blast
    from e step o' have b': "rb_live b' = im_remove d (rb_live b)" "rb_retired b' = insert_retired d o' (rb_retired b)"
      by (auto simp: retire_order_def Let_def split: Option.bind_splits)
    have one: "retirements e b = 1" using e o' by simp
    consider (other) "c \<noteq> d" "c \<in> fst ` set (rb_live b)" "1 + n \<le> retired_capacity"
      | (self) "c = d" "1 + n \<le> retired_capacity" "c \<notin> fst ` set (rb_retired b)"
      | (old) xs ys where "map fst (rb_retired b) = xs @ c # ys" "length ys + Suc n < retired_capacity"
      by (rule found_cases [OF found [unfolded one] p(3)]) (cases "c = d", simp_all)
    then show ?thesis
    proof cases
      case other
      then show ?thesis using b' by (auto simp: found_for_def im_remove_keys)
    next
      case self
      then have "map fst (rb_retired b') = (if length (map fst (rb_retired b)) = retired_capacity
          then tl (map fst (rb_retired b)) else map fst (rb_retired b)) @ [c]"
        using b'(2) retired.keep_new [of c "rb_retired b" "\<lambda>_. o'"] len by simp
      then have "\<exists>xs ys. map fst (rb_retired b') = xs @ c # ys \<and> length ys + n < retired_capacity" using self(2) by fastforce
      then show ?thesis by (simp add: found_for_def)
    next
      case old
      from retired.keep_younger [OF len old, of d "\<lambda>_. o'"] show ?thesis using b'(2) by (auto simp: found_for_def)
    qed
  next
    case False
    then have zero: "retirements e b = 0" and b': "rb_retired b' = rb_retired b"
      and live: "rb_live b' = im_remove d (rb_live b)"
      using e step by (auto simp: retire_order_def im_remove_id map_of_eq_None_iff split: option.splits)
    have "c \<noteq> d" if "c \<in> fst ` set (rb_live b)"
    proof
      assume "c = d"
      with that obtain o' where "map_of (rb_live b) c = Some o'" by (metis domD dom_map_of_conv_image_fst)
      with False \<open>c = d\<close> booked r show False by (auto simp: booked_as_def sent_reduce_only_def)
    qed
    then show ?thesis using found b' live by (auto simp: found_for_def zero im_remove_keys)
  qed
qed

lemma found_untracked:
  assumes inv: "book_inv b" and found: "found_for (retirements e b + n) c b" and booked: "booked_as c b = Some r"
    and r: "is_reduce_only r" and step: "book_step e b = Some b'" and e: "e = RetireUntracked f"
  shows "found_for n c b'"
proof -
  note p = book_inv_parts [OF inv]
  have len: "length (map fst (rb_retired b)) \<le> retired_capacity" using p(2) by (simp add: retired_ok_def)
  let ?ended = "filter (\<lambda>(c, o'). \<not> f c \<and> sent_reduce_only o') (rb_live b)"
  let ?v = "\<lambda>c. the (map_of ?ended c)"
  have wf: "im_wf ?ended" using p(1) im_wf_filter by blast
  from e step have b': "rb_live b' = filter (\<lambda>(c, o'). f c) (rb_live b)"
    "rb_retired b' = fold (\<lambda>c. insert_retired c (?v c)) (map fst ?ended) (rb_retired b)"
    using fold_retired_keep [OF wf] by (auto simp: retire_untracked_def Let_def split: Option.bind_splits)
  have k: "retirements e b = length (map fst ?ended)" using e by simp
  consider (tracked) "f c" "c \<in> fst ` set (rb_live b)" "n \<le> retired_capacity"
    | (self) "\<not> f c" "c \<in> fst ` set (rb_live b)" "c \<notin> fst ` set (rb_retired b)" "length (map fst ?ended) + n \<le> retired_capacity"
    | (old) xs ys where "map fst (rb_retired b) = xs @ c # ys" "length ys + length (map fst ?ended) + n < retired_capacity"
    by (rule found_cases [OF found [unfolded k] p(3)]) (cases "f c", simp_all)
  then show ?thesis
  proof cases
    case tracked
    then have "c \<in> fst ` set (rb_live b')" using b'(1) by force
    then show ?thesis using tracked by (simp add: found_for_def)
  next
    case self
    then obtain o' where "map_of (rb_live b) c = Some o'" by (metis domD dom_map_of_conv_image_fst)
    then have "(c, o') \<in> set ?ended" using self(1) booked r map_of_SomeD [of "rb_live b" c o']
      by (auto simp: booked_as_def sent_reduce_only_def)
    then obtain as bs where split: "map fst ?ended = as @ c # bs" by (metis in_set_conv_decomp fst_conv image_eqI list.set_map)
    let ?m = "fold (\<lambda>c. insert_retired c (?v c)) as (rb_retired b)"
    have lm: "length (map fst ?m) \<le> retired_capacity" using retired.fold_keep_length [OF len] .
    have "c \<notin> set as" using wf split by (simp add: im_wf_def)
    have "c \<notin> set (map fst ?m)" using retired.fold_keep_subset [OF len, of ?v as] \<open>c \<notin> set as\<close> self(3) by auto
    then have "map fst (insert_retired c (?v c) ?m) = (if length (map fst ?m) = retired_capacity
        then tl (map fst ?m) else map fst ?m) @ c # []" using retired.keep_new [OF _ lm, of c ?v] by simp
    moreover have "length [] + length bs + n < retired_capacity" using self(4) split by simp
    ultimately have "\<exists>xs' ys'. map fst (fold (\<lambda>c. insert_retired c (?v c)) bs (insert_retired c (?v c) ?m)) = xs' @ c # ys' \<and>
        length ys' + n < retired_capacity"
      using retired.fold_keep_younger [OF retired.keep_length [OF lm, of c ?v], of _ c "[]" bs n ?v] by simp
    then show ?thesis unfolding found_for_def b'(2) split by simp
  next
    case old
    from retired.fold_keep_younger [OF len old(1), of "map fst ?ended" n ?v] old(2) show ?thesis
      unfolding found_for_def b'(2) by simp
  qed
qed

lemma found_step:
  assumes "book_inv b" and found: "found_for (retirements e b + n) c b" and "booked_as c b = Some r" and "is_reduce_only r"
    and step: "book_step e b = Some b'" and e: "\<forall>r'. e \<noteq> Register c r'" "e \<noteq> ClearBook"
  shows "found_for n c b'"
proof (cases e)
  case (Register d r')
  with e(1) have "c \<noteq> d" by blast
  from found_register [OF assms(1-5) Register this] show ?thesis .
next
  case (Acknowledge d v)
  with step have b': "b' = acknowledge d v b" by simp
  have "fst ` set (rb_live b') = fst ` set (rb_live b)" "map fst (rb_retired b') = map fst (rb_retired b)"
    using step_acknowledge(3,4) [OF assms(1), of d v] unfolding b' by (metis list.set_map, simp)
  with found Acknowledge show ?thesis by (simp add: found_for_def)
next
  case (RetireOrder d)
  from found_retire [OF assms(1-5) this] show ?thesis .
next
  case (RetireUntracked f)
  from found_untracked [OF assms(1-5) this] show ?thesis .
next
  case ClearBook
  with e(2) show ?thesis by simp
qed

text \<open>An order found is found as what it was sent as.\<close>

lemma found_booked: "found_for n c b \<Longrightarrow> booked_as c b \<noteq> None"
proof -
  assume "found_for n c b"
  then have "c \<in> fst ` set (rb_live b) \<or> (\<exists>xs ys. map fst (rb_retired b) = xs @ c # ys)" by (auto simp: found_for_def)
  then have "c \<in> fst ` set (rb_live b) \<or> c \<in> set (map fst (rb_retired b))" by (metis in_set_conv_decomp)
  then show ?thesis by (auto simp: booked_as_def dom_map_of_conv_image_fst [symmetric] split: option.splits)
qed

lemma book_run_append: "book_run (es @ fs) b = Option.bind (book_run es b) (book_run fs)"
  by (induction es arbitrary: b) (auto split: Option.bind_splits)

lemma found_run:
  assumes "book_inv b" and "found_for (run_retirements es b + n) c b" and "booked_as c b = Some r" and "is_reduce_only r"
    and "\<forall>e \<in> set es. (\<forall>r'. e \<noteq> Register c r') \<and> e \<noteq> ClearBook" and "book_run es b = Some b'"
  shows "booked_as c b' = Some r \<and> found_for n c b'"
  using assms
proof (induction es arbitrary: b)
  case Nil
  then show ?case by simp
next
  case (Cons e es)
  obtain b1 where b1: "book_step e b = Some b1" "book_inv b1" "\<forall>c r. booked_as c b1 = Some r \<longrightarrow> sent_as [e] c (booked_as c b) = Some r"
    using book_step_total [OF Cons.prems(1), of e] by (auto simp: book_step_ok_def)
  have "retirements e b + (run_retirements es b1 + n) = run_retirements (e # es) b + n" using b1(1) by simp
  then have "found_for (run_retirements es b1 + n) c b1"
    using found_step [OF Cons.prems(1) _ Cons.prems(3,4) b1(1)] Cons.prems(2,5) by (metis list.set_intros(1))
  moreover from found_booked [OF this] obtain r' where r': "booked_as c b1 = Some r'" by blast
  then have "sent_as [e] c (Some r) = Some r'" using b1(3) [rule_format, OF r'] Cons.prems(3) by simp
  then have "r' = r" using Cons.prems(5) by (cases e) (auto split: if_splits)
  ultimately show ?case using Cons.IH [OF b1(2)] Cons.prems(4-6) b1(1) r' by simp
qed

text \<open>A live order is found as long as it is live, and then as long as the memory holds it.\<close>

lemma found_since:
  assumes "book_inv b" and "map_of (rb_live b) c \<noteq> None" and "booked_as c b = Some r" and "is_reduce_only r"
    and "\<forall>e \<in> set es. (\<forall>r'. e \<noteq> Register c r') \<and> e \<noteq> ClearBook" and "book_run es b = Some b'"
    and "retirements_since c es b \<le> retired_capacity"
  shows "booked_as c b' = Some r"
  using assms
proof (induction es arbitrary: b)
  case (Cons e es)
  obtain b1 where b1: "book_step e b = Some b1" "book_inv b1" "\<forall>c r. booked_as c b1 = Some r \<longrightarrow> sent_as [e] c (booked_as c b) = Some r"
    using book_step_total [OF Cons.prems(1), of e] by (auto simp: book_step_ok_def)
  show ?case
  proof (cases "map_of (rb_live b1) c")
    case (Some so)
    then obtain r' where r': "booked_as c b1 = Some r'" by (auto simp: booked_as_def)
    then have "sent_as [e] c (Some r) = Some r'" using b1(3) [rule_format, OF r'] Cons.prems(3) by simp
    then have "r' = r" using Cons.prems(5) by (cases e) (auto split: if_splits)
    with Cons.IH [OF b1(2)] Cons.prems(4-7) b1(1) r' Some show ?thesis by simp
  next
    case None
    then have "run_retirements (e # es) b + 0 \<le> retired_capacity" using Cons.prems(7) b1(1) by simp
    with Cons.prems(2) have "found_for (run_retirements (e # es) b + 0) c b" using found_live by blast
    with found_run [OF Cons.prems(1) _ Cons.prems(3-6)] show ?thesis by blast
  qed
qed simp

section \<open>Properties\<close>

text \<open>C16: A fill of a reduce-only order is recognised as long as the book promises. In any history, once
  an open request is registered reduce-only and its client order id is not registered again and the
  book not cleared, a fill under that id is found as what it was sent as while the order is live, however
  many other orders end meanwhile, and after it ended until more than 64 reduce-only orders have ended
  from its own end on, itself and those that end in the same event included; ordinary orders that end
  never push it out, and no event panics.\<close>

theorem reduce_only_fill_recognised:
  assumes "is_reduce_only r" and "\<forall>e \<in> set later. (\<forall>r'. e \<noteq> Register c r') \<and> e \<noteq> ClearBook"
    and "book_run (earlier @ [Register c r]) book_new = Some b" and "retirements_since c later b \<le> 64"
    and "tr_client_order_id t = Some c"
  shows "\<exists>b'. book_run later b = Some b' \<and> lookup_trade t b' = Some (c, r) \<and> is_reduce_only_fill t b'"
proof -
  obtain b0 where b0: "book_run earlier book_new = Some b0" "book_inv b0"
    using book_run_total [OF book_new_inv] by blast
  have step: "register c r b0 = Some b" using assms(3) b0(1) by (cases "register c r b0") (simp_all add: book_run_append)
  then have inv: "book_inv b" and live: "map_of (rb_live b) c = Some \<lparr>so_reduce_only = r, so_venue_id = None\<rparr>"
    using step_register [OF b0(2), of c r] by (auto simp: book_step_ok_def)
  obtain b' where b': "book_run later b = Some b'" using book_run_total [OF inv] by blast
  have "booked_as c b = Some r" using live by (simp add: booked_as_def)
  then have "booked_as c b' = Some r"
    using found_since [OF inv _ _ assms(1,2) b'] live assms(4) by (simp add: retired_capacity_def)
  then show ?thesis using b' assms(1,5) by (simp add: lookup_trade_def lookup_by_client_id is_reduce_only_fill_def)
qed

theorem reduce_only_fill_recognised_witness:
  "\<exists>b'. book_run [RetireUntracked (\<lambda>c. False)] \<lparr>rb_live = [(''c'', \<lparr>so_reduce_only = ROPosition, so_venue_id = None\<rparr>)],
      rb_retired = [], rb_live_reduce_only = 1\<rparr> = Some b' \<and>
    is_reduce_only_fill ((ex_fill Sell 100 1)\<lparr>tr_client_order_id := Some ''c''\<rparr>) b'"
proof -
  let ?b = "\<lparr>rb_live = [(''c'', \<lparr>so_reduce_only = ROPosition, so_venue_id = None\<rparr>)], rb_retired = [], rb_live_reduce_only = 1\<rparr>"
  have "book_run ([] @ [Register ''c'' ROPosition]) book_new = Some ?b"
    by (simp add: register_def book_new_def is_reduce_only_def im_insert_def im_remove_def)
  moreover have "retirements_since ''c'' [RetireUntracked (\<lambda>c. False)] ?b \<le> 64"
    by (simp add: retire_untracked_def usize_sub_def sent_reduce_only_def is_reduce_only_def split: option.splits)
  moreover have "is_reduce_only ROPosition" by (simp add: is_reduce_only_def)
  moreover have "\<forall>e \<in> set [RetireUntracked (\<lambda>c. False)]. (\<forall>r'. e \<noteq> Register ''c'' r') \<and> e \<noteq> ClearBook" by simp
  moreover have "tr_client_order_id ((ex_fill Sell 100 1)\<lparr>tr_client_order_id := Some ''c''\<rparr>) = Some ''c''" by simp
  ultimately have "\<exists>b'. book_run [RetireUntracked (\<lambda>c. False)] ?b = Some b' \<and>
      lookup_trade ((ex_fill Sell 100 1)\<lparr>tr_client_order_id := Some ''c''\<rparr>) b' = Some (''c'', ROPosition) \<and>
      is_reduce_only_fill ((ex_fill Sell 100 1)\<lparr>tr_client_order_id := Some ''c''\<rparr>) b'"
    by (intro reduce_only_fill_recognised)
  then show ?thesis by blast
qed

text \<open>The book never says what was not sent. After any history it has not panicked, its counter is
  the number of live reduce-only orders, it keeps at most 64 retired ones, and whatever it answers
  for a client order id is what the last registration of that id since the last clearing sent; when it
  says that it holds no reduce-only order, no fill at all is taken for reduce-only.\<close>

theorem reduce_only_book_truthful:
  "\<exists>b. book_run es book_new = Some b \<and> rb_live_reduce_only b = reduce_only_count (rb_live b) \<and>
    length (rb_retired b) \<le> 64 \<and>
    (\<forall>c v. case lookup_ids (Some c) v b of
        None \<Rightarrow> True
      | Some (c', r) \<Rightarrow> c' = c \<and> sent_as es c None = Some r) \<and>
    (has_reduce_only b \<or> (\<forall>c v. case lookup_ids c v b of None \<Rightarrow> True | Some (c', r) \<Rightarrow> \<not> is_reduce_only r))"
proof -
  obtain b where b: "book_run es book_new = Some b" "book_inv b"
    "\<forall>c r. booked_as c b = Some r \<longrightarrow> sent_as es c (booked_as c book_new) = Some r"
    using book_run_total [OF book_new_inv] by blast
  have new: "booked_as c book_new = None" for c by (simp add: booked_as_def book_new_def)
  have "\<not> is_reduce_only r" if free: "\<not> has_reduce_only b" and found: "lookup_ids c v b = Some (c', r)" for c v c' r
  proof -
    from free b(2) have none: "rb_retired b = []" "\<forall>(c, o') \<in> set (rb_live b). \<not> sent_reduce_only o'"
      by (auto simp: has_reduce_only_def book_inv_def reduce_only_count_def filter_empty_conv)
    obtain o' where "(c', o') \<in> set (rb_live b)" "so_reduce_only o' = r"
      using found none(1)
      by (auto simp: lookup_ids_def Let_def find_Some_iff dest!: map_of_SomeD split: option.splits) (metis nth_mem)
    with none(2) show ?thesis by (auto simp: sent_reduce_only_def)
  qed
  then show ?thesis using b new
    by (auto simp: lookup_by_client_id book_inv_def retired_capacity_def split: option.splits)
qed

text \<open>A saved book loads as itself: rebuilding the book of any history from its two parts gives it
  back, counter included; and whatever parts are loaded, the result satisfies every invariant of a
  book, whose retired orders are the latest 64 of the reduce-only ones that are not live.\<close>

theorem reduce_only_book_roundtrip:
  assumes "im_wf live" and "im_wf retired"
  shows "book_inv (book_from_parts live retired) \<and>
    (case book_run es book_new of None \<Rightarrow> False | Some b \<Rightarrow> book_from_parts (rb_live b) (rb_retired b) = b)"
proof -
  define kept where "kept = filter (\<lambda>(c, o'). c \<notin> fst ` set live) (filter (\<lambda>(c, o'). sent_reduce_only o') retired)"
  define K where "K = drop (length kept - retired_capacity) kept"
  have parts: "rb_live (book_from_parts live retired) = live" "rb_retired (book_from_parts live retired) = K"
    "rb_live_reduce_only (book_from_parts live retired) = reduce_only_count live"
    unfolding book_from_parts_def Let_def K_def kept_def reduce_only_count_def by simp_all
  have K: "set K \<subseteq> set kept" "length K \<le> retired_capacity" by (simp_all add: K_def set_drop_subset)
  have "im_wf kept" unfolding kept_def by (intro im_wf_filter assms(2))
  then have wf: "im_wf K" by (simp add: K_def im_wf_def drop_map [symmetric])
  have kept: "fst x \<notin> fst ` set live" "sent_reduce_only (snd x)" if "x \<in> set kept" for x
    using that by (simp_all add: kept_def case_prod_unfold)
  have "book_inv (book_from_parts live retired)"
  proof (rule book_invI)
    have "retired_ok K" using wf K kept(2) by (auto simp: retired_ok_def)
    then show "retired_ok (rb_retired (book_from_parts live retired))" by (simp add: parts)
    have "fst ` set live \<inter> fst ` set K = {}" using K(1) kept(1) by (intro keys_disjointI) blast
    then show "fst ` set (rb_live (book_from_parts live retired)) \<inter> fst ` set (rb_retired (book_from_parts live retired)) = {}"
      by (simp add: parts)
  qed (use assms(1) in \<open>simp_all add: parts\<close>)
  moreover obtain b where b: "book_run es book_new = Some b" "book_inv b" using book_run_total [OF book_new_inv] by blast
  have "sent_reduce_only (snd x) \<and> fst x \<notin> fst ` set (rb_live b)" if "x \<in> set (rb_retired b)" for x
  proof -
    from b(2) have apart: "fst ` set (rb_live b) \<inter> fst ` set (rb_retired b) = {}"
      and ro: "\<forall>x \<in> set (rb_retired b). sent_reduce_only (snd x)"
      unfolding book_inv_def case_prod_unfold by blast+
    have "fst x \<in> fst ` set (rb_retired b)" using that by (rule imageI)
    with apart have "fst x \<notin> fst ` set (rb_live b)" by (metis disjoint_iff)
    then show ?thesis using ro that by simp
  qed
  then have "filter (\<lambda>(c, o'). c \<notin> fst ` set (rb_live b)) (filter (\<lambda>(c, o'). sent_reduce_only o') (rb_retired b)) = rb_retired b"
    by (simp add: case_prod_unfold filter_id_conv)
  then have "book_from_parts (rb_live b) (rb_retired b) = b"
    using b(2) by (simp only: book_from_parts_def Let_def book_inv_def reduce_only_count_def) simp
  ultimately show ?thesis using b(1) by simp
qed

theorem reduce_only_book_roundtrip_witness:
  "book_inv (book_from_parts [] [(''c'', \<lparr>so_reduce_only = ROPosition, so_venue_id = Some ''7''\<rparr>)])"
  using reduce_only_book_roundtrip [of "[]" "[(''c'', \<lparr>so_reduce_only = ROPosition, so_venue_id = Some ''7''\<rparr>)]"]
  by (simp add: im_wf_def)

end
