(* ===== verification/Price_Window.thy ===== *)
theory Price_Window
  imports Prelude
begin

text \<open>
  The trailing window of an instrument's prices, by which a simulated venue values an asset when it
  lends (\<open>rustrade-execution/src/exchange/mock/venue/price_window.rs\<close>): two queues, of which each
  keeps only the prices that can still be an extreme. The lemmas show that reading the front of a
  queue is taking the extreme over all that was recorded. A queue's binary search is the length of
  the prefix it finds, as the standard library promises for a queue in time order.
\<close>

section \<open>The window\<close>

type_synonym price_queue = "(time \<times> decimal) list"

record price_window =
  pw_lows :: price_queue
  pw_highs :: price_queue

definition price_window_default :: price_window where
  "price_window_default = \<lparr>pw_lows = [], pw_highs = []\<rparr>"

fun pop_back_while :: "(decimal \<Rightarrow> bool) \<Rightarrow> price_queue \<Rightarrow> price_queue" where
  "pop_back_while P [] = []"
| "pop_back_while P (p # q) =
     (case pop_back_while P q of
        [] \<Rightarrow> if P (snd p) then [] else [p]
      | q' \<Rightarrow> p # q')"

fun pop_front_before :: "time \<Rightarrow> price_queue \<Rightarrow> price_queue" where
  "pop_front_before since [] = []"
| "pop_front_before since (p # q) = (if fst p < since then pop_front_before since q else p # q)"

definition window_record :: "time \<Rightarrow> decimal \<Rightarrow> decimal \<Rightarrow> time \<Rightarrow> price_window \<Rightarrow> price_window" where
  "window_record t low high since w =
     (let lows = pop_back_while (\<lambda>p. low \<le> p) (pw_lows w) @ [(t, low)];
          highs = pop_back_while (\<lambda>p. p \<le> high) (pw_highs w) @ [(t, high)]
      in \<lparr>pw_lows = pop_front_before since lows, pw_highs = pop_front_before since highs\<rparr>)"

definition first_since :: "price_queue \<Rightarrow> time \<Rightarrow> decimal option" where
  "first_since q since =
     (let first = length (takeWhile (\<lambda>p. fst p < since) q)
      in if first < length q then Some (snd (q ! first)) else None)"

definition window_low :: "time \<Rightarrow> price_window \<Rightarrow> decimal option" where
  "window_low since w = first_since (pw_lows w) since"

definition window_high :: "time \<Rightarrow> price_window \<Rightarrow> decimal option" where
  "window_high since w = first_since (pw_highs w) since"

section \<open>The contract of one queue\<close>

text \<open>
  What one queue keeps of a history: the entries no later one beats. \<open>lt x y\<close> says that \<open>x\<close> is a
  better extreme than \<open>y\<close>. \<open>extreme_of lt\<close> is the specification, the best price of a list.
\<close>

fun candidates :: "(decimal \<Rightarrow> decimal \<Rightarrow> bool) \<Rightarrow> price_queue \<Rightarrow> price_queue" where
  "candidates lt [] = []"
| "candidates lt (p # h) = (if \<forall>q \<in> set h. lt (snd p) (snd q) then p # candidates lt h else candidates lt h)"

fun extreme_of :: "(decimal \<Rightarrow> decimal \<Rightarrow> bool) \<Rightarrow> decimal list \<Rightarrow> decimal option" where
  "extreme_of lt [] = None"
| "extreme_of lt (x # xs) =
     (case extreme_of lt xs of None \<Rightarrow> Some x | Some y \<Rightarrow> Some (if lt x y then x else y))"

definition since_of :: "time \<Rightarrow> price_queue \<Rightarrow> price_queue" where
  "since_of s h = filter (\<lambda>p. s \<le> fst p) h"

lemma pop_back_while_append:
  "pop_back_while P (xs @ [x]) = (if P (snd x) then pop_back_while P xs else xs @ [x])"
  by (induction xs) (auto split: list.split)

lemma pop_front_dropWhile: "pop_front_before s q = dropWhile (\<lambda>p. fst p < s) q"
  by (induction q) auto

lemma first_since_dropWhile:
  "first_since q s = (case dropWhile (\<lambda>p. fst p < s) q of [] \<Rightarrow> None | p # _ \<Rightarrow> Some (snd p))"
proof (induction q)
  case Nil
  then show ?case by (simp add: first_since_def)
next
  case (Cons p q)
  then show ?case
    by (cases "fst p < s") (simp_all add: first_since_def Let_def split del: if_split cong: if_cong)
qed

lemma since_of_append [simp]: "since_of s (h @ h') = since_of s h @ since_of s h'"
  by (simp add: since_of_def)

lemma since_of_since_of: "since_of s (since_of s' h) = since_of (max s s') h"
  by (auto simp: since_of_def intro!: filter_cong)

lemma since_of_sorted:
  "sorted (map fst h) \<Longrightarrow> since_of s h = dropWhile (\<lambda>p. fst p < s) h"
proof (induction h)
  case (Cons p h)
  have "filter (\<lambda>p. s \<le> fst p) h = h" if "s \<le> fst p"
    using that Cons.prems by (auto simp: filter_id_conv)
  with Cons show ?case by (auto simp: since_of_def)
qed (simp add: since_of_def)

locale price_order =
  fixes lt :: "decimal \<Rightarrow> decimal \<Rightarrow> bool"
  assumes lt_irrefl: "\<not> lt x x"
    and lt_trans: "lt x y \<Longrightarrow> lt y z \<Longrightarrow> lt x z"
    and lt_total: "x \<noteq> y \<Longrightarrow> lt x y \<or> lt y x"
begin

lemma candidates_snoc:
  "candidates lt (h @ [p]) = filter (\<lambda>q. lt (snd q) (snd p)) (candidates lt h) @ [p]"
  by (induction h) auto

lemma candidates_subset: "set (candidates lt h) \<subseteq> set h"
  by (induction h) auto

lemma candidates_sorted: "sorted_wrt (\<lambda>p q. lt (snd p) (snd q)) (candidates lt h)"
proof (induction h)
  case (Cons p h)
  then show ?case using candidates_subset [of h] by auto
qed simp

lemma pop_back_filter:
  assumes "sorted_wrt (\<lambda>p q. lt (snd p) (snd q)) q"
  shows "pop_back_while (\<lambda>y. \<not> lt y x) q = filter (\<lambda>p. lt (snd p) x) q"
  using assms
proof (induction q)
  case (Cons p q)
  then have IH: "pop_back_while (\<lambda>y. \<not> lt y x) q = filter (\<lambda>p. lt (snd p) x) q" by simp
  show ?case
  proof (cases "filter (\<lambda>p. lt (snd p) x) q")
    case Nil
    then show ?thesis using IH by simp
  next
    case (Cons r rs)
    then have "r \<in> set q" "lt (snd r) x" by (auto dest: filter_eq_ConsD)
    then have "lt (snd p) x" using \<open>sorted_wrt _ (p # q)\<close> lt_trans by auto
    with Cons IH show ?thesis by simp
  qed
qed simp

lemma candidates_drop:
  assumes "sorted (map fst h)"
  shows "dropWhile (\<lambda>p. fst p < s) (candidates lt h) = candidates lt (since_of s h)"
  using assms
proof (induction h)
  case (Cons p h)
  show ?case
  proof (cases "fst p < s")
    case True
    then show ?thesis using Cons by (simp add: since_of_def)
  next
    case False
    have "since_of s (p # h) = p # h"
      using False Cons.prems by (auto simp: since_of_def filter_id_conv)
    moreover have "dropWhile (\<lambda>p. fst p < s) (candidates lt (p # h)) = candidates lt (p # h)"
    proof -
      have "\<not> fst q < s" if "q \<in> set (candidates lt (p # h))" for q
        using subsetD [OF candidates_subset that] False Cons.prems by fastforce
      then show ?thesis by (metis dropWhile_eq_self_iff hd_in_set)
    qed
    ultimately show ?thesis by simp
  qed
qed (simp add: since_of_def)

lemma extreme_None: "extreme_of lt xs = None \<longleftrightarrow> xs = []"
  by (cases xs) (auto split: option.split)

lemma extreme_cases:
  "extreme_of lt xs = Some y \<Longrightarrow> y \<in> set xs \<and> (\<forall>z \<in> set xs. z = y \<or> lt y z)"
proof (induction xs arbitrary: y)
  case (Cons x xs)
  show ?case
  proof (cases "extreme_of lt xs")
    case None
    then have "xs = []" by (metis extreme_None)
    with Cons.prems show ?thesis by simp
  next
    case (Some m)
    with Cons.IH have m: "m \<in> set xs" "\<forall>z \<in> set xs. z = m \<or> lt m z" by auto
    show ?thesis
    proof (cases "lt x m")
      case True
      with Cons.prems Some have "y = x" by simp
      with True m show ?thesis using lt_trans by auto
    next
      case False
      with Cons.prems Some have "y = m" by simp
      with False m show ?thesis using lt_total by auto
    qed
  qed
qed simp

lemma head_candidates:
  "(case candidates lt h of [] \<Rightarrow> None | p # _ \<Rightarrow> Some (snd p)) = extreme_of lt (map snd h)"
proof (induction h)
  case (Cons p h)
  show ?case
  proof (cases "h = []")
    case False
    then obtain y where y: "extreme_of lt (map snd h) = Some y"
      using extreme_None [of "map snd h"] by fastforce
    note best = extreme_cases [OF y]
    show ?thesis
    proof (cases "\<forall>q \<in> set h. lt (snd p) (snd q)")
      case True
      then have "lt (snd p) y" using best by auto
      with True y show ?thesis by simp
    next
      case False
      then have "\<not> lt (snd p) y" using best lt_trans by (metis image_iff list.set_map)
      with False y Cons show ?thesis by auto
    qed
  qed simp
qed simp

text \<open>One recording keeps the queue equal to the candidates of what the window still holds.\<close>

lemma record_candidates:
  assumes "sorted (map fst (h @ [p]))"
  shows "pop_front_before s (pop_back_while (\<lambda>y. \<not> lt y (snd p)) (candidates lt h) @ [p])
    = candidates lt (since_of s (h @ [p]))"
  using candidates_drop [OF assms, of s]
  by (simp add: pop_front_dropWhile pop_back_filter [OF candidates_sorted] candidates_snoc)

lemma first_since_candidates:
  assumes "sorted (map fst h)"
  shows "first_since (candidates lt h) s = extreme_of lt (map snd (since_of s h))"
  by (simp add: first_since_dropWhile candidates_drop [OF assms] head_candidates)

end

interpretation lowest: price_order "(<)" by unfold_locales auto

interpretation highest: price_order "(>)" by unfold_locales auto

section \<open>The window is the brute-force minimum and maximum\<close>

record price_observation =
  po_time :: time
  po_low :: decimal
  po_high :: decimal
  po_since :: time

definition window_of :: "price_observation list \<Rightarrow> price_window" where
  "window_of obs = fold (\<lambda>x. window_record (po_time x) (po_low x) (po_high x) (po_since x)) obs price_window_default"

definition recorded :: "(price_observation \<Rightarrow> decimal) \<Rightarrow> price_observation list \<Rightarrow> price_queue" where
  "recorded f obs = map (\<lambda>x. (po_time x, f x)) obs"

text \<open>Observations as the venue makes them: its clock and the reach of its window never go back.\<close>

definition in_time_order :: "price_observation list \<Rightarrow> bool" where
  "in_time_order obs \<longleftrightarrow> sorted (map po_time obs) \<and> sorted (map po_since obs)"

lemma sorted_recorded: "sorted (map po_time obs) \<Longrightarrow> sorted (map fst (recorded f obs))"
  by (simp add: recorded_def comp_def)

lemma sorted_filtered: "sorted (map fst h) \<Longrightarrow> sorted (map fst (since_of s h))"
  by (simp add: since_of_def sorted_wrt_map sorted_wrt_filter)

lemma window_of_queues:
  assumes "in_time_order obs" and "obs \<noteq> []"
  shows "pw_lows (window_of obs) = candidates (<) (since_of (po_since (last obs)) (recorded po_low obs))
    \<and> pw_highs (window_of obs) = candidates (>) (since_of (po_since (last obs)) (recorded po_high obs))"
  using assms
proof (induction obs rule: rev_induct)
  case (snoc x obs)
  let ?s = "po_since x"
  have ord: "in_time_order obs" using snoc.prems by (auto simp: in_time_order_def sorted_append)
  define s' where "s' = (if obs = [] then ?s else po_since (last obs))"
  have s': "s' \<le> ?s" using snoc.prems by (auto simp: s'_def in_time_order_def sorted_append)
  have q: "pw_lows (window_of obs) = candidates (<) (since_of s' (recorded po_low obs))
    \<and> pw_highs (window_of obs) = candidates (>) (since_of s' (recorded po_high obs))"
    using snoc.IH [OF ord]
    by (cases "obs = []") (simp_all add: s'_def window_of_def price_window_default_def recorded_def since_of_def)
  have srt: "sorted (map fst (since_of s' (recorded f obs) @ [(po_time x, v)]))" for f v
    using snoc.prems sorted_filtered [OF sorted_recorded [of obs f], of s']
    by (auto simp: in_time_order_def sorted_append recorded_def since_of_def)
  have eq: "since_of ?s (since_of s' (recorded f obs) @ [(po_time x, f x)]) = since_of ?s (recorded f (obs @ [x]))" for f
    using s' by (simp add: since_of_since_of max_absorb1 recorded_def)
  have lt: "(\<lambda>p. (v::decimal) \<le> p) = (\<lambda>p. \<not> p < v)" "(\<lambda>p. p \<le> (v::decimal)) = (\<lambda>p. \<not> v < p)" for v
    by auto
  have step: "window_of (obs @ [x]) = window_record (po_time x) (po_low x) (po_high x) ?s (window_of obs)"
    by (simp add: window_of_def)
  show ?case
    using lowest.record_candidates [OF srt [where f = po_low and v = "po_low x"], of ?s]
      highest.record_candidates [OF srt [where f = po_high and v = "po_high x"], of ?s] q
    by (simp add: step window_record_def lt eq del: since_of_append)
qed simp

text \<open>C17: the two queues of a price window answer as a scan of everything recorded would: after any
  observations made in time order, the low and the high read from any instant the window still
  reaches are the lowest and the highest of all the prices recorded from that instant on, and there
  is none exactly when nothing was recorded.\<close>

theorem window_is_brute_force:
  assumes "in_time_order obs" and "obs \<noteq> []" and "po_since (last obs) \<le> since"
  shows "window_low since (window_of obs) = extreme_of (<) (map po_low (filter (\<lambda>x. since \<le> po_time x) obs))
    \<and> window_high since (window_of obs) = extreme_of (>) (map po_high (filter (\<lambda>x. since \<le> po_time x) obs))"
proof -
  have srt: "sorted (map fst (since_of s (recorded f obs)))" for f s
    using assms(1) by (auto simp: in_time_order_def intro: sorted_filtered sorted_recorded)
  have eq: "map snd (since_of since (since_of (po_since (last obs)) (recorded f obs)))
      = map f (filter (\<lambda>x. since \<le> po_time x) obs)" for f
    using assms(3) by (simp add: since_of_since_of max_absorb1)
      (simp add: since_of_def recorded_def filter_map comp_def)
  show ?thesis
    by (simp add: window_low_def window_high_def window_of_queues [OF assms(1,2)]
      lowest.first_since_candidates [OF srt] highest.first_since_candidates [OF srt] eq)
qed

lemma window_is_brute_force_witness:
  "window_low 1 (window_of [\<lparr>po_time = 0, po_low = 3, po_high = 9, po_since = 0\<rparr>,
      \<lparr>po_time = 1, po_low = 5, po_high = 7, po_since = 0\<rparr>,
      \<lparr>po_time = 2, po_low = 4, po_high = 6, po_since = 1\<rparr>]) = Some 4"
proof -
  let ?obs = "[\<lparr>po_time = 0, po_low = 3, po_high = 9, po_since = 0\<rparr>,
      \<lparr>po_time = 1, po_low = 5, po_high = 7, po_since = 0\<rparr>,
      \<lparr>po_time = 2, po_low = 4, po_high = 6, po_since = 1\<rparr>]"
  have "in_time_order ?obs" "?obs \<noteq> []" "po_since (last ?obs) \<le> 1" by (simp_all add: in_time_order_def)
  from window_is_brute_force [OF this] show ?thesis by simp
qed

end
