(* ===== verification/Margin_Config.thy ===== *)
theory Margin_Config
  imports Open_Orders
begin

text \<open>
  What a simulated spot margin account is configured with: \<open>SpotMarginConfig\<close> and
  \<open>SpotMarginLiquidation\<close> of \<open>rustrade-execution/src/margin.rs\<close>. Both are made only through a
  check, which the builder methods repeat. A \<open>BTreeMap\<close> is an association list sorted by key. The
  lemmas show what a checked configuration guarantees. A duration is a number of nanoseconds.
\<close>

section \<open>The configuration\<close>

record margin_liquidation =
  ml_level :: decimal
  ml_fee_rate :: decimal
  ml_margin_call_level :: "decimal option"

type_synonym asset_amounts = "(asset_name \<times> decimal) list"

record margin_config =
  mc_valuation_asset :: asset_name
  mc_max_leverage :: decimal
  mc_margin_effect :: margin_effect
  mc_auto_repay_at_cancel :: bool
  mc_min_borrow :: asset_amounts
  mc_max_borrow :: asset_amounts
  mc_borrow_collateral_ratio :: asset_amounts
  mc_liquidation_collateral_ratio :: asset_amounts
  mc_borrow_price_window_ms :: "int option"
  mc_liquidation :: "margin_liquidation option"

datatype margin_config_error =
    LeverageBelowOne decimal
  | NegativeMinBorrow asset_name decimal
  | NegativeMaxBorrow asset_name decimal
  | CollateralRatioOutOfRange asset_name decimal
  | LiquidationRatioBelowBorrowRatio asset_name decimal decimal
  | BorrowPriceWindowInvalid int
  | LiquidationLevelBelowOne decimal
  | LiquidationFeeOutOfRange decimal
  | MarginCallNotAboveLiquidation decimal decimal
  | LiquidationWithinLeverage decimal decimal

section \<open>Reading it\<close>

definition amount_or :: "decimal \<Rightarrow> asset_amounts \<Rightarrow> asset_name \<Rightarrow> decimal" where
  "amount_or d m a = (case map_of m a of None \<Rightarrow> d | Some x \<Rightarrow> x)"

definition mc_min_borrow_of :: "margin_config \<Rightarrow> asset_name \<Rightarrow> decimal" where
  "mc_min_borrow_of c a = amount_or 0 (mc_min_borrow c) a"

definition mc_max_borrow_of :: "margin_config \<Rightarrow> asset_name \<Rightarrow> decimal option" where
  "mc_max_borrow_of c a = map_of (mc_max_borrow c) a"

definition mc_borrow_ratio_of :: "margin_config \<Rightarrow> asset_name \<Rightarrow> decimal" where
  "mc_borrow_ratio_of c a = amount_or 1 (mc_borrow_collateral_ratio c) a"

definition mc_liquidation_ratio_of :: "margin_config \<Rightarrow> asset_name \<Rightarrow> decimal" where
  "mc_liquidation_ratio_of c a = amount_or 1 (mc_liquidation_collateral_ratio c) a"

definition mc_borrow_price_window :: "margin_config \<Rightarrow> int option" where
  "mc_borrow_price_window c = map_option (\<lambda>ms. ms * 1000000) (mc_borrow_price_window_ms c)"

section \<open>Checking it\<close>

definition margin_liquidation_try_from ::
  "margin_liquidation \<Rightarrow> margin_config_error + margin_liquidation" where
  "margin_liquidation_try_from l =
     (if ml_level l < 1 then Inl (LiquidationLevelBelowOne (ml_level l))
      else if ml_fee_rate l < 0 \<or> 1 \<le> ml_fee_rate l then Inl (LiquidationFeeOutOfRange (ml_fee_rate l))
      else case ml_margin_call_level l of
          Some m \<Rightarrow> if m \<le> ml_level l then Inl (MarginCallNotAboveLiquidation m (ml_level l)) else Inr l
        | None \<Rightarrow> Inr l)"

definition margin_liquidation_new :: "decimal \<Rightarrow> decimal \<Rightarrow> margin_config_error + margin_liquidation" where
  "margin_liquidation_new level fee_rate = margin_liquidation_try_from
     \<lparr>ml_level = level, ml_fee_rate = fee_rate, ml_margin_call_level = None\<rparr>"

definition with_margin_call :: "decimal \<Rightarrow> margin_liquidation \<Rightarrow> margin_config_error + margin_liquidation" where
  "with_margin_call m l = margin_liquidation_try_from (l\<lparr>ml_margin_call_level := Some m\<rparr>)"

text \<open>The first check that fails names its error; the outer option is a panic of the arithmetic.\<close>

definition first_such :: "('x \<Rightarrow> bool) \<Rightarrow> 'x list \<Rightarrow> 'x option" where
  "first_such P xs = find P xs"

definition margin_config_checks :: "margin_config \<Rightarrow> margin_config_error option" where
  "margin_config_checks c =
     (if mc_max_leverage c < 1 then Some (LeverageBelowOne (mc_max_leverage c))
      else case first_such (\<lambda>(a, x). x < 0) (mc_min_borrow c) of
        Some (a, x) \<Rightarrow> Some (NegativeMinBorrow a x)
      | None \<Rightarrow> (case first_such (\<lambda>(a, x). x < 0) (mc_max_borrow c) of
        Some (a, x) \<Rightarrow> Some (NegativeMaxBorrow a x)
      | None \<Rightarrow> (case first_such (\<lambda>(a, x). \<not> (0 \<le> x \<and> x \<le> 1))
            (mc_borrow_collateral_ratio c @ mc_liquidation_collateral_ratio c) of
        Some (a, x) \<Rightarrow> Some (CollateralRatioOutOfRange a x)
      | None \<Rightarrow> (case first_such (\<lambda>a. mc_liquidation_ratio_of c a < mc_borrow_ratio_of c a)
            (map fst (mc_borrow_collateral_ratio c) @ map fst (mc_liquidation_collateral_ratio c)) of
        Some a \<Rightarrow> Some (LiquidationRatioBelowBorrowRatio a (mc_borrow_ratio_of c a) (mc_liquidation_ratio_of c a))
      | None \<Rightarrow> (case mc_borrow_price_window_ms c of
        Some ms \<Rightarrow> if ms \<le> 0 then Some (BorrowPriceWindowInvalid (max (1 - 2 ^ 63) ms * 1000000)) else None
      | None \<Rightarrow> None)))))"

definition margin_config_try_from ::
  "rounding \<Rightarrow> margin_config \<Rightarrow> (margin_config_error + margin_config) option" where
  "margin_config_try_from R c =
     (case margin_config_checks c of
        Some e \<Rightarrow> Some (Inl e)
      | None \<Rightarrow> do {
          reached \<leftarrow> (case mc_liquidation c of
              None \<Rightarrow> Some None
            | Some l \<Rightarrow> do {
                borrowed \<leftarrow> dec_sub R (mc_max_leverage c) 1;
                x \<leftarrow> dec_mul R (ml_level l) borrowed;
                Some (if mc_max_leverage c \<le> x then Some (ml_level l) else None) });
          Some (case reached of
              Some level \<Rightarrow> Inl (LiquidationWithinLeverage level (mc_max_leverage c))
            | None \<Rightarrow> Inr (c\<lparr>mc_min_borrow := filter (\<lambda>(a, x). x \<noteq> 0) (mc_min_borrow c),
                mc_borrow_collateral_ratio := filter (\<lambda>(a, x). x \<noteq> 1) (mc_borrow_collateral_ratio c),
                mc_liquidation_collateral_ratio := filter (\<lambda>(a, x). x \<noteq> 1) (mc_liquidation_collateral_ratio c)\<rparr>))
        })"

section \<open>Building it\<close>

definition margin_config_new ::
  "rounding \<Rightarrow> asset_name \<Rightarrow> decimal \<Rightarrow> margin_effect \<Rightarrow> (margin_config_error + margin_config) option" where
  "margin_config_new R a leverage effect = margin_config_try_from R
     \<lparr>mc_valuation_asset = a, mc_max_leverage = leverage, mc_margin_effect = effect,
      mc_auto_repay_at_cancel = True, mc_min_borrow = [], mc_max_borrow = [],
      mc_borrow_collateral_ratio = [], mc_liquidation_collateral_ratio = [],
      mc_borrow_price_window_ms = None, mc_liquidation = None\<rparr>"

definition with_auto_repay_at_cancel :: "bool \<Rightarrow> margin_config \<Rightarrow> margin_config" where
  "with_auto_repay_at_cancel b c = c\<lparr>mc_auto_repay_at_cancel := b\<rparr>"

definition with_min_borrow ::
  "rounding \<Rightarrow> asset_name \<Rightarrow> decimal \<Rightarrow> margin_config \<Rightarrow> (margin_config_error + margin_config) option" where
  "with_min_borrow R a x c = margin_config_try_from R (c\<lparr>mc_min_borrow := bt_insert a x (mc_min_borrow c)\<rparr>)"

definition with_max_borrow ::
  "rounding \<Rightarrow> asset_name \<Rightarrow> decimal \<Rightarrow> margin_config \<Rightarrow> (margin_config_error + margin_config) option" where
  "with_max_borrow R a x c = margin_config_try_from R (c\<lparr>mc_max_borrow := bt_insert a x (mc_max_borrow c)\<rparr>)"

definition with_borrow_collateral_ratio ::
  "rounding \<Rightarrow> asset_name \<Rightarrow> decimal \<Rightarrow> margin_config \<Rightarrow> (margin_config_error + margin_config) option" where
  "with_borrow_collateral_ratio R a x c =
     margin_config_try_from R (c\<lparr>mc_borrow_collateral_ratio := bt_insert a x (mc_borrow_collateral_ratio c)\<rparr>)"

definition with_liquidation_collateral_ratio ::
  "rounding \<Rightarrow> asset_name \<Rightarrow> decimal \<Rightarrow> margin_config \<Rightarrow> (margin_config_error + margin_config) option" where
  "with_liquidation_collateral_ratio R a x c =
     margin_config_try_from R (c\<lparr>mc_liquidation_collateral_ratio := bt_insert a x (mc_liquidation_collateral_ratio c)\<rparr>)"

definition with_collateral_ratios ::
  "rounding \<Rightarrow> asset_name \<Rightarrow> decimal \<Rightarrow> decimal \<Rightarrow> margin_config \<Rightarrow> (margin_config_error + margin_config) option" where
  "with_collateral_ratios R a b l c = margin_config_try_from R
     (c\<lparr>mc_borrow_collateral_ratio := bt_insert a b (mc_borrow_collateral_ratio c),
        mc_liquidation_collateral_ratio := bt_insert a l (mc_liquidation_collateral_ratio c)\<rparr>)"

text \<open>Whole milliseconds of a span of nanoseconds are cut towards zero.\<close>

definition whole_milliseconds :: "int \<Rightarrow> int" where
  "whole_milliseconds ns = (if ns < 0 then - ((- ns) div 1000000) else ns div 1000000)"

definition with_borrow_price_window ::
  "rounding \<Rightarrow> int \<Rightarrow> margin_config \<Rightarrow> (margin_config_error + margin_config) option" where
  "with_borrow_price_window R window c =
     (let millis = whole_milliseconds window
      in if window \<le> 0 \<or> millis * 1000000 \<noteq> window then Some (Inl (BorrowPriceWindowInvalid window))
         else margin_config_try_from R (c\<lparr>mc_borrow_price_window_ms := Some millis\<rparr>))"

definition with_liquidation ::
  "rounding \<Rightarrow> margin_liquidation \<Rightarrow> margin_config \<Rightarrow> (margin_config_error + margin_config) option" where
  "with_liquidation R l c = margin_config_try_from R (c\<lparr>mc_liquidation := Some l\<rparr>)"

section \<open>The methods of the type\<close>

text \<open>Every way to make or change a configuration, as a value and what it makes of a checked one.\<close>

datatype margin_builder =
    WithAutoRepay bool
  | WithMinBorrow asset_name decimal
  | WithMaxBorrow asset_name decimal
  | WithBorrowRatio asset_name decimal
  | WithLiquidationRatio asset_name decimal
  | WithRatios asset_name decimal decimal
  | WithWindow int
  | WithLiquidation decimal decimal "decimal option"

fun margin_build :: "rounding \<Rightarrow> margin_builder \<Rightarrow> margin_config \<Rightarrow> (margin_config_error + margin_config) option" where
  "margin_build R (WithAutoRepay b) c = Some (Inr (with_auto_repay_at_cancel b c))"
| "margin_build R (WithMinBorrow a x) c = with_min_borrow R a x c"
| "margin_build R (WithMaxBorrow a x) c = with_max_borrow R a x c"
| "margin_build R (WithBorrowRatio a x) c = with_borrow_collateral_ratio R a x c"
| "margin_build R (WithLiquidationRatio a x) c = with_liquidation_collateral_ratio R a x c"
| "margin_build R (WithRatios a b l) c = with_collateral_ratios R a b l c"
| "margin_build R (WithWindow w) c = with_borrow_price_window R w c"
| "margin_build R (WithLiquidation level fee call) c =
     (case margin_liquidation_new level fee of
        Inl e \<Rightarrow> Some (Inl e)
      | Inr l \<Rightarrow> (case (case call of None \<Rightarrow> Inr l | Some m \<Rightarrow> with_margin_call m l) of
          Inl e \<Rightarrow> Some (Inl e)
        | Inr l' \<Rightarrow> with_liquidation R l' c))"

fun margin_builds :: "rounding \<Rightarrow> margin_builder list \<Rightarrow> margin_config \<Rightarrow> (margin_config_error + margin_config) option" where
  "margin_builds R [] c = Some (Inr c)"
| "margin_builds R (b # bs) c =
     (case margin_build R b c of
        None \<Rightarrow> None
      | Some (Inl e) \<Rightarrow> Some (Inl e)
      | Some (Inr c') \<Rightarrow> margin_builds R bs c')"

section \<open>What a checked configuration guarantees\<close>

text \<open>
  The type's promises, stated on what its readers return. The last one is the point of the check
  of the liquidation level: an account that owes as much as the leverage lets it borrow stands
  above the level at which it would be liquidated.
\<close>

definition liquidation_promises :: "decimal \<Rightarrow> margin_liquidation \<Rightarrow> bool" where
  "liquidation_promises leverage l \<longleftrightarrow>
     1 \<le> ml_level l \<and> 0 \<le> ml_fee_rate l \<and> ml_fee_rate l < 1 \<and>
     (\<forall>m. ml_margin_call_level l = Some m \<longrightarrow> ml_level l < m) \<and>
     (\<forall>equity debt. 0 < equity \<longrightarrow> 0 < debt \<longrightarrow> debt \<le> (leverage - 1) * equity \<longrightarrow>
        ml_level l < (equity + debt) / debt)"

definition margin_promises :: "margin_config \<Rightarrow> bool" where
  "margin_promises c \<longleftrightarrow>
     1 \<le> mc_max_leverage c \<and>
     (\<forall>a. 0 \<le> mc_min_borrow_of c a) \<and>
     (\<forall>a x. mc_max_borrow_of c a = Some x \<longrightarrow> 0 \<le> x) \<and>
     (\<forall>a. 0 \<le> mc_borrow_ratio_of c a \<and> mc_borrow_ratio_of c a \<le> mc_liquidation_ratio_of c a \<and>
        mc_liquidation_ratio_of c a \<le> 1) \<and>
     (\<forall>w. mc_borrow_price_window c = Some w \<longrightarrow> 0 < w) \<and>
     (\<forall>l. mc_liquidation c = Some l \<longrightarrow> liquidation_promises (mc_max_leverage c) l)"

text \<open>The representation behind them: every check passes, and what changes nothing is not kept.\<close>

definition keys_sorted :: "asset_amounts \<Rightarrow> bool" where
  "keys_sorted m \<longleftrightarrow> sorted_wrt (<) (map fst m)"

definition liquidation_checked :: "decimal \<Rightarrow> margin_liquidation \<Rightarrow> bool" where
  "liquidation_checked leverage l \<longleftrightarrow> margin_liquidation_try_from l = Inr l \<and>
     ml_level l * (leverage - 1) < leverage"

definition margin_checked :: "margin_config \<Rightarrow> bool" where
  "margin_checked c \<longleftrightarrow>
     margin_config_checks c = None \<and>
     keys_sorted (mc_min_borrow c) \<and> keys_sorted (mc_max_borrow c) \<and>
     keys_sorted (mc_borrow_collateral_ratio c) \<and> keys_sorted (mc_liquidation_collateral_ratio c) \<and>
     0 \<notin> snd ` set (mc_min_borrow c) \<and> 1 \<notin> snd ` set (mc_borrow_collateral_ratio c) \<and>
     1 \<notin> snd ` set (mc_liquidation_collateral_ratio c) \<and>
     (\<forall>l. mc_liquidation c = Some l \<longrightarrow> liquidation_checked (mc_max_leverage c) l)"

lemma keys_sorted_distinct: "keys_sorted m \<Longrightarrow> distinct (map fst m)"
  using strict_sorted_iff [of "map fst m"] by (simp add: keys_sorted_def)

lemma keys_sorted_filter: "keys_sorted m \<Longrightarrow> keys_sorted (filter P m)"
  by (simp add: keys_sorted_def sorted_wrt_map sorted_wrt_filter)

lemma keys_sorted_insert: "keys_sorted m \<Longrightarrow> keys_sorted (bt_insert a x m)"
  by (simp add: keys_sorted_def bt_insert_sorted)

lemma map_of_dropped:
  "distinct (map fst m) \<Longrightarrow> map_of (filter (\<lambda>(a, x). x \<noteq> d) m) a =
     (case map_of m a of None \<Rightarrow> None | Some x \<Rightarrow> if x = d then None else Some x)"
proof (induction m)
  case (Cons p m)
  have "map_of m (fst p) = None" using Cons.prems by (simp add: map_of_eq_None_iff)
  with Cons show ?case by (auto split: option.splits)
qed simp

lemma amount_or_dropped:
  "keys_sorted m \<Longrightarrow> amount_or d (filter (\<lambda>(a, x). x \<noteq> d) m) a = amount_or d m a"
  by (simp add: amount_or_def map_of_dropped keys_sorted_distinct split: option.split)

lemma amount_or_all: "\<forall>(a, x) \<in> set m. P x \<Longrightarrow> P d \<Longrightarrow> P (amount_or d m a)"
  by (auto simp: amount_or_def dest!: map_of_SomeD split: option.splits)

lemma first_such_None: "first_such P xs = None \<longleftrightarrow> (\<forall>x \<in> set xs. \<not> P x)"
  by (auto simp: first_such_def find_None_iff)

lemma margin_checks_None:
  "margin_config_checks c = None \<longleftrightarrow>
     1 \<le> mc_max_leverage c \<and> (\<forall>(a, x) \<in> set (mc_min_borrow c). 0 \<le> x) \<and>
     (\<forall>(a, x) \<in> set (mc_max_borrow c). 0 \<le> x) \<and>
     (\<forall>(a, x) \<in> set (mc_borrow_collateral_ratio c) \<union> set (mc_liquidation_collateral_ratio c). 0 \<le> x \<and> x \<le> 1) \<and>
     (\<forall>a \<in> fst ` (set (mc_borrow_collateral_ratio c) \<union> set (mc_liquidation_collateral_ratio c)).
        mc_borrow_ratio_of c a \<le> mc_liquidation_ratio_of c a) \<and>
     (\<forall>ms. mc_borrow_price_window_ms c = Some ms \<longrightarrow> 0 < ms)"
proof -
  have chain: "(case x of Some y \<Rightarrow> Some (f y) | None \<Rightarrow> r) = None \<longleftrightarrow> x = None \<and> r = None"
    for x :: "'x option" and f :: "'x \<Rightarrow> margin_config_error" and r
    by (cases x) simp_all
  have pairs: "(case x of Some (a, y) \<Rightarrow> Some (f a y) | None \<Rightarrow> r) = None \<longleftrightarrow> x = None \<and> r = None"
    for x :: "('x \<times> 'y) option" and f :: "'x \<Rightarrow> 'y \<Rightarrow> margin_config_error" and r
    by (cases x) auto
  have window: "(case mc_borrow_price_window_ms c of
        Some ms \<Rightarrow> if ms \<le> 0 then Some (BorrowPriceWindowInvalid (max (1 - 2 ^ 63) ms * 1000000)) else None
      | None \<Rightarrow> None) = None \<longleftrightarrow> (\<forall>ms. mc_borrow_price_window_ms c = Some ms \<longrightarrow> 0 < ms)"
    by (cases "mc_borrow_price_window_ms c") auto
  have test: "(if b then Some e else r) = None \<longleftrightarrow> \<not> b \<and> r = None" for b e and r :: "margin_config_error option"
    by simp
  show ?thesis
    unfolding margin_config_checks_def test pairs chain window first_such_None
    by (simp add: not_less case_prod_beta ball_Un image_Un)
qed

definition margin_sorted :: "margin_config \<Rightarrow> bool" where
  "margin_sorted c \<longleftrightarrow> keys_sorted (mc_min_borrow c) \<and> keys_sorted (mc_max_borrow c) \<and>
     keys_sorted (mc_borrow_collateral_ratio c) \<and> keys_sorted (mc_liquidation_collateral_ratio c) \<and>
     (\<forall>l. mc_liquidation c = Some l \<longrightarrow> margin_liquidation_try_from l = Inr l)"

lemma checked_sorted: "margin_checked c \<Longrightarrow> margin_sorted c"
  by (auto simp: margin_checked_def margin_sorted_def liquidation_checked_def)

lemma try_from_checked:
  assumes "margin_config_try_from Some c = Some (Inr d)" and "margin_sorted c"
  shows "margin_checked d"
proof -
  note srt = assms(2) [unfolded margin_sorted_def]
  from assms(1) have none: "margin_config_checks c = None"
    by (auto simp: margin_config_try_from_def split: option.splits)
  have within: "ml_level l * (mc_max_leverage c - 1) < mc_max_leverage c" if "mc_liquidation c = Some l" for l
    using assms(1) none that by (auto simp: margin_config_try_from_def dec_simps split: if_splits)
  have d: "d = c\<lparr>mc_min_borrow := filter (\<lambda>(a, x). x \<noteq> 0) (mc_min_borrow c),
      mc_borrow_collateral_ratio := filter (\<lambda>(a, x). x \<noteq> 1) (mc_borrow_collateral_ratio c),
      mc_liquidation_collateral_ratio := filter (\<lambda>(a, x). x \<noteq> 1) (mc_liquidation_collateral_ratio c)\<rparr>"
    using assms(1) none
    by (auto simp: margin_config_try_from_def dec_simps split: option.splits if_splits)
  have ratios: "mc_borrow_ratio_of d a = mc_borrow_ratio_of c a"
    "mc_liquidation_ratio_of d a = mc_liquidation_ratio_of c a" for a
    using srt by (simp_all add: d mc_borrow_ratio_of_def mc_liquidation_ratio_of_def amount_or_dropped)
  have "margin_config_checks d = None"
    using none unfolding margin_checks_None ratios by (auto simp: d)
  moreover have "liquidation_checked (mc_max_leverage c) l" if "mc_liquidation c = Some l" for l
    using that within srt by (simp add: liquidation_checked_def)
  ultimately show ?thesis
    using srt by (auto simp: margin_checked_def d intro: keys_sorted_filter)
qed

lemma try_from_id:
  assumes "margin_checked c"
  shows "margin_config_try_from Some c = Some (Inr c)"
proof -
  have keep: "filter (\<lambda>(a, x). x \<noteq> v) m = m" if "v \<notin> snd ` set m" for v :: decimal and m :: asset_amounts
    using that by (force simp: filter_id_conv)
  from assms show ?thesis
    by (auto simp: margin_config_try_from_def margin_checked_def liquidation_checked_def dec_simps keep
      split: option.split)
qed

lemma liquidation_try_from_Inr:
  "margin_liquidation_try_from l = Inr l' \<Longrightarrow> l' = l \<and> margin_liquidation_try_from l = Inr l"
  by (auto simp: margin_liquidation_try_from_def split: if_splits option.splits)

lemma margin_new_checked: "margin_config_new Some a leverage effect = Some (Inr c) \<Longrightarrow> margin_checked c"
  unfolding margin_config_new_def
  by (erule try_from_checked) (simp add: margin_sorted_def keys_sorted_def)

lemma margin_build_checked:
  assumes "margin_build Some b c = Some (Inr d)" and "margin_checked c"
  shows "margin_checked d"
proof -
  note srt = checked_sorted [OF assms(2), unfolded margin_sorted_def]
  show ?thesis
  proof (cases b)
    case (WithAutoRepay x)
    have same: "margin_config_checks (c\<lparr>mc_auto_repay_at_cancel := x\<rparr>) = None \<longleftrightarrow> margin_config_checks c = None"
      by (simp add: margin_checks_None mc_borrow_ratio_of_def mc_liquidation_ratio_of_def)
    from WithAutoRepay assms have "d = c\<lparr>mc_auto_repay_at_cancel := x\<rparr>"
      by (simp add: with_auto_repay_at_cancel_def)
    with assms(2) show ?thesis by (simp add: margin_checked_def same)
  next
    case (WithLiquidation level fee call)
    then obtain l where "margin_liquidation_try_from l = Inr l" "with_liquidation Some l c = Some (Inr d)"
      using assms(1) liquidation_try_from_Inr
      by (auto simp: margin_liquidation_new_def with_margin_call_def split: sum.splits option.splits)
    then show ?thesis
      using srt by (auto simp: with_liquidation_def margin_sorted_def intro: try_from_checked)
  qed (use assms(1) srt in \<open>auto simp: with_min_borrow_def with_max_borrow_def
      with_borrow_collateral_ratio_def with_liquidation_collateral_ratio_def with_collateral_ratios_def
      with_borrow_price_window_def margin_sorted_def Let_def
      intro!: keys_sorted_insert elim!: try_from_checked split: if_splits\<close>)
qed

lemma margin_builds_checked:
  "margin_builds Some bs c = Some (Inr d) \<Longrightarrow> margin_checked c \<Longrightarrow> margin_checked d"
proof (induction bs arbitrary: c)
  case (Cons b bs)
  then show ?case by (auto split: option.splits sum.splits dest: margin_build_checked)
qed simp

lemma liquidation_promised:
  assumes "liquidation_checked leverage l" and "1 \<le> leverage"
  shows "liquidation_promises leverage l"
proof -
  from assms(1) have v: "1 \<le> ml_level l" "0 \<le> ml_fee_rate l" "ml_fee_rate l < 1"
      "\<forall>m. ml_margin_call_level l = Some m \<longrightarrow> ml_level l < m"
      "ml_level l * (leverage - 1) < leverage"
    by (auto simp: liquidation_checked_def margin_liquidation_try_from_def split: if_splits option.splits)
  have "ml_level l < (equity + debt) / debt"
    if "0 < equity" "0 < debt" "debt \<le> (leverage - 1) * equity" for equity debt
  proof -
    have "(ml_level l - 1) * debt \<le> (ml_level l - 1) * ((leverage - 1) * equity)"
      using v(1) that(3) by (intro mult_left_mono) auto
    also have "\<dots> = ((ml_level l - 1) * (leverage - 1)) * equity" by simp
    also have "\<dots> < 1 * equity"
      using v(5) that(1) by (intro mult_strict_right_mono) (simp_all add: algebra_simps)
    finally have "ml_level l * debt < equity + debt" by (simp add: algebra_simps)
    then show ?thesis using that(2) by (simp add: pos_less_divide_eq)
  qed
  with v show ?thesis by (simp add: liquidation_promises_def)
qed

lemma margin_checked_promises: "margin_checked c \<Longrightarrow> margin_promises c"
proof -
  assume ok: "margin_checked c"
  then have ch: "margin_config_checks c = None" by (simp add: margin_checked_def)
  note parts = ch [unfolded margin_checks_None]
  have lt: "\<forall>(a, x) \<in> set (mc_borrow_collateral_ratio c). 0 \<le> x \<and> x \<le> 1"
    "\<forall>(a, x) \<in> set (mc_liquidation_collateral_ratio c). 0 \<le> x \<and> x \<le> 1"
    using parts by auto
  have ratio: "0 \<le> mc_borrow_ratio_of c a \<and> mc_liquidation_ratio_of c a \<le> 1" for a
    using amount_or_all [OF lt(1), of 1 a] amount_or_all [OF lt(2), of 1 a]
    by (simp add: mc_borrow_ratio_of_def mc_liquidation_ratio_of_def)
  have order: "mc_borrow_ratio_of c a \<le> mc_liquidation_ratio_of c a" for a
  proof (cases "a \<in> fst ` (set (mc_borrow_collateral_ratio c) \<union> set (mc_liquidation_collateral_ratio c))")
    case True
    then show ?thesis using parts by blast
  next
    case False
    then have "map_of (mc_borrow_collateral_ratio c) a = None" "map_of (mc_liquidation_collateral_ratio c) a = None"
      by (auto simp: map_of_eq_None_iff image_Un)
    then show ?thesis by (simp add: mc_borrow_ratio_of_def mc_liquidation_ratio_of_def amount_or_def)
  qed
  have "0 \<le> mc_min_borrow_of c a" for a
    using amount_or_all [of "mc_min_borrow c" "\<lambda>x. 0 \<le> x" 0 a] parts by (simp add: mc_min_borrow_of_def)
  moreover have "mc_max_borrow_of c a = Some x \<Longrightarrow> 0 \<le> x" for a x
    using parts by (auto simp: mc_max_borrow_of_def dest!: map_of_SomeD)
  moreover have "liquidation_promises (mc_max_leverage c) l" if "mc_liquidation c = Some l" for l
    using ok parts that by (intro liquidation_promised) (simp_all add: margin_checked_def)
  ultimately show ?thesis
    using parts ratio order by (auto simp: margin_promises_def mc_borrow_price_window_def)
qed

lemma keys_sorted_list:
  assumes "keys_sorted m"
  shows "m = map (\<lambda>k. (k, the (map_of m k))) (sorted_list_of_set (dom (map_of m)))"
proof -
  have d: "distinct (map fst m)" and s: "sorted (map fst m)"
    using assms strict_sorted_iff [of "map fst m"] by (simp_all add: keys_sorted_def)
  have "map (\<lambda>k. (k, the (map_of m k))) (map fst m) = m"
    using d by (auto simp: comp_def intro!: map_idI)
  moreover have "sorted_list_of_set (dom (map_of m)) = map fst m"
    using sorted_list_of_set.idem_if_sorted_distinct [OF s d] by (simp add: dom_map_of_conv_image_fst)
  ultimately show ?thesis by simp
qed

text \<open>Configurations that lend alike are equal: what has no effect is never kept.\<close>

lemma amount_or_sorted_eq:
  assumes "keys_sorted m" and "keys_sorted m'" and "d \<notin> snd ` set m" and "d \<notin> snd ` set m'"
    and "\<And>a. amount_or d m a = amount_or d m' a"
  shows "m = m'"
proof -
  have "map_of m a = map_of m' a" for a
  proof -
    have "map_of m a \<noteq> Some d" "map_of m' a \<noteq> Some d"
      using assms(3,4) by (force dest: map_of_SomeD)+
    with assms(5) [of a] show ?thesis by (auto simp: amount_or_def split: option.splits)
  qed
  then have "map_of m = map_of m'" ..
  with keys_sorted_list [OF assms(1)] keys_sorted_list [OF assms(2)] show ?thesis by metis
qed

lemma margin_config_extensional:
  assumes "margin_checked c" and "margin_checked d"
    and "mc_valuation_asset c = mc_valuation_asset d" and "mc_max_leverage c = mc_max_leverage d"
    and "mc_margin_effect c = mc_margin_effect d" and "mc_auto_repay_at_cancel c = mc_auto_repay_at_cancel d"
    and "mc_min_borrow_of c = mc_min_borrow_of d" and "mc_max_borrow_of c = mc_max_borrow_of d"
    and "mc_borrow_ratio_of c = mc_borrow_ratio_of d" and "mc_liquidation_ratio_of c = mc_liquidation_ratio_of d"
    and "mc_borrow_price_window c = mc_borrow_price_window d" and "mc_liquidation c = mc_liquidation d"
  shows "c = d"
proof -
  note ok = assms(1,2) [unfolded margin_checked_def]
  have "mc_min_borrow c = mc_min_borrow d"
    using ok fun_cong [OF assms(7)] by (intro amount_or_sorted_eq [of _ _ 0]) (simp_all add: mc_min_borrow_of_def)
  moreover have "mc_borrow_collateral_ratio c = mc_borrow_collateral_ratio d"
    using ok fun_cong [OF assms(9)] by (intro amount_or_sorted_eq [of _ _ 1]) (simp_all add: mc_borrow_ratio_of_def)
  moreover have "mc_liquidation_collateral_ratio c = mc_liquidation_collateral_ratio d"
    using ok fun_cong [OF assms(10)] by (intro amount_or_sorted_eq [of _ _ 1]) (simp_all add: mc_liquidation_ratio_of_def)
  moreover have "mc_max_borrow c = mc_max_borrow d"
  proof -
    have "map_of (mc_max_borrow c) = map_of (mc_max_borrow d)"
      using fun_cong [OF assms(8)] by (auto simp: mc_max_borrow_of_def)
    then show ?thesis using keys_sorted_list ok by metis
  qed
  moreover have "mc_borrow_price_window_ms c = mc_borrow_price_window_ms d"
    using assms(11) by (cases "mc_borrow_price_window_ms c"; cases "mc_borrow_price_window_ms d")
      (simp_all add: mc_borrow_price_window_def)
  ultimately show ?thesis using assms(3-6,12) by simp
qed

text \<open>C18: a configuration that its constructor and any sequence of its builder methods return keeps
  the type's promises: a leverage of at least one, no negative minimum or cap, collateral ratios
  within [0, 1] with the liquidation's no lower than the borrow's, a positive window, and a
  liquidation level that an account borrowed to its leverage limit has not reached. Its serialised
  form is accepted back and is the same configuration.\<close>

theorem margin_config_promises:
  assumes "margin_config_new Some a leverage effect = Some (Inr c)"
    and "margin_builds Some bs c = Some (Inr d)"
  shows "margin_promises d \<and> margin_config_try_from Some d = Some (Inr d)"
  using margin_builds_checked [OF assms(2) margin_new_checked [OF assms(1)]]
  by (simp add: margin_checked_promises try_from_id)

lemma margin_config_promises_witness:
  "\<exists>c d. margin_config_new Some ''usdt'' 3 Borrow = Some (Inr c) \<and>
     margin_builds Some [WithMinBorrow ''btc'' 0, WithRatios ''btc'' (1/2) 1, WithWindow 60000000,
      WithLiquidation (11/10) (1/100) (Some (3/2))] c = Some (Inr d)
    \<and> mc_min_borrow d = [] \<and> mc_borrow_price_window d = Some 60000000 \<and> margin_promises d"
proof -
  let ?bs = "[WithMinBorrow ''btc'' 0, WithRatios ''btc'' (1/2) 1, WithWindow 60000000,
      WithLiquidation (11/10) (1/100) (Some (3/2))]"
  let ?c = "\<lparr>mc_valuation_asset = ''usdt'', mc_max_leverage = 3, mc_margin_effect = Borrow,
      mc_auto_repay_at_cancel = True, mc_min_borrow = [], mc_max_borrow = [],
      mc_borrow_collateral_ratio = [], mc_liquidation_collateral_ratio = [],
      mc_borrow_price_window_ms = None, mc_liquidation = None\<rparr>"
  let ?d = "?c\<lparr>mc_borrow_collateral_ratio := [(''btc'', 1/2)], mc_borrow_price_window_ms := Some 60,
      mc_liquidation := Some \<lparr>ml_level = 11/10, ml_fee_rate = 1/100, ml_margin_call_level = Some (3/2)\<rparr>\<rparr>"
  note run = margin_config_new_def margin_config_try_from_def margin_config_checks_def first_such_def dec_simps
    with_min_borrow_def with_collateral_ratios_def with_borrow_price_window_def with_liquidation_def
    whole_milliseconds_def margin_liquidation_new_def with_margin_call_def margin_liquidation_try_from_def
    mc_borrow_ratio_of_def mc_liquidation_ratio_of_def amount_or_def Let_def
  have c: "margin_config_new Some ''usdt'' 3 Borrow = Some (Inr ?c)"
    by (simp add: run)
  moreover have d: "margin_builds Some ?bs ?c = Some (Inr ?d)"
    by (simp add: run)
  ultimately show ?thesis
    using margin_config_promises [OF c d] by (auto simp: mc_borrow_price_window_def)
qed

end
