(* ===== verification/Cash_Flow.thy ===== *)
theory Cash_Flow
  imports Order_Model
begin

text \<open>
  Cash that moves into or out of an account other than by a trade,
  \<open>rustrade-execution/src/cash_flow.rs\<close>: what kind of flow it is, the loan or the period it is for.
\<close>

datatype interest_timing = Periodic | OnBorrow | OtherTiming string

datatype cash_flow_kind =
    Funding "decimal option" "decimal option"
  | BorrowFee "decimal option" "decimal option"
  | MarginInterest "decimal option" "decimal option" "interest_timing option"
  | Financing "decimal option" "decimal option"
  | Rebate
  | LiquidationFee "decimal option" "decimal option"
  | OtherFlow string

record cash_flow_loan =
  cl_time :: time
  cl_order_id :: order_id
  cl_cid :: client_order_id

record cash_flow_period =
  cp_start :: time
  cp_end :: time

record ('a, 'i) asset_flow =
  cf_kind :: cash_flow_kind
  cf_asset :: 'a
  cf_amount :: decimal
  cf_instrument :: "'i option"
  cf_time_exchange :: time
  cf_id :: "string option"
  cf_period :: "cash_flow_period option"
  cf_loan :: "cash_flow_loan option"

definition cash_flow_new ::
  "cash_flow_kind \<Rightarrow> 'a \<Rightarrow> decimal \<Rightarrow> 'i option \<Rightarrow> time \<Rightarrow> string option \<Rightarrow> ('a, 'i) asset_flow" where
  "cash_flow_new k a x i t c = \<lparr>cf_kind = k, cf_asset = a, cf_amount = x, cf_instrument = i,
     cf_time_exchange = t, cf_id = c, cf_period = None, cf_loan = None\<rparr>"

definition cash_flow_period_new :: "time \<Rightarrow> time \<Rightarrow> cash_flow_period option" where
  "cash_flow_period_new s e = (if s < e then Some \<lparr>cp_start = s, cp_end = e\<rparr> else None)"

definition period_contains :: "time \<Rightarrow> cash_flow_period \<Rightarrow> bool" where
  "period_contains t p \<longleftrightarrow> cp_start p \<le> t \<and> t < cp_end p"

end
