(* ===== verification/Venue_State.thy ===== *)
theory Venue_State
  imports Settlement Price_Window Margin_Config Cash_Flow
begin

text \<open>
  The state of a simulated venue and what it emits: \<open>SimulatedVenue\<close> of
  \<open>rustrade-execution/src/exchange/mock/venue.rs\<close>, split into what is fixed when it is built and
  what its inputs change, with debt updates (\<open>margin_debt.rs\<close>), notices
  (\<open>notice.rs\<close>) and the account events that carry them (\<open>lib.rs\<close>).

  A trait object the venue is given is a function of the configuration, with the arguments of its
  method. The generator of random numbers, the rounding of a drawn rate and the earliest instant of
  the clock are third-party code and parameters. A sum over a hash map is taken in the order of the
  names; the order matters to its rounding only. What only a log line reads (whether a warning was
  given) is left out.
\<close>

section \<open>Cash flows, notices and debts\<close>

text \<open>A venue names assets and instruments.\<close>

type_synonym cash_flow = "(asset_name, instrument_name) asset_flow"

datatype notice_kind = MarginCall | LiquidationWarning | LiquidationNotice | MarginRestored | OtherNotice

record account_notice =
  nt_kind :: notice_kind
  nt_instrument :: "instrument_name option"
  nt_time_exchange :: time
  nt_margin_level :: "decimal option"
  nt_status :: string

fun notice_name :: "notice_kind \<Rightarrow> string" where
  "notice_name MarginCall = ''margin call''"
| "notice_name LiquidationWarning = ''liquidation warning''"
| "notice_name LiquidationNotice = ''liquidation''"
| "notice_name MarginRestored = ''margin restored''"
| "notice_name OtherNotice = ''other''"

definition is_escalation :: "notice_kind \<Rightarrow> bool" where
  "is_escalation k \<longleftrightarrow> k \<in> {MarginCall, LiquidationWarning, LiquidationNotice}"

datatype margin_debt_kind = DebtBorrow | DebtRepay | DebtInterest | DebtOther

fun debt_kind_name :: "margin_debt_kind \<Rightarrow> string" where
  "debt_kind_name DebtBorrow = ''borrow''"
| "debt_kind_name DebtRepay = ''repay''"
| "debt_kind_name DebtInterest = ''interest''"
| "debt_kind_name DebtOther = ''other''"

record margin_debt_update =
  du_asset :: asset_name
  du_instrument :: "instrument_name option"
  du_debt :: margin_details
  du_kind :: margin_debt_kind
  du_venue_kind :: string
  du_time_exchange :: time

text \<open>The kinds of account event this venue emits.\<close>

type_synonym 'e venue_order = "('e, instrument_name, asset_name) order_snapshot"

datatype 'e account_event_kind =
    BalanceSnapshot name_balance
  | OrderSnapshot "'e venue_order"
  | TradeEvent "(asset_name, instrument_name) trade"
  | CashFlowEvent cash_flow
  | MarginDebtEvent margin_debt_update
  | NoticeEvent account_notice

record 'e account_event =
  ae_exchange :: 'e
  ae_kind :: "'e account_event_kind"

section \<open>The models a venue is given\<close>

text \<open>
  A model is a trait a user implements; the bundled ones are in \<open>Carry_Models\<close>. A method that may
  panic has that as an outer \<open>None\<close>.
\<close>

datatype interest_due = InterestAtBorrow time | InterestAtBoundary time

fun due_time :: "interest_due \<Rightarrow> time" where
  "due_time (InterestAtBorrow t) = t"
| "due_time (InterestAtBoundary t) = t"

record interest_charge =
  ic_interest :: decimal
  ic_rate :: "decimal option"

record margin_interest_model =
  im_next_boundary :: "asset_name \<Rightarrow> time \<Rightarrow> time option option"
  im_charge :: "asset_name \<Rightarrow> decimal \<Rightarrow> interest_due \<Rightarrow> interest_charge option option"

record held_position =
  hp_instrument :: instrument_name
  hp_quantity :: decimal
  hp_contract_size :: decimal
  hp_entry_price :: decimal
  hp_price :: decimal

definition held_notional :: "rounding \<Rightarrow> held_position \<Rightarrow> decimal option" where
  "held_notional R p = do {
     x \<leftarrow> dec_mul R \<bar>hp_quantity p\<bar> (hp_contract_size p);
     dec_mul R x (hp_price p)
   }"

definition held_is_short :: "held_position \<Rightarrow> bool" where
  "held_is_short p \<longleftrightarrow> hp_quantity p < 0"

record holding_charge =
  hc_kind :: cash_flow_kind
  hc_amount :: decimal

record holding_cost_model =
  hm_next_boundary :: "instrument_name \<Rightarrow> time \<Rightarrow> time option option"
  hm_charge :: "held_position \<Rightarrow> time \<Rightarrow> holding_charge option option"

record shortability =
  sb_shortable :: "bool option"
  sb_easy_to_borrow :: "bool option"
  sb_available :: "decimal option"
  sb_fee_rate :: "decimal option"
  sb_delisting_at :: "time option"

record shortability_provider =
  sp_shortability :: "instrument_name \<Rightarrow> time \<Rightarrow> shortability"
  sp_short_sale_restricted :: "instrument_name \<Rightarrow> time \<Rightarrow> bool"

section \<open>The spot instruments by the assets they pair\<close>

record spot_pair =
  pr_instrument :: instrument_name
  pr_inverse :: bool

text \<open>
  The pairs between two assets, in the order of the instruments' names. The code builds them once,
  for every two assets, from the instruments of the venue, which never change.
\<close>

definition names_of :: "('k::linorder \<rightharpoonup> 'v) \<Rightarrow> 'k list" where
  "names_of m = sorted_list_of_set (dom m)"

definition pairs_of :: "venue_instrument \<Rightarrow> instrument_name \<Rightarrow> asset_name \<Rightarrow> asset_name \<Rightarrow> spot_pair list" where
  "pairs_of d name from to =
     (let u = vi_underlying d in
      if vi_kind d \<noteq> Spot \<or> un_base u = un_quote u then []
      else (if un_base u = from \<and> un_quote u = to then [\<lparr>pr_instrument = name, pr_inverse = False\<rparr>] else []) @
           (if un_quote u = from \<and> un_base u = to then [\<lparr>pr_instrument = name, pr_inverse = True\<rparr>] else []))"

definition pairs_between ::
  "(instrument_name \<rightharpoonup> venue_instrument) \<Rightarrow> asset_name \<Rightarrow> asset_name \<Rightarrow> spot_pair list" where
  "pairs_between instruments from to =
     concat (map (\<lambda>name. case instruments name of None \<Rightarrow> [] | Some d \<Rightarrow> pairs_of d name from to)
       (names_of instruments))"

section \<open>The configuration\<close>

record ('e, 'g) venue_config =
  vc_round :: rounding
  vc_round_rate :: "decimal \<Rightarrow> decimal"
  vc_next_u64 :: "'g \<Rightarrow> u64 \<times> 'g"
  vc_last_digit :: "decimal \<Rightarrow> decimal"
  vc_min_time :: time
  vc_exchange :: 'e
  vc_fee_model :: fee_model_config
  vc_spot_fee_asset :: spot_fee_asset
  vc_fill_model :: fill_model
  vc_instruments :: "instrument_name \<rightharpoonup> venue_instrument"
  vc_regime :: venue_regime
  vc_holding_costs :: "holding_cost_model list"
  vc_shortability :: "shortability_provider option"
  vc_market_order_timing :: market_order_timing
  vc_stale_market :: stale_market_policy
  vc_spot_margin :: "margin_config option"
  vc_fee_asset :: "fee_asset_config option"
  vc_margin_interest :: "margin_interest_model option"

section \<open>The state\<close>

record venue_market =
  vm_snapshot :: market_snapshot
  vm_depth :: market_depth
  vm_time_exchange :: time
  vm_bar :: "market_bar option"
  vm_fresh_at :: "time option"

definition venue_market_default :: venue_market where
  "venue_market_default = \<lparr>vm_snapshot = \<lparr>ms_best_bid = None, ms_best_ask = None, ms_last_price = None\<rparr>,
     vm_depth = depth_unknown, vm_time_exchange = 0, vm_bar = None, vm_fresh_at = None\<rparr>"

record liquidation_state =
  lq_under_way :: bool
  lq_margin_called :: bool

definition liquidation_state_default :: liquidation_state where
  "liquidation_state_default = \<lparr>lq_under_way = False, lq_margin_called = False\<rparr>"

record ('e, 'g) venue =
  vn_slippage :: "'g slippage"
  vn_account :: "('e, cash_flow) account_state"
  vn_market :: "instrument_name \<rightharpoonup> venue_market"
  vn_borrow_prices :: "instrument_name \<rightharpoonup> price_window"
  vn_positions :: "instrument_name \<rightharpoonup> net_position"
  vn_order_sequence :: u64
  vn_order_id_start :: nat
  vn_trade_sequence :: u64
  vn_cash_flow_sequence :: u64
  vn_time_exchange :: time
  vn_accrued_through :: "time option"
  vn_next_charge :: "time option"
  vn_next_interest :: "time option"
  vn_next_interest_loans :: u64
  vn_reported_debt :: "asset_name \<rightharpoonup> margin_details"
  vn_liquidation :: liquidation_state

section \<open>Ids\<close>

definition digit_char :: "nat \<Rightarrow> char" where
  "digit_char d = char_of (48 + d)"

fun decimal_string :: "nat \<Rightarrow> string" where
  "decimal_string n = (if n < 10 then [digit_char n] else decimal_string (n div 10) @ [digit_char (n mod 10)])"

declare decimal_string.simps [simp del]

definition is_digit :: "char \<Rightarrow> bool" where
  "is_digit c \<longleftrightarrow> 48 \<le> (of_char c :: nat) \<and> (of_char c :: nat) \<le> 57"

definition digits_value :: "string \<Rightarrow> nat" where
  "digits_value s = foldl (\<lambda>n c. 10 * n + (of_char c - 48)) 0 s"

text \<open>What \<open>str::parse::<u64>\<close> accepts: digits, at least one, after an optional plus sign, in range.\<close>

definition parse_u64 :: "string \<Rightarrow> nat option" where
  "parse_u64 s =
     (let ds = (case s of c # cs \<Rightarrow> if c = CHR ''+'' then cs else s | [] \<Rightarrow> [])
      in if ds \<noteq> [] \<and> list_all is_digit ds \<and> digits_value ds < 2 ^ 64 then Some (digits_value ds) else None)"

definition first_unseeded_order_id :: "order_id list \<Rightarrow> nat" where
  "first_unseeded_order_id ids =
     (case List.map_filter parse_u64 ids of [] \<Rightarrow> 0 | x # xs \<Rightarrow> fold max xs x + 1)"

definition next_order_id :: "('e, 'g) venue \<Rightarrow> order_id" where
  "next_order_id v = decimal_string (vn_order_id_start v + unat (vn_order_sequence v))"

definition order_id_fetch_add :: "('e, 'g) venue \<Rightarrow> order_id \<times> ('e, 'g) venue" where
  "order_id_fetch_add v =
     (next_order_id v, v\<lparr>vn_order_sequence := vn_order_sequence v + 1\<rparr>)"

definition trade_id_fetch_add :: "('e, 'g) venue \<Rightarrow> trade_id \<times> ('e, 'g) venue" where
  "trade_id_fetch_add v =
     (decimal_string (unat (vn_trade_sequence v)), v\<lparr>vn_trade_sequence := vn_trade_sequence v + 1\<rparr>)"

definition cash_flow_id_fetch_add :: "('e, 'g) venue \<Rightarrow> string \<times> ('e, 'g) venue" where
  "cash_flow_id_fetch_add v =
     (decimal_string (unat (vn_cash_flow_sequence v)), v\<lparr>vn_cash_flow_sequence := vn_cash_flow_sequence v + 1\<rparr>)"

definition build_account_event :: "('e, 'g) venue_config \<Rightarrow> 'e account_event_kind \<Rightarrow> 'e account_event" where
  "build_account_event cfg k = \<lparr>ae_exchange = vc_exchange cfg, ae_kind = k\<rparr>"

section \<open>Building a venue\<close>

text \<open>The venue's ids of the orders an account was seeded with, the open and the cancelled ones.\<close>

definition seeded_order_ids :: "('e, 'f) account_state \<Rightarrow> order_id list" where
  "seeded_order_ids st =
     List.map_filter (\<lambda>c. Option.bind (oo_by_id (ac_orders_open st) c)
         (\<lambda>r. assigned (open_id (o_state (rs_order r))))) (names_of (oo_by_id (ac_orders_open st))) @
     List.map_filter (\<lambda>c. map_option (\<lambda>x. ended_id (o_state x)) (ac_orders_cancelled st c))
       (names_of (ac_orders_cancelled st))"

text \<open>An open position of the snapshot: its instrument, quantity and entry price.\<close>

type_synonym seeded_position = "instrument_name \<times> decimal \<times> decimal option"

fun seeded_positions ::
  "(instrument_name \<rightharpoonup> venue_instrument) \<Rightarrow> seeded_position list
     \<Rightarrow> (instrument_name \<rightharpoonup> net_position) \<Rightarrow> (instrument_name \<rightharpoonup> net_position) option" where
  "seeded_positions instruments [] m = Some m"
| "seeded_positions instruments ((i, q, entry) # ps) m =
     (case instruments i of
        Some d \<Rightarrow>
          (case vi_kind d of
             Cfd _ \<Rightarrow> (case entry of
                 None \<Rightarrow> None
               | Some e \<Rightarrow> seeded_positions instruments ps (m(i \<mapsto> \<lparr>np_quantity = q, np_entry = e\<rparr>)))
           | _ \<Rightarrow> seeded_positions instruments ps m)
      | None \<Rightarrow> seeded_positions instruments ps m)"

definition venue_assemble ::
  "nat \<Rightarrow> 'g slippage \<Rightarrow> ('e, cash_flow) account_state \<Rightarrow> (instrument_name \<rightharpoonup> net_position)
     \<Rightarrow> (asset_name \<rightharpoonup> margin_details) \<Rightarrow> ('e, 'g) venue" where
  "venue_assemble start sl account positions reported = \<lparr>vn_slippage = sl, vn_account = account,
     vn_market = Map.empty, vn_borrow_prices = Map.empty, vn_positions = positions, vn_order_sequence = 0, vn_order_id_start = start,
     vn_trade_sequence = 0, vn_cash_flow_sequence = 0, vn_time_exchange = 0, vn_accrued_through = None,
     vn_next_charge = None, vn_next_interest = None, vn_next_interest_loans = 0,
     vn_reported_debt = reported, vn_liquidation = liquidation_state_default\<rparr>"

text \<open>
  A venue from the initial state of its configuration. \<open>None\<close> is a panic: a position without an
  entry, or an order listed twice.
\<close>

definition venue_with_regime ::
  "('e, 'g) venue_config \<Rightarrow> (u64 \<Rightarrow> 'g) \<Rightarrow> slippage_config \<Rightarrow> name_balance list
     \<Rightarrow> 'e venue_order list \<Rightarrow> seeded_position list \<Rightarrow> ('e, 'g) venue option" where
  "venue_with_regime cfg seed_from sl balances orders positions = do {
     ps \<leftarrow> seeded_positions (vc_instruments cfg) positions Map.empty;
     (case account_seed balances orders of
        Inl _ \<Rightarrow> None
      | Inr account \<Rightarrow>
          let account' = (if vc_spot_margin cfg \<noteq> None then enable_margin account else account);
              v = venue_assemble (first_unseeded_order_id (seeded_order_ids account')) (slippage_new seed_from sl) account' ps
                (\<lambda>a. Option.bind (ac_balances account' a) (\<lambda>ab. bl_margin (ab_balance ab)))
          in Some v)
   }"

end
