(* ===== verification/Venue_Valuation.thy ===== *)
theory Venue_Valuation
  imports Venue_State
begin

text \<open>
  How a simulated venue values its margin account and how much it lends, and what a fill costs when
  its fee is charged in a third asset (\<open>rustrade-execution/src/exchange/mock/venue.rs\<close>). The outer
  option of a result is a panic of the arithmetic, the inner one the absence of a price.
\<close>

section \<open>Prices\<close>

datatype price_extreme = Lowest | Highest

datatype prices = CurrentPrices | WindowPrices time asset_name

fun prices_extreme :: "prices \<Rightarrow> asset_name \<Rightarrow> bool \<Rightarrow> (price_extreme \<times> time) option" where
  "prices_extreme CurrentPrices a owes = None"
| "prices_extreme (WindowPrices since borrowing) a owes =
     Some (if owes \<or> a = borrowing then Highest else Lowest, since)"

definition window_start :: "('e, 'g) venue_config \<Rightarrow> time \<Rightarrow> int \<Rightarrow> time" where
  "window_start cfg end' window = (if end' - window < vc_min_time cfg then vc_min_time cfg else end' - window)"

type_synonym priced = "(asset_name underlying \<times> market_snapshot) option"

definition snapshot_of ::
  "('e, 'g) venue \<Rightarrow> asset_name \<Rightarrow> asset_name \<Rightarrow> priced \<Rightarrow> spot_pair \<Rightarrow> market_snapshot option" where
  "snapshot_of v asset valuation priced pair =
     (case vn_market v (pr_instrument pair) of
        Some m \<Rightarrow> Some (vm_snapshot m)
      | None \<Rightarrow> (case priced of
          None \<Rightarrow> None
        | Some (u, s) \<Rightarrow>
            let (base, quote) = (if pr_inverse pair then (valuation, asset) else (asset, valuation))
            in if un_base u = base \<and> un_quote u = quote then Some s else None))"

definition extreme_price ::
  "('e, 'g) venue \<Rightarrow> (price_extreme \<times> time) option \<Rightarrow> spot_pair \<Rightarrow> decimal \<Rightarrow> decimal" where
  "extreme_price v extreme pair price =
     (let window = vn_borrow_prices v (pr_instrument pair);
          lowest = (\<lambda>since. case Option.bind window (window_low since) of None \<Rightarrow> price | Some low \<Rightarrow> min low price);
          highest = (\<lambda>since. case Option.bind window (window_high since) of None \<Rightarrow> price | Some high \<Rightarrow> max high price)
      in case extreme of
           None \<Rightarrow> price
         | Some (Lowest, since) \<Rightarrow> if pr_inverse pair then highest since else lowest since
         | Some (Highest, since) \<Rightarrow> if pr_inverse pair then lowest since else highest since)"

fun find_map :: "('x \<Rightarrow> 'y option option) \<Rightarrow> 'x list \<Rightarrow> 'y option option" where
  "find_map f [] = Some None"
| "find_map f (x # xs) = do { y \<leftarrow> f x; (case y of None \<Rightarrow> find_map f xs | Some z \<Rightarrow> Some (Some z)) }"

definition pair_price ::
  "('e, 'g) venue_config \<Rightarrow> ('e, 'g) venue \<Rightarrow> asset_name \<Rightarrow> asset_name \<Rightarrow> priced
     \<Rightarrow> (price_extreme \<times> time) option \<Rightarrow> spot_pair \<Rightarrow> decimal option option" where
  "pair_price cfg v asset valuation priced extreme pair =
     (case snapshot_of v asset valuation priced pair of
        None \<Rightarrow> Some None
      | Some s \<Rightarrow> do {
          m \<leftarrow> mid_or_last (vc_round cfg) s;
          (case m of
             None \<Rightarrow> Some None
           | Some price \<Rightarrow>
               if price \<le> 0 then Some None
               else do {
                 let p = extreme_price v extreme pair price;
                 x \<leftarrow> (if pr_inverse pair then dec_div (vc_round cfg) 1 p else Some p);
                 Some (Some x)
               })
        })"

definition price_of ::
  "('e, 'g) venue_config \<Rightarrow> ('e, 'g) venue \<Rightarrow> asset_name \<Rightarrow> asset_name \<Rightarrow> priced \<Rightarrow> prices \<Rightarrow> bool
     \<Rightarrow> decimal option option" where
  "price_of cfg v asset valuation priced prices owes =
     (if asset = valuation then Some (Some 1)
      else find_map (pair_price cfg v asset valuation priced (prices_extreme prices asset owes))
        (pairs_between (vc_instruments cfg) asset valuation))"

definition price_in ::
  "('e, 'g) venue_config \<Rightarrow> ('e, 'g) venue \<Rightarrow> asset_name \<Rightarrow> asset_name \<Rightarrow> priced \<Rightarrow> decimal option option" where
  "price_in cfg v asset valuation priced = price_of cfg v asset valuation priced CurrentPrices False"

section \<open>The value of the account\<close>

datatype margin_check = CheckBorrow | CheckLiquidation

fun collateral_ratio :: "margin_check \<Rightarrow> margin_config \<Rightarrow> asset_name \<Rightarrow> decimal" where
  "collateral_ratio CheckBorrow c a = mc_borrow_ratio_of c a"
| "collateral_ratio CheckLiquidation c a = mc_liquidation_ratio_of c a"

record valued =
  va_equity :: decimal
  va_debt :: decimal

definition owed :: "rounding \<Rightarrow> name_balance \<Rightarrow> decimal option" where
  "owed R ab = (case bl_margin (ab_balance ab) of None \<Rightarrow> Some 0 | Some m \<Rightarrow> margin_owed R m)"

text \<open>One balance: the outer option a panic, \<open>Some None\<close> a debt that cannot be valued.\<close>

definition valued_balance ::
  "('e, 'g) venue_config \<Rightarrow> ('e, 'g) venue \<Rightarrow> margin_config \<Rightarrow> margin_check \<Rightarrow> priced \<Rightarrow> prices
     \<Rightarrow> name_balance \<Rightarrow> valued \<Rightarrow> valued option option" where
  "valued_balance cfg v c check priced prices ab x = do {
     let R = vc_round cfg;
     o' \<leftarrow> owed R ab;
     price \<leftarrow> price_of cfg v (ab_asset ab) (mc_valuation_asset c) priced prices (0 < o');
     (case price of
        None \<Rightarrow> Some (if 0 < o' then None else Some x)
      | Some p \<Rightarrow> do {
          net \<leftarrow> net_asset R (ab_balance ab);
          weighted \<leftarrow> dec_mul R net (if 0 < net then collateral_ratio check c (ab_asset ab) else 1);
          worth \<leftarrow> dec_mul R weighted p;
          e \<leftarrow> dec_add R (va_equity x) worth;
          due \<leftarrow> dec_mul R o' p;
          d \<leftarrow> dec_add R (va_debt x) due;
          Some (Some \<lparr>va_equity = e, va_debt = d\<rparr>)
        })
   }"

fun valued_balances ::
  "('e, 'g) venue_config \<Rightarrow> ('e, 'g) venue \<Rightarrow> margin_config \<Rightarrow> margin_check \<Rightarrow> priced \<Rightarrow> prices
     \<Rightarrow> asset_name list \<Rightarrow> valued \<Rightarrow> valued option option" where
  "valued_balances cfg v c check priced prices [] x = Some (Some x)"
| "valued_balances cfg v c check priced prices (a # as) x =
     (case ac_balances (vn_account v) a of
        None \<Rightarrow> valued_balances cfg v c check priced prices as x
      | Some ab \<Rightarrow> do {
          y \<leftarrow> valued_balance cfg v c check priced prices ab x;
          (case y of None \<Rightarrow> Some None | Some x' \<Rightarrow> valued_balances cfg v c check priced prices as x')
        })"

definition valued_of ::
  "('e, 'g) venue_config \<Rightarrow> ('e, 'g) venue \<Rightarrow> margin_config \<Rightarrow> margin_check \<Rightarrow> priced \<Rightarrow> prices \<Rightarrow> valued option option" where
  "valued_of cfg v c check priced prices = valued_balances cfg v c check priced prices
     (names_of (ac_balances (vn_account v))) \<lparr>va_equity = 0, va_debt = 0\<rparr>"

section \<open>How much the venue lends\<close>

definition room_at ::
  "('e, 'g) venue_config \<Rightarrow> ('e, 'g) venue \<Rightarrow> margin_config \<Rightarrow> asset_name \<Rightarrow> priced \<Rightarrow> prices \<Rightarrow> decimal option option" where
  "room_at cfg v c asset priced prices = do {
     let R = vc_round cfg;
     price \<leftarrow> price_of cfg v asset (mc_valuation_asset c) priced prices True;
     (case price of
        None \<Rightarrow> Some None
      | Some p \<Rightarrow> do {
          x \<leftarrow> valued_of cfg v c CheckBorrow priced prices;
          (case x of
             None \<Rightarrow> Some None
           | Some x' \<Rightarrow> do {
               l \<leftarrow> dec_sub R (mc_max_leverage c) 1;
               m \<leftarrow> dec_mul R l (va_equity x');
               headroom \<leftarrow> dec_sub R m (va_debt x');
               room \<leftarrow> dec_div R (max headroom 0) p;
               Some (Some room)
             })
        })
   }"

definition borrow_window_since :: "('e, 'g) venue_config \<Rightarrow> ('e, 'g) venue \<Rightarrow> margin_config \<Rightarrow> time option" where
  "borrow_window_since cfg v c =
     (case (vn_accrued_through v, mc_borrow_price_window c) of
        (Some t, Some w) \<Rightarrow> Some (window_start cfg t w)
      | _ \<Rightarrow> None)"

definition leverage_room ::
  "('e, 'g) venue_config \<Rightarrow> ('e, 'g) venue \<Rightarrow> margin_config \<Rightarrow> asset_name \<Rightarrow> priced \<Rightarrow> decimal option option" where
  "leverage_room cfg v c asset priced = do {
     current \<leftarrow> room_at cfg v c asset priced CurrentPrices;
     (case current of
        None \<Rightarrow> Some None
      | Some x \<Rightarrow> (case borrow_window_since cfg v c of
          None \<Rightarrow> Some (Some x)
        | Some since \<Rightarrow> do {
            w \<leftarrow> room_at cfg v c asset priced (WindowPrices since asset);
            Some (map_option (min x) w)
          }))
   }"

definition borrowable ::
  "('e, 'g) venue_config \<Rightarrow> ('e, 'g) venue \<Rightarrow> debit \<Rightarrow> margin_effect \<Rightarrow> instrument_terms
     \<Rightarrow> market_snapshot option \<Rightarrow> decimal option" where
  "borrowable cfg v d effect terms market =
     (case vc_spot_margin cfg of
        None \<Rightarrow> Some 0
      | Some c \<Rightarrow>
          if effect \<noteq> Borrow \<or> it_cash_settled terms \<or> lq_under_way (vn_liquidation v) then Some 0
          else do {
            need \<leftarrow> dec_add (vc_round cfg) (db_settled d) (db_reserved d);
            if need \<le> account_free (db_asset d) (vn_account v) then Some 0
            else do {
              room \<leftarrow> leverage_room cfg v c (db_asset d) (map_option (\<lambda>s. (it_underlying terms, s)) market);
              Some (case room of None \<Rightarrow> 0 | Some x \<Rightarrow> x)
            }
          })"

section \<open>What a fill costs\<close>

definition venue_settlement ::
  "('e, 'g) venue_config \<Rightarrow> instrument_terms \<Rightarrow> net_position \<Rightarrow> side \<Rightarrow> decimal \<Rightarrow> decimal \<Rightarrow> liquidity
     \<Rightarrow> settlement option" where
  "venue_settlement cfg = order_settlement (vc_round cfg) (vc_fee_model cfg) (vc_spot_fee_asset cfg)"

definition fee_in_fee_asset ::
  "('e, 'g) venue_config \<Rightarrow> ('e, 'g) venue \<Rightarrow> instrument_terms \<Rightarrow> asset_name asset_fees
     \<Rightarrow> asset_name asset_fees option option" where
  "fee_in_fee_asset cfg v terms fees =
     (case (vc_fee_asset cfg, af_fees_quote fees) of
        (Some c, Some fees_quote) \<Rightarrow>
          let asset = fa_asset c; u = it_underlying terms; R = vc_round cfg in
          if it_cash_settled terms \<or> asset = un_base u \<or> asset = un_quote u \<or> fees_quote \<le> 0 then Some None
          else do {
            price \<leftarrow> price_in cfg v asset (un_quote u) None;
            (case price of
               None \<Rightarrow> Some None
             | Some p \<Rightarrow> do {
                 rest \<leftarrow> dec_sub R 1 (fa_discount c);
                 fees' \<leftarrow> dec_mul R fees_quote rest;
                 (case dec_div R fees' p of
                    None \<Rightarrow> Some None
                  | Some fee \<Rightarrow> Some
                      (if fee \<le> account_free asset (vn_account v)
                       then Some \<lparr>af_asset = asset, af_fees = fee, af_fees_quote = Some fees'\<rparr> else None))
               })
          }
      | _ \<Rightarrow> Some None)"

definition fill_settlement ::
  "('e, 'g) venue_config \<Rightarrow> ('e, 'g) venue \<Rightarrow> instrument_terms \<Rightarrow> net_position \<Rightarrow> side \<Rightarrow> decimal \<Rightarrow> decimal
     \<Rightarrow> liquidity \<Rightarrow> settlement option" where
  "fill_settlement cfg v terms p sd quantity price l = do {
     s \<leftarrow> venue_settlement cfg terms p sd quantity price l;
     apart \<leftarrow> fee_in_fee_asset cfg v terms (st_fees s);
     (case apart of
        None \<Rightarrow> Some s
      | Some fees \<Rightarrow> do {
          s' \<leftarrow> settlement_with_fee (vc_round cfg) (vc_spot_fee_asset cfg) terms p sd quantity price 0;
          Some (s'\<lparr>st_fees := fees, st_fee_apart := True\<rparr>)
        })
   }"

end
