(* ===== verification/Venue_Commit.thy ===== *)
theory Venue_Commit
  imports Venue_Valuation
begin

text \<open>
  How a simulated venue moves its ledger for one order (\<open>exchange/mock/venue.rs\<close>): the commitment of
  an arrival with the loan it takes and the interest that loan is charged, the settlement of a fill
  against what its order held, the printing of a trade, and the retirement of an order that will not
  fill. An operation that may panic returns an option.
\<close>

section \<open>Data\<close>

record borrower =
  bw_instrument :: instrument_name
  bw_order_id :: order_id
  bw_cid :: client_order_id

record commitment =
  cmt_committed :: committed
  cmt_interest :: "cash_flow option"
  cmt_held_interest :: "cash_flow list"
  cmt_fee :: "name_balance option"

definition commitment_from :: "committed \<Rightarrow> commitment" where
  "commitment_from c = \<lparr>cmt_committed = c, cmt_interest = None, cmt_held_interest = [], cmt_fee = None\<rparr>"

record released =
  rl_balance :: name_balance
  rl_interest :: "cash_flow list"

datatype resting_settlement = RestingSettled commitment | RestingUnaffordable "released option"

datatype recommitted = Recommitted commitment decimal decimal | Unaffordable "released option"

definition borrower_of :: "'e open_order \<Rightarrow> borrower option" where
  "borrower_of ord = map_option (\<lambda>i. \<lparr>bw_instrument = instrument_of ord, bw_order_id = i, bw_cid = cid_of ord\<rparr>)
     (assigned (open_id (o_state ord)))"

definition borrower_lent :: "borrower \<Rightarrow> cash_flow \<Rightarrow> cash_flow" where
  "borrower_lent b f = f\<lparr>cf_instrument := Some (bw_instrument b),
     cf_loan := Some \<lparr>cl_time = cf_time_exchange f, cl_order_id = bw_order_id b, cl_cid = bw_cid b\<rparr>\<rparr>"

section \<open>Running an operation of the account\<close>

definition on_account ::
  "(('e, cash_flow) account_state \<Rightarrow> ('x \<times> ('e, cash_flow) account_state) option) \<Rightarrow> ('e, 'g) venue
     \<Rightarrow> ('x \<times> ('e, 'g) venue) option" where
  "on_account f v = do { (x, st) \<leftarrow> f (vn_account v); Some (x, v\<lparr>vn_account := st\<rparr>) }"

definition to_account ::
  "(('e, cash_flow) account_state \<Rightarrow> ('e, cash_flow) account_state) \<Rightarrow> ('e, 'g) venue \<Rightarrow> ('e, 'g) venue" where
  "to_account f v = v\<lparr>vn_account := f (vn_account v)\<rparr>"

section \<open>Boundaries of carry and interest\<close>

text \<open>
  A model may itself panic, its outer \<open>None\<close>. A boundary that is not after the instant it was asked
  from breaks the model's contract: a panic too.
\<close>

definition checked_boundary :: "(time \<Rightarrow> time option option) \<Rightarrow> time \<Rightarrow> time option option" where
  "checked_boundary next after = do {
     found \<leftarrow> next after;
     (case found of
        None \<Rightarrow> Some None
      | Some b \<Rightarrow> if after < b then Some (Some b) else None)
   }"

definition next_holding_boundary :: "holding_cost_model \<Rightarrow> instrument_name \<Rightarrow> time \<Rightarrow> time option option" where
  "next_holding_boundary m i = checked_boundary (hm_next_boundary m i)"

definition next_interest_boundary :: "margin_interest_model \<Rightarrow> asset_name \<Rightarrow> time \<Rightarrow> time option option" where
  "next_interest_boundary m a = checked_boundary (im_next_boundary m a)"

fun filter_map_all :: "('x \<Rightarrow> 'y option option) \<Rightarrow> 'x list \<Rightarrow> 'y list option" where
  "filter_map_all f [] = Some []"
| "filter_map_all f (x # xs) = do {
     y \<leftarrow> f x;
     ys \<leftarrow> filter_map_all f xs;
     Some (case y of None \<Rightarrow> ys | Some z \<Rightarrow> z # ys)
   }"

definition earliest :: "time list \<Rightarrow> time option" where
  "earliest ts = (case ts of [] \<Rightarrow> None | t # ts' \<Rightarrow> Some (fold min ts' t))"

definition refresh_next_charge :: "('e, 'g) venue_config \<Rightarrow> ('e, 'g) venue \<Rightarrow> ('e, 'g) venue option" where
  "refresh_next_charge cfg v =
     (case vn_accrued_through v of
        None \<Rightarrow> Some (v\<lparr>vn_next_charge := None\<rparr>)
      | Some after \<Rightarrow> do {
          bs \<leftarrow> filter_map_all (\<lambda>(i, m). next_holding_boundary m i after)
            (List.product (names_of (vn_positions v)) (vc_holding_costs cfg));
          Some (v\<lparr>vn_next_charge := earliest bs\<rparr>)
        })"

definition loans_of :: "('e, 'f) account_state \<Rightarrow> (asset_name \<times> decimal) list" where
  "loans_of st = List.map_filter (\<lambda>a. map_option (Pair a) (account_loan a st)) (names_of (ac_balances st))"

definition refresh_next_interest :: "('e, 'g) venue_config \<Rightarrow> ('e, 'g) venue \<Rightarrow> ('e, 'g) venue option" where
  "refresh_next_interest cfg v =
     (let v1 = v\<lparr>vn_next_interest_loans := ac_loans_changed (vn_account v)\<rparr>
      in case vc_margin_interest cfg of
           None \<Rightarrow> Some v1
         | Some m \<Rightarrow> (case vn_accrued_through v1 of
             None \<Rightarrow> Some (v1\<lparr>vn_next_interest := None\<rparr>)
           | Some after \<Rightarrow> do {
               bs \<leftarrow> filter_map_all (\<lambda>(a, _). next_interest_boundary m a after) (loans_of (vn_account v1));
               Some (v1\<lparr>vn_next_interest := earliest bs\<rparr>)
             }))"

definition refresh_next_interest_if_loans_changed ::
  "('e, 'g) venue_config \<Rightarrow> ('e, 'g) venue \<Rightarrow> ('e, 'g) venue option" where
  "refresh_next_interest_if_loans_changed cfg v =
     (if ac_loans_changed (vn_account v) \<noteq> vn_next_interest_loans v then refresh_next_interest cfg v else Some v)"

section \<open>Effects and reservations\<close>

definition venue_margin_effect :: "('e, 'g) venue_config \<Rightarrow> margin_effect option \<Rightarrow> margin_effect" where
  "venue_margin_effect cfg requested =
     (case vc_spot_margin cfg of
        Some c \<Rightarrow> (case requested of None \<Rightarrow> mc_margin_effect c | Some e \<Rightarrow> e)
      | None \<Rightarrow> NoSideEffect)"

definition refused_margin_effect ::
  "('e, 'g) venue_config \<Rightarrow> margin_effect option \<Rightarrow> instrument_terms \<Rightarrow> margin_effect option" where
  "refused_margin_effect cfg requested terms =
     (let borrows_here = (vc_spot_margin cfg \<noteq> None \<and> \<not> it_cash_settled terms)
      in case requested of
           None \<Rightarrow> None
         | Some e \<Rightarrow> if \<not> borrows_here \<and> e \<noteq> NoSideEffect then Some e else None)"

definition repays_at_cancel :: "('e, 'g) venue_config \<Rightarrow> bool" where
  "repays_at_cancel cfg = (case vc_spot_margin cfg of None \<Rightarrow> False | Some c \<Rightarrow> mc_auto_repay_at_cancel c)"

definition venue_release_reservation ::
  "('e, 'g) venue_config \<Rightarrow> cash_flow reservation \<Rightarrow> time \<Rightarrow> ('e, 'g) venue \<Rightarrow> (released \<times> ('e, 'g) venue) option" where
  "venue_release_reservation cfg r t v = do {
     (ab, v1) \<leftarrow> on_account (release_reservation (vc_round cfg) r (repays_at_cancel cfg) t) v;
     Some (\<lparr>rl_balance = ab, rl_interest = rv_unreported_interest r\<rparr>, v1)
   }"

definition release_held ::
  "('e, 'g) venue_config \<Rightarrow> cash_flow reservation option \<Rightarrow> time \<Rightarrow> ('e, 'g) venue
     \<Rightarrow> (released option \<times> ('e, 'g) venue) option" where
  "release_held cfg res t v =
     (case res of
        None \<Rightarrow> Some (None, v)
      | Some r \<Rightarrow> do { (x, v1) \<leftarrow> venue_release_reservation cfg r t v; Some (Some x, v1) })"

section \<open>Interest\<close>

definition venue_charge_interest ::
  "('e, 'g) venue_config \<Rightarrow> asset_name \<Rightarrow> decimal \<Rightarrow> interest_due \<Rightarrow> ('e, 'g) venue
     \<Rightarrow> ((name_balance \<times> cash_flow) option \<times> ('e, 'g) venue) option" where
  "venue_charge_interest cfg asset amount due v = do {
     charged \<leftarrow> (case vc_margin_interest cfg of None \<Rightarrow> Some None | Some m \<Rightarrow> im_charge m asset amount due);
     (case charged of
        None \<Rightarrow> Some (None, v)
      | Some c \<Rightarrow>
          if ic_interest c < 0 then None
          else if ic_interest c = 0 then Some (None, v)
          else do {
            (ab, v1) \<leftarrow> on_account (charge_interest (vc_round cfg) asset (ic_interest c) (due_time due)) v;
            let (i, v2) = cash_flow_id_fetch_add v1;
            Some (Some (ab, cash_flow_new
              (MarginInterest (ic_rate c) (Some amount)
                (Some (case due of InterestAtBorrow _ \<Rightarrow> OnBorrow | InterestAtBoundary _ \<Rightarrow> Periodic)))
              asset (- ic_interest c) None (due_time due) (Some i)), v2)
          })
   }"

section \<open>Committing\<close>

definition lending_of :: "('e, 'g) venue_config \<Rightarrow> asset_name \<Rightarrow> decimal \<Rightarrow> lending" where
  "lending_of cfg a room = \<lparr>ln_borrowable = room,
     ln_min_borrow = (case vc_spot_margin cfg of None \<Rightarrow> 0 | Some c \<Rightarrow> mc_min_borrow_of c a),
     ln_max_borrow = (case vc_spot_margin cfg of None \<Rightarrow> None | Some c \<Rightarrow> mc_max_borrow_of c a)\<rparr>"

definition venue_commit ::
  "('e, 'g) venue_config \<Rightarrow> debit \<Rightarrow> credit option \<Rightarrow> margin_effect \<Rightarrow> instrument_terms
     \<Rightarrow> market_snapshot option \<Rightarrow> borrower option \<Rightarrow> time \<Rightarrow> ('e, 'g) venue
     \<Rightarrow> ((balance_insufficient + commitment) \<times> ('e, 'g) venue) option" where
  "venue_commit cfg d credit effect terms market bw t v = do {
     room \<leftarrow> borrowable cfg v d effect terms market;
     (out, v1) \<leftarrow> on_account (commit (vc_round cfg) d credit effect (lending_of cfg (db_asset d) room) t) v;
     (case out of
        Inl e \<Rightarrow> Some (Inl e, v1)
      | Inr c \<Rightarrow>
          if 0 < cm_borrowed c then do {
            (charged, v2) \<leftarrow> venue_charge_interest cfg (db_asset d) (cm_borrowed c) (InterestAtBorrow t) v1;
            Some (Inr (case charged of
                None \<Rightarrow> commitment_from c
              | Some (ab, flow) \<Rightarrow> (commitment_from (c\<lparr>cm_paid := ab\<rparr>))\<lparr>cmt_interest :=
                  Some (case bw of Some b \<Rightarrow> borrower_lent b flow | None \<Rightarrow> flow)\<rparr>), v2)
          }
          else Some (Inr (commitment_from c), v1))
   }"

definition take_fee_apart ::
  "('e, 'g) venue_config \<Rightarrow> settlement \<Rightarrow> commitment \<Rightarrow> time \<Rightarrow> ('e, 'g) venue \<Rightarrow> (commitment \<times> ('e, 'g) venue) option" where
  "take_fee_apart cfg s c t v =
     (if \<not> st_fee_apart s \<or> af_fees (st_fees s) = 0 then Some (c, v)
      else do {
        (ab, v1) \<leftarrow> on_account (charge (vc_round cfg) (af_asset (st_fees s)) (- af_fees (st_fees s)) t) v;
        Some (c\<lparr>cmt_fee := Some ab\<rparr>, v1)
      })"

text \<open>The hold of an order given back, and its debit and credit committed afresh in its place.\<close>

definition reservation_effect :: "('e, 'g) venue_config \<Rightarrow> 'f reservation option \<Rightarrow> margin_effect" where
  "reservation_effect cfg res = (case res of None \<Rightarrow> venue_margin_effect cfg None | Some r \<Rightarrow> rv_effect r)"

definition repay_unused ::
  "('e, 'g) venue_config \<Rightarrow> cash_flow reservation \<Rightarrow> debit \<Rightarrow> decimal \<Rightarrow> commitment \<Rightarrow> time \<Rightarrow> ('e, 'g) venue
     \<Rightarrow> ((commitment \<times> decimal) \<times> ('e, 'g) venue) option" where
  "repay_unused cfg r d loan c t v = do {
     let R = vc_round cfg;
     need \<leftarrow> dec_add R (db_settled d) (db_reserved d);
     surplus \<leftarrow> dec_sub R (rv_amount r) need;
     let unused = min (rv_borrowed r) surplus;
     (if 0 < unused then do {
        (ab, v1) \<leftarrow> on_account (repay_loan R (rv_asset r) unused t) v;
        loan' \<leftarrow> dec_sub R loan unused;
        Some ((c\<lparr>cmt_committed := (cmt_committed c)\<lparr>cm_paid := ab\<rparr>\<rparr>, loan'), v1)
      }
      else Some ((c, loan), v))
   }"

definition commit_afresh ::
  "('e, 'g) venue_config \<Rightarrow> 'e open_order \<Rightarrow> instrument_terms \<Rightarrow> cash_flow reservation option \<Rightarrow> debit
     \<Rightarrow> credit option \<Rightarrow> time \<Rightarrow> ('e, 'g) venue \<Rightarrow> (recommitted \<times> ('e, 'g) venue) option" where
  "commit_afresh cfg ord terms res d credit t v = do {
     let R = vc_round cfg;
     let held_interest = (case res of None \<Rightarrow> [] | Some r \<Rightarrow> rv_unreported_interest r);
     (released, v1) \<leftarrow> (case res of
         None \<Rightarrow> Some (None, v)
       | Some r \<Rightarrow> do { (ab, v1) \<leftarrow> on_account (release R (rv_asset r) (rv_amount r) t) v; Some (Some (r, ab), v1) });
     (out, v2) \<leftarrow> venue_commit cfg d credit (reservation_effect cfg res) terms None (borrower_of ord) t v1;
     (case out of
        Inr c \<Rightarrow> do {
          new \<leftarrow> shortfall_borrowed R (cmt_committed c);
          loan \<leftarrow> (case res of None \<Rightarrow> Some new | Some r \<Rightarrow> dec_add R new (rv_borrowed r));
          excess \<leftarrow> (case res of
              None \<Rightarrow> Some (cm_excess_borrowed (cmt_committed c))
            | Some r \<Rightarrow> dec_add R (cm_excess_borrowed (cmt_committed c)) (rv_excess_borrowed r));
          ((c', loan'), v3) \<leftarrow> (case res of
              Some r \<Rightarrow> if repays_at_cancel cfg then repay_unused cfg r d loan c t v2 else Some ((c, loan), v2)
            | None \<Rightarrow> Some ((c, loan), v2));
          Some (Recommitted (c'\<lparr>cmt_held_interest := held_interest\<rparr>) loan' excess, v3)
        }
      | Inl _ \<Rightarrow>
          (case released of
             None \<Rightarrow> Some (Unaffordable None, v2)
           | Some (r, ab) \<Rightarrow> do {
               (ab', v3) \<leftarrow>
                 (if \<not> repays_at_cancel cfg then Some (ab, v2)
                  else do {
                    loan \<leftarrow> reservation_loan R r;
                    if loan = 0 then Some (ab, v2) else on_account (repay_loan R (rv_asset r) loan t) v2
                  });
               Some (Unaffordable (Some \<lparr>rl_balance = ab', rl_interest = held_interest\<rparr>), v3)
             }))
   }"

definition settle_resting_afresh ::
  "('e, 'g) venue_config \<Rightarrow> 'e open_order \<Rightarrow> instrument_terms \<Rightarrow> cash_flow reservation option \<Rightarrow> settlement
     \<Rightarrow> time \<Rightarrow> ('e, 'g) venue \<Rightarrow> (resting_settlement \<times> ('e, 'g) venue) option" where
  "settle_resting_afresh cfg ord terms res s t v = do {
     (out, v1) \<leftarrow> commit_afresh cfg ord terms res (settled_debit s) (Some (st_credit s)) t v;
     Some (case out of
         Recommitted c _ _ \<Rightarrow> (RestingSettled c, v1)
       | Unaffordable r \<Rightarrow> (RestingUnaffordable r, v1))
   }"

text \<open>A seeded order holds nothing; one whose fill the account cannot pay is a panic.\<close>

definition settle_resting ::
  "('e, 'g) venue_config \<Rightarrow> 'e open_order \<Rightarrow> instrument_terms \<Rightarrow> cash_flow reservation option \<Rightarrow> settlement
     \<Rightarrow> time \<Rightarrow> ('e, 'g) venue \<Rightarrow> (resting_settlement \<times> ('e, 'g) venue) option" where
  "settle_resting cfg ord terms res s t v =
     (case (st_fee_apart s, st_credit s) of
        (False, Deliver dl) \<Rightarrow>
          if dl_amount dl < 0 then settle_resting_afresh cfg ord terms res s t v
          else (case res of
            None \<Rightarrow> do {
              (out, v1) \<leftarrow> venue_commit cfg (settled_debit s) (Some (st_credit s)) (reservation_effect cfg res)
                terms None (borrower_of ord) t v;
              (case out of Inl _ \<Rightarrow> None | Inr c \<Rightarrow> Some (RestingSettled c, v1))
            }
          | Some r \<Rightarrow> do {
              (paid, v1) \<leftarrow> on_account (settle (vc_round cfg) (rv_asset r) (rv_amount r) t) v;
              (received, v2) \<leftarrow> on_account (deliver (vc_round cfg) dl (rv_effect r) t) v1;
              Some (RestingSettled ((commitment_from \<lparr>cm_paid = paid, cm_received = Some received,
                cm_borrowed = 0, cm_excess_borrowed = 0\<rparr>)\<lparr>cmt_held_interest := rv_unreported_interest r\<rparr>), v2)
            })
      | _ \<Rightarrow> settle_resting_afresh cfg ord terms res s t v)"

section \<open>Reporting\<close>

definition push_interest :: "('e, 'g) venue_config \<Rightarrow> cash_flow list \<Rightarrow> time \<Rightarrow> 'e account_event list" where
  "push_interest cfg flows t = map (\<lambda>f. build_account_event cfg (CashFlowEvent (f\<lparr>cf_time_exchange := t\<rparr>))) flows"

definition list_of_option :: "'x option \<Rightarrow> 'x list" where
  "list_of_option x = (case x of None \<Rightarrow> [] | Some y \<Rightarrow> [y])"

definition push_committed ::
  "('e, 'g) venue_config \<Rightarrow> commitment \<Rightarrow> (asset_name, instrument_name) trade option \<Rightarrow> 'e account_event list" where
  "push_committed cfg c tr =
     (let paid = cm_paid (cmt_committed c);
          reported_at = (case tr of None \<Rightarrow> ab_time_exchange paid | Some x \<Rightarrow> tr_time_exchange x);
          balance = (\<lambda>ab. build_account_event cfg (BalanceSnapshot ab))
      in [balance paid] @ map balance (list_of_option (cm_received (cmt_committed c))) @
         map balance (list_of_option (cmt_fee c)) @
         map (\<lambda>x. build_account_event cfg (TradeEvent x)) (list_of_option tr) @
         push_interest cfg (cmt_held_interest c @ list_of_option (cmt_interest c)) reported_at)"

section \<open>Fills\<close>

definition venue_record_fill ::
  "('e, 'g) venue_config \<Rightarrow> instrument_terms \<Rightarrow> instrument_name \<Rightarrow> side \<Rightarrow> decimal \<Rightarrow> decimal \<Rightarrow> ('e, 'g) venue
     \<Rightarrow> ('e, 'g) venue option" where
  "venue_record_fill cfg terms i sd quantity price v = do {
     (ps, opened_or_closed) \<leftarrow> positions_record_fill (vc_round cfg) terms i sd quantity price (vn_positions v);
     let v1 = v\<lparr>vn_positions := ps\<rparr>;
     if opened_or_closed \<and> vc_holding_costs cfg \<noteq> [] then refresh_next_charge cfg v1 else Some v1
   }"

definition print_fill ::
  "('e, 'g) venue_config \<Rightarrow> instrument_terms \<Rightarrow> 'e open_order \<Rightarrow> decimal \<Rightarrow> decimal \<Rightarrow> asset_name asset_fees
     \<Rightarrow> time \<Rightarrow> ('e, 'g) venue \<Rightarrow> ((asset_name, instrument_name) trade \<times> ('e, 'g) venue) option" where
  "print_fill cfg terms ord quantity price fees t v = do {
     v1 \<leftarrow> venue_record_fill cfg terms (instrument_of ord) (o_side ord) quantity price v;
     let (i, v2) = trade_id_fetch_add v1;
     cumulative \<leftarrow> dec_add (vc_round cfg) (open_filled_quantity (o_state ord)) quantity;
     let tr = \<lparr>tr_id = i, tr_order_id = or_client_id (open_id (o_state ord)) (cid_of ord),
       tr_instrument = instrument_of ord, tr_strategy = key_strategy (o_key ord), tr_time_exchange = t,
       tr_side = o_side ord, tr_price = price, tr_quantity = quantity,
       tr_order_filled_quantity = Some cumulative, tr_fees = fees, tr_origin = OriginOrder,
       tr_position_side = None, tr_client_order_id = Some (cid_of ord), tr_time_source = SourceVenue\<rparr>;
     Some (tr, to_account (ack_trade tr) v2)
   }"

definition depth_available :: "instrument_name \<Rightarrow> side \<Rightarrow> ('e, 'g) venue \<Rightarrow> decimal option" where
  "depth_available i sd v = Option.bind (vn_market v i) (\<lambda>m. available_to sd (vm_depth m))"

definition consume_depth ::
  "('e, 'g) venue_config \<Rightarrow> instrument_name \<Rightarrow> side \<Rightarrow> decimal \<Rightarrow> ('e, 'g) venue \<Rightarrow> ('e, 'g) venue option" where
  "consume_depth cfg i sd quantity v =
     (case vn_market v i of
        None \<Rightarrow> Some v
      | Some m \<Rightarrow> do {
          d \<leftarrow> depth_consume (vc_round cfg) sd quantity (vm_depth m);
          Some (v\<lparr>vn_market := (vn_market v)(i \<mapsto> m\<lparr>vm_depth := d\<rparr>)\<rparr>)
        })"

definition capped_by :: "decimal \<Rightarrow> decimal option \<Rightarrow> decimal" where
  "capped_by quantity available = (case available of None \<Rightarrow> quantity | Some a \<Rightarrow> min quantity a)"

section \<open>Retiring an order that will not fill\<close>

definition cancel_unfilled ::
  "('e, 'g) venue_config \<Rightarrow> 'e open_order \<Rightarrow> released option \<Rightarrow> time \<Rightarrow> ('e, 'g) venue
     \<Rightarrow> 'e account_event list \<times> ('e, 'g) venue" where
  "cancel_unfilled cfg ord released t v =
     (let reported = (case released of
            None \<Rightarrow> []
          | Some r \<Rightarrow> build_account_event cfg (BalanceSnapshot (rl_balance r)) # push_interest cfg (rl_interest r) t);
          ended = \<lparr>ended_id = or_client_id (open_id (o_state ord)) (cid_of ord), ended_time_exchange = t,
            ended_filled_quantity = Some (open_filled_quantity (o_state ord))\<rparr>;
          cancelled = map_state (\<lambda>_. ended) ord
      in (reported @ [build_account_event cfg (OrderSnapshot (map_state (\<lambda>s. Inactive (Cancelled s)) cancelled))],
          to_account (ack_cancelled cancelled) v))"

definition retire_expired ::
  "('e, 'g) venue_config \<Rightarrow> ('e, cash_flow) resting_order \<Rightarrow> time \<Rightarrow> ('e, 'g) venue
     \<Rightarrow> ('e account_event list \<times> ('e, 'g) venue) option" where
  "retire_expired cfg r t v = do {
     let ord = rs_order r;
     (released, v1) \<leftarrow> release_held cfg (rs_reservation r) t v;
     let reported = (case released of
         None \<Rightarrow> []
       | Some x \<Rightarrow> build_account_event cfg (BalanceSnapshot (rl_balance x)) # push_interest cfg (rl_interest x) t);
     let expired = map_state (\<lambda>s. \<lparr>ended_id = or_client_id (open_id s) (cid_of ord), ended_time_exchange = t,
       ended_filled_quantity = Some (open_filled_quantity s)\<rparr>) ord;
     Some (reported @ [build_account_event cfg (OrderSnapshot (map_state (\<lambda>s. Inactive (Expired s)) expired))],
       to_account (ack_expired expired) v1)
   }"

text \<open>Taking orders off the book one by one, each if it is still there.\<close>

definition take_order :: "client_order_id \<Rightarrow> ('e, 'g) venue \<Rightarrow> ('e, cash_flow) resting_order option \<times> ('e, 'g) venue" where
  "take_order c v = (case remove_order c (vn_account v) of (r, st) \<Rightarrow> (r, v\<lparr>vn_account := st\<rparr>))"

fun each_order ::
  "(('e, cash_flow) resting_order \<Rightarrow> ('e, 'g) venue \<Rightarrow> ('e account_event list \<times> ('e, 'g) venue) option)
     \<Rightarrow> client_order_id list \<Rightarrow> ('e, 'g) venue \<Rightarrow> ('e account_event list \<times> ('e, 'g) venue) option" where
  "each_order f [] v = Some ([], v)"
| "each_order f (c # cs) v =
     (case take_order c v of
        (None, v1) \<Rightarrow> each_order f cs v1
      | (Some r, v1) \<Rightarrow> do {
          (es, v2) \<leftarrow> f r v1;
          (es', v3) \<leftarrow> each_order f cs v2;
          Some (es @ es', v3)
        })"

definition sweep_expired ::
  "('e, 'g) venue_config \<Rightarrow> time \<Rightarrow> ('e, 'g) venue \<Rightarrow> ('e account_event list \<times> ('e, 'g) venue) option" where
  "sweep_expired cfg t v =
     each_order (\<lambda>r. retire_expired cfg r t) (oo_expired_as_of t (ac_orders_open (vn_account v))) v"

definition cancel_resting ::
  "('e, 'g) venue_config \<Rightarrow> time \<Rightarrow> ('e, cash_flow) resting_order \<Rightarrow> ('e, 'g) venue
     \<Rightarrow> ('e account_event list \<times> ('e, 'g) venue) option" where
  "cancel_resting cfg t r v = do {
     (released, v1) \<leftarrow> release_held cfg (rs_reservation r) t v;
     Some (cancel_unfilled cfg (rs_order r) released t v1)
   }"

definition cancel_held_immediate ::
  "('e, 'g) venue_config \<Rightarrow> instrument_name \<Rightarrow> time \<Rightarrow> ('e, 'g) venue \<Rightarrow> ('e account_event list \<times> ('e, 'g) venue) option" where
  "cancel_held_immediate cfg i t v =
     (let orders = ac_orders_open (vn_account v);
          immediate = filter (\<lambda>c. case oo_by_id orders c of
              None \<Rightarrow> False
            | Some r \<Rightarrow> o_time_in_force (rs_order r) \<in> {ImmediateOrCancel, FillOrKill}) (oo_held_on i orders)
      in each_order (cancel_resting cfg t) immediate v)"

end
