(* ===== verification/Venue_Orders.thy ===== *)
theory Venue_Orders
  imports Venue_Commit
begin

text \<open>
  The orders of a simulated venue (\<open>exchange/mock/venue.rs\<close>): an order arriving, with every refusal
  before it touches the ledger, its fill, rest or hold; the matching of resting orders and the
  release of held ones when the market moves; the cancel of an order. The text of a refusal is
  shortened to its constant part.
\<close>

section \<open>Data\<close>

record venue_request = request_open +
  vr_market :: "market_snapshot option"

type_synonym 'e venue_open_request = "('e, instrument_name, venue_request) order_event"

datatype venue_market_age = NoFeed | Unpriced | FreshMarket | StaleMarket "time option"

datatype release_source = ReleaseBar market_bar next_bar_price | ReleaseMarket market_snapshot

datatype remainder = RemainderRest decimal | RemainderCancel | RemainderKill

datatype notification =
    NoteFilled commitment "(asset_name, instrument_name) trade"
  | NoteRested name_balance

record ('e, 'r) venue_outcome =
  vo_events :: "'e account_event list"
  vo_response :: 'r

type_synonym ('e, 'g) opened = "(('e venue_order \<times> notification option) \<times> ('e, 'g) venue) option"

text \<open>The order of a request, in a given state.\<close>

definition order_of :: "'e venue_open_request \<Rightarrow> 's \<Rightarrow> ('e, instrument_name, 's) order" where
  "order_of req s = \<lparr>o_key = ev_key req, o_side = ro_side (ev_state req), o_price = ro_price (ev_state req),
     o_quantity = ro_quantity (ev_state req), o_kind = ro_kind (ev_state req),
     o_time_in_force = ro_time_in_force (ev_state req), o_state = s\<rparr>"

definition err_response ::
  "'e venue_open_request \<Rightarrow> (asset_name, instrument_name) order_error \<Rightarrow> 'e venue_order" where
  "err_response req e = order_of req (Inactive (OpenFailed e))"

definition refuse ::
  "'e venue_open_request \<Rightarrow> (asset_name, instrument_name) order_error \<Rightarrow> ('e, 'g) venue \<Rightarrow> ('e, 'g) opened" where
  "refuse req e v = Some ((err_response req e, None), v)"

definition borrower_arriving :: "'e venue_open_request \<Rightarrow> order_id \<Rightarrow> borrower" where
  "borrower_arriving req i = \<lparr>bw_instrument = key_instrument (ev_key req), bw_order_id = i,
     bw_cid = key_cid (ev_key req)\<rparr>"

definition post_only :: "time_in_force \<Rightarrow> bool" where
  "post_only tif \<longleftrightarrow> tif = GoodUntilCancelled True"

definition request_limit :: "venue_request \<Rightarrow> decimal option" where
  "request_limit s = (case ro_kind s of Limit \<Rightarrow> ro_price s | _ \<Rightarrow> None)"

section \<open>Refusals\<close>

definition insufficient_error ::
  "('e, 'g) venue_config \<Rightarrow> balance_insufficient \<Rightarrow> side \<Rightarrow> (asset_name, instrument_name) api_error" where
  "insufficient_error cfg i sd =
     (case bi_max_borrow i of
        None \<Rightarrow> BalanceInsufficientApi (Some (bi_asset i)) ''Available Balance, Required Balance inc. fees''
      | Some cap \<Rightarrow>
          let least = (case vc_spot_margin cfg of None \<Rightarrow> 0 | Some c \<Rightarrow> mc_min_borrow_of c (bi_asset i));
              available = (case (sd, bi_borrowable i) of
                  (Sell, Some left) \<Rightarrow> Some (if left < least then 0 else left)
                | _ \<Rightarrow> None)
          in BorrowRejected \<lparr>br_reason = BorrowLimitExceeded, br_venue_code = None,
               br_message = ''borrow exceeds Max Borrow'', br_available = available\<rparr>)"

fun dec_sum :: "rounding \<Rightarrow> decimal list \<Rightarrow> decimal \<Rightarrow> decimal option" where
  "dec_sum R [] x = Some x"
| "dec_sum R (y # ys) x = do { z \<leftarrow> dec_add R x y; dec_sum R ys z }"

definition resting_sells :: "rounding \<Rightarrow> instrument_name \<Rightarrow> ('e, 'f) account_state \<Rightarrow> decimal option" where
  "resting_sells R i st = do {
     let orders = map rs_order (List.map_filter (oo_by_id (ac_orders_open st)) (names_of (oo_by_id (ac_orders_open st))));
     let sells = filter (\<lambda>ord. instrument_of ord = i \<and> o_side ord = Sell) orders;
     qs \<leftarrow> those (map (\<lambda>ord. quantity_remaining R (o_state ord) (o_quantity ord)) sells);
     dec_sum R qs 0
   }"

definition borrow_rejected ::
  "borrow_reject_reason \<Rightarrow> string \<Rightarrow> decimal option \<Rightarrow> (asset_name, instrument_name) api_error" where
  "borrow_rejected reason message available = BorrowRejected \<lparr>br_reason = reason, br_venue_code = None,
     br_message = message, br_available = available\<rparr>"

definition sell_marketable ::
  "('e, 'g) venue_config \<Rightarrow> venue_request \<Rightarrow> market_snapshot option \<Rightarrow> bool option" where
  "sell_marketable cfg s market =
     (case market of
        None \<Rightarrow> Some False
      | Some m \<Rightarrow> (case ro_kind s of
          Limit \<Rightarrow> Some (case ro_price s of None \<Rightarrow> False | Some limit \<Rightarrow> crosses Sell limit m)
        | _ \<Rightarrow> do { p \<leftarrow> vc_fill_model cfg Sell (ro_quantity s) m; Some (p \<noteq> None) }))"

definition short_sale_check ::
  "('e, 'g) venue_config \<Rightarrow> shortability_provider \<Rightarrow> instrument_name \<Rightarrow> time \<Rightarrow> venue_request
     \<Rightarrow> market_snapshot option \<Rightarrow> ((asset_name, instrument_name) api_error + unit) option" where
  "short_sale_check cfg provider i now s market = do {
     marketable \<leftarrow> (if sp_short_sale_restricted provider i now then sell_marketable cfg s market else Some False);
     Some (if marketable then Inl (borrow_rejected ShortSaleRestricted ''under a short-sale restriction'' None)
       else Inr ())
   }"

definition check_shortability ::
  "('e, 'g) venue_config \<Rightarrow> 'e venue_open_request \<Rightarrow> instrument_terms \<Rightarrow> market_snapshot option
     \<Rightarrow> ('e, 'g) venue \<Rightarrow> ((asset_name, instrument_name) api_error + unit) option" where
  "check_shortability cfg req terms market v =
     (case vc_shortability cfg of
        None \<Rightarrow> Some (Inr ())
      | Some provider \<Rightarrow>
          let R = vc_round cfg; s = ev_state req; i = key_instrument (ev_key req); now = vn_time_exchange v in
          if \<not> it_cash_settled terms \<or> ro_side s \<noteq> Sell then Some (Inr ())
          else do {
            resting \<leftarrow> resting_sells R i (vn_account v);
            committed \<leftarrow> dec_sub R (np_quantity (position_of terms i (vn_positions v))) resting;
            let short_before = max (- committed) 0;
            after \<leftarrow> dec_sub R (ro_quantity s) committed;
            let short_after = max after 0;
            if short_after \<le> short_before then Some (Inr ())
            else do {
              let x = sp_shortability provider i now;
              if (case sb_delisting_at x of None \<Rightarrow> False | Some t \<Rightarrow> t \<le> now) then
                Some (Inl (borrow_rejected NotShortable ''it is delisted'' None))
              else if sb_shortable x = Some False then
                Some (Inl (borrow_rejected NotShortable ''cannot be sold short'' None))
              else (case sb_available x of
                  Some available \<Rightarrow>
                    if available < short_after then do {
                      left \<leftarrow> dec_sub R available short_before;
                      Some (Inl (borrow_rejected InventoryUnavailable ''past what there is to borrow'' (Some (max left 0))))
                    }
                    else short_sale_check cfg provider i now s market
                | None \<Rightarrow> short_sale_check cfg provider i now s market)
            }
          })"

definition pricing_market ::
  "('e, 'g) venue_config \<Rightarrow> 'e venue_open_request \<Rightarrow> ('e, 'g) venue \<Rightarrow> market_snapshot option" where
  "pricing_market cfg req v =
     (case vc_regime cfg of
        RequestPriced \<Rightarrow> vr_market (ev_state req)
      | MarketDriven \<Rightarrow> map_option vm_snapshot (vn_market v (key_instrument (ev_key req))))"

definition market_age ::
  "('e, 'g) venue_config \<Rightarrow> instrument_name \<Rightarrow> int \<Rightarrow> time \<Rightarrow> ('e, 'g) venue \<Rightarrow> venue_market_age" where
  "market_age cfg i max_age now v =
     (if vc_regime cfg = RequestPriced then NoFeed
      else case vn_market v i of
        None \<Rightarrow> Unpriced
      | Some m \<Rightarrow>
          if snapshot_is_empty (vm_snapshot m) then Unpriced
          else (case vm_fresh_at m of
              None \<Rightarrow> StaleMarket None
            | Some t \<Rightarrow> if max_age < now - t then StaleMarket (Some t) else FreshMarket))"

section \<open>Orders that end, rest or wait on arrival\<close>

definition ended_on_arrival :: "order_id \<Rightarrow> time \<Rightarrow> decimal \<Rightarrow> ended_state" where
  "ended_on_arrival i t filled = \<lparr>ended_id = i, ended_time_exchange = t, ended_filled_quantity = Some filled\<rparr>"

definition cancel_on_arrival :: "'e venue_open_request \<Rightarrow> time \<Rightarrow> ('e, 'g) venue \<Rightarrow> ('e, 'g) opened" where
  "cancel_on_arrival req now v =
     (let (i, v1) = order_id_fetch_add v; s = ended_on_arrival i now 0
      in Some ((order_of req (Inactive (Cancelled s)), None), to_account (ack_cancelled (order_of req s)) v1))"

definition expire_on_arrival :: "'e venue_open_request \<Rightarrow> time \<Rightarrow> ('e, 'g) venue \<Rightarrow> ('e, 'g) opened" where
  "expire_on_arrival req now v =
     (let (i, v1) = order_id_fetch_add v; s = ended_on_arrival i now 0
      in Some ((order_of req (Inactive (Expired s)), None), to_account (ack_expired (order_of req s)) v1))"

definition book_rested ::
  "'e open_order \<Rightarrow> cash_flow reservation \<Rightarrow> ('e, 'g) venue \<Rightarrow> ('e, 'g) venue option" where
  "book_rested ord r v =
     (case account_book ord (Some r) (vn_account v) of
        (Inl _, _) \<Rightarrow> None
      | (Inr _, st) \<Rightarrow> Some (v\<lparr>vn_account := st\<rparr>))"

definition open_state_new :: "venue_order_id \<Rightarrow> time \<Rightarrow> decimal \<Rightarrow> open_state" where
  "open_state_new i t filled = \<lparr>open_id = i, open_time_exchange = t, open_filled_quantity = filled\<rparr>"

definition waiting_reservation ::
  "rounding \<Rightarrow> settlement \<Rightarrow> commitment \<Rightarrow> margin_effect \<Rightarrow> cash_flow reservation option" where
  "waiting_reservation R s c effect = do {
     amount \<leftarrow> requirement R s;
     borrowed \<leftarrow> shortfall_borrowed R (cmt_committed c);
     Some \<lparr>rv_asset = st_asset s, rv_amount = amount, rv_borrowed = borrowed,
       rv_excess_borrowed = cm_excess_borrowed (cmt_committed c), rv_effect = effect,
       rv_unreported_interest = list_of_option (cmt_interest c)\<rparr>
   }"

definition rest_order ::
  "('e, 'g) venue_config \<Rightarrow> 'e venue_open_request \<Rightarrow> decimal \<Rightarrow> instrument_terms \<Rightarrow> decimal \<Rightarrow> ('e, 'g) venue
     \<Rightarrow> ('e, 'g) opened" where
  "rest_order cfg req limit terms filled_quantity v = do {
     let R = vc_round cfg; let s = ev_state req; let i = key_instrument (ev_key req);
     let t = vn_time_exchange v;
     left \<leftarrow> dec_sub R (ro_quantity s) filled_quantity;
     x \<leftarrow> venue_settlement cfg terms (position_of terms i (vn_positions v)) (ro_side s) left limit Maker;
     d \<leftarrow> reserved_debit R x;
     let effect = venue_margin_effect cfg (ro_margin_effect s);
     (out, v1) \<leftarrow> venue_commit cfg d None effect terms (map_option vm_snapshot (vn_market v i))
       (Some (borrower_arriving req (next_order_id v))) t v;
     (case out of
        Inl e \<Rightarrow> refuse req (Rejected (insufficient_error cfg e (ro_side s))) v1
      | Inr c \<Rightarrow> do {
          let (oid, v2) = order_id_fetch_add v1;
          let op = open_state_new (Assigned oid) t filled_quantity;
          r \<leftarrow> waiting_reservation R x c effect;
          v3 \<leftarrow> book_rested (order_of req op) r v2;
          Some ((order_of req (Active (Open op)), Some (NoteRested (cm_paid (cmt_committed c)))), v3)
        })
   }"

definition hold_estimate ::
  "('e, 'g) venue_config \<Rightarrow> venue_request \<Rightarrow> market_snapshot option \<Rightarrow> (decimal \<times> liquidity) option option" where
  "hold_estimate cfg s market =
     (let taker = (case market of None \<Rightarrow> Some None | Some m \<Rightarrow> vc_fill_model cfg (ro_side s) (ro_quantity s) m)
      in case request_limit s of
           Some limit \<Rightarrow>
             if \<not> post_only (ro_time_in_force s) \<and>
               (case market of None \<Rightarrow> False | Some m \<Rightarrow> crosses (ro_side s) limit m) then do {
               p \<leftarrow> taker;
               Some (Some (clamp_to_limit (ro_side s) (case p of None \<Rightarrow> limit | Some x \<Rightarrow> x) limit, Taker))
             }
             else Some (Some (limit, Maker))
         | None \<Rightarrow> do { p \<leftarrow> taker; Some (map_option (\<lambda>x. (x, Taker)) p) })"

definition hold_on_arrival ::
  "('e, 'g) venue_config \<Rightarrow> 'e venue_open_request \<Rightarrow> market_snapshot option \<Rightarrow> instrument_terms \<Rightarrow> ('e, 'g) venue
     \<Rightarrow> ('e, 'g) opened" where
  "hold_on_arrival cfg req market terms v =
     (let R = vc_round cfg; s = ev_state req; i = key_instrument (ev_key req) in
      if (case vc_market_order_timing cfg of NextBar _ \<Rightarrow> True | OnArrival \<Rightarrow> False) \<and>
        Option.bind (vn_market v i) vm_bar = None then
        refuse req (Rejected (OrderRejected ''cannot hold for the next bar: this venue has been fed no bar'')) v
      else do {
        est \<leftarrow> hold_estimate cfg s market;
        (case est of
           None \<Rightarrow> refuse req (Rejected (OrderRejected ''cannot price: no market price available yet'')) v
         | Some (price, l) \<Rightarrow> do {
             let t = vn_time_exchange v;
             x \<leftarrow> venue_settlement cfg terms (position_of terms i (vn_positions v)) (ro_side s) (ro_quantity s) price l;
             d \<leftarrow> reserved_debit R x;
             let effect = venue_margin_effect cfg (ro_margin_effect s);
             (out, v1) \<leftarrow> venue_commit cfg d None effect terms market
               (Some (borrower_arriving req (next_order_id v))) t v;
             (case out of
                Inl e \<Rightarrow> refuse req (Rejected (insufficient_error cfg e (ro_side s))) v1
              | Inr c \<Rightarrow> do {
                  let (oid, v2) = order_id_fetch_add v1;
                  let op = open_state_new (Assigned oid) t 0;
                  let ord = (order_of req op)\<lparr>o_price := request_limit s\<rparr>;
                  r \<leftarrow> waiting_reservation R x c effect;
                  (case account_hold ord (Some r) (vn_account v2) of
                     (Inl _, _) \<Rightarrow> None
                   | (Inr _, st) \<Rightarrow> Some ((map_state (\<lambda>op. Active (Open op)) ord,
                       Some (NoteRested (cm_paid (cmt_committed c)))), v2\<lparr>vn_account := st\<rparr>))
                })
           })
      })"

section \<open>An order that trades on arrival\<close>

definition retire_filled ::
  "('e, 'g) venue_config \<Rightarrow> 'e venue_open_request \<Rightarrow> order_id \<Rightarrow> decimal \<Rightarrow> decimal \<Rightarrow> settlement option
     \<Rightarrow> committed \<Rightarrow> time \<Rightarrow> ('e, 'g) venue
     \<Rightarrow> ((asset_name, instrument_name) order_state \<times> ('e, 'g) venue) option" where
  "retire_filled cfg req oid quantity price held c t v =
     (let R = vc_round cfg; s = ev_state req in
      case held of
        Some h \<Rightarrow> do {
          let op = open_state_new (Assigned oid) t quantity;
          need \<leftarrow> requirement R h;
          borrowed \<leftarrow> shortfall_borrowed R c;
          v1 \<leftarrow> book_rested (order_of req op) \<lparr>rv_asset = st_asset h, rv_amount = need, rv_borrowed = min borrowed need,
            rv_excess_borrowed = cm_excess_borrowed c, rv_effect = venue_margin_effect cfg (ro_margin_effect s),
            rv_unreported_interest = []\<rparr> v;
          Some (Active (Open op), v1)
        }
      | None \<Rightarrow>
          if quantity = ro_quantity s then
            (let f = \<lparr>filled_id = oid, filled_time_exchange = t, filled_filled_quantity = ro_quantity s,
               filled_avg_price = Some price\<rparr>
             in Some (Inactive (FullyFilled f), to_account (ack_filled (order_of req f)) v))
          else
            (let e = ended_on_arrival oid t quantity
             in Some (Inactive (Cancelled e), to_account (ack_cancelled (order_of req e)) v)))"

definition venue_slip :: "('e, 'g) venue_config \<Rightarrow> side \<Rightarrow> decimal \<Rightarrow> ('e, 'g) venue \<Rightarrow> (decimal \<times> ('e, 'g) venue) option" where
  "venue_slip cfg sd reference v = do {
     (p, s) \<leftarrow> slippage_apply (vc_round cfg) (vc_round_rate cfg) (vc_next_u64 cfg) sd reference (vn_slippage v);
     Some (p, v\<lparr>vn_slippage := s\<rparr>)
   }"

definition held_remainder ::
  "('e, 'g) venue_config \<Rightarrow> instrument_terms \<Rightarrow> net_position \<Rightarrow> side \<Rightarrow> (decimal \<times> decimal) option \<Rightarrow> decimal
     \<Rightarrow> decimal \<Rightarrow> settlement option option" where
  "held_remainder cfg terms p sd fill unfilled limit =
     (if 0 < unfilled then do {
        p' \<leftarrow> (case fill of None \<Rightarrow> Some p | Some (quantity, price) \<Rightarrow> np_after (vc_round cfg) sd quantity price p);
        x \<leftarrow> venue_settlement cfg terms p' sd unfilled limit Maker;
        Some (Some x)
      }
      else Some None)"

definition arrival_trade ::
  "'e venue_open_request \<Rightarrow> trade_id \<Rightarrow> order_id \<Rightarrow> decimal \<Rightarrow> decimal \<Rightarrow> asset_name asset_fees \<Rightarrow> time
     \<Rightarrow> (asset_name, instrument_name) trade" where
  "arrival_trade req i oid quantity price fees t = \<lparr>tr_id = i, tr_order_id = oid,
     tr_instrument = key_instrument (ev_key req), tr_strategy = key_strategy (ev_key req), tr_time_exchange = t,
     tr_side = ro_side (ev_state req), tr_price = price, tr_quantity = quantity,
     tr_order_filled_quantity = Some quantity, tr_fees = fees, tr_origin = OriginOrder, tr_position_side = None,
     tr_client_order_id = Some (key_cid (ev_key req)), tr_time_source = SourceVenue\<rparr>"

definition aggress ::
  "('e, 'g) venue_config \<Rightarrow> 'e venue_open_request \<Rightarrow> market_snapshot \<Rightarrow> instrument_terms \<Rightarrow> remainder
     \<Rightarrow> decimal \<Rightarrow> decimal \<Rightarrow> decimal \<Rightarrow> ('e, 'g) venue \<Rightarrow> ('e, 'g) opened" where
  "aggress cfg req market terms rem reference filled unfilled v = do {
     let R = vc_round cfg; let s = ev_state req; let i = key_instrument (ev_key req);
     let sd = ro_side s; let t = vn_time_exchange v;
     (slipped, v1) \<leftarrow> venue_slip cfg sd reference v;
     let price = (case request_limit s of None \<Rightarrow> slipped | Some limit \<Rightarrow> clamp_to_limit sd slipped limit);
     let p = position_of terms i (vn_positions v1);
     fill \<leftarrow> fill_settlement cfg v1 terms p sd filled price Taker;
     held \<leftarrow> (case rem of
         RemainderRest limit \<Rightarrow> held_remainder cfg terms p sd (Some (filled, price)) unfilled limit
       | _ \<Rightarrow> Some None);
     d \<leftarrow> (case held of Some h \<Rightarrow> settled_holding R h fill | None \<Rightarrow> Some (settled_debit fill));
     let effect = venue_margin_effect cfg (ro_margin_effect s);
     (out, v2) \<leftarrow> venue_commit cfg d (Some (st_credit fill)) effect terms (Some market)
       (Some (borrower_arriving req (next_order_id v1))) t v1;
     (case out of
        Inl e \<Rightarrow> refuse req (Rejected (insufficient_error cfg e sd)) (v2\<lparr>vn_slippage := vn_slippage v\<rparr>)
      | Inr c0 \<Rightarrow> do {
          (c, v3) \<leftarrow> take_fee_apart cfg fill c0 t v2;
          v4 \<leftarrow> consume_depth cfg i sd filled v3;
          v5 \<leftarrow> venue_record_fill cfg terms i sd filled price v4;
          let (oid, v6) = order_id_fetch_add v5;
          let (tid, v7) = trade_id_fetch_add v6;
          let tr = arrival_trade req tid oid filled price (st_fees fill) t;
          (state, v8) \<leftarrow> retire_filled cfg req oid filled price held (cmt_committed c) t (to_account (ack_trade tr) v7);
          Some ((order_of req state, Some (NoteFilled c tr)), v8)
        })
   }"

definition fill_on_arrival ::
  "('e, 'g) venue_config \<Rightarrow> 'e venue_open_request \<Rightarrow> market_snapshot option \<Rightarrow> instrument_terms \<Rightarrow> remainder
     \<Rightarrow> ('e, 'g) venue \<Rightarrow> ('e, 'g) opened" where
  "fill_on_arrival cfg req market terms rem v = do {
     let R = vc_round cfg; let s = ev_state req; let i = key_instrument (ev_key req);
     let m = (case market of None \<Rightarrow> vm_snapshot venue_market_default | Some x \<Rightarrow> x);
     modelled \<leftarrow> vc_fill_model cfg (ro_side s) (ro_quantity s) m;
     (case or_else modelled (request_limit s) of
        None \<Rightarrow> refuse req (Rejected (OrderRejected
          (if market \<noteq> None then ''cannot price: no market price available yet''
           else ''cannot price: the request carried no market snapshot''))) v
      | Some reference \<Rightarrow> do {
          let filled = capped_by (ro_quantity s) (depth_available i (ro_side s) v);
          unfilled \<leftarrow> dec_sub R (ro_quantity s) filled;
          if filled \<le> 0 \<or> (0 < unfilled \<and> rem = RemainderKill) then
            (case rem of
               RemainderRest limit \<Rightarrow> rest_order cfg req limit terms 0 v
             | _ \<Rightarrow> cancel_on_arrival req (vn_time_exchange v) v)
          else aggress cfg req m terms rem reference filled unfilled v
        })
   }"

section \<open>An order arriving\<close>

text \<open>
  Whether the stale-market policy stops the order here: \<open>Some None\<close> lets it go on, \<open>Some (Some out)\<close>
  is the answer.
\<close>

definition stale_gate ::
  "('e, 'g) venue_config \<Rightarrow> 'e venue_open_request \<Rightarrow> market_snapshot option \<Rightarrow> instrument_terms \<Rightarrow> ('e, 'g) venue
     \<Rightarrow> ('e, 'g) opened option" where
  "stale_gate cfg req market terms v =
     (let s = ev_state req; now = vn_time_exchange v in
      case vc_stale_market cfg of
        StaleOff \<Rightarrow> None
      | StaleWait max_age \<Rightarrow>
          if (case ro_time_in_force s of GoodTillDate expiry \<Rightarrow> expiry \<le> now | _ \<Rightarrow> False) then None
          else (case market_age cfg (key_instrument (ev_key req)) max_age now v of
              NoFeed \<Rightarrow> Some (refuse req (Rejected (OrderRejected ''cannot accept: StaleMarketPolicy::Wait needs a market feed'')) v)
            | StaleMarket _ \<Rightarrow>
                if ro_time_in_force s \<in> {ImmediateOrCancel, FillOrKill} then
                  Some (refuse req (Rejected (OrderRejected ''cannot fill: the market is stale'')) v)
                else Some (hold_on_arrival cfg req market terms v)
            | _ \<Rightarrow> None))"

text \<open>What an order does that passed every check.\<close>

definition place_order ::
  "('e, 'g) venue_config \<Rightarrow> 'e venue_open_request \<Rightarrow> market_snapshot option \<Rightarrow> instrument_terms \<Rightarrow> decimal option
     \<Rightarrow> ('e, 'g) venue \<Rightarrow> ('e, 'g) opened" where
  "place_order cfg req market terms limit v =
     (let s = ev_state req; now = vn_time_exchange v in
      case limit of
        None \<Rightarrow>
          (case order_disposition (ro_kind s) (ro_time_in_force s) True now of
             FillAndCancel \<Rightarrow>
               (case vc_market_order_timing cfg of
                  NextBar _ \<Rightarrow> hold_on_arrival cfg req market terms v
                | OnArrival \<Rightarrow> fill_on_arrival cfg req market terms RemainderCancel v)
           | FillOrNothing \<Rightarrow>
               (case vc_market_order_timing cfg of
                  NextBar _ \<Rightarrow> hold_on_arrival cfg req market terms v
                | OnArrival \<Rightarrow> fill_on_arrival cfg req market terms RemainderKill v)
           | Expire \<Rightarrow> expire_on_arrival req now v
           | _ \<Rightarrow> cancel_on_arrival req now v)
      | Some l \<Rightarrow>
          let marketable = (case market of None \<Rightarrow> False | Some m \<Rightarrow> crosses (ro_side s) l m) in
          (case order_disposition (ro_kind s) (ro_time_in_force s) marketable now of
             FillAndRest \<Rightarrow> fill_on_arrival cfg req market terms (RemainderRest l) v
           | FillAndCancel \<Rightarrow> fill_on_arrival cfg req market terms RemainderCancel v
           | FillOrNothing \<Rightarrow> fill_on_arrival cfg req market terms RemainderKill v
           | RestOrder \<Rightarrow> rest_order cfg req l terms 0 v
           | CancelUnfilled \<Rightarrow> cancel_on_arrival req now v
           | Expire \<Rightarrow> expire_on_arrival req now v))"

definition open_order_inner ::
  "('e, 'g) venue_config \<Rightarrow> 'e venue_open_request \<Rightarrow> market_snapshot option \<Rightarrow> ('e, 'g) venue \<Rightarrow> ('e, 'g) opened" where
  "open_order_inner cfg req market v =
     (let s = ev_state req; i = key_instrument (ev_key req) in
      case validate_order_kind_supported (vc_regime cfg) (ro_kind s) of
        Inl e \<Rightarrow> refuse req e v
      | Inr _ \<Rightarrow>
      (case validate_time_in_force_supported (ro_kind s) (ro_time_in_force s) of
        Inl e \<Rightarrow> refuse req e v
      | Inr _ \<Rightarrow>
      if ro_quantity s \<le> 0 then refuse req (Rejected (OrderRejected ''cannot open: quantity is not positive'')) v
      else
      (case terms_of (vc_instruments cfg) i of
        Inl e \<Rightarrow> refuse req (Rejected e) v
      | Inr terms \<Rightarrow>
      (case refused_margin_effect cfg (ro_margin_effect s) terms of
        Some e \<Rightarrow> refuse req (UnsupportedMarginEffect e) v
      | None \<Rightarrow>
      if oo_contains (key_cid (ev_key req)) (ac_orders_open (vn_account v)) then
        refuse req (Rejected (DuplicateClientOrderId ''already names a resting order'')) v
      else do {
        checked \<leftarrow> check_shortability cfg req terms market v;
        (case checked of
          Inl e \<Rightarrow> refuse req (Rejected e) v
        | Inr _ \<Rightarrow>
            if ro_kind s = Limit \<and> ro_price s = None then
              refuse req (Rejected (OrderRejected ''cannot open: OrderKind::Limit carries no limit price'')) v
            else (case stale_gate cfg req market terms v of
                Some out \<Rightarrow> out
              | None \<Rightarrow> place_order cfg req market terms (request_limit s) v))
      }))))"

section \<open>Debts reported\<close>

definition debt_kind :: "margin_details \<Rightarrow> margin_details \<Rightarrow> margin_debt_kind" where
  "debt_kind before debt =
     (if md_borrowed before < md_borrowed debt then DebtBorrow
      else if md_borrowed debt < md_borrowed before \<or> md_interest debt < md_interest before then DebtRepay
      else DebtInterest)"

fun follow_debts ::
  "('e, 'g) venue_config \<Rightarrow> 'e account_event list \<Rightarrow> (asset_name \<rightharpoonup> margin_details)
     \<Rightarrow> 'e account_event list \<times> (asset_name \<rightharpoonup> margin_details)" where
  "follow_debts cfg [] reported = ([], reported)"
| "follow_debts cfg (e # es) reported =
     (case ae_kind e of
        BalanceSnapshot ab \<Rightarrow>
          (case bl_margin (ab_balance ab) of
             None \<Rightarrow> (case follow_debts cfg es reported of (es', r) \<Rightarrow> (e # es', r))
           | Some debt \<Rightarrow>
               let before = (case reported (ab_asset ab) of None \<Rightarrow> margin_details_default | Some m \<Rightarrow> m);
                   rest = follow_debts cfg es (reported(ab_asset ab \<mapsto> debt));
                   k = debt_kind before debt;
                   update = build_account_event cfg (MarginDebtEvent \<lparr>du_asset = ab_asset ab, du_instrument = None,
                     du_debt = debt, du_kind = k, du_venue_kind = debt_kind_name k,
                     du_time_exchange = ab_time_exchange ab\<rparr>)
               in (if before = debt then e # fst rest else e # update # fst rest, snd rest))
      | _ \<Rightarrow> (case follow_debts cfg es reported of (es', r) \<Rightarrow> (e # es', r)))"

definition report_debt_changes ::
  "('e, 'g) venue_config \<Rightarrow> 'e account_event list \<Rightarrow> ('e, 'g) venue \<Rightarrow> 'e account_event list \<times> ('e, 'g) venue" where
  "report_debt_changes cfg es v =
     (if vc_spot_margin cfg = None then (es, v)
      else case follow_debts cfg es (vn_reported_debt v) of (es', r) \<Rightarrow> (es', v\<lparr>vn_reported_debt := r\<rparr>))"

text \<open>How every input of the venue ends.\<close>

definition close_input ::
  "('e, 'g) venue_config \<Rightarrow> 'e account_event list \<Rightarrow> ('e, 'g) venue \<Rightarrow> ('e account_event list \<times> ('e, 'g) venue) option" where
  "close_input cfg es v = do {
     v1 \<leftarrow> refresh_next_interest_if_loans_changed cfg v;
     Some (report_debt_changes cfg es v1)
   }"

section \<open>The requests of a client\<close>

definition venue_open_order ::
  "('e, 'g) venue_config \<Rightarrow> 'e venue_open_request \<Rightarrow> ('e, 'g) venue
     \<Rightarrow> (('e, 'e venue_order) venue_outcome \<times> ('e, 'g) venue) option" where
  "venue_open_order cfg req v = do {
     ((response, note), v1) \<leftarrow> open_order_inner cfg req (pricing_market cfg req v) v;
     let es = (case note of
         Some (NoteFilled c tr) \<Rightarrow> push_committed cfg c (Some tr)
       | Some (NoteRested ab) \<Rightarrow> [build_account_event cfg (BalanceSnapshot ab)]
       | None \<Rightarrow> []);
     (es', v2) \<leftarrow> close_input cfg es v1;
     Some (\<lparr>vo_events = es', vo_response = response\<rparr>, v2)
   }"

definition cancel_missing_reason ::
  "client_order_id \<Rightarrow> ('e, 'g) venue \<Rightarrow> (asset_name, instrument_name) order_error" where
  "cancel_missing_reason c v =
     (if is_filled c (vn_account v) then Rejected OrderAlreadyFullyFilled
      else if is_cancelled c (vn_account v) then Rejected OrderAlreadyCancelled
      else if is_expired c (vn_account v) then Rejected OrderAlreadyExpired
      else Rejected (OrderRejected ''SimulatedVenue is not holding an open order''))"

definition venue_cancel_order ::
  "('e, 'g) venue_config \<Rightarrow> ('e, instrument_name) order_request_cancel \<Rightarrow> ('e, 'g) venue
     \<Rightarrow> (('e, ('e, instrument_name, asset_name) order_response_cancel) venue_outcome \<times> ('e, 'g) venue) option" where
  "venue_cancel_order cfg req v =
     (let c = key_cid (ev_key req); t = vn_time_exchange v in
      case take_order c v of
        (None, v1) \<Rightarrow> Some (\<lparr>vo_events = [],
          vo_response = \<lparr>ev_key = ev_key req, ev_state = Inl (cancel_missing_reason c v1)\<rparr>\<rparr>, v1)
      | (Some r, v1) \<Rightarrow> do {
          let ord = rs_order r;
          (released, v2) \<leftarrow> release_held cfg (rs_reservation r) t v1;
          let es = (case released of
              None \<Rightarrow> []
            | Some x \<Rightarrow> build_account_event cfg (BalanceSnapshot (rl_balance x)) # push_interest cfg (rl_interest x) t);
          (es', v3) \<leftarrow> close_input cfg es v2;
          let cancelled = \<lparr>ended_id = or_client_id (open_id (o_state ord)) (cid_of ord), ended_time_exchange = t,
            ended_filled_quantity = Some (open_filled_quantity (o_state ord))\<rparr>;
          Some (\<lparr>vo_events = es', vo_response = \<lparr>ev_key = ev_key req, ev_state = Inr cancelled\<rparr>\<rparr>,
            to_account (ack_cancelled (map_state (\<lambda>_. cancelled) ord)) v3)
        })"

end
