(* ===== verification/Venue_Matching.thy ===== *)
theory Venue_Matching
  imports Venue_Orders
begin

text \<open>
  What a market does to the orders a simulated venue holds (\<open>exchange/mock/venue.rs\<close>): the resting
  orders it crosses fill at their limit, and the orders held for a bar or a fresh observation are
  released into it. An order the account can no longer pay for is cancelled.
\<close>

section \<open>Resting orders crossed\<close>

definition crossing_orders :: "instrument_name \<Rightarrow> market_snapshot \<Rightarrow> ('e, 'f) account_state \<Rightarrow> client_order_id list" where
  "crossing_orders i m st = concat (map (\<lambda>sd. map (\<lambda>ord. cid_of ord)
       (takeWhile (\<lambda>ord. case o_price ord of None \<Rightarrow> False | Some limit \<Rightarrow> crosses sd limit m)
         (oo_resting i sd (ac_orders_open st)))) [Buy, Sell])"

definition fully_filled_by ::
  "'e open_order \<Rightarrow> order_id \<Rightarrow> time \<Rightarrow> decimal option \<Rightarrow> ('e, instrument_name, filled_state) order" where
  "fully_filled_by ord oid t avg = map_state (\<lambda>_. \<lparr>filled_id = oid, filled_time_exchange = t,
     filled_filled_quantity = o_quantity ord, filled_avg_price = avg\<rparr>) ord"

text \<open>
  One crossing order, already off the book, filled at its limit. The code keeps the limit it read when
  it collected the order; the order taken off the book is the same and carries it.
\<close>

definition fill_crossed ::
  "('e, 'g) venue_config \<Rightarrow> instrument_terms \<Rightarrow> time \<Rightarrow> ('e, cash_flow) resting_order \<Rightarrow> ('e, 'g) venue
     \<Rightarrow> ('e account_event list \<times> ('e, 'g) venue) option" where
  "fill_crossed cfg terms t r v =
     (let ord = rs_order r in
      case o_price ord of
        None \<Rightarrow> None
      | Some limit \<Rightarrow> do {
          remaining \<leftarrow> quantity_remaining (vc_round cfg) (o_state ord) (o_quantity ord);
          s \<leftarrow> fill_settlement cfg v terms (position_of terms (instrument_of ord) (vn_positions v)) (o_side ord)
            remaining limit Maker;
          (out, v1) \<leftarrow> settle_resting cfg ord terms (rs_reservation r) s t v;
          (case out of
             RestingUnaffordable released \<Rightarrow> Some (cancel_unfilled cfg ord released t v1)
           | RestingSettled c0 \<Rightarrow> do {
               (c, v2) \<leftarrow> take_fee_apart cfg s c0 t v1;
               (tr, v3) \<leftarrow> print_fill cfg terms ord remaining limit (st_fees s) t v2;
               let f = fully_filled_by ord (tr_order_id tr) t
                 (if open_filled_quantity (o_state ord) = 0 then Some limit else None);
               Some (push_committed cfg c (Some tr) @
                   [build_account_event cfg (OrderSnapshot (map_state (\<lambda>s. Inactive (FullyFilled s)) f))],
                 to_account (ack_filled f) v3)
             })
        })"

definition match_resting ::
  "('e, 'g) venue_config \<Rightarrow> instrument_name \<Rightarrow> market_snapshot \<Rightarrow> time \<Rightarrow> ('e, 'g) venue
     \<Rightarrow> ('e account_event list \<times> ('e, 'g) venue) option" where
  "match_resting cfg i m t v =
     (let crossing = crossing_orders i m (vn_account v) in
      if crossing = [] then Some ([], v)
      else case terms_of (vc_instruments cfg) i of
          Inl _ \<Rightarrow> None
        | Inr terms \<Rightarrow> each_order (fill_crossed cfg terms t) crossing v)"

section \<open>Held orders released\<close>

definition release_reference :: "release_source \<Rightarrow> side \<Rightarrow> decimal option" where
  "release_reference rel sd = (case rel of ReleaseBar bar price \<Rightarrow> Some (bar_reference price sd bar) | ReleaseMarket _ \<Rightarrow> None)"

definition release_market :: "release_source \<Rightarrow> side \<Rightarrow> market_snapshot" where
  "release_market rel sd = (case rel of
     ReleaseBar bar price \<Rightarrow> from_last_price (Some (bar_reference price sd bar)) | ReleaseMarket m \<Rightarrow> m)"

definition cancel_with ::
  "('e, 'g) venue_config \<Rightarrow> 'e open_order \<Rightarrow> cash_flow reservation option \<Rightarrow> time \<Rightarrow> ('e, 'g) venue
     \<Rightarrow> ('e account_event list \<times> ('e, 'g) venue) option" where
  "cancel_with cfg ord res t v = do {
     (released, v1) \<leftarrow> release_held cfg res t v;
     Some (cancel_unfilled cfg ord released t v1)
   }"

definition fill_held ::
  "('e, 'g) venue_config \<Rightarrow> release_source \<Rightarrow> instrument_terms \<Rightarrow> time \<Rightarrow> ('e, cash_flow) resting_order
     \<Rightarrow> ('e, 'g) venue \<Rightarrow> ('e account_event list \<times> ('e, 'g) venue) option" where
  "fill_held cfg rel terms t r v = do {
     let ord = rs_order r; let res = rs_reservation r; let sd = o_side ord; let i = instrument_of ord;
     quantity \<leftarrow> quantity_remaining (vc_round cfg) (o_state ord) (o_quantity ord);
     modelled \<leftarrow> vc_fill_model cfg sd quantity (release_market rel sd);
     (case or_else modelled (release_reference rel sd) of
        None \<Rightarrow> cancel_with cfg ord res t v
      | Some reference \<Rightarrow>
          let filled = capped_by quantity (depth_available i sd v) in
          if filled \<le> 0 \<or> (filled < quantity \<and> o_time_in_force ord = FillOrKill) then cancel_with cfg ord res t v
          else do {
            (price, v1) \<leftarrow> venue_slip cfg sd reference v;
            s \<leftarrow> fill_settlement cfg v1 terms (position_of terms i (vn_positions v1)) sd filled price Taker;
            (out, v2) \<leftarrow> settle_resting_afresh cfg ord terms res s t v1;
            (case out of
               RestingUnaffordable released \<Rightarrow>
                 Some (cancel_unfilled cfg ord released t (v2\<lparr>vn_slippage := vn_slippage v\<rparr>))
             | RestingSettled c0 \<Rightarrow> do {
                 (c, v3) \<leftarrow> take_fee_apart cfg s c0 t v2;
                 v4 \<leftarrow> consume_depth cfg i sd filled v3;
                 (tr, v5) \<leftarrow> print_fill cfg terms ord filled price (st_fees s) t v4;
                 let (terminal, v6) =
                   (if filled = quantity then
                      (let f = fully_filled_by ord (tr_order_id tr) t (Some price)
                       in (map_state (\<lambda>s. Inactive (FullyFilled s)) f, to_account (ack_filled f) v5))
                    else
                      (let e = map_state (\<lambda>_. ended_on_arrival (tr_order_id tr) t filled) ord
                       in (map_state (\<lambda>s. Inactive (Cancelled s)) e, to_account (ack_cancelled e) v5)));
                 Some (push_committed cfg c (Some tr) @ [build_account_event cfg (OrderSnapshot terminal)], v6)
               })
          })
   }"

text \<open>A released limit order: what it trades, and what that and the rest it leaves cost together.\<close>

definition release_fill ::
  "('e, 'g) venue_config \<Rightarrow> release_source \<Rightarrow> instrument_terms \<Rightarrow> 'e open_order \<Rightarrow> decimal \<Rightarrow> decimal \<Rightarrow> decimal
     \<Rightarrow> ('e, 'g) venue \<Rightarrow> ((decimal \<times> settlement) option \<times> ('e, 'g) venue) option" where
  "release_fill cfg rel terms ord limit quantity filled v =
     (if 0 < filled then do {
        let sd = o_side ord;
        modelled \<leftarrow> vc_fill_model cfg sd quantity (release_market rel sd);
        let reference = (case or_else modelled (release_reference rel sd) of None \<Rightarrow> limit | Some x \<Rightarrow> x);
        (slipped, v1) \<leftarrow> venue_slip cfg sd reference v;
        let price = clamp_to_limit sd slipped limit;
        s \<leftarrow> fill_settlement cfg v1 terms (position_of terms (instrument_of ord) (vn_positions v1)) sd filled price Taker;
        Some (Some (price, s), v1)
      }
      else Some (None, v))"

definition release_debit ::
  "rounding \<Rightarrow> (decimal \<times> settlement) option \<Rightarrow> settlement option \<Rightarrow> (debit \<times> credit option) option" where
  "release_debit R fill held =
     (case (fill, held) of
        (Some (_, f), Some h) \<Rightarrow> do { d \<leftarrow> settled_holding R h f; Some (d, Some (st_credit f)) }
      | (Some (_, f), None) \<Rightarrow> Some (settled_debit f, Some (st_credit f))
      | (None, Some h) \<Rightarrow> do { d \<leftarrow> reserved_debit R h; Some (d, None) }
      | (None, None) \<Rightarrow> None)"

definition release_print ::
  "('e, 'g) venue_config \<Rightarrow> instrument_terms \<Rightarrow> 'e open_order \<Rightarrow> (decimal \<times> settlement) option \<Rightarrow> decimal
     \<Rightarrow> commitment \<Rightarrow> time \<Rightarrow> ('e, 'g) venue
     \<Rightarrow> ((commitment \<times> (asset_name, instrument_name) trade option) \<times> ('e, 'g) venue) option" where
  "release_print cfg terms ord fill filled c t v =
     (case fill of
        None \<Rightarrow> Some ((c, None), v)
      | Some (price, s) \<Rightarrow> do {
          (c', v1) \<leftarrow> take_fee_apart cfg s c t v;
          v2 \<leftarrow> consume_depth cfg (instrument_of ord) (o_side ord) filled v1;
          (tr, v3) \<leftarrow> print_fill cfg terms ord filled price (st_fees s) t v2;
          Some ((c', Some tr), v3)
        })"

definition release_terminal ::
  "('e, 'g) venue_config \<Rightarrow> 'e open_order \<Rightarrow> settlement option \<Rightarrow> margin_effect \<Rightarrow> decimal \<Rightarrow> decimal \<Rightarrow> decimal
     \<Rightarrow> commitment \<Rightarrow> (asset_name, instrument_name) trade option \<Rightarrow> time \<Rightarrow> ('e, 'g) venue
     \<Rightarrow> ((commitment \<times> 'e venue_order) \<times> ('e, 'g) venue) option" where
  "release_terminal cfg ord held effect filled_total loan excess c tr t v =
     (case held of
        Some h \<Rightarrow> do {
          let op = open_state_new (open_id (o_state ord)) t filled_total;
          let rested = map_state (\<lambda>_. op) ord;
          let (unreported, c') = (if tr \<noteq> None then ([], c)
            else (cmt_held_interest c @ list_of_option (cmt_interest c),
              c\<lparr>cmt_held_interest := [], cmt_interest := None\<rparr>));
          need \<leftarrow> requirement (vc_round cfg) h;
          v1 \<leftarrow> book_rested rested \<lparr>rv_asset = st_asset h, rv_amount = need, rv_borrowed = min loan need,
            rv_excess_borrowed = excess, rv_effect = effect, rv_unreported_interest = unreported\<rparr> v;
          Some ((c', map_state (\<lambda>s. Active (Open s)) rested), v1)
        }
      | None \<Rightarrow>
          (case tr of
             None \<Rightarrow> None
           | Some x \<Rightarrow>
               let f = fully_filled_by ord (tr_order_id x) t (Some (tr_price x))
               in Some ((c, map_state (\<lambda>s. Inactive (FullyFilled s)) f), to_account (ack_filled f) v)))"

definition release_held_limit ::
  "('e, 'g) venue_config \<Rightarrow> release_source \<Rightarrow> instrument_terms \<Rightarrow> time \<Rightarrow> decimal \<Rightarrow> ('e, cash_flow) resting_order
     \<Rightarrow> ('e, 'g) venue \<Rightarrow> ('e account_event list \<times> ('e, 'g) venue) option" where
  "release_held_limit cfg rel terms t limit r v = do {
     let R = vc_round cfg; let ord = rs_order r; let res = rs_reservation r; let sd = o_side ord;
     let i = instrument_of ord;
     quantity \<leftarrow> quantity_remaining R (o_state ord) (o_quantity ord);
     let marketable = crosses sd limit (release_market rel sd);
     (if marketable \<and> post_only (o_time_in_force ord) then cancel_with cfg ord res t v
      else do {
        let filled = (if \<not> marketable then 0 else capped_by quantity (depth_available i sd v));
        unfilled \<leftarrow> dec_sub R quantity filled;
        (fill, v1) \<leftarrow> release_fill cfg rel terms ord limit quantity filled v;
        held \<leftarrow> held_remainder cfg terms (position_of terms i (vn_positions v)) sd
          (map_option (\<lambda>(price, _). (filled, price)) fill) unfilled limit;
        (d, credit) \<leftarrow> release_debit R fill held;
        (out, v2) \<leftarrow> commit_afresh cfg ord terms res d credit t v1;
        (case out of
           Unaffordable released \<Rightarrow>
             Some (cancel_unfilled cfg ord released t (v2\<lparr>vn_slippage := vn_slippage v\<rparr>))
         | Recommitted c loan excess \<Rightarrow> do {
             ((c1, tr), v3) \<leftarrow> release_print cfg terms ord fill filled c t v2;
             filled_total \<leftarrow> (if fill = None then Some (open_filled_quantity (o_state ord))
               else dec_add R (open_filled_quantity (o_state ord)) filled);
             ((c2, terminal), v4) \<leftarrow> release_terminal cfg ord held (reservation_effect cfg res) filled_total
               loan excess c1 tr t v3;
             Some (push_committed cfg c2 tr @ [build_account_event cfg (OrderSnapshot terminal)], v4)
           })
      })
   }"

definition release_one ::
  "('e, 'g) venue_config \<Rightarrow> release_source \<Rightarrow> instrument_terms \<Rightarrow> time \<Rightarrow> ('e, cash_flow) resting_order
     \<Rightarrow> ('e, 'g) venue \<Rightarrow> ('e account_event list \<times> ('e, 'g) venue) option" where
  "release_one cfg rel terms t r v =
     (case o_price (rs_order r) of
        Some limit \<Rightarrow> release_held_limit cfg rel terms t limit r v
      | None \<Rightarrow> fill_held cfg rel terms t r v)"

definition venue_release ::
  "('e, 'g) venue_config \<Rightarrow> instrument_name \<Rightarrow> release_source \<Rightarrow> time \<Rightarrow> ('e, 'g) venue
     \<Rightarrow> ('e account_event list \<times> ('e, 'g) venue) option" where
  "venue_release cfg i rel t v =
     (let (held, st) = account_take_held i (vn_account v); v1 = v\<lparr>vn_account := st\<rparr> in
      if held = [] then Some ([], v1)
      else case terms_of (vc_instruments cfg) i of
          Inl _ \<Rightarrow> None
        | Inr terms \<Rightarrow> each_order (release_one cfg rel terms t) held v1)"

definition expire_held ::
  "('e, 'g) venue_config \<Rightarrow> time \<Rightarrow> ('e, 'g) venue \<Rightarrow> ('e account_event list \<times> ('e, 'g) venue) option" where
  "expire_held cfg t v = do {
     let b = ac_orders_open (vn_account v);
     let held = concat (map (\<lambda>i. oo_held_on i b) (names_of (oo_held b)));
     (es, v1) \<leftarrow> each_order (\<lambda>r. retire_expired cfg r t) held v;
     close_input cfg es v1
   }"

section \<open>What an observation does\<close>

definition waits_for_fresh :: "('e, 'g) venue_config \<Rightarrow> bool" where
  "waits_for_fresh cfg = (case vc_stale_market cfg of StaleWait _ \<Rightarrow> True | StaleOff \<Rightarrow> False)"

definition bar_releases :: "('e, 'g) venue_config \<Rightarrow> market_observation \<Rightarrow> bool" where
  "bar_releases cfg obs \<longleftrightarrow> mo_bar obs \<noteq> None \<and> (mo_fresh obs \<or> \<not> waits_for_fresh cfg)"

definition fills_ahead_of ::
  "('e, 'g) venue_config \<Rightarrow> instrument_name \<Rightarrow> market_observation \<Rightarrow> ('e, 'g) venue \<Rightarrow> bool" where
  "fills_ahead_of cfg i obs v \<longleftrightarrow>
     (case vc_market_order_timing cfg of NextBar _ \<Rightarrow> True | OnArrival \<Rightarrow> False) \<and>
     bar_releases cfg obs \<and> oo_holds i (ac_orders_open (vn_account v))"

definition observe_market ::
  "instrument_name \<Rightarrow> market_observation \<Rightarrow> time \<Rightarrow> ('e, 'g) venue \<Rightarrow> ('e, 'g) venue" where
  "observe_market i obs t v =
     (let m = (case vn_market v i of None \<Rightarrow> venue_market_default | Some m \<Rightarrow> m);
          m' = m\<lparr>vm_snapshot := mo_snapshot obs, vm_depth := mo_depth obs, vm_time_exchange := t,
            vm_bar := (if mo_bar obs = None then vm_bar m else mo_bar obs),
            vm_fresh_at := (if mo_fresh obs then Some t else vm_fresh_at m)\<rparr>
      in v\<lparr>vn_market := (vn_market v)(i \<mapsto> m')\<rparr>)"

definition record_borrow_price ::
  "('e, 'g) venue_config \<Rightarrow> instrument_name \<Rightarrow> market_snapshot \<Rightarrow> market_bar option \<Rightarrow> time \<Rightarrow> ('e, 'g) venue
     \<Rightarrow> ('e, 'g) venue option" where
  "record_borrow_price cfg i m bar t v =
     (case Option.bind (vc_spot_margin cfg) mc_borrow_price_window of
        None \<Rightarrow> Some v
      | Some window \<Rightarrow>
          if \<not> (case vc_instruments cfg i of None \<Rightarrow> False | Some d \<Rightarrow> vi_kind d = Spot) then Some v
          else do {
            mid \<leftarrow> mid_or_last (vc_round cfg) m;
            let seen = filter (\<lambda>p. 0 < p) (list_of_option mid @ list_of_option (map_option mb_low bar) @
              list_of_option (map_option mb_high bar));
            (case seen of
               [] \<Rightarrow> Some v
             | p # ps \<Rightarrow>
                 let w = (case vn_borrow_prices v i of None \<Rightarrow> price_window_default | Some w \<Rightarrow> w)
                 in Some (v\<lparr>vn_borrow_prices := (vn_borrow_prices v)(i \<mapsto>
                      window_record t (fold min ps p) (fold max ps p) (window_start cfg t window) w)\<rparr>))
          })"

definition act_on_observation ::
  "('e, 'g) venue_config \<Rightarrow> instrument_name \<Rightarrow> market_observation \<Rightarrow> time \<Rightarrow> ('e, 'g) venue
     \<Rightarrow> ('e account_event list \<times> ('e, 'g) venue) option" where
  "act_on_observation cfg i obs t v =
     (let m = mo_snapshot obs; crosses_resting = (mo_fresh obs \<or> \<not> waits_for_fresh cfg);
          matched = (\<lambda>v. if crosses_resting then match_resting cfg i m t v else Some ([], v)) in
      case vc_market_order_timing cfg of
        NextBar price \<Rightarrow> do {
          (es1, v1) \<leftarrow> (case mo_bar obs of
              None \<Rightarrow> Some ([], v)
            | Some bar \<Rightarrow>
                if bar_releases cfg obs then venue_release cfg i (ReleaseBar bar price) t v
                else cancel_held_immediate cfg i t v);
          (es2, v2) \<leftarrow> matched v1;
          Some (es1 @ es2, v2)
        }
      | OnArrival \<Rightarrow> do {
          (es1, v1) \<leftarrow> matched v;
          (es2, v2) \<leftarrow> (if mo_fresh obs \<and> waits_for_fresh cfg then venue_release cfg i (ReleaseMarket m) t v1
            else Some ([], v1));
          Some (es1 @ es2, v2)
        })"

end
