(* ===== verification/Venue_Liquidation.thy ===== *)
theory Venue_Liquidation
  imports Venue_Matching
begin

text \<open>
  The liquidation of a simulated venue's spot margin account and the margin calls before it
  (\<open>rustrade-execution/src/exchange/mock/venue/liquidation.rs\<close>): the check at the end of an input, and
  one pass of cancels, repayments, forced trades and the fee. The unit of a decimal's last digit is a
  property of its third-party representation and a parameter, \<open>vc_last_digit\<close>.
\<close>

section \<open>What is owed\<close>

definition balance_list :: "('e, 'f) account_state \<Rightarrow> name_balance list" where
  "balance_list st = List.map_filter (ac_balances st) (names_of (ac_balances st))"

definition owed_assets :: "rounding \<Rightarrow> ('e, 'f) account_state \<Rightarrow> asset_name list option" where
  "owed_assets R st = filter_map_all
     (\<lambda>ab. do { x \<leftarrow> owed R ab; Some (if 0 < x then Some (ab_asset ab) else None) }) (balance_list st)"

definition owed_of :: "rounding \<Rightarrow> asset_name \<Rightarrow> ('e, 'f) account_state \<Rightarrow> decimal option" where
  "owed_of R a st = (case find (\<lambda>ab. ab_asset ab = a) (balance_list st) of None \<Rightarrow> Some 0 | Some ab \<Rightarrow> owed R ab)"

definition debt_in :: "('e, 'g) venue_config \<Rightarrow> ('e, 'g) venue \<Rightarrow> decimal option" where
  "debt_in cfg v =
     (case vc_spot_margin cfg of
        None \<Rightarrow> Some 0
      | Some c \<Rightarrow> do {
          x \<leftarrow> valued_of cfg v c CheckLiquidation None CurrentPrices;
          Some (case x of None \<Rightarrow> 0 | Some y \<Rightarrow> va_debt y)
        })"

definition notice :: "('e, 'g) venue_config \<Rightarrow> notice_kind \<Rightarrow> decimal option \<Rightarrow> time \<Rightarrow> 'e account_event" where
  "notice cfg k level t = build_account_event cfg (NoticeEvent \<lparr>nt_kind = k, nt_instrument = None,
     nt_time_exchange = t, nt_margin_level = level, nt_status = notice_name k\<rparr>)"

definition delivered :: "credit \<Rightarrow> decimal" where
  "delivered c = (case c of Deliver d \<Rightarrow> dl_amount d | PaidBack _ \<Rightarrow> 0)"

section \<open>Forced trades\<close>

record leg =
  lg_instrument :: instrument_name
  lg_terms :: instrument_terms
  lg_side :: side
  lg_pay :: asset_name
  lg_price :: decimal
  lg_paid_per_unit :: decimal
  lg_delivered_per_unit :: decimal

definition find_leg ::
  "('e, 'g) venue_config \<Rightarrow> asset_name \<Rightarrow> asset_name \<Rightarrow> decimal \<Rightarrow> ('e, 'g) venue \<Rightarrow> (leg option \<times> ('e, 'g) venue) option" where
  "find_leg cfg pay receive want v =
     (case find (\<lambda>p. vn_market v (pr_instrument p) \<noteq> None) (pairs_between (vc_instruments cfg) pay receive) of
        None \<Rightarrow> Some (None, v)
      | Some pair \<Rightarrow>
          let i = pr_instrument pair; sd = (if pr_inverse pair then Buy else Sell) in
          (case (vn_market v i, terms_of (vc_instruments cfg) i) of
             (Some m, Inr terms) \<Rightarrow> do {
               mid \<leftarrow> mid_or_last (vc_round cfg) (vm_snapshot m);
               estimate \<leftarrow> (case (sd, mid) of (Sell, Some x) \<Rightarrow> dec_div (vc_round cfg) want x | _ \<Rightarrow> Some want);
               reference \<leftarrow> vc_fill_model cfg sd estimate (vm_snapshot m);
               (case reference of
                  None \<Rightarrow> Some (None, v)
                | Some x \<Rightarrow> do {
                    (price, v1) \<leftarrow> venue_slip cfg sd x v;
                    if price \<le> 0 then Some (None, v1)
                    else do {
                      one \<leftarrow> fill_settlement cfg v1 terms net_position_default sd 1 price Taker;
                      Some (case st_credit one of
                          PaidBack _ \<Rightarrow> (None, v1)
                        | Deliver d \<Rightarrow>
                            if dl_amount d \<le> 0 \<or> st_amount one \<le> 0 then (None, v1)
                            else (Some \<lparr>lg_instrument = i, lg_terms = terms, lg_side = sd, lg_pay = pay,
                              lg_price = price, lg_paid_per_unit = st_amount one,
                              lg_delivered_per_unit = dl_amount d\<rparr>, v1))
                    }
                  })
             }
           | _ \<Rightarrow> Some (None, v)))"

text \<open>
  At most four tries nudge the quantity by its last digit: the largest affordable one tried is traded.
\<close>

fun nudge ::
  "('e, 'g) venue_config \<Rightarrow> ('e, 'g) venue \<Rightarrow> leg \<Rightarrow> decimal \<Rightarrow> decimal \<Rightarrow> nat
     \<Rightarrow> decimal \<Rightarrow> decimal \<Rightarrow> (decimal \<times> settlement) option \<Rightarrow> (decimal \<times> settlement) option option" where
  "nudge cfg v l want budget 0 quantity cap affordable = Some affordable"
| "nudge cfg v l want budget (Suc n) quantity cap affordable =
     (if quantity \<le> 0 then Some affordable
      else do {
        priced \<leftarrow> fill_settlement cfg v (lg_terms l) net_position_default (lg_side l) quantity (lg_price l) Taker;
        if budget < st_amount priced then do {
          cap' \<leftarrow> dec_sub (vc_round cfg) quantity (vc_last_digit cfg quantity);
          nudge cfg v l want budget n cap' cap' affordable
        }
        else if want \<le> delivered (st_credit priced) then Some (Some (quantity, priced))
        else do {
          next \<leftarrow> dec_add (vc_round cfg) quantity (vc_last_digit cfg quantity);
          if cap < next then Some (Some (quantity, priced))
          else nudge cfg v l want budget n next cap (Some (quantity, priced))
        }
      })"

definition forced_trade ::
  "leg \<Rightarrow> trade_id \<Rightarrow> order_id \<Rightarrow> decimal \<Rightarrow> asset_name asset_fees \<Rightarrow> time \<Rightarrow> (asset_name, instrument_name) trade" where
  "forced_trade l i oid quantity fees t = \<lparr>tr_id = i, tr_order_id = oid, tr_instrument = lg_instrument l,
     tr_strategy = ''unknown'', tr_time_exchange = t, tr_side = lg_side l, tr_price = lg_price l,
     tr_quantity = quantity, tr_order_filled_quantity = Some quantity, tr_fees = fees,
     tr_origin = OriginLiquidation, tr_position_side = None, tr_client_order_id = None,
     tr_time_source = SourceVenue\<rparr>"

type_synonym ('e, 'g) pass = "(decimal \<times> 'e account_event list) \<times> ('e, 'g) venue"

definition fill_leg ::
  "('e, 'g) venue_config \<Rightarrow> leg \<Rightarrow> decimal \<Rightarrow> time \<Rightarrow> ('e, 'g) venue \<Rightarrow> ('e, 'g) pass option" where
  "fill_leg cfg l want t v = do {
     let R = vc_round cfg; let budget = account_free (lg_pay l) (vn_account v);
     whole \<leftarrow> dec_div R budget (lg_paid_per_unit l);
     let cap = capped_by whole (depth_available (lg_instrument l) (lg_side l) v);
     wanted \<leftarrow> dec_div R want (lg_delivered_per_unit l);
     affordable \<leftarrow> nudge cfg v l want budget 4 (min wanted cap) cap None;
     (case affordable of
        None \<Rightarrow> Some ((0, []), v)
      | Some (quantity, s) \<Rightarrow> do {
          (out, v1) \<leftarrow> venue_commit cfg (settled_debit s) (Some (st_credit s)) Repay (lg_terms l) None None t v;
          (case out of
             Inl _ \<Rightarrow> Some ((0, []), v1)
           | Inr c0 \<Rightarrow> do {
               (c, v2) \<leftarrow> take_fee_apart cfg s c0 t v1;
               v3 \<leftarrow> consume_depth cfg (lg_instrument l) (lg_side l) quantity v2;
               let (oid, v4) = order_id_fetch_add v3;
               let (tid, v5) = trade_id_fetch_add v4;
               let tr = forced_trade l tid oid quantity (st_fees s) t;
               Some ((delivered (st_credit s), push_committed cfg c (Some tr)), to_account (ack_trade tr) v5)
             })
        })
   }"

section \<open>One pass\<close>

text \<open>Sells assets in the order of their names until \<open>need\<close> of the valuation asset is raised.\<close>

fun raise_from ::
  "('e, 'g) venue_config \<Rightarrow> asset_name \<Rightarrow> time \<Rightarrow> asset_name list \<Rightarrow> decimal
     \<Rightarrow> ('e, 'g) venue \<Rightarrow> ('e account_event list \<times> ('e, 'g) venue) option" where
  "raise_from cfg valuation t [] need v = Some ([], v)"
| "raise_from cfg valuation t (a # as) need v =
     (if need \<le> 0 then Some ([], v)
      else do {
        (l, v1) \<leftarrow> find_leg cfg a valuation need v;
        (case l of
           None \<Rightarrow> raise_from cfg valuation t as need v1
         | Some l' \<Rightarrow> do {
             ((got, es), v2) \<leftarrow> fill_leg cfg l' need t v1;
             need' \<leftarrow> dec_sub (vc_round cfg) need got;
             (es', v3) \<leftarrow> raise_from cfg valuation t as need' v2;
             Some (es @ es', v3)
           })
      })"

definition raise ::
  "('e, 'g) venue_config \<Rightarrow> asset_name \<Rightarrow> decimal \<Rightarrow> time \<Rightarrow> ('e, 'g) venue
     \<Rightarrow> ('e account_event list \<times> ('e, 'g) venue) option" where
  "raise cfg valuation need t v =
     raise_from cfg valuation t
       (map ab_asset (filter (\<lambda>ab. ab_asset ab \<noteq> valuation \<and> 0 < bl_free (ab_balance ab)) (balance_list (vn_account v))))
       need v"

definition buy_back ::
  "('e, 'g) venue_config \<Rightarrow> asset_name \<Rightarrow> time \<Rightarrow> asset_name \<Rightarrow> ('e, 'g) venue
     \<Rightarrow> ('e account_event list \<times> ('e, 'g) venue) option" where
  "buy_back cfg valuation t asset v = do {
     let R = vc_round cfg;
     due \<leftarrow> owed_of R asset (vn_account v);
     if due \<le> 0 then Some ([], v)
     else do {
       (l, v1) \<leftarrow> find_leg cfg valuation asset due v;
       (case l of
          None \<Rightarrow> Some ([], v1)
        | Some l' \<Rightarrow> do {
            units \<leftarrow> dec_div R due (lg_delivered_per_unit l');
            cost \<leftarrow> dec_mul R units (lg_paid_per_unit l');
            short \<leftarrow> dec_sub R cost (account_free valuation (vn_account v1));
            (es, v2) \<leftarrow> raise cfg valuation short t v1;
            ((_, es'), v3) \<leftarrow> fill_leg cfg l' due t v2;
            Some (es @ es', v3)
          })
     }
   }"

definition charge_liquidation_fee ::
  "('e, 'g) venue_config \<Rightarrow> asset_name \<Rightarrow> decimal \<Rightarrow> decimal \<Rightarrow> decimal \<Rightarrow> time
     \<Rightarrow> ('e, 'g) venue \<Rightarrow> ('e account_event list \<times> ('e, 'g) venue) option" where
  "charge_liquidation_fee cfg valuation fee rate repaid t v = do {
     let R = vc_round cfg;
     short \<leftarrow> dec_sub R fee (account_free valuation (vn_account v));
     (es, v1) \<leftarrow> raise cfg valuation short t v;
     (ab, v2) \<leftarrow> on_account (deliver R \<lparr>dl_asset = valuation, dl_amount = - fee\<rparr> NoSideEffect t) v1;
     let (i, v3) = cash_flow_id_fetch_add v2;
     Some (es @ [build_account_event cfg (BalanceSnapshot ab),
       build_account_event cfg (CashFlowEvent (cash_flow_new (LiquidationFee (Some rate) (Some repaid)) valuation
         (- fee) None t (Some i)))], v3)
   }"

text \<open>A step of a pass for each of several assets, the events in order.\<close>

fun each_asset ::
  "(asset_name \<Rightarrow> ('e, 'g) venue \<Rightarrow> ('e account_event list \<times> ('e, 'g) venue) option) \<Rightarrow> asset_name list
     \<Rightarrow> ('e, 'g) venue \<Rightarrow> ('e account_event list \<times> ('e, 'g) venue) option" where
  "each_asset f [] v = Some ([], v)"
| "each_asset f (a # as) v = do {
     (es, v1) \<leftarrow> f a v;
     (es', v2) \<leftarrow> each_asset f as v1;
     Some (es @ es', v2)
   }"

definition repay_from_free ::
  "('e, 'g) venue_config \<Rightarrow> time \<Rightarrow> asset_name \<Rightarrow> ('e, 'g) venue \<Rightarrow> ('e account_event list \<times> ('e, 'g) venue) option" where
  "repay_from_free cfg t a v =
     (if 0 < account_free a (vn_account v) then do {
        due \<leftarrow> owed_of (vc_round cfg) a (vn_account v);
        (ab, v1) \<leftarrow> on_account (repay_loan (vc_round cfg) a due t) v;
        Some ([build_account_event cfg (BalanceSnapshot ab)], v1)
      }
      else Some ([], v))"

definition start_liquidation ::
  "('e, 'g) venue_config \<Rightarrow> decimal \<Rightarrow> time \<Rightarrow> ('e, 'g) venue \<Rightarrow> 'e account_event list \<times> ('e, 'g) venue" where
  "start_liquidation cfg level t v =
     (if lq_under_way (vn_liquidation v) then ([], v)
      else ([notice cfg LiquidationNotice (Some level) t],
        v\<lparr>vn_liquidation := \<lparr>lq_under_way = True, lq_margin_called = False\<rparr>\<rparr>))"

definition cancel_every_order ::
  "('e, 'g) venue_config \<Rightarrow> time \<Rightarrow> ('e, 'g) venue \<Rightarrow> ('e account_event list \<times> ('e, 'g) venue) option" where
  "cancel_every_order cfg t v =
     each_order (cancel_resting cfg t) (names_of (oo_by_id (ac_orders_open (vn_account v)))) v"

definition liquidate ::
  "('e, 'g) venue_config \<Rightarrow> margin_liquidation \<Rightarrow> asset_name \<Rightarrow> decimal \<Rightarrow> time
     \<Rightarrow> ('e, 'g) venue \<Rightarrow> ('e account_event list \<times> ('e, 'g) venue) option" where
  "liquidate cfg lq valuation level t v = do {
     let R = vc_round cfg; let (es0, v0) = start_liquidation cfg level t v;
     (es1, v1) \<leftarrow> cancel_every_order cfg t v0;
     debt_before \<leftarrow> debt_in cfg v1;
     due1 \<leftarrow> owed_assets R (vn_account v1);
     (es2, v2) \<leftarrow> each_asset (repay_from_free cfg t) due1 v1;
     need \<leftarrow> owed_of R valuation (vn_account v2);
     (es3, v3) \<leftarrow> raise cfg valuation need t v2;
     due3 \<leftarrow> owed_assets R (vn_account v3);
     (es4, v4) \<leftarrow> each_asset (buy_back cfg valuation t) (filter (\<lambda>a. a \<noteq> valuation) due3) v3;
     debt_after \<leftarrow> debt_in cfg v4;
     x \<leftarrow> dec_sub R debt_before debt_after;
     let repaid = max x 0;
     fee \<leftarrow> dec_mul R (ml_fee_rate lq) repaid;
     (es5, v5) \<leftarrow> (if 0 < fee then charge_liquidation_fee cfg valuation fee (ml_fee_rate lq) repaid t v4
       else Some ([], v4));
     left \<leftarrow> owed_assets R (vn_account v5);
     Some (es0 @ es1 @ es2 @ es3 @ es4 @ es5,
       if left = [] then v5\<lparr>vn_liquidation := (vn_liquidation v5)\<lparr>lq_under_way := False\<rparr>\<rparr> else v5)
   }"

section \<open>The check\<close>

definition check_margin_call ::
  "('e, 'g) venue_config \<Rightarrow> margin_liquidation \<Rightarrow> decimal \<Rightarrow> time \<Rightarrow> ('e, 'g) venue \<Rightarrow> 'e account_event list \<times> ('e, 'g) venue" where
  "check_margin_call cfg lq level t v =
     (case ml_margin_call_level lq of
        None \<Rightarrow> ([], v)
      | Some call \<Rightarrow>
          let called = (level \<le> call) in
          if called = lq_margin_called (vn_liquidation v) then ([], v)
          else ([notice cfg (if called then MarginCall else MarginRestored) (Some level) t],
            v\<lparr>vn_liquidation := (vn_liquidation v)\<lparr>lq_margin_called := called\<rparr>\<rparr>))"

definition clear_liquidation ::
  "('e, 'g) venue_config \<Rightarrow> time \<Rightarrow> ('e, 'g) venue \<Rightarrow> 'e account_event list \<times> ('e, 'g) venue" where
  "clear_liquidation cfg t v =
     (if lq_margin_called (vn_liquidation v) then [notice cfg MarginRestored None t] else [],
      v\<lparr>vn_liquidation := \<lparr>lq_under_way = False, lq_margin_called = False\<rparr>\<rparr>)"

definition check_margin ::
  "('e, 'g) venue_config \<Rightarrow> time \<Rightarrow> ('e, 'g) venue
     \<Rightarrow> ('e account_event list \<times> ('e, 'g) venue) option" where
  "check_margin cfg t v =
     (case vc_spot_margin cfg of
        None \<Rightarrow> Some ([], v)
      | Some c \<Rightarrow> (case mc_liquidation c of
          None \<Rightarrow> Some ([], v)
        | Some lq \<Rightarrow> do {
            due \<leftarrow> owed_assets (vc_round cfg) (vn_account v);
            if due = [] then Some (clear_liquidation cfg t v)
            else do {
              x \<leftarrow> valued_of cfg v c CheckLiquidation None CurrentPrices;
              (case x of
                 None \<Rightarrow> Some ([], v)
               | Some y \<Rightarrow>
                   if va_debt y \<le> 0 then Some ([], v)
                   else do {
                     s \<leftarrow> dec_add (vc_round cfg) (va_equity y) (va_debt y);
                     level \<leftarrow> dec_div (vc_round cfg) s (va_debt y);
                     if lq_under_way (vn_liquidation v) \<or> level \<le> ml_level lq
                     then liquidate cfg lq (mc_valuation_asset c) level t v
                     else Some (check_margin_call cfg lq level t v)
                   })
            }
          }))"

end
