(* ===== verification/Venue_Clock.thy ===== *)
theory Venue_Clock
  imports Venue_Liquidation
begin

text \<open>
  The clock of a simulated venue (\<open>exchange/mock/venue.rs\<close>): the carry and the interest charged at
  each boundary it crosses, and its two inputs that move it, an instant and a market. The search for
  boundaries loops for as long as a model the venue was given says, so it is a partial function: its
  outer \<open>None\<close> is a loop that never ends, its inner one a panic.
\<close>

section \<open>Boundaries\<close>

partial_function (option) boundaries_from ::
  "(time \<Rightarrow> time option option) \<Rightarrow> time \<Rightarrow> time \<Rightarrow> time list option option" where
  "boundaries_from next through b =
     (case checked_boundary next b of
        None \<Rightarrow> Some None
      | Some n \<Rightarrow>
          if b \<le> through then
            (case n of
               None \<Rightarrow> Some (Some [b])
             | Some b' \<Rightarrow> Option.bind (boundaries_from next through b') (\<lambda>bs. Some (map_option ((#) b) bs)))
          else Some (Some []))"

definition boundaries_through :: "time \<Rightarrow> time \<Rightarrow> (time \<Rightarrow> time option option) \<Rightarrow> time list option option" where
  "boundaries_through after through next =
     (case checked_boundary next after of
        None \<Rightarrow> Some None
      | Some None \<Rightarrow> Some (Some [])
      | Some (Some b) \<Rightarrow> boundaries_from next through b)"

text \<open>What falls due, in the order it is charged: by boundary, the carry before the interest.\<close>

datatype due_charge = DueHolding instrument_name nat | DueInterest asset_name decimal

fun due_key :: "time \<times> due_charge \<Rightarrow> time \<times> nat \<times> string \<times> nat" where
  "due_key (t, DueHolding i n) = (t, 0, i, n)"
| "due_key (t, DueInterest a _) = (t, 1, a, 0)"

fun all_due :: "('x \<Rightarrow> time list option option) \<Rightarrow> ('x \<Rightarrow> due_charge) \<Rightarrow> 'x list \<Rightarrow> (time \<times> due_charge) list option" where
  "all_due f d [] = Some []"
| "all_due f d (x # xs) = do {
     r \<leftarrow> f x;
     bs \<leftarrow> r;
     rest \<leftarrow> all_due f d xs;
     Some (map (\<lambda>b. (b, d x)) bs @ rest)
   }"

definition holding_due ::
  "('e, 'g) venue_config \<Rightarrow> time \<Rightarrow> time \<Rightarrow> ('e, 'g) venue \<Rightarrow> (time \<times> due_charge) list option" where
  "holding_due cfg after now v = all_due
     (\<lambda>(i, n). boundaries_through after now (hm_next_boundary (vc_holding_costs cfg ! n) i))
     (\<lambda>(i, n). DueHolding i n)
     (List.product (names_of (vn_positions v)) [0..<length (vc_holding_costs cfg)])"

definition interest_due_list ::
  "('e, 'g) venue_config \<Rightarrow> time \<Rightarrow> time \<Rightarrow> ('e, 'g) venue \<Rightarrow> (time \<times> due_charge) list option" where
  "interest_due_list cfg after now v =
     (case vc_margin_interest cfg of
        None \<Rightarrow> Some []
      | Some m \<Rightarrow> all_due (\<lambda>(a, _). boundaries_through after now (im_next_boundary m a))
          (\<lambda>(a, p). DueInterest a p) (loans_of (vn_account v)))"

section \<open>Charges\<close>

definition charge_interest_boundary ::
  "('e, 'g) venue_config \<Rightarrow> time \<Rightarrow> asset_name \<Rightarrow> decimal \<Rightarrow> ('e, 'g) venue
     \<Rightarrow> ('e account_event list \<times> ('e, 'g) venue) option" where
  "charge_interest_boundary cfg boundary a amount v = do {
     (charged, v1) \<leftarrow> venue_charge_interest cfg a amount (InterestAtBoundary boundary) v;
     Some (case charged of
         None \<Rightarrow> []
       | Some (ab, flow) \<Rightarrow> [build_account_event cfg (BalanceSnapshot ab), build_account_event cfg (CashFlowEvent flow)], v1)
   }"

definition valuation_price ::
  "('e, 'g) venue_config \<Rightarrow> instrument_name \<Rightarrow> net_position \<Rightarrow> ('e, 'g) venue \<Rightarrow> decimal option" where
  "valuation_price cfg i p v = do {
     price \<leftarrow> (case vn_market v i of None \<Rightarrow> Some None | Some m \<Rightarrow> mid_or_last (vc_round cfg) (vm_snapshot m));
     Some (case price of None \<Rightarrow> np_entry p | Some x \<Rightarrow> x)
   }"

definition charge_holding_cost ::
  "('e, 'g) venue_config \<Rightarrow> time \<Rightarrow> instrument_name \<Rightarrow> nat \<Rightarrow> ('e, 'g) venue
     \<Rightarrow> ('e account_event list \<times> ('e, 'g) venue) option" where
  "charge_holding_cost cfg boundary i n v =
     (case (vn_positions v i, vc_instruments cfg i) of
        (Some p, Some d) \<Rightarrow> do {
          price \<leftarrow> valuation_price cfg i p v;
          let quote = un_quote (vi_underlying d);
          let held = \<lparr>hp_instrument = i, hp_quantity = np_quantity p,
            hp_contract_size = kind_contract_size (vi_kind d), hp_entry_price = np_entry p, hp_price = price\<rparr>;
          charged \<leftarrow> hm_charge (vc_holding_costs cfg ! n) held boundary;
          (case charged of
             None \<Rightarrow> Some ([], v)
           | Some c \<Rightarrow>
               if hc_amount c = 0 then Some ([], v)
               else do {
                 (ab, v1) \<leftarrow> on_account (charge (vc_round cfg) quote (hc_amount c) boundary) v;
                 let (k, v2) = cash_flow_id_fetch_add v1;
                 Some ([build_account_event cfg (BalanceSnapshot ab), build_account_event cfg (CashFlowEvent
                   (cash_flow_new (hc_kind c) quote (hc_amount c) (Some i) boundary (Some k)))], v2)
               })
        }
      | _ \<Rightarrow> Some ([], v))"

fun charge_due ::
  "('e, 'g) venue_config \<Rightarrow> (time \<times> due_charge) list \<Rightarrow> ('e, 'g) venue \<Rightarrow> ('e account_event list \<times> ('e, 'g) venue) option" where
  "charge_due cfg [] v = Some ([], v)"
| "charge_due cfg ((b, d) # ds) v = do {
     (es, v1) \<leftarrow> (case d of
         DueHolding i n \<Rightarrow> charge_holding_cost cfg b i n v
       | DueInterest a p \<Rightarrow> charge_interest_boundary cfg b a p v);
     (es', v2) \<leftarrow> charge_due cfg ds v1;
     Some (es @ es', v2)
   }"

definition falls :: "time \<Rightarrow> time option \<Rightarrow> bool" where
  "falls now next = (case next of None \<Rightarrow> False | Some t \<Rightarrow> t \<le> now)"

definition accrue ::
  "('e, 'g) venue_config \<Rightarrow> time \<Rightarrow> ('e, 'g) venue \<Rightarrow> ('e account_event list \<times> ('e, 'g) venue) option" where
  "accrue cfg now v =
     (case vn_accrued_through v of
        None \<Rightarrow> do {
          v1 \<leftarrow> refresh_next_charge cfg (v\<lparr>vn_accrued_through := Some now\<rparr>);
          v2 \<leftarrow> refresh_next_interest cfg v1;
          Some ([], v2)
        }
      | Some after \<Rightarrow>
          if now \<le> after then Some ([], v)
          else do {
            v1 \<leftarrow> refresh_next_interest_if_loans_changed cfg v;
            let v2 = v1\<lparr>vn_accrued_through := Some now\<rparr>;
            if \<not> falls now (vn_next_charge v2) \<and> \<not> falls now (vn_next_interest v2) then Some ([], v2)
            else do {
              carry \<leftarrow> holding_due cfg after now v2;
              interest \<leftarrow> interest_due_list cfg after now v2;
              (es, v3) \<leftarrow> charge_due cfg (sort_key due_key (carry @ interest)) v2;
              v4 \<leftarrow> refresh_next_charge cfg v3;
              v5 \<leftarrow> refresh_next_interest cfg v4;
              Some (es, v5)
            }
          })"

section \<open>The inputs that move the clock\<close>

definition not_before_reached :: "time \<Rightarrow> ('e, 'g) venue \<Rightarrow> time" where
  "not_before_reached t v = (case vn_accrued_through v of None \<Rightarrow> t | Some reached \<Rightarrow> max reached t)"

definition advance_time ::
  "('e, 'g) venue_config \<Rightarrow> time \<Rightarrow> ('e, 'g) venue \<Rightarrow> ('e account_event list \<times> ('e, 'g) venue) option" where
  "advance_time cfg instant v = do {
     let t = not_before_reached instant v;
     (es1, v1) \<leftarrow> accrue cfg t v;
     let v2 = to_account (update_time_exchange t) (v1\<lparr>vn_time_exchange := t\<rparr>);
     (es2, v3) \<leftarrow> sweep_expired cfg t v2;
     (es3, v4) \<leftarrow> check_margin cfg t v3;
     close_input cfg (es1 @ es2 @ es3) v4
   }"

definition apply_market ::
  "('e, 'g) venue_config \<Rightarrow> instrument_name \<Rightarrow> market_observation \<Rightarrow> time \<Rightarrow> ('e, 'g) venue
     \<Rightarrow> ('e account_event list \<times> ('e, 'g) venue) option" where
  "apply_market cfg i obs instant v = do {
     let t = not_before_reached instant v;
     (es1, v1) \<leftarrow> accrue cfg t v;
     v2 \<leftarrow> record_borrow_price cfg i (mo_snapshot obs) (mo_bar obs) t (observe_market i obs t v1);
     (es2, v3) \<leftarrow> sweep_expired cfg t v2;
     (es3, v4) \<leftarrow> act_on_observation cfg i obs t v3;
     (es4, v5) \<leftarrow> check_margin cfg t v4;
     close_input cfg (es1 @ es2 @ es3 @ es4) v5
   }"

definition next_deadline :: "('e, 'g) venue \<Rightarrow> time option" where
  "next_deadline v = earliest (list_of_option (oo_next_expiry (ac_orders_open (vn_account v))) @
     list_of_option (vn_next_charge v) @ list_of_option (vn_next_interest v))"

end
