(* ===== verification/Venue_Ledger.thy ===== *)
theory Venue_Ledger
  imports Venue_Clock Account_Invariants
begin

text \<open>
  What every operation of the simulated venue does to its ledger and its trades, proved once over an
  interface: a relation between the venue before and after, indexed by an asset and an amount, that
  composes, does not see the parts of the state no account operation touches, and knows the six ways
  an account changes. Its instances are the two invariants the venue promises, in \<open>Venue_Runs\<close>: what
  is not free of an asset is what the open orders reserve, and the ids of the trades count up. The
  arithmetic is exact.
\<close>

section \<open>The interface\<close>

definition used_of :: "asset_name \<Rightarrow> ('e, 'f) account_state \<Rightarrow> decimal" where
  "used_of a st = total_of a st - free_of a st"

definition holds_in :: "asset_name \<Rightarrow> 'f reservation option \<Rightarrow> decimal" where
  "holds_in a res = (case res of None \<Rightarrow> 0 | Some r \<Rightarrow> if rv_asset r = a then rv_amount r else 0)"

text \<open>What a committed debit holds.\<close>

definition reserves :: "asset_name \<Rightarrow> debit \<Rightarrow> decimal" where
  "reserves a d = (if a = db_asset d then db_reserved d else 0)"

definition exact :: "('e, 'g) venue_config \<Rightarrow> bool" where
  "exact cfg \<longleftrightarrow> vc_round cfg = Some"

lemma exactD [simp]: "exact cfg \<Longrightarrow> vc_round cfg = Some"
  by (simp add: exact_def)

abbreviation by_id :: "('e, 'f) account_state \<Rightarrow> client_order_id \<Rightarrow> ('e, 'f) resting_order option" where
  "by_id st \<equiv> oo_by_id (ac_orders_open st)"

locale venue_relation =
  fixes rel :: "asset_name \<Rightarrow> decimal \<Rightarrow> ('e, 'g) venue \<Rightarrow> ('e, 'g) venue \<Rightarrow> bool"
  assumes rel_trans: "rel a x v v1 \<Longrightarrow> rel a y v1 v2 \<Longrightarrow> rel a (x + y) v v2"
    and rel_silent: "vn_account v' = vn_account v \<Longrightarrow> vn_trade_sequence v' = vn_trade_sequence v \<Longrightarrow> rel a 0 v v'"
    and rel_ledger: "by_id st = by_id (vn_account v) \<Longrightarrow> ac_trades st = ac_trades (vn_account v) \<Longrightarrow>
      used_of a st = used_of a (vn_account v) + x \<Longrightarrow> rel a x v (v\<lparr>vn_account := st\<rparr>)"
    and rel_put: "by_id (vn_account v) c = None \<Longrightarrow> by_id st = (by_id (vn_account v))(c \<mapsto> r) \<Longrightarrow>
      ac_trades st = ac_trades (vn_account v) \<Longrightarrow> ac_balances st = ac_balances (vn_account v) \<Longrightarrow>
      rel a (- holds_in a (rs_reservation r)) v (v\<lparr>vn_account := st\<rparr>)"
    and rel_take: "by_id (vn_account v) c = Some r \<Longrightarrow> by_id st = (by_id (vn_account v))(c := None) \<Longrightarrow>
      ac_trades st = ac_trades (vn_account v) \<Longrightarrow> ac_balances st = ac_balances (vn_account v) \<Longrightarrow>
      rel a (holds_in a (rs_reservation r)) v (v\<lparr>vn_account := st\<rparr>)"
    and rel_print: "tr_id tr = fst (trade_id_fetch_add v) \<Longrightarrow>
      rel a 0 v (to_account (ack_trade tr) (snd (trade_id_fetch_add v)))"

lemma on_account_Some:
  "on_account f v = Some (x, v') \<longleftrightarrow> (\<exists>st. f (vn_account v) = Some (x, st) \<and> v' = v\<lparr>vn_account := st\<rparr>)"
  by (auto simp: on_account_def bind_eq_Some_conv)

lemma bind_SomeE:
  assumes "Option.bind m f = Some y"
  obtains x where "m = Some x" and "f x = Some y"
  using assms by (cases m) auto

lemma commit_refused:
  assumes step: "commit Some d credit effect l t st = Some (Inl e, st')"
  shows "st' = st"
proof -
  have present: "ac_margin st \<or> ac_balances st (db_asset d) \<noteq> None"
    using commit_absent [of st d credit effect l t] step by force
  show ?thesis
  proof (cases "lending_refuses d credit effect l st \<or> delivery_refuses credit st")
    case True
    then show ?thesis using commit_unfold [OF present, of credit effect l t] step by auto
  next
    case False
    then have "ac_balances st (db_asset d) \<noteq> None \<or> loan_of d credit l st \<noteq> 0"
      using commit_unfold [OF present, of credit effect l t] step commit_apply_absent [of st d]
      by (cases "ac_balances st (db_asset d)") auto
    then obtain cm st'' where "commit Some d credit effect l t st = Some (Inr cm, st'')"
      using commit_accepted [OF _ present] False by metis
    with step show ?thesis by simp
  qed
qed

context venue_relation begin

lemma rel_refl: "rel a 0 v v"
  by (rule rel_silent) simp_all

lemma rel_step: "rel a x v v1 \<Longrightarrow> rel a y v1 v2 \<Longrightarrow> z = x + y \<Longrightarrow> rel a z v v2"
  using rel_trans by blast

lemma rel_then: "rel a x v v1 \<Longrightarrow> rel a 0 v1 v2 \<Longrightarrow> rel a x v v2"
  by (drule (1) rel_trans) simp

lemma rel_after: "rel a 0 v v1 \<Longrightarrow> rel a x v1 v2 \<Longrightarrow> rel a x v v2"
  by (drule (1) rel_trans) simp

text \<open>The operations of the account.\<close>

lemma rel_moved:
  assumes "moved b dt df dp di (vn_account v) st"
  shows "rel a (if a = b then dt - df else 0) v (v\<lparr>vn_account := st\<rparr>)"
  using moved_readers [OF assms] by (intro rel_ledger) (simp_all add: used_of_def)

lemma on_release:
  assumes "on_account (release Some b x t) v = Some (ab, v')"
  shows "rel a (if a = b then - x else 0) v v'"
proof -
  obtain st where st: "release Some b x t (vn_account v) = Some (ab, st)" "v' = v\<lparr>vn_account := st\<rparr>"
    using assms by (auto simp: on_account_Some)
  obtain ab0 where "ac_balances (vn_account v) b = Some ab0"
    using st(1) by (auto simp: release_def bind_eq_Some_conv)
  then have "moved b 0 x 0 0 (vn_account v) st"
    by (rule release_moves [of _ b ab0 x t]) (use st in simp)
  from rel_moved [OF this, of a] show ?thesis by (simp add: st(2) cong: if_cong)
qed

lemma on_settle:
  assumes "on_account (settle Some b x t) v = Some (ab, v')"
  shows "rel a (if a = b then - x else 0) v v'"
proof -
  obtain st where st: "settle Some b x t (vn_account v) = Some (ab, st)" "v' = v\<lparr>vn_account := st\<rparr>"
    using assms by (auto simp: on_account_Some)
  obtain ab0 where "ac_balances (vn_account v) b = Some ab0"
    using st(1) by (auto simp: settle_def bind_eq_Some_conv)
  then have "moved b (- x) 0 0 0 (vn_account v) st"
    by (rule settle_moves [of _ b ab0 x t]) (use st in simp)
  from rel_moved [OF this, of a] show ?thesis by (simp add: st(2) cong: if_cong)
qed

lemma on_charge:
  assumes "on_account (charge Some b x t) v = Some (ab, v')"
  shows "rel a 0 v v'"
proof -
  obtain st where st: "charge Some b x t (vn_account v) = Some (ab, st)" "v' = v\<lparr>vn_account := st\<rparr>"
    using assms by (auto simp: on_account_Some)
  obtain ab0 where "ac_balances (vn_account v) b = Some ab0"
    using st(1) by (auto simp: charge_def bind_eq_Some_conv)
  then have "moved b x x 0 0 (vn_account v) st"
    by (rule charge_moves [of _ b ab0 x t]) (use st in simp)
  from rel_moved [OF this, of a] show ?thesis by (simp add: st(2) cong: if_cong)
qed

lemma on_charge_interest:
  assumes "on_account (charge_interest Some b x t) v = Some (ab, v')"
  shows "rel a 0 v v'"
proof -
  obtain st where st: "charge_interest Some b x t (vn_account v) = Some (ab, st)" "v' = v\<lparr>vn_account := st\<rparr>"
    using assms by (auto simp: on_account_Some)
  obtain ab0 where "ac_balances (vn_account v) b = Some ab0"
    using st(1) by (auto simp: charge_interest_def bind_eq_Some_conv)
  then have "moved b 0 0 0 x (vn_account v) st"
    by (rule charge_interest_moves [of _ b ab0 x t]) (use st in simp)
  from rel_moved [OF this, of a] show ?thesis by (simp add: st(2) cong: if_cong)
qed

lemma on_deliver:
  assumes "on_account (deliver Some d effect t) v = Some (ab, v')"
  shows "rel a 0 v v'"
proof -
  obtain st where st: "deliver Some d effect t (vn_account v) = Some (ab, st)" "v' = v\<lparr>vn_account := st\<rparr>"
    using assms by (auto simp: on_account_Some)
  obtain x p i where "moved (dl_asset d) x x p i (vn_account v) st"
    by (rule deliver_moves [of d effect t "vn_account v"]) (use st in simp)
  from rel_moved [OF this, of a] show ?thesis by (simp add: st(2) cong: if_cong)
qed

lemma on_repay_loan:
  assumes "on_account (repay_loan Some b x t) v = Some (ab, v')"
  shows "rel a 0 v v'"
proof -
  obtain st where st: "repay_loan Some b x t (vn_account v) = Some (ab, st)" "v' = v\<lparr>vn_account := st\<rparr>"
    using assms by (auto simp: on_account_Some)
  obtain ab0 where "ac_balances (vn_account v) b = Some ab0"
    using st(1) by (auto simp: repay_loan_def bind_eq_Some_conv)
  then obtain y p i where "moved b y y p i (vn_account v) st"
    by (rule repay_loan_moves [of _ b ab0 x t]) (use st in simp)
  from rel_moved [OF this, of a] show ?thesis by (simp add: st(2) cong: if_cong)
qed

lemma on_release_reservation:
  assumes "on_account (release_reservation Some r auto t) v = Some (ab, v')"
  shows "rel a (- holds_in a (Some r)) v v'"
proof -
  obtain st where st: "release_reservation Some r auto t (vn_account v) = Some (ab, st)" "v' = v\<lparr>vn_account := st\<rparr>"
    using assms by (auto simp: on_account_Some)
  then obtain ab1 st1 where rel: "release Some (rv_asset r) (rv_amount r) t (vn_account v) = Some (ab1, st1)"
    by (auto simp: release_reservation_def bind_eq_Some_conv)
  then have "on_account (release Some (rv_asset r) (rv_amount r) t) v = Some (ab1, v\<lparr>vn_account := st1\<rparr>)"
    by (simp add: on_account_Some)
  then have 1: "rel a (- holds_in a (Some r)) v (v\<lparr>vn_account := st1\<rparr>)"
    using on_release [of "rv_asset r" "rv_amount r" t v ab1 _ a] by (auto simp: holds_in_def split: if_splits)
  have "st = st1 \<or> (\<exists>loan. repay_loan Some (rv_asset r) loan t st1 = Some (ab, st))"
    using st(1) rel by (auto simp: release_reservation_def bind_eq_Some_conv split: if_splits)
  then show ?thesis
  proof
    assume "\<exists>loan. repay_loan Some (rv_asset r) loan t st1 = Some (ab, st)"
    then obtain loan where "on_account (repay_loan Some (rv_asset r) loan t) (v\<lparr>vn_account := st1\<rparr>) = Some (ab, v')"
      by (auto simp: on_account_Some st(2))
    from rel_then [OF 1 on_repay_loan [OF this]] show ?thesis .
  qed (use 1 st(2) in simp)
qed

lemma on_commit:
  assumes "on_account (commit Some d credit effect l t) v = Some (out, v')"
  shows "rel a (case out of Inl _ \<Rightarrow> 0 | Inr _ \<Rightarrow> if a = db_asset d then db_reserved d else 0) v v'"
proof -
  obtain st where st: "commit Some d credit effect l t (vn_account v) = Some (out, st)" "v' = v\<lparr>vn_account := st\<rparr>"
    using assms by (auto simp: on_account_Some)
  show ?thesis
  proof (cases out)
    case (Inl e)
    then have "st = vn_account v" using commit_refused st(1) by blast
    with Inl st(2) show ?thesis using rel_refl by simp
  next
    case (Inr cm)
    with st(1) have "commit Some d credit effect l t (vn_account v) = Some (Inr cm, st)" by simp
    note eff = commit_effect [OF this]
    show ?thesis unfolding st(2) Inr
      by (rule rel_ledger) (simp_all add: eff used_of_def required_of_def)
  qed
qed

end

section \<open>What no relation sees\<close>

lemma refresh_silent:
  "refresh_next_charge cfg v = Some v' \<Longrightarrow> vn_account v' = vn_account v \<and> vn_trade_sequence v' = vn_trade_sequence v"
  "refresh_next_interest cfg v = Some v' \<Longrightarrow> vn_account v' = vn_account v \<and> vn_trade_sequence v' = vn_trade_sequence v"
  "refresh_next_interest_if_loans_changed cfg v = Some v' \<Longrightarrow>
    vn_account v' = vn_account v \<and> vn_trade_sequence v' = vn_trade_sequence v"
  by (auto simp: refresh_next_charge_def refresh_next_interest_def refresh_next_interest_if_loans_changed_def
      Let_def bind_eq_Some_conv split: option.splits if_splits)

lemma record_fill_silent:
  "venue_record_fill cfg terms i sd q p v = Some v' \<Longrightarrow>
    vn_account v' = vn_account v \<and> vn_trade_sequence v' = vn_trade_sequence v"
  by (auto simp: venue_record_fill_def Let_def bind_eq_Some_conv dest!: refresh_silent split: if_splits)

lemma consume_silent:
  "consume_depth cfg i sd q v = Some v' \<Longrightarrow>
    vn_account v' = vn_account v \<and> vn_trade_sequence v' = vn_trade_sequence v"
  by (auto simp: consume_depth_def bind_eq_Some_conv split: option.splits)

lemma slip_silent:
  "venue_slip cfg sd x v = Some (p, v') \<Longrightarrow>
    vn_account v' = vn_account v \<and> vn_trade_sequence v' = vn_trade_sequence v"
  by (auto simp: venue_slip_def bind_eq_Some_conv)

lemma ids_silent:
  "cash_flow_id_fetch_add v = (i, v') \<Longrightarrow> vn_account v' = vn_account v \<and> vn_trade_sequence v' = vn_trade_sequence v"
  "order_id_fetch_add v = (i, v') \<Longrightarrow> vn_account v' = vn_account v \<and> vn_trade_sequence v' = vn_trade_sequence v"
  by (auto simp: cash_flow_id_fetch_add_def order_id_fetch_add_def)

lemma used_cong: "ac_balances st = ac_balances st' \<Longrightarrow> used_of a st = used_of a st'"
  by (simp add: used_of_def held_balance_def)

lemma ack_same:
  "by_id (ack_cancelled x st) = by_id st" "by_id (ack_expired x st) = by_id st" "by_id (ack_filled y st) = by_id st"
  "ac_trades (ack_cancelled x st) = ac_trades st" "ac_trades (ack_expired x st) = ac_trades st"
  "ac_trades (ack_filled y st) = ac_trades st"
  "used_of a (ack_cancelled x st) = used_of a st" "used_of a (ack_expired x st) = used_of a st"
  "used_of a (ack_filled y st) = used_of a st"
  by (simp_all add: ack_cancelled_def ack_expired_def ack_filled_def forget_ended_def Let_def used_of_def
      held_balance_def)

lemma put_effect:
  "account_book ord res st = (Inr u, st') \<Longrightarrow> by_id st (cid_of ord) = None \<and>
    by_id st' = (by_id st)(cid_of ord \<mapsto> \<lparr>rs_order = ord, rs_reservation = res\<rparr>) \<and>
    ac_trades st' = ac_trades st \<and> ac_balances st' = ac_balances st"
  "account_hold ord res st = (Inr u, st') \<Longrightarrow> by_id st (cid_of ord) = None \<and>
    by_id st' = (by_id st)(cid_of ord \<mapsto> \<lparr>rs_order = ord, rs_reservation = res\<rparr>) \<and>
    ac_trades st' = ac_trades st \<and> ac_balances st' = ac_balances st"
proof -
  assume book: "account_book ord res st = (Inr u, st')"
  then have new: "by_id st (cid_of ord) = None"
    using insert_known(1) [of "ac_orders_open st" ord res] by (cases "by_id st (cid_of ord)") (auto simp: account_book_def)
  obtain o' b where b: "oo_insert ord res (ac_orders_open st) = (o', b)" by fastforce
  from insert_new(1,2) [OF new b] book b new show "by_id st (cid_of ord) = None \<and>
    by_id st' = (by_id st)(cid_of ord \<mapsto> \<lparr>rs_order = ord, rs_reservation = res\<rparr>) \<and>
    ac_trades st' = ac_trades st \<and> ac_balances st' = ac_balances st"
    by (auto simp: account_book_def forget_ended_def)
next
  assume book: "account_hold ord res st = (Inr u, st')"
  then have new: "by_id st (cid_of ord) = None"
    using insert_known(2) [of "ac_orders_open st" ord res] by (cases "by_id st (cid_of ord)") (auto simp: account_hold_def)
  obtain o' b where b: "oo_hold ord res (ac_orders_open st) = (o', b)" by fastforce
  from hold_new(1,2) [OF new b] book b new show "by_id st (cid_of ord) = None \<and>
    by_id st' = (by_id st)(cid_of ord \<mapsto> \<lparr>rs_order = ord, rs_reservation = res\<rparr>) \<and>
    ac_trades st' = ac_trades st \<and> ac_balances st' = ac_balances st"
    by (auto simp: account_hold_def forget_ended_def)
qed

lemma take_effect:
  assumes "take_order c v = (out, v')"
  shows "out = None \<Longrightarrow> v' = v"
    and "out = Some r \<Longrightarrow> by_id (vn_account v) c = Some r \<and>
      by_id (vn_account v') = (by_id (vn_account v))(c := None) \<and>
      ac_trades (vn_account v') = ac_trades (vn_account v) \<and> ac_balances (vn_account v') = ac_balances (vn_account v) \<and>
      v' = v\<lparr>vn_account := vn_account v'\<rparr>"
  using assms
  by (auto simp: take_order_def remove_order_def oo_remove_def unindex_by_id split: option.splits prod.splits)

context venue_relation begin

section \<open>Moving the ledger for one order\<close>

lemma rel_none: "vn_account v' = vn_account v \<and> vn_trade_sequence v' = vn_trade_sequence v \<Longrightarrow> rel a 0 v v'"
  by (rule rel_silent) simp_all

lemma rel_ack:
  "rel a 0 v (to_account (ack_cancelled x) v)" "rel a 0 v (to_account (ack_expired x) v)"
  "rel a 0 v (to_account (ack_filled y) v)"
  unfolding to_account_def by (rule rel_ledger; simp add: ack_same)+

lemma rel_release_reservation:
  assumes "exact cfg" and "venue_release_reservation cfg r t v = Some (x, v')"
  shows "rel a (- holds_in a (Some r)) v v'"
  using assms by (auto simp: venue_release_reservation_def bind_eq_Some_conv intro: on_release_reservation)

lemma rel_release_held:
  assumes "exact cfg" and "release_held cfg res t v = Some (x, v')"
  shows "rel a (- holds_in a res) v v'"
proof (cases res)
  case None
  with assms show ?thesis using rel_refl by (simp add: release_held_def holds_in_def)
next
  case (Some r)
  with assms show ?thesis by (auto simp: release_held_def bind_eq_Some_conv intro: rel_release_reservation)
qed

lemma rel_charge_interest:
  assumes "exact cfg" and "venue_charge_interest cfg b amount d v = Some (x, v')"
  shows "rel a 0 v v'"
  using assms
  by (auto simp: venue_charge_interest_def Let_def cash_flow_id_fetch_add_def
      intro: rel_refl rel_then [OF on_charge_interest rel_silent]
      split: Option.bind_splits option.splits if_splits)

lemma rel_commit:
  assumes "exact cfg" and "venue_commit cfg d credit effect terms market bw t v = Some (out, v')"
  shows "rel a (case out of Inl _ \<Rightarrow> 0 | Inr _ \<Rightarrow> if a = db_asset d then db_reserved d else 0) v v'"
proof -
  obtain room where room: "borrowable cfg v d effect terms market = Some room"
    using assms(2) by (auto simp: venue_commit_def bind_eq_Some_conv)
  obtain out1 v1 where c: "on_account (commit Some d credit effect (lending_of cfg (db_asset d) room) t) v = Some (out1, v1)"
    using assms room by (auto simp: venue_commit_def bind_eq_Some_conv)
  note rel1 = on_commit [OF c, of a]
  show ?thesis
  proof (cases out1)
    case (Inl e)
    with assms room c have "out = Inl e" "v' = v1" by (auto simp: venue_commit_def)
    with rel1 Inl show ?thesis by simp
  next
    case (Inr cm)
    have "\<exists>x. out = Inr x" and "v' = v1 \<or> (\<exists>y. venue_charge_interest cfg (db_asset d) (cm_borrowed cm) (InterestAtBorrow t) v1 = Some (y, v'))"
      using assms room c Inr by (auto simp: venue_commit_def bind_eq_Some_conv split: if_splits)
    with rel1 Inr rel_charge_interest [OF assms(1)] rel_then show ?thesis by fastforce
  qed
qed

lemma rel_fee_apart:
  assumes "exact cfg" and "take_fee_apart cfg s c t v = Some (c', v')"
  shows "rel a 0 v v'"
  using assms by (auto simp: take_fee_apart_def bind_eq_Some_conv intro: rel_refl on_charge split: if_splits)

lemma rel_repay_unused:
  assumes "exact cfg" and "repay_unused cfg r d loan c t v = Some (x, v')"
  shows "rel a 0 v v'"
  using assms by (auto simp: repay_unused_def bind_eq_Some_conv Let_def intro: rel_refl on_repay_loan split: if_splits)

lemma rel_commit_afresh:
  assumes ex: "exact cfg" and step: "commit_afresh cfg ord terms res d credit t v = Some (out, v')"
  shows "rel a ((case out of Recommitted _ _ _ \<Rightarrow> reserves a d | Unaffordable _ \<Rightarrow> 0) - holds_in a res) v v'"
proof -
  obtain rel0 v1 where r0: "(case res of
         None \<Rightarrow> Some (None, v)
       | Some r \<Rightarrow> do { (ab, v1) \<leftarrow> on_account (release (vc_round cfg) (rv_asset r) (rv_amount r) t) v; Some (Some (r, ab), v1) }) = Some (rel0, v1)"
    and r1: "rel a (- holds_in a res) v v1"
  proof (cases res)
    case None
    with that show thesis using rel_refl by (simp add: holds_in_def)
  next
    case (Some r)
    with step ex obtain ab v1 where "on_account (release Some (rv_asset r) (rv_amount r) t) v = Some (ab, v1)"
      by (auto simp: commit_afresh_def Let_def bind_eq_Some_conv)
    with Some that ex on_release [OF this, of a] show thesis by (auto simp: holds_in_def split: if_splits)
  qed
  obtain out1 v2 where c: "venue_commit cfg d credit (reservation_effect cfg res) terms None (borrower_of ord) t v1 = Some (out1, v2)"
    using step r0 unfolding commit_afresh_def Let_def by (auto simp: bind_eq_Some_conv)
  note rel1 = rel_step [OF r1 rel_commit [OF ex c, of a] refl]
  show ?thesis
  proof (cases out1)
    case (Inl e)
    have "\<exists>x. out = Unaffordable x" and "v' = v2 \<or> (\<exists>b x ab. on_account (repay_loan (vc_round cfg) b x t) v2 = Some (ab, v'))"
      using step r0 c Inl unfolding commit_afresh_def Let_def
      by (auto simp: bind_eq_Some_conv split: option.splits if_splits)
    with rel1 Inl ex rel_then [OF _ on_repay_loan] show ?thesis by auto
  next
    case (Inr cm)
    have "\<exists>x y z. out = Recommitted x y z" and "v' = v2 \<or> (\<exists>r d loan c x. repay_unused cfg r d loan c t v2 = Some (x, v'))"
      using step r0 c Inr unfolding commit_afresh_def Let_def
      by (auto simp: bind_eq_Some_conv split: option.splits if_splits)
    with rel1 Inr rel_then [OF _ rel_repay_unused [OF ex]] show ?thesis by (fastforce simp: reserves_def)
  qed
qed

lemma rel_settle_afresh:
  assumes ex: "exact cfg" and step: "settle_resting_afresh cfg ord terms res s t v = Some (out, v')"
  shows "rel a (- holds_in a res) v v'"
proof -
  obtain out1 v1 where c: "commit_afresh cfg ord terms res (settled_debit s) (Some (st_credit s)) t v = Some (out1, v1)"
    using step by (auto simp: settle_resting_afresh_def bind_eq_Some_conv)
  with step have "v1 = v'" by (cases out1) (auto simp: settle_resting_afresh_def)
  with c have "commit_afresh cfg ord terms res (settled_debit s) (Some (st_credit s)) t v = Some (out1, v')" by simp
  from rel_commit_afresh [OF ex this, of a] show ?thesis
    by (auto simp: reserves_def settled_debit_def split: recommitted.splits if_splits)
qed

lemma rel_settle_resting:
  assumes ex: "exact cfg" and step: "settle_resting cfg ord terms res s t v = Some (out, v')"
  shows "rel a (- holds_in a res) v v'"
proof -
  consider "settle_resting_afresh cfg ord terms res s t v = Some (out, v')"
    | c where "res = None" and "venue_commit cfg (settled_debit s) (Some (st_credit s)) (reservation_effect cfg res)
        terms None (borrower_of ord) t v = Some (Inr c, v')"
    | r paid v1 dl received where "res = Some r" and "on_account (settle Some (rv_asset r) (rv_amount r) t) v = Some (paid, v1)"
        and "on_account (deliver Some dl (rv_effect r) t) v1 = Some (received, v')"
    using step ex
    by (auto simp: settle_resting_def bind_eq_Some_conv split: bool.splits credit.splits option.splits if_splits)
      (auto split: sum.splits)
  then show ?thesis
  proof cases
    case 1
    then show ?thesis by (rule rel_settle_afresh [OF ex])
  next
    case 2
    from rel_commit [OF ex 2(2), of a] 2(1) show ?thesis by (auto simp: holds_in_def settled_debit_def split: if_splits)
  next
    case 3
    from rel_then [OF on_settle [OF 3(2), of a] on_deliver [OF 3(3)]] 3(1) show ?thesis
      by (auto simp: holds_in_def split: if_splits)
  qed
qed

lemma rel_print_fill:
  assumes "print_fill cfg terms ord q p fees t v = Some (tr, v')"
  shows "rel a 0 v v'"
proof -
  obtain v1 where v1: "venue_record_fill cfg terms (instrument_of ord) (o_side ord) q p v = Some v1"
    using assms by (auto simp: print_fill_def bind_eq_Some_conv)
  with assms have "tr_id tr = fst (trade_id_fetch_add v1) \<and> v' = to_account (ack_trade tr) (snd (trade_id_fetch_add v1))"
    by (auto simp: print_fill_def bind_eq_Some_conv Let_def split: prod.splits)
  with rel_print [of tr v1 a] show ?thesis
    using rel_then [OF rel_none [OF record_fill_silent [OF v1]]] by simp
qed

lemma rel_book:
  assumes "book_rested ord r v = Some v'"
  shows "rel a (- holds_in a (Some r)) v v'"
proof -
  obtain u st where st: "account_book ord (Some r) (vn_account v) = (Inr u, st)" "v' = v\<lparr>vn_account := st\<rparr>"
    using assms by (auto simp: book_rested_def split: prod.splits sum.splits)
  from put_effect(1) [OF st(1)] rel_put [of v "cid_of ord" st _ a] st(2) show ?thesis by fastforce
qed

lemma rel_hold:
  assumes "account_hold ord (Some r) (vn_account v) = (Inr u, st)"
  shows "rel a (- holds_in a (Some r)) v (v\<lparr>vn_account := st\<rparr>)"
  using put_effect(2) [OF assms] rel_put [of v "cid_of ord" st _ a] by fastforce

section \<open>Orders taken off the book one by one\<close>

lemma rel_take_order:
  assumes "take_order c v = (Some r, v')"
  shows "rel a (holds_in a (rs_reservation r)) v v'"
proof -
  note t = take_effect(2) [OF assms refl]
  then have "rel a (holds_in a (rs_reservation r)) v (v\<lparr>vn_account := vn_account v'\<rparr>)"
    by (intro rel_take [of v c r]) simp_all
  with t show ?thesis by simp
qed

lemma rel_each_order:
  assumes f: "\<And>r v es v'. f r v = Some (es, v') \<Longrightarrow> rel a (- holds_in a (rs_reservation r)) v v'"
  shows "each_order f cs v = Some (es, v') \<Longrightarrow> rel a 0 v v'"
proof (induction cs arbitrary: v es)
  case Nil
  then show ?case using rel_refl by simp
next
  case (Cons c cs)
  obtain out v1 where t: "take_order c v = (out, v1)" by fastforce
  show ?case
  proof (cases out)
    case None
    with Cons t take_effect(1) [OF t] show ?thesis by simp
  next
    case (Some r)
    obtain es1 v2 es2 where "f r v1 = Some (es1, v2)" and rest: "each_order f cs v2 = Some (es2, v')"
      using Cons.prems t Some by (auto simp: bind_eq_Some_conv)
    from rel_trans [OF rel_take_order [of c v r v1 a] f [OF this(1)]] t Some have "rel a 0 v v2" by simp
    then show ?thesis by (rule rel_then) (rule Cons.IH [OF rest])
  qed
qed

lemma rel_cancel_unfilled:
  "cancel_unfilled cfg ord released t v = (es, v') \<Longrightarrow> rel a 0 v v'"
  by (auto simp: cancel_unfilled_def Let_def rel_ack)

lemma rel_retire_expired:
  assumes "exact cfg" and "retire_expired cfg r t v = Some (es, v')"
  shows "rel a (- holds_in a (rs_reservation r)) v v'"
  using assms by (auto simp: retire_expired_def Let_def bind_eq_Some_conv intro: rel_then [OF rel_release_held rel_ack(2)])

lemma rel_cancel_with:
  assumes "exact cfg" and "cancel_with cfg ord res t v = Some (es, v')"
  shows "rel a (- holds_in a res) v v'"
  using assms by (auto simp: cancel_with_def bind_eq_Some_conv intro: rel_then [OF rel_release_held rel_cancel_unfilled])

lemma cancel_resting_with: "cancel_resting cfg t r v = cancel_with cfg (rs_order r) (rs_reservation r) t v"
  by (simp add: cancel_resting_def cancel_with_def)

lemma rel_sweep: "exact cfg \<Longrightarrow> sweep_expired cfg t v = Some (es, v') \<Longrightarrow> rel a 0 v v'"
  unfolding sweep_expired_def by (rule rel_each_order) (rule rel_retire_expired)

lemma rel_cancel_immediate: "exact cfg \<Longrightarrow> cancel_held_immediate cfg i t v = Some (es, v') \<Longrightarrow> rel a 0 v v'"
  unfolding cancel_held_immediate_def Let_def
  by (rule rel_each_order) (auto simp: cancel_resting_with intro: rel_cancel_with)

end

section \<open>What a settlement pays with\<close>

definition pays_with :: "instrument_terms \<Rightarrow> side \<Rightarrow> asset_name" where
  "pays_with terms sd = (if it_cash_settled terms \<or> sd = Buy then un_quote (it_underlying terms)
     else un_base (it_underlying terms))"

lemma settlement_pays:
  "settlement_with_fee R rule terms p sd q price f = Some s \<Longrightarrow> st_asset s = pays_with terms sd"
  by (cases sd) (auto simp: settlement_with_fee_def cash_settlement_def spot_settlement_def pays_with_def Let_def
      bind_eq_Some_conv split: if_splits prod.splits)

lemma venue_settlement_pays: "venue_settlement cfg terms p sd q price l = Some s \<Longrightarrow> st_asset s = pays_with terms sd"
  by (auto simp: venue_settlement_def order_settlement_def bind_eq_Some_conv dest: settlement_pays)

lemma fill_settlement_pays:
  assumes "fill_settlement cfg v terms p sd q price l = Some s"
  shows "st_asset s = pays_with terms sd"
proof -
  obtain s0 apart where s0: "venue_settlement cfg terms p sd q price l = Some s0" "fee_in_fee_asset cfg v terms (st_fees s0) = Some apart"
    using assms by (auto simp: fill_settlement_def bind_eq_Some_conv)
  then show ?thesis using assms venue_settlement_pays [OF s0(1)]
    by (cases apart) (auto simp: fill_settlement_def bind_eq_Some_conv dest: settlement_pays)
qed

lemma held_remainder_pays:
  "held_remainder cfg terms p sd fill unfilled limit = Some (Some h) \<Longrightarrow> st_asset h = pays_with terms sd"
  by (auto simp: held_remainder_def bind_eq_Some_conv dest: venue_settlement_pays split: if_splits)

lemma held_of_requirement: "requirement R s = Some y \<Longrightarrow> holds_in a (Some \<lparr>rv_asset = st_asset s, rv_amount = y,
    rv_borrowed = b, rv_excess_borrowed = e, rv_effect = m, rv_unreported_interest = fs\<rparr>) = (if a = st_asset s then y else 0)"
  by (simp add: holds_in_def)

lemma waiting_holds:
  assumes "reserved_debit R x = Some d" and "waiting_reservation R x c effect = Some r"
  shows "holds_in a (Some r) = reserves a d"
  using assms by (auto simp: reserved_debit_def waiting_reservation_def bind_eq_Some_conv holds_in_def reserves_def)

lemma reserved_debit_holds:
  "reserved_debit R x = Some d \<Longrightarrow> requirement R x = Some y \<Longrightarrow> reserves a d = (if a = st_asset x then y else 0)"
  by (auto simp: reserved_debit_def reserves_def)

lemma settled_holding_holds:
  "settled_holding R h f = Some d \<Longrightarrow> requirement R h = Some y \<Longrightarrow> st_asset f = st_asset h \<Longrightarrow>
    reserves a d = (if a = st_asset h then y else 0)"
  by (auto simp: settled_holding_def reserves_def)

lemma settled_debit_holds: "reserves a (settled_debit s) = 0"
  by (simp add: settled_debit_def reserves_def)

context venue_relation begin

section \<open>Arriving orders\<close>

lemma rel_venue_commit:
  assumes "exact cfg" and "venue_commit cfg d credit effect terms market bw t v = Some (out, v')"
  shows "rel a (case out of Inl _ \<Rightarrow> 0 | Inr _ \<Rightarrow> reserves a d) v v'"
  using rel_commit [OF assms, of a] by (cases out) (simp_all add: reserves_def)

lemma rel_order_id: "rel a 0 v (snd (order_id_fetch_add v))"
  by (rule rel_silent) (simp_all add: order_id_fetch_add_def)

lemma rel_rest_order:
  assumes ex: "exact cfg" and step: "rest_order cfg req limit terms filled v = Some (x, v')"
  shows "rel a 0 v v'"
proof -
  let ?s = "ev_state req" and ?i = "key_instrument (ev_key req)"
  let ?effect = "venue_margin_effect cfg (ro_margin_effect ?s)"
  obtain left s d out v1 where 1: "dec_sub Some (ro_quantity ?s) filled = Some left"
      "venue_settlement cfg terms (position_of terms ?i (vn_positions v)) (ro_side ?s) left limit Maker = Some s"
    and d: "reserved_debit Some s = Some d"
    and c: "venue_commit cfg d None ?effect terms (map_option vm_snapshot (vn_market v ?i))
      (Some (borrower_arriving req (next_order_id v))) (vn_time_exchange v) v = Some (out, v1)"
    using step ex by (auto simp: rest_order_def Let_def bind_eq_Some_conv)
  note rel1 = rel_venue_commit [OF ex c, of a]
  show ?thesis
  proof (cases out)
    case (Inl e)
    with step ex 1 d c have "v' = v1" by (simp add: rest_order_def Let_def refuse_def)
    with rel1 Inl show ?thesis by simp
  next
    case (Inr cm)
    with step ex 1 d c obtain r ord where r: "waiting_reservation Some s cm ?effect = Some r"
      and b: "book_rested ord r (snd (order_id_fetch_add v1)) = Some v'"
      by (auto simp: rest_order_def Let_def bind_eq_Some_conv split: prod.splits)
    from rel_step [OF rel_then [OF rel1 rel_order_id] rel_book [OF b, of a]] waiting_holds [OF d r, of a] Inr
    show ?thesis by simp
  qed
qed

lemma rel_hold_on_arrival:
  assumes ex: "exact cfg" and step: "hold_on_arrival cfg req market terms v = Some (x, v')"
  shows "rel a 0 v v'"
proof (cases "v' = v")
  case False
  let ?s = "ev_state req" and ?i = "key_instrument (ev_key req)"
  let ?effect = "venue_margin_effect cfg (ro_margin_effect ?s)"
  have bar: "\<not> ((case vc_market_order_timing cfg of NextBar _ \<Rightarrow> True | OnArrival \<Rightarrow> False) \<and>
      Option.bind (vn_market v ?i) vm_bar = None)"
  proof
    assume "(case vc_market_order_timing cfg of NextBar _ \<Rightarrow> True | OnArrival \<Rightarrow> False) \<and>
      Option.bind (vn_market v ?i) vm_bar = None"
    from step [unfolded hold_on_arrival_def Let_def if_P [OF this]] False show False by (simp add: refuse_def)
  qed
  obtain est where est: "hold_estimate cfg ?s market = Some est"
    using step bar by (auto simp: hold_on_arrival_def Let_def bind_eq_Some_conv)
  with step bar False obtain price l where pl: "est = Some (price, l)"
    by (cases est) (auto simp: hold_on_arrival_def Let_def refuse_def)
  obtain s d out v1 where
      1: "venue_settlement cfg terms (position_of terms ?i (vn_positions v)) (ro_side ?s) (ro_quantity ?s) price l = Some s"
    and d: "reserved_debit Some s = Some d"
    and c: "venue_commit cfg d None ?effect terms market
      (Some (borrower_arriving req (next_order_id v))) (vn_time_exchange v) v = Some (out, v1)"
    using step ex bar est pl by (auto simp: hold_on_arrival_def Let_def bind_eq_Some_conv)
  note rel1 = rel_venue_commit [OF ex c, of a]
  show ?thesis
  proof (cases out)
    case (Inl e)
    with step ex bar est pl 1 d c have "v' = v1" by (auto simp: hold_on_arrival_def Let_def refuse_def)
    with rel1 Inl show ?thesis by simp
  next
    case (Inr cm)
    let ?v2 = "snd (order_id_fetch_add v1)"
    let ?ord = "(order_of req (open_state_new (Assigned (fst (order_id_fetch_add v1))) (vn_time_exchange v) 0))
      \<lparr>o_price := request_limit ?s\<rparr>"
    from Inr step ex bar est pl 1 d c obtain r where r: "waiting_reservation Some s cm ?effect = Some r"
      by (auto simp: hold_on_arrival_def Let_def bind_eq_Some_conv split_beta)
    obtain o' st where hold: "account_hold ?ord (Some r) (vn_account ?v2) = (o', st)" by fastforce
    with Inr step ex bar est pl 1 d c r obtain u where b: "account_hold ?ord (Some r) (vn_account ?v2) = (Inr u, st)"
      and v': "v' = ?v2\<lparr>vn_account := st\<rparr>"
      by (cases o') (auto simp: hold_on_arrival_def Let_def split_beta)
    from rel_step [OF rel_then [OF rel1 rel_order_id] rel_hold [OF b, of a]] waiting_holds [OF d r, of a] Inr v'
    show ?thesis by simp
  qed
qed (simp add: rel_refl)

text \<open>What the rest of an order holds.\<close>

lemma rel_retire_filled:
  assumes ex: "exact cfg" and step: "retire_filled cfg req oid q price held c t v = Some (x, v')"
    and d: "case held of Some h \<Rightarrow> settled_holding Some h f = Some d \<and> st_asset f = st_asset h | None \<Rightarrow> d = settled_debit f"
  shows "rel a (- reserves a d) v v'"
proof (cases held)
  case None
  with step d show ?thesis
    by (auto simp: retire_filled_def Let_def settled_debit_holds rel_ack split: if_splits)
next
  case (Some h)
  with step ex obtain need r ord where need: "requirement Some h = Some need" and b: "book_rested ord r v = Some v'"
    and r: "rv_asset r = st_asset h" "rv_amount r = need"
    by (auto simp: retire_filled_def Let_def bind_eq_Some_conv)
  have "reserves a d = holds_in a (Some r)"
    using settled_holding_holds [OF _ need, of f d a] d Some r by (simp add: holds_in_def)
  with rel_book [OF b, of a] show ?thesis by simp
qed

lemma rel_aggress:
  assumes ex: "exact cfg" and step: "aggress cfg req market terms rem reference filled unfilled v = Some (x, v')"
  shows "rel a 0 v v'"
proof -
  let ?s = "ev_state req" and ?i = "key_instrument (ev_key req)" and ?sd = "ro_side (ev_state req)"
  let ?effect = "venue_margin_effect cfg (ro_margin_effect ?s)" and ?t = "vn_time_exchange v"
  obtain slipped v1 where slip: "venue_slip cfg ?sd reference v = Some (slipped, v1)"
    using step by (auto simp: aggress_def Let_def bind_eq_Some_conv)
  let ?price = "case request_limit ?s of None \<Rightarrow> slipped | Some limit \<Rightarrow> clamp_to_limit ?sd slipped limit"
  let ?p = "position_of terms ?i (vn_positions v1)"
  obtain fill where f: "fill_settlement cfg v1 terms ?p ?sd filled ?price Taker = Some fill"
    using step slip by (auto simp: aggress_def Let_def bind_eq_Some_conv)
  obtain held where h: "(case rem of RemainderRest limit \<Rightarrow> held_remainder cfg terms ?p ?sd (Some (filled, ?price)) unfilled limit
      | _ \<Rightarrow> Some None) = Some held"
    using step slip f by (auto simp: aggress_def Let_def bind_eq_Some_conv)
  obtain d where d: "(case held of Some h \<Rightarrow> settled_holding (vc_round cfg) h fill | None \<Rightarrow> Some (settled_debit fill)) = Some d"
    using step slip f h by (auto simp: aggress_def Let_def bind_eq_Some_conv)
  obtain out v2 where c: "venue_commit cfg d (Some (st_credit fill)) ?effect terms (Some market)
      (Some (borrower_arriving req (next_order_id v1))) ?t v1 = Some (out, v2)"
    using step slip f h d by (auto simp: aggress_def Let_def bind_eq_Some_conv)
  have rel1: "rel a (case out of Inl _ \<Rightarrow> 0 | Inr _ \<Rightarrow> reserves a d) v v2"
    by (rule rel_after [OF rel_none [OF slip_silent [OF slip]] rel_venue_commit [OF ex c]])
  show ?thesis
  proof (cases out)
    case (Inl e)
    with step slip f h d c have "v' = v2\<lparr>vn_slippage := vn_slippage v\<rparr>"
      by (simp add: aggress_def Let_def refuse_def)
    with rel_then [OF rel1 rel_silent, of v'] Inl show ?thesis by simp
  next
    case (Inr c0)
    obtain c1 v3 where 3: "take_fee_apart cfg fill c0 ?t v2 = Some (c1, v3)"
      using step slip f h d c Inr by (auto simp: aggress_def Let_def bind_eq_Some_conv)
    obtain v4 where 4: "consume_depth cfg ?i ?sd filled v3 = Some v4"
      using step slip f h d c Inr 3 by (auto simp: aggress_def Let_def bind_eq_Some_conv)
    obtain v5 where 5: "venue_record_fill cfg terms ?i ?sd filled ?price v4 = Some v5"
      using step slip f h d c Inr 3 4 by (auto simp: aggress_def Let_def bind_eq_Some_conv)
    obtain oid v6 where 6: "order_id_fetch_add v5 = (oid, v6)" by fastforce
    obtain tid v7 where 7: "trade_id_fetch_add v6 = (tid, v7)" by fastforce
    let ?tr = "arrival_trade req tid oid filled ?price (st_fees fill) ?t"
    let ?v7 = "to_account (ack_trade ?tr) v7"
    obtain state where 8: "retire_filled cfg req oid filled ?price held (cmt_committed c1) ?t ?v7 = Some (state, v')"
      using step slip f h d c Inr 3 4 5 6 7 by (auto simp: aggress_def Let_def bind_eq_Some_conv)
    have "st_asset fill = pays_with terms ?sd" by (rule fill_settlement_pays [OF f])
    moreover have "st_asset k = pays_with terms ?sd" if "held = Some k" for k
      using h that by (auto dest: held_remainder_pays split: remainder.splits)
    ultimately have "case held of Some h \<Rightarrow> settled_holding Some h fill = Some d \<and> st_asset fill = st_asset h
        | None \<Rightarrow> d = settled_debit fill"
      using d ex by (cases held) simp_all
    from rel_retire_filled [OF ex 8 this, of a] have "rel a (- reserves a d) ?v7 v'" .
    moreover have printed: "rel a 0 v6 ?v7"
      using rel_print [of ?tr v6 a] by (simp add: arrival_trade_def 7)
    have "rel a 0 v2 ?v7"
      by (rule rel_then [OF rel_then [OF rel_then [OF rel_then [OF rel_fee_apart [OF ex 3]
        rel_none [OF consume_silent [OF 4]]] rel_none [OF record_fill_silent [OF 5]]] rel_none [OF ids_silent(2) [OF 6]]] printed])
    ultimately show ?thesis using rel_step [OF rel_then [OF rel1]] Inr by fastforce
  qed
qed

lemma rel_on_arrival:
  "cancel_on_arrival req now v = Some (x, v') \<Longrightarrow> rel a 0 v v'"
  "expire_on_arrival req now v = Some (x, v') \<Longrightarrow> rel a 0 v v'"
  "refuse req e v = Some (x, v') \<Longrightarrow> rel a 0 v v'"
  by (auto simp: cancel_on_arrival_def expire_on_arrival_def refuse_def Let_def split_beta rel_refl
      intro: rel_then [OF rel_order_id] rel_ack)

lemma rel_fill_on_arrival:
  assumes ex: "exact cfg" and step: "fill_on_arrival cfg req market terms rem v = Some (x, v')"
  shows "rel a 0 v v'"
proof -
  from step consider e where "refuse req e v = Some (x, v')"
    | limit where "rest_order cfg req limit terms 0 v = Some (x, v')"
    | now where "cancel_on_arrival req now v = Some (x, v')"
    | m reference filled unfilled where "aggress cfg req m terms rem reference filled unfilled v = Some (x, v')"
    by (auto simp: fill_on_arrival_def Let_def bind_eq_Some_conv split: option.splits if_splits remainder.splits)
  then show ?thesis
    by cases (blast intro: rel_on_arrival rel_rest_order [OF ex] rel_aggress [OF ex])+
qed

lemma rel_place_order:
  assumes "exact cfg" and "place_order cfg req market terms limit v = Some (x, v')"
  shows "rel a 0 v v'"
  using assms by (auto simp: place_order_def Let_def intro: rel_on_arrival rel_fill_on_arrival rel_rest_order rel_hold_on_arrival
      split: option.splits disposition.splits market_order_timing.splits)

lemma rel_stale_gate:
  assumes "exact cfg" and "stale_gate cfg req market terms v = Some (Some (x, v'))"
  shows "rel a 0 v v'"
  using assms by (auto simp: stale_gate_def Let_def intro: rel_on_arrival rel_hold_on_arrival
      split: stale_market_policy.splits venue_market_age.splits if_splits)

lemma rel_open_inner:
  assumes ex: "exact cfg" and step: "open_order_inner cfg req market v = Some (x, v')"
  shows "rel a 0 v v'"
proof -
  from step consider e where "refuse req e v = Some (x, v')"
    | terms where "stale_gate cfg req market terms v = Some (Some (x, v'))"
    | terms limit where "place_order cfg req market terms limit v = Some (x, v')"
    by (auto simp: open_order_inner_def Let_def split: Option.bind_splits sum.splits option.splits if_splits)
  then show ?thesis
    by cases (blast intro: rel_on_arrival rel_stale_gate [OF ex] rel_place_order [OF ex])+
qed

lemma rel_close_input: "close_input cfg es v = Some (es', v') \<Longrightarrow> rel a 0 v v'"
  by (rule rel_none) (auto simp: close_input_def report_debt_changes_def bind_eq_Some_conv
      dest!: refresh_silent(3) split: if_splits prod.splits)

lemma rel_open_order:
  assumes "exact cfg" and "venue_open_order cfg req v = Some (out, v')"
  shows "rel a 0 v v'"
  using assms
  by (auto simp: venue_open_order_def Let_def bind_eq_Some_conv intro: rel_then [OF rel_open_inner rel_close_input])

lemma rel_cancel_order:
  assumes ex: "exact cfg" and step: "venue_cancel_order cfg req v = Some (out, v')"
  shows "rel a 0 v v'"
proof -
  obtain r v1 where t: "take_order (key_cid (ev_key req)) v = (r, v1)" by fastforce
  show ?thesis
  proof (cases r)
    case None
    with step t take_effect(1) [OF t] show ?thesis by (simp add: venue_cancel_order_def Let_def rel_refl)
  next
    case (Some o')
    with step t obtain released v2 es es' v3 y where "release_held cfg (rs_reservation o') (vn_time_exchange v) v1 = Some (released, v2)"
      and "close_input cfg es v2 = Some (es', v3)" and "v' = to_account (ack_cancelled y) v3"
      by (auto simp: venue_cancel_order_def Let_def bind_eq_Some_conv)
    with rel_then [OF rel_then [OF rel_release_held [OF ex] rel_close_input] rel_ack(1)]
    have "rel a (- holds_in a (rs_reservation o')) v1 v'" by blast
    from rel_trans [OF rel_take_order [of _ v _ v1] this, of "key_cid (ev_key req)"] t Some show ?thesis by simp
  qed
qed

end

end
