(* ===== verification/Venue_Ledger_Market.thy ===== *)
theory Venue_Ledger_Market
  imports Venue_Ledger
begin

text \<open>
  The interface of \<open>Venue_Ledger\<close> carried through the rest of the venue: matching and releasing,
  liquidation, and the inputs that move its clock.
\<close>

context venue_relation begin

section \<open>Matching\<close>

lemma rel_fill_crossed:
  assumes ex: "exact cfg" and step: "fill_crossed cfg terms t r v = Some (es, v')"
  shows "rel a (- holds_in a (rs_reservation r)) v v'"
proof -
  obtain limit where l: "o_price (rs_order r) = Some limit"
    using step by (cases "o_price (rs_order r)") (simp_all add: fill_crossed_def)
  let ?ord = "rs_order r"
  obtain remaining where 1: "quantity_remaining (vc_round cfg) (o_state ?ord) (o_quantity ?ord) = Some remaining"
    using step l by (auto simp: fill_crossed_def Let_def bind_eq_Some_conv)
  obtain s where 2: "fill_settlement cfg v terms (position_of terms (instrument_of ?ord) (vn_positions v)) (o_side ?ord)
      remaining limit Maker = Some s"
    using step l 1 by (auto simp: fill_crossed_def Let_def bind_eq_Some_conv)
  obtain out v1 where 3: "settle_resting cfg ?ord terms (rs_reservation r) s t v = Some (out, v1)"
    using step l 1 2 by (auto simp: fill_crossed_def Let_def bind_eq_Some_conv)
  note rel1 = rel_settle_resting [OF ex 3, of a]
  show ?thesis
  proof (cases out)
    case (RestingUnaffordable released)
    with step l 1 2 3 have "cancel_unfilled cfg ?ord released t v1 = (es, v')" by (simp add: fill_crossed_def Let_def)
    from rel_then [OF rel1 rel_cancel_unfilled [OF this]] show ?thesis .
  next
    case (RestingSettled c0)
    obtain c v2 where 4: "take_fee_apart cfg s c0 t v1 = Some (c, v2)"
      using step l 1 2 3 RestingSettled by (auto simp: fill_crossed_def Let_def bind_eq_Some_conv)
    obtain tr v3 where 5: "print_fill cfg terms ?ord remaining limit (st_fees s) t v2 = Some (tr, v3)"
      using step l 1 2 3 4 RestingSettled by (auto simp: fill_crossed_def Let_def bind_eq_Some_conv)
    have "\<exists>f. v' = to_account (ack_filled f) v3"
      using step l 1 2 3 4 5 RestingSettled by (auto simp: fill_crossed_def Let_def)
    with rel_then [OF rel_then [OF rel_then [OF rel1 rel_fee_apart [OF ex 4]] rel_print_fill [OF 5]] rel_ack(3)]
    show ?thesis by blast
  qed
qed

lemma rel_match_resting:
  assumes "exact cfg" and "match_resting cfg i m t v = Some (es, v')"
  shows "rel a 0 v v'"
  using assms by (auto simp: match_resting_def Let_def intro: rel_refl rel_each_order rel_fill_crossed
      split: if_splits sum.splits)

section \<open>Releasing\<close>

lemma rel_fill_held:
  assumes ex: "exact cfg" and step: "fill_held cfg rel' terms t r v = Some (es, v')"
  shows "rel a (- holds_in a (rs_reservation r)) v v'"
proof (cases "cancel_with cfg (rs_order r) (rs_reservation r) t v = Some (es, v')")
  case True
  then show ?thesis by (rule rel_cancel_with [OF ex])
next
  case no: False
  let ?ord = "rs_order r" and ?i = "instrument_of (rs_order r)" and ?sd = "o_side (rs_order r)"
  obtain q where 1: "quantity_remaining (vc_round cfg) (o_state ?ord) (o_quantity ?ord) = Some q"
    using step by (auto simp: fill_held_def Let_def bind_eq_Some_conv)
  obtain modelled where 2: "vc_fill_model cfg ?sd q (release_market rel' ?sd) = Some modelled"
    using step 1 by (auto simp: fill_held_def Let_def bind_eq_Some_conv)
  obtain ref where 3: "or_else modelled (release_reference rel' ?sd) = Some ref"
    using step 1 2 no by (cases "or_else modelled (release_reference rel' ?sd)") (auto simp: fill_held_def Let_def)
  let ?filled = "capped_by q (depth_available ?i ?sd v)"
  have 4: "\<not> (?filled \<le> 0 \<or> (?filled < q \<and> o_time_in_force ?ord = FillOrKill))"
    using step 1 2 3 no by (auto simp: fill_held_def Let_def)
  obtain price v1 where 5: "venue_slip cfg ?sd ref v = Some (price, v1)"
    using step 1 2 3 4 by (auto simp: fill_held_def Let_def bind_eq_Some_conv)
  obtain s where 6: "fill_settlement cfg v1 terms (position_of terms ?i (vn_positions v1)) ?sd ?filled price Taker = Some s"
    using step 1 2 3 4 5 by (auto simp: fill_held_def Let_def bind_eq_Some_conv)
  obtain out v2 where 7: "settle_resting_afresh cfg ?ord terms (rs_reservation r) s t v1 = Some (out, v2)"
    using step 1 2 3 4 5 6 by (auto simp: fill_held_def Let_def bind_eq_Some_conv)
  note rel1 = rel_after [OF rel_none [OF slip_silent [OF 5]] rel_settle_afresh [OF ex 7, of a]]
  show ?thesis
  proof (cases out)
    case (RestingUnaffordable released)
    with step 1 2 3 4 5 6 7 have "cancel_unfilled cfg ?ord released t (v2\<lparr>vn_slippage := vn_slippage v\<rparr>) = (es, v')"
      by (auto simp: fill_held_def Let_def)
    from rel_then [OF rel_then [OF rel1 rel_silent] rel_cancel_unfilled [OF this]] show ?thesis by simp
  next
    case (RestingSettled c0)
    obtain c v3 where 8: "take_fee_apart cfg s c0 t v2 = Some (c, v3)"
      using step 1 2 3 4 5 6 7 RestingSettled by (auto simp: fill_held_def Let_def bind_eq_Some_conv)
    obtain v4 where 9: "consume_depth cfg ?i ?sd ?filled v3 = Some v4"
      using step 1 2 3 4 5 6 7 8 RestingSettled by (auto simp: fill_held_def Let_def bind_eq_Some_conv)
    obtain tr v5 where 10: "print_fill cfg terms ?ord ?filled price (st_fees s) t v4 = Some (tr, v5)"
      using step 1 2 3 4 5 6 7 8 9 RestingSettled by (auto simp: fill_held_def Let_def bind_eq_Some_conv)
    have "(\<exists>f. v' = to_account (ack_filled f) v5) \<or> (\<exists>f. v' = to_account (ack_cancelled f) v5)"
      using step 1 2 3 4 5 6 7 8 9 10 RestingSettled by (auto simp: fill_held_def Let_def split: if_splits)
    moreover have "rel a (- holds_in a (rs_reservation r)) v v5"
      by (rule rel_then [OF rel_then [OF rel_then [OF rel1 rel_fee_apart [OF ex 8]] rel_none [OF consume_silent [OF 9]]]
        rel_print_fill [OF 10]])
    ultimately show ?thesis using rel_then rel_ack by blast
  qed
qed

lemma rel_release_fill:
  assumes "release_fill cfg rel' terms ord limit q filled v = Some (fill, v')"
  shows "rel a 0 v v'"
  using assms by (auto simp: release_fill_def Let_def bind_eq_Some_conv intro: rel_refl rel_none [OF slip_silent] split: if_splits)

lemma release_fill_pays:
  "release_fill cfg rel' terms ord limit q filled v = Some (Some (price, s), v') \<Longrightarrow> st_asset s = pays_with terms (o_side ord)"
  by (auto simp: release_fill_def Let_def bind_eq_Some_conv dest: fill_settlement_pays split: if_splits)

lemma rel_release_print:
  assumes "exact cfg" and "release_print cfg terms ord fill filled c t v = Some (x, v')"
  shows "rel a 0 v v'"
  using assms by (cases fill) (auto simp: release_print_def bind_eq_Some_conv intro: rel_refl
      rel_then [OF rel_fee_apart rel_then [OF rel_none [OF consume_silent] rel_print_fill]])

lemma rel_release_terminal:
  assumes "exact cfg" and "release_terminal cfg ord held effect filled_total loan excess c tr t v = Some (x, v')"
    and d: "case held of None \<Rightarrow> reserves a d = 0
      | Some h \<Rightarrow> \<exists>y. requirement Some h = Some y \<and> reserves a d = (if a = st_asset h then y else 0)"
  shows "rel a (- reserves a d) v v'"
proof (cases held)
  case None
  with assms show ?thesis by (auto simp: release_terminal_def Let_def rel_ack split: option.splits)
next
  case (Some h)
  with d obtain y where y: "requirement Some h = Some y" "reserves a d = (if a = st_asset h then y else 0)" by auto
  with assms(1,2) Some obtain r ord' where b: "book_rested ord' r v = Some v'" and "rv_asset r = st_asset h" "rv_amount r = y"
    by (auto simp: release_terminal_def Let_def bind_eq_Some_conv split: prod.splits)
  with rel_book [OF b, of a] y show ?thesis by (auto simp: holds_in_def split: if_splits)
qed

lemma release_debit_holds:
  assumes "release_debit Some fill held = Some (d, credit)"
    and "\<And>p f. fill = Some (p, f) \<Longrightarrow> st_asset f = asset" and "\<And>h. held = Some h \<Longrightarrow> st_asset h = asset"
  shows "case held of None \<Rightarrow> reserves a d = 0
    | Some h \<Rightarrow> \<exists>y. requirement Some h = Some y \<and> reserves a d = (if a = st_asset h then y else 0)"
  using assms by (cases d) (auto simp: release_debit_def settled_holding_def reserved_debit_def settled_debit_def reserves_def
      bind_eq_Some_conv split: option.splits)

lemma rel_release_held_limit:
  assumes ex: "exact cfg" and step: "release_held_limit cfg rel' terms t limit r v = Some (es, v')"
  shows "rel a (- holds_in a (rs_reservation r)) v v'"
proof (cases "cancel_with cfg (rs_order r) (rs_reservation r) t v = Some (es, v')")
  case True
  then show ?thesis by (rule rel_cancel_with [OF ex])
next
  case no: False
  let ?ord = "rs_order r" and ?i = "instrument_of (rs_order r)" and ?sd = "o_side (rs_order r)"
  let ?res = "rs_reservation r" and ?R = "vc_round cfg"
  let ?marketable = "crosses ?sd limit (release_market rel' ?sd)"
  obtain q where 1: "quantity_remaining ?R (o_state ?ord) (o_quantity ?ord) = Some q"
    using step by (auto simp: release_held_limit_def Let_def bind_eq_Some_conv)
  have 2: "\<not> (?marketable \<and> post_only (o_time_in_force ?ord))"
    using step 1 no by (auto simp: release_held_limit_def Let_def)
  let ?filled = "if \<not> ?marketable then 0 else capped_by q (depth_available ?i ?sd v)"
  obtain unfilled where 3: "dec_sub ?R q ?filled = Some unfilled"
    using step 1 2 by (auto simp: release_held_limit_def Let_def bind_eq_Some_conv)
  obtain fill v1 where 4: "release_fill cfg rel' terms ?ord limit q ?filled v = Some (fill, v1)"
    using step 1 2 3 by (auto simp: release_held_limit_def Let_def bind_eq_Some_conv)
  obtain held where 5: "held_remainder cfg terms (position_of terms ?i (vn_positions v)) ?sd
      (map_option (\<lambda>(price, _). (?filled, price)) fill) unfilled limit = Some held"
    using step 1 2 3 4 by (auto simp: release_held_limit_def Let_def bind_eq_Some_conv)
  obtain d credit where 6: "release_debit ?R fill held = Some (d, credit)"
    using step 1 2 3 4 5 by (auto simp: release_held_limit_def Let_def bind_eq_Some_conv)
  obtain out v2 where 7: "commit_afresh cfg ?ord terms ?res d credit t v1 = Some (out, v2)"
    using step 1 2 3 4 5 6 by (auto simp: release_held_limit_def Let_def bind_eq_Some_conv)
  note rel1 = rel_after [OF rel_release_fill [OF 4] rel_commit_afresh [OF ex 7, of a]]
  show ?thesis
  proof (cases out)
    case (Unaffordable released)
    with step 1 2 3 4 5 6 7 have "cancel_unfilled cfg ?ord released t (v2\<lparr>vn_slippage := vn_slippage v\<rparr>) = (es, v')"
      by (auto simp: release_held_limit_def Let_def)
    from rel_then [OF rel_then [OF rel1 rel_silent] rel_cancel_unfilled [OF this]] Unaffordable show ?thesis by simp
  next
    case (Recommitted c loan excess)
    obtain c1 tr v3 where 8: "release_print cfg terms ?ord fill ?filled c t v2 = Some ((c1, tr), v3)"
      using step 1 2 3 4 5 6 7 Recommitted by (auto simp: release_held_limit_def Let_def bind_eq_Some_conv)
    obtain filled_total where 9: "(if fill = None then Some (open_filled_quantity (o_state ?ord))
        else dec_add ?R (open_filled_quantity (o_state ?ord)) ?filled) = Some filled_total"
      using step 1 2 3 4 5 6 7 8 Recommitted by (auto simp: release_held_limit_def Let_def bind_eq_Some_conv)
    obtain x where 10: "release_terminal cfg ?ord held (reservation_effect cfg ?res) filled_total loan excess c1 tr t v3 = Some (x, v')"
      using step 1 2 3 4 5 6 7 8 9 Recommitted by (auto simp: release_held_limit_def Let_def bind_eq_Some_conv)
    have "case held of None \<Rightarrow> reserves a d = 0
        | Some h \<Rightarrow> \<exists>y. requirement Some h = Some y \<and> reserves a d = (if a = st_asset h then y else 0)"
    proof (rule release_debit_holds)
      show "release_debit Some fill held = Some (d, credit)" using 6 ex by simp
      show "st_asset f = pays_with terms ?sd" if "fill = Some (p, f)" for p f
        using release_fill_pays 4 that by blast
      show "st_asset h = pays_with terms ?sd" if "held = Some h" for h
        using held_remainder_pays 5 that by blast
    qed
    note booked = rel_release_terminal [OF ex 10 this]
    from rel_step [OF rel_then [OF rel1 rel_release_print [OF ex 8]] booked] Recommitted show ?thesis by simp
  qed
qed

lemma rel_venue_release:
  assumes ex: "exact cfg" and step: "venue_release cfg i rel' t v = Some (es, v')"
  shows "rel a 0 v v'"
proof -
  obtain held st where h: "account_take_held i (vn_account v) = (held, st)" by fastforce
  have "rel a 0 v (v\<lparr>vn_account := st\<rparr>)"
    using h by (intro rel_ledger) (auto simp: account_take_held_def oo_take_held_def used_of_def held_balance_def)
  moreover have "rel a 0 (v\<lparr>vn_account := st\<rparr>) v'"
  proof -
    have one: "rel a (- holds_in a (rs_reservation r)) v v'" if "release_one cfg rel' terms t r v = Some (es, v')" for terms r v es v'
      using that by (auto simp: release_one_def intro: rel_release_held_limit [OF ex] rel_fill_held [OF ex] split: option.splits)
    show ?thesis using step h
      by (auto simp: venue_release_def Let_def intro: rel_refl rel_each_order [OF one] split: if_splits sum.splits)
  qed
  ultimately show ?thesis by (rule rel_then)
qed

lemma rel_expire_held:
  assumes ex: "exact cfg" and step: "expire_held cfg t v = Some (es, v')"
  shows "rel a 0 v v'"
  using step
  by (auto simp: expire_held_def Let_def bind_eq_Some_conv
      intro: rel_then [OF rel_each_order [OF rel_retire_expired [OF ex]] rel_close_input])

section \<open>Observing\<close>

lemma record_borrow_silent:
  "record_borrow_price cfg i m bar t v = Some v' \<Longrightarrow>
    vn_account v' = vn_account v \<and> vn_trade_sequence v' = vn_trade_sequence v"
  by (auto simp: record_borrow_price_def Let_def split: Option.bind_splits option.splits if_splits list.splits)

lemma observe_silent:
  "vn_account (observe_market i obs t v) = vn_account v \<and> vn_trade_sequence (observe_market i obs t v) = vn_trade_sequence v"
  by (simp add: observe_market_def Let_def)

lemma rel_act:
  assumes ex: "exact cfg" and step: "act_on_observation cfg i obs t v = Some (es, v')"
  shows "rel a 0 v v'"
proof -
  have matched: "rel a 0 v v'" if "(if c then match_resting cfg i m t v else Some ([], v)) = Some (es, v')" for c m v v' es
    using that by (auto intro: rel_refl rel_match_resting [OF ex] split: if_splits)
  have released: "rel a 0 v v'" if "(if c then venue_release cfg i r t v else Some ([], v)) = Some (es, v')" for c r v v' es
    using that by (auto intro: rel_refl rel_venue_release [OF ex] split: if_splits)
  show ?thesis
  proof (cases "vc_market_order_timing cfg")
    case OnArrival
    with step obtain es1 v1 es2 where
        "(if mo_fresh obs \<or> \<not> waits_for_fresh cfg then match_resting cfg i (mo_snapshot obs) t v else Some ([], v)) = Some (es1, v1)"
      and "(if mo_fresh obs \<and> waits_for_fresh cfg then venue_release cfg i (ReleaseMarket (mo_snapshot obs)) t v1
        else Some ([], v1)) = Some (es2, v')"
      by (auto simp: act_on_observation_def Let_def bind_eq_Some_conv)
    from rel_then [OF matched [OF this(1)] released [OF this(2)]] show ?thesis .
  next
    case (NextBar price)
    with step obtain es1 v1 es2 where
        1: "(case mo_bar obs of None \<Rightarrow> Some ([], v) | Some bar \<Rightarrow> if bar_releases cfg obs
          then venue_release cfg i (ReleaseBar bar price) t v else cancel_held_immediate cfg i t v) = Some (es1, v1)"
      and 2: "(if mo_fresh obs \<or> \<not> waits_for_fresh cfg then match_resting cfg i (mo_snapshot obs) t v1 else Some ([], v1)) = Some (es2, v')"
      by (auto simp: act_on_observation_def Let_def bind_eq_Some_conv)
    from 1 have "rel a 0 v v1"
      by (auto intro: rel_refl rel_venue_release [OF ex] rel_cancel_immediate [OF ex] split: option.splits if_splits)
    from rel_then [OF this matched [OF 2]] show ?thesis .
  qed
qed

section \<open>Liquidating\<close>

lemma rel_find_leg:
  assumes "find_leg cfg pay receive want v = Some (l, v')"
  shows "rel a 0 v v'"
proof -
  have "v' = v \<or> (\<exists>sd x p. venue_slip cfg sd x v = Some (p, v'))"
    using assms by (auto simp: find_leg_def Let_def split: Option.bind_splits option.splits sum.splits side.splits
        credit.splits if_splits prod.splits)
  then show ?thesis using rel_refl rel_none [OF slip_silent] by blast
qed

lemma rel_fill_leg:
  assumes ex: "exact cfg" and step: "fill_leg cfg l want t v = Some (out, v')"
  shows "rel a 0 v v'"
proof (cases "v' = v")
  case False
  let ?R = "vc_round cfg"
  let ?budget = "account_free (lg_pay l) (vn_account v)"
  obtain whole where 1: "dec_div ?R ?budget (lg_paid_per_unit l) = Some whole"
    using step by (auto simp: fill_leg_def Let_def bind_eq_Some_conv)
  let ?cap = "capped_by whole (depth_available (lg_instrument l) (lg_side l) v)"
  obtain wanted where 2: "dec_div ?R want (lg_delivered_per_unit l) = Some wanted"
    using step 1 by (auto simp: fill_leg_def Let_def bind_eq_Some_conv)
  obtain affordable where 3: "nudge cfg v l want ?budget 4 (min wanted ?cap) ?cap None = Some affordable"
    using step 1 2 by (auto simp: fill_leg_def Let_def bind_eq_Some_conv)
  with step 1 2 False obtain q s where 4: "affordable = Some (q, s)" by (cases affordable) (auto simp: fill_leg_def Let_def)
  obtain o' v1 where 5: "venue_commit cfg (settled_debit s) (Some (st_credit s)) Repay (lg_terms l) None None t v = Some (o', v1)"
    using step 1 2 3 4 by (auto simp: fill_leg_def Let_def bind_eq_Some_conv)
  have rel1: "rel a 0 v v1"
    using rel_venue_commit [OF ex 5, of a] by (simp add: settled_debit_holds split: sum.splits)
  show ?thesis
  proof (cases o')
    case (Inl e)
    with step 1 2 3 4 5 rel1 show ?thesis by (simp add: fill_leg_def Let_def)
  next
    case (Inr c0)
    obtain c v2 where 6: "take_fee_apart cfg s c0 t v1 = Some (c, v2)"
      using step 1 2 3 4 5 Inr by (auto simp: fill_leg_def Let_def bind_eq_Some_conv)
    obtain v3 where 7: "consume_depth cfg (lg_instrument l) (lg_side l) q v2 = Some v3"
      using step 1 2 3 4 5 6 Inr by (auto simp: fill_leg_def Let_def bind_eq_Some_conv)
    obtain oid v4 where 8: "order_id_fetch_add v3 = (oid, v4)" by fastforce
    obtain tid v5 where 9: "trade_id_fetch_add v4 = (tid, v5)" by fastforce
    have v': "v' = to_account (ack_trade (forced_trade l tid oid q (st_fees s) t)) v5"
      using step 1 2 3 4 5 6 7 8 9 Inr by (auto simp: fill_leg_def Let_def)
    have "rel a 0 v4 v'" using rel_print [of "forced_trade l tid oid q (st_fees s) t" v4 a] 9
      by (simp add: v' forced_trade_def)
    with rel_then [OF rel_then [OF rel_then [OF rel1 rel_fee_apart [OF ex 6]] rel_none [OF consume_silent [OF 7]]]
        rel_none [OF ids_silent(2) [OF 8]]] show ?thesis by (rule rel_then)
  qed
qed (simp add: rel_refl)

lemma rel_raise_from:
  assumes ex: "exact cfg"
  shows "raise_from cfg valuation t as need v = Some (es, v') \<Longrightarrow> rel a 0 v v'"
proof (induction as arbitrary: need v es)
  case Nil
  then show ?case by (simp add: rel_refl)
next
  case (Cons b as)
  show ?case
  proof (cases "need \<le> 0")
    case True
    with Cons.prems show ?thesis by (simp add: rel_refl)
  next
    case False
    with Cons.prems obtain l v1 where 1: "find_leg cfg b valuation need v = Some (l, v1)"
      by (auto simp: bind_eq_Some_conv)
    have "rel a 0 v1 v'"
    proof (cases l)
      case None
      with Cons.prems False 1 have "raise_from cfg valuation t as need v1 = Some (es, v')" by simp
      then show ?thesis by (rule Cons.IH)
    next
      case (Some l')
      with Cons.prems False 1 obtain out v2 need' es' where "fill_leg cfg l' need t v1 = Some (out, v2)"
        and "raise_from cfg valuation t as need' v2 = Some (es', v')"
        by (auto simp: bind_eq_Some_conv)
      with rel_then [OF rel_fill_leg [OF ex] Cons.IH] show ?thesis by blast
    qed
    with rel_find_leg [OF 1] show ?thesis by (rule rel_then)
  qed
qed

lemma rel_raise: "exact cfg \<Longrightarrow> raise cfg valuation need t v = Some (es, v') \<Longrightarrow> rel a 0 v v'"
  unfolding raise_def by (rule rel_raise_from)

lemma rel_buy_back:
  assumes ex: "exact cfg" and step: "buy_back cfg valuation t b v = Some (es, v')"
  shows "rel a 0 v v'"
proof -
  obtain due' where 1: "owed_of (vc_round cfg) b (vn_account v) = Some due'"
    using step by (auto simp: buy_back_def Let_def bind_eq_Some_conv)
  show ?thesis
  proof (cases "due' \<le> 0")
    case True
    with step 1 show ?thesis by (simp add: buy_back_def Let_def rel_refl)
  next
    case False
    with step 1 obtain l v1 where 2: "find_leg cfg valuation b due' v = Some (l, v1)"
      by (auto simp: buy_back_def Let_def bind_eq_Some_conv)
    have "rel a 0 v1 v'"
    proof (cases l)
      case None
      with step 1 2 False show ?thesis by (simp add: buy_back_def Let_def rel_refl)
    next
      case (Some l')
      with step 1 2 False obtain short es1 v2 out where "raise cfg valuation short t v1 = Some (es1, v2)"
        and "fill_leg cfg l' due' t v2 = Some (out, v')"
        by (auto simp: buy_back_def Let_def bind_eq_Some_conv)
      with rel_then [OF rel_raise [OF ex] rel_fill_leg [OF ex]] show ?thesis by blast
    qed
    with rel_find_leg [OF 2] show ?thesis by (rule rel_then)
  qed
qed

lemma rel_liquidation_fee:
  assumes ex: "exact cfg" and step: "charge_liquidation_fee cfg valuation fee rate repaid t v = Some (es, v')"
  shows "rel a 0 v v'"
proof -
  from step ex obtain short es1 v1 d ab v2 where 1: "raise cfg valuation short t v = Some (es1, v1)"
    and 2: "on_account (deliver Some d NoSideEffect t) v1 = Some (ab, v2)" and 3: "v' = snd (cash_flow_id_fetch_add v2)"
    by (auto simp: charge_liquidation_fee_def Let_def bind_eq_Some_conv cash_flow_id_fetch_add_def)
  from rel_then [OF rel_then [OF rel_raise [OF ex 1] on_deliver [OF 2]] rel_silent] show ?thesis
    by (simp add: 3 cash_flow_id_fetch_add_def)
qed

lemma rel_each_asset:
  assumes f: "\<And>b v es v'. f b v = Some (es, v') \<Longrightarrow> rel a 0 v v'"
  shows "each_asset f as v = Some (es, v') \<Longrightarrow> rel a 0 v v'"
  by (induction as arbitrary: v es) (auto simp: bind_eq_Some_conv rel_refl intro: rel_then [OF f])

lemma rel_repay_from_free:
  assumes "exact cfg" and "repay_from_free cfg t b v = Some (es, v')"
  shows "rel a 0 v v'"
  using assms by (auto simp: repay_from_free_def bind_eq_Some_conv intro: rel_refl on_repay_loan split: if_splits)

lemma rel_cancel_every:
  "exact cfg \<Longrightarrow> cancel_every_order cfg t v = Some (es, v') \<Longrightarrow> rel a 0 v v'"
  unfolding cancel_every_order_def by (rule rel_each_order) (auto simp: cancel_resting_with intro: rel_cancel_with)

lemma rel_liquidate:
  assumes ex: "exact cfg" and step: "liquidate cfg lq valuation level t v = Some (es, v')"
  shows "rel a 0 v v'"
proof -
  obtain es0 v0 where 0: "start_liquidation cfg level t v = (es0, v0)" by fastforce
  obtain es1 v1 where 1: "cancel_every_order cfg t v0 = Some (es1, v1)"
    using step 0 by (auto simp: liquidate_def Let_def bind_eq_Some_conv)
  obtain due1 es2 v2 where 2: "each_asset (repay_from_free cfg t) due1 v1 = Some (es2, v2)"
    and r1: "owed_assets (vc_round cfg) (vn_account v1) = Some due1"
    using step 0 1 by (auto simp: liquidate_def Let_def bind_eq_Some_conv)
  obtain need es3 v3 where 3: "raise cfg valuation need t v2 = Some (es3, v3)"
    and r2: "owed_of (vc_round cfg) valuation (vn_account v2) = Some need"
    using step 0 1 2 r1 by (auto simp: liquidate_def Let_def bind_eq_Some_conv)
  obtain due3 es4 v4 where 4: "each_asset (buy_back cfg valuation t) (filter (\<lambda>a. a \<noteq> valuation) due3) v3 = Some (es4, v4)"
    and r3: "owed_assets (vc_round cfg) (vn_account v3) = Some due3"
    using step 0 1 2 3 r1 r2 by (auto simp: liquidate_def Let_def bind_eq_Some_conv)
  obtain c fee rate repaid es5 v5 where 5: "(if c then charge_liquidation_fee cfg valuation fee rate repaid t v4 else Some ([], v4)) = Some (es5, v5)"
    and v': "vn_account v' = vn_account v5 \<and> vn_trade_sequence v' = vn_trade_sequence v5"
    using step 0 1 2 3 4 r1 r2 r3 by (auto simp: liquidate_def Let_def bind_eq_Some_conv)
  have "rel a 0 v v0" using 0 by (intro rel_none) (auto simp: start_liquidation_def split: if_splits)
  moreover have "rel a 0 v4 v5" using 5 by (auto intro: rel_refl rel_liquidation_fee [OF ex] split: if_splits)
  moreover have "rel a 0 v1 v2" using 2 by (rule rel_each_asset [rotated]) (rule rel_repay_from_free [OF ex])
  moreover have "rel a 0 v3 v4" using 4 by (rule rel_each_asset [rotated]) (rule rel_buy_back [OF ex])
  ultimately show ?thesis
    using rel_cancel_every [OF ex 1] rel_raise [OF ex 3] rel_none [OF v'] by (blast intro: rel_then)
qed

lemma rel_check_margin:
  assumes ex: "exact cfg" and step: "check_margin cfg t v = Some (es, v')"
  shows "rel a 0 v v'"
proof -
  have silent: "rel a 0 v v'" if "check_margin_call cfg lq level t v = (es, v') \<or> clear_liquidation cfg t v = (es, v')" for lq level
    using that by (intro rel_none) (auto simp: check_margin_call_def clear_liquidation_def Let_def split: option.splits if_splits)
  from step have "v' = v \<or> (\<exists>lq level. check_margin_call cfg lq level t v = (es, v') \<or> clear_liquidation cfg t v = (es, v')) \<or>
      (\<exists>lq valuation level. liquidate cfg lq valuation level t v = Some (es, v'))"
    by (auto simp: check_margin_def split: Option.bind_splits option.splits if_splits)
  then show ?thesis using silent rel_refl rel_liquidate [OF ex] by blast
qed

section \<open>The clock\<close>

lemma rel_charge_due:
  assumes ex: "exact cfg"
  shows "charge_due cfg ds v = Some (es, v') \<Longrightarrow> rel a 0 v v'"
proof (induction ds arbitrary: v es)
  case Nil
  then show ?case by (simp add: rel_refl)
next
  case (Cons d ds)
  obtain b x where d: "d = (b, x)" by fastforce
  have holding: "rel a 0 v v1" if "charge_holding_cost cfg b i n v = Some (es, v1)" for i n es v1
    using that ex by (auto simp: charge_holding_cost_def Let_def cash_flow_id_fetch_add_def
        intro: rel_refl rel_then [OF on_charge rel_silent] split: Option.bind_splits option.splits if_splits)
  have interest: "rel a 0 v v1" if "charge_interest_boundary cfg b as p v = Some (es, v1)" for as p es v1
    using that by (auto simp: charge_interest_boundary_def bind_eq_Some_conv intro: rel_charge_interest [OF ex])
  obtain es1 v1 es2 where "(case x of DueHolding i n \<Rightarrow> charge_holding_cost cfg b i n v
      | DueInterest a p \<Rightarrow> charge_interest_boundary cfg b a p v) = Some (es1, v1)"
    and rest: "charge_due cfg ds v1 = Some (es2, v')"
    using Cons.prems d by (auto simp: bind_eq_Some_conv)
  then have "rel a 0 v v1" using holding interest by (cases x) auto
  from rel_then [OF this Cons.IH [OF rest]] show ?case .
qed

lemma rel_accrue:
  assumes ex: "exact cfg" and step: "accrue cfg now v = Some (es, v')"
  shows "rel a 0 v v'"
proof (cases "vn_accrued_through v")
  case None
  with step show ?thesis
    by (intro rel_none) (auto simp: accrue_def bind_eq_Some_conv dest!: refresh_silent)
next
  case (Some after)
  consider "v' = v" | v1 where "refresh_next_interest_if_loans_changed cfg v = Some v1" and "v' = v1\<lparr>vn_accrued_through := Some now\<rparr>"
    | v1 ds v3 v4 where "refresh_next_interest_if_loans_changed cfg v = Some v1"
      and "charge_due cfg ds (v1\<lparr>vn_accrued_through := Some now\<rparr>) = Some (es, v3)"
      and "refresh_next_charge cfg v3 = Some v4" and "refresh_next_interest cfg v4 = Some v'"
    using step Some by (auto simp: accrue_def Let_def bind_eq_Some_conv split: if_splits)
  then show ?thesis
  proof cases
    case 1
    then show ?thesis by (simp add: rel_refl)
  next
    case 2
    with refresh_silent(3) [OF 2(1)] show ?thesis by (intro rel_none) simp
  next
    case 3
    have "rel a 0 v (v1\<lparr>vn_accrued_through := Some now\<rparr>)" using refresh_silent(3) [OF 3(1)] by (intro rel_none) simp
    from rel_then [OF rel_then [OF rel_then [OF this rel_charge_due [OF ex 3(2)]] rel_none [OF refresh_silent(1) [OF 3(3)]]]
        rel_none [OF refresh_silent(2) [OF 3(4)]]] show ?thesis .
  qed
qed

lemma rel_time: "rel a 0 v (to_account (update_time_exchange t) (v\<lparr>vn_time_exchange := t'\<rparr>))"
proof -
  have "used_of a (update_time_exchange t st) = used_of a st" for st :: "('e, cash_flow) account_state"
    by (simp add: used_of_def held_balance_def update_time_exchange_def split: option.splits)
  then have "rel a 0 (v\<lparr>vn_time_exchange := t'\<rparr>) (to_account (update_time_exchange t) (v\<lparr>vn_time_exchange := t'\<rparr>))"
    unfolding to_account_def by (intro rel_ledger) (simp_all add: update_time_exchange_def)
  then show ?thesis by (rule rel_after [OF rel_silent, rotated 2]) simp_all
qed

lemma rel_advance_time:
  assumes ex: "exact cfg" and step: "advance_time cfg instant v = Some (es, v')"
  shows "rel a 0 v v'"
proof -
  let ?t = "not_before_reached instant v"
  obtain es1 v1 es2 v3 es3 v4 es4 where 1: "accrue cfg ?t v = Some (es1, v1)"
    and 2: "sweep_expired cfg ?t (to_account (update_time_exchange ?t) (v1\<lparr>vn_time_exchange := ?t\<rparr>)) = Some (es2, v3)"
    and 3: "check_margin cfg ?t v3 = Some (es3, v4)" and 4: "close_input cfg es4 v4 = Some (es, v')"
    using step by (auto simp: advance_time_def Let_def bind_eq_Some_conv)
  show ?thesis
    by (rule rel_then [OF rel_accrue [OF ex 1] rel_then [OF rel_time rel_then [OF rel_sweep [OF ex 2]
      rel_then [OF rel_check_margin [OF ex 3] rel_close_input [OF 4]]]]])
qed

lemma rel_apply_market:
  assumes ex: "exact cfg" and step: "apply_market cfg i obs instant v = Some (es, v')"
  shows "rel a 0 v v'"
proof -
  let ?t = "not_before_reached instant v"
  obtain es1 v1 v2 es2 v3 es3 v4 es4 v5 es5 where 1: "accrue cfg ?t v = Some (es1, v1)"
    and 2: "record_borrow_price cfg i (mo_snapshot obs) (mo_bar obs) ?t (observe_market i obs ?t v1) = Some v2"
    and 3: "sweep_expired cfg ?t v2 = Some (es2, v3)" and 4: "act_on_observation cfg i obs ?t v3 = Some (es3, v4)"
    and 5: "check_margin cfg ?t v4 = Some (es4, v5)" and 6: "close_input cfg es5 v5 = Some (es, v')"
    using step by (auto simp: apply_market_def Let_def bind_eq_Some_conv)
  show ?thesis
    by (rule rel_then [OF rel_accrue [OF ex 1] rel_then [OF rel_none [OF observe_silent] rel_then [OF
      rel_none [OF record_borrow_silent [OF 2]] rel_then [OF rel_sweep [OF ex 3] rel_then [OF rel_act [OF ex 4]
      rel_then [OF rel_check_margin [OF ex 5] rel_close_input [OF 6]]]]]]])
qed

end

end
