(* ===== verification/Venue_Runs.thy ===== *)
theory Venue_Runs
  imports Venue_Ledger_Market
begin

text \<open>
  What holds of a simulated venue whatever its clients and its market do: the interface of
  \<open>Venue_Ledger\<close> instantiated twice, and the runs of the venue from its initial state. What is not
  free of an asset is what was not free when the venue was built and what the open orders reserve;
  the ids of its trades count up from zero; the ids of its orders are new.
\<close>

section \<open>Ids\<close>

lemma digit_value: "d < 10 \<Longrightarrow> (of_char (digit_char d) :: nat) = 48 + d"
  by (simp add: digit_char_def of_char_of)

lemma digits_value_snoc: "digits_value (s @ [c]) = 10 * digits_value s + (of_char c - 48)"
  by (simp add: digits_value_def)

lemma decimal_string_value: "digits_value (decimal_string n) = n"
proof (induction n rule: decimal_string.induct)
  case (1 n)
  show ?case
  proof (cases "n < 10")
    case True
    then show ?thesis by (subst decimal_string.simps) (simp add: digits_value_def digit_value)
  next
    case False
    with 1 show ?thesis by (subst decimal_string.simps) (simp add: digits_value_snoc digit_value)
  qed
qed

lemma decimal_string_digits: "decimal_string n \<noteq> [] \<and> list_all is_digit (decimal_string n)"
proof (induction n rule: decimal_string.induct)
  case (1 n)
  have "is_digit (digit_char d)" if "d < 10" for d using that by (simp add: is_digit_def digit_value)
  with 1 show ?case by (subst (1 2) decimal_string.simps) simp
qed

lemma decimal_string_inject: "decimal_string m = decimal_string n \<Longrightarrow> m = n"
  by (metis decimal_string_value)

lemma parse_decimal_string: "parse_u64 (decimal_string n) = (if n < 2 ^ 64 then Some n else None)"
proof -
  obtain c cs where c: "decimal_string n = c # cs" using decimal_string_digits [of n] by (cases "decimal_string n") auto
  then have "is_digit c" using decimal_string_digits [of n] by simp
  then have "c \<noteq> CHR ''+''" by (auto simp: is_digit_def)
  with c decimal_string_digits [of n] show ?thesis
    using decimal_string_value [of n] by (simp add: parse_u64_def Let_def)
qed

lemma fold_max_upper: "x \<le> fold max xs (x :: nat) \<and> (\<forall>y \<in> set xs. y \<le> fold max xs x)"
proof (induction xs arbitrary: x)
  case (Cons y ys)
  from Cons.IH [of "max y x"] show ?case by auto
qed simp

lemma first_unseeded_upper:
  assumes "i \<in> set ids" and "parse_u64 i = Some n"
  shows "n < first_unseeded_order_id ids"
proof -
  have "n \<in> set (List.map_filter parse_u64 ids)" using assms by (force simp: List.map_filter_def)
  then show ?thesis
    using fold_max_upper by (cases "List.map_filter parse_u64 ids") (fastforce simp: first_unseeded_order_id_def less_Suc_eq_le)+
qed

lemma first_unseeded_fresh:
  "first_unseeded_order_id ids + k < 2 ^ 64 \<Longrightarrow> decimal_string (first_unseeded_order_id ids + k) \<notin> set ids"
  using first_unseeded_upper parse_decimal_string [of "first_unseeded_order_id ids + k"] by fastforce

section \<open>Runs\<close>

inductive venue_step :: "('e, 'g) venue_config \<Rightarrow> ('e, 'g) venue \<Rightarrow> ('e, 'g) venue \<Rightarrow> bool" for cfg where
  Open_order: "venue_open_order cfg req v = Some (out, v') \<Longrightarrow> venue_step cfg v v'"
| Cancel_order: "venue_cancel_order cfg req' v = Some (out', v') \<Longrightarrow> venue_step cfg v v'"
| Advance_time: "advance_time cfg t v = Some (es, v') \<Longrightarrow> venue_step cfg v v'"
| Apply_market: "apply_market cfg i obs t v = Some (es, v') \<Longrightarrow> venue_step cfg v v'"
| Expire_held: "expire_held cfg t v = Some (es, v') \<Longrightarrow> venue_step cfg v v'"

inductive_cases venue_stepE: "venue_step cfg v v'"

abbreviation venue_run :: "('e, 'g) venue_config \<Rightarrow> ('e, 'g) venue \<Rightarrow> ('e, 'g) venue \<Rightarrow> bool" where
  "venue_run cfg \<equiv> (venue_step cfg)\<^sup>*\<^sup>*"

context venue_relation begin

lemma rel_run: "venue_run cfg v v' \<Longrightarrow> exact cfg \<Longrightarrow> rel a 0 v v'"
proof (induction rule: rtranclp_induct)
  case base
  show ?case by (rule rel_refl)
next
  case (step v1 v2)
  from step.hyps(2) have "rel a 0 v1 v2"
    by cases (auto intro: rel_open_order rel_cancel_order rel_advance_time rel_apply_market rel_expire_held step.prems)
  with step.IH [OF step.prems] show ?case by (rule rel_then)
qed

end

section \<open>What the open orders reserve\<close>

definition reserved_in :: "asset_name \<Rightarrow> ('e, 'f) account_state \<Rightarrow> decimal" where
  "reserved_in a st = (\<Sum>c \<in> dom (by_id st). holds_in a (rs_reservation (the (by_id st c))))"

definition holds_steady :: "asset_name \<Rightarrow> decimal \<Rightarrow> ('e, 'g) venue \<Rightarrow> ('e, 'g) venue \<Rightarrow> bool" where
  "holds_steady a x v v' \<longleftrightarrow> (finite (dom (by_id (vn_account v))) \<longrightarrow> finite (dom (by_id (vn_account v'))) \<and>
     used_of a (vn_account v') - reserved_in a (vn_account v') =
       used_of a (vn_account v) - reserved_in a (vn_account v) + x)"

lemma reserved_cong: "by_id st = by_id st' \<Longrightarrow> reserved_in a st = reserved_in a st'"
  by (simp add: reserved_in_def)

lemma reserved_put:
  assumes "finite (dom (by_id st))" and "by_id st c = None" and "by_id st' = (by_id st)(c \<mapsto> r)"
  shows "reserved_in a st' = reserved_in a st + holds_in a (rs_reservation r)"
proof -
  have "(\<Sum>c' \<in> dom (by_id st). holds_in a (rs_reservation (the (by_id st' c')))) = reserved_in a st"
    unfolding reserved_in_def using assms(2,3) by (intro sum.cong) auto
  then show ?thesis using assms by (simp add: reserved_in_def domIff)
qed

lemma reserved_take:
  assumes "finite (dom (by_id st))" and "by_id st c = Some r" and "by_id st' = (by_id st)(c := None)"
  shows "reserved_in a st' = reserved_in a st - holds_in a (rs_reservation r)"
proof -
  have "by_id st = (by_id st')(c \<mapsto> r)" using assms(2,3) by auto
  moreover have "by_id st' c = None" "finite (dom (by_id st'))" using assms(1,3) by simp_all
  ultimately show ?thesis using reserved_put [of st' c st r a] by simp
qed

interpretation ledger: venue_relation holds_steady
proof (unfold_locales, goal_cases)
  case (1 a x v v1 y v2)
  then show ?case by (auto simp: holds_steady_def)
next
  case (2 v' v a)
  then show ?case by (simp add: holds_steady_def)
next
  case (3 st v a x)
  with reserved_cong [OF 3(1)] show ?case by (simp add: holds_steady_def)
next
  case (4 v c st r a)
  with reserved_put [OF _ 4(1,2), of a] used_cong [OF 4(4)] show ?case by (auto simp: holds_steady_def)
next
  case (5 v c r st a)
  with reserved_take [OF _ 5(1,2), of a] used_cong [OF 5(4)] show ?case by (auto simp: holds_steady_def)
next
  case (6 tr v a)
  then show ?case
    by (simp add: holds_steady_def to_account_def ack_trade_def trade_id_fetch_add_def used_of_def held_balance_def
        reserved_in_def)
qed

section \<open>The ids of the trades\<close>

definition counts_up :: "asset_name \<Rightarrow> decimal \<Rightarrow> ('e, 'g) venue \<Rightarrow> ('e, 'g) venue \<Rightarrow> bool" where
  "counts_up a x v v' \<longleftrightarrow> (\<exists>ts. ac_trades (vn_account v') = ac_trades (vn_account v) @ ts \<and>
     vn_trade_sequence v' = vn_trade_sequence v + of_nat (length ts) \<and>
     map tr_id ts = map (\<lambda>k. decimal_string (unat (vn_trade_sequence v + of_nat k))) [0..<length ts])"

lemma counts_up_none: "ac_trades (vn_account v') = ac_trades (vn_account v) \<Longrightarrow>
    vn_trade_sequence v' = vn_trade_sequence v \<Longrightarrow> counts_up a x v v'"
  by (simp add: counts_up_def)

lemma counts_up_trans:
  assumes "counts_up a x v v1" and "counts_up a y v1 v2"
  shows "counts_up a z v v2"
proof -
  obtain ts ts' where 1: "ac_trades (vn_account v1) = ac_trades (vn_account v) @ ts"
      "vn_trade_sequence v1 = vn_trade_sequence v + of_nat (length ts)"
      "map tr_id ts = map (\<lambda>k. decimal_string (unat (vn_trade_sequence v + of_nat k))) [0..<length ts]"
    and 2: "ac_trades (vn_account v2) = ac_trades (vn_account v1) @ ts'"
      "vn_trade_sequence v2 = vn_trade_sequence v1 + of_nat (length ts')"
      "map tr_id ts' = map (\<lambda>k. decimal_string (unat (vn_trade_sequence v1 + of_nat k))) [0..<length ts']"
    using assms by (auto simp: counts_up_def)
  have "[length ts..<length ts + length ts'] = map (\<lambda>k. length ts + k) [0..<length ts']"
    using map_add_upt [of "length ts" "length ts'"] by (simp add: add.commute)
  then have shifted: "map tr_id ts' = map (\<lambda>k. decimal_string (unat (vn_trade_sequence v + of_nat k)))
      [length ts..<length ts + length ts']"
    by (simp add: 1(2) 2(3) add.assoc)
  have "map tr_id (ts @ ts') = map (\<lambda>k. decimal_string (unat (vn_trade_sequence v + of_nat k))) [0..<length (ts @ ts')]"
    using shifted by (simp add: 1(3) upt_add_eq_append [of 0 "length ts"])
  with 1 2 show ?thesis unfolding counts_up_def by (intro exI [of _ "ts @ ts'"]) (simp add: ac_simps)
qed

interpretation prints: venue_relation counts_up
proof (unfold_locales, goal_cases)
  case (1 a x v v1 y v2)
  then show ?case by (rule counts_up_trans)
next
  case (6 tr v a)
  then show ?case unfolding counts_up_def
    by (intro exI [of _ "[tr]"]) (simp add: to_account_def ack_trade_def trade_id_fetch_add_def)
qed (simp_all add: counts_up_none)

section \<open>The venue as it is built\<close>

definition unreserved :: "('e, 'f) open_orders \<Rightarrow> bool" where
  "unreserved b \<longleftrightarrow> finite (dom (oo_by_id b)) \<and> (\<forall>c r. oo_by_id b c = Some r \<longrightarrow> rs_reservation r = None)"

lemma seed_order_unreserved:
  assumes "seed_order ord (b, cs) = Inr (b', cs')" and "unreserved b"
  shows "unreserved b'"
proof (cases "b' = b")
  case False
  with assms(1) obtain op u where ins: "oo_insert op None b = (Inr u, b')"
    by (auto simp: seed_order_def Let_def split: order_state.splits inactive_order_state.splits option.splits
        if_splits prod.splits sum.splits)
  then have new: "oo_by_id b (cid_of op) = None"
    using insert_known(1) [of b op None] by (cases "oo_by_id b (cid_of op)") auto
  show ?thesis using insert_new(2) [OF new ins] assms(2) by (auto simp: unreserved_def)
qed (use assms in simp)

lemma seed_orders_unreserved:
  "seed_orders ords (b, cs) = Inr (b', cs') \<Longrightarrow> unreserved b \<Longrightarrow> unreserved b'"
proof (induction ords arbitrary: b cs)
  case (Cons ord ords)
  then obtain b1 cs1 where "seed_order ord (b, cs) = Inr (b1, cs1)" "seed_orders ords (b1, cs1) = Inr (b', cs')"
    by (auto split: sum.splits)
  with Cons seed_order_unreserved show ?case by blast
qed simp

lemma venue_built:
  assumes "venue_with_regime cfg rng sl balances orders positions = Some v"
  shows "unreserved (ac_orders_open (vn_account v))" and "ac_trades (vn_account v) = []" and "vn_trade_sequence v = 0"
    and "vn_order_id_start v = first_unseeded_order_id (seeded_order_ids (vn_account v))"
proof -
  obtain account ps where a: "account_seed balances orders = Inr account"
    and v: "v = (let account' = (if vc_spot_margin cfg \<noteq> None then enable_margin account else account)
      in venue_assemble (first_unseeded_order_id (seeded_order_ids account')) (slippage_new rng sl) account' ps
        (\<lambda>a. Option.bind (ac_balances account' a) (\<lambda>ab. bl_margin (ab_balance ab))))"
    using assms by (auto simp: venue_with_regime_def Let_def split: Option.bind_splits sum.splits)
  obtain b cs where s: "seed_orders orders (open_orders_default, Map.empty) = Inr (b, cs)"
    and account: "ac_orders_open account = b" "ac_trades account = []"
    using a by (auto simp: account_seed_def split: sum.splits)
  have "unreserved b"
    by (rule seed_orders_unreserved [OF s]) (simp add: unreserved_def open_orders_default_def)
  then show "unreserved (ac_orders_open (vn_account v))" and "ac_trades (vn_account v) = []" and "vn_trade_sequence v = 0"
    and "vn_order_id_start v = first_unseeded_order_id (seeded_order_ids (vn_account v))"
    using account by (simp_all add: v Let_def venue_assemble_def enable_margin_def)
qed

section \<open>Properties\<close>

text \<open>C19: what an account cannot spend is what its orders reserve. In exact arithmetic, whatever its
clients send and its market does, liquidations, charges and expiries included, a venue keeps of every
asset the difference of total and free it was built with, plus what the orders now open reserve: an
order that fills, is cancelled, expires or is refused gives back all of its reservation, and no order
keeps less than it reserved.\<close>

lemma venue_holds_what_orders_reserve:
  assumes "exact cfg" and "venue_with_regime cfg rng sl balances orders positions = Some v0" and "venue_run cfg v0 v"
  shows "finite (dom (by_id (vn_account v))) \<and>
    (\<forall>a. total_of a (vn_account v) - free_of a (vn_account v) =
      total_of a (vn_account v0) - free_of a (vn_account v0) + reserved_in a (vn_account v))"
proof -
  note built = venue_built(1) [OF assms(2)]
  have "reserved_in a (vn_account v0) = 0" for a
    unfolding reserved_in_def using built by (intro sum.neutral) (force simp: unreserved_def holds_in_def)
  with ledger.rel_run [OF assms(3,1)] built show ?thesis
    by (simp add: holds_steady_def used_of_def unreserved_def diff_eq_eq)
qed

text \<open>C20: the trades of a venue carry the numbers from zero in the order they were printed, whichever
operation printed them, up to the width of the counter; so no two trades of a venue that has printed
at most \<open>2 ^ 64\<close> share an id.\<close>

lemma venue_trade_ids_count_up:
  assumes "exact cfg" and "venue_with_regime cfg rng sl balances orders positions = Some v0" and "venue_run cfg v0 v"
  shows "map tr_id (ac_trades (vn_account v)) =
      map (\<lambda>k. decimal_string (k mod 2 ^ 64)) [0..<length (ac_trades (vn_account v))] \<and>
    (length (ac_trades (vn_account v)) \<le> 2 ^ 64 \<longrightarrow> distinct (map tr_id (ac_trades (vn_account v))))"
proof -
  have ids: "map tr_id (ac_trades (vn_account v)) =
      map (\<lambda>k. decimal_string (k mod 2 ^ 64)) [0..<length (ac_trades (vn_account v))]"
    using prints.rel_run [OF assms(3,1)] venue_built(2,3) [OF assms(2)]
    by (auto simp: counts_up_def unat_of_nat take_bit_eq_mod)
  moreover have "inj_on (\<lambda>k. decimal_string (k mod 2 ^ 64)) {0..<length (ac_trades (vn_account v))}"
    if "length (ac_trades (vn_account v)) \<le> 2 ^ 64"
    using that by (auto simp: inj_on_def dest!: decimal_string_inject)
  ultimately show ?thesis by (simp add: distinct_map)
qed

text \<open>a venue mints no order id that an order it was seeded with carries, as long as its ids stay
below \<open>2 ^ 64\<close>, and never the same id twice.\<close>

lemma venue_mints_fresh_ids:
  assumes "venue_with_regime cfg rng sl balances orders positions = Some v0"
  shows "(\<forall>s. vn_order_id_start v0 + unat s < 2 ^ 64 \<longrightarrow>
      next_order_id (v0\<lparr>vn_order_sequence := s\<rparr>) \<notin> set (seeded_order_ids (vn_account v0))) \<and>
    (\<forall>s s'. next_order_id (v0\<lparr>vn_order_sequence := s\<rparr>) = next_order_id (v0\<lparr>vn_order_sequence := s'\<rparr>) \<longrightarrow> s = s')"
  using first_unseeded_fresh [of "seeded_order_ids (vn_account v0)"]
  by (auto simp: next_order_id_def venue_built(4) [OF assms] unsigned_word_eqI
      dest!: decimal_string_inject)

section \<open>A small venue\<close>


definition sample_venue :: "venue_regime \<Rightarrow> (nat, nat) venue_config" where
  "sample_venue regime = \<lparr>vc_round = Some, vc_round_rate = (\<lambda>x. x), vc_next_u64 = (\<lambda>g. (0, g)),
     vc_last_digit = (\<lambda>_. 1), vc_min_time = 0, vc_exchange = 0, vc_fee_model = PerContractFee 1,
     vc_spot_fee_asset = FeeInQuote, vc_fill_model = bid_ask_fill,
     vc_instruments = [''btc_usd'' \<mapsto> \<lparr>vi_name = ''btc_usd'',
       vi_underlying = \<lparr>un_base = ''btc'', un_quote = ''usd''\<rparr>, vi_kind = Spot\<rparr>],
     vc_regime = regime, vc_holding_costs = [], vc_shortability = None, vc_market_order_timing = OnArrival,
     vc_stale_market = StaleOff, vc_spot_margin = None, vc_fee_asset = None, vc_margin_interest = None\<rparr>"

definition sample_funds :: "name_balance list" where
  "sample_funds = [\<lparr>ab_asset = ''usd'', ab_balance = balance_new 1000 1000, ab_time_exchange = 0\<rparr>]"

definition sample_request :: "order_kind \<Rightarrow> decimal option \<Rightarrow> market_snapshot option \<Rightarrow> nat venue_open_request" where
  "sample_request kind price market = \<lparr>ev_key = \<lparr>key_exchange = 0, key_instrument = ''btc_usd'', key_strategy = ''s'', key_cid = ''c1''\<rparr>,
     ev_state = \<lparr>ro_side = Buy, ro_price = price, ro_quantity = 2, ro_kind = kind,
       ro_time_in_force = GoodUntilCancelled False, ro_position_id = None, ro_reduce_only = RONo,
       ro_margin_effect = None, vr_market = market\<rparr>\<rparr>"


lemmas sample_venue_simps = sample_venue_def sample_funds_def sample_request_def exact_def venue_with_regime_def
  venue_assemble_def account_seed_def open_orders_default_def seeded_order_ids_def first_unseeded_order_id_def
  names_of_def slippage_new_def liquidation_state_default_def

definition sample_start :: "venue_regime \<Rightarrow> (nat, nat) venue" where
  "sample_start regime = the (venue_with_regime (sample_venue regime) (\<lambda>_. 0) NoSlippage sample_funds [] [])"

lemma sample_built: "venue_with_regime (sample_venue regime) (\<lambda>_. 0) NoSlippage sample_funds [] [] = Some (sample_start regime)"
  by (simp add: sample_start_def sample_venue_simps Let_def)

lemma sample_start_eq: "sample_start regime = \<lparr>vn_slippage = \<lparr>sl_config = NoSlippage, sl_rng = 0, sl_draws = 0\<rparr>,
   vn_account = \<lparr>ac_balances = [''usd'' \<mapsto> \<lparr>ab_asset = ''usd'', ab_balance = balance_new 1000 1000, ab_time_exchange = 0\<rparr>],
     ac_orders_open = open_orders_default, ac_orders_cancelled = Map.empty, ac_orders_filled = Map.empty,
     ac_orders_expired = Map.empty, ac_trades = [], ac_margin = False, ac_loans_changed = 0\<rparr>,
     vn_market = Map.empty, vn_borrow_prices = Map.empty, vn_positions = Map.empty, vn_order_sequence = 0, vn_order_id_start = 0,
     vn_trade_sequence = 0, vn_cash_flow_sequence = 0, vn_time_exchange = 0, vn_accrued_through = None,
     vn_next_charge = None, vn_next_interest = None, vn_next_interest_loans = 0,
     vn_reported_debt = Map.empty, vn_liquidation = liquidation_state_default\<rparr>"
  by (simp add: sample_start_def sample_venue_simps Let_def List.map_filter_def fun_eq_iff balance_new_def)


lemmas open_simps = venue_open_order_def open_order_inner_def pricing_market_def validate_order_kind_supported_def
  validate_time_in_force_supported_def terms_of_def find_instrument_data_def refused_margin_effect_def oo_contains_def
  check_shortability_def stale_gate_def place_order_def rest_order_def request_limit_def order_disposition_def order_of_def
  venue_settlement_def order_settlement_def settlement_with_fee_def spot_settlement_def reserved_debit_def requirement_def
  position_of_def venue_margin_effect_def venue_commit_def borrowable_def on_account_def lending_of_def
  commit_def commit_lent_def commit_covers_def commit_apply_def reserve_def settle_def account_free_def put_balance_def
  commitment_from_def order_id_fetch_add_def open_state_new_def waiting_reservation_def shortfall_borrowed_def
  list_of_option_def book_rested_def account_book_def oo_insert_def oo_index_def forget_ended_def deadline_of_def
  close_input_def refresh_next_interest_if_loans_changed_def report_debt_changes_def dec_simps

lemma sample_rested:
  "case venue_open_order (sample_venue MarketDriven) (sample_request Limit (Some 100) None) (sample_start MarketDriven) of
     None \<Rightarrow> False
   | Some (out, v) \<Rightarrow> total_of ''usd'' (vn_account v) = 1000 \<and> free_of ''usd'' (vn_account v) = 798 \<and>
       reserved_in ''usd'' (vn_account v) = 202"
  unfolding sample_start_eq
  by (simp add: open_simps sample_venue_def sample_request_def balance_new_def open_orders_default_def held_balance_def
      reserved_in_def holds_in_def Let_def cong: option.case_cong if_cong)

lemmas fill_simps = fill_on_arrival_def bid_ask_fill_def or_else_def capped_by_def depth_available_def aggress_def venue_slip_def
  slippage_apply_def slippage_draw_def fill_settlement_def fee_in_fee_asset_def settled_debit_def take_fee_apart_def
  consume_depth_def venue_record_fill_def positions_record_fill_def trade_id_fetch_add_def arrival_trade_def
  retire_filled_def to_account_def ack_trade_def ack_filled_def deliver_def balance_or_open_def balance_add_def
  count_loan_change_def

lemma decimal_string_zero: "decimal_string 0 = ''0''"
  by code_simp

lemma sample_fills:
  "case venue_open_order (sample_venue RequestPriced)
      (sample_request Market None (Some (from_last_price (Some 100)))) (sample_start RequestPriced) of
     None \<Rightarrow> False
   | Some (out, v) \<Rightarrow> map tr_id (ac_trades (vn_account v)) = [''0''] \<and> total_of ''usd'' (vn_account v) = 798"
  unfolding sample_start_eq
  by (simp add: open_simps fill_simps sample_venue_def sample_request_def balance_new_def open_orders_default_def held_balance_def
      from_last_price_def decimal_string_zero Let_def cong: option.case_cong if_cong)


lemma open_runs: "venue_open_order cfg req v = Some (out, v') \<Longrightarrow> venue_run cfg v v'"
  by (rule r_into_rtranclp) (rule Open_order)

lemma venue_holds_what_orders_reserve_witness:
  "\<exists>v. venue_run (sample_venue MarketDriven) (sample_start MarketDriven) v \<and> reserved_in ''usd'' (vn_account v) = 202 \<and>
    total_of ''usd'' (vn_account v) - free_of ''usd'' (vn_account v) =
      total_of ''usd'' (vn_account (sample_start MarketDriven)) - free_of ''usd'' (vn_account (sample_start MarketDriven)) +
      reserved_in ''usd'' (vn_account v)"
proof -
  obtain out v where v: "venue_open_order (sample_venue MarketDriven) (sample_request Limit (Some 100) None)
      (sample_start MarketDriven) = Some (out, v)" "reserved_in ''usd'' (vn_account v) = 202"
    using sample_rested by (auto split: option.splits)
  have "exact (sample_venue MarketDriven)" by (simp add: exact_def sample_venue_def)
  from venue_holds_what_orders_reserve [OF this sample_built open_runs [OF v(1)]] v open_runs [OF v(1)]
  show ?thesis by blast
qed

lemma venue_trade_ids_count_up_witness:
  "\<exists>v. venue_run (sample_venue RequestPriced) (sample_start RequestPriced) v \<and>
    length (ac_trades (vn_account v)) = 1 \<and> map tr_id (ac_trades (vn_account v)) = [''0''] \<and>
    distinct (map tr_id (ac_trades (vn_account v)))"
proof -
  obtain out v where v: "venue_open_order (sample_venue RequestPriced)
      (sample_request Market None (Some (from_last_price (Some 100)))) (sample_start RequestPriced) = Some (out, v)"
      "map tr_id (ac_trades (vn_account v)) = [''0'']"
    using sample_fills by (auto split: option.splits)
  have "length (ac_trades (vn_account v)) = 1" using arg_cong [OF v(2), of length] by simp
  moreover have "exact (sample_venue RequestPriced)" by (simp add: exact_def sample_venue_def)
  note venue_trade_ids_count_up [OF this sample_built open_runs [OF v(1)]]
  ultimately show ?thesis using v(2) open_runs [OF v(1)] by auto
qed

definition sample_open :: "nat venue_order" where
  "sample_open = map_state (\<lambda>_. Active (Open (open_state_new (Assigned ''7'') 0 0)))
     (order_of (sample_request Limit (Some 100) None) ())"

definition sample_book :: "(nat, cash_flow) open_orders" where
  "sample_book = snd (oo_insert (map_state (\<lambda>_. open_state_new (Assigned ''7'') 0 0)
     (order_of (sample_request Limit (Some 100) None) ())) None open_orders_default)"

lemma sample_by_id: "oo_by_id sample_book = [''c1'' \<mapsto> \<lparr>rs_order = map_state (\<lambda>_. open_state_new (Assigned ''7'') 0 0)
     (order_of (sample_request Limit (Some 100) None) ()), rs_reservation = None\<rparr>]"
  unfolding sample_book_def
  by (subst insert_new(2) [OF _ prod.collapse [symmetric]])
    (simp_all add: open_orders_default_def map_state_def order_of_def sample_request_def)

lemma sample_inserted:
  "oo_insert (map_state (\<lambda>_. open_state_new (Assigned ''7'') 0 0)
     (order_of (sample_request Limit (Some 100) None) ())) None open_orders_default = (Inr (), sample_book)"
  unfolding sample_book_def
  using insert_new(1) [of open_orders_default "map_state (\<lambda>_. open_state_new (Assigned ''7'') 0 0)
     (order_of (sample_request Limit (Some 100) None) ())" None, OF _ prod.collapse [symmetric]]
  by (simp add: prod_eq_iff open_orders_default_def)

lemma sample_as_open: "as_open sample_open = Some (map_state (\<lambda>_. open_state_new (Assigned ''7'') 0 0)
     (order_of (sample_request Limit (Some 100) None) ()))"
  by (simp add: sample_open_def as_open_def map_state_def)

lemma sample_account_seeded: "account_seed sample_funds [sample_open] = Inr \<lparr>
   ac_balances = [''usd'' \<mapsto> \<lparr>ab_asset = ''usd'', ab_balance = balance_new 1000 1000, ab_time_exchange = 0\<rparr>],
   ac_orders_open = sample_book, ac_orders_cancelled = Map.empty, ac_orders_filled = Map.empty,
   ac_orders_expired = Map.empty, ac_trades = [], ac_margin = False, ac_loans_changed = 0\<rparr>"
proof -
  have "o_state sample_open = Active (Open (open_state_new (Assigned ''7'') 0 0))"
    by (simp add: sample_open_def map_state_def)
  then show ?thesis
    by (simp add: account_seed_def seed_order_def sample_as_open sample_inserted sample_funds_def)
qed

lemma sample_seeded:
  "case venue_with_regime (sample_venue MarketDriven) (\<lambda>_. 0) NoSlippage sample_funds [sample_open] [] of
     None \<Rightarrow> False
   | Some v0 \<Rightarrow> seeded_order_ids (vn_account v0) = [''7''] \<and> vn_order_id_start v0 = 8"
proof -
  have "decimal_string 7 = ''7''" by code_simp
  then have "parse_u64 ''7'' = Some 7" using parse_decimal_string [of 7] by simp
  then have "seeded_order_ids \<lparr>
   ac_balances = [''usd'' \<mapsto> \<lparr>ab_asset = ''usd'', ab_balance = balance_new 1000 1000, ab_time_exchange = 0\<rparr>],
   ac_orders_open = sample_book, ac_orders_cancelled = Map.empty, ac_orders_filled = Map.empty,
   ac_orders_expired = Map.empty, ac_trades = [], ac_margin = False, ac_loans_changed = 0\<rparr> = [''7''] \<and>
   first_unseeded_order_id [''7''] = 8"
    by (simp add: seeded_order_ids_def first_unseeded_order_id_def sample_by_id names_of_def List.map_filter_def
      map_state_def open_state_new_def)
  then show ?thesis
    by (simp add: venue_with_regime_def sample_account_seeded sample_venue_def venue_assemble_def)
qed

lemma venue_mints_fresh_ids_witness:
  "\<exists>v0. venue_with_regime (sample_venue MarketDriven) (\<lambda>_. 0) NoSlippage sample_funds [sample_open] [] = Some v0 \<and>
    seeded_order_ids (vn_account v0) = [''7''] \<and> next_order_id (v0\<lparr>vn_order_sequence := 0\<rparr>) = ''8'' \<and>
    next_order_id (v0\<lparr>vn_order_sequence := 0\<rparr>) \<notin> set (seeded_order_ids (vn_account v0))"
proof -
  obtain v0 where v0: "venue_with_regime (sample_venue MarketDriven) (\<lambda>_. 0) NoSlippage sample_funds [sample_open] [] = Some v0"
      "seeded_order_ids (vn_account v0) = [''7'']" "vn_order_id_start v0 = 8"
    using sample_seeded by (auto split: option.splits)
  have "decimal_string 8 = ''8''" by code_simp
  with v0(3) have "next_order_id (v0\<lparr>vn_order_sequence := 0\<rparr>) = ''8''" by (simp add: next_order_id_def)
  with venue_mints_fresh_ids [OF v0(1)] v0 show ?thesis by simp
qed

end
