(* ===== verification/Venue_Refusals.thy ===== *)
theory Venue_Refusals
  imports Venue_Runs
begin

text \<open>
  A refused order costs nothing: whatever turned it down, and however far into its placing, the
  venue's books, ids, depth and random stream are those it had before the order came
  (\<open>exchange/mock/venue.rs\<close>, \<open>open_order_inner\<close> and the callees that answer it).
\<close>

definition is_refusal :: "'e venue_order \<Rightarrow> bool" where
  "is_refusal r = (case o_state r of Inactive (OpenFailed _) \<Rightarrow> True | _ \<Rightarrow> False)"

lemma is_refusal_order_of [simp]:
  "is_refusal (order_of req s) = (case s of Inactive (OpenFailed _) \<Rightarrow> True | _ \<Rightarrow> False)"
  "is_refusal (err_response req e)"
  by (simp_all add: is_refusal_def order_of_def err_response_def)

text \<open>What an answer to an order leaves when it refuses it.\<close>

definition costs_nothing :: "('e, 'g) venue \<Rightarrow> ('e, 'g) opened \<Rightarrow> bool" where
  "costs_nothing v ans \<longleftrightarrow> (\<forall>r note v'. ans = Some ((r, note), v') \<longrightarrow> is_refusal r \<longrightarrow> note = None \<and> v' = v)"

lemma costs_nothingD:
  "costs_nothing v ans \<Longrightarrow> ans = Some ((r, note), v') \<Longrightarrow> is_refusal r \<Longrightarrow> note = None \<and> v' = v"
  by (simp add: costs_nothing_def)

lemma costs_nothing_simps [simp]:
  "costs_nothing v None"
  "costs_nothing v (refuse req e v)"
  "costs_nothing v (cancel_on_arrival req t v)"
  "costs_nothing v (expire_on_arrival req t v)"
  by (simp_all add: costs_nothing_def refuse_def cancel_on_arrival_def expire_on_arrival_def order_id_fetch_add_def Let_def)

lemma costs_nothing_not_refusal:
  "(\<And>r note v'. ans = Some ((r, note), v') \<Longrightarrow> \<not> is_refusal r) \<Longrightarrow> costs_nothing v ans"
  by (auto simp: costs_nothing_def)

lemma costs_nothing_bind: "(\<And>x. m = Some x \<Longrightarrow> costs_nothing v (f x)) \<Longrightarrow> costs_nothing v (Option.bind m f)"
  by (cases m) simp_all

lemma venue_commit_refused:
  assumes ex: "exact cfg" and step: "venue_commit cfg d credit effect terms market bw t v = Some (Inl e, v')"
  shows "v' = v"
proof -
  from step obtain room out v1 where room: "borrowable cfg v d effect terms market = Some room"
    and c: "on_account (commit Some d credit effect (lending_of cfg (db_asset d) room) t) v = Some (out, v1)"
    using ex by (auto simp: venue_commit_def bind_eq_Some_conv)
  with step ex have "out = Inl e \<and> v1 = v'"
    by (auto simp: venue_commit_def bind_eq_Some_conv split: sum.splits if_splits)
  with c show ?thesis by (auto simp: on_account_Some dest!: commit_refused)
qed

lemma commit_answer:
  assumes ex: "exact cfg"
    and no: "\<And>e. costs_nothing w (f (Inl e, v))"
    and yes: "\<And>c v1. costs_nothing w (f (Inr c, v1))"
  shows "costs_nothing w (Option.bind (venue_commit cfg d credit effect terms market bw t v) f)"
proof (rule costs_nothing_bind)
  fix x assume x: "venue_commit cfg d credit effect terms market bw t v = Some x"
  show "costs_nothing w (f x)"
  proof (cases x)
    case (Pair out v1)
    with x no yes show ?thesis by (cases out) (auto dest: venue_commit_refused [OF ex])
  qed
qed

lemmas answer_rules = commit_answer costs_nothing_bind

lemma rest_order_refused:
  assumes ex: "exact cfg"
  shows "costs_nothing v (rest_order cfg req limit terms filled v)"
  unfolding rest_order_def Let_def
  by ((rule commit_answer [OF ex] | rule costs_nothing_bind)+, simp_all)
    (auto intro!: costs_nothing_not_refusal simp: order_id_fetch_add_def bind_eq_Some_conv)

lemma held_not_refused [simp]:
  "\<not> is_refusal (map_state (\<lambda>op. Active (Open op)) ord)"
  by (simp add: map_state_def is_refusal_def order.defs)

lemma held_answer:
  "(case p of (Inl _, _) \<Rightarrow> None | (Inr _, st) \<Rightarrow> Some (f st)) = Some y \<longleftrightarrow> (\<exists>u st. p = (Inr u, st) \<and> y = f st)"
  by (auto split: prod.splits sum.splits)

lemma hold_on_arrival_refused:
  assumes ex: "exact cfg"
  shows "costs_nothing v (hold_on_arrival cfg req market terms v)"
  unfolding hold_on_arrival_def Let_def
  apply (split if_split, intro conjI impI)
   apply simp
  apply (rule costs_nothing_bind)
  apply (split option.split, intro conjI allI impI)
   apply simp
  apply clarify
  apply (rule costs_nothing_bind)
  apply (rule costs_nothing_bind)
  apply (rule commit_answer [OF ex])
   apply simp
  apply (rule costs_nothing_not_refusal)
  apply (auto simp: bind_eq_Some_conv order_id_fetch_add_def held_answer)
  done

lemma retire_filled_not_refused:
  "retire_filled cfg req oid quantity price held c t v = Some (s, v') \<Longrightarrow> \<not> is_refusal (order_of req s)"
  by (auto simp: retire_filled_def Let_def bind_eq_Some_conv split: option.splits if_splits)

lemma slip_puts_back: "venue_slip cfg sd x v = Some (p, v1) \<Longrightarrow> v1\<lparr>vn_slippage := vn_slippage v\<rparr> = v"
  by (auto simp: venue_slip_def bind_eq_Some_conv)

lemma aggress_refused:
  assumes ex: "exact cfg"
  shows "costs_nothing v (aggress cfg req market terms rem reference filled unfilled v)"
  unfolding aggress_def Let_def
  apply (rule costs_nothing_bind)
  apply clarify
  apply (rule costs_nothing_bind)
  apply (rule costs_nothing_bind)
  apply (rule costs_nothing_bind)
  apply (rule commit_answer [OF ex])
   apply (simp add: slip_puts_back)
  apply (rule costs_nothing_not_refusal)
  apply (auto simp: bind_eq_Some_conv order_id_fetch_add_def trade_id_fetch_add_def
      dest: retire_filled_not_refused)
  done


lemma fill_on_arrival_refused:
  assumes ex: "exact cfg"
  shows "costs_nothing v (fill_on_arrival cfg req market terms rem v)"
  unfolding fill_on_arrival_def Let_def
  by (auto intro!: costs_nothing_bind simp: rest_order_refused [OF ex] aggress_refused [OF ex]
      split: option.splits remainder.splits)

lemma place_order_refused: "exact cfg \<Longrightarrow> costs_nothing v (place_order cfg req market terms limit v)"
  by (simp add: place_order_def Let_def rest_order_refused hold_on_arrival_refused fill_on_arrival_refused
      split: option.splits disposition.splits market_order_timing.splits)

lemma stale_gate_refused:
  "exact cfg \<Longrightarrow> stale_gate cfg req market terms v = Some ans \<Longrightarrow> costs_nothing v ans"
  by (auto simp: stale_gate_def Let_def hold_on_arrival_refused
      split: stale_market_policy.splits venue_market_age.splits if_splits)

lemma open_inner_refused:
  assumes ex: "exact cfg"
  shows "costs_nothing v (open_order_inner cfg req market v)"
  unfolding open_order_inner_def Let_def
  by (auto intro!: costs_nothing_bind simp: place_order_refused [OF ex] stale_gate_refused [OF ex]
      split: sum.splits option.splits)

section \<open>The property\<close>

text \<open>C21: A refused order costs nothing: when the venue answers an order with a refusal, from the first check of its kind to a commitment the account cannot meet after the slippage was already drawn, it sends no event, and its balances, loans, open orders, positions, trades, market depth, id sequences and slippage stream are untouched; all the call may do is bring its cached interest deadline up to date with loans that had already changed.\<close>
theorem venue_refusal_changes_nothing:
  assumes "exact cfg" and "venue_open_order cfg req v = Some (out, v')" and "is_refusal (vo_response out)"
  shows "vo_events out = [] \<and> refresh_next_interest_if_loans_changed cfg v = Some v' \<and>
    v' = v\<lparr>vn_next_interest := vn_next_interest v', vn_next_interest_loans := vn_next_interest_loans v'\<rparr>"
proof -
  obtain r nt v1 where inner: "open_order_inner cfg req (pricing_market cfg req v) v = Some ((r, nt), v1)"
    using assms(2) by (auto simp: venue_open_order_def bind_eq_Some_conv)
  obtain es es' where close: "close_input cfg es v1 = Some (es', v')" "out = \<lparr>vo_events = es', vo_response = r\<rparr>"
    "nt = None \<longrightarrow> es = []"
    using assms(2) inner by (auto simp: venue_open_order_def bind_eq_Some_conv Let_def)
  have "nt = None \<and> v1 = v"
    by (rule costs_nothingD [OF open_inner_refused [OF assms(1)] inner]) (use assms(3) close in simp)
  with close have "close_input cfg [] v = Some (es', v')" by simp
  then have *: "es' = [] \<and> refresh_next_interest_if_loans_changed cfg v = Some v'"
    by (auto simp: close_input_def report_debt_changes_def bind_eq_Some_conv split: if_splits)
  moreover from * have "v' = v\<lparr>vn_next_interest := vn_next_interest v', vn_next_interest_loans := vn_next_interest_loans v'\<rparr>"
    by (auto simp: refresh_next_interest_if_loans_changed_def refresh_next_interest_def Let_def bind_eq_Some_conv
        split: if_splits option.splits)
  ultimately show ?thesis using close by simp
qed

definition sample_slipping :: "(nat, nat) venue" where
  "sample_slipping = (sample_start RequestPriced)\<lparr>vn_slippage :=
     \<lparr>sl_config = UniformRate (1/100) (2/100) 5, sl_rng = 0, sl_draws = 3\<rparr>\<rparr>"

lemma sample_refused:
  "case venue_open_order (sample_venue RequestPriced)
      (sample_request Market None (Some (from_last_price (Some 1000)))) sample_slipping of
     None \<Rightarrow> False
   | Some (out, v) \<Rightarrow> is_refusal (vo_response out) \<and> v = sample_slipping"
  unfolding sample_slipping_def sample_start_eq
  by (simp add: open_simps fill_simps sample_venue_def sample_request_def balance_new_def open_orders_default_def held_balance_def
      from_last_price_def decimal_string_zero is_refusal_def refuse_def err_response_def unsigned_eq_0_iff Let_def cong: option.case_cong if_cong)

lemma venue_refusal_changes_nothing_witness:
  "\<exists>out v. venue_open_order (sample_venue RequestPriced)
      (sample_request Market None (Some (from_last_price (Some 1000)))) sample_slipping = Some (out, v) \<and>
    is_refusal (vo_response out) \<and> vo_events out = [] \<and> sl_draws (vn_slippage v) = 3"
proof -
  obtain out v where v: "venue_open_order (sample_venue RequestPriced)
      (sample_request Market None (Some (from_last_price (Some 1000)))) sample_slipping = Some (out, v)"
      "is_refusal (vo_response out)" "v = sample_slipping"
    using sample_refused by (auto split: option.splits)
  have "exact (sample_venue RequestPriced)" by (simp add: exact_def sample_venue_def)
  from venue_refusal_changes_nothing [OF this v(1,2)] v show ?thesis by (auto simp: sample_slipping_def)
qed

end
