(* ===== verification/Carry_Models.thy ===== *)
theory Carry_Models
  imports Venue_State
begin

text \<open>
  The models of carry and interest the crate ships (\<open>rustrade-execution/src/holding_cost.rs\<close>,
  \<open>margin.rs\<close>): a rate as a step function of time, the days of a daily charge on a settlement
  calendar, and the models a venue charges by, perpetual funding, the fee of a borrowed short, the
  financing of a CFD and the interest of a margin loan. Time is counted in nanoseconds from the Unix
  epoch and a date in days from it. A time zone is the third-party crate \<open>chrono\<close>'s: a parameter.
\<close>

section \<open>Rates\<close>

record rate_series =
  rs_points :: "(time \<times> decimal) list"

record rate_series_unsorted =
  ru_index :: nat
  ru_previous :: time
  ru_time :: time

fun unsorted_from :: "nat \<Rightarrow> (time \<times> decimal) list \<Rightarrow> rate_series_unsorted option" where
  "unsorted_from i (p # q # ps) =
     (if fst q \<le> fst p then Some \<lparr>ru_index = i + 1, ru_previous = fst p, ru_time = fst q\<rparr>
      else unsorted_from (i + 1) (q # ps))"
| "unsorted_from i _ = None"

definition rate_series_new :: "(time \<times> decimal) list \<Rightarrow> rate_series_unsorted + rate_series" where
  "rate_series_new ps = (case unsorted_from 0 ps of Some e \<Rightarrow> Inl e | None \<Rightarrow> Inr \<lparr>rs_points = ps\<rparr>)"

text \<open>The earliest instant a time stamp can be is \<open>chrono\<close>'s.\<close>

definition rate_series_constant :: "time \<Rightarrow> decimal \<Rightarrow> rate_series" where
  "rate_series_constant earliest_time rate = \<lparr>rs_points = [(earliest_time, rate)]\<rparr>"

text \<open>The search for the partition point of an ascending series finds the end of its prefix.\<close>

definition rate_at :: "time \<Rightarrow> rate_series \<Rightarrow> decimal option" where
  "rate_at t s =
     (case length (takeWhile (\<lambda>p. fst p \<le> t) (rs_points s)) of
        0 \<Rightarrow> None
      | Suc i \<Rightarrow> Some (snd (rs_points s ! i)))"

section \<open>Years\<close>

datatype day_count = Act360 | Act365

fun day_count_basis :: "day_count \<Rightarrow> decimal" where
  "day_count_basis Act360 = 360"
| "day_count_basis Act365 = 365"

definition accrue_days :: "rounding \<Rightarrow> day_count \<Rightarrow> decimal \<Rightarrow> nat \<Rightarrow> decimal option" where
  "accrue_days R c annual days = do {
     x \<leftarrow> dec_mul R annual (of_nat days);
     dec_div R x (day_count_basis c)
   }"

definition seconds_per_day :: int where
  "seconds_per_day = 86400"

definition nanos_per_second :: int where
  "nanos_per_second = 1000000000"

text \<open>Whole seconds and the nanoseconds left, both with the sign of the span.\<close>

definition accrue_span :: "rounding \<Rightarrow> day_count \<Rightarrow> decimal \<Rightarrow> int \<Rightarrow> decimal option" where
  "accrue_span R c annual ns = do {
     let whole = sgn ns * (\<bar>ns\<bar> div nanos_per_second);
     let left = ns - whole * nanos_per_second;
     seconds \<leftarrow> dec_add R (of_int whole) (of_int left / of_int nanos_per_second);
     x \<leftarrow> dec_mul R annual seconds;
     y \<leftarrow> dec_mul R (day_count_basis c) (of_int seconds_per_day);
     dec_div R x y
   }"

section \<open>Days\<close>

type_synonym date = int

text \<open>The epoch was a Thursday: Monday is 0.\<close>

definition weekday :: "date \<Rightarrow> int" where
  "weekday d = (d + 3) mod 7"

definition weekends_only :: "date \<Rightarrow> bool" where
  "weekends_only d \<longleftrightarrow> weekday d \<noteq> 5 \<and> weekday d \<noteq> 6"

definition holiday_calendar :: "date list \<Rightarrow> date \<Rightarrow> bool" where
  "holiday_calendar holidays d \<longleftrightarrow> weekends_only d \<and> d \<notin> set holidays"

datatype accrual_days = CalendarDays | SettlementDays "date \<Rightarrow> bool" nat

text \<open>
  What the code asks of a zone: the local date of an instant, and the earliest instant of a local
  time, none in a gap of daylight saving. A local time counts nanoseconds as if it were UTC. The
  last date the calendar represents is \<open>chrono\<close>'s too.
\<close>

record zone =
  zn_date :: "time \<Rightarrow> date"
  zn_earliest :: "int \<Rightarrow> time option"
  zn_last_date :: date

definition cutoff_search_days :: nat where
  "cutoff_search_days = 3660"

definition nanos_per_day :: int where
  "nanos_per_day = 86400000000000"

definition nanos_per_minute :: int where
  "nanos_per_minute = 60000000000"

definition next_date :: "zone \<Rightarrow> date \<Rightarrow> date option" where
  "next_date z d = (if d < zn_last_date z then Some (d + 1) else None)"

fun search_business_day :: "zone \<Rightarrow> (date \<Rightarrow> bool) \<Rightarrow> nat \<Rightarrow> date \<Rightarrow> date option" where
  "search_business_day z cal 0 d = None"
| "search_business_day z cal (Suc n) d =
     (if cal d then Some d else Option.bind (next_date z d) (search_business_day z cal n))"

definition next_business_day :: "zone \<Rightarrow> (date \<Rightarrow> bool) \<Rightarrow> date \<Rightarrow> date option" where
  "next_business_day z cal d =
     Option.bind (next_date z d) (search_business_day z cal cutoff_search_days)"

fun add_business_days :: "zone \<Rightarrow> (date \<Rightarrow> bool) \<Rightarrow> date \<Rightarrow> nat \<Rightarrow> date option" where
  "add_business_days z cal d 0 = Some d"
| "add_business_days z cal d (Suc n) = Option.bind (add_business_days z cal d n) (next_business_day z cal)"

record daily_accrual =
  da_cutoff :: int
  da_zone :: zone
  da_days :: accrual_days
  da_day_count :: day_count

definition has_cutoff :: "daily_accrual \<Rightarrow> date \<Rightarrow> bool" where
  "has_cutoff m d = (case da_days m of CalendarDays \<Rightarrow> True | SettlementDays cal _ \<Rightarrow> cal d)"

definition cutoff_on :: "daily_accrual \<Rightarrow> date \<Rightarrow> time option" where
  "cutoff_on m d =
     (case List.map_filter (\<lambda>k. zn_earliest (da_zone m) (d * nanos_per_day + da_cutoff m + of_nat k * nanos_per_minute))
         [0..<24 * 60 + 1] of
        [] \<Rightarrow> None
      | t # _ \<Rightarrow> Some t)"

fun search_cutoff :: "daily_accrual \<Rightarrow> time \<Rightarrow> nat \<Rightarrow> date \<Rightarrow> time option" where
  "search_cutoff m after 0 d = None"
| "search_cutoff m after (Suc n) d =
     (if has_cutoff m d then do {
        b \<leftarrow> cutoff_on m d;
        if after < b then Some b else Option.bind (next_date (da_zone m) d) (search_cutoff m after n)
      }
      else Option.bind (next_date (da_zone m) d) (search_cutoff m after n))"

definition next_cutoff :: "daily_accrual \<Rightarrow> time \<Rightarrow> time option" where
  "next_cutoff m after = search_cutoff m after cutoff_search_days (zn_date (da_zone m) after)"

definition charged_days :: "daily_accrual \<Rightarrow> time \<Rightarrow> nat option" where
  "charged_days m boundary =
     (case da_days m of
        CalendarDays \<Rightarrow> Some 1
      | SettlementDays cal lag \<Rightarrow> do {
          let d = zn_date (da_zone m) boundary;
          settles \<leftarrow> add_business_days (da_zone m) cal d lag;
          n \<leftarrow> next_business_day (da_zone m) cal d;
          next_settles \<leftarrow> add_business_days (da_zone m) cal n lag;
          let days = next_settles - settles;
          Some (if 0 \<le> days \<and> days < 2 ^ 32 then nat days else 2 ^ 32 - 1)
        })"

definition accrue_at :: "rounding \<Rightarrow> daily_accrual \<Rightarrow> decimal \<Rightarrow> time \<Rightarrow> decimal option" where
  "accrue_at R m annual boundary =
     Option.bind (charged_days m boundary) (accrue_days R (da_day_count m) annual)"

section \<open>Whole intervals\<close>

definition checked_i64 :: "int \<Rightarrow> int option" where
  "checked_i64 x = (if - (2 ^ 63) \<le> x \<and> x < 2 ^ 63 then Some x else None)"

text \<open>Callers pass a positive interval, for which Euclidean division is that of the integers.\<close>

definition next_whole_interval :: "int \<Rightarrow> time \<Rightarrow> time option" where
  "next_whole_interval interval after = do {
     i \<leftarrow> checked_i64 interval;
     e \<leftarrow> checked_i64 after;
     n \<leftarrow> checked_i64 (e div i + 1);
     checked_i64 (n * i)
   }"

section \<open>Funding\<close>

record funding_model =
  fm_interval :: int
  fm_rates :: "instrument_name \<rightharpoonup> rate_series"

definition funding_new :: "int \<Rightarrow> funding_model option" where
  "funding_new interval = (if 0 < interval then Some \<lparr>fm_interval = interval, fm_rates = Map.empty\<rparr> else None)"

definition funding_with_rates :: "instrument_name \<Rightarrow> rate_series \<Rightarrow> funding_model \<Rightarrow> funding_model" where
  "funding_with_rates i s m = m\<lparr>fm_rates := (fm_rates m)(i \<mapsto> s)\<rparr>"

definition funding_next_boundary :: "funding_model \<Rightarrow> instrument_name \<Rightarrow> time \<Rightarrow> time option option" where
  "funding_next_boundary m i after =
     Some (if fm_rates m i = None then None else next_whole_interval (fm_interval m) after)"

definition funding_charge ::
  "rounding \<Rightarrow> funding_model \<Rightarrow> held_position \<Rightarrow> time \<Rightarrow> holding_charge option option" where
  "funding_charge R m p boundary =
     (case Option.bind (fm_rates m (hp_instrument p)) (rate_at boundary) of
        None \<Rightarrow> Some None
      | Some rate \<Rightarrow> do {
          x \<leftarrow> dec_mul R (hp_quantity p) (hp_contract_size p);
          y \<leftarrow> dec_mul R x (hp_price p);
          z \<leftarrow> dec_mul R y rate;
          Some (Some \<lparr>hc_kind = Funding (Some rate) (Some (hp_quantity p)), hc_amount = - z\<rparr>)
        })"

definition funding_model_of :: "rounding \<Rightarrow> funding_model \<Rightarrow> holding_cost_model" where
  "funding_model_of R m = \<lparr>hm_next_boundary = funding_next_boundary m, hm_charge = funding_charge R m\<rparr>"

section \<open>Borrow fees\<close>

record borrow_fee_model =
  bf_accrual :: daily_accrual
  bf_rates :: "instrument_name \<rightharpoonup> rate_series"

definition borrow_fee_new :: "daily_accrual \<Rightarrow> borrow_fee_model" where
  "borrow_fee_new a = \<lparr>bf_accrual = a, bf_rates = Map.empty\<rparr>"

definition borrow_fee_with_rates :: "instrument_name \<Rightarrow> rate_series \<Rightarrow> borrow_fee_model \<Rightarrow> borrow_fee_model" where
  "borrow_fee_with_rates i s m = m\<lparr>bf_rates := (bf_rates m)(i \<mapsto> s)\<rparr>"

definition borrow_fee_next_boundary :: "borrow_fee_model \<Rightarrow> instrument_name \<Rightarrow> time \<Rightarrow> time option option" where
  "borrow_fee_next_boundary m i after =
     (if bf_rates m i = None then Some None else map_option Some (next_cutoff (bf_accrual m) after))"

definition borrow_fee_charge ::
  "rounding \<Rightarrow> borrow_fee_model \<Rightarrow> held_position \<Rightarrow> time \<Rightarrow> holding_charge option option" where
  "borrow_fee_charge R m p boundary =
     (if \<not> held_is_short p then Some None
      else case Option.bind (bf_rates m (hp_instrument p)) (rate_at boundary) of
        None \<Rightarrow> Some None
      | Some rate \<Rightarrow> do {
          n \<leftarrow> held_notional R p;
          x \<leftarrow> dec_mul R n rate;
          y \<leftarrow> accrue_at R (bf_accrual m) x boundary;
          q \<leftarrow> dec_mul R \<bar>hp_quantity p\<bar> (hp_contract_size p);
          Some (Some \<lparr>hc_kind = BorrowFee (Some rate) (Some q), hc_amount = - y\<rparr>)
        })"

definition borrow_fee_model_of :: "rounding \<Rightarrow> borrow_fee_model \<Rightarrow> holding_cost_model" where
  "borrow_fee_model_of R m = \<lparr>hm_next_boundary = borrow_fee_next_boundary m, hm_charge = borrow_fee_charge R m\<rparr>"

section \<open>Financing\<close>

record financing_rates =
  fr_long :: rate_series
  fr_short :: rate_series

record financing_model =
  fn_accrual :: daily_accrual
  fn_rates :: "instrument_name \<rightharpoonup> financing_rates"

definition financing_new :: "daily_accrual \<Rightarrow> financing_model" where
  "financing_new a = \<lparr>fn_accrual = a, fn_rates = Map.empty\<rparr>"

definition financing_with_rates :: "instrument_name \<Rightarrow> financing_rates \<Rightarrow> financing_model \<Rightarrow> financing_model" where
  "financing_with_rates i s m = m\<lparr>fn_rates := (fn_rates m)(i \<mapsto> s)\<rparr>"

definition financing_next_boundary :: "financing_model \<Rightarrow> instrument_name \<Rightarrow> time \<Rightarrow> time option option" where
  "financing_next_boundary m i after =
     (if fn_rates m i = None then Some None else map_option Some (next_cutoff (fn_accrual m) after))"

definition financing_charge ::
  "rounding \<Rightarrow> financing_model \<Rightarrow> held_position \<Rightarrow> time \<Rightarrow> holding_charge option option" where
  "financing_charge R m p boundary =
     (case Option.bind (fn_rates m (hp_instrument p))
         (\<lambda>rates. rate_at boundary (if held_is_short p then fr_short rates else fr_long rates)) of
        None \<Rightarrow> Some None
      | Some rate \<Rightarrow> do {
          n \<leftarrow> held_notional R p;
          x \<leftarrow> dec_mul R n rate;
          y \<leftarrow> accrue_at R (fn_accrual m) x boundary;
          Some (Some \<lparr>hc_kind = Financing (Some rate) (Some n), hc_amount = - y\<rparr>)
        })"

definition financing_model_of :: "rounding \<Rightarrow> financing_model \<Rightarrow> holding_cost_model" where
  "financing_model_of R m = \<lparr>hm_next_boundary = financing_next_boundary m, hm_charge = financing_charge R m\<rparr>"

section \<open>Interest on a margin loan\<close>

datatype interest_schedule = AtBorrowAndEachBoundary | AtBorrowOnly

record periodic_interest =
  pi_period :: int
  pi_day_count :: day_count
  pi_schedule :: interest_schedule
  pi_rates :: "asset_name \<rightharpoonup> rate_series"
  pi_units :: "asset_name \<rightharpoonup> decimal"

definition default_interest_unit :: decimal where
  "default_interest_unit = 1 / 10 ^ 8"

definition periodic_new :: "int \<Rightarrow> day_count \<Rightarrow> periodic_interest option" where
  "periodic_new period c =
     (if 0 < period then Some \<lparr>pi_period = period, pi_day_count = c, pi_schedule = AtBorrowAndEachBoundary,
        pi_rates = Map.empty, pi_units = Map.empty\<rparr> else None)"

definition periodic_with_rates :: "asset_name \<Rightarrow> rate_series \<Rightarrow> periodic_interest \<Rightarrow> periodic_interest option" where
  "periodic_with_rates a s m =
     (if list_ex (\<lambda>p. snd p < 0) (rs_points s) then None else Some (m\<lparr>pi_rates := (pi_rates m)(a \<mapsto> s)\<rparr>))"

definition periodic_with_unit :: "asset_name \<Rightarrow> decimal \<Rightarrow> periodic_interest \<Rightarrow> periodic_interest option" where
  "periodic_with_unit a u m = (if 0 < u then Some (m\<lparr>pi_units := (pi_units m)(a \<mapsto> u)\<rparr>) else None)"

definition periodic_with_schedule :: "interest_schedule \<Rightarrow> periodic_interest \<Rightarrow> periodic_interest" where
  "periodic_with_schedule s m = m\<lparr>pi_schedule := s\<rparr>"

definition periodic_next_boundary :: "periodic_interest \<Rightarrow> asset_name \<Rightarrow> time \<Rightarrow> time option option" where
  "periodic_next_boundary m a after =
     Some (if pi_schedule m = AtBorrowOnly then None
           else if pi_rates m a = None then None
           else next_whole_interval (pi_period m) after)"

definition periodic_charge ::
  "rounding \<Rightarrow> periodic_interest \<Rightarrow> asset_name \<Rightarrow> decimal \<Rightarrow> interest_due \<Rightarrow> interest_charge option option" where
  "periodic_charge R m a amount due =
     (case Option.bind (pi_rates m a) (rate_at (due_time due)) of
        None \<Rightarrow> Some None
      | Some rate \<Rightarrow> do {
          let unit = (case pi_units m a of None \<Rightarrow> default_interest_unit | Some u \<Rightarrow> u);
          annual \<leftarrow> dec_mul R amount rate;
          exact \<leftarrow> accrue_span R (pi_day_count m) annual (pi_period m);
          n \<leftarrow> dec_div R exact unit;
          x \<leftarrow> dec_mul R (of_int \<lceil>n\<rceil>) unit;
          Some (Some \<lparr>ic_interest = x, ic_rate = Some rate\<rparr>)
        })"

definition periodic_model_of :: "rounding \<Rightarrow> periodic_interest \<Rightarrow> margin_interest_model" where
  "periodic_model_of R m = \<lparr>im_next_boundary = periodic_next_boundary m, im_charge = periodic_charge R m\<rparr>"

end
