(* ===== verification/Carry_Laws.thy ===== *)
theory Carry_Laws
  imports Carry_Models
begin

text \<open>
  What the bundled models promise. The interface \<open>charging_schedule\<close> is the contract of a model's
  boundaries: the first after an instant is the first after every instant short of it. Whole
  intervals and daily cutoffs keep it; a settlement calendar charges every day once; interest is
  rounded up to a unit and never negative.
\<close>

section \<open>The contract of a schedule\<close>

text \<open>
  \<open>covers\<close> says from which instants on the contract holds: there is no boundary for a time stamp beyond
  64-bit nanoseconds. \<open>reach\<close> says where the model does not panic, neither there nor at the boundary it
  answers: the calendar ends.
\<close>

locale charging_schedule =
  fixes next_at :: "time \<Rightarrow> time option option" and covers reach :: "time \<Rightarrow> bool"
  assumes onward: "covers t \<Longrightarrow> t \<le> s \<Longrightarrow> covers s"
    and later: "covers t \<Longrightarrow> next_at t = Some (Some b) \<Longrightarrow> t < b"
    and first: "covers t \<Longrightarrow> next_at t = Some (Some b) \<Longrightarrow> t \<le> s \<Longrightarrow> s < b \<Longrightarrow> next_at s = Some (Some b)"
    and never: "covers t \<Longrightarrow> next_at t = Some None \<Longrightarrow> t \<le> s \<Longrightarrow> next_at s \<noteq> None \<Longrightarrow> next_at s = Some None"
    and total: "reach t \<Longrightarrow> \<exists>n. next_at t = Some n \<and> (\<forall>b. n = Some b \<longrightarrow> next_at b \<noteq> None)"

section \<open>Whole intervals\<close>

lemma interval_bounds:
  fixes i t :: int
  assumes "0 < i"
  shows "t div i * i \<le> t" and "t < (t div i + 1) * i"
proof -
  have "t = t div i * i + t mod i" and "0 \<le> t mod i" and "t mod i < i" using assms by simp_all
  then show "t div i * i \<le> t" and "t < (t div i + 1) * i" unfolding distrib_right by linarith+
qed

lemma div_less_int:
  fixes i t :: int
  assumes "0 < i" and "t < k * i"
  shows "t div i < k"
proof (rule ccontr)
  assume "\<not> t div i < k"
  then have "k * i \<le> t div i * i" using assms(1) by (intro mult_right_mono) auto
  with interval_bounds(1) [OF assms(1), of t] assms(2) show False by simp
qed

lemma next_interval_Some:
  assumes "0 < i" and "next_whole_interval i t = Some b"
  shows "b = (t div i + 1) * i" and "t < b" and "b \<le> t + i"
proof -
  show b: "b = (t div i + 1) * i"
    using assms(2) by (auto simp: next_whole_interval_def checked_i64_def bind_eq_Some_conv split: if_splits)
  show "t < b" and "b \<le> t + i"
    using interval_bounds [OF assms(1), of t] unfolding b distrib_right by linarith+
qed

lemma next_interval_least:
  assumes "0 < i" and "next_whole_interval i t = Some b" and "t < k * i"
  shows "b \<le> k * i"
proof -
  have "t div i + 1 \<le> k" using div_less_int [OF assms(1,3)] by simp
  then show ?thesis
    unfolding next_interval_Some(1) [OF assms(1,2)] using assms(1) by (simp add: mult_right_mono)
qed

lemma next_interval_iff:
  assumes "0 < i" and "- (2 ^ 63) \<le> t"
  shows "next_whole_interval i t = (if i < 2 ^ 63 \<and> (t div i + 1) * i < 2 ^ 63 then Some ((t div i + 1) * i) else None)"
proof -
  have low: "- (2 ^ 63) \<le> t div i"
  proof (rule ccontr)
    assume "\<not> - (2 ^ 63) \<le> t div i"
    then have "t div i + 1 \<le> - (2 ^ 63)" by simp
    then have "(t div i + 1) * i \<le> (t div i + 1) * 1"
      using assms(1) by (intro mult_left_mono_neg) auto
    also have "\<dots> \<le> - (2 ^ 63)" using \<open>t div i + 1 \<le> - (2 ^ 63)\<close> by simp
    finally show False using interval_bounds(2) [OF assms(1), of t] assms(2) by (meson leD order.trans)
  qed
  have high: "t div i + 1 < 2 ^ 63" if "(t div i + 1) * i < 2 ^ 63"
  proof (cases "0 \<le> t div i + 1")
    case True
    then have "(t div i + 1) * 1 \<le> (t div i + 1) * i" using assms(1) by (intro mult_left_mono) auto
    with that show ?thesis by simp
  qed simp
  have "- (2 ^ 63) \<le> (t div i + 1) * i" using interval_bounds(2) [OF assms(1), of t] assms(2) by linarith
  then show ?thesis
    using assms low high interval_bounds(2) [OF assms(1), of t] by (auto simp: next_whole_interval_def checked_i64_def)
qed

lemma next_interval_first:
  assumes i: "0 < i" and t: "- (2 ^ 63) \<le> t" and n: "next_whole_interval i t = Some b" and s: "t \<le> s" "s < b"
  shows "next_whole_interval i s = Some b"
proof -
  have b: "b = (t div i + 1) * i" using next_interval_Some [OF i n] by simp
  have "s div i = t div i"
  proof (rule antisym)
    show "t div i \<le> s div i" using s(1) i by (simp add: zdiv_mono1)
    show "s div i \<le> t div i" using div_less_int [OF i, of s "t div i + 1"] s(2) b by simp
  qed
  moreover have "- (2 ^ 63) \<le> s" using t s by simp
  ultimately show ?thesis using n t by (simp add: next_interval_iff [OF i] split: if_splits)
qed

lemma next_interval_never:
  assumes i: "0 < i" and t: "- (2 ^ 63) \<le> t" and n: "next_whole_interval i t = None" and s: "t \<le> s"
  shows "next_whole_interval i s = None"
proof -
  have "(t div i + 1) * i \<le> (s div i + 1) * i" using s i by (simp add: zdiv_mono1)
  moreover have "- (2 ^ 63) \<le> s" using t s by simp
  ultimately show ?thesis using n t by (auto simp: next_interval_iff [OF i] split: if_splits)
qed

lemma intervals_schedule:
  "charging_schedule (\<lambda>t. Some (if off then None else next_whole_interval i t)) (\<lambda>t. 0 < i \<and> - (2 ^ 63) \<le> t) (\<lambda>_. True)"
proof
  fix t s b :: time
  assume t: "0 < i \<and> - (2 ^ 63) \<le> t"
  then show "0 < i \<and> - (2 ^ 63) \<le> s" if "t \<le> s" using that by linarith
  {
    assume "Some (if off then None else next_whole_interval i t) = Some (Some b)"
    then have n: "\<not> off" "next_whole_interval i t = Some b" by (cases off; simp)+
    then show "t < b" using next_interval_Some(2) t by blast
    assume "t \<le> s" and "s < b"
    then show "Some (if off then None else next_whole_interval i s) = Some (Some b)"
      using next_interval_first [of i t b s] n t by simp
  }
  assume "Some (if off then None else next_whole_interval i t) = Some None" and "t \<le> s"
  then show "Some (if off then None else next_whole_interval i s) = Some None"
    using next_interval_never [of i t s] t by (cases off) simp_all
qed simp

text \<open>Funding, and interest by the period.\<close>

interpretation funding: charging_schedule "funding_next_boundary m i"
    "\<lambda>t. 0 < fm_interval m \<and> - (2 ^ 63) \<le> t" "\<lambda>_. True" for m i
  using intervals_schedule [of "fm_rates m i = None" "fm_interval m"]
  by (simp add: funding_next_boundary_def [abs_def])

interpretation periodic: charging_schedule "periodic_next_boundary m a"
    "\<lambda>t. 0 < pi_period m \<and> - (2 ^ 63) \<le> t" "\<lambda>_. True" for m a
proof -
  have "periodic_next_boundary m a =
      (\<lambda>t. Some (if pi_schedule m = AtBorrowOnly \<or> pi_rates m a = None then None else next_whole_interval (pi_period m) t))"
    by (cases "pi_schedule m = AtBorrowOnly"; cases "pi_rates m a") (auto simp: periodic_next_boundary_def)
  then show "charging_schedule (periodic_next_boundary m a) (\<lambda>t. 0 < pi_period m \<and> - (2 ^ 63) \<le> t) (\<lambda>_. True)"
    using intervals_schedule by simp
qed

section \<open>Daily cutoffs\<close>

text \<open>
  What a zone must do for cutoffs to be days apart: the cutoff of a date falls on that date, later
  dates have later cutoffs, and the local date never moves back. A fixed offset does.
\<close>

definition regular_cutoffs :: "daily_accrual \<Rightarrow> bool" where
  "regular_cutoffs m \<longleftrightarrow>
     (\<forall>d t. cutoff_on m d = Some t \<longrightarrow> zn_date (da_zone m) t = d) \<and>
     (\<forall>d e s t. d < e \<longrightarrow> cutoff_on m d = Some s \<longrightarrow> cutoff_on m e = Some t \<longrightarrow> s < t) \<and>
     (\<forall>s t. s \<le> t \<longrightarrow> zn_date (da_zone m) s \<le> zn_date (da_zone m) t)"

lemma regular_cutoffsD:
  assumes "regular_cutoffs m"
  shows "cutoff_on m d = Some t \<Longrightarrow> zn_date (da_zone m) t = d"
    and "d < e \<Longrightarrow> cutoff_on m d = Some s \<Longrightarrow> cutoff_on m e = Some t \<Longrightarrow> s < t"
    and "s \<le> t \<Longrightarrow> zn_date (da_zone m) s \<le> zn_date (da_zone m) t"
  using assms unfolding regular_cutoffs_def by blast+

text \<open>\<open>chrono\<close>'s fixed offset from UTC, east of it positive.\<close>

definition fixed_offset :: "int \<Rightarrow> date \<Rightarrow> zone" where
  "fixed_offset off last_date =
     \<lparr>zn_date = (\<lambda>t. (t + off) div nanos_per_day), zn_earliest = (\<lambda>l. Some (l - off)), zn_last_date = last_date\<rparr>"

lemma fixed_cutoff: "da_zone m = fixed_offset off last_date \<Longrightarrow> cutoff_on m d = Some (d * nanos_per_day + da_cutoff m - off)"
proof -
  have "[0..<24 * 60 + 1] = 0 # [Suc 0..<24 * 60 + 1]" by (subst upt_conv_Cons) simp_all
  then show "cutoff_on m d = Some (d * nanos_per_day + da_cutoff m - off)"
    if "da_zone m = fixed_offset off last_date"
    by (simp add: cutoff_on_def that fixed_offset_def map_filter_simps del: upt_rec_numeral upt.simps)
qed

lemma fixed_regular:
  assumes "da_zone m = fixed_offset off last_date" and "0 \<le> da_cutoff m" and "da_cutoff m < nanos_per_day"
  shows "regular_cutoffs m"
proof -
  have "(d * nanos_per_day + da_cutoff m - off + off) div nanos_per_day = d" for d
    using assms(2,3) by (simp add: nanos_per_day_def)
  moreover have "d * nanos_per_day < e * nanos_per_day" if "d < e" for d e :: int
    using that by (simp add: nanos_per_day_def)
  moreover have "(s + off) div nanos_per_day \<le> (t + off) div nanos_per_day" if "s \<le> t" for s t :: int
    using that by (intro zdiv_mono1) (simp_all add: nanos_per_day_def)
  ultimately show ?thesis
    using assms(1) by (simp add: regular_cutoffs_def fixed_cutoff [OF assms(1)]) (simp add: fixed_offset_def)
qed

lemma next_date_Some [simp]: "next_date z d = Some e \<longleftrightarrow> d < zn_last_date z \<and> e = d + 1"
  by (auto simp: next_date_def)

lemma search_cutoff_Some:
  assumes "search_cutoff m t n d = Some b"
  obtains e where "d \<le> e" and "has_cutoff m e" and "cutoff_on m e = Some b" and "t < b"
    and "\<And>x. d \<le> x \<Longrightarrow> x < e \<Longrightarrow> has_cutoff m x \<Longrightarrow> \<exists>s. cutoff_on m x = Some s \<and> s \<le> t"
proof -
  have "\<exists>e. d \<le> e \<and> has_cutoff m e \<and> cutoff_on m e = Some b \<and> t < b \<and>
      (\<forall>x. d \<le> x \<longrightarrow> x < e \<longrightarrow> has_cutoff m x \<longrightarrow> (\<exists>s. cutoff_on m x = Some s \<and> s \<le> t))"
    using assms
  proof (induction n arbitrary: d)
    case (Suc n)
    show ?case
    proof (cases "has_cutoff m d \<and> (\<exists>s. cutoff_on m d = Some s \<and> t < s)")
      case True
      with Suc.prems show ?thesis by (intro exI [of _ d]) auto
    next
      case False
      then have next': "search_cutoff m t n (d + 1) = Some b" and here: "has_cutoff m d \<Longrightarrow> \<exists>s. cutoff_on m d = Some s \<and> s \<le> t"
        using Suc.prems by (auto simp: bind_eq_Some_conv split: if_splits)
      from Suc.IH [OF next'] obtain e where e: "d + 1 \<le> e" "has_cutoff m e" "cutoff_on m e = Some b" "t < b"
        "\<And>x. d + 1 \<le> x \<Longrightarrow> x < e \<Longrightarrow> has_cutoff m x \<Longrightarrow> \<exists>s. cutoff_on m x = Some s \<and> s \<le> t"
        by blast
      have "\<exists>s. cutoff_on m x = Some s \<and> s \<le> t" if "d \<le> x" "x < e" "has_cutoff m x" for x
        using that e(5) [of x] here by (cases "x = d") auto
      with e show ?thesis by (intro exI [of _ e]) auto
    qed
  qed simp
  with that show ?thesis by blast
qed

lemma search_cutoff_later:
  assumes reg: "regular_cutoffs m"
  shows "search_cutoff m t n d = Some b \<Longrightarrow> d \<le> e \<Longrightarrow> e \<le> zn_date (da_zone m) b \<Longrightarrow> t \<le> s \<Longrightarrow> s < b \<Longrightarrow>
    n \<le> k + nat (e - d) \<Longrightarrow> search_cutoff m s k e = Some b"
proof (induction n arbitrary: d e k)
  case (Suc n)
  obtain f where f: "d \<le> f" "cutoff_on m f = Some b" "has_cutoff m f" using search_cutoff_Some [OF Suc.prems(1)] by metis
  have f_date: "zn_date (da_zone m) b = f" using reg f by (auto simp: regular_cutoffs_def)
  show ?case
  proof (cases "d = f")
    case True
    with Suc.prems f f_date have e: "e = d" by simp
    with Suc.prems(6) obtain k' where k: "k = Suc k'" by (cases k) auto
    with True f Suc.prems(5) show ?thesis by (simp add: e k)
  next
    case False
    with f have "d < f" by simp
    then have "\<not> (has_cutoff m d \<and> (\<exists>x. cutoff_on m d = Some x \<and> t < x))"
      using Suc.prems(1) f regular_cutoffsD(2) [OF reg, of d f b b] by (auto split: if_splits)
    then have rest: "search_cutoff m t n (d + 1) = Some b" and last: "d < zn_last_date (da_zone m)"
      and here: "has_cutoff m d \<Longrightarrow> \<exists>x. cutoff_on m d = Some x \<and> x \<le> t"
      using Suc.prems(1) by (auto simp: bind_eq_Some_conv split: if_splits)
    show ?thesis
    proof (cases "d < e")
      case True
      then show ?thesis using Suc.IH [OF rest, of e k] Suc.prems by simp
    next
      case False
      with Suc.prems have e: "e = d" by simp
      with Suc.prems(6) obtain k' where k: "k = Suc k'" "n \<le> k'" by (cases k) auto
      have "search_cutoff m s k' (d + 1) = Some b"
        using Suc.IH [OF rest, of "d + 1" k'] Suc.prems(4,5) \<open>d < f\<close> f_date k(2) by simp
      then show ?thesis using here last Suc.prems(4) by (force simp: e k(1) next_date_def)
    qed
  qed
qed simp

text \<open>The next cutoff is the first strictly after the instant.\<close>

lemma next_cutoff_first:
  assumes reg: "regular_cutoffs m" and step: "next_cutoff m t = Some b"
  obtains d where "has_cutoff m d" and "cutoff_on m d = Some b" and "t < b"
    and "\<And>e s. has_cutoff m e \<Longrightarrow> cutoff_on m e = Some s \<Longrightarrow> t < s \<Longrightarrow> b \<le> s"
proof -
  obtain d where d: "has_cutoff m d" "cutoff_on m d = Some b" "t < b"
    "\<And>x. zn_date (da_zone m) t \<le> x \<Longrightarrow> x < d \<Longrightarrow> has_cutoff m x \<Longrightarrow> \<exists>s. cutoff_on m x = Some s \<and> s \<le> t"
    using search_cutoff_Some [OF step [unfolded next_cutoff_def]] by metis
  have "b \<le> s" if e: "has_cutoff m e" "cutoff_on m e = Some s" "t < s" for e s
  proof -
    have "zn_date (da_zone m) t \<le> zn_date (da_zone m) s" and "zn_date (da_zone m) s = e"
      using regular_cutoffsD(1) [OF reg e(2)] regular_cutoffsD(3) [OF reg, of t s] e(3) by simp_all
    then have "zn_date (da_zone m) t \<le> e" by simp
    then have "d \<le> e" using d(4) [of e] e by force
    then show ?thesis using regular_cutoffsD(2) [OF reg, of d e b s] d(2) e(2) by (cases "d = e") auto
  qed
  with d that show ?thesis by blast
qed

lemma next_cutoff_later:
  assumes reg: "regular_cutoffs m" and "next_cutoff m t = Some b" and "t \<le> s" and "s < b"
  shows "next_cutoff m s = Some b"
  unfolding next_cutoff_def
  by (rule search_cutoff_later [OF reg assms(2) [unfolded next_cutoff_def]])
    (use assms in \<open>auto simp: regular_cutoffs_def\<close>)

text \<open>Borrow fees and financing.\<close>

definition cutoff_reach :: "daily_accrual \<Rightarrow> time \<Rightarrow> bool" where
  "cutoff_reach m t \<longleftrightarrow> (\<exists>b c. next_cutoff m t = Some b \<and> next_cutoff m b = Some c)"

lemma next_cutoff_after: "regular_cutoffs m \<Longrightarrow> next_cutoff m t = Some b \<Longrightarrow> t < b"
  using next_cutoff_first by metis

lemma cutoffs_schedule:
  "charging_schedule (\<lambda>t. if off then Some None else map_option Some (next_cutoff m t))
     (\<lambda>_. regular_cutoffs m) (\<lambda>t. off \<or> cutoff_reach m t)"
proof
  fix t s b :: time
  assume reg: "regular_cutoffs m"
  then show "regular_cutoffs m" .
  {
    assume "(if off then Some None else map_option Some (next_cutoff m t)) = Some (Some b)"
    then have n: "\<not> off" "next_cutoff m t = Some b" by (cases off; auto)+
    then show "t < b" using next_cutoff_after [OF reg] by simp
    assume "t \<le> s" and "s < b"
    then show "(if off then Some None else map_option Some (next_cutoff m s)) = Some (Some b)"
      using next_cutoff_later [OF reg n(2)] n(1) by simp
  }
  assume "(if off then Some None else map_option Some (next_cutoff m t)) = Some None"
  then show "(if off then Some None else map_option Some (next_cutoff m s)) = Some None"
    by (cases off) auto
next
  fix t :: time
  assume "off \<or> cutoff_reach m t"
  then show "\<exists>n. (if off then Some None else map_option Some (next_cutoff m t)) = Some n \<and>
      (\<forall>b. n = Some b \<longrightarrow> (if off then Some None else map_option Some (next_cutoff m b)) \<noteq> None)"
    by (cases off) (auto simp: cutoff_reach_def)
qed

interpretation borrow_fee: charging_schedule "borrow_fee_next_boundary m i"
    "\<lambda>_. regular_cutoffs (bf_accrual m)" "\<lambda>t. bf_rates m i = None \<or> cutoff_reach (bf_accrual m) t" for m i
  using cutoffs_schedule [of "bf_rates m i = None" "bf_accrual m"]
  by (simp add: borrow_fee_next_boundary_def [abs_def])

interpretation financing: charging_schedule "financing_next_boundary m i"
    "\<lambda>_. regular_cutoffs (fn_accrual m)" "\<lambda>t. fn_rates m i = None \<or> cutoff_reach (fn_accrual m) t" for m i
  using cutoffs_schedule [of "fn_rates m i = None" "fn_accrual m"]
  by (simp add: financing_next_boundary_def [abs_def])

section \<open>Rates\<close>

lemma unsorted_None: "unsorted_from i ps = None \<longleftrightarrow> sorted_wrt (<) (map fst ps)"
proof (induction i ps rule: unsorted_from.induct)
  case (1 i p q ps)
  then show ?case by (auto simp: sorted_wrt2_simps)
qed simp_all

lemma unsorted_Some:
  "unsorted_from i ps = Some e \<Longrightarrow> \<exists>k. ru_index e = i + Suc k \<and> Suc k < length ps \<and>
     ru_previous e = fst (ps ! k) \<and> ru_time e = fst (ps ! Suc k) \<and> ru_time e \<le> ru_previous e \<and>
     sorted_wrt (<) (map fst (take (Suc k) ps))"
proof (induction i ps rule: unsorted_from.induct)
  case (1 i p q ps)
  show ?case
  proof (cases "fst q \<le> fst p")
    case True
    with 1(2) show ?thesis by (intro exI [of _ 0]) auto
  next
    case False
    with 1 obtain k where k: "ru_index e = i + 1 + Suc k" "Suc k < length (q # ps)" "ru_previous e = fst ((q # ps) ! k)"
      "ru_time e = fst ((q # ps) ! Suc k)" "ru_time e \<le> ru_previous e" "sorted_wrt (<) (map fst (take (Suc k) (q # ps)))"
      by auto
    from False have "fst p < fst q" by simp
    with k(6) have "sorted_wrt (<) (map fst (take (Suc (Suc k)) (p # q # ps)))"
      by (auto simp: order.strict_trans)
    with k show ?thesis by (intro exI [of _ "Suc k"]) simp
  qed
qed simp_all

lemma takeWhile_ascending:
  "sorted_wrt (<) (map fst ps) \<Longrightarrow> takeWhile (\<lambda>p. fst p \<le> (t :: int)) ps = filter (\<lambda>p. fst p \<le> t) ps"
proof (induction ps)
  case (Cons p ps)
  show ?case
  proof (cases "fst p \<le> t")
    case False
    with Cons.prems have "\<forall>x \<in> set ps. \<not> fst x \<le> t" by force
    with False show ?thesis by (simp add: filter_empty_conv [THEN iffD2])
  qed (use Cons in simp)
qed simp

text \<open>
  A rate series is built exactly from points at strictly ascending instants, and a refusal names
  the first point that does not follow its predecessor. The rate it answers at an instant is that of
  the latest point at or before it, and there is none exactly before the first.
\<close>

theorem rate_series_steps:
  "(case rate_series_new ps of
      Inl e \<Rightarrow> \<exists>k. ru_index e = Suc k \<and> Suc k < length ps \<and> ru_previous e = fst (ps ! k) \<and>
        ru_time e = fst (ps ! Suc k) \<and> ru_time e \<le> ru_previous e \<and> sorted_wrt (<) (map fst (take (Suc k) ps))
    | Inr s \<Rightarrow> sorted_wrt (<) (map fst ps) \<and>
        (case rate_at t s of
           None \<Rightarrow> \<forall>p \<in> set ps. t < fst p
         | Some r \<Rightarrow> \<exists>u. (u, r) \<in> set ps \<and> u \<le> t \<and> (\<forall>p \<in> set ps. fst p \<le> t \<longrightarrow> fst p \<le> u)))"
proof (cases "unsorted_from 0 ps")
  case (Some e)
  then show ?thesis using unsorted_Some [OF Some] by (simp add: rate_series_new_def)
next
  case None
  then have asc: "sorted_wrt (<) (map fst ps)" by (simp add: unsorted_None)
  define qs where "qs = filter (\<lambda>p. fst p \<le> t) ps"
  have whole: "takeWhile (\<lambda>p. fst p \<le> t) ps = qs" using takeWhile_ascending [OF asc] by (simp add: qs_def)
  have "case rate_at t \<lparr>rs_points = ps\<rparr> of
      None \<Rightarrow> \<forall>p \<in> set ps. t < fst p
    | Some r \<Rightarrow> \<exists>u. (u, r) \<in> set ps \<and> u \<le> t \<and> (\<forall>p \<in> set ps. fst p \<le> t \<longrightarrow> fst p \<le> u)"
  proof (cases qs rule: rev_cases)
    case Nil
    then show ?thesis using whole by (auto simp: rate_at_def qs_def filter_empty_conv)
  next
    case (snoc rs q)
    have "take (length qs) ps = qs" using whole by (metis takeWhile_eq_take)
    then have "ps ! length rs = q" using snoc by (metis length_append_singleton lessI nth_append_length nth_take)
    then have at: "rate_at t \<lparr>rs_points = ps\<rparr> = Some (snd q)" by (simp add: rate_at_def whole snoc)
    have "q \<in> set qs" using snoc by simp
    then have q: "q \<in> set ps" "fst q \<le> t" by (simp_all add: qs_def)
    have "sorted_wrt (<) (map fst qs)" using asc by (simp add: qs_def sorted_wrt_map sorted_wrt_filter)
    then have "fst p \<le> fst q" if "p \<in> set qs" for p using that snoc by (auto simp: sorted_wrt_append)
    then show ?thesis unfolding at using q by (auto simp: qs_def intro!: exI [of _ "fst q"])
  qed
  with None asc show ?thesis by (simp add: rate_series_new_def)
qed

theorem rate_series_steps_witness:
  "rate_series_new [(1, 2), (5, 3)] = Inr \<lparr>rs_points = [(1, 2), (5, 3)]\<rparr> \<and>
   rate_at 4 \<lparr>rs_points = [(1, 2), (5, 3)]\<rparr> = Some 2 \<and>
   (\<exists>u. (u, 2) \<in> set [(1 :: time, 2 :: decimal), (5, 3)] \<and> u \<le> 4 \<and> (\<forall>p \<in> set [(1 :: time, 2 :: decimal), (5, 3)]. fst p \<le> 4 \<longrightarrow> fst p \<le> u))"
  using rate_series_steps [of "[(1, 2), (5, 3)]" 4] by (simp add: rate_series_new_def rate_at_def)

section \<open>Settlement days\<close>

lemma search_business_day_Some:
  "search_business_day z cal n d = Some e \<Longrightarrow> d \<le> e \<and> e \<le> d + int n \<and> cal e \<and> (\<forall>x. d \<le> x \<and> x < e \<longrightarrow> \<not> cal x)"
proof (induction n arbitrary: d)
  case (Suc n)
  show ?case
  proof (cases "cal d")
    case False
    with Suc.prems have "search_business_day z cal n (d + 1) = Some e" by (auto simp: bind_eq_Some_conv)
    from Suc.IH [OF this] False show ?thesis by (auto simp: order.order_iff_strict dest: zless_imp_add1_zle)
  qed (use Suc in auto)
qed simp

lemma next_business_day_Some:
  assumes "next_business_day z cal d = Some e"
  shows "d < e" and "e \<le> d + 3661" and "cal e" and "d < x \<Longrightarrow> x < e \<Longrightarrow> \<not> cal x"
proof -
  have "search_business_day z cal cutoff_search_days (d + 1) = Some e"
    using assms by (auto simp: next_business_day_def bind_eq_Some_conv)
  note found = search_business_day_Some [OF this]
  then show "d < e" and "e \<le> d + 3661" and "cal e" by (auto simp: cutoff_search_days_def)
  show "\<not> cal x" if "d < x" "x < e" using found that by (auto dest: zless_imp_add1_zle)
qed

lemma settle_next:
  "next_business_day z cal d = Some n \<Longrightarrow> add_business_days z cal d k = Some s \<Longrightarrow> add_business_days z cal n k = Some s' \<Longrightarrow>
    next_business_day z cal s = Some s'"
proof (induction k arbitrary: s s')
  case (Suc k)
  then show ?case by (auto simp: bind_eq_Some_conv)
qed simp

lemma charged_days_Some:
  assumes "da_days m = SettlementDays cal lag" and "charged_days m b = Some k"
  obtains n s s' where "next_business_day (da_zone m) cal (zn_date (da_zone m) b) = Some n"
    and "add_business_days (da_zone m) cal (zn_date (da_zone m) b) lag = Some s"
    and "add_business_days (da_zone m) cal n lag = Some s'" and "s < s'" and "int k = s' - s"
proof -
  obtain n s s' where n: "next_business_day (da_zone m) cal (zn_date (da_zone m) b) = Some n"
    and s: "add_business_days (da_zone m) cal (zn_date (da_zone m) b) lag = Some s"
    and s': "add_business_days (da_zone m) cal n lag = Some s'"
    and k: "k = (if 0 \<le> s' - s \<and> s' - s < 2 ^ 32 then nat (s' - s) else 2 ^ 32 - 1)"
    using assms by (auto simp: charged_days_def Let_def bind_eq_Some_conv)
  note day = settle_next [OF n s s']
  have "s < s'" and "s' \<le> s + 3661" using next_business_day_Some [OF day] by simp_all
  then have "int k = s' - s" using k by simp
  with n s s' \<open>s < s'\<close> that show ?thesis by blast
qed

fun consecutive_cutoffs :: "daily_accrual \<Rightarrow> time list \<Rightarrow> bool" where
  "consecutive_cutoffs m (b # c # bs) \<longleftrightarrow> next_cutoff m b = Some c \<and> consecutive_cutoffs m (c # bs)"
| "consecutive_cutoffs m _ \<longleftrightarrow> True"

lemma next_cutoff_business_day:
  assumes reg: "regular_cutoffs m" and days: "da_days m = SettlementDays cal lag"
    and b: "cutoff_on m d = Some b" and c: "next_cutoff m b = Some c"
    and n: "next_business_day (da_zone m) cal d = Some n"
  shows "zn_date (da_zone m) c = n" and "cutoff_on m n = Some c"
proof -
  have db: "zn_date (da_zone m) b = d" using regular_cutoffsD(1) [OF reg b] .
  note nbd = next_business_day_Some [OF n]
  obtain e where e: "d \<le> e" "has_cutoff m e" "cutoff_on m e = Some c" "b < c"
    "\<And>x. d \<le> x \<Longrightarrow> x < e \<Longrightarrow> has_cutoff m x \<Longrightarrow> \<exists>s. cutoff_on m x = Some s \<and> s \<le> b"
    using search_cutoff_Some [OF c [unfolded next_cutoff_def db]] by metis
  have "d \<noteq> e" using e(3,4) b by auto
  with e(1) have "d < e" by simp
  have "cal e" using e(2) days by (simp add: has_cutoff_def)
  then have "n \<le> e" using nbd(4) [of e] \<open>d < e\<close> by force
  have "n = e"
  proof (rule ccontr)
    assume "n \<noteq> e"
    with \<open>n \<le> e\<close> have "n < e" by simp
    have "has_cutoff m n" using nbd(3) days by (simp add: has_cutoff_def)
    then obtain t where "cutoff_on m n = Some t" "t \<le> b" using e(5) [of n] nbd(1) \<open>n < e\<close> by auto
    with regular_cutoffsD(2) [OF reg nbd(1) b] show False by force
  qed
  with e(3) show "cutoff_on m n = Some c" by simp
  then show "zn_date (da_zone m) c = n" by (rule regular_cutoffsD(1) [OF reg])
qed

definition settles_on :: "daily_accrual \<Rightarrow> time \<Rightarrow> date option" where
  "settles_on m b =
     (case da_days m of
        CalendarDays \<Rightarrow> Some (zn_date (da_zone m) b)
      | SettlementDays cal lag \<Rightarrow> add_business_days (da_zone m) cal (zn_date (da_zone m) b) lag)"

text \<open>A charge at each of a run of consecutive cutoffs, none left out, charges every calendar day from
  the settlement of the first to the settlement of the last exactly once, whatever the calendar and
  the lag, weekends and holidays included; and no charge covers less than a day.
\<close>

theorem settlement_charges_every_day:
  assumes reg: "regular_cutoffs m" and days: "da_days m = SettlementDays cal lag"
    and run: "consecutive_cutoffs m (b # bs)" and b: "cutoff_on m d = Some b"
    and charged: "those (map (charged_days m) (butlast (b # bs))) = Some ks"
    and s: "settles_on m b = Some s" and s': "settles_on m (last (b # bs)) = Some s'"
  shows "int (sum_list ks) = s' - s \<and> (\<forall>k \<in> set ks. 1 \<le> k)"
  using run b charged s s'
proof (induction bs arbitrary: b d ks s)
  case (Cons c bs)
  have db: "zn_date (da_zone m) b = d" by (rule regular_cutoffsD(1) [OF reg Cons.prems(2)])
  obtain k ks' where k: "charged_days m b = Some k" and ks': "those (map (charged_days m) (butlast (c # bs))) = Some ks'"
    and ks: "ks = k # ks'"
    using Cons.prems(3) by (auto split: option.splits)
  obtain n s0 s1 where n: "next_business_day (da_zone m) cal d = Some n"
    and s0: "add_business_days (da_zone m) cal d lag = Some s0"
    and s1: "add_business_days (da_zone m) cal n lag = Some s1" and less: "s0 < s1" and int_k: "int k = s1 - s0"
    using charged_days_Some [OF days k, of thesis] unfolding db by blast
  have c: "next_cutoff m b = Some c" and rest: "consecutive_cutoffs m (c # bs)" using Cons.prems(1) by simp_all
  note cut = next_cutoff_business_day [OF reg days Cons.prems(2) c n]
  have "settles_on m c = Some s1" by (simp add: settles_on_def days cut(1) s1)
  from Cons.IH [OF rest cut(2) ks' this] Cons.prems(5)
  have "int (sum_list ks') = s' - s1 \<and> (\<forall>k \<in> set ks'. 1 \<le> k)" by simp
  moreover have "s0 = s" using Cons.prems(4) s0 by (simp add: settles_on_def days db)
  ultimately show ?case using less int_k by (simp add: ks)
qed simp

text \<open>A short held over Thursday's, Friday's and Monday's cutoffs at 21:00 UTC, settling a day later.\<close>

definition sample_accrual :: daily_accrual where
  "sample_accrual = \<lparr>da_cutoff = 75600000000000, da_zone = fixed_offset 0 95026601,
     da_days = SettlementDays weekends_only 1, da_day_count = Act360\<rparr>"

lemma search_numeral:
  "search_cutoff m after (numeral k) d =
     (if has_cutoff m d then do {
        b \<leftarrow> cutoff_on m d;
        if after < b then Some b else Option.bind (next_date (da_zone m) d) (search_cutoff m after (pred_numeral k))
      }
      else Option.bind (next_date (da_zone m) d) (search_cutoff m after (pred_numeral k)))"
  "search_business_day z cal (numeral k) d =
     (if cal d then Some d else Option.bind (next_date z d) (search_business_day z cal (pred_numeral k)))"
  by (simp_all only: numeral_eq_Suc search_cutoff.simps search_business_day.simps)

lemma sample_cutoffs [simp]: "cutoff_on sample_accrual d = Some (d * 86400000000000 + 75600000000000)"
  using fixed_cutoff [of sample_accrual 0 95026601 d] by (simp add: sample_accrual_def nanos_per_day_def)

lemma sample_regular: "regular_cutoffs sample_accrual"
  by (rule fixed_regular [of _ 0 95026601]) (simp_all add: sample_accrual_def nanos_per_day_def)

lemma sample_fields [simp]:
  "da_days sample_accrual = SettlementDays weekends_only 1"
  "zn_date (da_zone sample_accrual) t = t div 86400000000000"
  "zn_last_date (da_zone sample_accrual) = 95026601"
  by (simp_all add: sample_accrual_def fixed_offset_def nanos_per_day_def)

lemmas sample_accrual_simps = search_numeral next_cutoff_def cutoff_search_days_def has_cutoff_def weekends_only_def
  weekday_def next_business_day_def next_date_def settles_on_def charged_days_def

theorem settlement_charges_every_day_witness:
  "charged_days sample_accrual 75600000000000 = Some 3 \<and> charged_days sample_accrual 162000000000000 = Some 1 \<and>
   int (sum_list [3, 1]) = 5 - 1"
proof -
  have days: "charged_days sample_accrual 75600000000000 = Some 3" "charged_days sample_accrual 162000000000000 = Some 1"
    by (simp_all add: sample_accrual_simps)
  have "consecutive_cutoffs sample_accrual [75600000000000, 162000000000000, 421200000000000]"
    by (simp add: sample_accrual_simps)
  moreover have "settles_on sample_accrual 75600000000000 = Some 1" "settles_on sample_accrual 421200000000000 = Some 5"
    by (simp_all add: sample_accrual_simps)
  ultimately have "int (sum_list [3, 1]) = 5 - 1 \<and> (\<forall>k \<in> set [3, 1 :: nat]. 1 \<le> k)"
    by (intro settlement_charges_every_day [OF sample_regular, of weekends_only 1 "75600000000000" "[162000000000000, 421200000000000]" 0])
      (simp_all add: days)
  with days show ?thesis by blast
qed

section \<open>Interest\<close>

inductive periodic_built :: "periodic_interest \<Rightarrow> bool" where
  built_new: "periodic_new p c = Some m \<Longrightarrow> periodic_built m"
| built_rates: "periodic_built m \<Longrightarrow> periodic_with_rates a s m = Some m' \<Longrightarrow> periodic_built m'"
| built_unit: "periodic_built m \<Longrightarrow> periodic_with_unit a u m = Some m' \<Longrightarrow> periodic_built m'"
| built_schedule: "periodic_built m \<Longrightarrow> periodic_built (periodic_with_schedule s m)"

definition periodic_sound :: "periodic_interest \<Rightarrow> bool" where
  "periodic_sound m \<longleftrightarrow> 0 < pi_period m \<and> (\<forall>a s. pi_rates m a = Some s \<longrightarrow> list_all (\<lambda>p. 0 \<le> snd p) (rs_points s)) \<and>
     (\<forall>a u. pi_units m a = Some u \<longrightarrow> 0 < u)"

lemma periodic_built_sound: "periodic_built m \<Longrightarrow> periodic_sound m"
proof (induction rule: periodic_built.induct)
  case (built_rates m a s m')
  then have "list_all (\<lambda>p. 0 \<le> snd p) (rs_points s)" and "m' = m\<lparr>pi_rates := (pi_rates m)(a \<mapsto> s)\<rparr>"
    by (auto simp: periodic_with_rates_def list_ex_iff list_all_iff not_less split: if_splits)
  with built_rates.IH show ?case by (simp add: periodic_sound_def)
qed (auto simp: periodic_sound_def periodic_new_def periodic_with_unit_def periodic_with_schedule_def split: if_splits)

text \<open>The interest of one period to the last digit, and the unit it is rounded up to.\<close>

definition period_interest :: "periodic_interest \<Rightarrow> decimal \<Rightarrow> decimal \<Rightarrow> decimal" where
  "period_interest m x rate = x * rate * of_int (pi_period m) / (day_count_basis (pi_day_count m) * 86400 * 10 ^ 9)"

definition interest_unit :: "periodic_interest \<Rightarrow> asset_name \<Rightarrow> decimal" where
  "interest_unit m a = (case pi_units m a of None \<Rightarrow> 1 / 10 ^ 8 | Some u \<Rightarrow> u)"

lemma accrue_span_exact:
  "accrue_span Some c annual ns = Some (annual * (of_int ns / of_int nanos_per_second) / (day_count_basis c * of_int seconds_per_day))"
proof -
  have whole: "of_int w + of_int (ns - w * nanos_per_second) / of_int nanos_per_second = (of_int ns / of_int nanos_per_second :: rat)" for w
    by (simp add: nanos_per_second_def field_simps)
  note whole = whole [of "sgn ns * (\<bar>ns\<bar> div nanos_per_second)"]
  have "day_count_basis c \<noteq> 0" by (cases c) simp_all
  then show ?thesis
    unfolding accrue_span_def Let_def dec_simps whole by (simp add: seconds_per_day_def)
qed

lemma rate_at_point: "rate_at t s = Some r \<Longrightarrow> \<exists>u. (u, r) \<in> set (rs_points s)"
proof -
  assume "rate_at t s = Some r"
  then obtain i where i: "length (takeWhile (\<lambda>p. fst p \<le> t) (rs_points s)) = Suc i" and r: "r = snd (rs_points s ! i)"
    by (auto simp: rate_at_def split: nat.splits)
  have "i < length (rs_points s)" using i length_takeWhile_le [of "\<lambda>p. fst p \<le> t" "rs_points s"] by simp
  then have "rs_points s ! i \<in> set (rs_points s)" by simp
  then show ?thesis unfolding r by (metis prod.collapse)
qed

lemma ceiling_units:
  fixes e u :: rat
  assumes "0 < u"
  shows "e \<le> of_int \<lceil>e / u\<rceil> * u" and "of_int \<lceil>e / u\<rceil> * u < e + u"
proof -
  have "e / u \<le> of_int \<lceil>e / u\<rceil>" and "of_int \<lceil>e / u\<rceil> < e / u + 1" by linarith+
  then have "e / u * u \<le> of_int \<lceil>e / u\<rceil> * u" and "of_int \<lceil>e / u\<rceil> * u < (e / u + 1) * u"
    using assms by (intro mult_right_mono mult_strict_right_mono; simp)+
  moreover have "e / u * u = e" using assms by simp
  ultimately show "e \<le> of_int \<lceil>e / u\<rceil> * u" and "of_int \<lceil>e / u\<rceil> * u < e + u" by (simp_all only: distrib_right mult_1)
qed

text \<open>Whatever the builder makes of a model of periodic interest, a charge on a positive loan keeps the
  contract a venue asks of it: it never panics in exact arithmetic and is never negative. It is a whole
  number of units, the fewest that cover the exact interest of one period at the rate in force, so a
  loan at a positive rate is charged at least one unit.
\<close>

theorem periodic_interest_keeps_contract:
  assumes "periodic_built m" and "0 < x"
  shows "case Option.bind (pi_rates m a) (rate_at (due_time due)) of
      None \<Rightarrow> periodic_charge Some m a x due = Some None
    | Some rate \<Rightarrow> \<exists>n. 0 \<le> rate \<and> 0 < interest_unit m a \<and>
        periodic_charge Some m a x due = Some (Some \<lparr>ic_interest = of_nat n * interest_unit m a, ic_rate = Some rate\<rparr>) \<and>
        period_interest m x rate \<le> of_nat n * interest_unit m a \<and>
        of_nat n * interest_unit m a < period_interest m x rate + interest_unit m a \<and>
        (0 < rate \<longrightarrow> 1 \<le> n)"
proof (cases "Option.bind (pi_rates m a) (rate_at (due_time due))")
  case None
  then show ?thesis by (simp add: periodic_charge_def)
next
  case (Some rate)
  note ok = periodic_built_sound [OF assms(1), unfolded periodic_sound_def]
  obtain s where s: "pi_rates m a = Some s" "rate_at (due_time due) s = Some rate" using Some by (auto simp: bind_eq_Some_conv)
  then have rate: "0 \<le> rate" using ok rate_at_point [OF s(2)] by (force simp: list_all_iff)
  have u: "0 < interest_unit m a" using ok by (auto simp: interest_unit_def split: option.splits)
  have "0 < day_count_basis (pi_day_count m)" by (cases "pi_day_count m") simp_all
  then have e: "0 \<le> period_interest m x rate" "0 < rate \<Longrightarrow> 0 < period_interest m x rate"
    using ok assms(2) rate by (simp_all add: period_interest_def)
  define k where "k = \<lceil>period_interest m x rate / interest_unit m a\<rceil>"
  have "0 \<le> period_interest m x rate / interest_unit m a"
    and "0 < rate \<Longrightarrow> 0 < period_interest m x rate / interest_unit m a" using e u by simp_all
  then have k: "0 \<le> k" "0 < rate \<Longrightarrow> 0 < k" unfolding k_def by linarith+
  have "accrue_span Some (pi_day_count m) (x * rate) (pi_period m) = Some (period_interest m x rate)"
    by (simp add: accrue_span_exact period_interest_def seconds_per_day_def nanos_per_second_def field_simps)
  moreover have "(case pi_units m a of None \<Rightarrow> default_interest_unit | Some u \<Rightarrow> u) = interest_unit m a"
    unfolding interest_unit_def default_interest_unit_def ..
  ultimately have charge: "periodic_charge Some m a x due =
      Some (Some \<lparr>ic_interest = of_nat (nat k) * interest_unit m a, ic_rate = Some rate\<rparr>)"
    using u k(1) by (simp add: periodic_charge_def Some Let_def dec_simps k_def)
  note bounds = ceiling_units [OF u, of "period_interest m x rate", folded k_def]
  have nat_k: "of_int k = (of_nat (nat k) :: rat)" and "0 < rate \<longrightarrow> 1 \<le> nat k" using k by auto
  with charge rate u bounds [unfolded nat_k] show ?thesis unfolding Some option.case by blast
qed

definition sample_interest :: periodic_interest where
  "sample_interest = \<lparr>pi_period = 3600000000000, pi_day_count = Act365, pi_schedule = AtBorrowAndEachBoundary,
     pi_rates = [''usdt'' \<mapsto> \<lparr>rs_points = [(0, 1 / 10)]\<rparr>], pi_units = Map.empty\<rparr>"

lemma sample_interest_built: "periodic_built sample_interest"
proof -
  have "periodic_new 3600000000000 Act365 = Some (sample_interest\<lparr>pi_rates := Map.empty\<rparr>)"
    by (simp add: periodic_new_def sample_interest_def)
  moreover have "periodic_with_rates ''usdt'' \<lparr>rs_points = [(0, 1 / 10)]\<rparr> (sample_interest\<lparr>pi_rates := Map.empty\<rparr>) = Some sample_interest"
    by (simp add: periodic_with_rates_def sample_interest_def)
  ultimately show ?thesis using built_new built_rates by blast
qed

theorem periodic_interest_keeps_contract_witness:
  "\<exists>n. periodic_charge Some sample_interest ''usdt'' 876 (InterestAtBoundary 3600000000000) =
     Some (Some \<lparr>ic_interest = of_nat n * (1 / 10 ^ 8), ic_rate = Some (1 / 10)\<rparr>) \<and> 1 \<le> n \<and>
     1 / 100 \<le> of_nat n * (1 / 10 ^ 8 :: decimal) \<and> of_nat n * (1 / 10 ^ 8) < 1 / 100 + (1 / 10 ^ 8 :: decimal)"
  using periodic_interest_keeps_contract [OF sample_interest_built, of 876 "''usdt''" "InterestAtBoundary 3600000000000"]
  by (auto simp: sample_interest_def rate_at_def interest_unit_def period_interest_def)

end
