(* ===== verification/Venue_Accrual.thy ===== *)
theory Venue_Accrual
  imports Venue_Runs Carry_Laws
begin

text \<open>
  What a clock step of the simulated venue charges: every boundary its models name in the span it
  crosses, once each and in time order. The search for them always ends, and a clock advanced in any
  number of steps charges what it would have charged in one.
\<close>

section \<open>The search ends\<close>

lemma boundaries_from_unfold:
  "boundaries_from next_at z b =
     (case checked_boundary next_at b of
        None \<Rightarrow> Some None
      | Some n \<Rightarrow> if b \<le> z then map_option (map_option ((#) b)) (boundaries_through b z next_at) else Some (Some []))"
  by (subst boundaries_from.simps)
    (auto simp: boundaries_through_def split: option.splits Option.bind_splits)

lemma checked_boundary_Some: "checked_boundary next_at t = Some (Some b) \<longleftrightarrow> next_at t = Some (Some b) \<and> t < b"
  by (auto simp: checked_boundary_def bind_eq_Some_conv split: option.splits if_splits)

lemma boundaries_through_induct [case_names step]:
  fixes z :: int
  assumes "\<And>a. (\<And>b. next_at a = Some (Some b) \<Longrightarrow> a < b \<Longrightarrow> b \<le> z \<Longrightarrow> P b) \<Longrightarrow> P a"
  shows "P a"
proof (induction "nat (z - a)" arbitrary: a rule: less_induct)
  case less
  show ?case by (rule assms) (rule less.hyps, simp)
qed

lemma boundaries_through_unfold:
  "boundaries_through a z next_at =
     (case checked_boundary next_at a of
        None \<Rightarrow> Some None
      | Some None \<Rightarrow> Some (Some [])
      | Some (Some b) \<Rightarrow> (case checked_boundary next_at b of
            None \<Rightarrow> Some None
          | Some _ \<Rightarrow> if b \<le> z then map_option (map_option ((#) b)) (boundaries_through b z next_at)
              else Some (Some [])))"
  by (subst boundaries_through_def) (auto simp: boundaries_from_unfold split: option.splits)

lemma boundaries_through_ends: "\<exists>r. boundaries_through a z next_at = Some r"
proof (induction a rule: boundaries_through_induct [where next_at = next_at and z = z])
  case (step a)
  show ?case
    by (subst boundaries_through_unfold)
      (use step in \<open>fastforce simp: checked_boundary_Some split: option.splits\<close>)
qed

section \<open>What it finds\<close>

definition boundaries_in :: "(time \<Rightarrow> time option option) \<Rightarrow> time \<Rightarrow> time \<Rightarrow> time set" where
  "boundaries_in next_at a z = {b. a < b \<and> b \<le> z \<and> (\<exists>t\<ge>a. next_at t = Some (Some b))}"

lemma boundaries_in_finite [simp]: "finite (boundaries_in next_at a z)"
  by (rule finite_subset [of _ "{a..z}"]) (auto simp: boundaries_in_def)

lemma sorted_list_of_set_least:
  fixes b :: time
  assumes "finite A" and "\<forall>x \<in> A. b < x"
  shows "sorted_list_of_set (insert b A) = b # sorted_list_of_set A"
proof -
  have "b \<notin> A" and "Min (insert b A) = b" using assms by (auto intro!: Min_insert2)
  then show ?thesis using sorted_list_of_set_nonempty [of "insert b A"] assms(1) by simp
qed

context charging_schedule begin

lemma checked:
  assumes "covers t" and "next_at t = Some n"
  shows "checked_boundary next_at t = Some n"
  using assms later [of t] by (cases n) (auto simp: checked_boundary_def)

lemma in_step:
  assumes a: "covers a" and b: "next_at a = Some (Some b)"
    and reach: "\<And>t. a \<le> t \<Longrightarrow> t \<le> z \<Longrightarrow> next_at t \<noteq> None"
  shows "boundaries_in next_at a z = (if b \<le> z then insert b (boundaries_in next_at b z) else {})"
proof -
  note ab = later [OF a b]
  have hit: "x = b \<or> (b < x \<and> (\<exists>t\<ge>b. next_at t = Some (Some x)))" if x: "x \<in> boundaries_in next_at a z" for x
  proof -
    obtain t where t: "a \<le> t" "next_at t = Some (Some x)" using x by (auto simp: boundaries_in_def)
    note tx = later [OF onward [OF a t(1)] t(2)]
    show ?thesis
    proof (cases "t < b")
      case True
      then show ?thesis using first [OF a b t(1)] t(2) by simp
    next
      case False
      then show ?thesis using t tx by force
    qed
  qed
  have "x \<in> boundaries_in next_at a z \<longleftrightarrow> b \<le> z \<and> (x = b \<or> x \<in> boundaries_in next_at b z)" for x
  proof
    assume x: "x \<in> boundaries_in next_at a z"
    then show "b \<le> z \<and> (x = b \<or> x \<in> boundaries_in next_at b z)"
      using hit [OF x] by (auto simp: boundaries_in_def)
  next
    assume "b \<le> z \<and> (x = b \<or> x \<in> boundaries_in next_at b z)"
    then consider "x = b" "b \<le> z" | t where "b < x" "x \<le> z" "b \<le> t" "next_at t = Some (Some x)"
      by (auto simp: boundaries_in_def)
    then show "x \<in> boundaries_in next_at a z"
    proof cases
      case 1
      with b ab show ?thesis by (auto simp: boundaries_in_def)
    next
      case (2 t)
      with ab have "a \<le> t" and "a < x" by simp_all
      with 2 show ?thesis by (auto simp: boundaries_in_def)
    qed
  qed
  then show ?thesis by auto
qed

lemma in_never:
  assumes a: "covers a" and n: "next_at a = Some None"
  shows "boundaries_in next_at a z = {}"
  using never [OF a n] by (fastforce simp: boundaries_in_def)

lemma boundaries_found:
  assumes "covers a" and "a \<le> z \<Longrightarrow> \<forall>t. a \<le> t \<and> t \<le> z \<longrightarrow> reach t" and "reach a"
  shows "boundaries_through a z next_at = Some (Some (sorted_list_of_set (boundaries_in next_at a z)))"
  using assms
proof (induction a rule: boundaries_through_induct [where next_at = next_at and z = z])
  case (step a)
  obtain n where n: "next_at a = Some n" "\<forall>b. n = Some b \<longrightarrow> next_at b \<noteq> None"
    using total [OF step.prems(3)] by blast
  show ?case
  proof (cases n)
    case None
    then show ?thesis using n step.prems(1)
      by (subst boundaries_through_unfold) (simp add: checked in_never)
  next
    case (Some b)
    with n have ab: "next_at a = Some (Some b)" and b: "next_at b \<noteq> None" by auto
    note less = later [OF step.prems(1) ab]
    have cb: "covers b" using onward [OF step.prems(1)] less by simp
    have defined: "next_at t \<noteq> None" if "a \<le> t" "t \<le> z" for t using total step.prems(2) that by fastforce
    note set_eq = in_step [OF step.prems(1) ab defined]
    show ?thesis
    proof (cases "b \<le> z")
      case True
      have IH: "boundaries_through b z next_at = Some (Some (sorted_list_of_set (boundaries_in next_at b z)))"
        using step.IH [OF ab less True cb] step.prems(2) less True by simp
      have "sorted_list_of_set (insert b (boundaries_in next_at b z)) = b # sorted_list_of_set (boundaries_in next_at b z)"
        by (rule sorted_list_of_set_least [OF boundaries_in_finite]) (simp add: boundaries_in_def)
      then show ?thesis
        using set_eq True b cb ab step.prems(1)
        by (subst boundaries_through_unfold) (auto simp: checked IH)
    next
      case False
      then show ?thesis using set_eq b cb ab step.prems(1)
        by (subst boundaries_through_unfold) (auto simp: checked)
    qed
  qed
qed

end

section \<open>Models on schedule\<close>

definition scheduled :: "(time \<Rightarrow> time option option) \<Rightarrow> time \<Rightarrow> time \<Rightarrow> bool" where
  "scheduled next_at a z \<longleftrightarrow>
     (\<exists>covers reach. charging_schedule next_at covers reach \<and> covers a \<and> (\<forall>t. a \<le> t \<and> t \<le> z \<longrightarrow> reach t))"

lemma scheduled_part:
  assumes "scheduled next_at a z" and "a \<le> s" and "s \<le> z"
  shows "scheduled next_at a s" and "scheduled next_at s z"
proof -
  obtain covers reach where sched: "charging_schedule next_at covers reach"
    and a: "covers a" and r: "\<forall>t. a \<le> t \<and> t \<le> z \<longrightarrow> reach t"
    using assms(1) by (auto simp: scheduled_def)
  have "covers s" using charging_schedule.onward [OF sched a assms(2)] .
  then show "scheduled next_at a s" and "scheduled next_at s z"
    using sched a r assms(2,3) unfolding scheduled_def by (meson order.trans)+
qed

lemma scheduled_boundaries:
  assumes "scheduled next_at a z" and "a \<le> z"
  shows "boundaries_through a z next_at = Some (Some (sorted_list_of_set (boundaries_in next_at a z)))"
  using assms charging_schedule.boundaries_found unfolding scheduled_def by (metis order.refl)

lemma scheduled_next:
  assumes "scheduled next_at a z" and "a \<le> z"
  obtains n where "next_at a = Some n" and "checked_boundary next_at a = Some n"
    and "\<And>s. a \<le> s \<Longrightarrow> s \<le> z \<Longrightarrow> boundaries_in next_at a s = {} \<Longrightarrow> next_at s = Some n"
    and "boundaries_in next_at a z = {} \<longleftrightarrow> (\<forall>b. n = Some b \<longrightarrow> z < b)"
proof -
  obtain covers reach where sched: "charging_schedule next_at covers reach"
    and a: "covers a" and r: "\<forall>t. a \<le> t \<and> t \<le> z \<longrightarrow> reach t"
    using assms(1) by (auto simp: scheduled_def)
  note total = charging_schedule.total [OF sched] and first = charging_schedule.first [OF sched a]
    and never = charging_schedule.never [OF sched a]
  have defined: "next_at t \<noteq> None" if "a \<le> t" "t \<le> z" for t using total [of t] r that by auto
  obtain n where n: "next_at a = Some n" using defined [of a] assms(2) by auto
  have checked: "checked_boundary next_at a = Some n" by (rule charging_schedule.checked [OF sched a n])
  have empty: "boundaries_in next_at a s = {} \<longleftrightarrow> (\<forall>b. n = Some b \<longrightarrow> s < b)" if "a \<le> s" "s \<le> z" for s
  proof (cases n)
    case None
    then show ?thesis using charging_schedule.in_never [OF sched a] n by simp
  next
    case (Some b)
    then show ?thesis
      using charging_schedule.in_step [OF sched a, of b s] n defined that by auto
  qed
  have "next_at s = Some n" if s: "a \<le> s" "s \<le> z" "boundaries_in next_at a s = {}" for s
  proof (cases n)
    case None
    then show ?thesis using never [of s] n s defined [of s] by simp
  next
    case (Some b)
    then show ?thesis using first [of b s] n s empty [OF s(1,2)] by simp
  qed
  with n checked empty [OF assms(2) order.refl] that show ?thesis by blast
qed

lemma scheduled_split:
  assumes "scheduled next_at a z" and "a \<le> s" and "s \<le> z"
  shows "boundaries_in next_at a z = boundaries_in next_at a s \<union> boundaries_in next_at s z"
proof -
  obtain covers reach where sched: "charging_schedule next_at covers reach" and a: "covers a"
    using assms(1) by (auto simp: scheduled_def)
  have late: "\<exists>u\<ge>s. next_at u = Some (Some x)" if t: "a \<le> t" "next_at t = Some (Some x)" and x: "s < x" for t x
  proof (cases "s \<le> t")
    case False
    have "next_at s = Some (Some x)"
      by (rule charging_schedule.first [OF sched charging_schedule.onward [OF sched a t(1)] t(2)]) (use False x in simp_all)
    then show ?thesis by blast
  qed (use t in blast)
  have wide: "\<exists>u\<ge>a. next_at u = Some (Some x)" if "\<exists>u\<ge>s. next_at u = Some (Some x)" for x
    using that assms(2) order.trans by blast
  show ?thesis
  proof (intro set_eqI iffI)
    fix x assume "x \<in> boundaries_in next_at a z"
    then show "x \<in> boundaries_in next_at a s \<union> boundaries_in next_at s z"
      using late by (cases "x \<le> s") (auto simp: boundaries_in_def)
  next
    fix x assume "x \<in> boundaries_in next_at a s \<union> boundaries_in next_at s z"
    then show "x \<in> boundaries_in next_at a z"
      using wide [of x] assms(2,3) by (auto simp: boundaries_in_def)
  qed
qed

section \<open>What falls due\<close>

definition venue_scheduled :: "('e, 'g) venue_config \<Rightarrow> time \<Rightarrow> time \<Rightarrow> bool" where
  "venue_scheduled cfg a z \<longleftrightarrow>
     (\<forall>m \<in> set (vc_holding_costs cfg). \<forall>i. scheduled (hm_next_boundary m i) a z) \<and>
     (\<forall>m. vc_margin_interest cfg = Some m \<longrightarrow> (\<forall>x. scheduled (im_next_boundary m x) a z))"

lemma venue_scheduled_part:
  "venue_scheduled cfg a z \<Longrightarrow> a \<le> s \<Longrightarrow> s \<le> z \<Longrightarrow> venue_scheduled cfg a s \<and> venue_scheduled cfg s z"
  unfolding venue_scheduled_def using scheduled_part by blast

definition tagged :: "('x \<Rightarrow> time list) \<Rightarrow> ('x \<Rightarrow> due_charge) \<Rightarrow> 'x list \<Rightarrow> (time \<times> due_charge) list" where
  "tagged g d xs = concat (map (\<lambda>x. map (\<lambda>b. (b, d x)) (g x)) xs)"

lemma all_due_tagged: "\<forall>x \<in> set xs. f x = Some (Some (g x)) \<Longrightarrow> all_due f d xs = Some (tagged g d xs)"
  by (induction xs) (simp_all add: tagged_def)

lemma set_tagged: "(t, c) \<in> set (tagged g d xs) \<longleftrightarrow> (\<exists>x \<in> set xs. c = d x \<and> t \<in> set (g x))"
  by (auto simp: tagged_def)

lemma distinct_tagged:
  "distinct xs \<Longrightarrow> inj_on d (set xs) \<Longrightarrow> \<forall>x. distinct (g x) \<Longrightarrow> distinct (tagged g d xs)"
  by (induction xs) (auto simp: tagged_def distinct_map inj_on_def)

definition holding_bounds :: "('e, 'g) venue_config \<Rightarrow> time \<Rightarrow> time \<Rightarrow> instrument_name \<times> nat \<Rightarrow> time list" where
  "holding_bounds cfg a z = (\<lambda>(i, n). sorted_list_of_set (boundaries_in (hm_next_boundary (vc_holding_costs cfg ! n) i) a z))"

definition interest_bounds :: "margin_interest_model \<Rightarrow> time \<Rightarrow> time \<Rightarrow> asset_name \<times> decimal \<Rightarrow> time list" where
  "interest_bounds m a z = (\<lambda>(x, p). sorted_list_of_set (boundaries_in (im_next_boundary m x) a z))"

definition due_list :: "('e, 'g) venue_config \<Rightarrow> time \<Rightarrow> time \<Rightarrow> ('e, 'g) venue \<Rightarrow> (time \<times> due_charge) list" where
  "due_list cfg a z v = tagged (holding_bounds cfg a z) (\<lambda>(i, n). DueHolding i n)
       (List.product (names_of (vn_positions v)) [0..<length (vc_holding_costs cfg)]) @
     (case vc_margin_interest cfg of
        None \<Rightarrow> []
      | Some m \<Rightarrow> tagged (interest_bounds m a z) (\<lambda>(x, p). DueInterest x p) (loans_of (vn_account v)))"

lemma due_found:
  assumes "venue_scheduled cfg a z" and "a \<le> z"
  obtains carry interest where "holding_due cfg a z v = Some carry" and "interest_due_list cfg a z v = Some interest"
    and "carry @ interest = due_list cfg a z v"
proof -
  have 1: "holding_due cfg a z v = Some (tagged (holding_bounds cfg a z) (\<lambda>(i, n). DueHolding i n)
      (List.product (names_of (vn_positions v)) [0..<length (vc_holding_costs cfg)]))"
    unfolding holding_due_def
    by (rule all_due_tagged) (use assms in \<open>auto simp: venue_scheduled_def holding_bounds_def scheduled_boundaries\<close>)
  have 2: "interest_due_list cfg a z v = Some (case vc_margin_interest cfg of None \<Rightarrow> []
      | Some m \<Rightarrow> tagged (interest_bounds m a z) (\<lambda>(x, p). DueInterest x p) (loans_of (vn_account v)))"
    unfolding interest_due_list_def
    by (auto split: option.splits intro!: all_due_tagged)
      (use assms in \<open>auto simp: venue_scheduled_def interest_bounds_def scheduled_boundaries\<close>)
  from that [OF 1 2] show ?thesis by (simp add: due_list_def)
qed

lemma loans_of_iff: "(x, p) \<in> set (loans_of st) \<longleftrightarrow> x \<in> set (names_of (ac_balances st)) \<and> account_loan x st = Some p"
  by (force simp: loans_of_def map_filter_def image_iff)

lemma distinct_loans: "distinct (loans_of st)"
proof -
  have "distinct (map fst (loans_of st))"
  proof -
    have "map fst (List.map_filter (\<lambda>a. map_option (Pair a) (f a)) xs) = filter (\<lambda>a. f a \<noteq> None) xs" for f :: "asset_name \<Rightarrow> decimal option" and xs
      by (induction xs) (auto simp: map_filter_simps)
    then show ?thesis by (simp add: loans_of_def names_of_def)
  qed
  then show ?thesis by (simp add: distinct_map)
qed

lemma due_keys: "inj_on due_key (set (due_list cfg a z v))" and due_distinct: "distinct (due_list cfg a z v)"
proof -
  have names: "distinct (names_of (vn_positions v))" by (simp add: names_of_def)
  show "distinct (due_list cfg a z v)"
    unfolding due_list_def
    by (auto simp: set_tagged holding_bounds_def interest_bounds_def names distinct_product distinct_loans inj_on_def
        split: option.splits intro!: distinct_tagged)
  show "inj_on due_key (set (due_list cfg a z v))"
  proof (rule inj_onI, clarify)
    fix t c u e
    assume x: "(t, c) \<in> set (due_list cfg a z v)" "(u, e) \<in> set (due_list cfg a z v)" "due_key (t, c) = due_key (u, e)"
    then show "t = u \<and> c = e"
      by (cases c; cases e) (auto simp: due_list_def set_tagged loans_of_iff split: option.splits)
  qed
qed

lemma due_key_time: "fst (due_key d) = fst d"
  by (cases d rule: due_key.cases) simp_all

lemma set_due_split:
  assumes "venue_scheduled cfg a z" and "a \<le> s" and "s \<le> z"
  shows "set (due_list cfg a z v) = set (due_list cfg a s v) \<union> set (due_list cfg s z v)"
proof -
  have 1: "set (holding_bounds cfg a z p) = set (holding_bounds cfg a s p) \<union> set (holding_bounds cfg s z p)"
    if "snd p < length (vc_holding_costs cfg)" for p
  proof -
    obtain i n where p: "p = (i, n)" by (cases p)
    have "scheduled (hm_next_boundary (vc_holding_costs cfg ! n) i) a z"
      using assms(1) that p by (simp add: venue_scheduled_def)
    from scheduled_split [OF this assms(2,3)] show ?thesis by (simp add: p holding_bounds_def)
  qed
  have 2: "set (interest_bounds m a z p) = set (interest_bounds m a s p) \<union> set (interest_bounds m s z p)"
    if "vc_margin_interest cfg = Some m" for m p
  proof -
    obtain x r where p: "p = (x, r)" by (cases p)
    have "scheduled (im_next_boundary m x) a z" using assms(1) that by (simp add: venue_scheduled_def)
    from scheduled_split [OF this assms(2,3)] show ?thesis by (simp add: p interest_bounds_def)
  qed
  have "(t, c) \<in> set (due_list cfg a z v) \<longleftrightarrow> (t, c) \<in> set (due_list cfg a s v) \<union> set (due_list cfg s z v)" for t c
    using 1 2 by (fastforce simp: due_list_def set_tagged split: option.splits)
  then show ?thesis by auto
qed

lemma due_in_span: "(t, c) \<in> set (due_list cfg a z v) \<Longrightarrow> a < t \<and> t \<le> z"
proof -
  have in_span: "t \<in> boundaries_in next_at a z \<Longrightarrow> a < t \<and> t \<le> z" for next_at by (simp add: boundaries_in_def)
  show "(t, c) \<in> set (due_list cfg a z v) \<Longrightarrow> a < t \<and> t \<le> z"
    by (auto simp: due_list_def set_tagged holding_bounds_def interest_bounds_def dest: in_span split: option.splits)
qed

lemma due_order_split:
  assumes "venue_scheduled cfg a z" and "a \<le> s" and "s \<le> z"
  shows "sort_key due_key (due_list cfg a z v) = sort_key due_key (due_list cfg a s v) @ sort_key due_key (due_list cfg s z v)"
    (is "?l = ?r")
proof (rule map_sorted_distinct_set_unique [where f = due_key])
  have "due_key x \<le> due_key y" if "x \<in> set (due_list cfg a s v)" "y \<in> set (due_list cfg s z v)" for x y
  proof -
    have "fst x < fst y" using that due_in_span [of "fst x" "snd x"] due_in_span [of "fst y" "snd y"] by fastforce
    then have "fst (due_key x) < fst (due_key y)" by (simp add: due_key_time)
    then show ?thesis by (simp add: less_eq_prod_def)
  qed
  then show "sorted (map due_key ?r)" by (auto simp: sorted_append)
  have apart: "set (due_list cfg a s v) \<inter> set (due_list cfg s z v) = {}" by (auto dest!: due_in_span)
  show "inj_on due_key (set ?l \<union> set ?r)" using due_keys [of cfg a z v] set_due_split [OF assms, of v] by simp
  moreover have "distinct ?r" using due_distinct apart by auto
  ultimately show "distinct (map due_key ?r)" by (simp add: distinct_map inj_on_Un del: map_append)
  show "distinct (map due_key ?l)" using due_distinct [of cfg a z v] due_keys [of cfg a z v] by (simp add: distinct_map)
  show "set ?l = set ?r" using set_due_split [OF assms, of v] by simp
qed simp

section \<open>The charges do not see the clock\<close>

definition at_clock ::
  "time option \<Rightarrow> time option \<Rightarrow> time option \<Rightarrow> u64 \<Rightarrow> ('e, 'g) venue \<Rightarrow> ('e, 'g) venue" where
  "at_clock a nc ni nl v = v\<lparr>vn_accrued_through := a, vn_next_charge := nc, vn_next_interest := ni,
     vn_next_interest_loans := nl\<rparr>"

lemma at_clock_fields [simp]:
  "vn_account (at_clock a nc ni nl v) = vn_account v" "vn_positions (at_clock a nc ni nl v) = vn_positions v"
  "vn_market (at_clock a nc ni nl v) = vn_market v" "vn_accrued_through (at_clock a nc ni nl v) = a"
  "vn_next_charge (at_clock a nc ni nl v) = nc" "vn_next_interest (at_clock a nc ni nl v) = ni"
  "vn_next_interest_loans (at_clock a nc ni nl v) = nl"
  "at_clock a nc ni nl (at_clock a' nc' ni' nl' v) = at_clock a nc ni nl v"
  by (simp_all add: at_clock_def)

lemma at_clock_self: "at_clock (vn_accrued_through v) (vn_next_charge v) (vn_next_interest v) (vn_next_interest_loans v) v = v"
  by (simp add: at_clock_def)

lemma on_account_clock: "on_account f (at_clock a nc ni nl v) = map_option (map_prod id (at_clock a nc ni nl)) (on_account f v)"
  by (cases "f (vn_account v)") (auto simp: on_account_def at_clock_def)

lemma fetch_clock: "cash_flow_id_fetch_add (at_clock a nc ni nl v) = map_prod id (at_clock a nc ni nl) (cash_flow_id_fetch_add v)"
  by (simp add: cash_flow_id_fetch_add_def at_clock_def)

lemma charge_holding_clock:
  "charge_holding_cost cfg b i n (at_clock a nc ni nl v) =
     map_option (map_prod id (at_clock a nc ni nl)) (charge_holding_cost cfg b i n v)"
  by (auto simp: charge_holding_cost_def valuation_price_def on_account_clock fetch_clock Let_def map_option_bind
      split: option.splits Option.bind_splits prod.splits)

lemma charge_boundary_clock:
  "charge_interest_boundary cfg b x p (at_clock a nc ni nl v) =
     map_option (map_prod id (at_clock a nc ni nl)) (charge_interest_boundary cfg b x p v)"
  by (auto simp: charge_interest_boundary_def venue_charge_interest_def on_account_clock fetch_clock Let_def
      split: option.splits Option.bind_splits prod.splits)

lemma charge_due_clock:
  "charge_due cfg ds (at_clock a nc ni nl v) = map_option (map_prod id (at_clock a nc ni nl)) (charge_due cfg ds v)"
proof (induction ds arbitrary: v)
  case (Cons d ds)
  obtain b c where d: "d = (b, c)" by (cases d)
  show ?case
    by (cases c)
      (auto simp: d Cons.IH charge_holding_clock charge_boundary_clock split: Option.bind_splits prod.splits)
qed simp

lemma charge_due_append:
  "charge_due cfg (ds @ ds') v = do {
     (es, v1) \<leftarrow> charge_due cfg ds v;
     (es', v2) \<leftarrow> charge_due cfg ds' v1;
     Some (es @ es', v2)
   }"
proof (induction ds arbitrary: v)
  case Nil
  then show ?case by (auto split: Option.bind_splits)
next
  case (Cons d ds)
  then show ?case by (cases d) (auto split: Option.bind_splits prod.splits)
qed

text \<open>A charge moves no principal and no position.\<close>

definition same_loans :: "('e, 'g) venue \<Rightarrow> ('e, 'g) venue \<Rightarrow> bool" where
  "same_loans v v' \<longleftrightarrow> vn_positions v' = vn_positions v \<and> loans_of (vn_account v') = loans_of (vn_account v) \<and>
     ac_loans_changed (vn_account v') = ac_loans_changed (vn_account v)"

lemma same_loans_trans: "same_loans u v \<Longrightarrow> same_loans v w \<Longrightarrow> same_loans u w"
  by (simp add: same_loans_def)

lemma loans_put:
  assumes "ac_balances st a = Some ab" and "\<And>m. bl_margin (ab_balance ab') = Some m \<Longrightarrow>
      md_borrowed m = (case bl_margin (ab_balance ab) of None \<Rightarrow> 0 | Some m' \<Rightarrow> md_borrowed m')"
    and "bl_margin (ab_balance ab') = None \<Longrightarrow> bl_margin (ab_balance ab) = None"
  shows "loans_of (put_balance ab' a st) = loans_of st"
proof -
  have "account_loan x (put_balance ab' a st) = account_loan x st" for x
  proof (cases "x = a")
    case True
    have "account_loan a (put_balance ab' a st) = (case bl_margin (ab_balance ab') of None \<Rightarrow> None
        | Some m \<Rightarrow> if 0 < md_borrowed m then Some (md_borrowed m) else None)"
      by (simp add: account_loan_def put_balance_def)
    also have "\<dots> = (case bl_margin (ab_balance ab) of None \<Rightarrow> None
        | Some m \<Rightarrow> if 0 < md_borrowed m then Some (md_borrowed m) else None)"
    proof (cases "bl_margin (ab_balance ab')")
      case (Some m)
      from assms(2) [OF Some] show ?thesis
        unfolding Some by (cases "bl_margin (ab_balance ab)") simp_all
    next
      case None
      from assms(3) [OF None] show ?thesis unfolding None by simp
    qed
    finally show ?thesis using True assms(1) by (simp add: account_loan_def)
  qed (simp add: account_loan_def put_balance_def)
  moreover have "names_of (ac_balances (put_balance ab' a st)) = names_of (ac_balances st)"
    using assms(1) by (simp add: names_of_def put_balance_def insert_absorb domI)
  ultimately show ?thesis by (simp add: loans_of_def)
qed

lemma same_loans_put:
  "loans_of (put_balance ab a (vn_account v)) = loans_of (vn_account v) \<Longrightarrow>
    same_loans v (v\<lparr>vn_account := put_balance ab a (vn_account v)\<rparr>)"
  by (simp add: same_loans_def) (simp add: put_balance_def)

lemma charge_same_loans:
  assumes "on_account (charge R a x t) v = Some (ab, v')"
  shows "same_loans v v'"
proof -
  obtain ab0 b where ab0: "ac_balances (vn_account v) a = Some ab0" and b: "balance_add R x (ab_balance ab0) = Some b"
    and v': "v' = v\<lparr>vn_account := put_balance (ab0\<lparr>ab_balance := b, ab_time_exchange := t\<rparr>) a (vn_account v)\<rparr>"
    using assms by (auto simp: on_account_def charge_def Let_def bind_eq_Some_conv)
  have "bl_margin b = bl_margin (ab_balance ab0)" using b by (auto simp: balance_add_def bind_eq_Some_conv)
  then show ?thesis unfolding v' by (intro same_loans_put loans_put [OF ab0]) simp_all
qed

lemma interest_same_loans:
  assumes "on_account (charge_interest R a x t) v = Some (ab, v')"
  shows "same_loans v v'"
proof -
  define m where "m ab0 = (case bl_margin (ab_balance ab0) of None \<Rightarrow> margin_details_default | Some m \<Rightarrow> m)"
    for ab0 :: name_balance
  obtain ab0 i where ab0: "ac_balances (vn_account v) a = Some ab0"
    and v': "v' = v\<lparr>vn_account := put_balance (ab0\<lparr>ab_balance := (ab_balance ab0)\<lparr>bl_margin := Some (m ab0\<lparr>md_interest := i\<rparr>)\<rparr>,
        ab_time_exchange := t\<rparr>) a (vn_account v)\<rparr>"
    using assms by (auto simp: on_account_def charge_interest_def Let_def bind_eq_Some_conv m_def)
  have "md_borrowed (m ab0) = (case bl_margin (ab_balance ab0) of None \<Rightarrow> 0 | Some m' \<Rightarrow> md_borrowed m')"
    by (cases "bl_margin (ab_balance ab0)") (simp_all add: m_def margin_details_default_def)
  then show ?thesis unfolding v' by (intro same_loans_put loans_put [OF ab0]) auto
qed

lemma charge_due_same_loans: "charge_due cfg ds v = Some (es, v') \<Longrightarrow> same_loans v v'"
proof (induction ds arbitrary: v es)
  case Nil
  then show ?case by (simp add: same_loans_def)
next
  case (Cons d ds)
  obtain b c where d: "d = (b, c)" by (cases d)
  have holding: "same_loans v v1" if "charge_holding_cost cfg b i n v = Some (es, v1)" for i n es v1
    using that by (auto simp: charge_holding_cost_def Let_def cash_flow_id_fetch_add_def same_loans_def
        split: Option.bind_splits option.splits if_splits dest!: charge_same_loans)
  have interest: "same_loans v v1" if "charge_interest_boundary cfg b x p v = Some (es, v1)" for x p es v1
    using that by (auto simp: charge_interest_boundary_def venue_charge_interest_def Let_def cash_flow_id_fetch_add_def
        same_loans_def split: Option.bind_splits option.splits if_splits dest!: interest_same_loans)
  obtain es1 v1 es2 where "(case c of DueHolding i n \<Rightarrow> charge_holding_cost cfg b i n v
      | DueInterest a p \<Rightarrow> charge_interest_boundary cfg b a p v) = Some (es1, v1)"
    and rest: "charge_due cfg ds v1 = Some (es2, v')"
    using Cons.prems d by (auto simp: bind_eq_Some_conv)
  then have "same_loans v v1" using holding interest by (cases c) auto
  then show ?case using same_loans_trans Cons.IH [OF rest] by blast
qed

section \<open>A clock step\<close>

text \<open>The first charge and the first interest after an instant, as a venue caches them.\<close>

definition next_carry :: "('e, 'g) venue_config \<Rightarrow> time \<Rightarrow> ('e, 'g) venue \<Rightarrow> time option" where
  "next_carry cfg t v = earliest (List.map_filter (\<lambda>(i, m). the (hm_next_boundary m i t))
     (List.product (names_of (vn_positions v)) (vc_holding_costs cfg)))"

definition next_interest :: "('e, 'g) venue_config \<Rightarrow> time \<Rightarrow> ('e, 'g) venue \<Rightarrow> time option" where
  "next_interest cfg t v =
     (case vc_margin_interest cfg of
        None \<Rightarrow> None
      | Some m \<Rightarrow> earliest (List.map_filter (\<lambda>(x, _). the (im_next_boundary m x t)) (loans_of (vn_account v))))"

definition refreshed :: "('e, 'g) venue_config \<Rightarrow> time \<Rightarrow> ('e, 'g) venue \<Rightarrow> ('e, 'g) venue" where
  "refreshed cfg t v = at_clock (Some t) (next_carry cfg t v) (next_interest cfg t v) (ac_loans_changed (vn_account v)) v"

text \<open>
  The caches of a venue are those of its positions and, unless its loans changed since, of its loans:
  as every refresh leaves them.
\<close>

definition synced :: "('e, 'g) venue_config \<Rightarrow> ('e, 'g) venue \<Rightarrow> bool" where
  "synced cfg v \<longleftrightarrow>
     (case vn_accrued_through v of
        None \<Rightarrow> False
      | Some t \<Rightarrow> vn_next_charge v = next_carry cfg t v \<and>
          (vc_margin_interest cfg = None \<longrightarrow> vn_next_interest v = None) \<and>
          (vn_next_interest_loans v = ac_loans_changed (vn_account v) \<longrightarrow> vn_next_interest v = next_interest cfg t v))"

lemma next_clock [simp]:
  "next_carry cfg t (at_clock a nc ni nl v) = next_carry cfg t v"
  "next_interest cfg t (at_clock a nc ni nl v) = next_interest cfg t v"
  by (simp_all add: next_carry_def next_interest_def cong: option.case_cong)

lemma refreshed_synced [simp]: "synced cfg (refreshed cfg t v)"
  by (simp add: synced_def refreshed_def) (simp add: next_interest_def)

lemma filter_map_all_Some:
  "\<forall>x \<in> set xs. f x = Some (g x) \<Longrightarrow> filter_map_all f xs = Some (List.map_filter g xs)"
  by (induction xs) (auto simp: map_filter_simps split: option.splits)

lemma refresh_charge:
  assumes "venue_scheduled cfg t z" and "t \<le> z" and "vn_accrued_through v = Some t"
  shows "refresh_next_charge cfg v = Some (v\<lparr>vn_next_charge := next_carry cfg t v\<rparr>)"
proof -
  have "next_holding_boundary m i t = Some (the (hm_next_boundary m i t))" if "m \<in> set (vc_holding_costs cfg)" for m i
  proof -
    have "scheduled (hm_next_boundary m i) t z" using assms(1) that by (simp add: venue_scheduled_def)
    then show ?thesis by (rule scheduled_next [OF _ assms(2)]) (simp add: next_holding_boundary_def)
  qed
  then have "filter_map_all (\<lambda>(i, m). next_holding_boundary m i t) (List.product (names_of (vn_positions v)) (vc_holding_costs cfg)) =
      Some (List.map_filter (\<lambda>(i, m). the (hm_next_boundary m i t)) (List.product (names_of (vn_positions v)) (vc_holding_costs cfg)))"
    by (intro filter_map_all_Some) auto
  then show ?thesis using assms(3) by (simp add: refresh_next_charge_def next_carry_def)
qed

lemma refresh_interest:
  assumes "venue_scheduled cfg t z" and "t \<le> z" and "vn_accrued_through v = Some t"
    and "vc_margin_interest cfg = None \<Longrightarrow> vn_next_interest v = None"
  shows "refresh_next_interest cfg v =
    Some (v\<lparr>vn_next_interest_loans := ac_loans_changed (vn_account v), vn_next_interest := next_interest cfg t v\<rparr>)"
proof (cases "vc_margin_interest cfg")
  case None
  then show ?thesis using assms(4) by (simp add: refresh_next_interest_def next_interest_def)
next
  case (Some m)
  have "next_interest_boundary m x t = Some (the (im_next_boundary m x t))" for x
  proof -
    have "scheduled (im_next_boundary m x) t z" using assms(1) Some by (simp add: venue_scheduled_def)
    then show ?thesis by (rule scheduled_next [OF _ assms(2)]) (simp add: next_interest_boundary_def)
  qed
  then have "filter_map_all (\<lambda>(x, _). next_interest_boundary m x t) (loans_of (vn_account v)) =
      Some (List.map_filter (\<lambda>(x, _). the (im_next_boundary m x t)) (loans_of (vn_account v)))"
    by (intro filter_map_all_Some) auto
  then show ?thesis using Some assms(3) by (simp add: refresh_next_interest_def next_interest_def Let_def)
qed

lemma earliest_falls: "falls z (earliest ts) \<longleftrightarrow> (\<exists>t \<in> set ts. t \<le> z)"
proof -
  have "fold min xs t \<le> z \<longleftrightarrow> t \<le> z \<or> (\<exists>x \<in> set xs. x \<le> z)" for t xs
    by (induction xs arbitrary: t) (auto simp: min_le_iff_disj)
  then show ?thesis by (cases ts) (simp_all add: earliest_def falls_def)
qed

lemma map_filter_same: "(\<And>x. x \<in> set xs \<Longrightarrow> f x = g x) \<Longrightarrow> List.map_filter f xs = List.map_filter g xs"
  by (induction xs) (simp_all add: map_filter_simps cong: option.case_cong)

lemma quiet_models:
  assumes sched: "scheduled next_at a z" and "a \<le> z" and none: "\<And>b. the (next_at a) = Some b \<Longrightarrow> z < b"
  shows "boundaries_in next_at a z = {}" and "the (next_at z) = the (next_at a)"
proof -
  obtain n where n: "next_at a = Some n" "\<And>s. a \<le> s \<Longrightarrow> s \<le> z \<Longrightarrow> boundaries_in next_at a s = {} \<Longrightarrow> next_at s = Some n"
    "boundaries_in next_at a z = {} \<longleftrightarrow> (\<forall>b. n = Some b \<longrightarrow> z < b)"
    using scheduled_next [OF sched assms(2)] by metis
  with none show empty: "boundaries_in next_at a z = {}" by simp
  show "the (next_at z) = the (next_at a)" using n(1) n(2) [OF assms(2) order.refl empty] by simp
qed

lemma tagged_empty: "(\<And>x. x \<in> set xs \<Longrightarrow> g x = []) \<Longrightarrow> tagged g d xs = []"
  by (simp add: tagged_def)

lemma quiet_step:
  assumes sched: "venue_scheduled cfg a z" and az: "a \<le> z"
    and carry: "\<not> falls z (next_carry cfg a v)" and interest: "\<not> falls z (next_interest cfg a v)"
  shows "due_list cfg a z v = []" and "next_carry cfg z v = next_carry cfg a v"
    and "next_interest cfg z v = next_interest cfg a v"
proof -
  let ?ps = "List.product (names_of (vn_positions v)) (vc_holding_costs cfg)"
  have quiet: "boundaries_in (hm_next_boundary m i) a z = {} \<and> the (hm_next_boundary m i z) = the (hm_next_boundary m i a)"
    if "i \<in> set (names_of (vn_positions v))" "m \<in> set (vc_holding_costs cfg)" for i m
  proof -
    have "scheduled (hm_next_boundary m i) a z" using sched that by (simp add: venue_scheduled_def)
    moreover have "z < b" if "the (hm_next_boundary m i a) = Some b" for b
    proof -
      have "b \<in> set (List.map_filter (\<lambda>(i, m). the (hm_next_boundary m i a)) ?ps)"
        using that \<open>i \<in> _\<close> \<open>m \<in> _\<close> by (force simp: map_filter_def image_iff)
      then show ?thesis using carry by (auto simp: next_carry_def earliest_falls)
    qed
    ultimately show ?thesis using quiet_models [OF _ az] by blast
  qed
  have quiet_loans: "boundaries_in (im_next_boundary m x) a z = {} \<and> the (im_next_boundary m x z) = the (im_next_boundary m x a)"
    if "vc_margin_interest cfg = Some m" "(x, p) \<in> set (loans_of (vn_account v))" for m x p
  proof -
    have "scheduled (im_next_boundary m x) a z" using sched that by (simp add: venue_scheduled_def)
    moreover have "z < b" if "the (im_next_boundary m x a) = Some b" for b
    proof -
      have "b \<in> set (List.map_filter (\<lambda>(x, _). the (im_next_boundary m x a)) (loans_of (vn_account v)))"
        using that \<open>(x, p) \<in> _\<close> by (force simp: map_filter_def image_iff)
      then show ?thesis using interest \<open>vc_margin_interest cfg = Some m\<close> by (auto simp: next_interest_def earliest_falls)
    qed
    ultimately show ?thesis using quiet_models [OF _ az] by blast
  qed
  show "due_list cfg a z v = []"
    using quiet quiet_loans unfolding due_list_def
    by (auto simp: holding_bounds_def interest_bounds_def split: option.splits intro!: tagged_empty)
  have "List.map_filter (\<lambda>(i, m). the (hm_next_boundary m i z)) ?ps = List.map_filter (\<lambda>(i, m). the (hm_next_boundary m i a)) ?ps"
    by (rule map_filter_same) (use quiet in auto)
  then show "next_carry cfg z v = next_carry cfg a v" by (simp add: next_carry_def)
  show "next_interest cfg z v = next_interest cfg a v"
  proof (cases "vc_margin_interest cfg")
    case (Some m)
    have "List.map_filter (\<lambda>(x, _). the (im_next_boundary m x z)) (loans_of (vn_account v)) =
        List.map_filter (\<lambda>(x, _). the (im_next_boundary m x a)) (loans_of (vn_account v))"
      by (rule map_filter_same) (use quiet_loans [OF Some] in auto)
    then show ?thesis by (simp add: next_interest_def Some)
  qed (simp add: next_interest_def)
qed

lemma accrue_exact:
  assumes sync: "synced cfg v" and a: "vn_accrued_through v = Some a" and less: "a < z"
    and sched: "venue_scheduled cfg a z"
  shows "accrue cfg z v = map_option (\<lambda>(es, v'). (es, refreshed cfg z v'))
    (charge_due cfg (sort_key due_key (due_list cfg a z v)) v)"
proof -
  note az = order.strict_implies_order [OF less]
  have nc: "vn_next_charge v = next_carry cfg a v" and none: "vc_margin_interest cfg = None \<Longrightarrow> vn_next_interest v = None"
    and ni: "vn_next_interest_loans v = ac_loans_changed (vn_account v) \<Longrightarrow> vn_next_interest v = next_interest cfg a v"
    using sync a by (simp_all add: synced_def)
  define v1 where "v1 = at_clock (Some a) (next_carry cfg a v) (next_interest cfg a v) (ac_loans_changed (vn_account v)) v"
  have first: "refresh_next_interest_if_loans_changed cfg v = Some v1"
  proof (cases "ac_loans_changed (vn_account v) = vn_next_interest_loans v")
    case True
    have "v1 = v" unfolding v1_def using at_clock_self [of v] a nc ni True by simp
    then show ?thesis by (simp add: refresh_next_interest_if_loans_changed_def True)
  next
    case False
    then show ?thesis
      using refresh_interest [OF sched az a none] a nc
      by (simp add: refresh_next_interest_if_loans_changed_def v1_def at_clock_def)
  qed
  define v2 where "v2 = v1\<lparr>vn_accrued_through := Some z\<rparr>"
  have v2: "v2 = at_clock (Some z) (next_carry cfg a v) (next_interest cfg a v) (ac_loans_changed (vn_account v)) v"
    by (simp add: v2_def v1_def at_clock_def)
  show ?thesis
  proof (cases "\<not> falls z (next_carry cfg a v) \<and> \<not> falls z (next_interest cfg a v)")
    case True
    note quiet = quiet_step [OF sched az, of v]
    have "accrue cfg z v = Some ([], v2)"
      using a less first True by (simp add: accrue_def v2) (simp add: v1_def at_clock_def)
    moreover have "v2 = refreshed cfg z v" using quiet True by (simp add: v2 refreshed_def)
    ultimately show ?thesis using quiet(1) True by simp
  next
    case False
    have same_due: "due_list cfg a z v2 = due_list cfg a z v" by (simp add: v2 due_list_def cong: option.case_cong)
    obtain carry interest where due: "holding_due cfg a z v2 = Some carry" "interest_due_list cfg a z v2 = Some interest"
      "carry @ interest = due_list cfg a z v"
      using due_found [OF sched az, of v2] same_due by metis
    have end': "venue_scheduled cfg z z" using venue_scheduled_part [OF sched az order.refl] by simp
    have finish: "do { v4 \<leftarrow> refresh_next_charge cfg (at_clock (Some z) nc' ni' nl' w); v5 \<leftarrow> refresh_next_interest cfg v4; Some (es, v5) }
        = Some (es, refreshed cfg z w)" if "vc_margin_interest cfg = None \<Longrightarrow> ni' = None" for nc' ni' nl' w and es :: "'a account_event list"
    proof -
      have "refresh_next_charge cfg (at_clock (Some z) nc' ni' nl' w) = Some (at_clock (Some z) (next_carry cfg z w) ni' nl' w)"
        by (subst refresh_charge [OF end']) (simp_all, simp add: at_clock_def)
      moreover have "refresh_next_interest cfg (at_clock (Some z) (next_carry cfg z w) ni' nl' w) = Some (refreshed cfg z w)"
        by (subst refresh_interest [OF end']) (use that in \<open>simp_all add: refreshed_def\<close>, simp add: at_clock_def)
      ultimately show ?thesis by simp
    qed
    have "accrue cfg z v = do {
        (es, v3) \<leftarrow> charge_due cfg (sort_key due_key (due_list cfg a z v)) v2;
        v4 \<leftarrow> refresh_next_charge cfg v3;
        v5 \<leftarrow> refresh_next_interest cfg v4;
        Some (es, v5)
      }"
    proof -
      have caches: "vn_next_charge v1 = next_carry cfg a v" "vn_next_interest v1 = next_interest cfg a v"
        by (simp_all add: v1_def)
      show ?thesis using a less first False due by (auto simp: accrue_def caches simp flip: v2_def)
    qed
    then show ?thesis
      unfolding v2 charge_due_clock
      by (cases "charge_due cfg (sort_key due_key (due_list cfg a z v)) v")
        (auto simp: finish next_interest_def)
  qed
qed

lemma refreshed_clock: "refreshed cfg t (at_clock a nc ni nl v) = refreshed cfg t v"
  by (simp add: refreshed_def)

lemma refreshed_through [simp]: "vn_accrued_through (refreshed cfg t v) = Some t"
  by (simp add: refreshed_def)

lemma due_refreshed [simp]: "due_list cfg a z (refreshed cfg t v) = due_list cfg a z v"
  by (simp add: due_list_def refreshed_def cong: option.case_cong)

lemma due_same: "same_loans v v' \<Longrightarrow> due_list cfg a z v' = due_list cfg a z v"
  by (simp add: due_list_def same_loans_def cong: option.case_cong)

text \<open>C22: The search of a clock step for the boundaries it crosses ends, whatever the model answers: it is
  a panic, or every boundary found, strictly in time order and within the step. For a model that keeps
  the contract of a schedule it is exactly the boundaries the model names in the step.
\<close>

theorem boundaries_search_ends:
  "\<exists>r. boundaries_through a z next_at = Some r \<and>
     (case r of
        None \<Rightarrow> \<exists>t\<ge>a. checked_boundary next_at t = None
      | Some bs \<Rightarrow> sorted_wrt (<) bs \<and> (\<forall>b \<in> set bs. a < b \<and> b \<le> z)) \<and>
     (scheduled next_at a z \<and> a \<le> z \<longrightarrow> r = Some (sorted_list_of_set (boundaries_in next_at a z)))"
proof -
  have "\<exists>r. boundaries_through a z next_at = Some r \<and>
     (case r of
        None \<Rightarrow> \<exists>t\<ge>a. checked_boundary next_at t = None
      | Some bs \<Rightarrow> sorted_wrt (<) bs \<and> (\<forall>b \<in> set bs. a < b \<and> b \<le> z))"
  proof (induction a rule: boundaries_through_induct [where next_at = next_at and z = z])
    case (step a)
    consider "checked_boundary next_at a = None" | "checked_boundary next_at a = Some None"
      | b where "checked_boundary next_at a = Some (Some b)"
      by (metis option.exhaust)
    then show ?case
    proof cases
      case (3 b)
      then have ab: "next_at a = Some (Some b)" "a < b" by (simp_all add: checked_boundary_Some)
      show ?thesis
      proof (cases "checked_boundary next_at b = None \<or> z < b")
        case True
        then show ?thesis using 3 ab(2)
          by (subst boundaries_through_unfold) (auto split: option.splits intro: exI [of _ b])
      next
        case False
        then have "b \<le> z" by simp
        from step.IH [OF ab this] obtain r where r: "boundaries_through b z next_at = Some r"
          "case r of None \<Rightarrow> \<exists>t\<ge>b. checked_boundary next_at t = None
             | Some bs \<Rightarrow> sorted_wrt (<) bs \<and> (\<forall>x \<in> set bs. b < x \<and> x \<le> z)" by blast
        have "boundaries_through a z next_at = Some (map_option ((#) b) r)"
          using 3 False r(1) by (subst boundaries_through_unfold) auto
        moreover have "case map_option ((#) b) r of None \<Rightarrow> \<exists>t\<ge>a. checked_boundary next_at t = None
             | Some bs \<Rightarrow> sorted_wrt (<) bs \<and> (\<forall>x \<in> set bs. a < x \<and> x \<le> z)"
          using r(2) ab(2) \<open>b \<le> z\<close> by (cases r) (auto intro: order.trans order.strict_implies_order)
        ultimately show ?thesis by blast
      qed
    qed (auto simp: boundaries_through_def)
  qed
  then show ?thesis using scheduled_boundaries by force
qed

text \<open>C23: A clock step of a venue whose caches are up to date and whose models keep to their schedules
  charges exactly what falls due in it: for each position and each model of carry, and for each loan,
  every boundary the model names after the last step and up to this one, once, in time order and carry
  before interest; and the caches it leaves are up to date. That it skips the search when the cached
  deadlines are beyond the step makes no difference.
\<close>

theorem accrue_charges_what_falls_due:
  assumes "synced cfg v" and "vn_accrued_through v = Some a" and "a < z" and "venue_scheduled cfg a z"
  shows "\<exists>ds. sorted (map due_key ds) \<and> distinct ds \<and>
    (\<forall>t i n. (t, DueHolding i n) \<in> set ds \<longleftrightarrow> i \<in> set (names_of (vn_positions v)) \<and>
      n < length (vc_holding_costs cfg) \<and> t \<in> boundaries_in (hm_next_boundary (vc_holding_costs cfg ! n) i) a z) \<and>
    (\<forall>t x p. (t, DueInterest x p) \<in> set ds \<longleftrightarrow> (x, p) \<in> set (loans_of (vn_account v)) \<and>
      (\<exists>m. vc_margin_interest cfg = Some m \<and> t \<in> boundaries_in (im_next_boundary m x) a z)) \<and>
    (case charge_due cfg ds v of
       None \<Rightarrow> accrue cfg z v = None
     | Some (es, v1) \<Rightarrow> \<exists>v'. accrue cfg z v = Some (es, v') \<and> synced cfg v' \<and> vn_accrued_through v' = Some z \<and>
         vn_account v' = vn_account v1 \<and> vn_positions v' = vn_positions v)"
proof (intro exI [of _ "sort_key due_key (due_list cfg a z v)"] conjI)
  show "distinct (sort_key due_key (due_list cfg a z v))" by (simp add: due_distinct)
  show "\<forall>t i n. (t, DueHolding i n) \<in> set (sort_key due_key (due_list cfg a z v)) \<longleftrightarrow> i \<in> set (names_of (vn_positions v)) \<and>
      n < length (vc_holding_costs cfg) \<and> t \<in> boundaries_in (hm_next_boundary (vc_holding_costs cfg ! n) i) a z"
    by (auto simp: due_list_def set_tagged holding_bounds_def split: option.splits)
  show "\<forall>t x p. (t, DueInterest x p) \<in> set (sort_key due_key (due_list cfg a z v)) \<longleftrightarrow> (x, p) \<in> set (loans_of (vn_account v)) \<and>
      (\<exists>m. vc_margin_interest cfg = Some m \<and> t \<in> boundaries_in (im_next_boundary m x) a z)"
    by (cases "vc_margin_interest cfg") (force simp: due_list_def set_tagged interest_bounds_def)+
  show "case charge_due cfg (sort_key due_key (due_list cfg a z v)) v of
       None \<Rightarrow> accrue cfg z v = None
     | Some (es, v1) \<Rightarrow> \<exists>v'. accrue cfg z v = Some (es, v') \<and> synced cfg v' \<and> vn_accrued_through v' = Some z \<and>
         vn_account v' = vn_account v1 \<and> vn_positions v' = vn_positions v"
    using accrue_exact [OF assms] charge_due_same_loans [of cfg "sort_key due_key (due_list cfg a z v)" v]
    by (auto simp: same_loans_def split: option.splits) (simp_all add: refreshed_def)
qed simp

text \<open>C24: Advancing the clock of a venue in two steps charges what one step charges: the same events in the
  same order, the same final state, and the same panics. So how often a driver wakes a venue does not
  change what its positions and loans cost.
\<close>

theorem accrue_in_steps:
  assumes sync: "synced cfg v" and a: "vn_accrued_through v = Some a" and sched: "venue_scheduled cfg a z"
    and yz: "y \<le> z"
  shows "accrue cfg z v = do {
      (es1, v1) \<leftarrow> accrue cfg y v;
      (es2, v2) \<leftarrow> accrue cfg z v1;
      Some (es1 @ es2, v2)
    }"
proof -
  consider "y \<le> a" | "a < y" "y = z" | "a < y" "y < z" using yz by linarith
  then show ?thesis
  proof cases
    case 1
    then have "accrue cfg y v = Some ([], v)" using a by (simp add: accrue_def)
    then show ?thesis by (auto split: Option.bind_splits)
  next
    case 2
    have "accrue cfg z v1 = Some ([], v1)" if "accrue cfg y v = Some (es, v1)" for es v1
    proof -
      have "accrue cfg z v = Some (es, v1)" using that 2(2) by simp
      then have "vn_accrued_through v1 = Some z"
        unfolding accrue_exact [OF sync a 2(1) [unfolded 2(2)] sched] by (auto simp: refreshed_def)
      then show ?thesis by (simp add: accrue_def)
    qed
    then show ?thesis using 2(2) by (auto split: Option.bind_splits)
  next
    case 3
    note parts = venue_scheduled_part [OF sched order.strict_implies_order [OF 3(1)] yz]
    have az: "a < z" using 3 by simp
    have second: "accrue cfg z (refreshed cfg y w) = map_option (\<lambda>(es, v'). (es, refreshed cfg z v'))
        (charge_due cfg (sort_key due_key (due_list cfg y z w)) w)" for w
    proof -
      have "accrue cfg z (refreshed cfg y w) = map_option (\<lambda>(es, v'). (es, refreshed cfg z v'))
          (charge_due cfg (sort_key due_key (due_list cfg y z (refreshed cfg y w))) (refreshed cfg y w))"
        by (rule accrue_exact) (use 3 parts in simp_all)
      also have "charge_due cfg (sort_key due_key (due_list cfg y z (refreshed cfg y w))) (refreshed cfg y w) =
          map_option (map_prod id (at_clock (Some y) (next_carry cfg y w) (next_interest cfg y w) (ac_loans_changed (vn_account w))))
            (charge_due cfg (sort_key due_key (due_list cfg y z w)) w)"
        unfolding due_refreshed by (simp add: refreshed_def charge_due_clock)
      finally show ?thesis
        by (cases "charge_due cfg (sort_key due_key (due_list cfg y z w)) w") (auto simp: refreshed_clock)
    qed
    note both = accrue_exact [OF sync a az sched] accrue_exact [OF sync a 3(1) conjunct1 [OF parts]]
      due_order_split [OF sched order.strict_implies_order [OF 3(1)] yz] charge_due_append
    show ?thesis
    proof (cases "charge_due cfg (sort_key due_key (due_list cfg a y v)) v")
      case None
      then show ?thesis unfolding both by simp
    next
      case (Some r)
      obtain es w where r: "r = (es, w)" by (cases r)
      have same: "due_list cfg y z w = due_list cfg y z v"
        using charge_due_same_loans due_same Some unfolding r by blast
      show ?thesis
        unfolding both Some r
        by (cases "charge_due cfg (sort_key due_key (due_list cfg y z v)) w") (auto simp: second same)
    qed
  qed
qed

section \<open>A venue on a schedule\<close>

text \<open>A perpetual held with funding every four units of time, and no loans.\<close>

definition sample_funding :: funding_model where
  "sample_funding = \<lparr>fm_interval = 4, fm_rates = [''btc_usd'' \<mapsto> \<lparr>rs_points = [(0, 1 / 100)]\<rparr>]\<rparr>"

definition funded_config :: "(nat, nat) venue_config" where
  "funded_config = sample_venue MarketDriven\<lparr>
     vc_instruments := [''btc_usd'' \<mapsto> \<lparr>vi_name = ''btc_usd'', vi_underlying = \<lparr>un_base = ''btc'', un_quote = ''usd''\<rparr>,
       vi_kind = Perpetual \<lparr>ct_contract_size = 1, ct_settlement_asset = ''usd''\<rparr>\<rparr>],
     vc_holding_costs := [funding_model_of Some sample_funding],
     vc_margin_interest := Some (periodic_model_of Some sample_interest)\<rparr>"

definition funded_venue :: "(nat, nat) venue" where
  "funded_venue = refreshed funded_config 0
     (sample_start MarketDriven\<lparr>vn_positions := [''btc_usd'' \<mapsto> \<lparr>np_quantity = 2, np_entry = 100\<rparr>]\<rparr>)"

lemma funded_synced: "synced funded_config funded_venue" "vn_accrued_through funded_venue = Some 0"
  by (simp_all add: funded_venue_def)

lemma funding_scheduled: "scheduled (funding_next_boundary sample_funding i) 0 z"
  unfolding scheduled_def
  by (rule exI, rule exI [of _ "\<lambda>_. True"], intro conjI, rule funding.charging_schedule_axioms)
    (simp_all add: sample_funding_def)

lemma funded_scheduled: "venue_scheduled funded_config 0 z"
proof -
  have "scheduled (periodic_next_boundary sample_interest x) 0 z" for x
    unfolding scheduled_def
    by (rule exI, rule exI [of _ "\<lambda>_. True"], intro conjI, rule periodic.charging_schedule_axioms)
      (simp_all add: sample_interest_def)
  then show ?thesis
    by (simp add: venue_scheduled_def funded_config_def funding_model_of_def periodic_model_of_def funding_scheduled)
qed

lemma sample_boundary: "4 \<in> boundaries_in (funding_next_boundary sample_funding ''btc_usd'') 0 10"
  by (auto simp: boundaries_in_def funding_next_boundary_def sample_funding_def next_whole_interval_def checked_i64_def
      intro!: exI [of _ 0])

theorem boundaries_search_ends_witness:
  "\<exists>bs. boundaries_through 0 10 (funding_next_boundary sample_funding ''btc_usd'') = Some (Some bs) \<and>
     sorted_wrt (<) bs \<and> set bs = boundaries_in (funding_next_boundary sample_funding ''btc_usd'') 0 10 \<and> 4 \<in> set bs"
  using boundaries_search_ends [of 0 10 "funding_next_boundary sample_funding ''btc_usd''"]
    funding_scheduled [of "''btc_usd''" 10] sample_boundary
  by auto

lemma funded_boundary: "hm_next_boundary (vc_holding_costs funded_config ! 0) ''btc_usd'' = funding_next_boundary sample_funding ''btc_usd''"
  by (simp add: funded_config_def funding_model_of_def)

theorem accrue_charges_what_falls_due_witness:
  "\<exists>ds. (4, DueHolding ''btc_usd'' 0) \<in> set ds \<and> distinct ds \<and> sorted (map due_key ds) \<and>
    (case charge_due funded_config ds funded_venue of
       None \<Rightarrow> accrue funded_config 10 funded_venue = None
     | Some (es, v1) \<Rightarrow> \<exists>v'. accrue funded_config 10 funded_venue = Some (es, v') \<and> synced funded_config v' \<and>
         vn_accrued_through v' = Some 10 \<and> vn_account v' = vn_account v1 \<and> vn_positions v' = vn_positions funded_venue)"
proof -
  have held: "''btc_usd'' \<in> set (names_of (vn_positions funded_venue))" "0 < length (vc_holding_costs funded_config)"
    by (simp_all add: funded_venue_def refreshed_def names_of_def funded_config_def)
  obtain ds where ds: "sorted (map due_key ds)" "distinct ds"
    "\<forall>t i n. (t, DueHolding i n) \<in> set ds \<longleftrightarrow> i \<in> set (names_of (vn_positions funded_venue)) \<and>
      n < length (vc_holding_costs funded_config) \<and> t \<in> boundaries_in (hm_next_boundary (vc_holding_costs funded_config ! n) i) 0 10"
    "case charge_due funded_config ds funded_venue of
       None \<Rightarrow> accrue funded_config 10 funded_venue = None
     | Some (es, v1) \<Rightarrow> \<exists>v'. accrue funded_config 10 funded_venue = Some (es, v') \<and> synced funded_config v' \<and>
         vn_accrued_through v' = Some 10 \<and> vn_account v' = vn_account v1 \<and> vn_positions v' = vn_positions funded_venue"
    using accrue_charges_what_falls_due [OF funded_synced, of 10] funded_scheduled by auto
  have "(4, DueHolding ''btc_usd'' 0) \<in> set ds" using ds(3) held sample_boundary by (simp add: funded_boundary)
  with ds show ?thesis by blast
qed

theorem accrue_in_steps_witness:
  "accrue funded_config 10 funded_venue = do {
     (es1, v1) \<leftarrow> accrue funded_config 5 funded_venue;
     (es2, v2) \<leftarrow> accrue funded_config 10 v1;
     Some (es1 @ es2, v2)
   }"
  by (rule accrue_in_steps [OF funded_synced funded_scheduled]) simp

end
