(* ===== verification/Statistics.thy ===== *)
theory Statistics
  imports Position Balance
begin

text \<open>
  The statistics of a trading run (\<open>rustrade/src/statistic\<close>): Welford's running mean and variance,
  the drawdowns of a series, the ratios, the profit and loss of closed positions, and the tear sheets
  of instruments and assets with the summary that collects them. The square root of a decimal
  (\<open>MathematicalOps::sqrt\<close>, third party) is the parameter \<open>sqrt_dec\<close>, \<open>None\<close> where it has no answer.
  A zero decimal has no sign here, so \<open>is_sign_negative\<close> is being below zero. Warnings are not modelled.
\<close>

section \<open>Spans of time\<close>

text \<open>A \<open>TimeDelta\<close> is a number of nanoseconds; its readers truncate toward zero.\<close>

definition truncated_to :: "int \<Rightarrow> int \<Rightarrow> int" where
  "truncated_to unit ns = sgn ns * (\<bar>ns\<bar> div unit)"

definition num_seconds :: "int \<Rightarrow> int" where
  "num_seconds = truncated_to 1000000000"

definition num_milliseconds :: "int \<Rightarrow> int" where
  "num_milliseconds = truncated_to 1000000"

definition span_of_days :: "int \<Rightarrow> int" where
  "span_of_days d = d * 86400000000000"

datatype time_interval = Annual365 | Annual252 | Daily | Span int

fun interval_of :: "time_interval \<Rightarrow> int" where
  "interval_of Annual365 = span_of_days 365"
| "interval_of Annual252 = span_of_days 252"
| "interval_of Daily = span_of_days 1"
| "interval_of (Span ns) = ns"

section \<open>Welford's recurrences\<close>

definition calculate_mean :: "rounding \<Rightarrow> decimal \<Rightarrow> decimal \<Rightarrow> decimal \<Rightarrow> decimal option" where
  "calculate_mean R prev x n = do {
     d \<leftarrow> dec_sub R x prev;
     q \<leftarrow> dec_div R d n;
     dec_add R prev q
   }"

text \<open>
  The same at \<open>i64\<close>, whose division truncates. A span between two \<open>DateTime<Utc>\<close> is below \<open>2 ^ 54\<close>
  milliseconds, so nothing overflows; a count of zero panics.
\<close>

definition calculate_mean_i64 :: "int \<Rightarrow> int \<Rightarrow> int \<Rightarrow> int option" where
  "calculate_mean_i64 prev x n =
     (if n = 0 then None else Some (prev + sgn (x - prev) * sgn n * (\<bar>x - prev\<bar> div \<bar>n\<bar>)))"

definition calculate_recurrence_relation_m ::
  "rounding \<Rightarrow> decimal \<Rightarrow> decimal \<Rightarrow> decimal \<Rightarrow> decimal \<Rightarrow> decimal option" where
  "calculate_recurrence_relation_m R m prev_mean x new_mean = do {
     a \<leftarrow> dec_sub R x prev_mean;
     b \<leftarrow> dec_sub R x new_mean;
     c \<leftarrow> dec_mul R a b;
     dec_add R m c
   }"

definition calculate_sample_variance :: "rounding \<Rightarrow> decimal \<Rightarrow> decimal \<Rightarrow> decimal option" where
  "calculate_sample_variance R m n =
     (if n < 2 then Some 0 else do { k \<leftarrow> dec_sub R n 1; dec_div R m k })"

definition calculate_population_variance :: "rounding \<Rightarrow> decimal \<Rightarrow> decimal \<Rightarrow> decimal option" where
  "calculate_population_variance R m n = (if n < 1 then Some 0 else dec_div R m n)"

section \<open>A dataset\<close>

record value_range =
  rg_activated :: bool
  rg_high :: decimal
  rg_low :: decimal

definition range_init :: "decimal \<Rightarrow> value_range" where
  "range_init x = \<lparr>rg_activated = True, rg_high = x, rg_low = x\<rparr>"

definition range_update :: "decimal \<Rightarrow> value_range \<Rightarrow> value_range" where
  "range_update x r =
     (if rg_activated r then
        (let r1 = (if x > rg_high r then r\<lparr>rg_high := x\<rparr> else r)
         in if x < rg_low r1 then r1\<lparr>rg_low := x\<rparr> else r1)
      else r\<lparr>rg_activated := True, rg_high := x, rg_low := x\<rparr>)"

definition range_width :: "rounding \<Rightarrow> value_range \<Rightarrow> decimal option" where
  "range_width R r = dec_sub R (rg_high r) (rg_low r)"

record dispersion =
  dp_range :: value_range
  dp_recurrence_relation_m :: decimal

definition dispersion_update ::
  "rounding \<Rightarrow> decimal \<Rightarrow> decimal \<Rightarrow> decimal \<Rightarrow> dispersion \<Rightarrow> dispersion option" where
  "dispersion_update R prev_mean new_mean x d = do {
     let d1 = d\<lparr>dp_range := range_update x (dp_range d)\<rparr>;
     m \<leftarrow> calculate_recurrence_relation_m R (dp_recurrence_relation_m d1) prev_mean x new_mean;
     Some (d1\<lparr>dp_recurrence_relation_m := m\<rparr>)
   }"

definition dispersion_variance :: "rounding \<Rightarrow> decimal \<Rightarrow> dispersion \<Rightarrow> decimal option" where
  "dispersion_variance R n d = calculate_population_variance R (dp_recurrence_relation_m d) n"

definition dispersion_std_dev ::
  "rounding \<Rightarrow> (decimal \<Rightarrow> decimal option) \<Rightarrow> decimal \<Rightarrow> dispersion \<Rightarrow> decimal option" where
  "dispersion_std_dev R sqrt_dec n d = do { v \<leftarrow> dispersion_variance R n d; sqrt_dec \<bar>v\<bar> }"

record data_set_summary =
  ds_count :: decimal
  ds_sum :: decimal
  ds_mean :: decimal
  ds_dispersion :: dispersion

definition data_set_default :: data_set_summary where
  "data_set_default = \<lparr>ds_count = 0, ds_sum = 0, ds_mean = 0,
     ds_dispersion = \<lparr>dp_range = \<lparr>rg_activated = False, rg_high = 0, rg_low = 0\<rparr>, dp_recurrence_relation_m = 0\<rparr>\<rparr>"

definition data_set_update :: "rounding \<Rightarrow> decimal \<Rightarrow> data_set_summary \<Rightarrow> data_set_summary option" where
  "data_set_update R x s = do {
     n \<leftarrow> dec_add R (ds_count s) 1;
     total \<leftarrow> dec_add R (ds_sum s) x;
     m \<leftarrow> calculate_mean R (ds_mean s) x n;
     d \<leftarrow> dispersion_update R (ds_mean s) m x (ds_dispersion s);
     Some \<lparr>ds_count = n, ds_sum = total, ds_mean = m, ds_dispersion = d\<rparr>
   }"

definition data_set_variance :: "rounding \<Rightarrow> data_set_summary \<Rightarrow> decimal option" where
  "data_set_variance R s = dispersion_variance R (ds_count s) (ds_dispersion s)"

definition data_set_std_dev ::
  "rounding \<Rightarrow> (decimal \<Rightarrow> decimal option) \<Rightarrow> data_set_summary \<Rightarrow> decimal option" where
  "data_set_std_dev R sqrt_dec s = dispersion_std_dev R sqrt_dec (ds_count s) (ds_dispersion s)"

section \<open>Drawdowns\<close>

record timed_value =
  tv_value :: decimal
  tv_time :: time

record drawdown =
  dd_value :: decimal
  dd_time_start :: time
  dd_time_end :: time

definition drawdown_default :: drawdown where
  "drawdown_default = \<lparr>dd_value = 0, dd_time_start = 0, dd_time_end = 0\<rparr>"

definition drawdown_duration :: "drawdown \<Rightarrow> int" where
  "drawdown_duration d = dd_time_end d - dd_time_start d"

record drawdown_generator =
  dg_peak :: "decimal option"
  dg_drawdown_max :: decimal
  dg_time_peak :: "time option"
  dg_time_now :: time

definition drawdown_generator_default :: drawdown_generator where
  "drawdown_generator_default = \<lparr>dg_peak = None, dg_drawdown_max = 0, dg_time_peak = None, dg_time_now = 0\<rparr>"

definition drawdown_init :: "timed_value \<Rightarrow> drawdown_generator" where
  "drawdown_init p = \<lparr>dg_peak = Some (tv_value p), dg_drawdown_max = 0, dg_time_peak = Some (tv_time p),
     dg_time_now = tv_time p\<rparr>"

definition drawdown_generate :: "drawdown_generator \<Rightarrow> drawdown option" where
  "drawdown_generate g =
     (case dg_time_peak g of
        None \<Rightarrow> None
      | Some t \<Rightarrow> if dg_drawdown_max g \<noteq> 0 then
          Some \<lparr>dd_value = dg_drawdown_max g, dd_time_start = t, dd_time_end = dg_time_now g\<rparr>
        else None)"

text \<open>A difference of two decimals beyond the range panics; a peak of zero is skipped by \<open>checked_div\<close>.\<close>

definition drawdown_update ::
  "rounding \<Rightarrow> timed_value \<Rightarrow> drawdown_generator \<Rightarrow> (drawdown option \<times> drawdown_generator) option" where
  "drawdown_update R p g0 =
     (let g = g0\<lparr>dg_time_now := tv_time p\<rparr> in
      case dg_peak g of
        None \<Rightarrow> Some (None, g\<lparr>dg_peak := Some (tv_value p), dg_time_peak := Some (tv_time p)\<rparr>)
      | Some peak \<Rightarrow>
          if tv_value p > peak then
            Some (drawdown_generate g, g\<lparr>dg_peak := Some (tv_value p), dg_time_peak := Some (tv_time p),
              dg_drawdown_max := 0\<rparr>)
          else do {
            fall \<leftarrow> dec_sub R peak (tv_value p);
            Some (None, case dec_div R fall peak of
                None \<Rightarrow> g
              | Some now \<Rightarrow> if now > dg_drawdown_max g then g\<lparr>dg_drawdown_max := now\<rparr> else g)
          })"

text \<open>\<open>MaxDrawdown\<close> wraps the drawdown, and its generator the optional largest one.\<close>

type_synonym max_drawdown_generator = "drawdown option"

definition max_drawdown_update :: "drawdown \<Rightarrow> max_drawdown_generator \<Rightarrow> max_drawdown_generator" where
  "max_drawdown_update d m =
     Some (case m of
         Some current \<Rightarrow> if \<bar>dd_value d\<bar> > \<bar>dd_value current\<bar> then d else current
       | None \<Rightarrow> d)"

record mean_drawdown =
  mn_drawdown :: decimal
  mn_ms :: int

record mean_drawdown_generator =
  mg_count :: u64
  mg_mean_drawdown :: "mean_drawdown option"

definition mean_drawdown_default :: mean_drawdown_generator where
  "mean_drawdown_default = \<lparr>mg_count = 0, mg_mean_drawdown = None\<rparr>"

definition mean_drawdown_init :: "drawdown \<Rightarrow> mean_drawdown_generator" where
  "mean_drawdown_init d = \<lparr>mg_count = 1,
     mg_mean_drawdown = Some \<lparr>mn_drawdown = dd_value d, mn_ms = num_milliseconds (drawdown_duration d)\<rparr>\<rparr>"

definition mean_drawdown_update ::
  "rounding \<Rightarrow> drawdown \<Rightarrow> mean_drawdown_generator \<Rightarrow> mean_drawdown_generator option" where
  "mean_drawdown_update R d g = do {
     let n = mg_count g + 1;
     let ms = num_milliseconds (drawdown_duration d);
     m \<leftarrow> (case mg_mean_drawdown g of
         Some m \<Rightarrow> do {
           x \<leftarrow> calculate_mean R (mn_drawdown m) (dd_value d) (of_nat (unat n));
           t \<leftarrow> calculate_mean_i64 (mn_ms m) ms (sint n);
           Some \<lparr>mn_drawdown = x, mn_ms = t\<rparr>
         }
       | None \<Rightarrow> Some \<lparr>mn_drawdown = dd_value d, mn_ms = ms\<rparr>);
     Some \<lparr>mg_count = n, mg_mean_drawdown = Some m\<rparr>
   }"

text \<open>How every tear sheet feeds the mean and the maximum from a drawdown, when there is one.\<close>

definition record_drawdown ::
  "rounding \<Rightarrow> drawdown option \<Rightarrow> mean_drawdown_generator \<times> max_drawdown_generator
     \<Rightarrow> (mean_drawdown_generator \<times> max_drawdown_generator) option" where
  "record_drawdown R d mm =
     (case d of
        None \<Rightarrow> Some mm
      | Some x \<Rightarrow> do { m \<leftarrow> mean_drawdown_update R x (fst mm); Some (m, max_drawdown_update x (snd mm)) })"

section \<open>Ratios\<close>

definition dec_max :: decimal where
  "dec_max = 2 ^ 96 - 1"

text \<open>The four ratio types of the code have the same two fields.\<close>

record ratio =
  ra_value :: decimal
  ra_interval :: time_interval

definition excess_over :: "rounding \<Rightarrow> decimal \<Rightarrow> decimal \<Rightarrow> decimal \<Rightarrow> decimal option" where
  "excess_over R risk_free mean risk = do { x \<leftarrow> dec_sub R mean risk_free; dec_div R x risk }"

definition sharpe_calculate :: "rounding \<Rightarrow> decimal \<Rightarrow> decimal \<Rightarrow> decimal \<Rightarrow> time_interval \<Rightarrow> ratio option" where
  "sharpe_calculate R risk_free mean sd i =
     (if sd = 0 then Some \<lparr>ra_value = dec_max, ra_interval = i\<rparr>
      else do { x \<leftarrow> excess_over R risk_free mean sd; Some \<lparr>ra_value = x, ra_interval = i\<rparr> })"

definition riskless_ratio :: "decimal \<Rightarrow> decimal \<Rightarrow> decimal" where
  "riskless_ratio risk_free mean = (if mean > risk_free then dec_max else if mean < risk_free then - dec_max else 0)"

definition sortino_calculate :: "rounding \<Rightarrow> decimal \<Rightarrow> decimal \<Rightarrow> decimal \<Rightarrow> time_interval \<Rightarrow> ratio option" where
  "sortino_calculate R risk_free mean sd i =
     (if sd = 0 then Some \<lparr>ra_value = riskless_ratio risk_free mean, ra_interval = i\<rparr>
      else do { x \<leftarrow> excess_over R risk_free mean sd; Some \<lparr>ra_value = x, ra_interval = i\<rparr> })"

definition calmar_calculate :: "rounding \<Rightarrow> decimal \<Rightarrow> decimal \<Rightarrow> decimal \<Rightarrow> time_interval \<Rightarrow> ratio option" where
  "calmar_calculate R risk_free mean max_dd i =
     (if max_dd = 0 then Some \<lparr>ra_value = riskless_ratio risk_free mean, ra_interval = i\<rparr>
      else do { x \<leftarrow> excess_over R risk_free mean \<bar>max_dd\<bar>; Some \<lparr>ra_value = x, ra_interval = i\<rparr> })"

definition return_calculate :: "decimal \<Rightarrow> time_interval \<Rightarrow> ratio" where
  "return_calculate mean i = \<lparr>ra_value = mean, ra_interval = i\<rparr>"

text \<open>How many of the current interval the target holds, the largest decimal when there is no answer.\<close>

definition interval_scale :: "rounding \<Rightarrow> time_interval \<Rightarrow> time_interval \<Rightarrow> decimal" where
  "interval_scale R current target =
     (case dec_div R \<bar>of_int (num_seconds (interval_of target))\<bar> \<bar>of_int (num_seconds (interval_of current))\<bar> of
        None \<Rightarrow> dec_max | Some x \<Rightarrow> x)"

definition scaled_ratio :: "rounding \<Rightarrow> decimal \<Rightarrow> time_interval \<Rightarrow> ratio \<Rightarrow> ratio" where
  "scaled_ratio R scale target r =
     \<lparr>ra_value = (case dec_mul R (ra_value r) scale of None \<Rightarrow> dec_max | Some x \<Rightarrow> x), ra_interval = target\<rparr>"

text \<open>\<open>scale\<close> of the Sharpe, Sortino and Calmar ratios, and of the rate of return.\<close>

definition risk_scale ::
  "rounding \<Rightarrow> (decimal \<Rightarrow> decimal option) \<Rightarrow> time_interval \<Rightarrow> ratio \<Rightarrow> ratio option" where
  "risk_scale R sqrt_dec target r = do {
     scale \<leftarrow> sqrt_dec (interval_scale R (ra_interval r) target);
     Some (scaled_ratio R scale target r)
   }"

definition return_scale :: "rounding \<Rightarrow> time_interval \<Rightarrow> ratio \<Rightarrow> ratio" where
  "return_scale R target r = scaled_ratio R (interval_scale R (ra_interval r) target) target r"

definition win_rate_calculate :: "rounding \<Rightarrow> decimal \<Rightarrow> decimal \<Rightarrow> decimal option" where
  "win_rate_calculate R wins n = (if n = 0 then None else dec_div R \<bar>wins\<bar> \<bar>n\<bar>)"

definition profit_factor_calculate :: "rounding \<Rightarrow> decimal \<Rightarrow> decimal \<Rightarrow> decimal option" where
  "profit_factor_calculate R profits losses =
     (if profits = 0 \<and> losses = 0 then None
      else if losses = 0 then Some dec_max
      else if profits = 0 then Some (- dec_max)
      else dec_div R \<bar>profits\<bar> \<bar>losses\<bar>)"

end
