(* ===== verification/Tear_Sheets.thy ===== *)
theory Tear_Sheets
  imports Statistics
begin

text \<open>
  The tear sheets of a run (\<open>statistic/summary\<close>): the profit and loss of an instrument's closed
  positions, the generator of its tear sheet with the counters the engine bumps, the tear sheet of an
  asset's balance, and the summary that collects them. A \<open>None\<close> is a panic.
\<close>

section \<open>Counters and totals\<close>

definition sat_add :: "u64 \<Rightarrow> u64 \<Rightarrow> u64" where
  "sat_add x y = (if unat x + unat y < 2 ^ 64 then x + y else - 1)"

definition sat_succ :: "u64 \<Rightarrow> u64" where
  "sat_succ x = sat_add x 1"

text \<open>A total that holds its last good value when the next one is beyond the range.\<close>

definition held_add :: "rounding \<Rightarrow> decimal \<Rightarrow> decimal \<Rightarrow> decimal" where
  "held_add R x y = (case dec_add R x y of None \<Rightarrow> x | Some z \<Rightarrow> z)"

definition held_sub :: "rounding \<Rightarrow> decimal \<Rightarrow> decimal \<Rightarrow> decimal" where
  "held_sub R x y = (case dec_sub R x y of None \<Rightarrow> x | Some z \<Rightarrow> z)"

section \<open>Profit and loss\<close>

record pnl_returns =
  pr_pnl_raw :: decimal
  pr_carry :: decimal
  pr_positions_carry_unpriced :: u64
  pr_fees_unattributed :: decimal
  pr_total :: data_set_summary
  pr_losses :: data_set_summary

definition pnl_returns_default :: pnl_returns where
  "pnl_returns_default = \<lparr>pr_pnl_raw = 0, pr_carry = 0, pr_positions_carry_unpriced = 0, pr_fees_unattributed = 0,
     pr_total = data_set_default, pr_losses = data_set_default\<rparr>"

text \<open>The update of a position whose carry is settled on.\<close>

definition pnl_returns_count ::
  "rounding \<Rightarrow> decimal \<Rightarrow> ('a, 'i) position_exited \<Rightarrow> pnl_returns \<Rightarrow> pnl_returns option" where
  "pnl_returns_count R carry px p =
     (case dec_add R (px_pnl_realised px) carry of
        None \<Rightarrow> Some p
      | Some net \<Rightarrow>
          let p1 = p\<lparr>pr_pnl_raw := held_add R (pr_pnl_raw p) net\<rparr>;
              p2 = p1\<lparr>pr_carry := held_add R (pr_carry p1) carry\<rparr>
          in (case calculate_pnl_return R net (px_price_entry_average px) (px_quantity_abs_max px) of
                None \<Rightarrow> Some p2
              | Some ret \<Rightarrow> do {
                  total \<leftarrow> data_set_update R ret (pr_total p2);
                  let p3 = p2\<lparr>pr_total := total\<rparr>;
                  if ret < 0 then do {
                    losses \<leftarrow> data_set_update R ret (pr_losses p3);
                    Some (p3\<lparr>pr_losses := losses\<rparr>)
                  }
                  else Some p3
                }))"

definition pnl_returns_update ::
  "rounding \<Rightarrow> ('a, 'i) position_exited \<Rightarrow> pnl_returns \<Rightarrow> pnl_returns option" where
  "pnl_returns_update R px p =
     (case carry_valued R px of
        Inr carry \<Rightarrow> pnl_returns_count R carry px p
      | Inl BaseCarryUnpriced \<Rightarrow> pnl_returns_count R (px_carry px) px
          (p\<lparr>pr_positions_carry_unpriced := sat_succ (pr_positions_carry_unpriced p)\<rparr>)
      | Inl NetPnlOverflow \<Rightarrow> Some p)"

definition pnl_returns_fee_unattributed :: "rounding \<Rightarrow> decimal \<Rightarrow> pnl_returns \<Rightarrow> pnl_returns" where
  "pnl_returns_fee_unattributed R fee p =
     p\<lparr>pr_pnl_raw := held_sub R (pr_pnl_raw p) fee, pr_fees_unattributed := held_add R (pr_fees_unattributed p) fee\<rparr>"

section \<open>The tear sheet of an instrument\<close>

record tear_sheet =
  ts_pnl :: decimal
  ts_carry :: decimal
  ts_positions_carry_unpriced :: u64
  ts_fees_unattributed :: decimal
  ts_dust_quantity :: decimal
  ts_dust_value :: decimal
  ts_reduce_only_excess :: decimal
  ts_free_base_traded :: decimal
  ts_pnl_return :: ratio
  ts_sharpe_ratio :: ratio
  ts_sortino_ratio :: ratio
  ts_calmar_ratio :: ratio
  ts_pnl_drawdown :: "drawdown option"
  ts_pnl_drawdown_mean :: "mean_drawdown option"
  ts_pnl_drawdown_max :: "drawdown option"
  ts_win_rate :: "decimal option"
  ts_profit_factor :: "decimal option"
  ts_orders_opened :: u64
  ts_orders_rejected :: u64
  ts_first_rejection_reason :: "string option"
  ts_fills_routed_by_fallback :: u64
  ts_fills_unmatched :: u64
  ts_fills_forced :: u64
  ts_fills_unallocated :: u64
  ts_fills_dust :: u64
  ts_fills_reduce_only_capped :: u64
  ts_fills_free_base_traded :: u64
  ts_fills_fee_unconverted :: u64
  ts_first_fallback_detail :: "string option"
  ts_fallback_positions :: "position_id list"

record tear_sheet_generator =
  tg_time_engine_start :: time
  tg_time_engine_now :: time
  tg_pnl_returns :: pnl_returns
  tg_pnl_drawdown :: drawdown_generator
  tg_pnl_drawdown_mean :: mean_drawdown_generator
  tg_pnl_drawdown_max :: max_drawdown_generator
  tg_orders_opened :: u64
  tg_orders_rejected :: u64
  tg_first_rejection_reason :: "string option"
  tg_fills_routed_by_fallback :: u64
  tg_fills_unmatched :: u64
  tg_fills_forced :: u64
  tg_fills_unallocated :: u64
  tg_fills_dust :: u64
  tg_dust_quantity :: decimal
  tg_dust_value :: decimal
  tg_fills_reduce_only_capped :: u64
  tg_reduce_only_excess :: decimal
  tg_fills_free_base_traded :: u64
  tg_free_base_traded :: decimal
  tg_fills_fee_unconverted :: u64
  tg_first_fallback_detail :: "string option"
  tg_fallback_positions :: "position_id list"

definition max_fallback_positions :: nat where
  "max_fallback_positions = 16"

definition tear_sheet_init :: "time \<Rightarrow> tear_sheet_generator" where
  "tear_sheet_init start = \<lparr>tg_time_engine_start = start, tg_time_engine_now = start,
     tg_pnl_returns = pnl_returns_default, tg_pnl_drawdown = drawdown_generator_default,
     tg_pnl_drawdown_mean = mean_drawdown_default, tg_pnl_drawdown_max = None,
     tg_orders_opened = 0, tg_orders_rejected = 0, tg_first_rejection_reason = None,
     tg_fills_routed_by_fallback = 0, tg_fills_unmatched = 0, tg_fills_forced = 0, tg_fills_unallocated = 0,
     tg_fills_dust = 0, tg_dust_quantity = 0, tg_dust_value = 0, tg_fills_reduce_only_capped = 0,
     tg_reduce_only_excess = 0, tg_fills_free_base_traded = 0, tg_free_base_traded = 0,
     tg_fills_fee_unconverted = 0, tg_first_fallback_detail = None, tg_fallback_positions = []\<rparr>"

definition record_open_requested :: "tear_sheet_generator \<Rightarrow> tear_sheet_generator" where
  "record_open_requested g = g\<lparr>tg_orders_opened := sat_succ (tg_orders_opened g)\<rparr>"

definition record_open_rejected :: "string \<Rightarrow> tear_sheet_generator \<Rightarrow> tear_sheet_generator" where
  "record_open_rejected reason g =
     (let g1 = g\<lparr>tg_orders_rejected := sat_succ (tg_orders_rejected g)\<rparr>
      in if tg_first_rejection_reason g1 = None then g1\<lparr>tg_first_rejection_reason := Some reason\<rparr> else g1)"

definition record_fallback_position :: "position_id \<Rightarrow> string \<Rightarrow> tear_sheet_generator \<Rightarrow> tear_sheet_generator" where
  "record_fallback_position i detail g =
     (let g1 = (if tg_first_fallback_detail g = None then g\<lparr>tg_first_fallback_detail := Some detail\<rparr> else g)
      in if length (tg_fallback_positions g1) < max_fallback_positions \<and> i \<notin> set (tg_fallback_positions g1) then
           g1\<lparr>tg_fallback_positions := tg_fallback_positions g1 @ [i]\<rparr>
         else g1)"

definition record_fill_routed_by_fallback ::
  "position_id \<Rightarrow> string \<Rightarrow> tear_sheet_generator \<Rightarrow> tear_sheet_generator" where
  "record_fill_routed_by_fallback i detail g =
     record_fallback_position i detail (g\<lparr>tg_fills_routed_by_fallback := sat_succ (tg_fills_routed_by_fallback g)\<rparr>)"

definition record_fill_unmatched :: "position_id \<Rightarrow> string \<Rightarrow> tear_sheet_generator \<Rightarrow> tear_sheet_generator" where
  "record_fill_unmatched i detail g =
     record_fallback_position i detail (g\<lparr>tg_fills_unmatched := sat_succ (tg_fills_unmatched g)\<rparr>)"

definition record_fill_forced :: "tear_sheet_generator \<Rightarrow> tear_sheet_generator" where
  "record_fill_forced g = g\<lparr>tg_fills_forced := sat_succ (tg_fills_forced g)\<rparr>"

definition record_fill_unallocated :: "tear_sheet_generator \<Rightarrow> tear_sheet_generator" where
  "record_fill_unallocated g = g\<lparr>tg_fills_unallocated := sat_succ (tg_fills_unallocated g)\<rparr>"

definition record_fill_dust :: "rounding \<Rightarrow> decimal \<Rightarrow> decimal \<Rightarrow> tear_sheet_generator \<Rightarrow> tear_sheet_generator" where
  "record_fill_dust R quantity val g =
     (let g1 = g\<lparr>tg_fills_dust := sat_succ (tg_fills_dust g)\<rparr> in
      case (dec_add R (tg_dust_quantity g1) quantity, dec_add R (tg_dust_value g1) val) of
        (Some q, Some x) \<Rightarrow> g1\<lparr>tg_dust_quantity := q, tg_dust_value := x\<rparr>
      | _ \<Rightarrow> g1)"

definition record_fill_fee_unconverted :: "tear_sheet_generator \<Rightarrow> tear_sheet_generator" where
  "record_fill_fee_unconverted g = g\<lparr>tg_fills_fee_unconverted := sat_succ (tg_fills_fee_unconverted g)\<rparr>"

definition record_fill_free_base_traded :: "rounding \<Rightarrow> decimal \<Rightarrow> tear_sheet_generator \<Rightarrow> tear_sheet_generator" where
  "record_fill_free_base_traded R excess g = g\<lparr>tg_fills_free_base_traded := sat_succ (tg_fills_free_base_traded g),
     tg_free_base_traded := held_add R (tg_free_base_traded g) excess\<rparr>"

definition record_fill_reduce_only_capped :: "rounding \<Rightarrow> decimal \<Rightarrow> tear_sheet_generator \<Rightarrow> tear_sheet_generator" where
  "record_fill_reduce_only_capped R excess g = g\<lparr>tg_fills_reduce_only_capped := sat_succ (tg_fills_reduce_only_capped g),
     tg_reduce_only_excess := held_add R (tg_reduce_only_excess g) excess\<rparr>"

definition record_pnl_at :: "rounding \<Rightarrow> time \<Rightarrow> tear_sheet_generator \<Rightarrow> tear_sheet_generator option" where
  "record_pnl_at R t g = do {
     (ended, dg) \<leftarrow> drawdown_update R \<lparr>tv_value = pr_pnl_raw (tg_pnl_returns g), tv_time = t\<rparr> (tg_pnl_drawdown g);
     (mean, most) \<leftarrow> record_drawdown R ended (tg_pnl_drawdown_mean g, tg_pnl_drawdown_max g);
     Some (g\<lparr>tg_time_engine_now := t, tg_pnl_drawdown := dg, tg_pnl_drawdown_mean := mean, tg_pnl_drawdown_max := most\<rparr>)
   }"

definition tear_sheet_update_from_position ::
  "rounding \<Rightarrow> ('a, 'i) position_exited \<Rightarrow> tear_sheet_generator \<Rightarrow> tear_sheet_generator option" where
  "tear_sheet_update_from_position R px g = do {
     p \<leftarrow> pnl_returns_update R px (tg_pnl_returns g);
     record_pnl_at R (px_time_exit px) (g\<lparr>tg_pnl_returns := p\<rparr>)
   }"

definition record_fee_unattributed ::
  "rounding \<Rightarrow> decimal \<Rightarrow> time \<Rightarrow> tear_sheet_generator \<Rightarrow> tear_sheet_generator option" where
  "record_fee_unattributed R fee t g =
     record_pnl_at R t (g\<lparr>tg_pnl_returns := pnl_returns_fee_unattributed R fee (tg_pnl_returns g)\<rparr>)"

definition tear_sheet_generate ::
  "rounding \<Rightarrow> (decimal \<Rightarrow> decimal option) \<Rightarrow> decimal \<Rightarrow> time_interval \<Rightarrow> tear_sheet_generator
     \<Rightarrow> (tear_sheet \<times> tear_sheet_generator) option" where
  "tear_sheet_generate R sqrt_dec risk_free i g = do {
     let period = Span (max (tg_time_engine_now g - tg_time_engine_start g) 1000000000);
     let p = tg_pnl_returns g;
     let mean = ds_mean (pr_total p);
     sd \<leftarrow> data_set_std_dev R sqrt_dec (pr_total p);
     sharpe0 \<leftarrow> sharpe_calculate R risk_free mean sd period;
     sharpe \<leftarrow> risk_scale R sqrt_dec i sharpe0;
     sd_losses \<leftarrow> data_set_std_dev R sqrt_dec (pr_losses p);
     sortino0 \<leftarrow> sortino_calculate R risk_free mean sd_losses period;
     sortino \<leftarrow> risk_scale R sqrt_dec i sortino0;
     let current = drawdown_generate (tg_pnl_drawdown g);
     (mg, most) \<leftarrow> record_drawdown R current (tg_pnl_drawdown_mean g, tg_pnl_drawdown_max g);
     calmar0 \<leftarrow> calmar_calculate R risk_free mean
       (dd_value (case most of None \<Rightarrow> drawdown_default | Some d \<Rightarrow> d)) period;
     calmar \<leftarrow> risk_scale R sqrt_dec i calmar0;
     Some (\<lparr>ts_pnl = pr_pnl_raw p, ts_carry = pr_carry p,
         ts_positions_carry_unpriced = pr_positions_carry_unpriced p,
         ts_fees_unattributed = pr_fees_unattributed p, ts_dust_quantity = tg_dust_quantity g,
         ts_dust_value = tg_dust_value g, ts_reduce_only_excess = tg_reduce_only_excess g,
         ts_free_base_traded = tg_free_base_traded g,
         ts_pnl_return = return_scale R i (return_calculate mean period),
         ts_sharpe_ratio = sharpe, ts_sortino_ratio = sortino, ts_calmar_ratio = calmar,
         ts_pnl_drawdown = current, ts_pnl_drawdown_mean = mg_mean_drawdown mg, ts_pnl_drawdown_max = most,
         ts_win_rate = win_rate_calculate R (ds_count (pr_losses p)) (ds_count (pr_total p)),
         ts_profit_factor = profit_factor_calculate R (ds_sum (pr_total p)) (ds_sum (pr_losses p)),
         ts_orders_opened = tg_orders_opened g, ts_orders_rejected = tg_orders_rejected g,
         ts_first_rejection_reason = tg_first_rejection_reason g,
         ts_fills_routed_by_fallback = tg_fills_routed_by_fallback g, ts_fills_unmatched = tg_fills_unmatched g,
         ts_fills_forced = tg_fills_forced g, ts_fills_unallocated = tg_fills_unallocated g,
         ts_fills_dust = tg_fills_dust g, ts_fills_reduce_only_capped = tg_fills_reduce_only_capped g,
         ts_fills_free_base_traded = tg_fills_free_base_traded g,
         ts_fills_fee_unconverted = tg_fills_fee_unconverted g,
         ts_first_fallback_detail = tg_first_fallback_detail g,
         ts_fallback_positions = tg_fallback_positions g\<rparr>,
       g\<lparr>tg_pnl_drawdown_mean := mg, tg_pnl_drawdown_max := most\<rparr>)
   }"

definition tear_sheet_reset :: "time \<Rightarrow> tear_sheet_generator \<Rightarrow> tear_sheet_generator" where
  "tear_sheet_reset start g = tear_sheet_init start"

section \<open>The tear sheet of an asset\<close>

datatype balance_basis = Gross | NetAsset

definition basis_value :: "rounding \<Rightarrow> balance_basis \<Rightarrow> balance \<Rightarrow> decimal option" where
  "basis_value R basis b = (case basis of Gross \<Rightarrow> Some (bl_total b) | NetAsset \<Rightarrow> net_asset R b)"

record tear_sheet_asset =
  ta_balance_end :: "balance option"
  ta_drawdown :: "drawdown option"
  ta_drawdown_mean :: "mean_drawdown option"
  ta_drawdown_max :: "drawdown option"

record tear_sheet_asset_generator =
  ag_basis :: balance_basis
  ag_balance_now :: "balance option"
  ag_drawdown :: drawdown_generator
  ag_drawdown_mean :: mean_drawdown_generator
  ag_drawdown_max :: max_drawdown_generator

definition asset_sheet_init_with_basis ::
  "rounding \<Rightarrow> balance \<Rightarrow> time \<Rightarrow> balance_basis \<Rightarrow> tear_sheet_asset_generator option" where
  "asset_sheet_init_with_basis R b t basis = do {
     x \<leftarrow> basis_value R basis b;
     Some \<lparr>ag_basis = basis, ag_balance_now = Some b, ag_drawdown = drawdown_init \<lparr>tv_value = x, tv_time = t\<rparr>,
       ag_drawdown_mean = mean_drawdown_default, ag_drawdown_max = None\<rparr>
   }"

definition asset_sheet_init :: "rounding \<Rightarrow> balance \<Rightarrow> time \<Rightarrow> tear_sheet_asset_generator option" where
  "asset_sheet_init R b t = asset_sheet_init_with_basis R b t Gross"

definition asset_sheet_update_parts ::
  "rounding \<Rightarrow> balance \<Rightarrow> time \<Rightarrow> tear_sheet_asset_generator \<Rightarrow> tear_sheet_asset_generator option" where
  "asset_sheet_update_parts R b t g = do {
     x \<leftarrow> basis_value R (ag_basis g) b;
     (ended, dg) \<leftarrow> drawdown_update R \<lparr>tv_value = x, tv_time = t\<rparr> (ag_drawdown g);
     (mean, most) \<leftarrow> record_drawdown R ended (ag_drawdown_mean g, ag_drawdown_max g);
     Some (g\<lparr>ag_balance_now := Some b, ag_drawdown := dg, ag_drawdown_mean := mean, ag_drawdown_max := most\<rparr>)
   }"

definition asset_sheet_update_from_balance ::
  "rounding \<Rightarrow> 'a asset_balance \<Rightarrow> tear_sheet_asset_generator \<Rightarrow> tear_sheet_asset_generator option" where
  "asset_sheet_update_from_balance R ab g = asset_sheet_update_parts R (ab_balance ab) (ab_time_exchange ab) g"

definition asset_sheet_generate ::
  "rounding \<Rightarrow> tear_sheet_asset_generator \<Rightarrow> (tear_sheet_asset \<times> tear_sheet_asset_generator) option" where
  "asset_sheet_generate R g = do {
     let current = drawdown_generate (ag_drawdown g);
     (mean, most) \<leftarrow> record_drawdown R current (ag_drawdown_mean g, ag_drawdown_max g);
     Some (\<lparr>ta_balance_end = ag_balance_now g, ta_drawdown = current, ta_drawdown_mean = mg_mean_drawdown mean,
         ta_drawdown_max = most\<rparr>, g\<lparr>ag_drawdown_mean := mean, ag_drawdown_max := most\<rparr>)
   }"

definition asset_sheet_reset ::
  "rounding \<Rightarrow> balance \<Rightarrow> time \<Rightarrow> tear_sheet_asset_generator \<Rightarrow> tear_sheet_asset_generator option" where
  "asset_sheet_reset R b t g = asset_sheet_init_with_basis R b t (ag_basis g)"

section \<open>The summary of a run\<close>

record ('n, 'x) trading_summary =
  sy_time_engine_start :: time
  sy_time_engine_end :: time
  sy_instruments :: "('n, tear_sheet) index_map"
  sy_assets :: "('x, tear_sheet_asset) index_map"
  sy_basis :: balance_basis
  sy_orders_opened :: u64
  sy_orders_rejected :: u64
  sy_fills_routed_by_fallback :: u64
  sy_fills_unmatched :: u64
  sy_fills_forced :: u64
  sy_fills_unallocated :: u64
  sy_fills_dust :: u64
  sy_fills_reduce_only_capped :: u64
  sy_fills_free_base_traded :: u64
  sy_fills_fee_unconverted :: u64

definition rejected_every_order :: "('n, 'x) trading_summary \<Rightarrow> bool" where
  "rejected_every_order s \<longleftrightarrow> 0 < sy_orders_opened s \<and> sy_orders_rejected s = sy_orders_opened s"

definition has_split_positions :: "('n, 'x) trading_summary \<Rightarrow> bool" where
  "has_split_positions s \<longleftrightarrow> 0 < sy_fills_routed_by_fallback s"

definition trading_duration :: "('n, 'x) trading_summary \<Rightarrow> int" where
  "trading_duration s = sy_time_engine_end s - sy_time_engine_start s"

record ('n, 'x) trading_summary_generator =
  sg_risk_free_return :: decimal
  sg_time_engine_start :: time
  sg_time_engine_now :: time
  sg_instruments :: "('n, tear_sheet_generator) index_map"
  sg_assets :: "('x, tear_sheet_asset_generator) index_map"

definition summary_update_time_now :: "time \<Rightarrow> ('n, 'x) trading_summary_generator \<Rightarrow> ('n, 'x) trading_summary_generator" where
  "summary_update_time_now t g = g\<lparr>sg_time_engine_now := t\<rparr>"

text \<open>
  The two ways a tear sheet is found, by the name of its key and by its index; the code panics where
  there is none.
\<close>

definition slot_of_name :: "'k \<Rightarrow> ('k, 'v) index_map \<Rightarrow> nat option" where
  "slot_of_name k m = (let n = length (takeWhile (\<lambda>e. fst e \<noteq> k) m) in if n < length m then Some n else None)"

definition slot_of_index :: "nat \<Rightarrow> ('k, 'v) index_map \<Rightarrow> nat option" where
  "slot_of_index n m = (if n < length m then Some n else None)"

definition slot_update :: "nat \<Rightarrow> 'v \<Rightarrow> ('k, 'v) index_map \<Rightarrow> ('k, 'v) index_map" where
  "slot_update n x m = m[n := (fst (m ! n), x)]"

definition summary_update_from_position ::
  "rounding \<Rightarrow> ('i \<Rightarrow> ('n, tear_sheet_generator) index_map \<Rightarrow> nat option) \<Rightarrow> ('a, 'i) position_exited
     \<Rightarrow> ('n, 'x) trading_summary_generator \<Rightarrow> ('n, 'x) trading_summary_generator option" where
  "summary_update_from_position R slot px g = do {
     let g1 = (if sg_time_engine_now g < px_time_exit px then g\<lparr>sg_time_engine_now := px_time_exit px\<rparr> else g);
     n \<leftarrow> slot (px_instrument px) (sg_instruments g1);
     t \<leftarrow> tear_sheet_update_from_position R px (snd (sg_instruments g1 ! n));
     Some (g1\<lparr>sg_instruments := slot_update n t (sg_instruments g1)\<rparr>)
   }"

definition summary_update_from_balance ::
  "rounding \<Rightarrow> ('a \<Rightarrow> ('x, tear_sheet_asset_generator) index_map \<Rightarrow> nat option) \<Rightarrow> 'a asset_balance
     \<Rightarrow> ('n, 'x) trading_summary_generator \<Rightarrow> ('n, 'x) trading_summary_generator option" where
  "summary_update_from_balance R slot ab g = do {
     let g1 = (if sg_time_engine_now g < ab_time_exchange ab then g\<lparr>sg_time_engine_now := ab_time_exchange ab\<rparr> else g);
     n \<leftarrow> slot (ab_asset ab) (sg_assets g1);
     t \<leftarrow> asset_sheet_update_from_balance R ab (snd (sg_assets g1 ! n));
     Some (g1\<lparr>sg_assets := slot_update n t (sg_assets g1)\<rparr>)
   }"

definition summary_total :: "(tear_sheet_generator \<Rightarrow> u64) \<Rightarrow> ('n, 'x) trading_summary_generator \<Rightarrow> u64" where
  "summary_total counter g = fold (\<lambda>t n. sat_add n (counter t)) (map snd (sg_instruments g)) 0"

definition summary_generate ::
  "rounding \<Rightarrow> (decimal \<Rightarrow> decimal option) \<Rightarrow> time_interval \<Rightarrow> ('n, 'x) trading_summary_generator
     \<Rightarrow> (('n, 'x) trading_summary \<times> ('n, 'x) trading_summary_generator) option" where
  "summary_generate R sqrt_dec i g0 = do {
     ts \<leftarrow> those (map (\<lambda>(k, t). map_option (\<lambda>(s, t'). (k, s, t')) (tear_sheet_generate R sqrt_dec (sg_risk_free_return g0) i t))
       (sg_instruments g0));
     as \<leftarrow> those (map (\<lambda>(k, t). map_option (\<lambda>(s, t'). (k, s, t')) (asset_sheet_generate R t)) (sg_assets g0));
     let g = g0\<lparr>sg_instruments := map (\<lambda>(k, _, t). (k, t)) ts, sg_assets := map (\<lambda>(k, _, t). (k, t)) as\<rparr>;
     let basis = (case sg_assets g of [] \<Rightarrow> Gross | (_, t) # _ \<Rightarrow> ag_basis t);
     Some (\<lparr>sy_time_engine_start = sg_time_engine_start g, sy_time_engine_end = sg_time_engine_now g,
         sy_instruments = map (\<lambda>(k, s, _). (k, s)) ts, sy_assets = map (\<lambda>(k, s, _). (k, s)) as, sy_basis = basis,
         sy_orders_opened = summary_total tg_orders_opened g, sy_orders_rejected = summary_total tg_orders_rejected g,
         sy_fills_routed_by_fallback = summary_total tg_fills_routed_by_fallback g,
         sy_fills_unmatched = summary_total tg_fills_unmatched g, sy_fills_forced = summary_total tg_fills_forced g,
         sy_fills_unallocated = summary_total tg_fills_unallocated g, sy_fills_dust = summary_total tg_fills_dust g,
         sy_fills_reduce_only_capped = summary_total tg_fills_reduce_only_capped g,
         sy_fills_free_base_traded = summary_total tg_fills_free_base_traded g,
         sy_fills_fee_unconverted = summary_total tg_fills_fee_unconverted g\<rparr>, g)
   }"

end
