(* ===== verification/Statistics_Laws.thy ===== *)
theory Statistics_Laws
  imports Tear_Sheets
begin

text \<open>
  What the running statistics are of the whole run: Welford's recurrences give the mean and the
  variance of all values, the drawdown generators the largest fall the series ever made, and a tear
  sheet the sums over the closed positions; and what it takes to make them panic.
\<close>

section \<open>A dataset, value by value and at once\<close>

fun data_set_run :: "rounding \<Rightarrow> decimal list \<Rightarrow> data_set_summary \<Rightarrow> data_set_summary option" where
  "data_set_run R [] s = Some s"
| "data_set_run R (x # xs) s = do { s' \<leftarrow> data_set_update R x s; data_set_run R xs s' }"

definition mean_of :: "decimal list \<Rightarrow> decimal" where
  "mean_of xs = (if xs = [] then 0 else sum_list xs / of_nat (length xs))"

definition squares_about :: "decimal \<Rightarrow> decimal list \<Rightarrow> decimal" where
  "squares_about c xs = (\<Sum>x \<leftarrow> xs. (x - c) ^ 2)"

definition range_of :: "decimal list \<Rightarrow> value_range" where
  "range_of xs = (if xs = [] then \<lparr>rg_activated = False, rg_high = 0, rg_low = 0\<rparr>
     else \<lparr>rg_activated = True, rg_high = Max (set xs), rg_low = Min (set xs)\<rparr>)"

definition data_set_of :: "decimal list \<Rightarrow> data_set_summary" where
  "data_set_of xs = \<lparr>ds_count = of_nat (length xs), ds_sum = sum_list xs, ds_mean = mean_of xs,
     ds_dispersion = \<lparr>dp_range = range_of xs, dp_recurrence_relation_m = squares_about (mean_of xs) xs\<rparr>\<rparr>"

lemma range_update_activated:
  "b \<le> a \<Longrightarrow> range_update x \<lparr>rg_activated = True, rg_high = a, rg_low = b\<rparr> =
    \<lparr>rg_activated = True, rg_high = max x a, rg_low = min x b\<rparr>"
  by (auto simp: range_update_def Let_def max_def min_def)

lemma range_update_snoc: "range_update x (range_of xs) = range_of (xs @ [x])"
proof (cases "xs = []")
  case False
  then have "Max (insert x (set xs)) = max x (Max (set xs))" "Min (insert x (set xs)) = min x (Min (set xs))"
    by simp_all
  moreover have "Min (set xs) \<le> Max (set xs)"
    using False by (intro Min_le) simp_all
  ultimately show ?thesis using False
    by (simp add: range_of_def range_update_activated del: Max_insert Min_insert)
qed (simp add: range_update_def range_of_def)

lemma squares_about_sum:
  "squares_about c xs = (\<Sum>x \<leftarrow> xs. x ^ 2) - 2 * c * sum_list xs + of_nat (length xs) * c ^ 2"
  by (induction xs) (auto simp: squares_about_def power2_eq_square algebra_simps)

lemma sum_of_mean: "sum_list xs = of_nat (length xs) * mean_of xs"
  by (simp add: mean_of_def)

lemma mean_of_snoc: "mean_of (xs @ [x]) = mean_of xs + (x - mean_of xs) / (of_nat (length xs) + 1)"
proof -
  have "mean_of (xs @ [x]) = (of_nat (length xs) * mean_of xs + x) / (of_nat (length xs) + 1)"
    by (simp add: mean_of_def [of "xs @ [x]"] sum_of_mean [of xs] add.commute)
  moreover have "(n * m + x) / (n + 1) = m + (x - m) / (n + 1)" if "0 \<le> n" for n m :: rat
    using that by (simp add: field_simps)
  ultimately show ?thesis by simp
qed

lemma squares_snoc:
  "squares_about (mean_of (xs @ [x])) (xs @ [x]) =
    squares_about (mean_of xs) xs + (x - mean_of xs) * (x - mean_of (xs @ [x]))"
proof -
  define n :: rat where "n = of_nat (length xs)"
  define s where "s = sum_list xs"
  define a where "a = mean_of xs"
  define b where "b = mean_of (xs @ [x])"
  have s: "s = n * a" by (simp add: s_def n_def a_def sum_of_mean)
  have "s + x = (n + 1) * b"
    using sum_of_mean [of "xs @ [x]"] by (simp add: s_def n_def b_def add.commute)
  then have x: "x = (n + 1) * b - n * a" using s by simp
  have "Q + x ^ 2 - 2 * b * (s + x) + (n + 1) * b ^ 2 = (Q - 2 * a * s + n * a ^ 2) + (x - a) * (x - b)" for Q
    unfolding s unfolding x by (simp add: algebra_simps power2_eq_square)
  from this [of "\<Sum>x \<leftarrow> xs. x ^ 2"] show ?thesis
    by (simp add: squares_about_sum s_def n_def a_def b_def add.commute)
qed

lemma data_set_of_snoc:
  "data_set_of (xs @ [x]) = \<lparr>ds_count = of_nat (length xs) + 1, ds_sum = sum_list xs + x, ds_mean = mean_of (xs @ [x]),
     ds_dispersion = \<lparr>dp_range = range_update x (range_of xs), dp_recurrence_relation_m =
       squares_about (mean_of xs) xs + (x - mean_of xs) * (x - mean_of (xs @ [x]))\<rparr>\<rparr>"
  by (simp add: data_set_of_def range_update_snoc squares_snoc)

lemma data_set_update_snoc: "data_set_update Some x (data_set_of xs) = Some (data_set_of (xs @ [x]))"
proof -
  have "(of_nat (length xs) :: rat) + 1 \<noteq> 0" using of_nat_0_le_iff [of "length xs", where 'a = rat] by linarith
  then have m: "calculate_mean Some (mean_of xs) x (of_nat (length xs) + 1) = Some (mean_of (xs @ [x]))"
    by (simp add: calculate_mean_def dec_simps mean_of_snoc)
  show ?thesis unfolding data_set_of_snoc
    by (simp add: data_set_update_def data_set_of_def dispersion_update_def Let_def dec_simps m
        calculate_recurrence_relation_m_def)
qed

lemma data_set_of_Nil: "data_set_default = data_set_of []"
  by (simp add: data_set_default_def data_set_of_def mean_of_def range_of_def squares_about_def)

lemma data_set_run_append:
  "data_set_run Some ys (data_set_of xs) = Some (data_set_of (xs @ ys))"
  by (induction ys arbitrary: xs) (simp_all add: data_set_update_snoc)

text \<open>C25: The running statistics are those of the whole dataset: with exact arithmetic, feeding any values one at a time from the empty summary gives their count, their sum, their arithmetic mean, their largest and smallest, and a population variance that is the mean of their squared distances from that mean, whatever the order they arrive in.\<close>
theorem running_statistics_are_the_dataset:
  "\<exists>s. data_set_run Some xs data_set_default = Some s \<and> ds_count s = of_nat (length xs) \<and> ds_sum s = sum_list xs \<and>
    ds_mean s = mean_of xs \<and>
    data_set_variance Some s = Some (if xs = [] then 0 else squares_about (mean_of xs) xs / of_nat (length xs)) \<and>
    dp_range (ds_dispersion s) = range_of xs"
  using data_set_run_append [of xs "[]"]
  by (auto simp: data_set_of_Nil data_set_of_def data_set_variance_def dispersion_variance_def
      calculate_population_variance_def dec_simps Suc_le_eq)

section \<open>The largest fall of a series\<close>

text \<open>Every fall of a series, from a value to a later one or itself, as a part of the value it falls from.\<close>

definition series_falls :: "decimal list \<Rightarrow> decimal set" where
  "series_falls vs = {(vs ! i - vs ! j) / vs ! i | i j. i \<le> j \<and> j < length vs}"

lemma falls_snoc: "series_falls (vs @ [w]) = series_falls vs \<union> (\<lambda>v. (v - w) / v) ` set (vs @ [w])"
proof (intro set_eqI iffI)
  fix x assume "x \<in> series_falls (vs @ [w])"
  then obtain i j where ij: "x = ((vs @ [w]) ! i - (vs @ [w]) ! j) / (vs @ [w]) ! i" "i \<le> j" "j \<le> length vs"
    by (auto simp: series_falls_def less_Suc_eq_le)
  show "x \<in> series_falls vs \<union> (\<lambda>v. (v - w) / v) ` set (vs @ [w])"
  proof (cases "j < length vs")
    case True
    with ij have "x = (vs ! i - vs ! j) / vs ! i" by (simp add: nth_append)
    with True ij(2) show ?thesis by (auto simp: series_falls_def)
  next
    case False
    with ij have "j = length vs" by simp
    with ij have "x = (\<lambda>v. (v - w) / v) ((vs @ [w]) ! i)" and "(vs @ [w]) ! i \<in> set (vs @ [w])"
      by (simp_all only: nth_append_length) (intro nth_mem, simp)
    then show ?thesis by blast
  qed
next
  fix x assume "x \<in> series_falls vs \<union> (\<lambda>v. (v - w) / v) ` set (vs @ [w])"
  then consider i j where "x = (vs ! i - vs ! j) / vs ! i" "i \<le> j" "j < length vs"
    | v where "x = (v - w) / v" "v \<in> set (vs @ [w])"
    unfolding series_falls_def Un_iff image_iff by blast
  then show "x \<in> series_falls (vs @ [w])"
  proof cases
    case 1
    then have "x = ((vs @ [w]) ! i - (vs @ [w]) ! j) / (vs @ [w]) ! i" by (simp add: nth_append)
    with 1 show ?thesis unfolding series_falls_def by (intro CollectI exI [of _ i] exI [of _ j]) simp
  next
    case 2
    then obtain i where "i < length (vs @ [w])" "v = (vs @ [w]) ! i" by (metis in_set_conv_nth)
    with 2 show ?thesis unfolding series_falls_def by (intro CollectI exI [of _ i] exI [of _ "length vs"]) simp
  qed
qed

lemma falls_Nil [simp]: "series_falls [] = {}"
  by (simp add: series_falls_def)

lemma finite_falls [simp]: "finite (series_falls vs)"
  by (induction vs rule: rev_induct) (simp_all add: falls_snoc)

lemma falls_not_empty: "vs \<noteq> [] \<Longrightarrow> 0 \<in> series_falls vs"
  by (cases vs rule: rev_cases) (auto simp: falls_snoc)

text \<open>Only the fall from the highest value so far can be the largest that ends at the next one.\<close>

lemma fall_from_peak:
  assumes "0 \<le> v" and "v \<le> p" and "0 \<le> w" and "w \<le> p" 
  shows "(v - w) / v \<le> (p - w) / (p :: decimal)"
proof (cases "v = 0")
  case False
  with assms have "w / p \<le> w / v" by (intro divide_left_mono) auto
  with False assms show ?thesis by (simp add: diff_divide_distrib)
qed (use assms in simp)

lemma Max_falls_snoc:
  assumes "vs \<noteq> []" and nn: "\<forall>v \<in> set (vs @ [w]). 0 \<le> v"
  shows "Max (series_falls (vs @ [w])) =
    (if w \<le> Max (set vs) then max (Max (series_falls vs)) ((Max (set vs) - w) / Max (set vs)) else Max (series_falls vs))"
proof -
  let ?p = "Max (set vs)" and ?f = "\<lambda>v. (v - w) / v"
  have p: "?p \<in> set vs" using assms(1) by simp
  have top: "v \<le> ?p" if "v \<in> set vs" for v using that by simp
  have ne: "series_falls vs \<noteq> {}" using falls_not_empty [OF assms(1)] by blast
  have Max: "Max (series_falls (vs @ [w])) = max (Max (series_falls vs)) (Max (?f ` set (vs @ [w])))"
    unfolding falls_snoc using ne by (intro Max_Un) auto
  have zero: "0 \<le> Max (series_falls vs)" using falls_not_empty [OF assms(1)] by simp
  show ?thesis
  proof (cases "w \<le> ?p")
    case True
    have "Max (?f ` set (vs @ [w])) = ?f ?p"
    proof (rule Max_eqI)
      fix y assume "y \<in> ?f ` set (vs @ [w])"
      then obtain v where v: "v \<in> set (vs @ [w])" "y = ?f v" by blast
      with True top have "v \<le> ?p" by auto
      with v nn True show "y \<le> ?f ?p" by (auto intro!: fall_from_peak)
    qed (use p in auto)
    with Max True show ?thesis by simp
  next
    case False
    have "Max (?f ` set (vs @ [w])) \<le> 0"
    proof (rule Max.boundedI)
      fix y assume "y \<in> ?f ` set (vs @ [w])"
      then obtain v where v: "v \<in> set (vs @ [w])" "y = ?f v" by blast
      then have "v = w \<or> v \<le> ?p" using top by auto
      with False have "v \<le> w" by linarith
      with v nn show "y \<le> 0" by (auto simp: divide_nonpos_nonneg)
    qed auto
    with zero have "max (Max (series_falls vs)) (Max (?f ` set (vs @ [w]))) = Max (series_falls vs)" by (intro max_absorb1) (rule order_trans)
    with Max False show ?thesis by simp
  qed
qed

definition size_of :: "drawdown option \<Rightarrow> decimal" where
  "size_of d = (case d of None \<Rightarrow> 0 | Some x \<Rightarrow> dd_value x)"

definition most_ok :: "drawdown option \<Rightarrow> bool" where
  "most_ok d \<longleftrightarrow> (\<forall>x. d = Some x \<longrightarrow> 0 < dd_value x)"

lemma most_ok_size: "most_ok d \<Longrightarrow> 0 \<le> size_of d \<and> (d = None \<longleftrightarrow> size_of d = 0)"
  by (auto simp: most_ok_def size_of_def split: option.splits)

definition follows_falls :: "decimal list \<Rightarrow> drawdown_generator \<Rightarrow> max_drawdown_generator \<Rightarrow> bool" where
  "follows_falls vs g most \<longleftrightarrow> vs \<noteq> [] \<and> dg_peak g = Some (Max (set vs)) \<and> dg_time_peak g \<noteq> None \<and>
     0 \<le> dg_drawdown_max g \<and> most_ok most \<and> max (dg_drawdown_max g) (size_of most) = Max (series_falls vs)"

lemma record_max:
  assumes "most_ok most" and "0 \<le> dg_drawdown_max g" and "dg_time_peak g \<noteq> None"
    and "record_drawdown R (drawdown_generate g) (mean, most) = Some (mean', most')"
  shows "most_ok most' \<and> size_of most' = max (dg_drawdown_max g) (size_of most)"
  using assms by (auto simp: record_drawdown_def drawdown_generate_def max_drawdown_update_def size_of_def most_ok_def
      bind_eq_Some_conv split: option.splits if_splits)

lemma follows_step:
  assumes inv: "follows_falls vs g most" and nn: "\<forall>v \<in> set (vs @ [w]). 0 \<le> v"
    and step: "drawdown_update Some \<lparr>tv_value = w, tv_time = t\<rparr> g = Some (ended, g')"
    and mean: "record_drawdown Some ended (mean, most) = Some (mean', most')"
  shows "follows_falls (vs @ [w]) g' most'"
proof -
  let ?p = "Max (set vs)"
  note i = inv [unfolded follows_falls_def]
  note Max = Max_falls_snoc [OF _ nn]
  have Max_set: "Max (set (vs @ [w])) = max w ?p" using i by simp
  show ?thesis
  proof (cases "?p < w")
    case True
    with step i have "ended = drawdown_generate (g\<lparr>dg_time_now := t\<rparr>)" and g': "dg_peak g' = Some w" "dg_time_peak g' = Some t" "dg_drawdown_max g' = 0"
      by (auto simp: drawdown_update_def drawdown_generate_def Let_def)
    with record_max [of most "g\<lparr>dg_time_now := t\<rparr>" Some mean mean' most'] mean i
    have "most_ok most'" "size_of most' = max (dg_drawdown_max g) (size_of most)" by simp_all
    moreover have "Max (series_falls (vs @ [w])) = Max (series_falls vs)" using Max i True by (metis not_le)
    moreover have "max w ?p = w" using True by simp
    moreover have "0 \<le> Max (series_falls vs)" using falls_not_empty [of vs] i by simp
    ultimately show ?thesis using i g' by (simp add: follows_falls_def Max_set)
  next
    case False
    with step i have e: "ended = None" and g': "dg_peak g' = dg_peak g" "dg_time_peak g' = dg_time_peak g"
      "dg_drawdown_max g' = max (dg_drawdown_max g) ((?p - w) / ?p)"
      by (auto simp: drawdown_update_def Let_def dec_simps split: if_splits)
    from e mean have "most' = most" by (simp add: record_drawdown_def)
    moreover have "Max (series_falls (vs @ [w])) = max (Max (series_falls vs)) ((?p - w) / ?p)" using Max i False by (metis not_le)
    moreover have "max w ?p = ?p" using False by simp
    moreover have "max (max x y) z = max (max x z) y" for x y z :: decimal by (simp add: max.assoc max.commute)
    ultimately show ?thesis using i g' by (simp add: follows_falls_def Max_set max.coboundedI1)
  qed
qed

lemma sorted_iff_no_fall:
  assumes "\<forall>v \<in> set vs. 0 \<le> v" and "vs \<noteq> []"
  shows "Max (series_falls vs) = 0 \<longleftrightarrow> sorted vs"
proof -
  have "(vs ! i - vs ! j) / vs ! i \<le> 0 \<longleftrightarrow> vs ! i \<le> vs ! j" if "i \<le> j" "j < length vs" for i j
  proof -
    have "0 \<le> vs ! i" "0 \<le> vs ! j" using assms(1) that by simp_all
    then show ?thesis by (cases "vs ! i = 0") (auto simp: divide_le_0_iff)
  qed
  then have "(\<forall>x \<in> series_falls vs. x \<le> 0) \<longleftrightarrow> sorted vs"
    by (fastforce simp: series_falls_def sorted_iff_nth_mono)
  moreover have "Max (series_falls vs) \<le> 0 \<longleftrightarrow> (\<forall>x \<in> series_falls vs. x \<le> 0)"
    using falls_not_empty [OF assms(2)] by (intro Max_le_iff) auto
  moreover have "0 \<le> Max (series_falls vs)" using falls_not_empty [OF assms(2)] by simp
  ultimately show ?thesis by force
qed

fun asset_sheet_run ::
  "rounding \<Rightarrow> (balance \<times> time) list \<Rightarrow> tear_sheet_asset_generator \<Rightarrow> tear_sheet_asset_generator option" where
  "asset_sheet_run R [] g = Some g"
| "asset_sheet_run R ((b, t) # xs) g = do { g' \<leftarrow> asset_sheet_update_parts R b t g; asset_sheet_run R xs g' }"

definition figure_of :: "balance_basis \<Rightarrow> balance \<Rightarrow> decimal" where
  "figure_of basis b = (case basis of
       Gross \<Rightarrow> bl_total b
     | NetAsset \<Rightarrow> bl_total b - (case bl_margin b of None \<Rightarrow> 0 | Some m \<Rightarrow> md_borrowed m + md_interest m))"

lemma basis_value_exact [simp]: "basis_value Some basis b = Some (figure_of basis b)"
  by (auto simp: basis_value_def figure_of_def net_asset_def margin_owed_def dec_simps split: balance_basis.splits option.splits)

lemma drawdown_update_exact: "\<exists>x. drawdown_update Some p g = Some x"
  by (auto simp: drawdown_update_def Let_def dec_simps split: option.splits)

text \<open>The mean never divides by a count of zero before \<open>2 ^ 64\<close> drawdowns.\<close>

lemma record_exact:
  assumes "unat (mg_count mean) < 2 ^ 64 - 1"
  shows "\<exists>mean' most'. record_drawdown Some d (mean, most) = Some (mean', most') \<and>
    unat (mg_count mean') \<le> unat (mg_count mean) + 1"
proof -
  have up: "unat (mg_count mean + 1) = unat (mg_count mean) + 1" using assms by (simp add: unat_word_ariths)
  then have "mg_count mean + 1 \<noteq> 0" by (metis add_is_0 one_neq_zero unsigned_0)
  then have "sint (mg_count mean + 1) \<noteq> 0" by (simp only: signed_eq_0_iff not_False_eq_True)
  moreover have "(of_nat (unat (mg_count mean + 1)) :: rat) \<noteq> 0" unfolding up of_nat_eq_0_iff by simp
  ultimately show ?thesis using up
    by (auto simp: record_drawdown_def mean_drawdown_update_def calculate_mean_def calculate_mean_i64_def dec_simps Let_def
        split: option.splits)
qed

lemma asset_sheet_run_follows:
  assumes "follows_falls vs (ag_drawdown g) (ag_drawdown_max g)"
    and "\<forall>v \<in> set (vs @ map (figure_of (ag_basis g) \<circ> fst) xs). 0 \<le> v"
    and "unat (mg_count (ag_drawdown_mean g)) + length xs < 2 ^ 64 - 1"
  shows "\<exists>g'. asset_sheet_run Some xs g = Some g' \<and> unat (mg_count (ag_drawdown_mean g')) < 2 ^ 64 - 1 \<and>
    follows_falls (vs @ map (figure_of (ag_basis g) \<circ> fst) xs) (ag_drawdown g') (ag_drawdown_max g')"
  using assms
proof (induction xs arbitrary: vs g)
  case (Cons x xs)
  obtain b t where x: "x = (b, t)" by fastforce
  let ?w = "figure_of (ag_basis g) b"
  obtain ended dg where up: "drawdown_update Some \<lparr>tv_value = ?w, tv_time = t\<rparr> (ag_drawdown g) = Some (ended, dg)"
    using drawdown_update_exact by (metis surj_pair)
  obtain mean most where rec: "record_drawdown Some ended (ag_drawdown_mean g, ag_drawdown_max g) = Some (mean, most)"
    and count: "unat (mg_count mean) \<le> unat (mg_count (ag_drawdown_mean g)) + 1"
    using record_exact [of "ag_drawdown_mean g" ended "ag_drawdown_max g"] Cons.prems(3) by auto
  define g1 where "g1 = g\<lparr>ag_balance_now := Some b, ag_drawdown := dg, ag_drawdown_mean := mean, ag_drawdown_max := most\<rparr>"
  have g1: "asset_sheet_update_parts Some b t g = Some g1"
    by (simp add: asset_sheet_update_parts_def up rec g1_def)
  have "follows_falls (vs @ [?w]) dg most"
    by (rule follows_step [OF Cons.prems(1) _ up rec]) (use Cons.prems(2) x in auto)
  with Cons.IH [of "vs @ [?w]" g1] Cons.prems(2,3) count x show ?case by (auto simp: g1 g1_def)
qed simp

text \<open>C26: The maximum drawdown of an asset's tear sheet is the largest fall its balance ever made. With exact arithmetic and a balance (gross or net of debt, as configured) that never goes below zero, however many balances arrive, neither the updates nor the generation panic, and the reported maximum is the greatest of (earlier - later) / earlier over all pairs of balances in order, the first one included, whether that fall was recovered or is still open; no maximum is reported exactly when the balance never fell.\<close>
theorem max_drawdown_is_the_largest_fall:
  assumes "\<forall>v \<in> set (map (figure_of basis \<circ> fst) ((b0, t0) # xs)). 0 \<le> v" and "length xs < 2 ^ 64 - 1"
  shows "\<exists>g0 g g' s. asset_sheet_init_with_basis Some b0 t0 basis = Some g0 \<and> asset_sheet_run Some xs g0 = Some g \<and>
    asset_sheet_generate Some g = Some (s, g') \<and>
    size_of (ta_drawdown_max s) = Max (series_falls (map (figure_of basis \<circ> fst) ((b0, t0) # xs))) \<and>
    (ta_drawdown_max s = None \<longleftrightarrow> sorted (map (figure_of basis \<circ> fst) ((b0, t0) # xs)))"
proof -
  let ?vs = "map (figure_of basis \<circ> fst) ((b0, t0) # xs)"
  define g0 where "g0 = \<lparr>ag_basis = basis, ag_balance_now = Some b0,
    ag_drawdown = drawdown_init \<lparr>tv_value = figure_of basis b0, tv_time = t0\<rparr>,
    ag_drawdown_mean = mean_drawdown_default, ag_drawdown_max = None\<rparr>"
  have init: "asset_sheet_init_with_basis Some b0 t0 basis = Some g0"
    by (simp add: asset_sheet_init_with_basis_def g0_def)
  have "series_falls [figure_of basis b0] = {0}" using falls_snoc [of "[]"] by simp
  then have "follows_falls [figure_of basis b0] (ag_drawdown g0) (ag_drawdown_max g0)"
    by (simp add: follows_falls_def g0_def drawdown_init_def most_ok_def size_of_def)
  then obtain g where run: "asset_sheet_run Some xs g0 = Some g" and count: "unat (mg_count (ag_drawdown_mean g)) < 2 ^ 64 - 1"
    and f: "follows_falls ?vs (ag_drawdown g) (ag_drawdown_max g)"
    using asset_sheet_run_follows [of "[figure_of basis b0]" g0 xs] assms by (auto simp: g0_def mean_drawdown_default_def)
  obtain mean most where rec: "record_drawdown Some (drawdown_generate (ag_drawdown g)) (ag_drawdown_mean g, ag_drawdown_max g) = Some (mean, most)"
    using record_exact [OF count] by blast
  have most: "most_ok most \<and> size_of most = Max (series_falls ?vs)"
    using record_max [OF _ _ _ rec] f by (auto simp: follows_falls_def)
  have "asset_sheet_generate Some g = Some (\<lparr>ta_balance_end = ag_balance_now g, ta_drawdown = drawdown_generate (ag_drawdown g),
      ta_drawdown_mean = mg_mean_drawdown mean, ta_drawdown_max = most\<rparr>, g\<lparr>ag_drawdown_mean := mean, ag_drawdown_max := most\<rparr>)"
    by (simp add: asset_sheet_generate_def rec)
  moreover have "most = None \<longleftrightarrow> sorted ?vs"
    using most_ok_size [of most] most sorted_iff_no_fall [OF assms(1)] by simp
  ultimately show ?thesis using init run most by auto
qed

section \<open>The tear sheet of an instrument\<close>

definition carried :: "('a, 'i) position_exited \<Rightarrow> decimal" where
  "carried px = px_carry px + (case px_price_exit px of None \<Rightarrow> 0 | Some price \<Rightarrow> ac_base (px_carry_assets px) * price)"

definition net_of :: "('a, 'i) position_exited \<Rightarrow> decimal" where
  "net_of px = px_pnl_realised px + carried px"

definition return_of :: "('a, 'i) position_exited \<Rightarrow> decimal" where
  "return_of px = net_of px / (px_price_entry_average px * px_quantity_abs_max px)"

fun tear_sheet_run ::
  "rounding \<Rightarrow> ('a, 'i) position_exited list \<Rightarrow> tear_sheet_generator \<Rightarrow> tear_sheet_generator option" where
  "tear_sheet_run R [] g = Some g"
| "tear_sheet_run R (px # ps) g = do { g' \<leftarrow> tear_sheet_update_from_position R px g; tear_sheet_run R ps g' }"

definition losing :: "('a, 'i) position_exited list \<Rightarrow> ('a, 'i) position_exited list" where
  "losing = filter (\<lambda>px. return_of px < 0)"

definition books :: "('a, 'i) position_exited list \<Rightarrow> pnl_returns \<Rightarrow> bool" where
  "books ps p \<longleftrightarrow> pr_pnl_raw p = sum_list (map net_of ps) \<and> pr_carry p = sum_list (map carried ps) \<and>
     pr_total p = data_set_of (map return_of ps) \<and> pr_losses p = data_set_of (map return_of (losing ps))"

lemma books_step:
  assumes "books ps p"
  shows "\<exists>p'. pnl_returns_update Some px p = Some p' \<and> books (ps @ [px]) p'"
proof -
  have ret: "calculate_pnl_return Some (net_of px) (px_price_entry_average px) (px_quantity_abs_max px) = Some (return_of px)"
    by (auto simp: calculate_pnl_return_def return_of_def dec_simps)
  have count: "\<exists>p'. pnl_returns_count Some (carried px) px q = Some p' \<and> books (ps @ [px]) p'" if "books ps q" for q
    using that by (auto simp: pnl_returns_count_def books_def losing_def held_add_def dec_simps Let_def ret
        net_of_def [symmetric] data_set_update_snoc)
  have "carry_valued Some px = Inr (carried px) \<or> carry_valued Some px = Inl BaseCarryUnpriced \<and> px_carry px = carried px"
    by (auto simp: carry_valued_def carried_def base_value_at_def dec_simps split: option.splits)
  then show ?thesis
    using count [OF assms] count [of "p\<lparr>pr_positions_carry_unpriced := sat_succ (pr_positions_carry_unpriced p)\<rparr>"] assms
    by (auto simp: pnl_returns_update_def books_def)
qed

lemma books_start: "books [] pnl_returns_default"
  by (simp add: books_def pnl_returns_default_def losing_def data_set_of_Nil)

text \<open>A series that never rises above zero records no drawdown, however deep it goes.\<close>

definition blind :: "tear_sheet_generator \<Rightarrow> bool" where
  "blind g \<longleftrightarrow> (\<forall>p. dg_peak (tg_pnl_drawdown g) = Some p \<longrightarrow> p \<le> 0) \<and> dg_drawdown_max (tg_pnl_drawdown g) = 0 \<and>
     tg_pnl_drawdown_mean g = mean_drawdown_default \<and> tg_pnl_drawdown_max g = None"

lemma record_pnl_blind:
  assumes "blind g" and "pr_pnl_raw (tg_pnl_returns g) \<le> 0" and "record_pnl_at R t g = Some g'" and "rounding_laws R"
  shows "blind g'"
proof -
  have quiet: "y \<le> 0" if "x \<le> p" "p \<le> 0" "R (p - x) = Some f" "R (f / p) = Some y" for x p f y
  proof -
    have "0 \<le> f" using rounding_nonneg [OF assms(4) _ that(3)] that(1) by simp
    then show "y \<le> 0" using rounding_nonpos [OF assms(4) _ that(4)] that(2) by (simp add: divide_nonneg_nonpos)
  qed
  show ?thesis using assms
    by (auto simp: blind_def record_pnl_at_def drawdown_update_def drawdown_generate_def record_drawdown_def Let_def
        bind_eq_Some_conv dec_simps not_less dest: quiet split: option.splits if_splits)
qed

lemma record_pnl_keeps:
  "record_pnl_at R t g = Some g' \<Longrightarrow> tg_pnl_returns g' = tg_pnl_returns g"
  by (auto simp: record_pnl_at_def bind_eq_Some_conv)

lemma record_pnl_exact:
  assumes "unat (mg_count (tg_pnl_drawdown_mean g)) < 2 ^ 64 - 1"
  shows "\<exists>g'. record_pnl_at Some t g = Some g' \<and>
    unat (mg_count (tg_pnl_drawdown_mean g')) \<le> unat (mg_count (tg_pnl_drawdown_mean g)) + 1"
proof -
  let ?p = "\<lparr>tv_value = pr_pnl_raw (tg_pnl_returns g), tv_time = t\<rparr>"
  obtain ended dg where "drawdown_update Some ?p (tg_pnl_drawdown g) = Some (ended, dg)"
    using drawdown_update_exact by (metis surj_pair)
  with record_exact [OF assms, of ended "tg_pnl_drawdown_max g"] show ?thesis by (auto simp: record_pnl_at_def)
qed

text \<open>The running total of a run of positions that follows others.\<close>

definition never_ahead :: "('a, 'i) position_exited list \<Rightarrow> bool" where
  "never_ahead ps \<longleftrightarrow> (\<forall>n \<le> length ps. sum_list (map net_of (take n ps)) \<le> 0)"

lemma tear_sheet_run_exact:
  assumes "books qs (tg_pnl_returns g)" and "unat (mg_count (tg_pnl_drawdown_mean g)) + length ps < 2 ^ 64 - 1"
  shows "\<exists>g'. tear_sheet_run Some ps g = Some g' \<and> books (qs @ ps) (tg_pnl_returns g') \<and>
    unat (mg_count (tg_pnl_drawdown_mean g')) < 2 ^ 64 - 1 \<and>
    (blind g \<longrightarrow> (\<forall>n \<le> length ps. sum_list (map net_of (qs @ take n ps)) \<le> 0) \<longrightarrow> blind g')"
  using assms
proof (induction ps arbitrary: qs g)
  case (Cons px ps)
  obtain p where p: "pnl_returns_update Some px (tg_pnl_returns g) = Some p" "books (qs @ [px]) p"
    using books_step [OF Cons.prems(1)] by blast
  let ?g = "g\<lparr>tg_pnl_returns := p\<rparr>"
  obtain g1 where g1: "record_pnl_at Some (px_time_exit px) ?g = Some g1"
    "unat (mg_count (tg_pnl_drawdown_mean g1)) \<le> unat (mg_count (tg_pnl_drawdown_mean g)) + 1"
    using record_pnl_exact [of ?g] Cons.prems(2) by auto
  have b1: "books (qs @ [px]) (tg_pnl_returns g1)" using record_pnl_keeps [OF g1(1)] p(2) by simp
  have blind: "blind g1" if "blind g" "\<forall>n \<le> length (px # ps). sum_list (map net_of (qs @ take n (px # ps))) \<le> 0"
  proof -
    have "sum_list (map net_of (qs @ [px])) \<le> 0" using that(2) [rule_format, of 1] by simp
    moreover have "blind ?g" using that(1) by (simp add: blind_def)
    ultimately show ?thesis
      using record_pnl_blind [OF _ _ g1(1) rounding_laws_Some] p(2) by (simp add: books_def)
  qed
  have "\<forall>n \<le> length ps. sum_list (map net_of ((qs @ [px]) @ take n ps)) \<le> 0"
    if "\<forall>n \<le> length (px # ps). sum_list (map net_of (qs @ take n (px # ps))) \<le> 0"
    using that [rule_format, of "Suc _"] by simp
  with Cons.IH [OF b1] blind g1 Cons.prems(2) p(1) show ?case
    by (auto simp: tear_sheet_update_from_position_def)
qed simp

definition exact_root :: "(decimal \<Rightarrow> decimal option) \<Rightarrow> bool" where
  "exact_root sqrt_dec \<longleftrightarrow> (\<forall>x \<ge> 0. sqrt_dec x \<noteq> None)"

lemma interval_scale_nonneg: "0 \<le> interval_scale Some c i"
  by (simp add: interval_scale_def dec_simps dec_max_def)

lemma ratios_exact:
  "\<exists>r. sharpe_calculate Some f m sd i = Some r" "\<exists>r. sortino_calculate Some f m sd i = Some r"
  "\<exists>r. calmar_calculate Some f m sd i = Some r"
  by (simp_all add: sharpe_calculate_def sortino_calculate_def calmar_calculate_def excess_over_def dec_simps)

lemma risk_scale_exact: "exact_root sqrt_dec \<Longrightarrow> \<exists>r'. risk_scale Some sqrt_dec i r = Some r'"
  using interval_scale_nonneg [of "ra_interval r" i] by (auto simp: exact_root_def risk_scale_def)

lemma std_dev_exact: "exact_root sqrt_dec \<Longrightarrow> \<exists>x. data_set_std_dev Some sqrt_dec s = Some x"
  by (auto simp: exact_root_def data_set_std_dev_def dispersion_std_dev_def dispersion_variance_def
      calculate_population_variance_def dec_simps)

lemma tear_sheet_generate_exact:
  assumes root: "exact_root sqrt_dec" and count: "unat (mg_count (tg_pnl_drawdown_mean g)) < 2 ^ 64 - 1"
  shows "\<exists>ts g' mean most. tear_sheet_generate Some sqrt_dec f i g = Some (ts, g') \<and>
    record_drawdown Some (drawdown_generate (tg_pnl_drawdown g)) (tg_pnl_drawdown_mean g, tg_pnl_drawdown_max g) = Some (mean, most) \<and>
    ts_pnl ts = pr_pnl_raw (tg_pnl_returns g) \<and> ts_carry ts = pr_carry (tg_pnl_returns g) \<and>
    ts_pnl_drawdown ts = drawdown_generate (tg_pnl_drawdown g) \<and> ts_pnl_drawdown_max ts = most \<and>
    ts_pnl_drawdown_mean ts = mg_mean_drawdown mean \<and>
    ts_win_rate ts = win_rate_calculate Some (ds_count (pr_losses (tg_pnl_returns g))) (ds_count (pr_total (tg_pnl_returns g))) \<and>
    ts_profit_factor ts = profit_factor_calculate Some (ds_sum (pr_total (tg_pnl_returns g))) (ds_sum (pr_losses (tg_pnl_returns g)))"
proof -
  obtain mean most where rec: "record_drawdown Some (drawdown_generate (tg_pnl_drawdown g))
      (tg_pnl_drawdown_mean g, tg_pnl_drawdown_max g) = Some (mean, most)"
    using record_exact [OF count] by blast
  let ?p = "tg_pnl_returns g" and ?i = "Span (max (tg_time_engine_now g - tg_time_engine_start g) 1000000000)"
  obtain sd sl where sd: "data_set_std_dev Some sqrt_dec (pr_total ?p) = Some sd" "data_set_std_dev Some sqrt_dec (pr_losses ?p) = Some sl"
    using std_dev_exact [OF root] by metis
  obtain r1 r2 r3 where r: "sharpe_calculate Some f (ds_mean (pr_total ?p)) sd ?i = Some r1"
    "sortino_calculate Some f (ds_mean (pr_total ?p)) sl ?i = Some r2"
    "calmar_calculate Some f (ds_mean (pr_total ?p)) (dd_value (case most of None \<Rightarrow> drawdown_default | Some d \<Rightarrow> d)) ?i = Some r3"
    using ratios_exact by metis
  obtain s1 s2 s3 where "risk_scale Some sqrt_dec i r1 = Some s1" "risk_scale Some sqrt_dec i r2 = Some s2" "risk_scale Some sqrt_dec i r3 = Some s3"
    using risk_scale_exact [OF root] by metis
  with rec sd r show ?thesis by (auto simp: tear_sheet_generate_def Let_def)
qed

lemma count_of_data_set: "ds_count (data_set_of xs) = of_nat (length xs)" "ds_sum (data_set_of xs) = sum_list xs"
  by (simp_all add: data_set_of_def)

text \<open>C27: What a tear sheet says of an instrument's closed positions. With exact arithmetic, feeding any closed positions to a fresh generator and generating never panics, whatever the risk-free rate and the interval; the profit is the sum of their net results and the carry the sum of their carries, base-asset carry valued at each exit price. But the win rate it reports is the share of the positions that lost, and its profit factor divides the sum of all returns, not of the winning ones, by the sum of the losing ones, and is absent when both sums are zero.\<close>
theorem tear_sheet_of_closed_positions:
  assumes "exact_root sqrt_dec" and "length ps < 2 ^ 64 - 1"
  shows "\<exists>g ts g'. tear_sheet_run Some ps (tear_sheet_init start) = Some g \<and>
    tear_sheet_generate Some sqrt_dec risk_free i g = Some (ts, g') \<and>
    ts_pnl ts = sum_list (map net_of ps) \<and> ts_carry ts = sum_list (map carried ps) \<and>
    ts_win_rate ts = (if ps = [] then None else Some (of_nat (length (losing ps)) / of_nat (length ps))) \<and>
    ts_profit_factor ts = profit_factor_calculate Some (sum_list (map return_of ps)) (sum_list (map return_of (losing ps)))"
proof -
  obtain g where g: "tear_sheet_run Some ps (tear_sheet_init start) = Some g" "books ps (tg_pnl_returns g)"
    "unat (mg_count (tg_pnl_drawdown_mean g)) < 2 ^ 64 - 1"
    using tear_sheet_run_exact [of "[]" "tear_sheet_init start" ps] assms(2) books_start
    by (auto simp: tear_sheet_init_def mean_drawdown_default_def)
  obtain ts g' where ts: "tear_sheet_generate Some sqrt_dec risk_free i g = Some (ts, g')"
    "ts_pnl ts = pr_pnl_raw (tg_pnl_returns g)" "ts_carry ts = pr_carry (tg_pnl_returns g)"
    "ts_win_rate ts = win_rate_calculate Some (ds_count (pr_losses (tg_pnl_returns g))) (ds_count (pr_total (tg_pnl_returns g)))"
    "ts_profit_factor ts = profit_factor_calculate Some (ds_sum (pr_total (tg_pnl_returns g))) (ds_sum (pr_losses (tg_pnl_returns g)))"
    using tear_sheet_generate_exact [OF assms(1) g(3), of risk_free i] by blast
  with g(1,2) show ?thesis
    by (simp add: books_def count_of_data_set win_rate_calculate_def dec_simps)
qed

text \<open>C28: A run that is never ahead shows no drawdown: if the net result of an instrument's closed positions never rises above zero at any point of the run, its tear sheet reports no current, no mean and no maximum drawdown, however far the total fell, because a fall is measured as a part of a peak that is not positive.\<close>
theorem losing_run_shows_no_drawdown:
  assumes "exact_root sqrt_dec" and "length ps < 2 ^ 64 - 1" and "never_ahead ps"
  shows "\<exists>g ts g'. tear_sheet_run Some ps (tear_sheet_init start) = Some g \<and>
    tear_sheet_generate Some sqrt_dec risk_free i g = Some (ts, g') \<and> ts_pnl ts = sum_list (map net_of ps) \<and>
    ts_pnl_drawdown ts = None \<and> ts_pnl_drawdown_mean ts = None \<and> ts_pnl_drawdown_max ts = None"
proof -
  have "blind (tear_sheet_init start)"
    by (simp add: blind_def tear_sheet_init_def drawdown_generator_default_def)
  then obtain g where g: "tear_sheet_run Some ps (tear_sheet_init start) = Some g" "books ps (tg_pnl_returns g)"
    "unat (mg_count (tg_pnl_drawdown_mean g)) < 2 ^ 64 - 1" "blind g"
    using tear_sheet_run_exact [of "[]" "tear_sheet_init start" ps] assms(2,3) books_start
    by (auto simp: tear_sheet_init_def mean_drawdown_default_def never_ahead_def)
  have none: "drawdown_generate (tg_pnl_drawdown g) = None"
    using g(4) by (simp add: blind_def drawdown_generate_def split: option.splits)
  obtain ts g' mean most where ts: "tear_sheet_generate Some sqrt_dec risk_free i g = Some (ts, g')"
    "record_drawdown Some None (tg_pnl_drawdown_mean g, tg_pnl_drawdown_max g) = Some (mean, most)"
    "ts_pnl ts = pr_pnl_raw (tg_pnl_returns g)" "ts_pnl_drawdown ts = None" "ts_pnl_drawdown_max ts = most"
    "ts_pnl_drawdown_mean ts = mg_mean_drawdown mean"
    using tear_sheet_generate_exact [OF assms(1) g(3), of risk_free i] unfolding none by blast
  have "mg_mean_drawdown mean = None \<and> most = None"
    using ts(2) g(4) by (auto simp: blind_def record_drawdown_def mean_drawdown_default_def)
  with ts g(1,2) show ?thesis by (simp add: books_def)
qed

section \<open>Returns too far apart\<close>

text \<open>Arithmetic that rounds nothing and has the range of a decimal.\<close>

definition ranged :: rounding where
  "ranged x = (if \<bar>x\<bar> \<le> dec_max then Some x else None)"

lemma ranged_Some: "ranged x = Some y \<longleftrightarrow> y = x \<and> \<bar>x\<bar> \<le> dec_max"
  by (auto simp: ranged_def)

lemma far_value_panics:
  assumes "1 \<le> ds_count s" and "4 * 10 ^ 14 \<le> \<bar>x - ds_mean s\<bar>"
  shows "data_set_update ranged x s = None"
proof (rule ccontr)
  define n where "n = ds_count s"
  define d where "d = x - ds_mean s"
  define sq where "sq = d * (x - (ds_mean s + d / (n + 1)))"
  assume "data_set_update ranged x s \<noteq> None"
  then have "\<bar>sq\<bar> \<le> dec_max"
    by (auto simp: data_set_update_def calculate_mean_def dispersion_update_def calculate_recurrence_relation_m_def
        dec_simps Let_def bind_eq_Some_conv ranged_Some sq_def d_def n_def split: if_splits)
  moreover have "sq = d ^ 2 * (n / (n + 1))"
    using assms(1) by (simp add: sq_def d_def n_def field_simps power2_eq_square)
  moreover have "(4 * 10 ^ 14) ^ 2 * (1 / 2) \<le> d ^ 2 * (n / (n + 1))"
  proof (rule mult_mono)
    show "(4 * 10 ^ 14) ^ 2 \<le> d ^ 2" using power_mono [OF assms(2), of 2] by (simp add: d_def)
    show "1 / 2 \<le> n / (n + 1)" using assms(1) by (simp add: n_def field_simps)
  qed simp_all
  ultimately have "(4 * 10 ^ 14) ^ 2 * (1 / 2) \<le> dec_max" by linarith
  then show False by (simp add: dec_max_def)
qed

text \<open>C29: The statistics of closed positions can panic. Once one position is counted, closing another whose net result and return are both representable but whose return lies 4 * 10^14 or more from the mean return panics, for the squared distance that Welford's recurrence adds with plain operators is beyond a decimal; nothing is recorded of it.\<close>
theorem far_return_panics:
  assumes "1 \<le> ds_count (pr_total p)" and "carry_valued ranged px = Inr carry"
    and "dec_add ranged (px_pnl_realised px) carry = Some net"
    and "calculate_pnl_return ranged net (px_price_entry_average px) (px_quantity_abs_max px) = Some ret"
    and "4 * 10 ^ 14 \<le> \<bar>ret - ds_mean (pr_total p)\<bar>"
  shows "pnl_returns_update ranged px p = None"
  using assms far_value_panics [OF assms(1,5)]
  by (simp add: pnl_returns_update_def pnl_returns_count_def Let_def)

section \<open>Small runs\<close>

definition sample_exit :: "decimal \<Rightarrow> decimal \<Rightarrow> decimal \<Rightarrow> (nat, nat) position_exited" where
  "sample_exit pnl entry quantity =
     (let fees = \<lparr>af_asset = 0, af_fees = 0, af_fees_quote = Some 0\<rparr> in
      \<lparr>px_position_id = ''p'', px_instrument = 0, px_side = Buy, px_price_entry_average = entry,
       px_quantity_abs_max = quantity, px_pnl_realised = pnl, px_carry = 0, px_carry_assets = asset_carry_default,
       px_price_exit = None, px_fees_enter = fees, px_fees_exit = fees, px_time_enter = 0, px_time_exit = 0, px_trades = []\<rparr>)"

lemma sample_exit_simps [simp]:
  "carried (sample_exit pnl entry quantity) = 0" "net_of (sample_exit pnl entry quantity) = pnl"
  "return_of (sample_exit pnl entry quantity) = pnl / (entry * quantity)"
  by (simp_all add: sample_exit_def Let_def carried_def net_of_def return_of_def asset_carry_default_def)

text \<open>Newton's iteration, twenty steps from one.\<close>

definition newton_root :: "decimal \<Rightarrow> decimal option" where
  "newton_root x = (if x < 0 then None else Some (((\<lambda>y. (y + x / y) / 2) ^^ 20) 1))"

lemma newton_root_exact: "exact_root newton_root"
  by (simp add: exact_root_def newton_root_def)

lemma tear_sheet_of_closed_positions_witness:
  "\<exists>g ts g'. tear_sheet_run Some [sample_exit 30 100 1, sample_exit (- 10) 100 1, sample_exit 20 100 1] (tear_sheet_init 0) = Some g \<and>
    tear_sheet_generate Some newton_root 0 Daily g = Some (ts, g') \<and> ts_pnl ts = 40 \<and>
    ts_win_rate ts = Some (1 / 3) \<and> ts_profit_factor ts = Some 4"
  using tear_sheet_of_closed_positions [OF newton_root_exact, of
      "[sample_exit 30 100 1, sample_exit (- 10) 100 1, sample_exit 20 100 1]" 0 0 Daily]
  by (auto simp: losing_def profit_factor_calculate_def dec_simps simp del: tear_sheet_run.simps)

lemma losing_run_shows_no_drawdown_witness:
  "\<exists>g ts g'. tear_sheet_run Some [sample_exit (- 10) 100 1, sample_exit (- 90) 100 1] (tear_sheet_init 0) = Some g \<and>
    tear_sheet_generate Some newton_root 0 Daily g = Some (ts, g') \<and> ts_pnl ts = - 100 \<and>
    ts_pnl_drawdown ts = None \<and> ts_pnl_drawdown_max ts = None"
proof -
  have "never_ahead [sample_exit (- 10) 100 1, sample_exit (- 90) 100 1]"
    unfolding never_ahead_def
  proof (intro allI impI)
    fix n assume "n \<le> length [sample_exit (- 10) 100 1, sample_exit (- 90) 100 1]"
    then have "n = 0 \<or> n = 1 \<or> n = 2" by auto
    then show "sum_list (map net_of (take n [sample_exit (- 10) 100 1, sample_exit (- 90) 100 1])) \<le> 0"
      by (auto simp: numeral_2_eq_2)
  qed
  from losing_run_shows_no_drawdown [OF newton_root_exact _ this, of 0 0 Daily] show ?thesis by auto
qed

lemma far_return_panics_witness:
  "\<exists>p. pnl_returns_update ranged (sample_exit 1 (1 / 10 ^ 8) (1 / 10 ^ 8)) pnl_returns_default = Some p \<and>
    pnl_returns_update ranged (sample_exit 1 1 1) p = None"
proof -
  obtain p where p: "pnl_returns_update ranged (sample_exit 1 (1 / 10 ^ 8) (1 / 10 ^ 8)) pnl_returns_default = Some p"
    "ds_count (pr_total p) = 1" "ds_mean (pr_total p) = 10 ^ 16"
    by (simp add: pnl_returns_update_def pnl_returns_count_def pnl_returns_default_def data_set_default_def sample_exit_def
        asset_carry_default_def carry_valued_def held_add_def calculate_pnl_return_def data_set_update_def calculate_mean_def
        dispersion_update_def calculate_recurrence_relation_m_def ranged_def dec_max_def dec_simps Let_def)
  have "pnl_returns_update ranged (sample_exit 1 1 1) p = None"
    by (rule far_return_panics [of p _ 0 1 1])
      (simp_all add: p sample_exit_def Let_def asset_carry_default_def carry_valued_def calculate_pnl_return_def ranged_def dec_max_def dec_simps)
  with p show ?thesis by blast
qed

definition sample_balances :: "(balance \<times> time) list" where
  "sample_balances = [(balance_new 150 150, 1), (balance_new 60 60, 2), (balance_new 200 200, 3), (balance_new 180 180, 4)]"

lemma max_drawdown_is_the_largest_fall_witness:
  "\<exists>g0 g g' s. asset_sheet_init_with_basis Some (balance_new 100 100) 0 Gross = Some g0 \<and>
    asset_sheet_run Some sample_balances g0 = Some g \<and> asset_sheet_generate Some g = Some (s, g') \<and>
    size_of (ta_drawdown_max s) = 3 / 5"
proof -
  have vs: "map (figure_of Gross \<circ> fst) ((balance_new 100 100, 0) # sample_balances) = [100, 150, 60, 200, 180]"
    by (simp add: sample_balances_def figure_of_def balance_new_def)

  have "Max (series_falls [100, 150, 60, 200, 180 :: decimal]) = 3 / 5"
    using Max_falls_snoc [of "[100, 150, 60, 200]" 180] Max_falls_snoc [of "[100, 150, 60]" 200]
      Max_falls_snoc [of "[100, 150]" 60] Max_falls_snoc [of "[100]" 150] falls_snoc [of "[]" 100] by (simp add: max_def)
  with max_drawdown_is_the_largest_fall [of Gross "balance_new 100 100" 0 sample_balances]
  show ?thesis unfolding vs by (auto simp: sample_balances_def)
qed

end
