(* ===== verification/In_Flight.thy ===== *)
theory In_Flight
  imports Order_Model "HOL-Library.Char_ord" "HOL-Library.List_Lexorder" "HOL-Library.Product_Lexorder"
begin

text \<open>
  Requests that stay unanswered: the lookups that settle an open whose outcome is unknown
  (\<open>rustrade/src/execution/unknown_outcome.rs\<close>), the deadline the engine gives a request, and the watch
  that flags a request in flight past it (\<open>rustrade/src/engine/in_flight.rs\<close>, the instants of
  \<open>engine/clock.rs\<close>). A \<open>Duration\<close> is a number of nanoseconds with the range of that type. An
  \<open>EngineInstant\<close> counts nanoseconds in an \<open>i128\<close>, which no sum of the durations added to one leaves,
  so it is an integer. Log lines are not modelled.
\<close>

section \<open>Durations\<close>

type_synonym duration = nat

definition duration_max :: duration where
  "duration_max = (2 ^ 64 - 1) * 1000000000 + 999999999"

definition seconds :: "nat \<Rightarrow> duration" where
  "seconds n = n * 1000000000"

definition dur_add :: "duration \<Rightarrow> duration \<Rightarrow> duration" where
  "dur_add a b = min duration_max (a + b)"

definition dur_mul :: "duration \<Rightarrow> nat \<Rightarrow> duration" where
  "dur_mul a k = min duration_max (a * k)"

text \<open>A \<open>TimeDelta\<close> as a \<open>Duration\<close>, zero when it is negative.\<close>

definition to_std_or_zero :: "int \<Rightarrow> duration" where
  "to_std_or_zero = nat"

type_synonym engine_instant = int

definition saturating_duration_since :: "engine_instant \<Rightarrow> engine_instant \<Rightarrow> duration" where
  "saturating_duration_since later earlier =
     (let since = max 0 (later - earlier)
      in if since div 1000000000 < 2 ^ 64 then nat (since div 1000000000) * 1000000000 + nat (since mod 1000000000)
         else duration_max)"

section \<open>Lookups of an open whose outcome is unknown\<close>

record lookup_policy =
  lp_attempts :: nat
  lp_first_delay :: duration
  lp_unknowns_to_conclude :: nat
  lp_grace :: duration

definition lookup_default :: lookup_policy where
  "lookup_default = \<lparr>lp_attempts = 5, lp_first_delay = seconds 1, lp_unknowns_to_conclude = 3, lp_grace = seconds 5\<rparr>"

definition with_attempts :: "nat \<Rightarrow> lookup_policy \<Rightarrow> lookup_policy" where
  "with_attempts n p = p\<lparr>lp_attempts := n\<rparr>"

definition with_first_delay :: "duration \<Rightarrow> lookup_policy \<Rightarrow> lookup_policy" where
  "with_first_delay d p = p\<lparr>lp_first_delay := d\<rparr>"

definition with_unknowns_to_conclude :: "nat \<Rightarrow> lookup_policy \<Rightarrow> lookup_policy" where
  "with_unknowns_to_conclude n p = p\<lparr>lp_unknowns_to_conclude := n\<rparr>"

definition with_grace :: "duration \<Rightarrow> lookup_policy \<Rightarrow> lookup_policy" where
  "with_grace d p = p\<lparr>lp_grace := d\<rparr>"

text \<open>\<open>attempts\<close> and the factor are \<open>u32\<close>: from attempt 32 on the power overflows.\<close>

definition lookup_delay :: "lookup_policy \<Rightarrow> nat \<Rightarrow> duration" where
  "lookup_delay p attempt = dur_mul (lp_first_delay p) (if attempt < 32 then 2 ^ attempt else 2 ^ 32 - 1)"

definition lookup_longest :: "lookup_policy \<Rightarrow> duration \<Rightarrow> duration" where
  "lookup_longest p lookup_timeout =
     (let doubling = min (lp_attempts p) 32;
          doubled = foldl dur_add 0 (map (\<lambda>k. dur_add (lookup_delay p k) lookup_timeout) [0..<doubling]);
          level = dur_mul (dur_add (lookup_delay p 32) lookup_timeout) (lp_attempts p - doubling)
      in dur_add doubled level)"

datatype ('live, 'ended) venue_order_status = LiveOrder 'live | EndedOrder 'ended | UnknownOrder

datatype ('live, 'ended) lookup_outcome = FoundLive 'live | FoundEnded 'ended | NeverPlaced | Exhausted

text \<open>
  The loop. What the client and the runtime do is \<open>fetch\<close>: the answer to a lookup made at some time
  since the open was handed to the client and how long it takes, \<open>None\<close> a failed lookup. A lookup
  that takes longer than the timeout is a failed one that took the timeout. Timers fire when they are
  due. The result is the outcome and when it is known.
\<close>

definition timed_fetch ::
  "duration \<Rightarrow> (duration \<Rightarrow> duration \<times> ('l, 'd) venue_order_status option) \<Rightarrow> duration
     \<Rightarrow> duration \<times> ('l, 'd) venue_order_status option" where
  "timed_fetch lookup_timeout fetch t =
     (case fetch t of (took, answer) \<Rightarrow> if took \<le> lookup_timeout then (t + took, answer) else (t + lookup_timeout, None))"

fun look_up_from ::
  "lookup_policy \<Rightarrow> duration \<Rightarrow> (duration \<Rightarrow> duration \<times> ('l, 'd) venue_order_status option) \<Rightarrow> nat list \<Rightarrow> nat \<Rightarrow> duration
     \<Rightarrow> ('l, 'd) lookup_outcome \<times> duration" where
  "look_up_from p lookup_timeout fetch [] unknowns t = (Exhausted, t)"
| "look_up_from p lookup_timeout fetch (k # ks) unknowns t =
     (case timed_fetch lookup_timeout fetch (t + lookup_delay p k) of
        (t', Some UnknownOrder) \<Rightarrow>
          if lp_grace p \<le> t' then
            (if max 1 (lp_unknowns_to_conclude p) \<le> unknowns + 1 then (NeverPlaced, t')
             else look_up_from p lookup_timeout fetch ks (unknowns + 1) t')
          else look_up_from p lookup_timeout fetch ks unknowns t'
      | (t', Some (LiveOrder x)) \<Rightarrow> (FoundLive x, t')
      | (t', Some (EndedOrder x)) \<Rightarrow> (FoundEnded x, t')
      | (t', None) \<Rightarrow> look_up_from p lookup_timeout fetch ks 0 t')"

definition look_up_unknown_outcome ::
  "lookup_policy \<Rightarrow> duration \<Rightarrow> (duration \<Rightarrow> duration \<times> ('l, 'd) venue_order_status option) \<Rightarrow> duration
     \<Rightarrow> ('l, 'd) lookup_outcome \<times> duration" where
  "look_up_unknown_outcome p lookup_timeout fetch start =
     look_up_from p lookup_timeout fetch [0..<lp_attempts p] 0 start"

section \<open>Deadlines\<close>

type_synonym exchange_index = nat
type_synonym in_flight_deadlines = "duration option list"

definition request_timeout_margin :: duration where
  "request_timeout_margin = seconds 5"

definition deadline_for :: "duration \<Rightarrow> lookup_policy \<Rightarrow> duration" where
  "deadline_for request_timeout p =
     dur_add (dur_add request_timeout (lookup_longest p request_timeout)) request_timeout_margin"

text \<open>\<open>None\<close> is the panic on a deadline of zero.\<close>

definition deadlines_insert :: "exchange_index \<Rightarrow> duration \<Rightarrow> in_flight_deadlines \<Rightarrow> in_flight_deadlines option" where
  "deadlines_insert e d ds =
     (if d = 0 then None
      else Some ((if length ds \<le> e then ds @ replicate (e + 1 - length ds) None else ds)[e := Some d]))"

definition deadlines_with :: "exchange_index \<Rightarrow> duration \<Rightarrow> in_flight_deadlines \<Rightarrow> in_flight_deadlines option" where
  "deadlines_with e d ds = deadlines_insert e d ds"

definition deadlines_get :: "exchange_index \<Rightarrow> in_flight_deadlines \<Rightarrow> duration option" where
  "deadlines_get e ds = (if e < length ds then ds ! e else None)"

definition deadlines_remove :: "exchange_index \<Rightarrow> in_flight_deadlines \<Rightarrow> duration option \<times> in_flight_deadlines" where
  "deadlines_remove e ds =
     (let taken = (if e < length ds then ds[e := None] else ds)
      in (deadlines_get e ds, rev (dropWhile (\<lambda>d. d = None) (rev taken))))"

definition deadlines_is_empty :: "in_flight_deadlines \<Rightarrow> bool" where
  "deadlines_is_empty ds \<longleftrightarrow> list_all (\<lambda>d. d = None) ds"

fun deadlines_shortest :: "in_flight_deadlines \<Rightarrow> duration option" where
  "deadlines_shortest [] = None"
| "deadlines_shortest (None # ds) = deadlines_shortest ds"
| "deadlines_shortest (Some d # ds) = (case deadlines_shortest ds of None \<Rightarrow> Some d | Some x \<Rightarrow> Some (min d x))"

fun deadlines_from_iter :: "(exchange_index \<times> duration) list \<Rightarrow> in_flight_deadlines \<Rightarrow> in_flight_deadlines option" where
  "deadlines_from_iter [] ds = Some ds"
| "deadlines_from_iter ((e, d) # xs) ds = do { ds' \<leftarrow> deadlines_with e d ds; deadlines_from_iter xs ds' }"

section \<open>The watch\<close>

datatype in_flight_request = OpenRequest | CancelRequest

record 'i in_flight_overdue =
  iv_key :: "(exchange_index, 'i) order_key"
  iv_request :: in_flight_request
  iv_time_sent :: time
  iv_deadline :: duration
  iv_elapsed :: duration

record in_flight_watch =
  iw_deadlines :: in_flight_deadlines
  iw_shortest :: "duration option"
  iw_sends :: "time \<rightharpoonup> engine_instant"
  iw_last_scan :: "engine_instant option"
  iw_next_scan :: "engine_instant option"

definition watch_new :: "in_flight_deadlines \<Rightarrow> in_flight_watch" where
  "watch_new ds = (let shortest = deadlines_shortest ds in
     \<lparr>iw_deadlines = ds, iw_shortest = shortest, iw_sends = Map.empty, iw_last_scan = None,
      iw_next_scan = map_option (\<lambda>_. 0) shortest\<rparr>)"

definition earlier_of :: "engine_instant option \<Rightarrow> engine_instant \<Rightarrow> engine_instant option" where
  "earlier_of x y = Some (case x of None \<Rightarrow> y | Some z \<Rightarrow> min z y)"

definition watch_on_sent :: "time \<Rightarrow> engine_instant \<Rightarrow> in_flight_watch \<Rightarrow> in_flight_watch" where
  "watch_on_sent time_sent instant_sent w =
     (case iw_shortest w of
        None \<Rightarrow> w
      | Some shortest \<Rightarrow>
          w\<lparr>iw_sends := (iw_sends w)(time_sent \<mapsto> (case iw_sends w time_sent of None \<Rightarrow> instant_sent | Some x \<Rightarrow> min x instant_sent)),
            iw_next_scan := earlier_of (iw_next_scan w) (instant_sent + int shortest)\<rparr>)"

fun in_flight_request_of :: "active_order_state \<Rightarrow> in_flight_request option" where
  "in_flight_request_of (OpenInFlight _) = Some OpenRequest"
| "in_flight_request_of (CancelInFlight _) = Some CancelRequest"
| "in_flight_request_of (Open _) = None"

text \<open>What a scan keeps as it goes: the sends still held, the next scan, and the overdue requests.\<close>

type_synonym 'i scan = "(time \<rightharpoonup> engine_instant) \<times> engine_instant option \<times> 'i in_flight_overdue list"

definition scan_order ::
  "in_flight_watch \<Rightarrow> engine_instant \<Rightarrow> time \<Rightarrow> (exchange_index, 'i) active_order \<Rightarrow> 'i scan \<Rightarrow> 'i scan" where
  "scan_order w now time_now ord s =
     (case s of (held, next_scan, overdue) \<Rightarrow>
      case in_flight_request_of (o_state ord) of
        None \<Rightarrow> s
      | Some request \<Rightarrow>
      (case (active_time_sent (o_state ord), deadlines_get (key_exchange (o_key ord)) (iw_deadlines w)) of
        (Some time_sent, Some deadline) \<Rightarrow>
          let sent = (case held time_sent of
                Some x \<Rightarrow> x
              | None \<Rightarrow> (case iw_sends w time_sent of
                    Some x \<Rightarrow> x
                  | None \<Rightarrow> now - int (to_std_or_zero (time_now - time_sent))));
              held' = held(time_sent \<mapsto> sent);
              due = sent + int deadline
          in if now < due then (held', earlier_of next_scan due, overdue)
             else if (case iw_last_scan w of None \<Rightarrow> True | Some l \<Rightarrow> l < due) then
               (held', next_scan, overdue @ [\<lparr>iv_key = o_key ord, iv_request = request, iv_time_sent = time_sent,
                  iv_deadline = deadline, iv_elapsed = saturating_duration_since now sent\<rparr>])
             else (held', next_scan, overdue)
      | _ \<Rightarrow> s))"

definition overdue_key :: "'i in_flight_overdue \<Rightarrow> time \<times> client_order_id" where
  "overdue_key v = (iv_time_sent v, key_cid (iv_key v))"

text \<open>The orders of one instrument, whose overdue requests are put in order.\<close>

definition scan_instrument ::
  "in_flight_watch \<Rightarrow> engine_instant \<Rightarrow> time \<Rightarrow> (exchange_index, 'i) active_order list \<Rightarrow> 'i scan \<Rightarrow> 'i scan" where
  "scan_instrument w now time_now ords s =
     (case s of (held, next_scan, overdue) \<Rightarrow>
      case fold (scan_order w now time_now) ords (held, next_scan, []) of
        (held', next', found) \<Rightarrow> (held', next', overdue @ sort_key overdue_key found))"

definition watch_check ::
  "engine_instant \<Rightarrow> time \<Rightarrow> (exchange_index, 'i) active_order list list \<Rightarrow> in_flight_watch
     \<Rightarrow> 'i in_flight_overdue list \<times> in_flight_watch" where
  "watch_check now time_now instruments w =
     (case iw_next_scan w of
        None \<Rightarrow> ([], w)
      | Some next_scan \<Rightarrow>
          if now < next_scan then ([], w)
          else (case fold (scan_instrument w now time_now) instruments (Map.empty, None, []) of
              (held, next', overdue) \<Rightarrow>
                (overdue, w\<lparr>iw_last_scan := Some (case iw_last_scan w of None \<Rightarrow> now | Some l \<Rightarrow> max l now),
                  iw_next_scan := next', iw_sends := held\<rparr>)))"

end
