(* ===== verification/In_Flight_Laws.thy ===== *)
theory In_Flight_Laws
  imports In_Flight
begin

text \<open>
  What an engine may rely on of an unanswered request: the lookups of an open conclude it was never
  placed only on an unbroken run of late enough answers, they end before the request's deadline, and
  the watch, which reads the orders only when one can be due, flags exactly the requests that are in
  flight at the first check at or past their deadline.
\<close>

section \<open>Lookups\<close>

text \<open>What the lookups are answered, with the times of the answers.\<close>

fun lookup_answers ::
  "lookup_policy \<Rightarrow> duration \<Rightarrow> (duration \<Rightarrow> duration \<times> ('l, 'd) venue_order_status option) \<Rightarrow> nat list \<Rightarrow> duration
     \<Rightarrow> (duration \<times> ('l, 'd) venue_order_status option) list" where
  "lookup_answers p T fetch [] t = []"
| "lookup_answers p T fetch (k # ks) t =
     (let a = timed_fetch T fetch (t + lookup_delay p k) in a # lookup_answers p T fetch ks (fst a))"

definition unknowns_in :: "(duration \<times> ('l, 'd) venue_order_status option) list \<Rightarrow> bool" where
  "unknowns_in as \<longleftrightarrow> (\<forall>a \<in> set as. snd a = Some UnknownOrder)"

definition late_answers :: "lookup_policy \<Rightarrow> (duration \<times> ('l, 'd) venue_order_status option) list \<Rightarrow> nat" where
  "late_answers p as = length (filter (\<lambda>a. lp_grace p \<le> fst a) as)"

definition unfound :: "(duration \<times> ('l, 'd) venue_order_status option) list \<Rightarrow> bool" where
  "unfound as \<longleftrightarrow> (\<forall>a \<in> set as. snd a = Some UnknownOrder \<or> snd a = None)"

lemma unfound_Cons: "unfound (a # as) \<longleftrightarrow> (snd a = Some UnknownOrder \<or> snd a = None) \<and> unfound as"
  by (simp add: unfound_def)

lemma unknowns_in_Cons: "unknowns_in (a # as) \<longleftrightarrow> snd a = Some UnknownOrder \<and> unknowns_in as"
  by (simp add: unknowns_in_def)

lemma never_placed_run:
  assumes "look_up_from p T fetch ks n t = (NeverPlaced, e)"
  shows "\<exists>before run after. lookup_answers p T fetch ks t = before @ run @ after \<and> unfound before \<and> unknowns_in run \<and>
    run \<noteq> [] \<and> fst (last run) = e \<and> lp_grace p \<le> e \<and>
    max 1 (lp_unknowns_to_conclude p) \<le> late_answers p run + (if before = [] then n else 0)"
  using assms
proof (induction ks arbitrary: n t)
  case (Cons k ks)
  obtain t' a where a: "timed_fetch T fetch (t + lookup_delay p k) = (t', a)" by fastforce
  let ?rest = "lookup_answers p T fetch ks t'"
  have answers: "lookup_answers p T fetch (k # ks) t = (t', a) # ?rest" by (simp add: a Let_def)
  show ?case
  proof (cases a)
    case None
    with Cons.prems a have "look_up_from p T fetch ks 0 t' = (NeverPlaced, e)" by simp
    from Cons.IH [OF this] obtain before run after where ih: "?rest = before @ run @ after" "unfound before" "unknowns_in run"
      "run \<noteq> []" "fst (last run) = e" "lp_grace p \<le> e" "max 1 (lp_unknowns_to_conclude p) \<le> late_answers p run"
      by (auto split: if_splits)
    with None answers show ?thesis
      by (intro exI [of _ "(t', a) # before"] exI [of _ run] exI [of _ after]) (simp add: unfound_Cons)
  next
    case (Some s)
    with Cons.prems a have s: "s = UnknownOrder" by (auto split: venue_order_status.splits)
    show ?thesis
    proof (cases "lp_grace p \<le> t' \<and> max 1 (lp_unknowns_to_conclude p) \<le> n + 1")
      case True
      with Cons.prems a Some s have "e = t'" by simp
      with True Some s answers show ?thesis
        by (intro exI [of _ "[]"] exI [of _ "[(t', a)]"] exI [of _ ?rest])
          (simp add: unknowns_in_def unfound_def late_answers_def)
    next
      case False
      define m where "m = (if lp_grace p \<le> t' then n + 1 else n)"
      with False Cons.prems a Some s have "look_up_from p T fetch ks m t' = (NeverPlaced, e)"
        by (auto split: if_splits)
      from Cons.IH [OF this] obtain before run after where ih: "?rest = before @ run @ after" "unfound before" "unknowns_in run"
        "run \<noteq> []" "fst (last run) = e" "lp_grace p \<le> e"
        "max 1 (lp_unknowns_to_conclude p) \<le> late_answers p run + (if before = [] then m else 0)" by blast
      show ?thesis
      proof (cases "before = []")
        case True
        with ih answers Some s show ?thesis
          by (intro exI [of _ "[]"] exI [of _ "(t', a) # run"] exI [of _ after])
            (simp add: unknowns_in_Cons unfound_def late_answers_def m_def split: if_splits)
      next
        case False
        with ih answers Some s show ?thesis
          by (intro exI [of _ "(t', a) # before"] exI [of _ run] exI [of _ after]) (simp add: unfound_Cons)
      qed
    qed
  qed
qed simp

lemma look_up_found:
  "look_up_from p T fetch ks n t = (FoundLive x, e) \<Longrightarrow> (e, Some (LiveOrder x)) \<in> set (lookup_answers p T fetch ks t)"
  "look_up_from p T fetch ks n t = (FoundEnded y, e) \<Longrightarrow> (e, Some (EndedOrder y)) \<in> set (lookup_answers p T fetch ks t)"
  by (induction ks arbitrary: n t) (auto simp: Let_def split: prod.splits option.splits venue_order_status.splits if_splits)

text \<open>C30: An open is concluded never placed only on the evidence the policy asks for: the lookups found it nowhere, and ended with a run of answers, unbroken by a failed lookup, that all say the venue does not know the order, of which at least the configured number (one at the least) came after the grace period, the last at the moment of the conclusion; and what is reported as found, live or ended, is an answer the venue gave.\<close>
theorem lookups_conclude_on_evidence:
  assumes "look_up_unknown_outcome p T fetch start = (out, e)"
  shows "case out of
      NeverPlaced \<Rightarrow> (\<exists>before run after. lookup_answers p T fetch [0..<lp_attempts p] start = before @ run @ after \<and>
        unfound before \<and> unknowns_in run \<and> run \<noteq> [] \<and> fst (last run) = e \<and> lp_grace p \<le> e \<and>
        max 1 (lp_unknowns_to_conclude p) \<le> late_answers p run)
    | FoundLive x \<Rightarrow> (e, Some (LiveOrder x)) \<in> set (lookup_answers p T fetch [0..<lp_attempts p] start)
    | FoundEnded y \<Rightarrow> (e, Some (EndedOrder y)) \<in> set (lookup_answers p T fetch [0..<lp_attempts p] start)
    | Exhausted \<Rightarrow> True"
proof (cases out)
  case NeverPlaced
  with assms never_placed_run [of p T fetch "[0..<lp_attempts p]" 0 start e]
  show ?thesis by (auto simp: look_up_unknown_outcome_def)
qed (use assms look_up_found in \<open>auto simp: look_up_unknown_outcome_def\<close>)

section \<open>The longest the lookups take\<close>

definition lookup_span :: "lookup_policy \<Rightarrow> duration \<Rightarrow> nat list \<Rightarrow> nat" where
  "lookup_span p T ks = sum_list (map (\<lambda>k. dur_add (lookup_delay p k) T) ks)"

lemma dur_add_min: "dur_add (min duration_max a) (min duration_max b) = min duration_max (a + b)"
  by (simp add: dur_add_def)

lemma fold_dur_add: "foldl dur_add (min duration_max a) xs = min duration_max (a + sum_list xs)"
proof (induction xs arbitrary: a)
  case (Cons x xs)
  have "dur_add (min duration_max a) x = min duration_max (a + x)" by (simp add: dur_add_def)
  with Cons [of "a + x"] show ?case by (simp add: add.assoc)
qed simp

lemma delay_level: "32 \<le> k \<Longrightarrow> lookup_delay p k = lookup_delay p 32"
  by (simp add: lookup_delay_def)

lemma lookup_span_level:
  "32 \<le> m \<Longrightarrow> lookup_span p T [m..<m + n] = dur_add (lookup_delay p 32) T * n"
proof (induction n)
  case (Suc n)
  with delay_level [of "m + n"] show ?case by (simp add: lookup_span_def)
qed (simp add: lookup_span_def)

lemma lookup_longest_eq: "lookup_longest p T = min duration_max (lookup_span p T [0..<lp_attempts p])"
proof -
  let ?n = "min (lp_attempts p) 32"
  have split: "lookup_span p T [0..<lp_attempts p] = lookup_span p T [0..<?n] + dur_add (lookup_delay p 32) T * (lp_attempts p - ?n)"
  proof (cases "lp_attempts p \<le> 32")
    case False
    then have "[0..<lp_attempts p] = [0..<32] @ [32..<32 + (lp_attempts p - 32)]"
      using upt_add_eq_append [of 0 32 "lp_attempts p - 32"] by simp
    with False lookup_span_level [of 32 p T "lp_attempts p - 32"] show ?thesis
      by (simp add: lookup_span_def min_def)
  qed simp
  have "foldl dur_add 0 (map (\<lambda>k. dur_add (lookup_delay p k) T) [0..<?n]) = min duration_max (lookup_span p T [0..<?n])"
    using fold_dur_add [of 0] by (simp add: lookup_span_def)
  then show ?thesis
    by (simp add: lookup_longest_def Let_def dur_mul_def dur_add_min split)
qed

lemma timed_fetch_time: "timed_fetch T fetch t = (t', a) \<Longrightarrow> t' \<le> t + T"
  by (auto simp: timed_fetch_def split: prod.splits if_splits)

lemma look_up_time:
  assumes "look_up_from p T fetch ks n t = (out, e)" and "t + lookup_span p T ks < duration_max"
  shows "e \<le> t + lookup_span p T ks"
  using assms
proof (induction ks arbitrary: n t)
  case (Cons k ks)
  obtain t' a where a: "timed_fetch T fetch (t + lookup_delay p k) = (t', a)" by fastforce
  have "dur_add (lookup_delay p k) T < duration_max" using Cons.prems(2) by (simp add: lookup_span_def)
  then have d: "dur_add (lookup_delay p k) T = lookup_delay p k + T" by (simp add: dur_add_def min_def split: if_splits)
  with timed_fetch_time [OF a] have t': "t' + lookup_span p T ks \<le> t + lookup_span p T (k # ks)" by (simp add: lookup_span_def)
  from Cons.prems(1) a consider "e = t'" | m where "look_up_from p T fetch ks m t' = (out, e)"
    by (auto split: option.splits venue_order_status.splits if_splits)
  then show ?case
  proof cases
    case 1
    with t' show ?thesis by simp
  next
    case 2
    from Cons.IH [OF this] t' Cons.prems(2) show ?thesis by linarith
  qed
qed simp

text \<open>C31: The lookups of an open end before its deadline: when the outcome comes back unknown within the request timeout, and each lookup is given that timeout, whatever the client answers and however late, the lookups end at least the margin of five seconds before the deadline the engine is given for the exchange, unless that deadline is the longest a duration can be.\<close>
theorem lookups_end_before_the_deadline:
  assumes "look_up_unknown_outcome p request_timeout fetch start = (out, e)"
    and "start \<le> request_timeout" and "deadline_for request_timeout p < duration_max"
  shows "e + request_timeout_margin \<le> deadline_for request_timeout p"
proof -
  let ?s = "lookup_span p request_timeout [0..<lp_attempts p]"
  have "deadline_for request_timeout p = min duration_max (request_timeout + ?s + request_timeout_margin)"
    by (simp add: deadline_for_def lookup_longest_eq dur_add_def min_def)
  with assms(3) have d: "deadline_for request_timeout p = request_timeout + ?s + request_timeout_margin"
    and "request_timeout + ?s < duration_max" by (simp_all add: min_def split: if_splits)
  with assms(1,2) look_up_time [of p request_timeout fetch "[0..<lp_attempts p]" 0 start out e]
  show ?thesis by (simp add: look_up_unknown_outcome_def)
qed

section \<open>The deadlines of the exchanges\<close>

definition positive :: "in_flight_deadlines \<Rightarrow> bool" where
  "positive ds \<longleftrightarrow> (\<forall>d. Some d \<in> set ds \<longrightarrow> 0 < d)"

lemma deadlines_get_mem: "deadlines_get e ds = Some d \<Longrightarrow> Some d \<in> set ds"
  by (auto simp: deadlines_get_def split: if_splits) (metis nth_mem)

lemma insert_positive: "positive ds \<Longrightarrow> deadlines_insert e d ds = Some ds' \<Longrightarrow> positive ds'"
  by (auto simp: positive_def deadlines_insert_def split: if_splits dest!: subsetD [OF set_update_subset_insert])

lemma from_iter_positive: "deadlines_from_iter xs ds = Some ds' \<Longrightarrow> positive ds \<Longrightarrow> positive ds'"
  by (induction xs ds rule: deadlines_from_iter.induct) (auto simp: bind_eq_Some_conv deadlines_with_def dest: insert_positive)

lemma shortest_least:
  "Some d \<in> set ds \<Longrightarrow> \<exists>s. deadlines_shortest ds = Some s \<and> s \<le> d"
  by (induction ds rule: deadlines_shortest.induct) (auto split: option.splits)

section \<open>The watch\<close>

text \<open>
  What the engine does to a watch: it sends requests, on some exchanges, under one time stamp, and it
  checks the orders it tracks, instrument by instrument. \<open>inst\<close> gives the instant a stamp was taken at.
\<close>

datatype 'i watch_step =
    SendStep time "exchange_index list"
  | CheckStep engine_instant time "(exchange_index, 'i) active_order list list"

fun watch_run :: "(time \<Rightarrow> engine_instant) \<Rightarrow> 'i watch_step list \<Rightarrow> in_flight_watch \<Rightarrow> 'i in_flight_overdue list list" where
  "watch_run inst [] w = []"
| "watch_run inst (SendStep t es # xs) w = watch_run inst xs (watch_on_sent t (inst t) w)"
| "watch_run inst (CheckStep now time_now oss # xs) w =
     (case watch_check now time_now oss w of (out, w') \<Rightarrow> out # watch_run inst xs w')"

text \<open>The requests in flight that have a deadline, as their stamps and exchanges.\<close>

definition awaiting :: "in_flight_deadlines \<Rightarrow> (exchange_index, 'i) active_order list list \<Rightarrow> (time \<times> exchange_index) set" where
  "awaiting ds oss = {(t, e). \<exists>ord \<in> set (concat oss). active_time_sent (o_state ord) = Some t \<and>
     key_exchange (o_key ord) = e \<and> deadlines_get e ds \<noteq> None}"

text \<open>
  A history of one engine: its instants never move back, and a request found in flight was sent
  before, and was in flight at every check since.
\<close>

fun watch_history ::
  "in_flight_deadlines \<Rightarrow> (time \<Rightarrow> engine_instant) \<Rightarrow> (time \<times> exchange_index) set \<Rightarrow> engine_instant \<Rightarrow> 'i watch_step list \<Rightarrow> bool" where
  "watch_history ds inst S now [] \<longleftrightarrow> True"
| "watch_history ds inst S now (SendStep t es # xs) \<longleftrightarrow>
     now \<le> inst t \<and> watch_history ds inst (S \<union> {t} \<times> set es) (inst t) xs"
| "watch_history ds inst S now (CheckStep now' time_now oss # xs) \<longleftrightarrow>
     now \<le> now' \<and> awaiting ds oss \<subseteq> S \<and> watch_history ds inst (awaiting ds oss) now' xs"

text \<open>
  The specification: a request is flagged by the first check at or past its deadline, counted from
  the instant it was sent, if it is in flight then. \<open>seen\<close> are the instants of the checks before.
\<close>

definition due_of :: "in_flight_deadlines \<Rightarrow> (time \<Rightarrow> engine_instant) \<Rightarrow> time \<Rightarrow> exchange_index \<Rightarrow> engine_instant" where
  "due_of ds inst t e = inst t + int (case deadlines_get e ds of None \<Rightarrow> 0 | Some d \<Rightarrow> d)"

definition newly_overdue ::
  "in_flight_deadlines \<Rightarrow> (time \<Rightarrow> engine_instant) \<Rightarrow> engine_instant list \<Rightarrow> engine_instant
     \<Rightarrow> (exchange_index, 'i) active_order \<Rightarrow> 'i in_flight_overdue option" where
  "newly_overdue ds inst seen now ord =
     (case (in_flight_request_of (o_state ord), active_time_sent (o_state ord), deadlines_get (key_exchange (o_key ord)) ds) of
        (Some request, Some t, Some d) \<Rightarrow>
          let due = inst t + int d in
          if due \<le> now \<and> (\<forall>p \<in> set seen. p < due) then
            Some \<lparr>iv_key = o_key ord, iv_request = request, iv_time_sent = t, iv_deadline = d,
              iv_elapsed = saturating_duration_since now (inst t)\<rparr>
          else None
      | _ \<Rightarrow> None)"

fun eager_run ::
  "in_flight_deadlines \<Rightarrow> (time \<Rightarrow> engine_instant) \<Rightarrow> engine_instant list \<Rightarrow> 'i watch_step list \<Rightarrow> 'i in_flight_overdue list list" where
  "eager_run ds inst seen [] = []"
| "eager_run ds inst seen (SendStep t es # xs) = eager_run ds inst seen xs"
| "eager_run ds inst seen (CheckStep now time_now oss # xs) =
     concat (map (\<lambda>os. sort_key overdue_key (List.map_filter (newly_overdue ds inst seen now) os)) oss) #
       eager_run ds inst (now # seen) xs"

text \<open>The watch against the requests that can still be in flight, and the checks made so far.\<close>

definition logs :: "(time \<Rightarrow> engine_instant) \<Rightarrow> (time \<rightharpoonup> engine_instant) \<Rightarrow> bool" where
  "logs inst m \<longleftrightarrow> (\<forall>t x. m t = Some x \<longrightarrow> x = inst t)"

definition scan_by :: "engine_instant option \<Rightarrow> engine_instant \<Rightarrow> bool" where
  "scan_by next_scan due \<longleftrightarrow> (\<exists>n \<le> due. next_scan = Some n)"

definition watch_ok ::
  "in_flight_deadlines \<Rightarrow> (time \<Rightarrow> engine_instant) \<Rightarrow> (time \<times> exchange_index) set \<Rightarrow> engine_instant
     \<Rightarrow> engine_instant list \<Rightarrow> in_flight_watch \<Rightarrow> bool" where
  "watch_ok ds inst S now seen w \<longleftrightarrow>
     iw_deadlines w = ds \<and> iw_shortest w = deadlines_shortest ds \<and> 0 \<le> now \<and> (\<forall>p \<in> set seen. p \<le> now) \<and>
     logs inst (iw_sends w) \<and> (\<forall>(t, e) \<in> S. deadlines_get e ds \<noteq> None \<longrightarrow> iw_sends w t \<noteq> None) \<and>
     (case iw_last_scan w of
        None \<Rightarrow> seen = [] \<and> scan_by (iw_next_scan w) 0
      | Some l \<Rightarrow> l \<in> set seen \<and>
          (\<forall>(t, e) \<in> S. deadlines_get e ds \<noteq> None \<longrightarrow> l < due_of ds inst t e \<longrightarrow>
            (\<forall>p \<in> set seen. p < due_of ds inst t e) \<and> scan_by (iw_next_scan w) (due_of ds inst t e)))"

lemma scan_by_earlier: "scan_by (earlier_of x y) due \<longleftrightarrow> scan_by x due \<or> y \<le> due"
  by (auto simp: scan_by_def earlier_of_def min_def split: option.splits)

lemma due_after:
  assumes "positive ds" and "deadlines_shortest ds = Some s" and "deadlines_get e ds \<noteq> None"
  shows "inst t + int s \<le> due_of ds inst t e" and "inst t < due_of ds inst t e"
proof -
  obtain d where d: "deadlines_get e ds = Some d" using assms(3) by auto
  then have "Some d \<in> set ds" by (rule deadlines_get_mem)
  with shortest_least [of d ds] assms(1,2) d show "inst t + int s \<le> due_of ds inst t e" "inst t < due_of ds inst t e"
    by (auto simp: due_of_def positive_def)
qed

lemma watch_sent_ok:
  assumes ok: "watch_ok ds inst S now seen w" and pos: "positive ds" and some: "deadlines_shortest ds = Some s"
    and later: "now \<le> inst t"
  shows "watch_ok ds inst (S \<union> {t} \<times> set es) (inst t) seen (watch_on_sent t (inst t) w)"
proof -
  note k = ok [unfolded watch_ok_def] and due = due_after [OF pos some]
  let ?w = "watch_on_sent t (inst t) w"
  have w: "iw_deadlines ?w = ds" "iw_shortest ?w = deadlines_shortest ds" "iw_last_scan ?w = iw_last_scan w"
    "iw_next_scan ?w = earlier_of (iw_next_scan w) (inst t + int s)"
    "iw_sends ?w = (iw_sends w)(t \<mapsto> inst t)"
    using k some by (auto simp: watch_on_sent_def logs_def split: option.splits)
  have "\<forall>p \<in> set seen. p < due_of ds inst t e" if "deadlines_get e ds \<noteq> None" for e
    using due(2) [OF that, of inst t] k later by force
  with k w due(1) later show ?thesis
    by (auto simp: watch_ok_def logs_def scan_by_earlier split: option.splits)
qed

lemma awaiting_get: "(t, e) \<in> awaiting ds oss \<Longrightarrow> deadlines_get e ds \<noteq> None"
  by (auto simp: awaiting_def)

definition scanned ::
  "in_flight_deadlines \<Rightarrow> (time \<Rightarrow> engine_instant) \<Rightarrow> engine_instant \<Rightarrow> (time \<times> exchange_index) set
     \<Rightarrow> (time \<rightharpoonup> engine_instant) \<Rightarrow> engine_instant option \<Rightarrow> bool" where
  "scanned ds inst now T held next_scan \<longleftrightarrow> logs inst held \<and>
     (\<forall>(t, e) \<in> T. held t \<noteq> None \<and> (now < due_of ds inst t e \<longrightarrow> scan_by next_scan (due_of ds inst t e)))"

lemma scan_order_step:
  assumes ok: "watch_ok ds inst S now0 seen w" and "awaiting ds [[ord]] \<subseteq> S" and scanned: "scanned ds inst now T held nx"
  obtains held' nx' where "scan_order w now time_now ord (held, nx, out) =
      (held', nx', out @ List.map_filter (newly_overdue ds inst seen now) [ord])"
    and "scanned ds inst now (T \<union> awaiting ds [[ord]]) held' nx'"
proof (cases "awaiting ds [[ord]] = {}")
  case True
  then have "newly_overdue ds inst seen now ord = None" and "scan_order w now time_now ord (held, nx, out) = (held, nx, out)"
    using ok by (auto simp: newly_overdue_def scan_order_def awaiting_def watch_ok_def split: option.splits)
  with True scanned that show ?thesis by (simp add: List.map_filter_def)
next
  case False
  then obtain t e where te: "(t, e) \<in> awaiting ds [[ord]]" by auto
  then obtain d where d: "deadlines_get e ds = Some d" "key_exchange (o_key ord) = e" "active_time_sent (o_state ord) = Some t"
    by (auto simp: awaiting_def)
  then have awaiting: "awaiting ds [[ord]] = {(t, e)}" by (auto simp: awaiting_def)
  obtain r where r: "in_flight_request_of (o_state ord) = Some r" using d(3) by (cases "o_state ord") auto
  note k = ok [unfolded watch_ok_def]
  have S: "(t, e) \<in> S" using assms(2) te by blast
  let ?due = "due_of ds inst t e"
  have due: "?due = inst t + int d" using d(1) by (simp add: due_of_def)
  have "iw_sends w t = Some (inst t)" using k S d(1) by (fastforce simp: logs_def)
  moreover have "held t = None \<or> held t = Some (inst t)" using scanned by (cases "held t") (auto simp: scanned_def logs_def)
  ultimately have sent: "(case held t of Some x \<Rightarrow> x | None \<Rightarrow> (case iw_sends w t of Some x \<Rightarrow> x
      | None \<Rightarrow> now - int (to_std_or_zero (time_now - t)))) = inst t" by auto
  have new: "(case iw_last_scan w of None \<Rightarrow> True | Some l \<Rightarrow> l < ?due) \<longleftrightarrow> (\<forall>p \<in> set seen. p < ?due)"
    using k S d(1) by (fastforce split: option.splits)
  have newly: "newly_overdue ds inst seen now ord = (if ?due \<le> now \<and> (\<forall>p \<in> set seen. p < ?due) then
      Some \<lparr>iv_key = o_key ord, iv_request = r, iv_time_sent = t, iv_deadline = d,
        iv_elapsed = saturating_duration_since now (inst t)\<rparr> else None)"
    using d r by (simp add: newly_overdue_def Let_def due)
  have ds: "iw_deadlines w = ds" using k by simp
  have "scan_order w now time_now ord (held, nx, out) =
      (if now < ?due then (held(t \<mapsto> inst t), earlier_of nx ?due, out)
       else if \<forall>p \<in> set seen. p < ?due then (held(t \<mapsto> inst t), nx, out @ [\<lparr>iv_key = o_key ord, iv_request = r,
         iv_time_sent = t, iv_deadline = d, iv_elapsed = saturating_duration_since now (inst t)\<rparr>])
       else (held(t \<mapsto> inst t), nx, out))"
    unfolding scan_order_def prod.case r option.case d(3) d(2) ds d(1) Let_def sent due [symmetric] new by (rule refl)
  then have "scan_order w now time_now ord (held, nx, out) = (held(t \<mapsto> inst t), if now < ?due then earlier_of nx ?due else nx,
      out @ List.map_filter (newly_overdue ds inst seen now) [ord])"
    using newly by (simp add: List.map_filter_def)
  moreover have "scanned ds inst now (T \<union> awaiting ds [[ord]]) (held(t \<mapsto> inst t)) (if now < ?due then earlier_of nx ?due else nx)"
    using scanned by (auto simp: scanned_def logs_def awaiting scan_by_earlier)
  ultimately show ?thesis by (rule that)
qed

lemma awaiting_Cons: "awaiting ds ((x # xs) # oss) = awaiting ds [[x]] \<union> awaiting ds (xs # oss)"
  by (auto simp: awaiting_def)

lemma awaiting_Nil [simp]: "awaiting ds [] = {}" "awaiting ds ([] # oss) = awaiting ds oss"
  by (auto simp: awaiting_def)

lemma awaiting_split: "awaiting ds (os # oss) = awaiting ds [os] \<union> awaiting ds oss"
  by (auto simp: awaiting_def)

lemma scan_orders:
  assumes ok: "watch_ok ds inst S now0 seen w"
  shows "awaiting ds [os] \<subseteq> S \<Longrightarrow> scanned ds inst now T held nx \<Longrightarrow>
    \<exists>held' nx'. fold (scan_order w now time_now) os (held, nx, out) =
        (held', nx', out @ List.map_filter (newly_overdue ds inst seen now) os) \<and>
      scanned ds inst now (T \<union> awaiting ds [os]) held' nx'"
proof (induction os arbitrary: T held nx out)
  case (Cons ord os)
  have sub: "awaiting ds [[ord]] \<subseteq> S" "awaiting ds [os] \<subseteq> S" using Cons.prems(1) awaiting_Cons [of ds ord os "[]"] by auto
  obtain held1 nx1 where 1: "scan_order w now time_now ord (held, nx, out) =
      (held1, nx1, out @ List.map_filter (newly_overdue ds inst seen now) [ord])"
    "scanned ds inst now (T \<union> awaiting ds [[ord]]) held1 nx1"
    using scan_order_step [OF ok sub(1) Cons.prems(2)] by blast
  from Cons.IH [OF sub(2) 1(2), of "out @ List.map_filter (newly_overdue ds inst seen now) [ord]"] 1(1) awaiting_Cons [of ds ord os "[]"]
  show ?case by (auto simp: List.map_filter_def Un_assoc)
qed (simp add: List.map_filter_def)

lemma scan_instruments:
  assumes ok: "watch_ok ds inst S now0 seen w"
  shows "awaiting ds oss \<subseteq> S \<Longrightarrow> scanned ds inst now T held nx \<Longrightarrow>
    \<exists>held' nx'. fold (scan_instrument w now time_now) oss (held, nx, out) =
        (held', nx', out @ concat (map (\<lambda>os. sort_key overdue_key (List.map_filter (newly_overdue ds inst seen now) os)) oss)) \<and>
      scanned ds inst now (T \<union> awaiting ds oss) held' nx'"
proof (induction oss arbitrary: T held nx out)
  case (Cons os oss)
  have sub: "awaiting ds [os] \<subseteq> S" "awaiting ds oss \<subseteq> S" using Cons.prems(1) awaiting_split [of ds os oss] by auto
  obtain held1 nx1 where 1: "fold (scan_order w now time_now) os (held, nx, []) =
      (held1, nx1, List.map_filter (newly_overdue ds inst seen now) os)"
    "scanned ds inst now (T \<union> awaiting ds [os]) held1 nx1"
    using scan_orders [OF ok sub(1) Cons.prems(2), of time_now "[]"] by auto
  let ?found = "sort_key overdue_key (List.map_filter (newly_overdue ds inst seen now) os)"
  have "scan_instrument w now time_now os (held, nx, out) = (held1, nx1, out @ ?found)"
    by (simp add: scan_instrument_def 1(1))
  with Cons.IH [OF sub(2) 1(2), of "out @ ?found"] awaiting_split [of ds os oss] show ?case
    by (simp add: Un_assoc)
qed simp

lemma nothing_new:
  assumes "\<And>ord. ord \<in> set (concat oss) \<Longrightarrow> newly_overdue ds inst seen now ord = None"
  shows "concat (map (\<lambda>os. sort_key overdue_key (List.map_filter (newly_overdue ds inst seen now) os)) oss) = []"
proof -
  have "List.map_filter (newly_overdue ds inst seen now) os = []" if "os \<in> set oss" for os
    using assms that by (force simp: List.map_filter_def filter_empty_conv)
  then show ?thesis by simp
qed

lemma watch_check_ok:
  assumes ok: "watch_ok ds inst S now0 seen w" and "now0 \<le> now" and sub: "awaiting ds oss \<subseteq> S"
    and out: "watch_check now time_now oss w = (out, w')"
  shows "out = concat (map (\<lambda>os. sort_key overdue_key (List.map_filter (newly_overdue ds inst seen now) os)) oss) \<and>
    watch_ok ds inst (awaiting ds oss) now (now # seen) w'"
proof -
  note k = ok [unfolded watch_ok_def]
  show ?thesis
  proof (cases "\<exists>n. iw_next_scan w = Some n \<and> n \<le> now")
    case True
    then obtain n where n: "iw_next_scan w = Some n" "n \<le> now" by blast
    have "scanned ds inst now {} Map.empty None" by (simp add: scanned_def logs_def)
    from scan_instruments [OF ok sub this, of time_now "[]"] obtain held nx where
      scan: "fold (scan_instrument w now time_now) oss (Map.empty, None, []) = (held, nx,
        concat (map (\<lambda>os. sort_key overdue_key (List.map_filter (newly_overdue ds inst seen now) os)) oss))"
      and held: "scanned ds inst now (awaiting ds oss) held nx" by auto
    have last: "(case iw_last_scan w of None \<Rightarrow> now | Some l \<Rightarrow> max l now) = now"
      using k assms(2) by (fastforce split: option.splits)
    have w': "w' = w\<lparr>iw_last_scan := Some now, iw_next_scan := nx, iw_sends := held\<rparr>"
      and o: "out = concat (map (\<lambda>os. sort_key overdue_key (List.map_filter (newly_overdue ds inst seen now) os)) oss)"
      using out n scan last by (simp_all add: watch_check_def)
    have "watch_ok ds inst (awaiting ds oss) now (now # seen) w'"
      using k held assms(2) by (force simp: watch_ok_def w' scanned_def)
    with o show ?thesis by simp
  next
    case False
    then have w': "w' = w" "out = []" using out by (auto simp: watch_check_def split: option.splits if_splits)
    obtain l where l: "iw_last_scan w = Some l"
      using False k assms(2) by (fastforce simp: scan_by_def split: option.splits)
    have later: "now < due_of ds inst t e" if "(t, e) \<in> S" "deadlines_get e ds \<noteq> None" "l < due_of ds inst t e" for t e
      using k l that False by (force simp: scan_by_def)
    have "newly_overdue ds inst seen now ord = None" if "ord \<in> set (concat oss)" for ord
    proof (rule ccontr)
      assume "newly_overdue ds inst seen now ord \<noteq> None"
      then obtain t d where td: "active_time_sent (o_state ord) = Some t" "deadlines_get (key_exchange (o_key ord)) ds = Some d"
        "inst t + int d \<le> now" "\<forall>p \<in> set seen. p < inst t + int d"
        by (auto simp: newly_overdue_def Let_def split: option.splits if_splits)
      with that have "(t, key_exchange (o_key ord)) \<in> awaiting ds oss" by (fastforce simp: awaiting_def)
      with sub have "(t, key_exchange (o_key ord)) \<in> S" by blast
      moreover have "due_of ds inst t (key_exchange (o_key ord)) = inst t + int d" using td(2) by (simp add: due_of_def)
      ultimately show False using later [of t "key_exchange (o_key ord)"] td l k by force
    qed
    then have "out = concat (map (\<lambda>os. sort_key overdue_key (List.map_filter (newly_overdue ds inst seen now) os)) oss)"
      using nothing_new [of oss] w'(2) by metis
    moreover have "watch_ok ds inst (awaiting ds oss) now (now # seen) w'"
      unfolding w'(1) watch_ok_def l
    proof (simp, intro conjI ballI impI)
      show "iw_deadlines w = ds" "iw_shortest w = deadlines_shortest ds" "0 \<le> now" "logs inst (iw_sends w)"
        using k assms(2) by auto
      show "p \<le> now" if "p \<in> set seen" for p using k that assms(2) by force
      show "l = now \<or> l \<in> set seen" using k l by simp
    next
      fix x assume x: "x \<in> awaiting ds oss"
      obtain t e where te: "x = (t, e)" by fastforce
      have S: "(t, e) \<in> S" and e: "deadlines_get e ds \<noteq> None" using x te sub awaiting_get by auto
      show "case x of (t, e) \<Rightarrow> (\<exists>y. deadlines_get e ds = Some y) \<longrightarrow> (\<exists>y. iw_sends w t = Some y)"
        using k S e te by force
      show "case x of (t, e) \<Rightarrow> (\<exists>y. deadlines_get e ds = Some y) \<longrightarrow> l < due_of ds inst t e \<longrightarrow>
          now < due_of ds inst t e \<and> (\<forall>p \<in> set seen. p < due_of ds inst t e) \<and> scan_by (iw_next_scan w) (due_of ds inst t e)"
        using k l S e te later [OF S e] by force
    qed
    ultimately show ?thesis by simp
  qed
qed

lemma watch_run_eager:
  assumes "watch_ok ds inst S now seen w" and "watch_history ds inst S now steps" and pos: "positive ds"
    and some: "deadlines_shortest ds = Some s"
  shows "watch_run inst steps w = eager_run ds inst seen steps"
  using assms(1,2)
proof (induction steps arbitrary: S now seen w)
  case (Cons x xs)
  show ?case
  proof (cases x)
    case (SendStep t es)
    with Cons.prems(2) have h: "now \<le> inst t" "watch_history ds inst (S \<union> {t} \<times> set es) (inst t) xs" by simp_all
    from Cons.IH [OF watch_sent_ok [OF Cons.prems(1) pos some h(1)] h(2)] show ?thesis by (simp add: SendStep)
  next
    case (CheckStep now' time_now oss)
    obtain out w' where out: "watch_check now' time_now oss w = (out, w')" by fastforce
    from Cons.prems(2) CheckStep have h: "now \<le> now'" "awaiting ds oss \<subseteq> S" "watch_history ds inst (awaiting ds oss) now' xs"
      by simp_all
    from watch_check_ok [OF Cons.prems(1) h(1,2) out] Cons.IH [OF _ h(3)] show ?thesis
      by (simp add: CheckStep out)
  qed
qed simp

lemma no_deadline_no_flag:
  assumes "deadlines_shortest ds = None" and "iw_shortest w = None" and "iw_next_scan w = None"
  shows "watch_run inst steps w = eager_run ds inst seen steps"
  using assms(2,3)
proof (induction steps arbitrary: w seen)
  case (Cons x xs)
  have "deadlines_get e ds = None" for e
    using shortest_least [of _ ds] assms(1) deadlines_get_mem [of e ds] by (cases "deadlines_get e ds") auto
  then have "newly_overdue ds inst seen now ord = None" for now and ord :: "(exchange_index, 'a) active_order"
    by (simp add: newly_overdue_def split: option.splits)
  from nothing_new [OF this] Cons show ?case
    by (cases x) (simp_all add: watch_on_sent_def watch_check_def)
qed simp

lemma deadlines_from_iter_positive: "deadlines_from_iter xs [] = Some ds \<Longrightarrow> positive ds"
  by (erule from_iter_positive) (simp add: positive_def)

lemma watch_is_eager:
  assumes "deadlines_from_iter limits [] = Some ds" and "watch_history ds inst {} 0 steps"
  shows "watch_run inst steps (watch_new ds) = eager_run ds inst [] steps"
proof (cases "deadlines_shortest ds")
  case None
  then show ?thesis by (intro no_deadline_no_flag) (simp_all add: watch_new_def Let_def)
next
  case (Some s)
  have "watch_ok ds inst {} 0 [] (watch_new ds)"
    using Some by (simp add: watch_ok_def watch_new_def Let_def logs_def scan_by_def)
  from watch_run_eager [OF this assms(2) deadlines_from_iter_positive [OF assms(1)] Some] show ?thesis .
qed

text \<open>C32: The watch flags each overdue request exactly when the specification says, though it looks at the orders only when one can be due: over any history of one engine whose monotonic reading never moves back, with every request in flight one the engine sent and has had in flight since, each check reports the requests in flight whose deadline, counted from the instant they were sent, is at or before the check and after every earlier check, instrument by instrument, in the order of their stamps and ids.\<close>
theorem watch_flags_at_the_deadline:
  assumes "deadlines_from_iter limits [] = Some ds" and "watch_history ds inst {} 0 steps"
  shows "watch_run inst steps (watch_new ds) = eager_run ds inst [] steps"
  using assms by (rule watch_is_eager)

lemma newly_overdue_span:
  assumes "newly_overdue ds inst seen now ord = Some v"
  shows "due_of ds inst (iv_time_sent v) (key_exchange (iv_key v)) \<le> now \<and>
    (\<forall>p \<in> set seen. p < due_of ds inst (iv_time_sent v) (key_exchange (iv_key v)))"
  using assms by (auto simp: newly_overdue_def due_of_def Let_def split: option.splits if_splits)

lemma eager_mem:
  assumes "v \<in> set (concat (map (\<lambda>os. sort_key overdue_key (List.map_filter (newly_overdue ds inst seen now) os)) oss))"
  shows "due_of ds inst (iv_time_sent v) (key_exchange (iv_key v)) \<le> now \<and>
    (\<forall>p \<in> set seen. p < due_of ds inst (iv_time_sent v) (key_exchange (iv_key v)))"
  using assms newly_overdue_span by (fastforce simp: List.map_filter_def)

lemma eager_after_seen:
  "j < length (eager_run ds inst seen steps) \<Longrightarrow> v \<in> set (eager_run ds inst seen steps ! j) \<Longrightarrow> p \<in> set seen \<Longrightarrow>
    p < due_of ds inst (iv_time_sent v) (key_exchange (iv_key v))"
proof (induction steps arbitrary: seen j)
  case (Cons x xs)
  show ?case
  proof (cases x)
    case (SendStep t es)
    with Cons show ?thesis by simp
  next
    case (CheckStep now time_now oss)
    with Cons.prems Cons.IH [of "j - 1" "now # seen"] eager_mem [of v ds inst seen now oss] show ?thesis
      by (cases j) auto
  qed
qed simp

lemma eager_once:
  "i < j \<Longrightarrow> j < length (eager_run ds inst seen steps) \<Longrightarrow> v \<in> set (eager_run ds inst seen steps ! i) \<Longrightarrow>
    u \<in> set (eager_run ds inst seen steps ! j) \<Longrightarrow>
    due_of ds inst (iv_time_sent v) (key_exchange (iv_key v)) < due_of ds inst (iv_time_sent u) (key_exchange (iv_key u))"
proof (induction steps arbitrary: seen i j)
  case (Cons x xs)
  show ?case
  proof (cases x)
    case (SendStep t es)
    with Cons show ?thesis by simp
  next
    case (CheckStep now time_now oss)
    show ?thesis
    proof (cases i)
      case 0
      with CheckStep Cons.prems have "due_of ds inst (iv_time_sent v) (key_exchange (iv_key v)) \<le> now"
        using eager_mem [of v ds inst seen now oss] by simp
      moreover have "now < due_of ds inst (iv_time_sent u) (key_exchange (iv_key u))"
        using CheckStep Cons.prems 0 eager_after_seen [of "j - 1" ds inst "now # seen" xs u now] by (cases j) auto
      ultimately show ?thesis by simp
    next
      case (Suc k)
      with CheckStep Cons.prems Cons.IH [of k "j - 1" "now # seen"] show ?thesis by (cases j) auto
    qed
  qed
qed simp

text \<open>No request is flagged twice: over any such history, two checks never report the same order under the same send stamp.\<close>
theorem watch_flags_once:
  assumes "deadlines_from_iter limits [] = Some ds" and "watch_history ds inst {} 0 steps"
    and "i < j" and "j < length (watch_run inst steps (watch_new ds))"
    and "v \<in> set (watch_run inst steps (watch_new ds) ! i)" and "u \<in> set (watch_run inst steps (watch_new ds) ! j)"
  shows "(iv_key v, iv_time_sent v) \<noteq> (iv_key u, iv_time_sent u)"
  using eager_once [of i j ds inst "[]" steps v u] assms(3-6) unfolding watch_is_eager [OF assms(1,2)] by auto

section \<open>A small history\<close>

definition flight_order :: "time \<Rightarrow> client_order_id \<Rightarrow> (exchange_index, nat) active_order" where
  "flight_order t c = \<lparr>o_key = \<lparr>key_exchange = 0, key_instrument = 1, key_strategy = ''s'', key_cid = c\<rparr>, o_side = Buy,
     o_price = None, o_quantity = 1, o_kind = Market, o_time_in_force = ImmediateOrCancel, o_state = OpenInFlight t\<rparr>"

definition flight_steps :: "nat watch_step list" where
  "flight_steps = (let tracked = [[flight_order 8 ''b'', flight_order 5 ''a'']] in
     [CheckStep 1 1 [], SendStep 5 [0], SendStep 8 [0], CheckStep 10 10 tracked, CheckStep 16 16 tracked, CheckStep 20 20 tracked])"

lemma sample_limits: "deadlines_from_iter [(0, 10)] [] = Some [Some 10]"
  by (simp add: deadlines_with_def deadlines_insert_def)

lemma sample_history: "watch_history [Some 10] id {} 0 flight_steps"
  by (auto simp: flight_steps_def flight_order_def awaiting_def deadlines_get_def Let_def)

definition sample_flag :: "time \<Rightarrow> client_order_id \<Rightarrow> duration \<Rightarrow> nat in_flight_overdue" where
  "sample_flag t c elapsed = \<lparr>iv_key = o_key (flight_order t c), iv_request = OpenRequest, iv_time_sent = t, iv_deadline = 10,
     iv_elapsed = elapsed\<rparr>"

lemma sample_eager: "eager_run [Some 10] id [] flight_steps = [[], [], [sample_flag 5 ''a'' 11], [sample_flag 8 ''b'' 12]]"
  by (simp add: flight_steps_def newly_overdue_def flight_order_def sample_flag_def deadlines_get_def List.map_filter_def Let_def
      saturating_duration_since_def)

lemma watch_flags_at_the_deadline_witness:
  "watch_run id flight_steps (watch_new [Some 10]) = [[], [], [sample_flag 5 ''a'' 11], [sample_flag 8 ''b'' 12]]"
  using watch_flags_at_the_deadline [OF sample_limits sample_history] sample_eager by simp

lemma watch_flags_once_witness:
  "sample_flag 5 ''a'' 11 \<in> set (watch_run id flight_steps (watch_new [Some 10]) ! 2) \<and>
    sample_flag 8 ''b'' 12 \<in> set (watch_run id flight_steps (watch_new [Some 10]) ! 3) \<and>
    (iv_key (sample_flag 5 ''a'' 11), iv_time_sent (sample_flag 5 ''a'' 11)) \<noteq>
      (iv_key (sample_flag 8 ''b'' 12), iv_time_sent (sample_flag 8 ''b'' 12))"
  using watch_flags_once [OF sample_limits sample_history, of 2 3 "sample_flag 5 ''a'' 11" "sample_flag 8 ''b'' 12"]
  unfolding watch_is_eager [OF sample_limits sample_history] sample_eager by simp

text \<open>A venue that does not know the order: every lookup answers so at once.\<close>

definition sample_fetch :: "duration \<Rightarrow> duration \<times> (nat, nat) venue_order_status option" where
  "sample_fetch t = (0, Some UnknownOrder)"

lemma five_lookups: "[0..<5] = [0, 1, 2, 3, 4 :: nat]"
  by code_simp

lemma sample_delays:
  "lookup_delay lookup_default 0 = 1000000000" "lookup_delay lookup_default 1 = 2000000000"
  "lookup_delay lookup_default 2 = 4000000000" "lookup_delay lookup_default 3 = 8000000000"
  "lookup_delay lookup_default 4 = 16000000000"
  by (simp_all add: lookup_delay_def lookup_default_def dur_mul_def duration_max_def seconds_def)

lemma sample_attempts: "[0..<lp_attempts lookup_default] = [0, 1, 2, 3, 4]" "lp_grace lookup_default = 5000000000"
    "lp_unknowns_to_conclude lookup_default = 3" "lp_attempts lookup_default = 5"
  by (simp_all add: lookup_default_def five_lookups seconds_def)

lemma sample_lookup: "look_up_unknown_outcome lookup_default (seconds 10) sample_fetch (seconds 10) = (NeverPlaced, seconds 17)"
  by (simp add: look_up_unknown_outcome_def sample_attempts five_lookups timed_fetch_def sample_fetch_def sample_delays seconds_def
      del: upt.simps One_nat_def)

lemma sample_longest: "lookup_longest lookup_default 10000000000 = 81000000000"
  by (simp add: lookup_longest_def sample_attempts five_lookups sample_delays dur_add_def dur_mul_def duration_max_def seconds_def
      Let_def del: upt.simps One_nat_def)

lemma sample_deadline: "deadline_for (seconds 10) lookup_default = seconds 96"
  by (simp add: deadline_for_def sample_longest dur_add_def duration_max_def seconds_def request_timeout_margin_def)

lemma lookups_end_before_the_deadline_witness:
  "seconds 17 + request_timeout_margin \<le> deadline_for (seconds 10) lookup_default \<and>
    deadline_for (seconds 10) lookup_default = seconds 96"
  using lookups_end_before_the_deadline [OF sample_lookup] unfolding sample_deadline
  by (simp add: duration_max_def seconds_def)

lemma lookups_conclude_on_evidence_witness:
  "\<exists>before run after. lookup_answers lookup_default (seconds 10) sample_fetch [0..<5] (seconds 10) = before @ run @ after \<and>
    unfound before \<and> unknowns_in run \<and> fst (last run) = seconds 17 \<and> 3 \<le> late_answers lookup_default run"
  using lookups_conclude_on_evidence [OF sample_lookup] by (auto simp: lookup_default_def)

end
