(* ===== verification/Holding_Move.thy ===== *)
theory Holding_Move
  imports Position Order_Rules Settlement
begin

text \<open>
  How a fill moves the position it applies to, \<open>Trade::holding_move\<close> of
  \<open>rustrade-execution/src/trade.rs\<close>, on the instruments of \<open>rustrade-instrument/src/instrument\<close>
  with their quantity step. The plain operators of a decimal panic beyond its range, \<open>None\<close>; an
  absent move is an option inside. A decimal has no negative zero here.
\<close>

section \<open>Instruments\<close>

record spec_price =
  sc_price_min :: decimal
  sc_tick_size :: decimal

datatype 'a quantity_units = UnitAsset 'a | UnitContract | UnitQuote

record 'a spec_quantity =
  sc_unit :: "'a quantity_units"
  sc_quantity_min :: decimal
  sc_increment :: decimal

record 'a instrument_spec =
  sc_price :: spec_price
  sc_quantity :: "'a spec_quantity"
  sc_notional_min :: decimal

datatype instrument_quote_asset = UnderlyingBase | UnderlyingQuote

record 'e data_venue =
  dv_exchange :: 'e
  dv_name_exchange :: "instrument_name option"

record ('e, 'a) instrument =
  in_exchange :: 'e
  in_name_internal :: string
  in_name_exchange :: instrument_name
  in_underlying :: "'a underlying"
  in_quote :: instrument_quote_asset
  in_kind :: "'a instrument_kind"
  in_spec :: "'a instrument_spec option"
  in_data_venue :: "'e data_venue option"

text \<open>The step a position moves in: that of the quantity unit, if the unit is what positions count.\<close>

definition quantity_step :: "('e, 'a) instrument \<Rightarrow> decimal option" where
  "quantity_step ins =
     (case in_spec ins of
        None \<Rightarrow> None
      | Some spec \<Rightarrow>
          let quantity = sc_quantity spec;
              counts_positions = (case (in_kind ins, sc_unit quantity) of
                  (Spot, UnitAsset a) \<Rightarrow> a = un_base (in_underlying ins)
                | (Spot, UnitContract) \<Rightarrow> False
                | (_, UnitContract) \<Rightarrow> True
                | (kind, UnitAsset a) \<Rightarrow> kind_contract_size kind = 1 \<and> a = un_base (in_underlying ins)
                | (_, UnitQuote) \<Rightarrow> False)
          in if counts_positions \<and> 0 < sc_increment quantity then Some (sc_increment quantity) else None)"

definition round_toward_zero_to_step :: "rounding \<Rightarrow> decimal \<Rightarrow> decimal \<Rightarrow> decimal option" where
  "round_toward_zero_to_step R quantity step =
     (if step \<le> 0 then Some quantity else dec_sub R quantity (dec_rem quantity step))"

section \<open>The move\<close>

record position_move =
  hm_side :: side
  hm_quantity :: decimal
  hm_dust :: decimal
  hm_excess :: decimal

definition side_signed :: "side \<Rightarrow> decimal \<Rightarrow> decimal" where
  "side_signed sd quantity = (case sd of Buy \<Rightarrow> quantity | Sell \<Rightarrow> - quantity)"

definition side_unsigned :: "decimal \<Rightarrow> side \<Rightarrow> side \<times> decimal" where
  "side_unsigned moved at_zero = (if 0 < moved then Buy else if moved < 0 then Sell else at_zero, \<bar>moved\<bar>)"

definition reduced_by :: "decimal \<Rightarrow> decimal \<Rightarrow> decimal option" where
  "reduced_by held moved =
     (if sgn held \<noteq> - sgn moved then (if moved \<noteq> 0 then Some 0 else None)
      else if \<bar>held\<bar> < \<bar>moved\<bar> then Some (- held)
      else None)"

text \<open>Whether the fee of a fill leaves the holding itself.\<close>

definition has_base_fee :: "('e, 'a) instrument \<Rightarrow> ('a, 'i) trade \<Rightarrow> bool" where
  "has_base_fee ins t \<longleftrightarrow> (case in_kind ins of Spot \<Rightarrow> True | _ \<Rightarrow> False) \<and>
     af_asset (tr_fees t) = un_base (in_underlying ins) \<and> af_fees (tr_fees t) \<noteq> 0"

definition holding_move ::
  "rounding \<Rightarrow> ('e, 'a) instrument \<Rightarrow> decimal \<Rightarrow> reduce_only \<Rightarrow> ('a, 'i) trade \<Rightarrow> position_move option option" where
  "holding_move R ins held ro t = do {
     let base_fee = has_base_fee ins t;
     netted \<leftarrow> dec_sub R (side_signed (tr_side t) \<bar>tr_quantity t\<bar>) (if base_fee then af_fees (tr_fees t) else 0);
     let netted_side = fst (side_unsigned netted (tr_side t));
     case (if is_reduce_only ro then reduced_by held netted else None) of
       Some moved \<Rightarrow> do {
         excess \<leftarrow> dec_sub R netted moved;
         let (sd, quantity) = side_unsigned moved netted_side;
         Some (Some \<lparr>hm_side = sd, hm_quantity = quantity, hm_dust = 0, hm_excess = excess\<rparr>)
       }
     | None \<Rightarrow>
         if \<not> base_fee then Some None
         else do {
           holds \<leftarrow> dec_add R held netted;
           rounded \<leftarrow> (case quantity_step ins of
               None \<Rightarrow> Some holds
             | Some step \<Rightarrow> round_toward_zero_to_step R holds step);
           move \<leftarrow> dec_sub R rounded held;
           dust \<leftarrow> dec_sub R holds rounded;
           let (sd, quantity) = side_unsigned move netted_side;
           Some (Some \<lparr>hm_side = sd, hm_quantity = quantity, hm_dust = dust, hm_excess = 0\<rparr>)
         }
   }"

end
