(* ===== verification/Holding_Laws.thy ===== *)
theory Holding_Laws
  imports Holding_Move
begin

text \<open>
  What a fill does to a holding where the arithmetic is exact: nothing of it is lost between the
  position, the dust and the excess, and a reduce-only fill never grows or flips what is held.
\<close>

definition applied_move :: "('a, 'i) trade \<Rightarrow> position_move option \<Rightarrow> decimal" where
  "applied_move t r = (case r of None \<Rightarrow> side_signed (tr_side t) \<bar>tr_quantity t\<bar> | Some m \<Rightarrow> side_signed (hm_side m) (hm_quantity m))"

definition move_dust :: "position_move option \<Rightarrow> decimal" where
  "move_dust r = (case r of None \<Rightarrow> 0 | Some m \<Rightarrow> hm_dust m)"

definition move_excess :: "position_move option \<Rightarrow> decimal" where
  "move_excess r = (case r of None \<Rightarrow> 0 | Some m \<Rightarrow> hm_excess m)"

text \<open>What a fill moves in the account itself.\<close>

definition account_move :: "('e, 'a) instrument \<Rightarrow> ('a, 'i) trade \<Rightarrow> decimal" where
  "account_move ins t = side_signed (tr_side t) \<bar>tr_quantity t\<bar> - (if has_base_fee ins t then af_fees (tr_fees t) else 0)"

definition between :: "decimal \<Rightarrow> decimal \<Rightarrow> bool" where
  "between x held \<longleftrightarrow> 0 \<le> x \<and> x \<le> held \<or> held \<le> x \<and> x \<le> 0"

lemma signed_unsigned [simp]: "side_signed (fst (side_unsigned m sd)) (snd (side_unsigned m sd)) = m"
  by (cases sd) (auto simp: side_signed_def side_unsigned_def split: side.splits)

lemma signed_abs [simp]: "side_signed (fst (side_unsigned m sd)) \<bar>m\<bar> = m"
  by (cases sd) (auto simp: side_signed_def side_unsigned_def split: side.splits)

lemma unsigned_quantity: "snd (side_unsigned m sd) = \<bar>m\<bar>"
  by (simp add: side_unsigned_def)

lemma reduced_by_between:
  "reduced_by held moved = Some m \<Longrightarrow> held + m = 0 \<or> m = 0"
  "reduced_by held moved = None \<Longrightarrow> between (held + moved) held"
  by (auto simp: reduced_by_def between_def sgn_if split: if_splits)

lemma reduced_by_cut: "reduced_by held moved = Some m \<Longrightarrow> m \<noteq> moved"
  by (auto simp: reduced_by_def split: if_splits)

lemma trunc_between: "between (of_int (dec_trunc x)) x"
  unfolding between_def dec_trunc_def by (cases "0 \<le> x") (auto simp: le_of_int_ceiling ceiling_le_zero)

lemma trunc_near: "\<bar>x - of_int (dec_trunc x)\<bar> < 1"
  unfolding dec_trunc_def by (auto simp: abs_less_iff) linarith+

lemma rounded_to_step:
  assumes "round_toward_zero_to_step Some x step = Some y"
  shows "between y x" and "0 < step \<Longrightarrow> \<bar>x - y\<bar> < step" and "0 < step \<Longrightarrow> \<exists>k :: int. y = of_int k * step"
    and "step \<le> 0 \<Longrightarrow> y = x"
proof -
  have y: "y = (if step \<le> 0 then x else step * of_int (dec_trunc (x / step)))"
    using assms by (auto simp: round_toward_zero_to_step_def dec_rem_def dec_simps)
  show "between y x"
  proof (cases "step \<le> 0")
    case False
    then have "x = step * (x / step)" and "0 < step" by simp_all
    then show ?thesis
      using trunc_between [of "x / step"] y False unfolding between_def
      by (metis mult_left_mono mult_zero_right less_imp_le)
  qed (use y in \<open>auto simp: between_def\<close>)
  show "0 < step \<Longrightarrow> \<bar>x - y\<bar> < step"
  proof -
    assume s: "0 < step"
    then have "x - y = step * (x / step - of_int (dec_trunc (x / step)))" using y by (simp add: right_diff_distrib)
    then have "\<bar>x - y\<bar> = step * \<bar>x / step - of_int (dec_trunc (x / step))\<bar>" using s by (simp add: abs_mult)
    also have "\<dots> < step * 1" using s trunc_near by (intro mult_strict_left_mono) auto
    finally show ?thesis by simp
  qed
  show "0 < step \<Longrightarrow> \<exists>k :: int. y = of_int k * step" using y by (auto simp: mult.commute)
  show "step \<le> 0 \<Longrightarrow> y = x" using y by simp
qed

lemma between_trans: "between y x \<Longrightarrow> between x z \<Longrightarrow> between y z"
  by (auto simp: between_def)

lemma quantity_step_pos: "quantity_step ins = Some step \<Longrightarrow> 0 < step"
  by (auto simp: quantity_step_def Let_def split: option.splits if_splits)

text \<open>The two ways a fill is moved otherwise than by its side and quantity.\<close>

lemma holding_move_cases:
  assumes "n = account_move ins t"
  shows "is_reduce_only ro \<and> (\<exists>m. reduced_by held n = Some m \<and>
      (\<exists>h. holding_move Some ins held ro t = Some (Some h) \<and> side_signed (hm_side h) (hm_quantity h) = m \<and>
        hm_dust h = 0 \<and> hm_excess h = n - m \<and> hm_quantity h = \<bar>m\<bar>))
    \<or> (is_reduce_only ro \<longrightarrow> reduced_by held n = None) \<and> \<not> has_base_fee ins t \<and> holding_move Some ins held ro t = Some None
    \<or> (is_reduce_only ro \<longrightarrow> reduced_by held n = None) \<and> has_base_fee ins t \<and> (\<exists>y h. holding_move Some ins held ro t = Some (Some h) \<and>
        (case quantity_step ins of None \<Rightarrow> y = held + n | Some step \<Rightarrow> round_toward_zero_to_step Some (held + n) step = Some y) \<and>
        side_signed (hm_side h) (hm_quantity h) = y - held \<and> hm_dust h = held + n - y \<and> hm_excess h = 0 \<and> hm_quantity h = \<bar>y - held\<bar>)"
proof (cases "is_reduce_only ro \<and> reduced_by held n \<noteq> None")
  case True
  then show ?thesis
    using assms by (auto simp: holding_move_def account_move_def dec_simps Let_def case_prod_beta unsigned_quantity)
next
  case False
  then have none: "(if is_reduce_only ro then reduced_by held n else None) = None" by auto
  have "\<exists>y. (case quantity_step ins of None \<Rightarrow> y = held + n | Some step \<Rightarrow> round_toward_zero_to_step Some (held + n) step = Some y)"
    by (cases "quantity_step ins") (auto simp: round_toward_zero_to_step_def dec_simps)
  then show ?thesis
    using assms none False
    by (auto simp: holding_move_def account_move_def dec_simps Let_def case_prod_beta unsigned_quantity split: option.splits)
qed

text \<open>C33: Nothing of a fill is lost and a reduce-only fill never grows or flips the position: where the arithmetic is exact, every fill has a move, and the move, the dust and the excess add up to what the fill moves in the account, its signed quantity less a fee charged in the base asset. A reduce-only fill leaves the position between flat and what it was; only such a fill has an excess, and then the position is flat or as it was. Dust is less than one quantity step, and is rounded off only to leave the position on a whole number of steps.\<close>
theorem fill_moves_the_holding:
  shows "\<exists>r. holding_move Some ins held ro t = Some r \<and>
    applied_move t r + move_dust r + move_excess r = account_move ins t \<and>
    (is_reduce_only ro \<longrightarrow> between (held + applied_move t r) held) \<and>
    (move_excess r \<noteq> 0 \<longrightarrow> is_reduce_only ro \<and> held + applied_move t r \<in> {0, held}) \<and>
    (move_dust r \<noteq> 0 \<longrightarrow> (\<exists>step k. quantity_step ins = Some step \<and> \<bar>move_dust r\<bar> < step \<and>
      held + applied_move t r = of_int k * step))"
proof -
  define n where "n = account_move ins t"
  from holding_move_cases [OF n_def, of ro held] consider
      (cut) h m where "is_reduce_only ro" "reduced_by held n = Some m" "holding_move Some ins held ro t = Some (Some h)"
        "side_signed (hm_side h) (hm_quantity h) = m" "hm_dust h = 0" "hm_excess h = n - m"
    | (whole) "is_reduce_only ro \<longrightarrow> reduced_by held n = None" "\<not> has_base_fee ins t" "holding_move Some ins held ro t = Some None"
    | (netted) y h where "is_reduce_only ro \<longrightarrow> reduced_by held n = None" "holding_move Some ins held ro t = Some (Some h)"
        "case quantity_step ins of None \<Rightarrow> y = held + n | Some step \<Rightarrow> round_toward_zero_to_step Some (held + n) step = Some y"
        "side_signed (hm_side h) (hm_quantity h) = y - held" "hm_dust h = held + n - y" "hm_excess h = 0" by blast
  then show ?thesis
  proof cases
    case cut
    with reduced_by_between(1) [OF cut(2)] show ?thesis
      by (auto simp: applied_move_def move_dust_def move_excess_def between_def n_def)
  next
    case whole
    then have "account_move ins t = side_signed (tr_side t) \<bar>tr_quantity t\<bar>" by (simp add: account_move_def)
    with whole reduced_by_between(2) show ?thesis
      by (auto simp: applied_move_def move_dust_def move_excess_def n_def)
  next
    case netted
    have "between y (held + n)"
      using netted(3) rounded_to_step(1) by (cases "quantity_step ins") (auto simp: between_def)
    then have b: "is_reduce_only ro \<longrightarrow> between y held"
      using netted(1) reduced_by_between(2) between_trans by blast
    have d: "hm_dust h \<noteq> 0 \<longrightarrow> (\<exists>step k. quantity_step ins = Some step \<and> \<bar>hm_dust h\<bar> < step \<and> y = of_int k * step)"
    proof (cases "quantity_step ins")
      case (Some step)
      with netted(3) have r: "round_toward_zero_to_step Some (held + n) step = Some y" by simp
      from rounded_to_step(2,3) [OF r quantity_step_pos [OF Some]] netted(5) Some show ?thesis by auto
    qed (use netted in auto)
    from netted b d show ?thesis
      by (auto simp: applied_move_def move_dust_def move_excess_def n_def)
  qed
qed

definition ex_btc :: "(unit, unit) instrument" where
  "ex_btc = \<lparr>in_exchange = (), in_name_internal = ''btc_usdt'', in_name_exchange = ''BTCUSDT'',
     in_underlying = \<lparr>un_base = (), un_quote = ()\<rparr>, in_quote = UnderlyingQuote, in_kind = Spot, in_spec = None,
     in_data_venue = None\<rparr>"

theorem fill_moves_the_holding_witness:
  "\<exists>r. holding_move Some ex_btc 2 ROPosition (ex_fill Sell 100 3) = Some r \<and>
    applied_move (ex_fill Sell 100 3) r + move_dust r - 2 = - 4 \<and> between (2 + applied_move (ex_fill Sell 100 3) r) 2 \<and> move_excess r = - 2"
proof -
  obtain r where r: "holding_move Some ex_btc 2 ROPosition (ex_fill Sell 100 3) = Some r"
      "applied_move (ex_fill Sell 100 3) r + move_dust r + move_excess r = account_move ex_btc (ex_fill Sell 100 3)"
      "is_reduce_only ROPosition \<longrightarrow> between (2 + applied_move (ex_fill Sell 100 3) r) 2"
    using fill_moves_the_holding [of ex_btc 2 ROPosition "ex_fill Sell 100 3"] by blast
  have "holding_move Some ex_btc 2 ROPosition (ex_fill Sell 100 3) =
      Some (Some \<lparr>hm_side = Sell, hm_quantity = 2, hm_dust = 0, hm_excess = - 2\<rparr>)"
    by (simp add: holding_move_def has_base_fee_def ex_btc_def ex_fill_def side_signed_def side_unsigned_def
        reduced_by_def is_reduce_only_def dec_simps)
  with r(1) have "r = Some \<lparr>hm_side = Sell, hm_quantity = 2, hm_dust = 0, hm_excess = - 2\<rparr>" by simp
  with r show ?thesis
    by (simp add: move_excess_def is_reduce_only_def account_move_def ex_btc_def ex_fill_def side_signed_def has_base_fee_def)
qed

end
