(* ===== verification/Instrument_State.thy ===== *)
theory Instrument_State
  imports Orders Reduce_Only Tear_Sheets Holding_Move Cash_Flow
begin

text \<open>
  The engine's state of one instrument, \<open>rustrade/src/engine/state/instrument/mod.rs\<close>: its orders,
  positions, tear sheet and market data, with the tables that route a fill to a position. Every
  operation that can panic returns an option, \<open>None\<close> the panic. Log lines are left out.
\<close>

section \<open>State\<close>

datatype expiry_handling = EngineSettles | VenueSettles

record ('e, 'a, 'i, 'd) instrument_state =
  is_key :: 'i
  is_instrument :: "('e, 'a) instrument"
  is_tear_sheet :: tear_sheet_generator
  is_position :: "('a, 'i) position_manager"
  is_orders :: "('e, 'i) orders"
  is_data :: 'd
  is_fee_model :: fee_model_config
  is_expiry_handling :: expiry_handling
  is_expiration_processed :: bool
  is_corporate_actions :: "string set"
  is_position_ids :: "client_order_id \<rightharpoonup> position_id"
  is_pending_fills :: "('a, 'i) trade list"
  is_exchange_ids :: "order_id \<rightharpoonup> client_order_id"
  is_retired_routing :: "(order_id, position_id) index_map"
  is_book :: reduce_only_book
  is_open_at_resync :: "client_order_id \<rightharpoonup> venue_order_id"

definition max_retired_routing :: nat where
  "max_retired_routing = 64"

text \<open>
  What the code leaves to others: the decimals, the text of an order error, and the order in which
  a hash map comes out, which the language leaves open: \<open>en_order\<close> lists a set of keys, and may be
  another one at each call.
\<close>

record ('a, 'i) engine_env =
  en_round :: rounding
  en_reason :: "('a, 'i) order_error \<Rightarrow> string"
  en_order :: "string set \<Rightarrow> string list"

definition instrument_state_init ::
  "'i \<Rightarrow> ('e, 'a) instrument \<Rightarrow> time \<Rightarrow> ('a, 'i) position_manager \<Rightarrow> ('e, 'i) orders \<Rightarrow> 'd
     \<Rightarrow> ('e, 'a, 'i, 'd) instrument_state" where
  "instrument_state_init key ins start positions orders data =
     \<lparr>is_key = key, is_instrument = ins, is_tear_sheet = tear_sheet_init start, is_position = positions,
      is_orders = orders, is_data = data, is_fee_model = ZeroFee, is_expiry_handling = EngineSettles,
      is_expiration_processed = False, is_corporate_actions = {}, is_position_ids = Map.empty,
      is_pending_fills = [], is_exchange_ids = Map.empty, is_retired_routing = [],
      is_book = book_new, is_open_at_resync = Map.empty\<rparr>"

section \<open>Routing tables\<close>

definition is_tracked :: "('e, 'a, 'i, 'd) instrument_state \<Rightarrow> client_order_id \<Rightarrow> bool" where
  "is_tracked st c \<longleftrightarrow> tracked (is_orders st) c \<noteq> None"

definition retired_routing_insert ::
  "order_id \<Rightarrow> position_id \<Rightarrow> (order_id, position_id) index_map \<Rightarrow> (order_id, position_id) index_map" where
  "retired_routing_insert oid pid routing =
     (let at_capacity = oid \<notin> fst ` set routing \<and> max_retired_routing \<le> length routing
      in im_insert oid pid (if at_capacity then tl routing else routing))"

text \<open>The routes of orders no longer tracked that still resolve to a position.\<close>

definition demoted_routes :: "string list \<Rightarrow> ('e, 'a, 'i, 'd) instrument_state \<Rightarrow> (order_id \<times> position_id) list" where
  "demoted_routes oids st = List.map_filter (\<lambda>oid.
     case is_exchange_ids st oid of
       None \<Rightarrow> None
     | Some c \<Rightarrow> if is_tracked st c then None else map_option (Pair oid) (is_position_ids st c)) oids"

definition cleanup_routing_tables ::
  "('a, 'i) engine_env \<Rightarrow> ('e, 'a, 'i, 'd) instrument_state \<Rightarrow> ('e, 'a, 'i, 'd) instrument_state option" where
  "cleanup_routing_tables env st = do {
     let routing = (case pm_mode (is_position st) of
         Hedging \<Rightarrow> fold (\<lambda>(oid, pid). retired_routing_insert oid pid)
           (demoted_routes (en_order env (dom (is_exchange_ids st))) st) (is_retired_routing st)
       | Netting \<Rightarrow> is_retired_routing st);
     book \<leftarrow> retire_untracked (is_tracked st) (is_book st);
     Some (st\<lparr>is_retired_routing := routing, is_book := book,
       is_position_ids := (\<lambda>c. if is_tracked st c then is_position_ids st c else None),
       is_exchange_ids := (\<lambda>oid. case is_exchange_ids st oid of
           None \<Rightarrow> None
         | Some c \<Rightarrow> if is_tracked st c then Some c else None)\<rparr>)
   }"

definition clear_order_routing :: "('e, 'a, 'i, 'd) instrument_state \<Rightarrow> ('e, 'a, 'i, 'd) instrument_state" where
  "clear_order_routing st = st\<lparr>is_exchange_ids := Map.empty, is_retired_routing := [],
     is_position_ids := Map.empty, is_pending_fills := [], is_book := book_clear (is_book st)\<rparr>"

text \<open>The first key of a hash map, as it comes out, whose entry gives something.\<close>

fun first_some :: "('k \<Rightarrow> 'b option) \<Rightarrow> 'k list \<Rightarrow> 'b option" where
  "first_some f [] = None"
| "first_some f (k # ks) = (case f k of None \<Rightarrow> first_some f ks | Some y \<Rightarrow> Some y)"

definition tracked_order_cid ::
  "('a, 'i) engine_env \<Rightarrow> order_id \<Rightarrow> ('e, 'a, 'i, 'd) instrument_state \<Rightarrow> client_order_id option" where
  "tracked_order_cid env oid st =
     (case is_exchange_ids st oid of
        Some c \<Rightarrow> Some c
      | None \<Rightarrow> first_some (\<lambda>c. case tracked (is_orders st) c of
            Some ord \<Rightarrow> (case o_state ord of
                Open op \<Rightarrow> if assigned (open_id op) = Some oid then Some c else None
              | _ \<Rightarrow> None)
          | None \<Rightarrow> None) (en_order env (dom (tracked (is_orders st)))))"

definition reduce_only_order ::
  "('a, 'i) engine_env \<Rightarrow> ('a, 'i) trade \<Rightarrow> ('e, 'a, 'i, 'd) instrument_state
     \<Rightarrow> (client_order_id \<times> reduce_only) option" where
  "reduce_only_order env t st =
     (if \<not> has_reduce_only (is_book st) then None
      else
        let c = (case tr_client_order_id t of
            Some c \<Rightarrow> Some c
          | None \<Rightarrow> tracked_order_cid env (tr_order_id t) st)
        in case lookup_ids c (tr_order_id t) (is_book st) of
             Some (c, ro) \<Rightarrow> if is_reduce_only ro then Some (c, ro) else None
           | None \<Rightarrow> None)"

section \<open>Requests in flight\<close>

definition instrument_record_cancel ::
  "(('e, 'i) order_request_cancel \<Rightarrow> time \<Rightarrow> 'd \<Rightarrow> 'd) \<Rightarrow> ('e, 'i) order_request_cancel \<Rightarrow> time
     \<Rightarrow> ('e, 'a, 'i, 'd) instrument_state \<Rightarrow> ('e, 'a, 'i, 'd) instrument_state" where
  "instrument_record_cancel data_records req time_sent st =
     st\<lparr>is_orders := record_in_flight_cancel req time_sent (is_orders st),
        is_data := data_records req time_sent (is_data st)\<rparr>"

definition instrument_record_open ::
  "(('e, 'i) order_request_open \<Rightarrow> time \<Rightarrow> 'd \<Rightarrow> 'd) \<Rightarrow> ('e, 'i) order_request_open \<Rightarrow> time
     \<Rightarrow> ('e, 'a, 'i, 'd) instrument_state \<Rightarrow> ('e, 'a, 'i, 'd) instrument_state option" where
  "instrument_record_open data_records req time_sent st =
     (let c = key_cid (ev_key req) in
      if is_tracked st c then Some st
      else do {
        book \<leftarrow> register c (ro_reduce_only (ev_state req)) (is_book st);
        Some (st\<lparr>is_orders := record_in_flight_open req time_sent (is_orders st),
          is_data := data_records req time_sent (is_data st),
          is_tear_sheet := record_open_requested (is_tear_sheet st),
          is_position_ids := (case ro_position_id (ev_state req) of
              Some pid \<Rightarrow> (is_position_ids st)(c \<mapsto> pid)
            | None \<Rightarrow> is_position_ids st),
          is_book := book\<rparr>)
      })"

section \<open>What a fill leaves behind\<close>

record ('a, 'i) reduce_only_capped =
  rc_instrument :: 'i
  rc_trade_id :: trade_id
  rc_order_id :: order_id
  rc_client_order_id :: "client_order_id option"
  rc_position_id :: position_id
  rc_held :: decimal
  rc_excess :: decimal
  rc_excess_value :: decimal
  rc_fees_unattributed :: decimal
  rc_reduce_only :: reduce_only
  rc_trades_free_base :: bool

text \<open>
  \<open>FillsApplied\<close> also carries how the engine valued a fee in a third asset, which its own methods
  never set.
\<close>

record ('a, 'i) fills_applied =
  fa_exited :: "('a, 'i) position_exited option"
  fa_capped :: "('a, 'i) reduce_only_capped list"

definition fills_none :: "('a, 'i) fills_applied" where
  "fills_none = \<lparr>fa_exited = None, fa_capped = []\<rparr>"

definition fills_is_empty :: "('a, 'i) fills_applied \<Rightarrow> bool" where
  "fills_is_empty f \<longleftrightarrow> fa_exited f = None \<and> fa_capped f = []"

definition origin_is_forced :: "trade_origin \<Rightarrow> bool" where
  "origin_is_forced origin \<longleftrightarrow> origin = OriginLiquidation \<or> origin = OriginAdl \<or> origin = OriginAssignment"

definition note_forced_fill :: "('e, 'a, 'i, 'd) instrument_state \<Rightarrow> ('e, 'a, 'i, 'd) instrument_state" where
  "note_forced_fill st = st\<lparr>is_tear_sheet := record_fill_forced (is_tear_sheet st)\<rparr>"

definition charge_unattributed ::
  "rounding \<Rightarrow> ('a, 'i) trade \<Rightarrow> 'a asset_fees \<Rightarrow> ('e, 'a, 'i, 'd) instrument_state
     \<Rightarrow> ('e, 'a, 'i, 'd) instrument_state option" where
  "charge_unattributed R t fees st =
     (let fee = fee_in_quote fees in
      if fee = 0 then Some st
      else do {
        sheet \<leftarrow> record_fee_unattributed R fee (tr_time_exchange t) (is_tear_sheet st);
        Some (st\<lparr>is_tear_sheet := sheet\<rparr>)
      })"

text \<open>The part of a fee that a cut fill keeps.\<close>

definition kept_fee :: "rounding \<Rightarrow> decimal \<Rightarrow> decimal \<Rightarrow> decimal \<Rightarrow> decimal option" where
  "kept_fee R quantity whole fee = do { x \<leftarrow> dec_mul R fee quantity; dec_div R x whole }"

definition map_quote :: "(decimal \<Rightarrow> decimal option) \<Rightarrow> decimal option \<Rightarrow> decimal option option" where
  "map_quote f q = (case q of None \<Rightarrow> Some None | Some x \<Rightarrow> map_option Some (f x))"

definition book_reduce_only_cut ::
  "('a, 'i) engine_env \<Rightarrow> ('a, 'i) trade \<Rightarrow> ('a, 'i) trade \<Rightarrow> position_id \<Rightarrow> decimal \<Rightarrow> decimal \<Rightarrow> reduce_only
     \<Rightarrow> ('e, 'a, 'i, 'd) instrument_state
     \<Rightarrow> ((('a, 'i) reduce_only_capped \<times> ('a, 'i) trade) \<times> ('e, 'a, 'i, 'd) instrument_state) option" where
  "book_reduce_only_cut env t netted pid held excess ro st = do {
     let R = en_round env;
     whole \<leftarrow> dec_add R (tr_quantity netted) \<bar>excess\<bar>;
     let charged = fee_in_quote (tr_fees netted);
     fees \<leftarrow> kept_fee R (tr_quantity netted) whole (af_fees (tr_fees netted));
     quote \<leftarrow> map_quote (kept_fee R (tr_quantity netted) whole) (af_fees_quote (tr_fees netted));
     let netted' = netted\<lparr>tr_fees := (tr_fees netted)\<lparr>af_fees := fees, af_fees_quote := quote\<rparr>\<rparr>;
     unattributed \<leftarrow> dec_sub R charged (fee_in_quote (tr_fees netted'));
     sheet \<leftarrow> (if unattributed = 0 then Some (is_tear_sheet st)
       else record_fee_unattributed R unattributed (tr_time_exchange t) (is_tear_sheet st));
     x \<leftarrow> dec_mul R \<bar>excess\<bar> (tr_price t);
     excess_value \<leftarrow> dec_mul R x (kind_contract_size (in_kind (is_instrument st)));
     let cid = (case reduce_only_order env t st of Some (c, _) \<Rightarrow> Some c | None \<Rightarrow> tr_client_order_id t);
     let free_base = (ro = ROPositionAndFreeBase
       \<and> (case in_kind (is_instrument st) of Spot \<Rightarrow> True | _ \<Rightarrow> False)
       \<and> (held = 0 \<or> (held < 0) \<noteq> (excess < 0)));
     let sheet' = (if free_base then record_fill_free_base_traded R excess_value sheet
       else record_fill_reduce_only_capped R excess_value sheet);
     Some ((\<lparr>rc_instrument = tr_instrument t, rc_trade_id = tr_id t, rc_order_id = tr_order_id t,
         rc_client_order_id = cid, rc_position_id = pid, rc_held = held, rc_excess = excess,
         rc_excess_value = excess_value, rc_fees_unattributed = unattributed, rc_reduce_only = ro,
         rc_trades_free_base = free_base\<rparr>, netted'), st\<lparr>is_tear_sheet := sheet'\<rparr>)
   }"

text \<open>The fill as the position takes it, and the cut reported of a reduce-only one.\<close>

definition move_holding ::
  "('a, 'i) engine_env \<Rightarrow> ('a, 'i) trade \<Rightarrow> ('a, 'i) trade \<Rightarrow> position_id \<Rightarrow> reduce_only
     \<Rightarrow> ('e, 'a, 'i, 'd) instrument_state
     \<Rightarrow> ((('a, 'i) trade \<times> ('a, 'i) reduce_only_capped option) option \<times> ('e, 'a, 'i, 'd) instrument_state) option" where
  "move_holding env t effective pid ro st = do {
     let R = en_round env;
     let held = (case map_of (pm_positions (is_position st)) pid of
         None \<Rightarrow> 0 | Some p \<Rightarrow> side_signed (ps_side p) (ps_quantity_abs p));
     moved \<leftarrow> holding_move R (is_instrument st) held ro t;
     case moved of
       None \<Rightarrow> Some (None, st)
     | Some m \<Rightarrow>
         let netted = effective\<lparr>tr_side := hm_side m, tr_quantity := hm_quantity m\<rparr> in
         if hm_excess m \<noteq> 0 then do {
           ((capped, netted'), st') \<leftarrow> book_reduce_only_cut env t netted pid held (hm_excess m) ro st;
           Some (Some (netted', Some capped), st')
         }
         else if hm_dust m = 0 then Some (Some (netted, None), st)
         else do {
           dust_value \<leftarrow> dec_mul R (hm_dust m) (tr_price netted);
           Some (Some (netted, None),
             st\<lparr>is_tear_sheet := record_fill_dust R (hm_dust m) dust_value (is_tear_sheet st)\<rparr>)
         }
   }"

definition apply_to_position ::
  "rounding \<Rightarrow> ('a, 'i) trade \<Rightarrow> position_id \<Rightarrow> decimal \<Rightarrow> ('e, 'a, 'i, 'd) instrument_state
     \<Rightarrow> (('a, 'i) position_exited option \<times> ('e, 'a, 'i, 'd) instrument_state) option" where
  "apply_to_position R t pid csize st = do {
     (out, positions) \<leftarrow> update_from_trade_with_id R t pid csize (is_position st);
     let st' = st\<lparr>is_position := positions\<rparr>;
     case out of
       TradeApplied None \<Rightarrow> Some (None, st')
     | TradeApplied (Some ended) \<Rightarrow> do {
         sheet \<leftarrow> tear_sheet_update_from_position R ended (is_tear_sheet st');
         Some (Some ended, st'\<lparr>is_tear_sheet := sheet\<rparr>)
       }
     | TradeUnapplied fees \<Rightarrow> do {
         st'' \<leftarrow> charge_unattributed R t fees st';
         Some (None, st'')
       }
   }"

section \<open>Routing a fill\<close>

datatype settlement_leg = ContractLeg | DeliveryLeg

datatype unplaced = NamesTheSideItWouldGrow | PositionsOnSide nat

definition settlement_leg_of :: "('e, 'a, 'i, 'd) instrument_state \<Rightarrow> trade_origin \<Rightarrow> settlement_leg option" where
  "settlement_leg_of st origin =
     (case origin of
        OriginOrder \<Rightarrow> None
      | OriginExternal \<Rightarrow> None
      | OriginLiquidation \<Rightarrow> Some ContractLeg
      | OriginAdl \<Rightarrow> Some ContractLeg
      | OriginExpiry \<Rightarrow> Some ContractLeg
      | OriginAssignment \<Rightarrow> Some (if kind_expiry (in_kind (is_instrument st)) \<noteq> None then ContractLeg else DeliveryLeg)
      | OriginExercise \<Rightarrow> Some (if kind_expiry (in_kind (is_instrument st)) \<noteq> None then ContractLeg else DeliveryLeg))"

definition opposite :: "side \<Rightarrow> side" where
  "opposite sd = (case sd of Buy \<Rightarrow> Sell | Sell \<Rightarrow> Buy)"

definition settlement_fill_position ::
  "('a, 'i) trade \<Rightarrow> ('e, 'a, 'i, 'd) instrument_state \<Rightarrow> unplaced + (position_id \<times> decimal)" where
  "settlement_fill_position t st =
     (let reduces = opposite (tr_side t) in
      if tr_position_side t \<noteq> None \<and> tr_position_side t \<noteq> Some reduces then Inl NamesTheSideItWouldGrow
      else case filter (\<lambda>(i, p). ps_side p = reduces) (pm_positions (is_position st)) of
        [(i, p)] \<Rightarrow> Inr (i, ps_quantity_abs p)
      | on_side \<Rightarrow> Inl (PositionsOnSide (length on_side)))"

definition capped_to :: "rounding \<Rightarrow> ('a, 'i) trade \<Rightarrow> decimal \<Rightarrow> ('a, 'i) trade option" where
  "capped_to R t held = do {
     share \<leftarrow> dec_div R held \<bar>tr_quantity t\<bar>;
     fees \<leftarrow> dec_mul R (af_fees (tr_fees t)) share;
     quote \<leftarrow> map_quote (\<lambda>f. dec_mul R f share) (af_fees_quote (tr_fees t));
     Some (t\<lparr>tr_quantity := (if tr_quantity t < 0 then - held else held),
       tr_fees := (tr_fees t)\<lparr>af_fees := fees, af_fees_quote := quote\<rparr>\<rparr>)
   }"

text \<open>
  Where a fill goes: to a position, as it is or capped to what the position holds, or nowhere, put
  aside until its order is acknowledged or counted as unallocated.
\<close>

datatype ('a, 'i) destination = ToPosition position_id "('a, 'i) trade option" | Nowhere

text \<open>The tracked order the venue knows by an id and the position mapped to it.\<close>

definition matched_order ::
  "('a, 'i) engine_env \<Rightarrow> order_id \<Rightarrow> ('e, 'a, 'i, 'd) instrument_state \<Rightarrow> position_id option option" where
  "matched_order env oid st = first_some (\<lambda>c.
     case tracked (is_orders st) c of
       None \<Rightarrow> None
     | Some ord \<Rightarrow> (case o_state ord of
           Open op \<Rightarrow> if assigned (open_id op) = Some oid then Some (is_position_ids st c) else None
         | CancelInFlight cf \<Rightarrow> (case cif_order cf of
               Some op \<Rightarrow> if assigned (open_id op) = Some oid then Some (is_position_ids st c) else None
             | None \<Rightarrow> None)
         | OpenInFlight _ \<Rightarrow> None)) (en_order env (dom (tracked (is_orders st))))"

definition has_open_in_flight :: "('e, 'a, 'i, 'd) instrument_state \<Rightarrow> bool" where
  "has_open_in_flight st \<longleftrightarrow> (\<exists>ord \<in> ran (tracked (is_orders st)). is_open_in_flight (o_state ord))"

text \<open>A fill that matches no order and is none of the venue's settlements.\<close>

definition route_unmatched ::
  "('a, 'i) trade \<Rightarrow> ('e, 'a, 'i, 'd) instrument_state
     \<Rightarrow> ('a, 'i) destination \<times> ('e, 'a, 'i, 'd) instrument_state" where
  "route_unmatched t st = (ToPosition (tr_order_id t) None,
     st\<lparr>is_tear_sheet := record_fill_unmatched (tr_order_id t) (''no order matched '' @ tr_order_id t) (is_tear_sheet st)\<rparr>)"

text \<open>A settlement by the venue that matches no order.\<close>

definition route_settlement ::
  "rounding \<Rightarrow> ('a, 'i) trade \<Rightarrow> settlement_leg \<Rightarrow> ('e, 'a, 'i, 'd) instrument_state
     \<Rightarrow> (('a, 'i) destination \<times> ('e, 'a, 'i, 'd) instrument_state) option" where
  "route_settlement R t leg st =
     (let placed = (case (leg, settlement_fill_position t st) of
          (_, Inr x) \<Rightarrow> Some x
        | (DeliveryLeg, Inl (PositionsOnSide 0)) \<Rightarrow> Some (tr_order_id t, \<bar>tr_quantity t\<bar>)
        | (DeliveryLeg, Inl NamesTheSideItWouldGrow) \<Rightarrow> Some (tr_order_id t, \<bar>tr_quantity t\<bar>)
        | (_, Inl _) \<Rightarrow> None);
          unallocated = (\<lambda>st. st\<lparr>is_tear_sheet := record_fill_unallocated (is_tear_sheet st)\<rparr>)
      in case placed of
           None \<Rightarrow> Some (Nowhere, unallocated st)
         | Some (pid, held) \<Rightarrow>
             if held < \<bar>tr_quantity t\<bar> then do {
               capped \<leftarrow> capped_to R t held;
               Some (ToPosition pid (Some capped), unallocated st)
             }
             else Some (ToPosition pid None, st))"

definition route_fill ::
  "('a, 'i) engine_env \<Rightarrow> ('a, 'i) trade \<Rightarrow> ('e, 'a, 'i, 'd) instrument_state
     \<Rightarrow> (('a, 'i) destination \<times> ('e, 'a, 'i, 'd) instrument_state) option" where
  "route_fill env t st =
     (case pm_mode (is_position st) of
        Netting \<Rightarrow> Some (ToPosition position_id_netting None, st)
      | Hedging \<Rightarrow>
      (case Option.bind (is_exchange_ids st (tr_order_id t)) (is_position_ids st) of
        Some pid \<Rightarrow> Some (ToPosition pid None, st)
      | None \<Rightarrow>
      (case matched_order env (tr_order_id t) st of
        Some (Some pid) \<Rightarrow> Some (ToPosition pid None, st)
      | Some None \<Rightarrow> Some (ToPosition (tr_order_id t) None,
          st\<lparr>is_tear_sheet := record_fill_routed_by_fallback (tr_order_id t)
            (''no PositionId mapping for order '' @ tr_order_id t) (is_tear_sheet st)\<rparr>)
      | None \<Rightarrow>
      (case map_of (is_retired_routing st) (tr_order_id t) of
        Some pid \<Rightarrow> Some (ToPosition pid None, st)
      | None \<Rightarrow>
          if tr_origin t = OriginOrder \<and> has_open_in_flight st then
            Some (Nowhere, st\<lparr>is_pending_fills := is_pending_fills st @ [t]\<rparr>)
          else
            (case settlement_leg_of st (tr_origin t) of
               Some leg \<Rightarrow> route_settlement (en_round env) t leg st
             | None \<Rightarrow> Some (route_unmatched t st))))))"

section \<open>Fills\<close>

text \<open>The fill with the fee of this state's fee model.\<close>

definition with_model_fee ::
  "rounding \<Rightarrow> decimal \<Rightarrow> ('e, 'a, 'i, 'd) instrument_state \<Rightarrow> ('a, 'i) trade \<Rightarrow> ('a, 'i) trade option" where
  "with_model_fee R csize st t = do {
     fee \<leftarrow> compute_fee R (is_fee_model st) (tr_price t) (tr_quantity t) csize Taker;
     if fee = 0 then Some t
     else do {
       fees \<leftarrow> dec_add R (af_fees (tr_fees t)) fee;
       quote \<leftarrow> dec_add R (fee_in_quote (tr_fees t)) fee;
       Some (t\<lparr>tr_fees := (tr_fees t)\<lparr>af_fees := fees, af_fees_quote := Some quote\<rparr>\<rparr>)
     }
   }"

definition sent_reduce_only_as ::
  "('a, 'i) engine_env \<Rightarrow> (trade_id \<times> reduce_only) list \<Rightarrow> ('a, 'i) trade \<Rightarrow> ('e, 'a, 'i, 'd) instrument_state
     \<Rightarrow> reduce_only" where
  "sent_reduce_only_as env fills t st =
     (case map_of fills (tr_id t) of
        Some ro \<Rightarrow> ro
      | None \<Rightarrow> (case reduce_only_order env t st of Some (_, ro) \<Rightarrow> ro | None \<Rightarrow> RONo))"

text \<open>The order a fill was against moves on to the cumulative the venue reported with it.\<close>

definition advance_order ::
  "('a, 'i) engine_env \<Rightarrow> ('a, 'i) trade \<Rightarrow> ('e, 'a, 'i, 'd) instrument_state
     \<Rightarrow> ('e, 'a, 'i, 'd) instrument_state option" where
  "advance_order env t st =
     (case (tr_order_filled_quantity t, tracked_order_cid env (tr_order_id t) st) of
        (Some reported, Some c) \<Rightarrow> do {
          (ended, orders) \<leftarrow> update_from_fill (en_round env) c (tr_order_id t) reported (is_orders st);
          let st' = st\<lparr>is_orders := orders\<rparr>;
          if ended then cleanup_routing_tables env st' else Some st'
        }
      | _ \<Rightarrow> Some st)"

text \<open>A fill on its way to a position: the steps after the routing.\<close>

definition book_fill ::
  "('a, 'i) engine_env \<Rightarrow> (trade_id \<times> reduce_only) list \<Rightarrow> ('a, 'i) trade \<Rightarrow> position_id \<Rightarrow> bool
     \<Rightarrow> ('e, 'a, 'i, 'd) instrument_state
     \<Rightarrow> (('a, 'i) fills_applied \<times> ('e, 'a, 'i, 'd) instrument_state) option" where
  "book_fill env fills t pid capped_settlement st = do {
     let R = en_round env;
     let csize = kind_contract_size (in_kind (is_instrument st));
     effective \<leftarrow> with_model_fee R csize st t;
     (moved, st1) \<leftarrow> (if capped_settlement then Some (None, st)
       else move_holding env t effective pid (sent_reduce_only_as env fills t st) st);
     let (effective', capped) = (case moved of None \<Rightarrow> (effective, None) | Some (netted, capped) \<Rightarrow> (netted, capped));
     (exited, st2) \<leftarrow> (if capped \<noteq> None \<and> tr_quantity effective' = 0 then Some (None, st1)
       else apply_to_position R effective' pid csize st1);
     let st3 = (if exited = None then st2
       else st2\<lparr>is_position_ids := (\<lambda>c. if is_position_ids st2 c = Some pid \<and> \<not> is_tracked st2 c then None
              else is_position_ids st2 c)\<rparr>);
     st4 \<leftarrow> advance_order env t st3;
     Some (\<lparr>fa_exited = exited, fa_capped = (case capped of None \<Rightarrow> [] | Some x \<Rightarrow> [x])\<rparr>, st4)
   }"

definition replay_trade ::
  "('a, 'i) engine_env \<Rightarrow> (trade_id \<times> reduce_only) list \<Rightarrow> ('a, 'i) trade \<Rightarrow> ('e, 'a, 'i, 'd) instrument_state
     \<Rightarrow> (('a, 'i) fills_applied \<times> ('e, 'a, 'i, 'd) instrument_state) option" where
  "replay_trade env fills t st = do {
     let st0 = (if origin_is_forced (tr_origin t) then note_forced_fill st else st);
     (dest, st1) \<leftarrow> route_fill env t st0;
     case dest of
       Nowhere \<Rightarrow> Some (fills_none, st1)
     | ToPosition pid capped \<Rightarrow>
         book_fill env fills (case capped of None \<Rightarrow> t | Some t' \<Rightarrow> t') pid (capped \<noteq> None) st1
   }"

definition instrument_update_from_trade ::
  "('a, 'i) engine_env \<Rightarrow> ('a, 'i) trade \<Rightarrow> ('e, 'a, 'i, 'd) instrument_state
     \<Rightarrow> (('a, 'i) fills_applied \<times> ('e, 'a, 'i, 'd) instrument_state) option" where
  "instrument_update_from_trade env t st = replay_trade env [] t st"

section \<open>Order snapshots\<close>

definition snapshot_retires :: "rounding \<Rightarrow> ('e, 'i, 'a) order_snapshot \<Rightarrow> bool option" where
  "snapshot_retires R snap =
     (case o_state snap of
        Inactive _ \<Rightarrow> Some (\<not> is_outcome_unknown (o_state snap))
      | Active (Open op) \<Rightarrow> map_option (\<lambda>r. r = 0) (quantity_remaining R op (o_quantity snap))
      | Active _ \<Rightarrow> Some False)"

text \<open>The venue's id of the order, where the snapshot settles which order it is.\<close>

definition ack_exchange_id ::
  "rounding \<Rightarrow> ('e, 'i, 'a) order_snapshot \<Rightarrow> ('e, 'a, 'i, 'd) instrument_state \<Rightarrow> order_id option option" where
  "ack_exchange_id R snap st = do {
     retires \<leftarrow> snapshot_retires R snap;
     let current = map_option o_state (tracked (is_orders st) (key_cid (o_key snap)));
     let settles = (case current of
         Some (OpenInFlight _) \<Rightarrow> True
       | Some (Open _) \<Rightarrow> retires
       | _ \<Rightarrow> False);
     Some (if \<not> settles then None
       else (case o_state snap of
           Active (Open op) \<Rightarrow> assigned (open_id op)
         | Inactive (FullyFilled f) \<Rightarrow> Some (filled_id f)
         | _ \<Rightarrow> None))
   }"

definition note_rejected_open ::
  "('a, 'i) engine_env \<Rightarrow> ('e, 'i, 'a) order_snapshot \<Rightarrow> ('e, 'a, 'i, 'd) instrument_state
     \<Rightarrow> ('e, 'a, 'i, 'd) instrument_state" where
  "note_rejected_open env snap st =
     (case o_state snap of
        Inactive (OpenFailed e) \<Rightarrow>
          if \<not> order_error_is_outcome_unknown e \<and> \<not> is_contradicted_never_placed (is_orders st) snap then
            st\<lparr>is_tear_sheet := record_open_rejected (en_reason env e) (is_tear_sheet st)\<rparr>
          else st
      | _ \<Rightarrow> st)"

fun replay_deferred ::
  "('a, 'i) engine_env \<Rightarrow> (trade_id \<times> reduce_only) list \<Rightarrow> ('a, 'i) trade list \<Rightarrow> ('a, 'i) fills_applied
     \<Rightarrow> ('e, 'a, 'i, 'd) instrument_state
     \<Rightarrow> (('a, 'i) fills_applied \<times> ('e, 'a, 'i, 'd) instrument_state) option" where
  "replay_deferred env ros [] applied st = Some (applied, st)"
| "replay_deferred env ros (f # fs) applied st = do {
     (replayed, st') \<leftarrow> replay_trade env ros f st;
     replay_deferred env ros fs
       \<lparr>fa_exited = (case fa_exited replayed of None \<Rightarrow> fa_exited applied | Some x \<Rightarrow> Some x),
        fa_capped = fa_capped applied @ fa_capped replayed\<rparr> st'
   }"

text \<open>What an acknowledgement brings: the index of the order, and the fills put aside for it.\<close>

definition settle_ack ::
  "('a, 'i) engine_env \<Rightarrow> (trade_id \<times> reduce_only) list \<Rightarrow> client_order_id \<Rightarrow> order_id \<Rightarrow> position_id option
     \<Rightarrow> ('e, 'a, 'i, 'd) instrument_state
     \<Rightarrow> (('a, 'i) fills_applied \<times> ('e, 'a, 'i, 'd) instrument_state) option" where
  "settle_ack env ros c oid pid st = do {
     let st1 = st\<lparr>is_exchange_ids := (is_exchange_ids st)(oid \<mapsto> c), is_book := acknowledge c oid (is_book st),
       is_position_ids := (case (pid, is_position_ids st c) of
           (Some p, None) \<Rightarrow> (is_position_ids st)(c \<mapsto> p)
         | _ \<Rightarrow> is_position_ids st)\<rparr>;
     if is_pending_fills st1 = [] then Some (fills_none, st1)
     else do {
       let deferred = filter (\<lambda>f. tr_order_id f = oid) (is_pending_fills st1);
       (applied, st2) \<leftarrow> replay_deferred env ros deferred fills_none
         (st1\<lparr>is_pending_fills := filter (\<lambda>f. tr_order_id f \<noteq> oid) (is_pending_fills st1)\<rparr>);
       st3 \<leftarrow> cleanup_routing_tables env st2;
       Some (applied, st3)
     }
   }"

definition replay_order_snapshot ::
  "('a, 'i) engine_env \<Rightarrow> (trade_id \<times> reduce_only) list \<Rightarrow> ('e, 'i, 'a) order_snapshot
     \<Rightarrow> ('e, 'a, 'i, 'd) instrument_state
     \<Rightarrow> (('a, 'i) fills_applied \<times> ('e, 'a, 'i, 'd) instrument_state) option" where
  "replay_order_snapshot env ros snap st = do {
     let c = key_cid (o_key snap);
     let st0 = note_rejected_open env snap st;
     let pid = is_position_ids st0 c;
     ack \<leftarrow> ack_exchange_id (en_round env) snap st0;
     orders \<leftarrow> update_from_order_snapshot (en_round env) snap (is_orders st0);
     st1 \<leftarrow> cleanup_routing_tables env (st0\<lparr>is_orders := orders\<rparr>);
     case ack of
       None \<Rightarrow> Some (fills_none, st1)
     | Some oid \<Rightarrow> settle_ack env ros c oid pid st1
   }"

definition instrument_update_from_order_snapshot ::
  "('a, 'i) engine_env \<Rightarrow> ('e, 'i, 'a) order_snapshot \<Rightarrow> ('e, 'a, 'i, 'd) instrument_state
     \<Rightarrow> (('a, 'i) fills_applied \<times> ('e, 'a, 'i, 'd) instrument_state) option" where
  "instrument_update_from_order_snapshot env snap st = replay_order_snapshot env [] snap st"

definition instrument_update_from_cancel_response ::
  "('a, 'i) engine_env \<Rightarrow> ('e, 'i, 'a) order_response_cancel \<Rightarrow> ('e, 'a, 'i, 'd) instrument_state
     \<Rightarrow> ('e, 'a, 'i, 'd) instrument_state option" where
  "instrument_update_from_cancel_response env resp st = do {
     st1 \<leftarrow> cleanup_routing_tables env (st\<lparr>is_orders := update_from_cancel_response resp (is_orders st)\<rparr>);
     Some (if is_pending_fills st1 \<noteq> [] \<and> \<not> has_open_in_flight st1 then st1\<lparr>is_pending_fills := []\<rparr> else st1)
   }"

section \<open>Account snapshots\<close>

text \<open>What the operation reads of an account snapshot of the instrument.\<close>

record ('e, 'i, 'a) instrument_account_snapshot =
  ia_instrument :: 'i
  ia_orders :: "('e, 'i, 'a) order_snapshot list"
  ia_orders_complete :: bool

fun apply_order_snapshots ::
  "('a, 'i) engine_env \<Rightarrow> ('e, 'i, 'a) order_snapshot list \<Rightarrow> ('e, 'a, 'i, 'd) instrument_state
     \<Rightarrow> ('e, 'a, 'i, 'd) instrument_state option" where
  "apply_order_snapshots env [] st = Some st"
| "apply_order_snapshots env (s # ss) st = do {
     (_, st') \<leftarrow> instrument_update_from_order_snapshot env s st;
     apply_order_snapshots env ss st'
   }"

definition retire_unlisted ::
  "string list \<Rightarrow> (client_order_id \<rightharpoonup> venue_order_id) \<Rightarrow> client_order_id set \<Rightarrow> ('e, 'i) orders \<Rightarrow> ('e, 'i) orders" where
  "retire_unlisted cids open_at_resync listed orders = fold (\<lambda>c orders.
     case open_at_resync c of
       None \<Rightarrow> orders
     | Some i \<Rightarrow> if c \<in> listed then orders else snd (remove_open c i orders)) cids orders"

definition update_from_account_snapshot ::
  "('a, 'i) engine_env \<Rightarrow> ('e, 'i, 'a) instrument_account_snapshot \<Rightarrow> ('e, 'a, 'i, 'd) instrument_state
     \<Rightarrow> ('e, 'a, 'i, 'd) instrument_state option" where
  "update_from_account_snapshot env snap st = do {
     st1 \<leftarrow> apply_order_snapshots env (ia_orders snap) st;
     let open_at_resync = is_open_at_resync st1;
     let st2 = st1\<lparr>is_open_at_resync := Map.empty\<rparr>;
     let st3 = (if ia_orders_complete snap
       then st2\<lparr>is_orders := retire_unlisted (en_order env (dom open_at_resync)) open_at_resync
         ((\<lambda>ord. key_cid (o_key ord)) ` set (ia_orders snap)) (is_orders st2)\<rparr>
       else st2);
     cleanup_routing_tables env st3
   }"

definition begin_account_resync :: "('e, 'a, 'i, 'd) instrument_state \<Rightarrow> ('e, 'a, 'i, 'd) instrument_state" where
  "begin_account_resync st = st\<lparr>is_open_at_resync := (\<lambda>c.
     case tracked (is_orders st) c of
       None \<Rightarrow> None
     | Some ord \<Rightarrow> (case o_state ord of Open op \<Rightarrow> Some (open_id op) | _ \<Rightarrow> None))\<rparr>"

text \<open>The open orders as an account snapshot lists them, in the order the tracked ones come out.\<close>

definition generate_account_snapshot ::
  "'x \<Rightarrow> ('e, 'a, 'i, 'd) instrument_state \<Rightarrow> string list \<Rightarrow> ('x, instrument_name, 'b) instrument_account_snapshot" where
  "generate_account_snapshot exchange st cids =
     \<lparr>ia_instrument = in_name_exchange (is_instrument st),
      ia_orders = List.map_filter (\<lambda>c. case tracked (is_orders st) c of
          None \<Rightarrow> None
        | Some ord \<Rightarrow> (case o_state ord of
            Open op \<Rightarrow> Some \<lparr>o_key = \<lparr>key_exchange = exchange, key_instrument = in_name_exchange (is_instrument st),
                key_strategy = key_strategy (o_key ord), key_cid = key_cid (o_key ord)\<rparr>,
              o_side = o_side ord, o_price = o_price ord, o_quantity = o_quantity ord, o_kind = o_kind ord,
              o_time_in_force = o_time_in_force ord, o_state = Active (Open op)\<rparr>
          | _ \<Rightarrow> None)) cids,
      ia_orders_complete = False\<rparr>"

section \<open>Cash flows and market data\<close>

text \<open>\<open>CarryUpdate\<close>: what a position did with a flow, or why none was given it.\<close>

datatype flow_update =
    FlowBooked carry_update
  | NoOpenPosition
  | BeforeEntry
  | BeforeHistory
  | LoanOfOtherOrder
  | SeveralOpen

definition on_borrow_period :: "('a, 'i) asset_flow \<Rightarrow> cash_flow_period option" where
  "on_borrow_period flow =
     (case cf_kind flow of MarginInterest _ _ (Some OnBorrow) \<Rightarrow> cf_period flow | _ \<Rightarrow> None)"

text \<open>The open position a flow falls to.\<close>

definition flow_position ::
  "('a, 'i) asset_flow \<Rightarrow> ('a, 'i) position_manager
     \<Rightarrow> flow_update + (position_id \<times> ('a, 'i) position)" where
  "flow_position flow m =
     (case cf_loan flow of
        Some loan \<Rightarrow>
          (case filter (\<lambda>(i, p). cl_order_id loan \<in> set (ps_orders_enter p)) (pm_positions m) of
             [found] \<Rightarrow> Inr found
           | [] \<Rightarrow> Inl LoanOfOtherOrder
           | _ \<Rightarrow> Inl SeveralOpen)
      | None \<Rightarrow> (case pm_positions m of [found] \<Rightarrow> Inr found | _ \<Rightarrow> Inl SeveralOpen))"

text \<open>Why a flow that names no loan is too early for a position.\<close>

definition flow_too_early ::
  "time \<Rightarrow> time option \<Rightarrow> ('a, 'i) asset_flow \<Rightarrow> ('a, 'i) position \<Rightarrow> flow_update option" where
  "flow_too_early session_start history_start flow p =
     (if cf_loan flow = None \<and> cf_time_exchange flow < ps_time_enter p then
        (case on_borrow_period flow of
           Some period \<Rightarrow>
             if period_contains (ps_time_enter p) period then
               (let known_from = (case history_start of None \<Rightarrow> session_start | Some h \<Rightarrow> max h session_start)
                in if cp_start period < known_from then Some BeforeHistory else None)
             else Some BeforeEntry
         | None \<Rightarrow> Some BeforeEntry)
      else None)"

definition carry_slot_of :: "'a underlying \<Rightarrow> 'a \<Rightarrow> 'a carry_slot" where
  "carry_slot_of u a = (if a = un_quote u then CarryQuote else if a = un_base u then CarryBase else CarryOther a)"

definition update_from_cash_flow ::
  "rounding \<Rightarrow> ('a, 'i) asset_flow \<Rightarrow> ('e, 'a, 'i, 'd) instrument_state
     \<Rightarrow> flow_update \<times> ('e, 'a, 'i, 'd) instrument_state" where
  "update_from_cash_flow R flow st =
     (let m = is_position st in
      if pm_positions m = [] then (NoOpenPosition, st)
      else case flow_position flow m of
        Inl no \<Rightarrow> (no, st)
      | Inr (i, p) \<Rightarrow>
          (case flow_too_early (tg_time_engine_start (is_tear_sheet st)) (pm_time_history_start m) flow p of
             Some no \<Rightarrow> (no, st)
           | None \<Rightarrow>
               (case apply_carry R (carry_slot_of (in_underlying (is_instrument st)) (cf_asset flow))
                    (cf_amount flow) (cf_time_exchange flow) p of
                 (done_as, p') \<Rightarrow> (FlowBooked done_as,
                   st\<lparr>is_position := m\<lparr>pm_positions := im_insert i p' (pm_positions m)\<rparr>\<rparr>))))"

fun mark_positions ::
  "rounding \<Rightarrow> time \<Rightarrow> decimal \<Rightarrow> (position_id, ('a, 'i) position) index_map
     \<Rightarrow> (position_id, ('a, 'i) position) index_map option" where
  "mark_positions R t price [] = Some []"
| "mark_positions R t price ((i, p) # ps) = do {
     (_, p') \<leftarrow> update_pnl_unrealised R price (p\<lparr>ps_time_exchange_update := t\<rparr>);
     ps' \<leftarrow> mark_positions R t price ps;
     Some ((i, p') # ps')
   }"

text \<open>The data of an instrument is the user's: how it takes an event in, and its price.\<close>

definition update_from_market ::
  "rounding \<Rightarrow> ('m \<Rightarrow> 'd \<Rightarrow> 'd) \<Rightarrow> ('d \<Rightarrow> decimal option) \<Rightarrow> time \<Rightarrow> 'm \<Rightarrow> ('e, 'a, 'i, 'd) instrument_state
     \<Rightarrow> ('e, 'a, 'i, 'd) instrument_state option" where
  "update_from_market R data_process data_price t event st = do {
     let st' = st\<lparr>is_data := data_process event (is_data st)\<rparr>;
     case data_price (is_data st') of
       None \<Rightarrow> Some st'
     | Some price \<Rightarrow> do {
         ps \<leftarrow> mark_positions R t price (pm_positions (is_position st'));
         Some (st'\<lparr>is_position := (is_position st')\<lparr>pm_positions := ps\<rparr>\<rparr>)
       }
   }"

end
