(* ===== verification/Instrument_Laws.thy ===== *)
theory Instrument_Laws
  imports Instrument_State Holding_Laws Statistics_Laws
begin

text \<open>
  What the state of an instrument keeps over any history, where the arithmetic is exact: no
  operation panics, the routing tables stay bounded, and a fill in netting mode is booked whole.
\<close>

section \<open>The tear sheet\<close>

definition sheet_counts :: "pnl_returns \<Rightarrow> bool" where
  "sheet_counts p \<longleftrightarrow> (\<exists>xs ys. pr_total p = data_set_of xs \<and> pr_losses p = data_set_of ys)"

definition sheet_load :: "tear_sheet_generator \<Rightarrow> nat" where
  "sheet_load g = unat (mg_count (tg_pnl_drawdown_mean g))"

definition sheet_pnl :: "tear_sheet_generator \<Rightarrow> decimal" where
  "sheet_pnl g = pr_pnl_raw (tg_pnl_returns g)"

text \<open>A change that only bumps counters.\<close>

definition same_sheet :: "tear_sheet_generator \<Rightarrow> tear_sheet_generator \<Rightarrow> bool" where
  "same_sheet g g' \<longleftrightarrow> tg_pnl_returns g' = tg_pnl_returns g \<and> tg_pnl_drawdown_mean g' = tg_pnl_drawdown_mean g
     \<and> tg_time_engine_start g' = tg_time_engine_start g"

named_theorems same_sheets \<open>the counters of a tear sheet leave its statistics alone\<close>

lemma same_sheet_refl [same_sheets]: "same_sheet g g"
  by (simp add: same_sheet_def)

lemma same_sheet_trans: "same_sheet g g' \<Longrightarrow> same_sheet g' g'' \<Longrightarrow> same_sheet g g''"
  by (simp add: same_sheet_def)

lemma same_sheet_counters [same_sheets]:
  "same_sheet g (record_open_requested g)" "same_sheet g (record_open_rejected reason g)"
  "same_sheet g (record_fill_routed_by_fallback i detail g)" "same_sheet g (record_fill_unmatched i detail g)"
  "same_sheet g (record_fill_forced g)" "same_sheet g (record_fill_unallocated g)"
  "same_sheet g (record_fill_dust R q v g)" "same_sheet g (record_fill_free_base_traded R x g)"
  "same_sheet g (record_fill_reduce_only_capped R x g)"
  by (simp_all add: same_sheet_def record_open_requested_def record_open_rejected_def record_fallback_position_def
      record_fill_routed_by_fallback_def record_fill_unmatched_def record_fill_forced_def record_fill_unallocated_def
      record_fill_dust_def record_fill_free_base_traded_def record_fill_reduce_only_capped_def Let_def
      split: option.splits)

lemma pnl_update_exact:
  assumes "sheet_counts p"
  shows "\<exists>p'. pnl_returns_update Some px p = Some p' \<and> sheet_counts p' \<and> pr_pnl_raw p' = pr_pnl_raw p + net_of px"
proof -
  have ret: "calculate_pnl_return Some (net_of px) (px_price_entry_average px) (px_quantity_abs_max px) = Some (return_of px)"
    by (auto simp: calculate_pnl_return_def return_of_def dec_simps)
  have count: "\<exists>p'. pnl_returns_count Some (carried px) px q = Some p' \<and> sheet_counts p' \<and>
      pr_pnl_raw p' = pr_pnl_raw q + net_of px" if "sheet_counts q" for q
  proof -
    from that obtain xs ys where "pr_total q = data_set_of xs" "pr_losses q = data_set_of ys"
      by (auto simp: sheet_counts_def)
    then show ?thesis
      by (auto simp: pnl_returns_count_def sheet_counts_def held_add_def dec_simps Let_def ret
          net_of_def [symmetric] data_set_update_snoc)
  qed
  have "carry_valued Some px = Inr (carried px) \<or> carry_valued Some px = Inl BaseCarryUnpriced \<and> px_carry px = carried px"
    by (auto simp: carry_valued_def carried_def base_value_at_def dec_simps split: option.splits)
  then show ?thesis
    using count [OF assms] count [of "p\<lparr>pr_positions_carry_unpriced := sat_succ (pr_positions_carry_unpriced p)\<rparr>"] assms
    by (auto simp: pnl_returns_update_def sheet_counts_def)
qed

text \<open>A tear sheet that can still take \<open>n\<close> more samples.\<close>

definition sheet_ok :: "nat \<Rightarrow> tear_sheet_generator \<Rightarrow> bool" where
  "sheet_ok n g \<longleftrightarrow> sheet_counts (tg_pnl_returns g) \<and> sheet_load g + n < 2 ^ 64 - 1"

lemma sheet_ok_mono: "sheet_ok n g \<Longrightarrow> m \<le> n \<Longrightarrow> sheet_ok m g"
  by (simp add: sheet_ok_def)

lemma same_sheet_ok: "same_sheet g g' \<Longrightarrow> sheet_ok n g' = sheet_ok n g" "same_sheet g g' \<Longrightarrow> sheet_pnl g' = sheet_pnl g"
  by (simp_all add: same_sheet_def sheet_ok_def sheet_load_def sheet_pnl_def)

lemma record_pnl_ok:
  assumes "sheet_ok (Suc n) g"
  shows "\<exists>g'. record_pnl_at Some t g = Some g' \<and> sheet_ok n g' \<and> sheet_pnl g' = sheet_pnl g \<and>
    tg_time_engine_start g' = tg_time_engine_start g"
proof -
  obtain g' where g': "record_pnl_at Some t g = Some g'"
    "unat (mg_count (tg_pnl_drawdown_mean g')) \<le> unat (mg_count (tg_pnl_drawdown_mean g)) + 1"
    using record_pnl_exact [of g t] assms by (auto simp: sheet_ok_def sheet_load_def)
  moreover have "tg_time_engine_start g' = tg_time_engine_start g"
    using g'(1) by (auto simp: record_pnl_at_def bind_eq_Some_conv)
  ultimately show ?thesis
    using record_pnl_keeps [OF g'(1)] assms by (auto simp: sheet_ok_def sheet_load_def sheet_pnl_def)
qed

lemma fee_unattributed_ok:
  assumes "sheet_ok (Suc n) g"
  shows "\<exists>g'. record_fee_unattributed Some fee t g = Some g' \<and> sheet_ok n g' \<and> sheet_pnl g' = sheet_pnl g - fee"
proof -
  let ?g = "g\<lparr>tg_pnl_returns := pnl_returns_fee_unattributed Some fee (tg_pnl_returns g)\<rparr>"
  have "sheet_ok (Suc n) ?g" "sheet_pnl ?g = sheet_pnl g - fee"
    using assms by (simp_all add: sheet_ok_def sheet_counts_def sheet_load_def sheet_pnl_def
        pnl_returns_fee_unattributed_def held_sub_def held_add_def dec_simps)
  with record_pnl_ok [of n ?g t] show ?thesis by (auto simp: record_fee_unattributed_def)
qed

lemma sheet_update_ok:
  assumes "sheet_ok (Suc n) g"
  shows "\<exists>g'. tear_sheet_update_from_position Some px g = Some g' \<and> sheet_ok n g' \<and> sheet_pnl g' = sheet_pnl g + net_of px"
proof -
  obtain p where p: "pnl_returns_update Some px (tg_pnl_returns g) = Some p" "sheet_counts p"
    "pr_pnl_raw p = pr_pnl_raw (tg_pnl_returns g) + net_of px"
    using pnl_update_exact assms by (fastforce simp: sheet_ok_def)
  let ?g = "g\<lparr>tg_pnl_returns := p\<rparr>"
  have "sheet_ok (Suc n) ?g" "sheet_pnl ?g = sheet_pnl g + net_of px"
    using assms p by (simp_all add: sheet_ok_def sheet_load_def sheet_pnl_def)
  with record_pnl_ok [of n ?g "px_time_exit px"] p(1) show ?thesis
    by (auto simp: tear_sheet_update_from_position_def)
qed

section \<open>Positions\<close>

text \<open>The manager's positions, whatever prices they were entered at.\<close>

lemma manager_range:
  assumes "manager_ok i csize UNIV m"
  shows "\<exists>lo hi. manager_ok i csize {lo..hi} m \<and> price \<in> {lo..hi}"
proof -
  obtain lo hi where r: "\<forall>t \<in> set (price # map (\<lambda>(k, p). ps_price_entry_average p) (pm_positions m)). t \<in> {lo..hi}"
    using price_range [of "price # map (\<lambda>(k, p). ps_price_entry_average p) (pm_positions m)" "\<lambda>x. x"] by blast
  have "position_ok i csize {lo..hi} p" if "(k, p) \<in> set (pm_positions m)" for k p
    using that r assms by (fastforce simp: manager_ok_def position_ok_def)
  then have "manager_ok i csize {lo..hi} m" using assms by (auto simp: manager_ok_def)
  moreover have "price \<in> {lo..hi}" using r by simp
  ultimately show ?thesis by blast
qed

lemma manager_ok_UNIV: "manager_ok i csize S m \<Longrightarrow> manager_ok i csize UNIV m"
  by (fastforce simp: manager_ok_def position_ok_def)

lemma update_with_id_total:
  assumes "manager_ok i csize UNIV m" and "tr_instrument t = i"
    and "pm_mode m = Netting \<longrightarrow> k = position_id_netting"
  shows "\<exists>out m'. update_from_trade_with_id Some t k csize m = Some (out, m') \<and> manager_ok i csize UNIV m' \<and>
    pm_mode m' = pm_mode m \<and> manager_net m' = manager_net m + trade_net t \<and>
    manager_worth price m' + outcome_realised out = manager_worth price m + trade_worth price csize t + outcome_fees out"
proof -
  obtain lo hi where "manager_ok i csize {lo..hi} m" "tr_price t \<in> {lo..hi}"
    using manager_range [OF assms(1)] by blast
  from update_with_id_exact [OF this(1) assms(2) this(2) assms(3), of price]
  obtain out m' where r: "update_from_trade_with_id Some t k csize m = Some (out, m')" "manager_ok i csize {lo..hi} m'"
      "pm_mode m' = pm_mode m" "manager_net m' = manager_net m + trade_net t"
      "manager_worth price m' + outcome_realised out = manager_worth price m + trade_worth price csize t + outcome_fees out"
    by auto
  show ?thesis using r manager_ok_UNIV [OF r(2)] by (intro exI [of _ out] exI [of _ m']) simp
qed

text \<open>Carry stays where it was booked: with the open position, or with the one that exits.\<close>

definition manager_carry :: "('a, 'i) position_manager \<Rightarrow> decimal" where
  "manager_carry m = (\<Sum>(i, p)\<leftarrow>pm_positions m. ps_carry p)"

definition no_base_carry :: "('a, 'i) position_manager \<Rightarrow> bool" where
  "no_base_carry m \<longleftrightarrow> (\<forall>(k, p) \<in> set (pm_positions m). ac_base (ps_carry_assets p) = 0)"

lemma realised_carry:
  "ps_carry (snd (update_pnl_realised R q price fee p)) = ps_carry p"
  "ps_carry_assets (snd (update_pnl_realised R q price fee p)) = ps_carry_assets p"
  by (simp_all add: update_pnl_realised_def split: option.splits)

lemma increase_carry:
  "position_increase R t p = Some p' \<Longrightarrow> ps_carry p' = ps_carry p \<and> ps_carry_assets p' = ps_carry_assets p"
  by (auto simp: position_increase_def bind_eq_Some_conv Let_def dest!: post_trade_fields)

lemma reduce_carry:
  "position_reduce R t p = Some p' \<Longrightarrow> ps_carry p' = ps_carry p \<and> ps_carry_assets p' = ps_carry_assets p"
  by (auto simp: position_reduce_def bind_eq_Some_conv Let_def realised_carry dest!: post_trade_fields)

lemma close_carry:
  "position_close R t p = Some x \<Longrightarrow> px_carry x = ps_carry p \<and> px_carry_assets x = ps_carry_assets p"
  by (auto simp: position_close_def bind_eq_Some_conv Let_def into_exited_def realised_carry dest!: post_trade_fields)

lemma flip_carry:
  "position_flip R t p = Some (p', x) \<Longrightarrow> px_carry x = ps_carry p \<and> px_carry_assets x = ps_carry_assets p \<and>
    ps_carry p' = 0 \<and> ps_carry_assets p' = asset_carry_default"
  by (auto simp: position_flip_def bind_eq_Some_conv Let_def into_exited_def position_from_trade_def realised_carry
      dest!: post_trade_fields)

lemma position_update_carry:
  assumes "position_update_from_trade R t p = Some (u, c)"
  shows "worth_of ps_carry u + worth_of px_carry c = ps_carry p"
    and "ac_base (ps_carry_assets p) = 0 \<Longrightarrow> (\<forall>p'. u = Some p' \<longrightarrow> ac_base (ps_carry_assets p') = 0) \<and>
      (\<forall>x. c = Some x \<longrightarrow> ac_base (px_carry_assets x) = 0)"
proof -
  let ?p = "p\<lparr>ps_trades := ps_trades p @ [tr_id t]\<rparr>"
  consider "u = Some p" "c = None" | p' where "u = Some p'" "c = None" "ps_carry p' = ps_carry ?p" "ps_carry_assets p' = ps_carry_assets ?p"
    | x where "u = None" "c = Some x" "px_carry x = ps_carry ?p" "px_carry_assets x = ps_carry_assets ?p"
    | p' x where "u = Some p'" "c = Some x" "px_carry x = ps_carry ?p" "px_carry_assets x = ps_carry_assets ?p"
      "ps_carry p' = 0" "ps_carry_assets p' = asset_carry_default"
    using assms unfolding position_update_from_trade_def Let_def
    by (auto split: if_splits dest!: increase_carry reduce_carry close_carry flip_carry)
  then show "worth_of ps_carry u + worth_of px_carry c = ps_carry p"
    and "ac_base (ps_carry_assets p) = 0 \<Longrightarrow> (\<forall>p'. u = Some p' \<longrightarrow> ac_base (ps_carry_assets p') = 0) \<and>
      (\<forall>x. c = Some x \<longrightarrow> ac_base (px_carry_assets x) = 0)"
    by (cases; auto simp: asset_carry_default_def)+
qed

lemma update_with_id_carry:
  assumes "manager_ok i csize S m" and "update_from_trade_with_id R t k csize m = Some (out, m')"
  shows "case out of
      TradeUnapplied f \<Rightarrow> m' = m
    | TradeApplied x \<Rightarrow> manager_carry m' + worth_of px_carry x = manager_carry m"
    and "no_base_carry m \<Longrightarrow> no_base_carry m' \<and> (\<forall>y. out = TradeApplied (Some y) \<longrightarrow> ac_base (px_carry_assets y) = 0)"
proof -
  have "(case out of
      TradeUnapplied f \<Rightarrow> m' = m
    | TradeApplied x \<Rightarrow> manager_carry m' + worth_of px_carry x = manager_carry m) \<and>
    (no_base_carry m \<longrightarrow> no_base_carry m' \<and> (\<forall>y. out = TradeApplied (Some y) \<longrightarrow> ac_base (px_carry_assets y) = 0))"
  proof (cases "map_of (pm_positions m) k")
    case None
    then have new: "k \<notin> fst ` set (pm_positions m)" by (simp add: map_of_eq_None_iff)
    then have rem: "im_remove k (pm_positions m) = pm_positions m" by (rule im_remove_id)
    have "im_wf (pm_positions m)" using assms(1) by (simp add: manager_ok_def)
    with None assms(2) new rem show ?thesis
      by (auto simp: update_from_trade_with_id_def manager_carry_def im_sum_insert_new position_from_trade_def no_base_carry_def
          im_set_insert asset_carry_default_def split: if_splits)
  next
    case (Some p)
    obtain u c where u: "position_update_from_trade R t (p\<lparr>ps_contract_size := csize\<rparr>) = Some (u, c)"
      using assms(2) Some by (auto simp: update_from_trade_with_id_def)
    let ?c = "map_option (\<lambda>x. x\<lparr>px_position_id := k\<rparr>) c"
    let ?rest = "im_remove k (pm_positions m)"
    obtain m1 where m1: "update_from_trade_with_id R t k csize m = Some (TradeApplied ?c, m1)"
      "pm_positions m1 = (case u of None \<Rightarrow> ?rest | Some p' \<Rightarrow> im_insert k p' ?rest)" "pm_mode m1 = pm_mode m"
      using update_with_id_held [OF Some u] by blast
    have m': "m' = m1" "out = TradeApplied ?c" using m1(1) assms(2) by simp_all
    have new: "k \<notin> fst ` set ?rest" by (simp add: im_remove_keys)
    have wf: "im_wf (pm_positions m)" "im_wf ?rest" using assms(1) by (simp_all add: manager_ok_def)
    have "manager_carry m1 = worth_of ps_carry u + (\<Sum>(i, p)\<leftarrow>?rest. ps_carry p)"
      using new by (cases u) (simp_all add: manager_carry_def m1(2) im_sum_insert_new)
    moreover have "worth_of px_carry ?c = worth_of px_carry c" by (cases c) simp_all
    ultimately have carry: "manager_carry m' + worth_of px_carry ?c = manager_carry m"
      using position_update_carry(1) [OF u] im_sum_remove [OF wf(1), of ps_carry k] Some m'(1)
      by (simp add: manager_carry_def)
    have "no_base_carry m' \<and> (\<forall>y. ?c = Some y \<longrightarrow> ac_base (px_carry_assets y) = 0)" if "no_base_carry m"
    proof -
      have "ac_base (ps_carry_assets p) = 0" using that map_of_SomeD [OF Some] by (auto simp: no_base_carry_def)
      with position_update_carry(2) [OF u] that wf(2) show ?thesis
        by (cases u) (auto simp: no_base_carry_def m' m1(2) im_set_insert im_set_remove)
    qed
    with carry m'(2) show ?thesis by simp
  qed
  then show "case out of
      TradeUnapplied f \<Rightarrow> m' = m
    | TradeApplied x \<Rightarrow> manager_carry m' + worth_of px_carry x = manager_carry m"
    and "no_base_carry m \<Longrightarrow> no_base_carry m' \<and> (\<forall>y. out = TradeApplied (Some y) \<longrightarrow> ac_base (px_carry_assets y) = 0)"
    by blast+
qed

section \<open>The invariant\<close>

interpretation routing_memory: recent_memory "\<lambda>oid. retired_routing_insert oid (v oid)" "map fst" max_retired_routing for v
proof
  show "0 < max_retired_routing" by (simp add: max_retired_routing_def)
next
  fix oid and m :: "(order_id, position_id) index_map"
  assume "oid \<in> set (map fst m)"
  then show "map fst (retired_routing_insert oid (v oid) m) = map fst m"
    by (simp add: retired_routing_insert_def im_keys_insert_old)
next
  fix oid and m :: "(order_id, position_id) index_map"
  assume new: "oid \<notin> set (map fst m)" and len: "length (map fst m) \<le> max_retired_routing"
  then have "oid \<notin> fst ` set (tl m)" by (auto dest: list_tl_mem)
  then show "map fst (retired_routing_insert oid (v oid) m) =
      (if length (map fst m) = max_retired_routing then tl (map fst m) else map fst m) @ [oid]"
    using new len by (simp add: retired_routing_insert_def im_keys_insert_new map_tl)
qed

definition routing_ok :: "(order_id, position_id) index_map \<Rightarrow> bool" where
  "routing_ok m \<longleftrightarrow> im_wf m \<and> length m \<le> max_retired_routing"

lemma routing_insert_ok: "routing_ok m \<Longrightarrow> routing_ok (retired_routing_insert oid pid m)"
  using routing_memory.keep_length [of m oid "\<lambda>_. pid"] routing_memory.keep_distinct [of m oid "\<lambda>_. pid"]
  by (simp add: routing_ok_def im_wf_def)

lemma routing_fold_ok: "routing_ok m \<Longrightarrow> routing_ok (fold (\<lambda>(oid, pid). retired_routing_insert oid pid) rs m)"
  by (induction rs arbitrary: m) (auto simp: routing_insert_ok)

definition csize_of :: "('e, 'a, 'i, 'd) instrument_state \<Rightarrow> decimal" where
  "csize_of st = kind_contract_size (in_kind (is_instrument st))"

definition instrument_ok :: "nat \<Rightarrow> ('e, 'a, 'i, 'd) instrument_state \<Rightarrow> bool" where
  "instrument_ok n st \<longleftrightarrow>
     manager_ok (is_key st) (csize_of st) UNIV (is_position st) \<and> book_inv (is_book st) \<and>
     routing_ok (is_retired_routing st) \<and>
     (pm_mode (is_position st) = Netting \<longrightarrow> is_retired_routing st = [] \<and> is_pending_fills st = []) \<and>
     (\<forall>f \<in> set (is_pending_fills st). tr_instrument f = is_key st) \<and>
     sheet_ok (n + 2 * length (is_pending_fills st)) (is_tear_sheet st)"

text \<open>What the engine counts an instrument as worth at a price: its positions and what it realised.\<close>

definition engine_worth :: "decimal \<Rightarrow> ('e, 'a, 'i, 'd) instrument_state \<Rightarrow> decimal" where
  "engine_worth price st = manager_worth price (is_position st) + manager_carry (is_position st) + sheet_pnl (is_tear_sheet st)"

definition plain_carry :: "('e, 'a, 'i, 'd) instrument_state \<Rightarrow> bool" where
  "plain_carry st \<longleftrightarrow> no_base_carry (is_position st)"

lemma instrument_ok_mono: "instrument_ok n st \<Longrightarrow> m \<le> n \<Longrightarrow> instrument_ok m st"
  by (auto simp: instrument_ok_def elim: sheet_ok_mono)

text \<open>A state whose positions and tear sheet moved on, and nothing else.\<close>

definition booked :: "('e, 'a, 'i, 'd) instrument_state \<Rightarrow> ('e, 'a, 'i, 'd) instrument_state \<Rightarrow> bool" where
  "booked st st' \<longleftrightarrow> (\<exists>m g. st' = st\<lparr>is_position := m, is_tear_sheet := g\<rparr> \<and> pm_mode m = pm_mode (is_position st))"

lemma booked_sheet: "booked st (st\<lparr>is_tear_sheet := g\<rparr>)"
  unfolding booked_def by (rule exI [of _ "is_position st"], rule exI [of _ g]) simp

lemma booked_refl: "booked st st"
  unfolding booked_def by (rule exI [of _ "is_position st"], rule exI [of _ "is_tear_sheet st"]) simp

lemma booked_trans: "booked st st' \<Longrightarrow> booked st' st'' \<Longrightarrow> booked st st''"
  unfolding booked_def by (elim exE conjE) (simp, metis)

lemma booked_fields:
  assumes "booked st st'"
  shows "is_key st' = is_key st" "is_instrument st' = is_instrument st" "is_orders st' = is_orders st"
    "is_position_ids st' = is_position_ids st" "is_pending_fills st' = is_pending_fills st"
    "is_exchange_ids st' = is_exchange_ids st" "is_retired_routing st' = is_retired_routing st" "is_book st' = is_book st"
    "pm_mode (is_position st') = pm_mode (is_position st)" "csize_of st' = csize_of st" "is_fee_model st' = is_fee_model st"
  using assms by (auto simp: booked_def csize_of_def)

lemma sheet_step_ok:
  assumes "instrument_ok n st" and "sheet_ok (m + 2 * length (is_pending_fills st)) g"
  shows "instrument_ok m (st\<lparr>is_tear_sheet := g\<rparr>)"
  using assms by (simp add: instrument_ok_def csize_of_def)

lemma same_sheet_step:
  assumes "instrument_ok n st" and "same_sheet (is_tear_sheet st) g"
  shows "instrument_ok n (st\<lparr>is_tear_sheet := g\<rparr>)" and "engine_worth price (st\<lparr>is_tear_sheet := g\<rparr>) = engine_worth price st"
  using assms same_sheet_ok by (auto simp: instrument_ok_def csize_of_def engine_worth_def)

lemma cleanup_ok:
  assumes "instrument_ok n st"
  shows "\<exists>st'. cleanup_routing_tables env st = Some st' \<and> instrument_ok n st' \<and> is_key st' = is_key st \<and>
    is_instrument st' = is_instrument st \<and> is_position st' = is_position st \<and> is_tear_sheet st' = is_tear_sheet st \<and>
    is_orders st' = is_orders st \<and> is_pending_fills st' = is_pending_fills st \<and> is_fee_model st' = is_fee_model st"
proof -
  obtain b where b: "retire_untracked (is_tracked st) (is_book st) = Some b" "book_inv b"
    using step_untracked [of "is_book st" "is_tracked st"] assms by (auto simp: instrument_ok_def book_step_ok_def)
  let ?r = "case pm_mode (is_position st) of
      Hedging \<Rightarrow> fold (\<lambda>(oid, pid). retired_routing_insert oid pid)
        (demoted_routes (en_order env (dom (is_exchange_ids st))) st) (is_retired_routing st)
    | Netting \<Rightarrow> is_retired_routing st"
  have "routing_ok ?r" "pm_mode (is_position st) = Netting \<longrightarrow> ?r = []"
    using assms routing_fold_ok by (auto simp: instrument_ok_def split: oms_mode.split)
  with b assms show ?thesis
    by (auto simp: cleanup_routing_tables_def Let_def instrument_ok_def csize_of_def)
qed

text \<open>What one fill costs the tear sheet, and what it does to the worth of the instrument.\<close>

lemma unattributed_ok:
  assumes "instrument_ok (Suc n) st"
  shows "\<exists>st'. charge_unattributed Some t fees st = Some st' \<and> instrument_ok n st' \<and> booked st st' \<and>
    is_position st' = is_position st \<and> engine_worth price st' = engine_worth price st - fee_in_quote fees"
proof (cases "fee_in_quote fees = 0")
  case True
  then show ?thesis using instrument_ok_mono [OF assms, of n] booked_refl [of st] by (auto simp: charge_unattributed_def)
next
  case False
  have "sheet_ok (Suc (n + 2 * length (is_pending_fills st))) (is_tear_sheet st)" using assms by (simp add: instrument_ok_def)
  from fee_unattributed_ok [OF this, of "fee_in_quote fees" "tr_time_exchange t"] obtain g where
    g: "record_fee_unattributed Some (fee_in_quote fees) (tr_time_exchange t) (is_tear_sheet st) = Some g"
      "sheet_ok (n + 2 * length (is_pending_fills st)) g" "sheet_pnl g = sheet_pnl (is_tear_sheet st) - fee_in_quote fees" by auto
  with False sheet_step_ok [OF assms g(2)] booked_sheet show ?thesis
    by (auto simp: charge_unattributed_def engine_worth_def Let_def)
qed

lemma apply_ok:
  assumes ok: "instrument_ok (Suc n) st" and inst: "tr_instrument t = is_key st"
    and pid: "pm_mode (is_position st) = Netting \<longrightarrow> pid = position_id_netting"
  shows "\<exists>ex st'. apply_to_position Some t pid (csize_of st) st = Some (ex, st') \<and> instrument_ok n st' \<and> booked st st' \<and>
    manager_net (is_position st') = manager_net (is_position st) + trade_net t \<and>
    (plain_carry st \<longrightarrow> plain_carry st' \<and> engine_worth price st' = engine_worth price st + trade_worth price (csize_of st) t)"
proof -
  have mok: "manager_ok (is_key st) (csize_of st) UNIV (is_position st)" using ok by (simp add: instrument_ok_def)
  obtain out m where m: "update_from_trade_with_id Some t pid (csize_of st) (is_position st) = Some (out, m)"
      "manager_ok (is_key st) (csize_of st) UNIV m" "pm_mode m = pm_mode (is_position st)"
      "manager_net m = manager_net (is_position st) + trade_net t"
      "manager_worth price m + outcome_realised out =
        manager_worth price (is_position st) + trade_worth price (csize_of st) t + outcome_fees out"
    using update_with_id_total [OF mok inst pid, of price] by blast
  let ?st = "st\<lparr>is_position := m\<rparr>"
  have ok1: "instrument_ok (Suc n) ?st" using ok m(2,3) by (simp add: instrument_ok_def csize_of_def)
  have booked: "booked st ?st"
    unfolding booked_def using m(3) by (intro exI [of _ m] exI [of _ "is_tear_sheet st"]) simp
  note carry = update_with_id_carry [OF mok m(1)]
  show ?thesis
  proof (cases out)
    case (TradeUnapplied fees)
    from unattributed_ok [OF ok1, of t fees price] obtain st' where st': "charge_unattributed Some t fees ?st = Some st'"
      "instrument_ok n st'" "booked ?st st'" "is_position st' = m" "engine_worth price st' = engine_worth price ?st - fee_in_quote fees"
      by auto
    have "m = is_position st" using carry(1) TradeUnapplied by simp
    with st' TradeUnapplied m booked_trans [OF booked st'(3)] show ?thesis
      by (auto simp: apply_to_position_def plain_carry_def engine_worth_def)
  next
    case (TradeApplied y)
    show ?thesis
    proof (cases y)
      case None
      with TradeApplied m carry booked instrument_ok_mono [OF ok1, of n] show ?thesis
        by (auto simp: apply_to_position_def plain_carry_def engine_worth_def)
    next
      case (Some c)
      have sheet: "sheet_ok (Suc (n + 2 * length (is_pending_fills st))) (is_tear_sheet ?st)"
        using ok by (simp add: instrument_ok_def)
      from sheet_update_ok [OF sheet, of c] obtain g where g: "tear_sheet_update_from_position Some c (is_tear_sheet ?st) = Some g"
          "sheet_ok (n + 2 * length (is_pending_fills st)) g" "sheet_pnl g = sheet_pnl (is_tear_sheet st) + net_of c" by auto
      let ?st' = "?st\<lparr>is_tear_sheet := g\<rparr>"
      have "instrument_ok n ?st'" using sheet_step_ok [OF ok1, of n g] g(2) by simp
      moreover have "apply_to_position Some t pid (csize_of st) st = Some (Some c, ?st')"
        using m(1) TradeApplied Some g(1) by (simp add: apply_to_position_def)
      moreover have "booked st ?st'" using booked booked_sheet booked_trans by blast
      moreover have "plain_carry ?st' \<and> engine_worth price ?st' = engine_worth price st + trade_worth price (csize_of st) t"
        if "plain_carry st"
      proof -
        have "no_base_carry m" "ac_base (px_carry_assets c) = 0"
          using that carry(2) TradeApplied Some by (auto simp: plain_carry_def)
        moreover from this have "carried c = px_carry c" by (simp add: carried_def split: option.split)
        ultimately show ?thesis using carry(1) m(5) TradeApplied Some g(3)
          by (simp add: plain_carry_def engine_worth_def net_of_def)
      qed
      ultimately show ?thesis using m(4) by auto
    qed
  qed
qed

section \<open>One fill\<close>

lemma side_signed_sign: "side_signed sd q = side_sign sd * q"
  by (cases sd) (simp_all add: side_signed_def)

lemma holding_move_total: "\<exists>r. holding_move Some ins held ro t = Some r"
  using holding_move_cases [OF refl, of ro held ins t] by blast

lemma holding_move_quantity:
  assumes "holding_move Some ins held ro t = Some (Some h)"
  shows "0 \<le> hm_quantity h"
  using holding_move_cases [OF refl, of ro held ins t] assms by auto

lemma map_quote_exact: "map_quote (\<lambda>x. Some (f x)) q = Some (map_option f q)"
  by (cases q) (simp_all add: map_quote_def)

lemma kept_fee_exact: "whole \<noteq> 0 \<Longrightarrow> kept_fee Some q whole fee = Some (fee * q / whole)"
  by (simp add: kept_fee_def dec_simps)

lemma cut_ok:
  assumes ok: "instrument_ok (Suc n) st" and env: "en_round env = Some" and ex: "excess \<noteq> 0" and q: "0 \<le> tr_quantity netted"
  shows "\<exists>capped e st'. book_reduce_only_cut env t netted pid held excess ro st = Some ((capped, e), st') \<and>
    instrument_ok n st' \<and> booked st st' \<and> is_position st' = is_position st \<and>
    e = netted\<lparr>tr_fees := tr_fees e\<rparr> \<and> (tr_quantity netted = 0 \<longrightarrow> fee_in_quote (tr_fees e) = 0) \<and>
    engine_worth price st' - fee_in_quote (tr_fees e) = engine_worth price st - fee_in_quote (tr_fees netted)"
proof -
  let ?whole = "tr_quantity netted + \<bar>excess\<bar>"
  let ?keep = "\<lambda>fee. fee * tr_quantity netted / ?whole"
  let ?fees = "(tr_fees netted)\<lparr>af_fees := ?keep (af_fees (tr_fees netted)),
    af_fees_quote := map_option ?keep (af_fees_quote (tr_fees netted))\<rparr>"
  let ?e = "netted\<lparr>tr_fees := ?fees\<rparr>"
  let ?left = "fee_in_quote (tr_fees netted) - fee_in_quote ?fees"
  have nz: "?whole \<noteq> 0" using ex q by linarith
  have "map_quote (kept_fee Some (tr_quantity netted) ?whole) (af_fees_quote (tr_fees netted)) =
      Some (map_option ?keep (af_fees_quote (tr_fees netted)))"
    by (cases "af_fees_quote (tr_fees netted)") (simp_all add: map_quote_def kept_fee_exact [OF nz])
  note kept = this kept_fee_exact [OF nz]
  have sheet: "sheet_ok (Suc (n + 2 * length (is_pending_fills st))) (is_tear_sheet st)" using ok by (simp add: instrument_ok_def)
  obtain g where g: "(if ?left = 0 then Some (is_tear_sheet st)
        else record_fee_unattributed Some ?left (tr_time_exchange t) (is_tear_sheet st)) = Some g"
      "sheet_ok (n + 2 * length (is_pending_fills st)) g" "sheet_pnl g = sheet_pnl (is_tear_sheet st) - ?left"
  proof (cases "?left = 0")
    case True
    with sheet_ok_mono [OF sheet] show ?thesis by (intro that [of "is_tear_sheet st"]) simp_all
  next
    case False
    from fee_unattributed_ok [OF sheet, of ?left "tr_time_exchange t"] False show ?thesis by (auto intro: that)
  qed
  define sheet' where "sheet' = (\<lambda>fb x. if fb then record_fill_free_base_traded Some x g else record_fill_reduce_only_capped Some x g)"
  have "same_sheet g (sheet' fb x)" for fb x by (simp add: sheet'_def same_sheet_counters)
  note same = same_sheet_ok [OF this]
  obtain capped fb x where r: "book_reduce_only_cut env t netted pid held excess ro st =
      Some ((capped, ?e), st\<lparr>is_tear_sheet := sheet' fb x\<rparr>)"
    unfolding book_reduce_only_cut_def env Let_def dec_simps kept
    using g(1) by (auto simp: kept sheet'_def)
  have "instrument_ok n (st\<lparr>is_tear_sheet := sheet' fb x\<rparr>)"
    using sheet_step_ok [OF ok, of n "sheet' fb x"] g(2) same(1) by simp
  moreover have "engine_worth price (st\<lparr>is_tear_sheet := sheet' fb x\<rparr>) - fee_in_quote ?fees =
      engine_worth price st - fee_in_quote (tr_fees netted)"
    using g(3) same(2) by (simp add: engine_worth_def)
  moreover have "tr_quantity netted = 0 \<longrightarrow> fee_in_quote ?fees = 0"
    by (simp add: fee_in_quote_def split: option.split)
  ultimately show ?thesis using r booked_sheet
    by (intro exI [of _ capped] exI [of _ ?e] exI [of _ "st\<lparr>is_tear_sheet := sheet' fb x\<rparr>"]) auto
qed

definition held_at :: "position_id \<Rightarrow> ('a, 'i) position_manager \<Rightarrow> decimal" where
  "held_at pid m = (case map_of (pm_positions m) pid of None \<Rightarrow> 0 | Some p \<Rightarrow> position_net p)"

lemma move_ok:
  assumes ok: "instrument_ok (Suc n) st" and env: "en_round env = Some"
    and e: "tr_side e = tr_side t" "tr_quantity e = tr_quantity t" "tr_price e = tr_price t"
    and r: "holding_move Some (is_instrument st) (held_at pid (is_position st)) ro t = Some r"
  shows "\<exists>moved st'. move_holding env t e pid ro st = Some (moved, st') \<and> instrument_ok n st' \<and> booked st st' \<and>
    is_position st' = is_position st \<and>
    (let e' = (case moved of None \<Rightarrow> e | Some (x, _) \<Rightarrow> x) in
      tr_instrument e' = tr_instrument e \<and> trade_net e' = applied_move t r \<and>
      (tr_quantity e' = 0 \<and> moved \<noteq> None \<and> (\<exists>x c. moved = Some (x, Some c)) \<longrightarrow> trade_worth price (csize_of st) e' = 0) \<and>
      engine_worth price st' + trade_worth price (csize_of st) e' =
        engine_worth price st + applied_move t r * (price - tr_price t) * csize_of st - fee_in_quote (tr_fees e))"
proof -
  have held: "(case map_of (pm_positions (is_position st)) pid of None \<Rightarrow> 0 | Some p \<Rightarrow> side_signed (ps_side p) (ps_quantity_abs p))
      = held_at pid (is_position st)"
    by (simp add: held_at_def side_signed_sign position_net_def split: option.split)
  show ?thesis
  proof (cases r)
    case None
    have "trade_net e = applied_move t None" using e by (simp add: trade_net_def applied_move_def side_signed_sign)
    with None r held env e instrument_ok_mono [OF ok, of n] booked_refl show ?thesis
      by (simp add: move_holding_def trade_worth_def)
  next
    case (Some h)
    note q = holding_move_quantity [OF r [unfolded Some]]
    let ?e = "e\<lparr>tr_side := hm_side h, tr_quantity := hm_quantity h\<rparr>"
    have net: "trade_net ?e = applied_move t (Some h)"
      using q by (simp add: trade_net_def applied_move_def side_signed_sign)
    have worth: "trade_worth price (csize_of st) x = applied_move t (Some h) * (price - tr_price t) * csize_of st - fee_in_quote (tr_fees x)"
      if "x = ?e\<lparr>tr_fees := fs\<rparr>" for x fs
      using that net e by (simp add: trade_worth_def trade_net_def)
    show ?thesis
    proof (cases "hm_excess h = 0")
      case False
      from cut_ok [OF ok env this, of ?e t pid "held_at pid (is_position st)" ro price] q obtain capped x st' where
        x: "book_reduce_only_cut env t ?e pid (held_at pid (is_position st)) (hm_excess h) ro st = Some ((capped, x), st')"
          "instrument_ok n st'" "booked st st'" "is_position st' = is_position st" "x = ?e\<lparr>tr_fees := tr_fees x\<rparr>"
          "hm_quantity h = 0 \<longrightarrow> fee_in_quote (tr_fees x) = 0"
          "engine_worth price st' - fee_in_quote (tr_fees x) = engine_worth price st - fee_in_quote (tr_fees e)" by auto
      have "tr_quantity x = hm_quantity h" "tr_instrument x = tr_instrument e" "tr_side x = hm_side h"
        using arg_cong [OF x(5), of tr_quantity] arg_cong [OF x(5), of tr_instrument] arg_cong [OF x(5), of tr_side] by simp_all
      moreover from this net Some have "trade_net x = applied_move t r" by (simp add: trade_net_def)
      moreover have "trade_worth price (csize_of st) x = 0" if "hm_quantity h = 0"
        using worth [OF x(5)] that x(6) by (simp add: applied_move_def side_signed_sign)
      moreover have "move_holding env t e pid ro st = Some (Some (x, Some capped), st')"
        using r Some held env False x(1) by (simp add: move_holding_def Let_def)
      ultimately show ?thesis using x worth [OF x(5)] Some
        by (intro exI [of _ "Some (x, Some capped)"] exI [of _ st']) simp
    next
      case True
      obtain g where g: "move_holding env t e pid ro st = Some (Some (?e, None), st\<lparr>is_tear_sheet := g\<rparr>)"
        "same_sheet (is_tear_sheet st) g"
      proof (cases "hm_dust h = 0")
        case True
        with r Some held env \<open>hm_excess h = 0\<close> same_sheet_refl show ?thesis
          by (intro that [of "is_tear_sheet st"]) (simp_all add: move_holding_def Let_def)
      next
        case False
        with r Some held env \<open>hm_excess h = 0\<close> show ?thesis
          by (intro that [of "record_fill_dust Some (hm_dust h) (hm_dust h * tr_price e) (is_tear_sheet st)"])
            (simp_all add: move_holding_def Let_def dec_simps same_sheet_counters)
      qed
      with same_sheet_step(2) [OF ok g(2)] instrument_ok_mono [OF same_sheet_step(1) [OF ok g(2)], of n] booked_sheet [of st g] net worth [of ?e "tr_fees e"] Some
      show ?thesis by (intro exI [of _ "Some (?e, None)"] exI [of _ "st\<lparr>is_tear_sheet := g\<rparr>"]) simp
    qed
  qed
qed

text \<open>Steps that leave positions, tear sheet and fills put aside as they are.\<close>

definition settled :: "('e, 'a, 'i, 'd) instrument_state \<Rightarrow> ('e, 'a, 'i, 'd) instrument_state \<Rightarrow> bool" where
  "settled st st' \<longleftrightarrow> is_key st' = is_key st \<and> is_instrument st' = is_instrument st \<and> is_position st' = is_position st \<and>
     is_tear_sheet st' = is_tear_sheet st \<and> is_pending_fills st' = is_pending_fills st \<and> is_fee_model st' = is_fee_model st"

lemma settled_refl: "settled st st"
  by (simp add: settled_def)

lemma settled_trans: "settled st st' \<Longrightarrow> settled st' st'' \<Longrightarrow> settled st st''"
  by (simp add: settled_def)

lemma settled_worth: "settled st st' \<Longrightarrow> engine_worth price st' = engine_worth price st \<and> plain_carry st' = plain_carry st"
  by (simp add: settled_def engine_worth_def plain_carry_def)

lemma cleanup_settled:
  assumes "instrument_ok n st"
  shows "\<exists>st'. cleanup_routing_tables env st = Some st' \<and> instrument_ok n st' \<and> settled st st' \<and> is_orders st' = is_orders st"
  using cleanup_ok [OF assms, of env] by (auto simp: settled_def)

lemma orders_step_ok: "instrument_ok n st \<Longrightarrow> instrument_ok n (st\<lparr>is_orders := os\<rparr>) \<and> settled st (st\<lparr>is_orders := os\<rparr>)"
  by (simp add: instrument_ok_def csize_of_def settled_def)

lemma position_ids_step_ok:
  "instrument_ok n st \<Longrightarrow> instrument_ok n (st\<lparr>is_position_ids := ps\<rparr>) \<and> settled st (st\<lparr>is_position_ids := ps\<rparr>)"
  by (simp add: instrument_ok_def csize_of_def settled_def)

lemma update_from_fill_exact: "\<exists>b os'. update_from_fill Some c i filled os = Some (b, os')"
  by (auto simp: update_from_fill_def quantity_remaining_def dec_simps Let_def split: option.split active_order_state.split)

lemma advance_ok:
  assumes ok: "instrument_ok n st" and env: "en_round env = Some"
  shows "\<exists>st'. advance_order env t st = Some st' \<and> instrument_ok n st' \<and> settled st st'"
proof (cases "tr_order_filled_quantity t")
  case None
  with ok settled_refl show ?thesis by (simp add: advance_order_def)
next
  case (Some reported)
  show ?thesis
  proof (cases "tracked_order_cid env (tr_order_id t) st")
    case None
    with Some ok settled_refl show ?thesis by (simp add: advance_order_def)
  next
    case (Some c)
    obtain b os' where u: "update_from_fill Some c (tr_order_id t) reported (is_orders st) = Some (b, os')"
      using update_from_fill_exact by blast
    note o = orders_step_ok [OF ok, of os']
    obtain st' where "cleanup_routing_tables env (st\<lparr>is_orders := os'\<rparr>) = Some st'" "instrument_ok n st'"
      "settled (st\<lparr>is_orders := os'\<rparr>) st'" using cleanup_settled [of n "st\<lparr>is_orders := os'\<rparr>" env] o by blast
    with o settled_trans [of st "st\<lparr>is_orders := os'\<rparr>" st'] Some \<open>tr_order_filled_quantity t = Some reported\<close> u env show ?thesis
      by (cases b) (simp_all add: advance_order_def Let_def)
  qed
qed

lemma fee_model_exact: "\<exists>fee. compute_fee Some m price q c l = Some fee"
  by (cases m) (simp_all add: dec_simps)

lemma model_fee_ok:
  "\<exists>e. with_model_fee Some c st t = Some e \<and> e = t\<lparr>tr_fees := tr_fees e\<rparr>"
proof -
  obtain fee where "compute_fee Some (is_fee_model st) (tr_price t) (tr_quantity t) c Taker = Some fee"
    using fee_model_exact by blast
  then show ?thesis by (cases "fee = 0") (simp_all add: with_model_fee_def dec_simps)
qed

text \<open>What a fill leaves the same about a state: which instrument it is, its mode and its fills put aside.\<close>

definition same_frame :: "('e, 'a, 'i, 'd) instrument_state \<Rightarrow> ('e, 'a, 'i, 'd) instrument_state \<Rightarrow> bool" where
  "same_frame st st' \<longleftrightarrow> is_key st' = is_key st \<and> is_instrument st' = is_instrument st \<and>
     pm_mode (is_position st') = pm_mode (is_position st) \<and> is_fee_model st' = is_fee_model st"

lemma same_frame_refl: "same_frame st st"
  by (simp add: same_frame_def)

lemma same_frame_trans: "same_frame st st' \<Longrightarrow> same_frame st' st'' \<Longrightarrow> same_frame st st''"
  by (simp add: same_frame_def)

lemma booked_frame: "booked st st' \<Longrightarrow> same_frame st st'"
  by (simp add: same_frame_def booked_fields)

lemma settled_frame: "settled st st' \<Longrightarrow> same_frame st st'"
  by (simp add: settled_def same_frame_def)

lemma same_frame_csize: "same_frame st st' \<Longrightarrow> csize_of st' = csize_of st"
  by (simp add: same_frame_def csize_of_def)

lemma book_fill_ok:
  assumes ok: "instrument_ok (Suc (Suc n)) st" and env: "en_round env = Some" and inst: "tr_instrument t = is_key st"
    and pid: "pm_mode (is_position st) = Netting \<longrightarrow> pid = position_id_netting"
  shows "\<exists>applied st' e r. book_fill env ros t pid capped st = Some (applied, st') \<and> instrument_ok n st' \<and>
    same_frame st st' \<and> is_pending_fills st' = is_pending_fills st \<and>
    with_model_fee Some (csize_of st) st t = Some e \<and>
    (if capped then r = None
     else holding_move Some (is_instrument st) (held_at pid (is_position st)) (sent_reduce_only_as env ros t st) t = Some r) \<and>
    manager_net (is_position st') = manager_net (is_position st) + applied_move t r \<and>
    (plain_carry st \<longrightarrow> plain_carry st' \<and> engine_worth price st' =
      engine_worth price st + applied_move t r * (price - tr_price t) * csize_of st - fee_in_quote (tr_fees e))"
proof -
  let ?ro = "sent_reduce_only_as env ros t st"
  obtain e where e: "with_model_fee Some (csize_of st) st t = Some e" "e = t\<lparr>tr_fees := tr_fees e\<rparr>"
    using model_fee_ok by blast
  have et: "tr_side e = tr_side t" "tr_quantity e = tr_quantity t" "tr_price e = tr_price t" "tr_instrument e = tr_instrument t"
    using arg_cong [OF e(2), of tr_side] arg_cong [OF e(2), of tr_quantity] arg_cong [OF e(2), of tr_price]
      arg_cong [OF e(2), of tr_instrument] by simp_all
  obtain moved st1 r where m: "(if capped then Some (None, st) else move_holding env t e pid ?ro st) = Some (moved, st1)"
      "instrument_ok (Suc n) st1" "booked st st1" "is_position st1 = is_position st"
      "if capped then r = None else holding_move Some (is_instrument st) (held_at pid (is_position st)) ?ro t = Some r"
      "tr_instrument (case moved of None \<Rightarrow> e | Some (x, _) \<Rightarrow> x) = tr_instrument e"
      "trade_net (case moved of None \<Rightarrow> e | Some (x, _) \<Rightarrow> x) = applied_move t r"
      "tr_quantity (case moved of None \<Rightarrow> e | Some (x, _) \<Rightarrow> x) = 0 \<and> (\<exists>x c. moved = Some (x, Some c)) \<longrightarrow>
        trade_worth price (csize_of st) (case moved of None \<Rightarrow> e | Some (x, _) \<Rightarrow> x) = 0"
      "engine_worth price st1 + trade_worth price (csize_of st) (case moved of None \<Rightarrow> e | Some (x, _) \<Rightarrow> x) =
        engine_worth price st + applied_move t r * (price - tr_price t) * csize_of st - fee_in_quote (tr_fees e)"
  proof (cases capped)
    case True
    have "trade_net e = applied_move t None" using et by (simp add: trade_net_def applied_move_def side_signed_sign)
    with True instrument_ok_mono [OF ok, of "Suc n"] booked_refl et show ?thesis
      by (intro that [of None st None]) (simp_all add: trade_worth_def)
  next
    case False
    obtain r where r: "holding_move Some (is_instrument st) (held_at pid (is_position st)) ?ro t = Some r"
      using holding_move_total by blast
    from move_ok [OF ok env et(1,2,3) r, of price] obtain moved st' where
      "move_holding env t e pid ?ro st = Some (moved, st')" "instrument_ok (Suc n) st'" "booked st st'" "is_position st' = is_position st"
      "let e' = (case moved of None \<Rightarrow> e | Some (x, _) \<Rightarrow> x) in
      tr_instrument e' = tr_instrument e \<and> trade_net e' = applied_move t r \<and>
      (tr_quantity e' = 0 \<and> moved \<noteq> None \<and> (\<exists>x c. moved = Some (x, Some c)) \<longrightarrow> trade_worth price (csize_of st) e' = 0) \<and>
      engine_worth price st' + trade_worth price (csize_of st) e' =
        engine_worth price st + applied_move t r * (price - tr_price t) * csize_of st - fee_in_quote (tr_fees e)" by blast
    with False r show ?thesis by (intro that [of moved st' r]) (auto simp: Let_def)
  qed
  define e' where "e' = (case moved of None \<Rightarrow> e | Some (x, _) \<Rightarrow> x)"
  define cut where "cut = (case moved of None \<Rightarrow> None | Some (_, c) \<Rightarrow> c)"
  have pair: "(case moved of None \<Rightarrow> (e, None) | Some (netted, capped) \<Rightarrow> (netted, capped)) = (e', cut)"
    by (simp add: e'_def cut_def split: option.split prod.split)
  note m = m [folded e'_def]
  have b: "csize_of st1 = csize_of st" "is_key st1 = is_key st" "pm_mode (is_position st1) = pm_mode (is_position st)"
    using booked_fields [OF m(3)] by simp_all
  obtain ex st2 where p: "(if cut \<noteq> None \<and> tr_quantity e' = 0 then Some (None, st1) else apply_to_position Some e' pid (csize_of st) st1)
        = Some (ex, st2)" "instrument_ok n st2" "booked st1 st2"
      "manager_net (is_position st2) = manager_net (is_position st1) + trade_net e'"
      "plain_carry st1 \<longrightarrow> plain_carry st2 \<and> engine_worth price st2 = engine_worth price st1 + trade_worth price (csize_of st) e'"
  proof (cases "cut \<noteq> None \<and> tr_quantity e' = 0")
    case True
    then have "\<exists>x c. moved = Some (x, Some c)" by (auto simp: cut_def split: option.splits)
    with True m(8) have "trade_worth price (csize_of st) e' = 0" "trade_net e' = 0" by (simp_all add: trade_net_def)
    with True instrument_ok_mono [OF m(2), of n] booked_refl show ?thesis by (intro that [of None st1]) simp_all
  next
    case False
    from apply_ok [OF m(2), of e' pid price] b inst pid et(4) m(6) obtain ex st2 where
      "apply_to_position Some e' pid (csize_of st1) st1 = Some (ex, st2)" "instrument_ok n st2" "booked st1 st2"
      "manager_net (is_position st2) = manager_net (is_position st1) + trade_net e'"
      "plain_carry st1 \<longrightarrow> plain_carry st2 \<and> engine_worth price st2 = engine_worth price st1 + trade_worth price (csize_of st1) e'"
      by auto
    with False b show ?thesis by (intro that [of ex st2]) auto
  qed
  define st3 where "st3 = (if ex = None then st2
       else st2\<lparr>is_position_ids := (\<lambda>c. if is_position_ids st2 c = Some pid \<and> \<not> is_tracked st2 c then None
              else is_position_ids st2 c)\<rparr>)"
  have st3: "instrument_ok n st3" "settled st2 st3"
    using position_ids_step_ok [OF p(2)] p(2) settled_refl by (auto simp: st3_def)
  obtain st4 where st4: "advance_order env t st3 = Some st4" "instrument_ok n st4" "settled st3 st4"
    using advance_ok [OF st3(1) env] by blast
  have s24: "settled st2 st4" using settled_trans [OF st3(2) st4(3)] .
  have "book_fill env ros t pid capped st =
      Some (\<lparr>fa_exited = ex, fa_capped = (case cut of None \<Rightarrow> [] | Some x \<Rightarrow> [x])\<rparr>, st4)"
    unfolding book_fill_def Let_def env csize_of_def [symmetric] e(1) bind.bind_lunit m(1) prod.case pair p(1)
    using st4(1) by (simp add: st3_def)
  moreover have "same_frame st st4"
    using booked_frame [OF m(3)] booked_frame [OF p(3)] settled_frame [OF s24] same_frame_trans by blast
  moreover have "is_pending_fills st4 = is_pending_fills st"
    using booked_fields [OF m(3)] booked_fields [OF p(3)] s24 by (simp add: settled_def)
  moreover have "manager_net (is_position st4) = manager_net (is_position st) + applied_move t r"
    using p(4) m(4,7) s24 by (simp add: settled_def)
  moreover have "plain_carry st4 \<and> engine_worth price st4 =
      engine_worth price st + applied_move t r * (price - tr_price t) * csize_of st - fee_in_quote (tr_fees e)" if "plain_carry st"
  proof -
    have "plain_carry st1" using that m(4) by (simp add: plain_carry_def)
    with p(5) m(9) settled_worth [OF s24, of price] show ?thesis by simp
  qed
  ultimately show ?thesis using st4(2) e(1) m(5) by blast
qed

section \<open>Histories\<close>

lemma capped_to_exact:
  assumes "held < \<bar>tr_quantity t\<bar>" and "0 \<le> held"
  shows "\<exists>t'. capped_to Some t held = Some t' \<and> tr_instrument t' = tr_instrument t"
proof -
  have nz: "tr_quantity t \<noteq> 0" using assms by auto
  have "map_quote (\<lambda>f. Some (f * (held / \<bar>tr_quantity t\<bar>))) q = Some (map_option (\<lambda>f. f * (held / \<bar>tr_quantity t\<bar>)) q)" for q
    by (rule map_quote_exact)
  with nz show ?thesis by (simp add: capped_to_def dec_simps)
qed

lemma settlement_held:
  assumes "instrument_ok n st" and "settlement_fill_position t st = Inr (pid, held)"
  shows "0 \<le> held"
proof -
  obtain p where "filter (\<lambda>(i, p). ps_side p = opposite (tr_side t)) (pm_positions (is_position st)) = [(pid, p)]" "held = ps_quantity_abs p"
    using assms(2) by (auto simp: settlement_fill_position_def Let_def split: if_splits list.splits)
  then have "(pid, p) \<in> set (pm_positions (is_position st))" by (metis (lifting) filter_is_subset list.set_intros(1) subsetD)
  then show ?thesis using assms(1) \<open>held = ps_quantity_abs p\<close>
    by (fastforce simp: instrument_ok_def manager_ok_def position_ok_def)
qed

lemma sheet_counted:
  assumes "instrument_ok n st" and "same_sheet (is_tear_sheet st) g"
  shows "instrument_ok n (st\<lparr>is_tear_sheet := g\<rparr>) \<and> same_frame st (st\<lparr>is_tear_sheet := g\<rparr>)"
  using same_sheet_step(1) [OF assms] by (simp add: same_frame_def)

text \<open>A destination that a fill of the state's instrument can go to.\<close>

fun destination_ok :: "nat \<Rightarrow> ('e, 'a, 'i, 'd) instrument_state \<Rightarrow> ('a, 'i) destination \<Rightarrow> bool" where
  "destination_ok n st Nowhere \<longleftrightarrow> instrument_ok n st"
| "destination_ok n st (ToPosition pid cap) \<longleftrightarrow> instrument_ok (Suc (Suc n)) st \<and>
     (pm_mode (is_position st) = Netting \<longrightarrow> pid = position_id_netting) \<and>
     (case cap of None \<Rightarrow> True | Some t \<Rightarrow> tr_instrument t = is_key st)"

lemma settlement_ok:
  assumes ok: "instrument_ok (Suc (Suc n)) st" and inst: "tr_instrument t = is_key st" and "pm_mode (is_position st) = Hedging"
  shows "\<exists>dest st'. route_settlement Some t leg st = Some (dest, st') \<and> destination_ok n st' dest \<and> same_frame st st'"
proof -
  define placed where "placed = (case (leg, settlement_fill_position t st) of
          (_, Inr x) \<Rightarrow> Some x
        | (DeliveryLeg, Inl (PositionsOnSide 0)) \<Rightarrow> Some (tr_order_id t, \<bar>tr_quantity t\<bar>)
        | (DeliveryLeg, Inl NamesTheSideItWouldGrow) \<Rightarrow> Some (tr_order_id t, \<bar>tr_quantity t\<bar>)
        | (_, Inl _) \<Rightarrow> None)"
  let ?st = "st\<lparr>is_tear_sheet := record_fill_unallocated (is_tear_sheet st)\<rparr>"
  have counted: "instrument_ok (Suc (Suc n)) ?st" "same_frame st ?st"
    using sheet_counted [OF ok same_sheet_counters(6)] by simp_all
  show ?thesis
  proof (cases placed)
    case None
    then have "route_settlement Some t leg st = Some (Nowhere, ?st)"
      by (simp add: route_settlement_def placed_def)
    with counted instrument_ok_mono [OF counted(1), of n] show ?thesis by auto
  next
    case (Some x)
    obtain pid held where x: "x = (pid, held)" by fastforce
    have "0 \<le> held"
      using Some x settlement_held [OF ok, of t pid held]
      by (auto simp: placed_def split: sum.splits settlement_leg.splits unplaced.splits nat.splits)
    show ?thesis
    proof (cases "held < \<bar>tr_quantity t\<bar>")
      case True
      with capped_to_exact \<open>0 \<le> held\<close> obtain t' where t': "capped_to Some t held = Some t'" "tr_instrument t' = tr_instrument t" by blast
      then have "route_settlement Some t leg st = Some (ToPosition pid (Some t'), ?st)"
        using Some x True by (simp add: route_settlement_def placed_def Let_def)
      with counted t'(2) inst assms(3) show ?thesis by (auto simp: same_frame_def)
    next
      case False
      then have "route_settlement Some t leg st = Some (ToPosition pid None, st)"
        using Some x by (simp add: route_settlement_def placed_def Let_def)
      with ok assms(3) same_frame_refl show ?thesis by auto
    qed
  qed
qed

lemma route_ok:
  assumes ok: "instrument_ok (Suc (Suc n)) st" and env: "en_round env = Some" and inst: "tr_instrument t = is_key st"
  shows "\<exists>dest st'. route_fill env t st = Some (dest, st') \<and> destination_ok n st' dest \<and> same_frame st st'"
proof (cases "pm_mode (is_position st)")
  case Netting
  with ok same_frame_refl show ?thesis by (auto simp: route_fill_def)
next
  case Hedging
  note counted = sheet_counted [OF ok]
  have queued: "instrument_ok n (st\<lparr>is_pending_fills := is_pending_fills st @ [t]\<rparr>)"
    using ok Hedging inst by (auto simp: instrument_ok_def csize_of_def)
  have fell: "destination_ok n (st\<lparr>is_tear_sheet := g\<rparr>) (ToPosition pid None) \<and> same_frame st (st\<lparr>is_tear_sheet := g\<rparr>)"
    if "same_sheet (is_tear_sheet st) g" for g pid
    using counted [OF that] Hedging by simp
  show ?thesis
  proof (cases "Option.bind (is_exchange_ids st (tr_order_id t)) (is_position_ids st)")
    case (Some pid)
    with ok Hedging same_frame_refl show ?thesis by (simp add: route_fill_def)
  next
    case None
    note indexed = None
    show ?thesis
    proof (cases "matched_order env (tr_order_id t) st")
      case (Some x)
      with indexed ok Hedging same_frame_refl fell same_sheet_counters(3) show ?thesis
        by (cases x) (simp_all add: route_fill_def)
    next
      case None
      show ?thesis
      proof (cases "map_of (is_retired_routing st) (tr_order_id t)")
        case (Some pid)
        with indexed None ok Hedging same_frame_refl show ?thesis by (simp add: route_fill_def)
      next
        case none: None
        consider "tr_origin t = OriginOrder \<and> has_open_in_flight st"
          | leg where "\<not> (tr_origin t = OriginOrder \<and> has_open_in_flight st)" "settlement_leg_of st (tr_origin t) = Some leg"
          | "\<not> (tr_origin t = OriginOrder \<and> has_open_in_flight st)" "settlement_leg_of st (tr_origin t) = None" by blast
        then show ?thesis
        proof cases
          case 1
          with indexed None none Hedging queued show ?thesis by (simp add: route_fill_def same_frame_def)
        next
          case 2
          with indexed None none Hedging env have "route_fill env t st = route_settlement Some t leg st"
            unfolding route_fill_def by auto
          with settlement_ok [OF ok inst Hedging, of leg] show ?thesis by simp
        next
          case 3
          with indexed None none Hedging env have "route_fill env t st = Some (route_unmatched t st)"
            unfolding route_fill_def by auto
          with fell [OF same_sheet_counters(4)] show ?thesis unfolding route_unmatched_def by blast
        qed
      qed
    qed
  qed
qed

lemma replay_trade_ok:
  assumes ok: "instrument_ok (Suc (Suc n)) st" and env: "en_round env = Some" and inst: "tr_instrument t = is_key st"
  shows "\<exists>applied st'. replay_trade env ros t st = Some (applied, st') \<and> instrument_ok n st' \<and> same_frame st st'"
proof -
  define st0 where "st0 = (if origin_is_forced (tr_origin t) then note_forced_fill st else st)"
  have st: "instrument_ok (Suc (Suc n)) st0" "same_frame st st0"
    using ok sheet_counted [OF ok same_sheet_counters(5)] same_frame_refl [of st] by (auto simp: note_forced_fill_def st0_def)
  then have inst0: "tr_instrument t = is_key st0" using inst by (simp add: same_frame_def)
  obtain dest st1 where r: "route_fill env t st0 = Some (dest, st1)" "destination_ok n st1 dest" "same_frame st0 st1"
    using route_ok [OF st(1) env inst0] by blast
  have unfold: "replay_trade env ros t st = (case dest of
       Nowhere \<Rightarrow> Some (fills_none, st1)
     | ToPosition pid capped \<Rightarrow> book_fill env ros (case capped of None \<Rightarrow> t | Some t' \<Rightarrow> t') pid (capped \<noteq> None) st1)"
    using r(1) by (simp add: replay_trade_def Let_def st0_def)
  show ?thesis
  proof (cases dest)
    case Nowhere
    with r(2,3) unfold same_frame_trans [OF st(2) r(3)] show ?thesis by simp
  next
    case (ToPosition pid cap)
    let ?t = "case cap of None \<Rightarrow> t | Some t' \<Rightarrow> t'"
    have "tr_instrument ?t = is_key st1" "instrument_ok (Suc (Suc n)) st1" "pm_mode (is_position st1) = Netting \<longrightarrow> pid = position_id_netting"
      using ToPosition r inst st(2) by (auto simp: same_frame_def split: option.splits)
    from book_fill_ok [OF this(2) env this(1,3), of ros "cap \<noteq> None"] obtain applied st' where
      "book_fill env ros ?t pid (cap \<noteq> None) st1 = Some (applied, st')" "instrument_ok n st'" "same_frame st1 st'" by blast
    with ToPosition unfold same_frame_trans [OF same_frame_trans [OF st(2) r(3)], of st'] show ?thesis by simp
  qed
qed

lemma replay_deferred_ok:
  assumes "instrument_ok (n + 2 * length fs) st" and "en_round env = Some" and "\<forall>f \<in> set fs. tr_instrument f = is_key st"
  shows "\<exists>out st'. replay_deferred env ros fs applied st = Some (out, st') \<and> instrument_ok n st' \<and> same_frame st st'"
  using assms
proof (induction fs arbitrary: applied st)
  case Nil
  then show ?case using same_frame_refl by simp
next
  case (Cons f fs)
  have "instrument_ok (Suc (Suc (n + 2 * length fs))) st" using Cons.prems(1) by simp
  from replay_trade_ok [OF this Cons.prems(2), of f ros] Cons.prems(3) obtain a st1 where
    a: "replay_trade env ros f st = Some (a, st1)" "instrument_ok (n + 2 * length fs) st1" "same_frame st st1" by auto
  let ?applied = "\<lparr>fa_exited = (case fa_exited a of None \<Rightarrow> fa_exited applied | Some x \<Rightarrow> Some x),
    fa_capped = fa_capped applied @ fa_capped a\<rparr>"
  from Cons.IH [OF a(2) Cons.prems(2), of ?applied] Cons.prems(3) a(3) obtain out st' where
    "replay_deferred env ros fs ?applied st1 = Some (out, st')" "instrument_ok n st'" "same_frame st1 st'"
    by (auto simp: same_frame_def)
  with a same_frame_trans show ?case by auto
qed

end
