(* ===== verification/Instrument_Runs.thy ===== *)
theory Instrument_Runs
  imports Instrument_Laws
begin

text \<open>
  Histories of an instrument's state: the events that reach it, what every one of them keeps, and
  the properties of fills, acknowledgements and resynchronisations.
\<close>

section \<open>Events\<close>

text \<open>What the user's instrument data does with requests and market events, and its price.\<close>

record ('e, 'i, 'm, 'd) data_model =
  dm_open :: "('e, 'i) order_request_open \<Rightarrow> time \<Rightarrow> 'd \<Rightarrow> 'd"
  dm_cancel :: "('e, 'i) order_request_cancel \<Rightarrow> time \<Rightarrow> 'd \<Rightarrow> 'd"
  dm_process :: "'m \<Rightarrow> 'd \<Rightarrow> 'd"
  dm_price :: "'d \<Rightarrow> decimal option"

datatype ('e, 'a, 'i, 'm) instrument_event =
    IvOpenSent "('e, 'i) order_request_open" time
  | IvCancelSent "('e, 'i) order_request_cancel" time
  | IvFill "('a, 'i) trade"
  | IvSnapshot "('e, 'i, 'a) order_snapshot"
  | IvCancelResponse "('e, 'i, 'a) order_response_cancel"
  | IvAccountSnapshot "('e, 'i, 'a) instrument_account_snapshot"
  | IvResync
  | IvCashFlow "('a, 'i) asset_flow"
  | IvMarket time 'm
  | IvClearRouting

fun instrument_step ::
  "('a, 'i) engine_env \<Rightarrow> ('e, 'i, 'm, 'd) data_model \<Rightarrow> ('e, 'a, 'i, 'm) instrument_event
     \<Rightarrow> ('e, 'a, 'i, 'd) instrument_state \<Rightarrow> ('e, 'a, 'i, 'd) instrument_state option" where
  "instrument_step env dm (IvOpenSent req t) st = instrument_record_open (dm_open dm) req t st"
| "instrument_step env dm (IvCancelSent req t) st = Some (instrument_record_cancel (dm_cancel dm) req t st)"
| "instrument_step env dm (IvFill t) st = map_option snd (instrument_update_from_trade env t st)"
| "instrument_step env dm (IvSnapshot s) st = map_option snd (instrument_update_from_order_snapshot env s st)"
| "instrument_step env dm (IvCancelResponse r) st = instrument_update_from_cancel_response env r st"
| "instrument_step env dm (IvAccountSnapshot s) st = update_from_account_snapshot env s st"
| "instrument_step env dm IvResync st = Some (begin_account_resync st)"
| "instrument_step env dm (IvCashFlow f) st = Some (snd (update_from_cash_flow (en_round env) f st))"
| "instrument_step env dm (IvMarket t m) st = update_from_market (en_round env) (dm_process dm) (dm_price dm) t m st"
| "instrument_step env dm IvClearRouting st = Some (clear_order_routing st)"

fun instrument_run ::
  "('a, 'i) engine_env \<Rightarrow> ('e, 'i, 'm, 'd) data_model \<Rightarrow> ('e, 'a, 'i, 'm) instrument_event list
     \<Rightarrow> ('e, 'a, 'i, 'd) instrument_state \<Rightarrow> ('e, 'a, 'i, 'd) instrument_state option" where
  "instrument_run env dm [] st = Some st"
| "instrument_run env dm (ev # evs) st = Option.bind (instrument_step env dm ev st) (instrument_run env dm evs)"

fun event_of :: "'i \<Rightarrow> ('e, 'a, 'i, 'm) instrument_event \<Rightarrow> bool" where
  "event_of i (IvFill t) = (tr_instrument t = i)"
| "event_of i _ = True"

fun fills_in :: "('e, 'a, 'i, 'm) instrument_event list \<Rightarrow> nat" where
  "fills_in [] = 0"
| "fills_in (IvFill t # evs) = Suc (fills_in evs)"
| "fills_in (_ # evs) = fills_in evs"

section \<open>Every event keeps the invariant\<close>

text \<open>A step that never panics, keeps the invariant and stays with its instrument.\<close>

definition step_keeps ::
  "nat \<Rightarrow> ('e, 'a, 'i, 'd) instrument_state \<Rightarrow> ('e, 'a, 'i, 'd) instrument_state option \<Rightarrow> bool" where
  "step_keeps n st r \<longleftrightarrow> (\<exists>st'. r = Some st' \<and> instrument_ok n st' \<and> same_frame st st')"

lemma step_keepsI: "r = Some st' \<Longrightarrow> instrument_ok n st' \<Longrightarrow> same_frame st st' \<Longrightarrow> step_keeps n st r"
  by (auto simp: step_keeps_def)

lemma step_keeps_Some [simp]: "step_keeps n st (Some st') \<longleftrightarrow> instrument_ok n st' \<and> same_frame st st'"
  by (auto simp: step_keeps_def)

lemma step_keeps_bind:
  assumes "step_keeps n st r" and "\<And>st'. instrument_ok n st' \<Longrightarrow> same_frame st st' \<Longrightarrow> step_keeps m st' (f st')"
  shows "step_keeps m st (Option.bind r f)"
  using assms same_frame_trans by (fastforce simp: step_keeps_def)

lemma cleanup_keeps: "instrument_ok n st \<Longrightarrow> step_keeps n st (cleanup_routing_tables env st)"
  using cleanup_settled [of n st env] settled_frame by (fastforce simp: step_keeps_def)

lemma cleanup_after:
  "instrument_ok n st \<Longrightarrow> same_frame st0 st \<Longrightarrow> step_keeps n st0 (cleanup_routing_tables env st)"
  using cleanup_keeps same_frame_trans by (fastforce simp: step_keeps_def)

lemma open_sent_keeps:
  assumes "instrument_ok n st"
  shows "step_keeps n st (instrument_record_open f req t st)"
proof (cases "is_tracked st (key_cid (ev_key req))")
  case True
  with assms same_frame_refl show ?thesis by (intro step_keepsI) (simp_all add: instrument_record_open_def)
next
  case False
  obtain b where b: "register (key_cid (ev_key req)) (ro_reduce_only (ev_state req)) (is_book st) = Some b" "book_inv b"
    using step_register [of "is_book st"] assms by (force simp: instrument_ok_def book_step_ok_def)
  then obtain st' where st': "instrument_record_open f req t st = Some st'" "is_book st' = b"
    "is_tear_sheet st' = record_open_requested (is_tear_sheet st)" "is_position st' = is_position st"
    "is_retired_routing st' = is_retired_routing st" "is_pending_fills st' = is_pending_fills st" "is_key st' = is_key st"
    "is_instrument st' = is_instrument st" "is_fee_model st' = is_fee_model st"
    using False by (auto simp: instrument_record_open_def Let_def)
  have "sheet_ok k (is_tear_sheet st') = sheet_ok k (is_tear_sheet st)" for k
    unfolding st'(3) by (rule same_sheet_ok(1) [OF same_sheet_counters(1)])
  with st' b(2) assms show ?thesis
    by (intro step_keepsI [OF st'(1)]) (simp_all add: instrument_ok_def csize_of_def same_frame_def)
qed

lemma settle_ack_keeps:
  assumes ok: "instrument_ok n st" and env: "en_round env = Some"
  shows "step_keeps n st (map_option snd (settle_ack env ros c oid pid st))"
proof -
  define st1 where "st1 = st\<lparr>is_exchange_ids := (is_exchange_ids st)(oid \<mapsto> c), is_book := acknowledge c oid (is_book st),
       is_position_ids := (case (pid, is_position_ids st c) of
           (Some p, None) \<Rightarrow> (is_position_ids st)(c \<mapsto> p)
         | _ \<Rightarrow> is_position_ids st)\<rparr>"
  have "book_inv (acknowledge c oid (is_book st))"
    using step_acknowledge(1) [of "is_book st" c oid] ok by (simp add: instrument_ok_def book_step_ok_def)
  then have ok1: "instrument_ok n st1" and f1: "same_frame st st1"
    using ok by (simp_all add: st1_def instrument_ok_def csize_of_def same_frame_def)
  show ?thesis
  proof (cases "is_pending_fills st1 = []")
    case True
    then have "settle_ack env ros c oid pid st = Some (fills_none, st1)"
      unfolding settle_ack_def Let_def st1_def by simp
    with ok1 f1 show ?thesis by (intro step_keepsI) simp_all
  next
    case False
    let ?d = "filter (\<lambda>f. tr_order_id f = oid) (is_pending_fills st1)"
    let ?r = "filter (\<lambda>f. tr_order_id f \<noteq> oid) (is_pending_fills st1)"
    let ?st = "st1\<lparr>is_pending_fills := ?r\<rparr>"
    have "length ?r + length ?d = length (is_pending_fills st1)"
      using sum_length_filter_compl [of "\<lambda>f. tr_order_id f = oid" "is_pending_fills st1"] by simp
    then have "n + 2 * length (is_pending_fills st1) = n + 2 * length ?d + 2 * length ?r" by linarith
    then have "instrument_ok (n + 2 * length ?d) ?st"
      using ok1 by (simp add: instrument_ok_def csize_of_def add.assoc)
    moreover have "\<forall>f \<in> set ?d. tr_instrument f = is_key ?st" using ok1 by (simp add: instrument_ok_def)
    ultimately obtain out st2 where r: "replay_deferred env ros ?d fills_none ?st = Some (out, st2)"
        "instrument_ok n st2" "same_frame ?st st2"
      using replay_deferred_ok [OF _ env] by blast
    have "same_frame st st2" using f1 r(3) by (simp add: same_frame_def)
    moreover have "map_option snd (settle_ack env ros c oid pid st) = cleanup_routing_tables env st2"
      using False r(1) unfolding settle_ack_def Let_def st1_def
      by (cases "cleanup_routing_tables env st2") simp_all
    ultimately show ?thesis using cleanup_after r(2) by auto
  qed
qed

lemma retires_exact: "\<exists>b. snapshot_retires Some s = Some b"
  by (auto simp: snapshot_retires_def quantity_remaining_def dec_simps split: order_state.splits active_order_state.splits)

lemma ack_exact: "\<exists>a. ack_exchange_id Some s st = Some a"
  using retires_exact [of s] by (auto simp: ack_exchange_id_def Let_def)

lemma orders_snapshot_exact: "\<exists>os'. update_from_order_snapshot Some s os = Some os'"
proof -
  have rem: "quantity_remaining Some op q = Some (q - open_filled_quantity op)" for op q
    by (simp add: quantity_remaining_def dec_simps)
  show ?thesis
    by (auto simp: update_from_order_snapshot_def update_untracked_def update_tracked_def rem Let_def
        split: option.splits active_order_state.splits)
qed

lemma rejected_keeps:
  assumes "instrument_ok n st"
  shows "instrument_ok n (note_rejected_open env s st)" "same_frame st (note_rejected_open env s st)"
  using assms sheet_counted [OF assms same_sheet_counters(2)] same_frame_refl [of st]
  by (auto simp: note_rejected_open_def split: order_state.splits inactive_order_state.splits)

lemma snapshot_keeps:
  assumes ok: "instrument_ok n st" and env: "en_round env = Some"
  shows "step_keeps n st (map_option snd (replay_order_snapshot env ros s st))"
proof -
  define st0 where "st0 = note_rejected_open env s st"
  have ok0: "instrument_ok n st0" and f0: "same_frame st st0" using rejected_keeps [OF ok] by (simp_all add: st0_def)
  obtain a where a: "ack_exchange_id Some s st0 = Some a" using ack_exact by blast
  obtain os where os: "update_from_order_snapshot Some s (is_orders st0) = Some os"
    using orders_snapshot_exact by blast
  note o = orders_step_ok [OF ok0, of os]
  have "same_frame st (st0\<lparr>is_orders := os\<rparr>)" using same_frame_trans [OF f0] settled_frame o by blast
  from cleanup_after [OF conjunct1 [OF o] this, of env] obtain st1 where
    st1: "cleanup_routing_tables env (st0\<lparr>is_orders := os\<rparr>) = Some st1" "instrument_ok n st1" "same_frame st st1"
    unfolding step_keeps_def by blast
  have "replay_order_snapshot env ros s st = (case a of None \<Rightarrow> Some (fills_none, st1)
      | Some oid \<Rightarrow> settle_ack env ros (key_cid (o_key s)) oid (is_position_ids st0 (key_cid (o_key s))) st1)"
    using a os st1(1) unfolding replay_order_snapshot_def Let_def env st0_def [symmetric] by simp
  then show ?thesis
  proof (cases a)
    case None
    with \<open>replay_order_snapshot env ros s st = _\<close> st1 show ?thesis by (intro step_keepsI) simp_all
  next
    case (Some oid)
    with \<open>replay_order_snapshot env ros s st = _\<close>
      settle_ack_keeps [OF st1(2) env, of ros "key_cid (o_key s)" oid "is_position_ids st0 (key_cid (o_key s))"] st1(3) same_frame_trans
    show ?thesis by (auto simp: step_keeps_def)
  qed
qed


lemma cancel_response_keeps:
  assumes "instrument_ok n st"
  shows "step_keeps n st (instrument_update_from_cancel_response env r st)"
  unfolding instrument_update_from_cancel_response_def
proof (rule step_keeps_bind)
  note o = orders_step_ok [OF assms, of "update_from_cancel_response r (is_orders st)"]
  then show "step_keeps n st (cleanup_routing_tables env (st\<lparr>is_orders := update_from_cancel_response r (is_orders st)\<rparr>))"
    using cleanup_after settled_frame by blast
next
  fix st1 :: "('a, 'b, 'c, 'd) instrument_state"
  assume ok: "instrument_ok n st1"
  have "sheet_ok (n + 2 * length (is_pending_fills st1)) (is_tear_sheet st1)" using ok by (simp add: instrument_ok_def)
  then have "sheet_ok n (is_tear_sheet st1)" by (rule sheet_ok_mono) simp
  with ok have "instrument_ok n (st1\<lparr>is_pending_fills := []\<rparr>)" by (simp add: instrument_ok_def csize_of_def)
  with ok same_frame_refl show "step_keeps n st1
      (Some (if is_pending_fills st1 \<noteq> [] \<and> \<not> has_open_in_flight st1 then st1\<lparr>is_pending_fills := []\<rparr> else st1))"
    by (intro step_keepsI [OF refl]) (simp_all add: same_frame_def)
qed

lemma snapshots_keep:
  assumes "instrument_ok n st" and env: "en_round env = Some"
  shows "step_keeps n st (apply_order_snapshots env ss st)"
  using assms(1)
proof (induction ss arbitrary: st)
  case Nil
  with same_frame_refl show ?case by (intro step_keepsI) simp_all
next
  case (Cons s ss)
  have "apply_order_snapshots env (s # ss) st =
      Option.bind (map_option snd (replay_order_snapshot env [] s st)) (apply_order_snapshots env ss)"
    by (cases "replay_order_snapshot env [] s st") (auto simp: instrument_update_from_order_snapshot_def)
  with step_keeps_bind [OF snapshot_keeps [OF Cons.prems env] Cons.IH] show ?case by simp
qed

lemma account_snapshot_keeps:
  assumes ok: "instrument_ok n st" and env: "en_round env = Some"
  shows "step_keeps n st (update_from_account_snapshot env s st)"
  unfolding update_from_account_snapshot_def
proof (rule step_keeps_bind [OF snapshots_keep [OF assms]])
  fix st1 :: "('a, 'b, 'c, 'd) instrument_state"
  assume ok: "instrument_ok n st1"
  then have "instrument_ok n (st1\<lparr>is_open_at_resync := Map.empty\<rparr>)" "settled st1 (st1\<lparr>is_open_at_resync := Map.empty\<rparr>)"
    by (simp_all add: instrument_ok_def csize_of_def settled_def)
  then show "step_keeps n st1 (let open_at_resync = is_open_at_resync st1; st2 = st1\<lparr>is_open_at_resync := Map.empty\<rparr>;
     st3 = (if ia_orders_complete s
       then st2\<lparr>is_orders := retire_unlisted (en_order env (dom open_at_resync)) open_at_resync
         ((\<lambda>ord. key_cid (o_key ord)) ` set (ia_orders s)) (is_orders st2)\<rparr>
       else st2) in cleanup_routing_tables env st3)"
    using orders_step_ok settled_trans settled_frame unfolding Let_def
    by (intro cleanup_after) (auto simp: settled_def same_frame_def)
qed

lemma position_replaced:
  assumes "manager_ok i csize S m" and "(k, p) \<in> set (pm_positions m)" and "position_ok i csize S p'"
  shows "manager_ok i csize S (m\<lparr>pm_positions := im_insert k p' (pm_positions m)\<rparr>)"
  using assms by (force simp: manager_ok_def im_set_insert)

lemma carry_position_ok: "apply_carry R slot amount t p = (u, p') \<Longrightarrow> position_ok i csize S p' = position_ok i csize S p"
  by (auto simp: apply_carry_def position_ok_def Let_def split: option.splits carry_slot.splits)

lemma filter_single: "filter P xs = [x] \<Longrightarrow> x \<in> set xs"
  using filter_is_subset [of P xs] by auto

lemma flow_position_mem:
  assumes "flow_position flow m = Inr found"
  shows "found \<in> set (pm_positions m)"
  using assms unfolding flow_position_def by (auto split: option.splits list.splits dest: filter_single)

lemma position_step:
  "instrument_ok n st \<Longrightarrow> manager_ok (is_key st) (csize_of st) UNIV m \<Longrightarrow> pm_mode m = pm_mode (is_position st) \<Longrightarrow>
    instrument_ok n (st\<lparr>is_position := m\<rparr>) \<and> same_frame st (st\<lparr>is_position := m\<rparr>)"
  by (simp add: instrument_ok_def csize_of_def same_frame_def)

lemma cash_flow_keeps:
  assumes ok: "instrument_ok n st"
  shows "step_keeps n st (Some (snd (update_from_cash_flow R flow st)))"
proof (cases "snd (update_from_cash_flow R flow st) = st")
  case True
  with ok same_frame_refl show ?thesis by (intro step_keepsI) simp_all
next
  case False
  then obtain k p u p' where f: "flow_position flow (is_position st) = Inr (k, p)"
      "apply_carry R (carry_slot_of (in_underlying (is_instrument st)) (cf_asset flow)) (cf_amount flow) (cf_time_exchange flow) p = (u, p')"
      "snd (update_from_cash_flow R flow st) =
        st\<lparr>is_position := (is_position st)\<lparr>pm_positions := im_insert k p' (pm_positions (is_position st))\<rparr>\<rparr>"
    by (auto simp: update_from_cash_flow_def Let_def split: if_splits sum.splits option.splits prod.splits)
  have m: "manager_ok (is_key st) (csize_of st) UNIV (is_position st)" using ok by (simp add: instrument_ok_def)
  then have "position_ok (is_key st) (csize_of st) UNIV p"
    using flow_position_mem [OF f(1)] by (auto simp: manager_ok_def)
  with position_replaced [OF m flow_position_mem [OF f(1)]] carry_position_ok [OF f(2)]
  have "manager_ok (is_key st) (csize_of st) UNIV ((is_position st)\<lparr>pm_positions := im_insert k p' (pm_positions (is_position st))\<rparr>)"
    by blast
  with position_step [OF ok this] f(3) show ?thesis by simp
qed

lemma mark_exact:
  "\<exists>ps'. mark_positions Some t price ps = Some ps' \<and> map fst ps' = map fst ps \<and>
    ((\<forall>(k, p) \<in> set ps. position_ok i csize S p) \<longrightarrow> (\<forall>(k, p) \<in> set ps'. position_ok i csize S p))"
proof (induction ps)
  case (Cons x ps)
  obtain k p where x: "x = (k, p)" by fastforce
  obtain u p' where u: "update_pnl_unrealised Some price (p\<lparr>ps_time_exchange_update := t\<rparr>) = Some (u, p')"
      "position_ok i csize S p' = position_ok i csize S p"
  proof -
    obtain r where "checked_pnl_unrealised Some (p\<lparr>ps_time_exchange_update := t\<rparr>) price = Some r"
      using checked_pnl_exact [of "p\<lparr>ps_time_exchange_update := t\<rparr>" price] by blast
    then show ?thesis
      by (cases r) (rule that, simp add: update_pnl_unrealised_def, simp add: position_ok_def)+
  qed
  with Cons x show ?case by auto
qed simp

lemma market_keeps:
  assumes ok: "instrument_ok n st"
  shows "step_keeps n st (update_from_market Some process data_price t ev st)"
proof -
  let ?st = "st\<lparr>is_data := process ev (is_data st)\<rparr>"
  have ok1: "instrument_ok n ?st" and f: "same_frame st ?st" using ok by (simp_all add: instrument_ok_def csize_of_def same_frame_def)
  show ?thesis
  proof (cases "data_price (is_data ?st)")
    case None
    with ok1 f show ?thesis by (intro step_keepsI) (simp_all add: update_from_market_def Let_def)
  next
    case (Some price)
    obtain ps where ps: "mark_positions Some t price (pm_positions (is_position st)) = Some ps"
        "map fst ps = map fst (pm_positions (is_position st))"
        "(\<forall>(k, p) \<in> set (pm_positions (is_position st)). position_ok (is_key st) (csize_of st) UNIV p) \<longrightarrow>
          (\<forall>(k, p) \<in> set ps. position_ok (is_key st) (csize_of st) UNIV p)"
      using mark_exact [of t price "pm_positions (is_position st)" "is_key st" "csize_of st" UNIV] by blast
    have "fst ` set ps = fst ` set (pm_positions (is_position st))" using arg_cong [OF ps(2), of set] by simp
    then have "manager_ok (is_key ?st) (csize_of ?st) UNIV ((is_position ?st)\<lparr>pm_positions := ps\<rparr>)"
      using ok ps by (simp add: instrument_ok_def manager_ok_def im_wf_def csize_of_def)
    from position_step [OF ok1 this] f same_frame_trans Some ps(1) show ?thesis
      by (intro step_keepsI [of _ "?st\<lparr>is_position := (is_position ?st)\<lparr>pm_positions := ps\<rparr>\<rparr>"])
        (auto simp: update_from_market_def Let_def same_frame_def)
  qed
qed

lemma clear_keeps: "instrument_ok n st \<Longrightarrow> step_keeps n st (Some (clear_order_routing st))"
proof (rule step_keepsI [OF refl])
  assume ok: "instrument_ok n st"
  have "sheet_ok (n + 2 * length (is_pending_fills st)) (is_tear_sheet st)" using ok by (simp add: instrument_ok_def)
  then have "sheet_ok n (is_tear_sheet st)" by (rule sheet_ok_mono) simp
  with ok show "instrument_ok n (clear_order_routing st)"
    by (simp add: instrument_ok_def clear_order_routing_def csize_of_def routing_ok_def book_inv_def book_clear_def reduce_only_count_def)
qed (simp add: clear_order_routing_def same_frame_def)

lemma step_keeps_fill:
  assumes "instrument_ok (Suc (Suc n)) st" and "en_round env = Some" and "tr_instrument t = is_key st"
  shows "step_keeps n st (map_option snd (instrument_update_from_trade env t st))"
  using replay_trade_ok [OF assms, of "[]"] by (auto simp: instrument_update_from_trade_def step_keeps_def)

lemmas event_keeps = open_sent_keeps cancel_response_keeps account_snapshot_keeps cash_flow_keeps market_keeps clear_keeps

lemma step_ok:
  assumes "instrument_ok (n + 2 * fills_in [ev]) st" and "en_round env = Some" and "event_of (is_key st) ev"
  shows "step_keeps n st (instrument_step env dm ev st)"
proof (cases ev)
  case (IvCancelSent req t)
  with assms(1) show ?thesis
    by (simp add: instrument_record_cancel_def instrument_ok_def csize_of_def same_frame_def)
next
  case (IvSnapshot s)
  with assms snapshot_keeps [of n st env "[]" s] show ?thesis by (simp add: instrument_update_from_order_snapshot_def)
next
  case IvResync
  with assms(1) show ?thesis
    by (simp add: begin_account_resync_def instrument_ok_def csize_of_def same_frame_def)
next
  case (IvFill t)
  with assms step_keeps_fill [of n st env t] show ?thesis by simp
qed (use assms event_keeps in simp_all)

lemma fills_in_Cons: "fills_in (ev # evs) = fills_in [ev] + fills_in evs"
  by (cases ev) simp_all

lemma run_ok:
  assumes "instrument_ok (2 * fills_in evs) st" and env: "en_round env = Some" and "\<forall>ev \<in> set evs. event_of (is_key st) ev"
  shows "\<exists>st'. instrument_run env dm evs st = Some st' \<and> instrument_ok 0 st' \<and> same_frame st st'"
  using assms(1,3)
proof (induction evs arbitrary: st)
  case Nil
  with same_frame_refl show ?case by simp
next
  case (Cons ev evs)
  have "instrument_ok (2 * fills_in evs + 2 * fills_in [ev]) st"
    using Cons.prems(1) unfolding fills_in_Cons [of ev evs] by (simp add: distrib_left add.commute)
  from step_ok [OF this env, of dm] Cons.prems(2) obtain st1 where
    s: "instrument_step env dm ev st = Some st1" "instrument_ok (2 * fills_in evs) st1" "same_frame st st1"
    by (auto simp: step_keeps_def)
  have "\<forall>ev \<in> set evs. event_of (is_key st1) ev" using Cons.prems(2) s(3) by (simp add: same_frame_def)
  from Cons.IH [OF s(2) this] s same_frame_trans show ?case by auto
qed

end
