(* ===== verification/Fill_Routes.thy ===== *)
theory Fill_Routes
  imports Instrument_Runs
begin

text \<open>
  What booking a fill leaves of the tables that route the next one, with any rounding: the orders
  still tracked keep their position and their id at the venue, and an order no longer tracked loses
  its position when a fill closes it.
\<close>

section \<open>The routes that a step keeps\<close>

text \<open>
  A step that tracks no new order, keeps the route of every order it leaves tracked, and does not
  touch the record of the orders open at a resynchronisation.
\<close>

definition routes_kept :: "('e, 'a, 'i, 'd) instrument_state \<Rightarrow> ('e, 'a, 'i, 'd) instrument_state \<Rightarrow> bool" where
  "routes_kept st st' \<longleftrightarrow> pm_mode (is_position st') = pm_mode (is_position st) \<and>
     is_open_at_resync st' = is_open_at_resync st \<and>
     (\<forall>c. is_tracked st' c \<longrightarrow> is_tracked st c \<and> is_position_ids st' c = is_position_ids st c \<and>
       (\<forall>i. is_exchange_ids st i = Some c \<longrightarrow> is_exchange_ids st' i = Some c))"

named_theorems keeps_routes

lemma routes_kept_refl [keeps_routes]: "routes_kept st st"
  by (simp add: routes_kept_def)

lemma routes_kept_trans: "routes_kept st st' \<Longrightarrow> routes_kept st' st'' \<Longrightarrow> routes_kept st st''"
  by (simp add: routes_kept_def)

lemma routes_kept_fields [keeps_routes]:
  "routes_kept st (st\<lparr>is_tear_sheet := g\<rparr>)" "routes_kept st (st\<lparr>is_pending_fills := fs\<rparr>)"
  by (simp_all add: routes_kept_def is_tracked_def)

lemma routes_kept_booked [keeps_routes]: "booked st st' \<Longrightarrow> routes_kept st st'"
  by (auto simp: booked_def routes_kept_def is_tracked_def)

lemma cleanup_fields:
  assumes "cleanup_routing_tables env st = Some st'"
  shows "is_pending_fills st' = is_pending_fills st" "is_orders st' = is_orders st" "is_position st' = is_position st"
    "is_open_at_resync st' = is_open_at_resync st"
    "is_position_ids st' c = None \<or> is_position_ids st' c = is_position_ids st c"
  using assms by (auto simp: cleanup_routing_tables_def Let_def bind_eq_Some_conv)

lemma routes_kept_cleanup [keeps_routes]: "cleanup_routing_tables env st = Some st' \<Longrightarrow> routes_kept st st'"
  by (auto simp: cleanup_routing_tables_def Let_def bind_eq_Some_conv routes_kept_def is_tracked_def)

lemma fill_tracks_nothing:
  assumes "update_from_fill R c i filled os = Some (b, os')" and "tracked os' d \<noteq> None"
  shows "tracked os d \<noteq> None"
  using assms by (auto simp: update_from_fill_def set_state_def Let_def bind_eq_Some_conv
      split: option.splits active_order_state.splits if_splits)

lemma routes_kept_orders:
  "(\<And>d. tracked os d \<noteq> None \<Longrightarrow> tracked (is_orders st) d \<noteq> None) \<Longrightarrow> routes_kept st (st\<lparr>is_orders := os\<rparr>)"
  by (simp add: routes_kept_def is_tracked_def)

lemma routes_kept_advance [keeps_routes]:
  assumes "advance_order env t st = Some st'"
  shows "routes_kept st st'"
proof -
  consider "st' = st"
    | c q b os where "update_from_fill (en_round env) c (tr_order_id t) q (is_orders st) = Some (b, os)"
        "st' = st\<lparr>is_orders := os\<rparr> \<or> cleanup_routing_tables env (st\<lparr>is_orders := os\<rparr>) = Some st'"
    using assms by (auto simp: advance_order_def Let_def bind_eq_Some_conv split: option.splits if_splits)
  then show ?thesis
  proof cases
    case 2
    have "routes_kept st (st\<lparr>is_orders := os\<rparr>)"
      using fill_tracks_nothing [OF 2(1)] by (rule routes_kept_orders)
    with 2(2) show ?thesis using routes_kept_cleanup routes_kept_trans by blast
  qed (simp add: routes_kept_refl)
qed

section \<open>One fill\<close>

lemma cut_booked:
  "book_reduce_only_cut env t netted pid held excess ro st = Some (r, st') \<Longrightarrow> booked st st'"
  by (auto simp: book_reduce_only_cut_def Let_def bind_eq_Some_conv intro: booked_sheet)

lemma move_booked:
  assumes "move_holding env t effective pid ro st = Some (r, st')"
  shows "booked st st'"
proof -
  let ?held = "case map_of (pm_positions (is_position st)) pid of None \<Rightarrow> 0 | Some p \<Rightarrow> side_signed (ps_side p) (ps_quantity_abs p)"
  obtain moved where m: "holding_move (en_round env) (is_instrument st) ?held ro t = Some moved"
    using assms by (cases "holding_move (en_round env) (is_instrument st) ?held ro t") (simp_all add: move_holding_def Let_def)
  show ?thesis
  proof (cases moved)
    case None
    with assms m show ?thesis by (simp add: move_holding_def Let_def booked_refl)
  next
    case (Some h)
    let ?netted = "effective\<lparr>tr_side := hm_side h, tr_quantity := hm_quantity h\<rparr>"
    show ?thesis
    proof (cases "hm_excess h = 0")
      case True
      with assms m Some show ?thesis
        by (cases "hm_dust h = 0"; cases "dec_mul (en_round env) (hm_dust h) (tr_price ?netted)")
          (auto simp: move_holding_def Let_def booked_refl booked_sheet)
    next
      case False
      with assms m Some show ?thesis
        by (cases "book_reduce_only_cut env t ?netted pid ?held (hm_excess h) ro st")
          (auto simp: move_holding_def Let_def dest: cut_booked)
    qed
  qed
qed

lemma with_id_mode: "update_from_trade_with_id R t i csize m = Some (out, m') \<Longrightarrow> pm_mode m' = pm_mode m"
  by (auto simp: update_from_trade_with_id_def Let_def record_position_end_def split: option.splits if_splits prod.splits)

lemma booked_positions:
  "pm_mode m = pm_mode (is_position st) \<Longrightarrow> booked st (st\<lparr>is_position := m\<rparr>)"
  unfolding booked_def by (intro exI [of _ m] exI [of _ "is_tear_sheet st"]) simp

lemma apply_booked:
  assumes "apply_to_position R t pid csize st = Some (ex, st')"
  shows "booked st st'"
proof -
  obtain out m where m: "update_from_trade_with_id R t pid csize (is_position st) = Some (out, m)"
    using assms by (auto simp: apply_to_position_def bind_eq_Some_conv)
  let ?st = "st\<lparr>is_position := m\<rparr>"
  have "st' = ?st \<or> (\<exists>g. st' = ?st\<lparr>is_tear_sheet := g\<rparr>)"
  proof (cases out)
    case (TradeApplied y)
    with assms m show ?thesis by (cases y) (auto simp: apply_to_position_def bind_eq_Some_conv)
  next
    case (TradeUnapplied fees)
    with assms m show ?thesis
      by (cases "fee_in_quote fees = 0") (auto simp: apply_to_position_def charge_unattributed_def bind_eq_Some_conv)
  qed
  moreover have "booked st ?st" using with_id_mode [OF m] by (rule booked_positions)
  ultimately show ?thesis using booked_sheet booked_trans by blast
qed

text \<open>The states a fill passes through: booked, the route of a closed position dropped, its order advanced.\<close>

definition pruned :: "position_id \<Rightarrow> ('e, 'a, 'i, 'd) instrument_state \<Rightarrow> ('e, 'a, 'i, 'd) instrument_state" where
  "pruned pid st = st\<lparr>is_position_ids := (\<lambda>c. if is_position_ids st c = Some pid \<and> \<not> is_tracked st c then None
     else is_position_ids st c)\<rparr>"

lemma book_fill_steps:
  fixes st :: "('e, 'a, 'i, 'd) instrument_state"
  assumes "book_fill env ros t pid capped st = Some (applied, st')"
  shows "\<exists>st2. booked st st2 \<and>
    advance_order env t (if fa_exited applied = None then st2 else pruned pid st2) = Some st'"
proof -
  let ?c = "kind_contract_size (in_kind (is_instrument st))" and ?R = "en_round env"
  define move where "move e = (if capped then Some (None, st) else move_holding env t e pid (sent_reduce_only_as env ros t st) st)"
    for e :: "('a, 'i) trade"
  define apply' where "apply' e cut st = (if cut \<noteq> None \<and> tr_quantity e = 0 then Some (None, st)
      else apply_to_position ?R e pid ?c st)"
    for e :: "('a, 'i) trade" and cut :: "('a, 'i) reduce_only_capped option" and st :: "('e, 'a, 'i, 'd) instrument_state"
  note unfold = book_fill_def Let_def move_def [symmetric] apply'_def [symmetric]
  obtain e where e: "with_model_fee ?R ?c st t = Some e"
    using assms by (cases "with_model_fee ?R ?c st t") (simp_all add: unfold)
  obtain moved st1 where m: "move e = Some (moved, st1)"
    using assms by (cases "move e") (auto simp: unfold e)
  obtain e' cut where pair: "(case moved of None \<Rightarrow> (e, None) | Some (netted, capped) \<Rightarrow> (netted, capped)) = (e', cut)"
    by fastforce
  obtain ex st2 where p: "apply' e' cut st1 = Some (ex, st2)"
    using assms unfolding unfold e bind.bind_lunit m prod.case pair by (cases "apply' e' cut st1") auto
  from assms have "advance_order env t (if ex = None then st2 else pruned pid st2) = Some st' \<and> fa_exited applied = ex"
    unfolding unfold e bind.bind_lunit m prod.case pair p pruned_def [symmetric] by (auto simp: bind_eq_Some_conv)
  moreover have "booked st st1" using m by (auto simp: move_def booked_refl dest: move_booked split: if_splits)
  moreover have "booked st1 st2" using p by (auto simp: apply'_def booked_refl dest: apply_booked split: if_splits)
  ultimately show ?thesis using booked_trans by blast
qed

lemma routes_kept_pruned: "routes_kept st (pruned pid st)"
  by (simp add: routes_kept_def is_tracked_def pruned_def)

lemma routes_kept_book [keeps_routes]:
  assumes "book_fill env ros t pid capped st = Some (applied, st')"
  shows "routes_kept st st'"
proof -
  obtain st2 where s: "booked st st2" "advance_order env t (if fa_exited applied = None then st2 else pruned pid st2) = Some st'"
    using book_fill_steps [OF assms] by blast
  have "routes_kept st2 (if fa_exited applied = None then st2 else pruned pid st2)"
    by (simp add: routes_kept_refl routes_kept_pruned)
  with routes_kept_booked [OF s(1)] routes_kept_advance [OF s(2)] show ?thesis using routes_kept_trans by blast
qed

text \<open>The fill of an order the engine tracks no longer, whose id still leads to its client id.\<close>

lemma book_untracked:
  assumes "book_fill env ros t pid capped st = Some (applied, st')"
    and "is_exchange_ids st (tr_order_id t) = Some c" and "\<not> is_tracked st c"
  shows "is_orders st' = is_orders st" "is_exchange_ids st' = is_exchange_ids st"
    "is_position_ids st' c = (if fa_exited applied \<noteq> None \<and> is_position_ids st c = Some pid then None else is_position_ids st c)"
proof -
  obtain st2 where s: "booked st st2" "advance_order env t (if fa_exited applied = None then st2 else pruned pid st2) = Some st'"
    using book_fill_steps [OF assms(1)] by blast
  let ?st3 = "if fa_exited applied = None then st2 else pruned pid st2"
  have same: "is_orders st2 = is_orders st" "is_exchange_ids st2 = is_exchange_ids st" "is_position_ids st2 = is_position_ids st"
    using booked_fields [OF s(1)] by simp_all
  have "tracked_order_cid env (tr_order_id t) ?st3 = Some c" "tracked (is_orders ?st3) c = None"
    using assms(2,3) same by (simp_all add: tracked_order_cid_def is_tracked_def pruned_def)
  then have "st' = ?st3"
    using s(2) by (cases "tr_order_filled_quantity t") (simp_all add: advance_order_def update_from_fill_def Let_def)
  then show "is_orders st' = is_orders st" "is_exchange_ids st' = is_exchange_ids st"
    "is_position_ids st' c = (if fa_exited applied \<noteq> None \<and> is_position_ids st c = Some pid then None else is_position_ids st c)"
    using assms(3) same by (auto simp: is_tracked_def pruned_def)
qed

section \<open>Routing and replaying\<close>

lemma routes_kept_settlement:
  assumes "route_settlement R t leg st = Some (dest, st')"
  shows "routes_kept st st'"
proof -
  consider "st' = st" | "st' = st\<lparr>is_tear_sheet := record_fill_unallocated (is_tear_sheet st)\<rparr>"
    using assms by (auto simp: route_settlement_def Let_def bind_eq_Some_conv split: option.splits if_splits)
  then show ?thesis by cases (simp_all add: keeps_routes)
qed

lemma routes_kept_route [keeps_routes]:
  assumes "route_fill env t st = Some (dest, st')"
  shows "routes_kept st st'"
proof -
  consider "st' = st" | g where "st' = st\<lparr>is_tear_sheet := g\<rparr>" | "st' = st\<lparr>is_pending_fills := is_pending_fills st @ [t]\<rparr>"
    | leg where "route_settlement (en_round env) t leg st = Some (dest, st')"
    using assms by (auto simp: route_fill_def route_unmatched_def split: oms_mode.splits option.splits if_splits)
  then show ?thesis by cases (simp_all add: keeps_routes routes_kept_settlement)
qed

lemma note_forced_sheet: "note_forced_fill st = st\<lparr>is_tear_sheet := record_fill_forced (is_tear_sheet st)\<rparr>"
  by (simp add: note_forced_fill_def)

text \<open>A fill replayed: routed, and booked if it goes to a position.\<close>

definition forced_noted :: "('a, 'i) trade \<Rightarrow> ('e, 'a, 'i, 'd) instrument_state \<Rightarrow> ('e, 'a, 'i, 'd) instrument_state" where
  "forced_noted t st = (if origin_is_forced (tr_origin t) then note_forced_fill st else st)"

lemma replay_trade_steps:
  assumes "replay_trade env ros t st = Some (applied, st')"
  obtains "route_fill env t (forced_noted t st) = Some (Nowhere, st')" "applied = fills_none"
  | pid capped st1 where "route_fill env t (forced_noted t st) = Some (ToPosition pid capped, st1)"
      "book_fill env ros (case capped of None \<Rightarrow> t | Some t' \<Rightarrow> t') pid (capped \<noteq> None) st1 = Some (applied, st')"
proof (cases "route_fill env t (forced_noted t st)")
  case None
  with assms show ?thesis by (simp add: replay_trade_def Let_def forced_noted_def)
next
  case (Some x)
  obtain dest st1 where x: "x = (dest, st1)" by fastforce
  show ?thesis
  proof (cases dest)
    case (ToPosition pid capped)
    with assms Some x show ?thesis by (intro that(2)) (simp_all add: replay_trade_def Let_def forced_noted_def)
  next
    case Nowhere
    with assms Some x show ?thesis by (intro that(1)) (simp_all add: replay_trade_def Let_def forced_noted_def)
  qed
qed

lemma routes_kept_replay [keeps_routes]:
  assumes "replay_trade env ros t st = Some (applied, st')"
  shows "routes_kept st st'"
proof -
  have "routes_kept st (forced_noted t st)" by (simp add: forced_noted_def note_forced_sheet keeps_routes)
  moreover have "routes_kept (forced_noted t st) st'"
    using assms by (rule replay_trade_steps) (auto dest: routes_kept_route routes_kept_book intro: routes_kept_trans)
  ultimately show ?thesis by (rule routes_kept_trans)
qed

lemma routes_kept_deferred [keeps_routes]:
  "replay_deferred env ros fs applied st = Some (out, st') \<Longrightarrow> routes_kept st st'"
proof (induction fs arbitrary: applied st)
  case (Cons f fs)
  then obtain a st1 applied' where "replay_trade env ros f st = Some (a, st1)"
      "replay_deferred env ros fs applied' st1 = Some (out, st')"
    by (auto simp: bind_eq_Some_conv)
  with Cons.IH show ?case using routes_kept_replay routes_kept_trans by blast
qed (simp add: routes_kept_refl)

lemma routes_kept_resync: "routes_kept st st' \<Longrightarrow> is_open_at_resync st' = is_open_at_resync st"
  by (simp add: routes_kept_def)

section \<open>Fills of an order tracked no longer\<close>

lemma route_of_order:
  assumes "route_fill env t st = Some (dest, st')" and "tr_origin t = OriginOrder"
  shows "is_exchange_ids st' = is_exchange_ids st" "is_position_ids st' = is_position_ids st" "is_orders st' = is_orders st"
    "dest = ToPosition pid capped \<Longrightarrow> capped = None"
proof -
  have "settlement_leg_of st (tr_origin t) = None" using assms(2) by (simp add: settlement_leg_of_def)
  then have "(st' = st \<or> (\<exists>g. st' = st\<lparr>is_tear_sheet := g\<rparr>) \<or> (\<exists>fs. st' = st\<lparr>is_pending_fills := fs\<rparr>)) \<and>
      (\<forall>pid capped. dest = ToPosition pid capped \<longrightarrow> capped = None)"
    using assms(1) by (auto simp: route_fill_def route_unmatched_def split: oms_mode.splits option.splits if_splits)
  then show "is_exchange_ids st' = is_exchange_ids st" "is_position_ids st' = is_position_ids st" "is_orders st' = is_orders st"
    "dest = ToPosition pid capped \<Longrightarrow> capped = None" by auto
qed

text \<open>The position an order's fills go to, as long as none of them ended a position.\<close>

definition route_left :: "position_id \<Rightarrow> ('a, 'i) fills_applied \<Rightarrow> position_id option" where
  "route_left pid applied = (if fa_exited applied = None then Some pid else None)"

lemma replay_untracked:
  assumes "replay_trade env ros t st = Some (out, st')" and "tr_origin t = OriginOrder"
    and "pm_mode (is_position st) = Hedging"
    and "is_exchange_ids st (tr_order_id t) = Some c" and "\<not> is_tracked st c"
    and "is_position_ids st c = route_left pid applied"
  shows "is_exchange_ids st' (tr_order_id t) = Some c" "\<not> is_tracked st' c"
    "is_position_ids st' c = (if fa_exited out = None then route_left pid applied else None)"
proof -
  have plain: "forced_noted t st = st" using assms(2) by (simp add: forced_noted_def origin_is_forced_def)
  have "is_exchange_ids st' (tr_order_id t) = Some c \<and> \<not> is_tracked st' c \<and>
      is_position_ids st' c = (if fa_exited out = None then route_left pid applied else None)"
    using assms(1)
  proof (rule replay_trade_steps)
    assume r: "route_fill env t (forced_noted t st) = Some (Nowhere, st')" and "out = fills_none"
    with route_of_order(1-3) [OF r [unfolded plain] assms(2)] assms(4-6) show ?thesis
      by (simp add: is_tracked_def fills_none_def)
  next
    fix p capped st1
    assume r: "route_fill env t (forced_noted t st) = Some (ToPosition p capped, st1)"
      and b: "book_fill env ros (case capped of None \<Rightarrow> t | Some t' \<Rightarrow> t') p (capped \<noteq> None) st1 = Some (out, st')"
    note same = route_of_order [OF r [unfolded plain] assms(2)]
    have to: "p = pid" if "fa_exited applied = None"
      using r that assms(3,4,6) by (simp add: plain route_fill_def route_left_def)
    have "capped = None" using same(4) by simp
    with b have b: "book_fill env ros t p False st1 = Some (out, st')" by simp
    have st1: "is_exchange_ids st1 (tr_order_id t) = Some c" "\<not> is_tracked st1 c" using same(1,3) assms(4,5) by (simp_all add: is_tracked_def)
    from book_untracked [OF b st1] same(2) st1 assms(6) to show ?thesis
      by (auto simp: is_tracked_def route_left_def)
  qed
  then show "is_exchange_ids st' (tr_order_id t) = Some c" "\<not> is_tracked st' c"
    "is_position_ids st' c = (if fa_exited out = None then route_left pid applied else None)" by simp_all
qed

lemma deferred_untracked:
  assumes "replay_deferred env ros fs applied st = Some (out, st')"
    and "\<forall>t \<in> set fs. tr_order_id t = i \<and> tr_origin t = OriginOrder" and "pm_mode (is_position st) = Hedging"
    and "is_exchange_ids st i = Some c" and "\<not> is_tracked st c" and "is_position_ids st c = route_left pid applied"
  shows "is_exchange_ids st' i = Some c \<and> is_position_ids st' c = route_left pid out"
  using assms
proof (induction fs arbitrary: applied st)
  case (Cons f fs)
  obtain a st1 applied' where r: "replay_trade env ros f st = Some (a, st1)" "replay_deferred env ros fs applied' st1 = Some (out, st')"
    "fa_exited applied' = (case fa_exited a of None \<Rightarrow> fa_exited applied | Some x \<Rightarrow> Some x)"
    using Cons.prems(1) by (auto simp: bind_eq_Some_conv)
  have f: "tr_order_id f = i" "tr_origin f = OriginOrder" using Cons.prems(2) by simp_all
  note step = replay_untracked [OF r(1) f(2) Cons.prems(3) _ Cons.prems(5,6), unfolded f(1), OF Cons.prems(4)]
  have "is_position_ids st1 c = route_left pid applied'"
    using step(3) r(3) by (cases "fa_exited a") (simp_all add: route_left_def)
  with Cons.IH [OF r(2) _ _ step(1,2)] Cons.prems(2,3) routes_kept_replay [OF r(1)] show ?case
    by (simp add: routes_kept_def)
qed simp

section \<open>Snapshots\<close>

lemma settle_ack_resync:
  assumes "settle_ack env ros c i pid st = Some (out, st')"
  shows "is_open_at_resync st' = is_open_at_resync st"
proof -
  let ?st1 = "st\<lparr>is_exchange_ids := (is_exchange_ids st)(i \<mapsto> c), is_book := acknowledge c i (is_book st),
       is_position_ids := (case (pid, is_position_ids st c) of
           (Some p, None) \<Rightarrow> (is_position_ids st)(c \<mapsto> p) | _ \<Rightarrow> is_position_ids st)\<rparr>"
  consider "st' = ?st1"
    | fs gs a st2 where "replay_deferred env ros fs fills_none (?st1\<lparr>is_pending_fills := gs\<rparr>) = Some (a, st2)"
        "cleanup_routing_tables env st2 = Some st'"
    using assms unfolding settle_ack_def Let_def by (auto simp: bind_eq_Some_conv split: if_splits)
  then show ?thesis
  proof cases
    case 2
    have "is_open_at_resync st2 = is_open_at_resync st"
      using routes_kept_resync [OF routes_kept_deferred [OF 2(1)]] by simp
    with cleanup_fields(4) [OF 2(2)] show ?thesis by simp
  qed simp
qed

lemma rejected_fields:
  "is_pending_fills (note_rejected_open env s st) = is_pending_fills st"
  "is_position (note_rejected_open env s st) = is_position st"
  "is_orders (note_rejected_open env s st) = is_orders st"
  "is_open_at_resync (note_rejected_open env s st) = is_open_at_resync st"
  by (auto simp: note_rejected_open_def split: order_state.split inactive_order_state.split)

lemma snapshot_resync:
  assumes "replay_order_snapshot env ros snap st = Some (out, st')"
  shows "is_open_at_resync st' = is_open_at_resync st"
proof -
  let ?st = "note_rejected_open env snap st" and ?c = "key_cid (o_key snap)"
  obtain b os st2 where r: "cleanup_routing_tables env (?st\<lparr>is_orders := os\<rparr>) = Some st2"
      "(case b of None \<Rightarrow> Some (fills_none, st2) | Some i \<Rightarrow> settle_ack env ros ?c i (is_position_ids ?st ?c) st2) = Some (out, st')"
    using assms by (auto simp: replay_order_snapshot_def Let_def bind_eq_Some_conv)
  have "is_open_at_resync st2 = is_open_at_resync st" using cleanup_fields(4) [OF r(1)] by (simp add: rejected_fields)
  with r(2) show ?thesis by (cases b) (auto dest: settle_ack_resync)
qed

lemma snapshots_resync:
  "apply_order_snapshots env ss st = Some st' \<Longrightarrow> is_open_at_resync st' = is_open_at_resync st"
proof (induction ss arbitrary: st)
  case (Cons s ss)
  then obtain a st1 where r: "replay_order_snapshot env [] s st = Some (a, st1)" "apply_order_snapshots env ss st1 = Some st'"
    by (auto simp: instrument_update_from_order_snapshot_def bind_eq_Some_conv)
  with Cons.IH [OF r(2)] snapshot_resync [OF r(1)] show ?case by simp
qed simp

section \<open>The orders that a fill leaves alone\<close>

text \<open>A fill moves on only an order that is open under the id the fill names.\<close>

definition open_under :: "order_id \<Rightarrow> client_order_id \<Rightarrow> ('e, 'i) orders \<Rightarrow> bool" where
  "open_under i c os \<longleftrightarrow> (case tracked os c of
     Some ord \<Rightarrow> (case o_state ord of Open op \<Rightarrow> assigned (open_id op) = Some i | _ \<Rightarrow> False)
   | None \<Rightarrow> False)"

lemma open_under_cong: "tracked os' c = tracked os c \<Longrightarrow> open_under i c os' = open_under i c os"
  by (simp add: open_under_def)

lemma fill_of_other:
  assumes "update_from_fill R d i filled os = Some (b, os')" and "\<not> open_under i c os"
  shows "tracked os' c = tracked os c"
  using assms by (auto simp: update_from_fill_def open_under_def set_state_def Let_def bind_eq_Some_conv
      split: option.splits active_order_state.splits if_splits)

lemma advance_other:
  assumes "advance_order env t st = Some st'"
  shows "is_pending_fills st' = is_pending_fills st"
    and "\<not> open_under (tr_order_id t) c (is_orders st) \<Longrightarrow> tracked (is_orders st') c = tracked (is_orders st) c"
proof -
  consider "st' = st"
    | d q b os where "update_from_fill (en_round env) d (tr_order_id t) q (is_orders st) = Some (b, os)"
        "st' = st\<lparr>is_orders := os\<rparr> \<or> cleanup_routing_tables env (st\<lparr>is_orders := os\<rparr>) = Some st'"
    using assms by (auto simp: advance_order_def Let_def bind_eq_Some_conv split: option.splits if_splits)
  then have "is_pending_fills st' = is_pending_fills st \<and>
      (\<not> open_under (tr_order_id t) c (is_orders st) \<longrightarrow> tracked (is_orders st') c = tracked (is_orders st) c)"
  proof cases
    case 2
    from 2(2) have "is_orders st' = os \<and> is_pending_fills st' = is_pending_fills st"
      by (auto dest: cleanup_fields(1,2))
    with fill_of_other [OF 2(1)] show ?thesis by simp
  qed simp
  then show "is_pending_fills st' = is_pending_fills st"
    and "\<not> open_under (tr_order_id t) c (is_orders st) \<Longrightarrow> tracked (is_orders st') c = tracked (is_orders st) c" by simp_all
qed

lemma book_other:
  assumes "book_fill env ros t pid capped st = Some (out, st')"
  shows "is_pending_fills st' = is_pending_fills st"
    and "\<not> open_under (tr_order_id t) c (is_orders st) \<Longrightarrow> tracked (is_orders st') c = tracked (is_orders st) c"
proof -
  obtain st2 where s: "booked st st2" "advance_order env t (if fa_exited out = None then st2 else pruned pid st2) = Some st'"
    using book_fill_steps [OF assms] by blast
  have "is_pending_fills (if fa_exited out = None then st2 else pruned pid st2) = is_pending_fills st"
    "is_orders (if fa_exited out = None then st2 else pruned pid st2) = is_orders st"
    using booked_fields [OF s(1)] by (simp_all add: pruned_def)
  with advance_other [OF s(2)] show "is_pending_fills st' = is_pending_fills st"
    and "\<not> open_under (tr_order_id t) c (is_orders st) \<Longrightarrow> tracked (is_orders st') c = tracked (is_orders st) c" by simp_all
qed

lemma capped_order_id: "capped_to R t held = Some t' \<Longrightarrow> tr_order_id t' = tr_order_id t"
  by (auto simp: capped_to_def bind_eq_Some_conv)

lemma settlement_other:
  assumes "route_settlement R t leg st = Some (dest, st')"
  shows "is_orders st' = is_orders st \<and> is_pending_fills st' = is_pending_fills st \<and>
    (\<forall>pid t'. dest = ToPosition pid (Some t') \<longrightarrow> tr_order_id t' = tr_order_id t)"
  using assms by (auto simp: route_settlement_def Let_def bind_eq_Some_conv dest: capped_order_id split: option.splits if_splits)

lemma route_other:
  assumes "route_fill env t st = Some (dest, st')"
  shows "is_orders st' = is_orders st" "set (is_pending_fills st') \<subseteq> insert t (set (is_pending_fills st))"
    "dest = ToPosition pid (Some t') \<Longrightarrow> tr_order_id t' = tr_order_id t"
proof -
  have "is_orders st' = is_orders st \<and> set (is_pending_fills st') \<subseteq> insert t (set (is_pending_fills st)) \<and>
      (\<forall>pid t'. dest = ToPosition pid (Some t') \<longrightarrow> tr_order_id t' = tr_order_id t)"
    using assms by (auto simp: route_fill_def route_unmatched_def dest: settlement_other split: oms_mode.splits option.splits if_splits)
  then show "is_orders st' = is_orders st" "set (is_pending_fills st') \<subseteq> insert t (set (is_pending_fills st))"
    "dest = ToPosition pid (Some t') \<Longrightarrow> tr_order_id t' = tr_order_id t" by auto
qed

lemma replay_other:
  assumes "replay_trade env ros t st = Some (out, st')"
  shows "set (is_pending_fills st') \<subseteq> insert t (set (is_pending_fills st))"
    and "\<not> open_under (tr_order_id t) c (is_orders st) \<Longrightarrow> tracked (is_orders st') c = tracked (is_orders st) c"
proof -
  have noted: "is_orders (forced_noted t st) = is_orders st" "is_pending_fills (forced_noted t st) = is_pending_fills st"
    by (simp_all add: forced_noted_def note_forced_sheet)
  have "set (is_pending_fills st') \<subseteq> insert t (set (is_pending_fills st)) \<and>
      (\<not> open_under (tr_order_id t) c (is_orders st) \<longrightarrow> tracked (is_orders st') c = tracked (is_orders st) c)"
    using assms
  proof (rule replay_trade_steps)
    assume r: "route_fill env t (forced_noted t st) = Some (Nowhere, st')"
    from route_other(1,2) [OF r] show ?thesis by (simp add: noted)
  next
    fix pid capped st1
    assume r: "route_fill env t (forced_noted t st) = Some (ToPosition pid capped, st1)"
      and b: "book_fill env ros (case capped of None \<Rightarrow> t | Some t' \<Rightarrow> t') pid (capped \<noteq> None) st1 = Some (out, st')"
    have i: "tr_order_id (case capped of None \<Rightarrow> t | Some t' \<Rightarrow> t') = tr_order_id t"
      using route_other(3) [OF r] by (cases capped) simp_all
    from book_other [OF b, unfolded i] route_other(1,2) [OF r] show ?thesis by (simp add: noted)
  qed
  then show "set (is_pending_fills st') \<subseteq> insert t (set (is_pending_fills st))"
    and "\<not> open_under (tr_order_id t) c (is_orders st) \<Longrightarrow> tracked (is_orders st') c = tracked (is_orders st) c" by simp_all
qed

lemma deferred_other:
  assumes "replay_deferred env ros fs applied st = Some (out, st')"
    and "\<forall>t \<in> set fs. \<not> open_under (tr_order_id t) c (is_orders st)"
  shows "set (is_pending_fills st') \<subseteq> set fs \<union> set (is_pending_fills st) \<and> tracked (is_orders st') c = tracked (is_orders st) c"
  using assms
proof (induction fs arbitrary: applied st)
  case (Cons f fs)
  obtain a st1 applied' where r: "replay_trade env ros f st = Some (a, st1)" "replay_deferred env ros fs applied' st1 = Some (out, st')"
    using Cons.prems(1) by (auto simp: bind_eq_Some_conv)
  have same: "tracked (is_orders st1) c = tracked (is_orders st) c" using replay_other(2) [OF r(1)] Cons.prems(2) by simp
  with Cons.IH [OF r(2)] Cons.prems(2) replay_other(1) [OF r(1)] show ?case
    by (auto simp: open_under_cong [OF same])
qed simp

end
