(* ===== verification/Instrument_Fills.thy ===== *)
theory Instrument_Fills
  imports Fill_Routes
begin

text \<open>
  Properties of an instrument's state: histories never panic, a fill is booked whole, a fill that
  overtakes the acknowledgement of its order is booked as one that follows it, a resynchronisation
  retires what the venue no longer lists, and a cash flow is booked once.
\<close>

section \<open>Example\<close>

definition ex_state :: "oms_mode \<Rightarrow> (unit, unit, unit, unit) instrument_state" where
  "ex_state mode = instrument_state_init () ex_btc 0 (position_manager_new mode) (orders_new Map.empty) ()"

definition ex_env :: "(unit, unit) engine_env" where
  "ex_env = \<lparr>en_round = Some, en_reason = (\<lambda>_. ''rejected''), en_order = (\<lambda>_. [])\<rparr>"

definition ex_model :: "(unit, unit, unit, unit) data_model" where
  "ex_model = \<lparr>dm_open = (\<lambda>_ _ d. d), dm_cancel = (\<lambda>_ _ d. d), dm_process = (\<lambda>_ d. d), dm_price = (\<lambda>_. Some 100)\<rparr>"

section \<open>Histories\<close>

lemma init_ok:
  assumes "n < 2 ^ 64 - 1" and "instrument_state_init key ins start (position_manager_new mode) os d = st"
  shows "instrument_ok n st" "is_key st = key" "pm_mode (is_position st) = mode" "is_instrument st = ins"
proof -
  have "\<exists>xs ys. data_set_default = data_set_of xs \<and> data_set_default = data_set_of ys"
    using data_set_of_Nil by (intro exI [of _ "[]"]) simp
  with assms book_new_inv manager_new_ok show "instrument_ok n st"
    by (auto simp: instrument_ok_def instrument_state_init_def csize_of_def routing_ok_def sheet_ok_def sheet_counts_def
        sheet_load_def tear_sheet_init_def pnl_returns_default_def mean_drawdown_default_def)
  show "is_key st = key" "pm_mode (is_position st) = mode" "is_instrument st = ins"
    using assms(2) by (auto simp: instrument_state_init_def manager_new_mode)
qed

text \<open>C34: An instrument's history never panics, where the arithmetic is exact. Whatever requests, fills, order and account snapshots, cancel responses, resynchronisations, cash flows and market events reach a fresh instrument, in whatever order, every one is processed. Afterwards each position has its own id, a positive quantity and the instrument's contract size; netting mode has at most one position and no fill put aside; and the memory of retired routes holds each order once, at most 64 of them.\<close>
theorem instrument_history_never_panics:
  assumes "en_round env = Some" and "\<forall>ev \<in> set evs. event_of key ev" and "2 * fills_in evs < 2 ^ 64 - 1"
  shows "\<exists>st. instrument_run env dm evs (instrument_state_init key ins start (position_manager_new mode) os d) = Some st \<and>
    distinct (map fst (pm_positions (is_position st))) \<and>
    (\<forall>(i, p) \<in> set (pm_positions (is_position st)). 0 < ps_quantity_abs p \<and> ps_instrument p = key \<and>
      ps_contract_size p = kind_contract_size (in_kind ins)) \<and>
    (mode = Netting \<longrightarrow> length (pm_positions (is_position st)) \<le> 1 \<and> is_pending_fills st = []) \<and>
    distinct (map fst (is_retired_routing st)) \<and> length (is_retired_routing st) \<le> max_retired_routing"
proof -
  define st0 where "st0 = instrument_state_init key ins start (position_manager_new mode) os d"
  note init = init_ok [OF assms(3), of key ins start mode os d st0, OF st0_def [symmetric]]
  obtain st where st: "instrument_run env dm evs st0 = Some st" "instrument_ok 0 st" "same_frame st0 st"
    using run_ok [OF init(1) assms(1)] assms(2) init(2) by auto
  have keys: "is_key st = key" "pm_mode (is_position st) = mode" "csize_of st = kind_contract_size (in_kind ins)"
    using st(3) init by (simp_all add: same_frame_def csize_of_def)
  have one: "length (pm_positions (is_position st)) \<le> 1" if "mode = Netting"
    using netting_positions [of key "csize_of st" UNIV "is_position st"] st(2) keys that
    by (auto simp: instrument_ok_def split: if_splits)
  show ?thesis unfolding st0_def [symmetric]
    using st(1,2) keys one by (auto simp: instrument_ok_def manager_ok_def im_wf_def routing_ok_def position_ok_def)
qed

theorem instrument_history_never_panics_witness:
  "\<exists>st. instrument_run ex_env ex_model [IvFill (ex_fill Buy 100 7), IvMarket 5 (), IvFill (ex_fill Sell 103 9)] (ex_state Netting) = Some st \<and>
    length (pm_positions (is_position st)) \<le> 1"
  using instrument_history_never_panics [of ex_env "[IvFill (ex_fill Buy 100 7), IvMarket 5 (), IvFill (ex_fill Sell 103 9)]" "()"
      ex_model ex_btc 0 Netting "orders_new Map.empty" "()"]
  by (auto simp: ex_env_def ex_fill_def ex_state_def)

section \<open>A fill is booked whole\<close>

lemma netting_held:
  assumes "manager_ok i csize S m" and "pm_mode m = Netting"
  shows "held_at position_id_netting m = manager_net m"
  using netting_positions [OF assms] by (auto simp: held_at_def manager_net_def split: if_splits)

definition noted :: "('a, 'i) trade \<Rightarrow> ('e, 'a, 'i, 'd) instrument_state \<Rightarrow> ('e, 'a, 'i, 'd) instrument_state" where
  "noted t st = (if origin_is_forced (tr_origin t) then note_forced_fill st else st)"

lemma route_keeps_books:
  assumes "route_fill env t st = Some (ToPosition pid None, st')"
  obtains g where "st' = st\<lparr>is_tear_sheet := g\<rparr>" "same_sheet (is_tear_sheet st) g"
    "pm_mode (is_position st) = Netting \<longrightarrow> pid = position_id_netting"
proof -
  have mode: "pm_mode (is_position st) = Netting \<longrightarrow> pid = position_id_netting"
    using assms by (auto simp: route_fill_def)
  consider "st' = st"
    | d where "st' = st\<lparr>is_tear_sheet := record_fill_routed_by_fallback (tr_order_id t) d (is_tear_sheet st)\<rparr>"
    | d where "st' = st\<lparr>is_tear_sheet := record_fill_unmatched (tr_order_id t) d (is_tear_sheet st)\<rparr>"
    using assms by (auto simp: route_fill_def route_unmatched_def route_settlement_def Let_def bind_eq_Some_conv
        split: oms_mode.splits option.splits if_splits prod.splits)
  then show ?thesis
  proof cases
    case 1
    with mode same_sheet_refl show ?thesis by (intro that [of "is_tear_sheet st"]) simp_all
  qed (use that mode same_sheet_counters(3,4) in blast)+
qed

lemma sheet_reads:
  "sent_reduce_only_as env ros t (st\<lparr>is_tear_sheet := g\<rparr>) = sent_reduce_only_as env ros t st"
  "with_model_fee R c (st\<lparr>is_tear_sheet := g\<rparr>) t = with_model_fee R c st t"
proof -
  have "tracked_order_cid env i (st\<lparr>is_tear_sheet := g\<rparr>) = tracked_order_cid env i st" for i
    by (cases "is_exchange_ids st i") (simp_all add: tracked_order_cid_def)
  then have "reduce_only_order env t (st\<lparr>is_tear_sheet := g\<rparr>) = reduce_only_order env t st"
    by (cases "tr_client_order_id t") (simp_all add: reduce_only_order_def)
  then show "sent_reduce_only_as env ros t (st\<lparr>is_tear_sheet := g\<rparr>) = sent_reduce_only_as env ros t st"
    by (cases "map_of ros (tr_id t)") (simp_all add: sent_reduce_only_as_def)
qed (simp add: with_model_fee_def)

text \<open>C35: A fill that is routed to a position is booked whole, where the arithmetic is exact, the state is well formed and no position of the instrument carries cash flows in the base asset (closing a position values those at the exit price). The net position of the instrument changes by exactly what the fill moves in the holding of that position: its signed quantity, less a fee taken in the base asset, cut for a reduce-only order at flat, rounded to the quantity step. And what the engine counts the instrument as worth at any price, over its positions and its tear sheet together, changes by exactly that move at the price less what the fill paid for it, less the fee with that of the fee model: whether the fill opens, grows, reduces, closes or flips a position, or is cut to nothing and its fee charged to the tear sheet.\<close>
theorem fill_is_booked_whole:
  assumes "instrument_ok 2 st" and "en_round env = Some" and "tr_instrument t = is_key st" and "plain_carry st"
    and "route_fill env t (noted t st) = Some (ToPosition pid None, st1)"
  shows "\<exists>applied st' e r. instrument_update_from_trade env t st = Some (applied, st') \<and>
    with_model_fee Some (csize_of st) st t = Some e \<and>
    holding_move Some (is_instrument st) (held_at pid (is_position st)) (sent_reduce_only_as env [] t st) t = Some r \<and>
    manager_net (is_position st') = manager_net (is_position st) + applied_move t r \<and>
    engine_worth price st' =
      engine_worth price st + applied_move t r * (price - tr_price t) * csize_of st - fee_in_quote (tr_fees e)"
proof -
  obtain g0 where g0: "noted t st = st\<lparr>is_tear_sheet := g0\<rparr>" "same_sheet (is_tear_sheet st) g0"
  proof (cases "origin_is_forced (tr_origin t)")
    case True
    then show ?thesis by (intro that [of "record_fill_forced (is_tear_sheet st)"]) (simp_all add: noted_def note_forced_fill_def same_sheet_counters)
  next
    case False
    then show ?thesis by (intro that [of "is_tear_sheet st"]) (simp_all add: noted_def same_sheet_refl)
  qed
  have two: "(2 :: nat) = Suc (Suc 0)" by simp
  have ok0: "instrument_ok (Suc (Suc 0)) (noted t st)"
    using same_sheet_step(1) [OF assms(1) g0(2)] unfolding g0(1) two .
  have inst0: "tr_instrument t = is_key (noted t st)" using assms(3) g0(1) by simp
  obtain g where g: "st1 = st\<lparr>is_tear_sheet := g\<rparr>" and s: "same_sheet g0 g"
    and mode: "pm_mode (is_position st) = Netting \<longrightarrow> pid = position_id_netting"
    by (rule route_keeps_books [OF assms(5)]) (simp add: g0(1))
  note same = same_sheet_trans [OF g0(2) s]
  have ok1: "instrument_ok (Suc (Suc 0)) st1" using same_sheet_step(1) [OF assms(1) same] unfolding g two .
  have w1: "engine_worth price st1 = engine_worth price st" using same_sheet_step(2) [OF assms(1) same] g by simp
  have pc: "plain_carry st1" using assms(4) g by (simp add: plain_carry_def)
  from book_fill_ok [OF ok1 assms(2), of t pid "[]" False price] assms(3) g mode obtain applied st' e r where
    b: "book_fill env [] t pid False st1 = Some (applied, st')" "with_model_fee Some (csize_of st1) st1 t = Some e"
      "holding_move Some (is_instrument st1) (held_at pid (is_position st1)) (sent_reduce_only_as env [] t st1) t = Some r"
      "manager_net (is_position st') = manager_net (is_position st1) + applied_move t r"
      "engine_worth price st' = engine_worth price st1 + applied_move t r * (price - tr_price t) * csize_of st1 - fee_in_quote (tr_fees e)"
    using pc by auto
  have "instrument_update_from_trade env t st = Some (applied, st')"
    using assms(5) b(1) unfolding instrument_update_from_trade_def replay_trade_def Let_def noted_def by simp
  with b w1 g show ?thesis by (auto simp: sheet_reads csize_of_def)
qed

theorem fill_is_booked_whole_witness:
  "\<exists>applied st'. instrument_update_from_trade ex_env (ex_fill Buy 100 7) (ex_state Netting) = Some (applied, st') \<and>
    manager_net (is_position st') = 6 \<and> engine_worth 110 st' = 59"
proof -
  have "instrument_ok 2 (ex_state Netting)" by (rule init_ok(1) [OF _ ex_state_def [symmetric]]) simp
  moreover have "plain_carry (ex_state Netting)"
    by (simp add: plain_carry_def no_base_carry_def ex_state_def instrument_state_init_def position_manager_new_def)
  moreover have "route_fill ex_env (ex_fill Buy 100 7) (noted (ex_fill Buy 100 7) (ex_state Netting)) =
      Some (ToPosition position_id_netting None, ex_state Netting)"
    by (simp add: route_fill_def noted_def origin_is_forced_def ex_fill_def ex_state_def instrument_state_init_def position_manager_new_def)
  moreover have "en_round ex_env = Some" "tr_instrument (ex_fill Buy 100 7) = is_key (ex_state Netting)" by (simp_all add: ex_env_def)
  ultimately obtain applied st' e r where
    w: "instrument_update_from_trade ex_env (ex_fill Buy 100 7) (ex_state Netting) = Some (applied, st')"
      "with_model_fee Some (csize_of (ex_state Netting)) (ex_state Netting) (ex_fill Buy 100 7) = Some e"
      "holding_move Some (is_instrument (ex_state Netting)) (held_at position_id_netting (is_position (ex_state Netting)))
        (sent_reduce_only_as ex_env [] (ex_fill Buy 100 7) (ex_state Netting)) (ex_fill Buy 100 7) = Some r"
      "manager_net (is_position st') = manager_net (is_position (ex_state Netting)) + applied_move (ex_fill Buy 100 7) r"
      "engine_worth 110 st' = engine_worth 110 (ex_state Netting)
        + applied_move (ex_fill Buy 100 7) r * (110 - tr_price (ex_fill Buy 100 7)) * csize_of (ex_state Netting) - fee_in_quote (tr_fees e)"
    using fill_is_booked_whole [of "ex_state Netting" ex_env "ex_fill Buy 100 7" position_id_netting "ex_state Netting" 110] by blast
  have st: "is_instrument (ex_state Netting) = ex_btc" "is_position (ex_state Netting) = position_manager_new Netting"
    "is_book (ex_state Netting) = book_new" "csize_of (ex_state Netting) = 1" "is_fee_model (ex_state Netting) = ZeroFee"
    by (simp_all add: ex_state_def instrument_state_init_def csize_of_def ex_btc_def)
  have "reduce_only_order ex_env (ex_fill Buy 100 7) (ex_state Netting) = None"
    by (simp add: reduce_only_order_def st has_reduce_only_def book_new_def)
  then have "sent_reduce_only_as ex_env [] (ex_fill Buy 100 7) (ex_state Netting) = RONo"
    by (simp add: sent_reduce_only_as_def)
  moreover have "held_at position_id_netting (is_position (ex_state Netting)) = 0" by (simp add: st held_at_def position_manager_new_def)
  moreover have "holding_move Some ex_btc 0 RONo (ex_fill Buy 100 7) =
      Some (Some \<lparr>hm_side = Buy, hm_quantity = 6, hm_dust = 0, hm_excess = 0\<rparr>)"
    by (simp add: holding_move_def has_base_fee_def ex_btc_def ex_fill_def side_signed_def side_unsigned_def
        quantity_step_def is_reduce_only_def dec_simps)
  ultimately have "r = Some \<lparr>hm_side = Buy, hm_quantity = 6, hm_dust = 0, hm_excess = 0\<rparr>"
    using w(3) by (simp add: st(1))
  then have "applied_move (ex_fill Buy 100 7) r = 6" by (simp add: applied_move_def side_signed_def)
  moreover have "e = ex_fill Buy 100 7" using w(2) by (simp add: with_model_fee_def st)
  moreover have "engine_worth 110 (ex_state Netting) = 0"
  proof -
    have "manager_carry (position_manager_new Netting) = 0" by (simp add: manager_carry_def position_manager_new_def)
    moreover have "sheet_pnl (is_tear_sheet (ex_state Netting)) = 0"
      by (simp add: sheet_pnl_def ex_state_def instrument_state_init_def tear_sheet_init_def pnl_returns_default_def)
    ultimately show ?thesis by (simp add: engine_worth_def st(2) manager_new_worth)
  qed
  ultimately show ?thesis using w(1,4,5) by (simp add: st manager_new_worth ex_fill_def fee_in_quote_def)
qed

section \<open>Fills that overtake the acknowledgement of their order\<close>








text \<open>The index an acknowledgement fills in.\<close>

definition indexed ::
  "client_order_id \<Rightarrow> order_id \<Rightarrow> position_id option \<Rightarrow> ('e, 'a, 'i, 'd) instrument_state \<Rightarrow> ('e, 'a, 'i, 'd) instrument_state" where
  "indexed c oid pid st = st\<lparr>is_exchange_ids := (is_exchange_ids st)(oid \<mapsto> c), is_book := acknowledge c oid (is_book st),
       is_position_ids := (case (pid, is_position_ids st c) of
           (Some p, None) \<Rightarrow> (is_position_ids st)(c \<mapsto> p)
         | _ \<Rightarrow> is_position_ids st)\<rparr>"

lemma settle_ack_indexed:
  "settle_ack env ros c oid pid st =
    (if is_pending_fills st = [] then Some (fills_none, indexed c oid pid st)
     else do {
       (applied, st2) \<leftarrow> replay_deferred env ros (filter (\<lambda>f. tr_order_id f = oid) (is_pending_fills st)) fills_none
         ((indexed c oid pid st)\<lparr>is_pending_fills := filter (\<lambda>f. tr_order_id f \<noteq> oid) (is_pending_fills st)\<rparr>);
       st3 \<leftarrow> cleanup_routing_tables env st2;
       Some (applied, st3)
     })"
  by (simp add: settle_ack_def indexed_def Let_def)



text \<open>The venue's id that a snapshot gives an order the engine awaits the acknowledgement of.\<close>

fun acknowledges :: "order_id \<Rightarrow> ('a, 'i) order_state \<Rightarrow> bool" where
  "acknowledges oid (Active (Open op)) = (assigned (open_id op) = Some oid)"
| "acknowledges oid (Inactive (FullyFilled f)) = (filled_id f = oid)"
| "acknowledges oid _ = False"




definition ex_flight :: "(unit, unit, unit, unit) instrument_state" where
  "ex_flight = (ex_state Hedging)\<lparr>is_orders := ex_tracked (OpenInFlight 0), is_position_ids := [''c'' \<mapsto> ''p'']\<rparr>"

definition ex_early :: "(unit, unit) trade" where
  "ex_early = (ex_fill Buy 100 5)\<lparr>tr_order_id := ''v''\<rparr>"


lemma other_ack:
  assumes "ack_exchange_id R snap st = Some (Some oid)"
  shows "acknowledges oid (o_state snap)"
  using assms by (auto simp: ack_exchange_id_def Let_def bind_eq_Some_conv
      split: if_splits order_state.splits active_order_state.splits inactive_order_state.splits)

lemma indexed_fields:
  "is_pending_fills (indexed c oid pid st) = is_pending_fills st" "is_position (indexed c oid pid st) = is_position st"
  "is_orders (indexed c oid pid st) = is_orders st" "is_open_at_resync (indexed c oid pid st) = is_open_at_resync st"
  by (simp_all add: indexed_def)

text \<open>A snapshot that acknowledges the order of no fill put aside.\<close>

lemma snapshot_without_replay:
  assumes "replay_order_snapshot env ros snap st = Some (a, st')"
    and "\<forall>t \<in> set (is_pending_fills st). \<not> acknowledges (tr_order_id t) (o_state snap)"
  shows "is_pending_fills st' = is_pending_fills st" "is_position st' = is_position st"
    "is_open_at_resync st' = is_open_at_resync st" "update_from_order_snapshot (en_round env) snap (is_orders st) = Some (is_orders st')"
proof -
  let ?st = "note_rejected_open env snap st" and ?c = "key_cid (o_key snap)"
  obtain b os st2 where r: "ack_exchange_id (en_round env) snap ?st = Some b"
      "update_from_order_snapshot (en_round env) snap (is_orders st) = Some os"
      "cleanup_routing_tables env (?st\<lparr>is_orders := os\<rparr>) = Some st2"
      "(case b of None \<Rightarrow> Some (fills_none, st2) | Some oid \<Rightarrow> settle_ack env ros ?c oid (is_position_ids ?st ?c) st2) = Some (a, st')"
    using assms(1) by (auto simp: replay_order_snapshot_def Let_def bind_eq_Some_conv rejected_fields)
  note clean = cleanup_fields(1-4) [OF r(3)]
  have "is_pending_fills st' = is_pending_fills st2 \<and> is_position st' = is_position st2 \<and>
      is_open_at_resync st' = is_open_at_resync st2 \<and> is_orders st' = is_orders st2"
  proof (cases b)
    case None
    with r(4) show ?thesis by simp
  next
    case (Some oid)
    have none: "filter (\<lambda>f. tr_order_id f = oid) (is_pending_fills st2) = []"
      "filter (\<lambda>f. tr_order_id f \<noteq> oid) (is_pending_fills st2) = is_pending_fills st2"
      using other_ack [OF r(1) [unfolded Some]] assms(2) clean(1) by (auto simp: filter_empty_conv rejected_fields filter_id_conv)
    show ?thesis
    proof (cases "is_pending_fills st2 = []")
      case True
      with r(4) Some show ?thesis by (auto simp: settle_ack_indexed indexed_fields)
    next
      case False
      with r(4) Some obtain st3 where "cleanup_routing_tables env ((indexed ?c oid (is_position_ids ?st ?c) st2)
          \<lparr>is_pending_fills := is_pending_fills st2\<rparr>) = Some st3" "st' = st3"
        by (auto simp: settle_ack_indexed none bind_eq_Some_conv)
      with cleanup_fields(1-4) show ?thesis by (fastforce simp: indexed_fields)
    qed
  qed
  with clean r(2) show "is_pending_fills st' = is_pending_fills st" "is_position st' = is_position st"
    "is_open_at_resync st' = is_open_at_resync st" "update_from_order_snapshot (en_round env) snap (is_orders st) = Some (is_orders st')"
    by (simp_all add: rejected_fields)
qed

text \<open>C37: A fill put aside waits for the acknowledgement of its own order and for nothing else. An order snapshot that acknowledges none of the orders whose fills are put aside, a failed open or an acknowledgement under another id, leaves every one of those fills put aside and every position as it was, even when no open is left in flight whose acknowledgement could bring them: the snapshot neither books nor drops them.\<close>
theorem fill_put_aside_waits_for_its_own_order:
  assumes "instrument_update_from_order_snapshot env snap st = Some (a, st')"
    and "\<forall>t \<in> set (is_pending_fills st). \<not> acknowledges (tr_order_id t) (o_state snap)"
  shows "is_pending_fills st' = is_pending_fills st \<and> is_position st' = is_position st"
  using snapshot_without_replay(1,2) assms unfolding instrument_update_from_order_snapshot_def by blast

definition ex_rejection :: "(unit, unit, unit) order_snapshot" where
  "ex_rejection = ex_snapshot (Inactive (OpenFailed (Rejected (OrderRejected ''no''))))"

theorem fill_put_aside_waits_for_its_own_order_witness:
  "\<exists>a st'. instrument_update_from_order_snapshot ex_env ex_rejection (ex_flight\<lparr>is_pending_fills := [ex_early]\<rparr>) = Some (a, st') \<and>
    is_pending_fills st' = [ex_early] \<and> \<not> has_open_in_flight st'"
proof -
  let ?st = "ex_flight\<lparr>is_pending_fills := [ex_early]\<rparr>"
  have none: "\<forall>t \<in> set (is_pending_fills ?st). \<not> acknowledges (tr_order_id t) (o_state ex_rejection)"
    by (simp add: ex_rejection_def ex_snapshot_def)
  have "instrument_ok 2 (ex_state Hedging)" by (rule init_ok(1) [OF _ ex_state_def [symmetric]]) simp
  then have "instrument_ok 0 ?st" by (simp add: ex_flight_def instrument_ok_def csize_of_def ex_state_def instrument_state_init_def
      manager_new_mode numeral_2_eq_2)
  from snapshot_keeps [OF this, of ex_env "[]" ex_rejection] obtain a st' where
    r: "instrument_update_from_order_snapshot ex_env ex_rejection ?st = Some (a, st')"
    by (auto simp: step_keeps_def ex_env_def instrument_update_from_order_snapshot_def)
  note orders = snapshot_without_replay(4) [OF r [unfolded instrument_update_from_order_snapshot_def] none]
  have "is_pending_fills st' = [ex_early]"
    using fill_put_aside_waits_for_its_own_order [OF r none] by simp
  moreover have "is_orders st' = \<lparr>tracked = Map.empty, retired = [''c'']\<rparr>"
    using orders by (simp add: ex_env_def ex_flight_def ex_rejection_def ex_defs drop_order_def retired_insert_def
        is_duplicate_cid_refusal_def is_contradicted_never_placed_def max_recently_retired_def to_active_def map_state_def update_from_order_snapshot_def is_failed_open_to_ignore_def)
  ultimately show ?thesis using r by (auto simp: has_open_in_flight_def)
qed

section \<open>Resynchronisation\<close>

lemma snapshot_others:
  assumes "update_from_order_snapshot R s os = Some os'" and "c \<noteq> key_cid (o_key s)"
  shows "tracked os' c = tracked os c"
  using snapshot_change [OF assms(1)] assms(2)
  by (auto elim!: change.cases reopened.cases simp: set_state_def drop_order_def retire_def)

text \<open>The order that the engine had open when the resynchronisation began, and still has.\<close>

definition same_open_order ::
  "(client_order_id \<rightharpoonup> venue_order_id) \<Rightarrow> client_order_id \<Rightarrow> ('e, 'i) orders \<Rightarrow> bool" where
  "same_open_order open_at_resync c os \<longleftrightarrow> (\<exists>i ord op. open_at_resync c = Some i \<and> tracked os c = Some ord \<and>
     o_state ord = Open op \<and> is_same_order_as (open_id op) i)"

lemma same_open_cong: "tracked os' c = tracked os c \<Longrightarrow> same_open_order r c os' = same_open_order r c os"
  by (simp add: same_open_order_def)

lemma same_open_gone: "tracked os c = None \<Longrightarrow> \<not> same_open_order r c os"
  by (simp add: same_open_order_def)

lemma removed_open:
  "tracked (snd (remove_open c i os)) d =
    (if d = c \<and> (\<exists>ord op. tracked os c = Some ord \<and> o_state ord = Open op \<and> is_same_order_as (open_id op) i) then None
     else tracked os d)"
  by (auto simp: remove_open_def split: option.splits active_order_state.splits)

lemma retired_unlisted:
  "tracked (retire_unlisted cids open_at_resync listed os) c =
    (if c \<in> set cids \<and> c \<notin> listed \<and> same_open_order open_at_resync c os then None else tracked os c)"
proof (induction cids arbitrary: os)
  case Nil
  then show ?case by (simp add: retire_unlisted_def)
next
  case (Cons d cids)
  let ?os = "case open_at_resync d of None \<Rightarrow> os | Some i \<Rightarrow> if d \<in> listed then os else snd (remove_open d i os)"
  have step: "retire_unlisted (d # cids) open_at_resync listed os = retire_unlisted cids open_at_resync listed ?os"
    by (simp add: retire_unlisted_def)
  have here: "tracked ?os c = (if d = c \<and> c \<notin> listed \<and> same_open_order open_at_resync c os then None else tracked os c)"
    by (auto simp: same_open_order_def removed_open split: option.split)
  show ?case
  proof (cases "d = c \<and> c \<notin> listed \<and> same_open_order open_at_resync c os")
    case True
    with here have "tracked ?os c = None" by simp
    with True same_open_gone [OF this] show ?thesis unfolding step Cons.IH by simp
  next
    case False
    with here have "tracked ?os c = tracked os c" by simp
    with False same_open_cong [OF this] show ?thesis unfolding step Cons.IH by auto
  qed
qed

text \<open>A snapshot of another order leaves an order alone, unless it brings a fill put aside that names its id.\<close>

lemma settle_ack_other:
  assumes "settle_ack env ros d i pid st = Some (a, st')"
    and "\<forall>t \<in> set (is_pending_fills st). \<not> open_under (tr_order_id t) c (is_orders st)"
  shows "set (is_pending_fills st') \<subseteq> set (is_pending_fills st) \<and> tracked (is_orders st') c = tracked (is_orders st) c"
proof (cases "is_pending_fills st = []")
  case True
  with assms(1) show ?thesis by (auto simp: settle_ack_indexed indexed_fields)
next
  case False
  let ?st = "(indexed d i pid st)\<lparr>is_pending_fills := filter (\<lambda>f. tr_order_id f \<noteq> i) (is_pending_fills st)\<rparr>"
  obtain st2 where r: "replay_deferred env ros (filter (\<lambda>f. tr_order_id f = i) (is_pending_fills st)) fills_none ?st = Some (a, st2)"
      "cleanup_routing_tables env st2 = Some st'"
    using assms(1) False by (auto simp: settle_ack_indexed bind_eq_Some_conv)
  have "\<forall>t \<in> set (filter (\<lambda>f. tr_order_id f = i) (is_pending_fills st)). \<not> open_under (tr_order_id t) c (is_orders ?st)"
    using assms(2) by (auto simp: indexed_fields)
  from deferred_other [OF r(1) this] cleanup_fields(1,2) [OF r(2)] show ?thesis by (auto simp: indexed_fields)
qed

lemma order_snapshot_other:
  assumes "replay_order_snapshot env ros s st = Some (a, st')" and "c \<noteq> key_cid (o_key s)"
    and "\<forall>t \<in> set (is_pending_fills st). \<not> open_under (tr_order_id t) c (is_orders st)"
  shows "set (is_pending_fills st') \<subseteq> set (is_pending_fills st) \<and> tracked (is_orders st') c = tracked (is_orders st) c"
proof -
  let ?st = "note_rejected_open env s st" and ?c = "key_cid (o_key s)"
  obtain b os st2 where r: "update_from_order_snapshot (en_round env) s (is_orders st) = Some os"
      "cleanup_routing_tables env (?st\<lparr>is_orders := os\<rparr>) = Some st2"
      "(case b of None \<Rightarrow> Some (fills_none, st2) | Some i \<Rightarrow> settle_ack env ros ?c i (is_position_ids ?st ?c) st2) = Some (a, st')"
    using assms(1) by (auto simp: replay_order_snapshot_def Let_def bind_eq_Some_conv rejected_fields)
  have same: "tracked (is_orders st2) c = tracked (is_orders st) c" and fills: "is_pending_fills st2 = is_pending_fills st"
    using snapshot_others [OF r(1) assms(2)] cleanup_fields(1,2) [OF r(2)] by (simp_all add: rejected_fields)
  have none: "\<forall>t \<in> set (is_pending_fills st2). \<not> open_under (tr_order_id t) c (is_orders st2)"
    using assms(3) by (simp add: fills open_under_cong [OF same])
  show ?thesis
  proof (cases b)
    case None
    with r(3) same fills show ?thesis by auto
  next
    case (Some i)
    with r(3) have "settle_ack env ros ?c i (is_position_ids ?st ?c) st2 = Some (a, st')" by simp
    from settle_ack_other [OF this none] same fills show ?thesis by simp
  qed
qed

lemma snapshots_others:
  assumes "apply_order_snapshots env ss st = Some st'" and "c \<notin> (\<lambda>s. key_cid (o_key s)) ` set ss"
    and "\<forall>t \<in> set (is_pending_fills st). \<not> open_under (tr_order_id t) c (is_orders st)"
  shows "tracked (is_orders st') c = tracked (is_orders st) c"
  using assms
proof (induction ss arbitrary: st)
  case (Cons s ss)
  then obtain a st1 where r: "replay_order_snapshot env [] s st = Some (a, st1)" "apply_order_snapshots env ss st1 = Some st'"
    by (auto simp: instrument_update_from_order_snapshot_def bind_eq_Some_conv)
  have step: "set (is_pending_fills st1) \<subseteq> set (is_pending_fills st)" and same: "tracked (is_orders st1) c = tracked (is_orders st) c"
    using order_snapshot_other [OF r(1), of c] Cons.prems(2,3) by simp_all
  with Cons.IH [OF r(2)] Cons.prems(2,3) show ?case by (auto simp: open_under_cong [OF same])
qed simp

text \<open>C38: A complete account snapshot retires exactly the orders that are gone. Of the orders it does not list, those that were open when the resynchronisation began and are still open as the same order of the venue once the listed ones are taken in are no longer tracked afterwards, if the snapshot is said to be complete; every other is tracked as it was then, an order opened since, one with a request in flight, one whose client id is used again for another order of the venue, and one that the venue never named. Taking in the listed ones leaves an order that is not listed as it was before the snapshot, unless a fill put aside names the id the order is open under: an acknowledgement in the list brings such a fill, and only that. A snapshot not said to be complete retires none, and only the next snapshot has the chance: the record of the orders open at the start is empty after it. Fills may be put aside when the snapshot arrives, and booked by it.\<close>
theorem resync_retires_exactly_the_gone:
  assumes "update_from_account_snapshot env snap st = Some st'"
    and "set (en_order env (dom (is_open_at_resync st))) = dom (is_open_at_resync st)"
    and "c \<notin> (\<lambda>s. key_cid (o_key s)) ` set (ia_orders snap)"
  shows "\<exists>st1. apply_order_snapshots env (ia_orders snap) st = Some st1 \<and>
    tracked (is_orders st') c =
      (if ia_orders_complete snap \<and> same_open_order (is_open_at_resync st) c (is_orders st1) then None
       else tracked (is_orders st1) c) \<and>
    ((\<forall>t \<in> set (is_pending_fills st). \<not> open_under (tr_order_id t) c (is_orders st)) \<longrightarrow>
      tracked (is_orders st1) c = tracked (is_orders st) c) \<and>
    is_open_at_resync st' = Map.empty"
proof -
  obtain st1 where st1: "apply_order_snapshots env (ia_orders snap) st = Some st1"
    using assms(1) by (auto simp: update_from_account_snapshot_def bind_eq_Some_conv)
  note resync = snapshots_resync [OF st1]
  define os where "os = (if ia_orders_complete snap
      then retire_unlisted (en_order env (dom (is_open_at_resync st))) (is_open_at_resync st)
        ((\<lambda>s. key_cid (o_key s)) ` set (ia_orders snap)) (is_orders st1) else is_orders st1)"
  have clean: "cleanup_routing_tables env (st1\<lparr>is_open_at_resync := Map.empty, is_orders := os\<rparr>) = Some st'"
    using assms(1) st1 resync by (auto simp: update_from_account_snapshot_def Let_def os_def split: if_splits)
  have "c \<in> dom (is_open_at_resync st)" if "same_open_order (is_open_at_resync st) c (is_orders st1)"
    using that by (auto simp: same_open_order_def)
  then have "tracked os c = (if ia_orders_complete snap \<and> same_open_order (is_open_at_resync st) c (is_orders st1) then None
       else tracked (is_orders st1) c)"
    using assms(2,3) by (simp add: os_def retired_unlisted)
  with cleanup_fields(2,4) [OF clean] st1 snapshots_others [OF st1 assms(3)] show ?thesis by simp
qed

definition ex_resync :: "(unit, unit, unit, unit) instrument_state" where
  "ex_resync = begin_account_resync ((ex_state Netting)\<lparr>is_orders := ex_tracked (Open (ex_open 0 1))\<rparr>)"

definition ex_listing_env :: "(unit, unit) engine_env" where
  "ex_listing_env = ex_env\<lparr>en_order := (\<lambda>_. [''c''])\<rparr>"

theorem resync_retires_exactly_the_gone_witness:
  "\<exists>st'. update_from_account_snapshot ex_listing_env \<lparr>ia_instrument = (), ia_orders = [], ia_orders_complete = True\<rparr> ex_resync = Some st' \<and>
    tracked (is_orders ex_resync) ''c'' \<noteq> None \<and> tracked (is_orders st') ''c'' = None"
proof -
  let ?snap = "\<lparr>ia_instrument = (), ia_orders = [], ia_orders_complete = True\<rparr> :: (unit, unit, unit) instrument_account_snapshot"
  have open_at: "is_open_at_resync ex_resync = [''c'' \<mapsto> Assigned ''v'']"
    by (rule ext) (simp add: ex_resync_def begin_account_resync_def ex_defs)
  have "instrument_ok 0 (ex_state Netting)" by (rule init_ok(1) [OF _ ex_state_def [symmetric]]) simp
  then have "instrument_ok 0 ex_resync"
    by (simp add: ex_resync_def begin_account_resync_def instrument_ok_def csize_of_def)
  from account_snapshot_keeps [OF this, of ex_listing_env ?snap] obtain st' where
    st': "update_from_account_snapshot ex_listing_env ?snap ex_resync = Some st'"
    by (auto simp: step_keeps_def ex_listing_env_def ex_env_def)
  have "tracked (is_orders st') ''c'' = None"
    using resync_retires_exactly_the_gone [OF st', of "''c''"]
    by (simp add: open_at ex_listing_env_def same_open_order_def)
      (simp add: ex_resync_def begin_account_resync_def ex_state_def instrument_state_init_def ex_defs is_same_order_as_def)
  moreover have "tracked (is_orders ex_resync) ''c'' \<noteq> None" by (simp add: ex_resync_def begin_account_resync_def ex_defs)
  ultimately show ?thesis using st' by blast
qed

section \<open>Cash flows\<close>

text \<open>
  The positions a flow may belong to: those that the order of its loan opened or added to, or, for a
  flow that names no loan, all of them.
\<close>

definition flow_candidates :: "('a, 'i) asset_flow \<Rightarrow> ('a, 'i) position_manager \<Rightarrow> (position_id \<times> ('a, 'i) position) list" where
  "flow_candidates flow m = filter (\<lambda>(k, p). \<forall>loan. cf_loan flow = Some loan \<longrightarrow> cl_order_id loan \<in> set (ps_orders_enter p))
     (pm_positions m)"

text \<open>
  Whether a position was there for a flow: the loan names it, it was entered by the time of the flow,
  or the flow is a charge on a new loan over a period in which the position was entered and which
  began when the engine knew every position of the instrument.
\<close>

definition entered_for :: "('a, 'i) asset_flow \<Rightarrow> ('e, 'a, 'i, 'd) instrument_state \<Rightarrow> ('a, 'i) position \<Rightarrow> bool" where
  "entered_for flow st p \<longleftrightarrow> cf_loan flow \<noteq> None \<or> ps_time_enter p \<le> cf_time_exchange flow \<or>
     (\<exists>period. on_borrow_period flow = Some period \<and> period_contains (ps_time_enter p) period \<and>
       tg_time_engine_start (is_tear_sheet st) \<le> cp_start period \<and>
       (\<forall>h. pm_time_history_start (is_position st) = Some h \<longrightarrow> h \<le> cp_start period))"

lemma candidate_position:
  "flow_position flow m = Inr (k, p) \<longleftrightarrow> flow_candidates flow m = [(k, p)]"
proof (cases "cf_loan flow")
  case None
  then show ?thesis by (cases "pm_positions m" rule: remdups_adj.cases) (simp_all add: flow_position_def flow_candidates_def)
next
  case (Some loan)
  then show ?thesis
    by (cases "flow_candidates flow m" rule: remdups_adj.cases) (simp_all add: flow_position_def flow_candidates_def)
qed

lemma entered_in_time:
  "flow_too_early (tg_time_engine_start (is_tear_sheet st)) (pm_time_history_start (is_position st)) flow p = None
    \<longleftrightarrow> entered_for flow st p"
  by (auto simp: flow_too_early_def entered_for_def Let_def not_le split: option.split)

lemma unplaced_flow: "flow_position flow m = Inl x \<Longrightarrow> x \<noteq> FlowBooked c"
  by (auto simp: flow_position_def split: option.splits list.splits)

lemma early_flow: "flow_too_early s h flow p = Some x \<Longrightarrow> x \<noteq> FlowBooked c"
  by (auto simp: flow_too_early_def Let_def split: option.splits if_splits)

lemma carry_exact:
  assumes "apply_carry Some slot amount t p = (u, p')"
  shows "u = CarryApplied" "carry_held s p' = carry_held s p + (if s = slot then amount else 0)"
    "p' = p\<lparr>ps_carry := ps_carry p', ps_carry_assets := ps_carry_assets p',
        ps_time_exchange_update := max (ps_time_exchange_update p) t\<rparr>"
  using assms by (auto simp: apply_carry_def carry_held_def dec_simps Let_def update_conv' split: carry_slot.split)

lemma im_insert_present:
  assumes "im_wf m" and "(k, p) \<in> set m"
  shows "im_insert k v m = map (\<lambda>(i, q). (i, if i = k then v else q)) m"
  using assms
proof (induction m)
  case (Cons x m)
  have same: "map (\<lambda>(i, q). (i, if i = k then v else q)) m = m" if "k \<notin> fst ` set m"
    using that by (induction m) auto
  from Cons show ?case by (cases x) (auto simp: im_insert_def im_wf_def same image_iff)
qed simp

text \<open>C39: A cash flow is booked once or not at all, where the arithmetic is exact. It is booked exactly when one open position alone may be the one it belongs to (of a flow that names its loan, the position that the loan's order opened or added to; of one that names none, the only one open) and that position was there for it: the loan names it, it was entered by the time of the flow, or the flow is a charge on a new loan over a period in which the position was entered and from whose start on the engine knows every position. Then that position alone changes, and of it only what it has been charged or paid, by exactly the amount of the flow in the slot of the flow's asset and by nothing in any other slot, and the time of its last update. In every other case the state stays as it was.\<close>
theorem cash_flow_is_booked_once:
  assumes "update_from_cash_flow Some flow st = (u, st')" and "instrument_ok n st"
  shows "if \<exists>k p. flow_candidates flow (is_position st) = [(k, p)] \<and> entered_for flow st p
    then \<exists>k p p'. flow_candidates flow (is_position st) = [(k, p)] \<and> u = FlowBooked CarryApplied \<and>
      st' = st\<lparr>is_position := (is_position st)\<lparr>pm_positions :=
        map (\<lambda>(i, q). (i, if i = k then p' else q)) (pm_positions (is_position st))\<rparr>\<rparr> \<and>
      p' = p\<lparr>ps_carry := ps_carry p', ps_carry_assets := ps_carry_assets p',
        ps_time_exchange_update := max (ps_time_exchange_update p) (cf_time_exchange flow)\<rparr> \<and>
      (\<forall>slot. carry_held slot p' = carry_held slot p +
        (if slot = carry_slot_of (in_underlying (is_instrument st)) (cf_asset flow) then cf_amount flow else 0))
    else st' = st \<and> (\<forall>c. u \<noteq> FlowBooked c)"
proof (cases "flow_position flow (is_position st)")
  case (Inl x)
  then have "\<not> (\<exists>k p. flow_candidates flow (is_position st) = [(k, p)])" by (simp flip: candidate_position)
  moreover have "st' = st \<and> (\<forall>c. u \<noteq> FlowBooked c)"
    using assms(1) Inl unplaced_flow [OF Inl] by (auto simp: update_from_cash_flow_def Let_def split: if_splits)
  ultimately show ?thesis by simp
next
  case (Inr y)
  obtain k p where y: "y = (k, p)" by fastforce
  have one: "flow_candidates flow (is_position st) = [(k, p)]" using Inr y by (simp flip: candidate_position)
  have mem: "(k, p) \<in> set (pm_positions (is_position st))" using flow_position_mem Inr y by blast
  then have some: "pm_positions (is_position st) \<noteq> []" by auto
  show ?thesis
  proof (cases "flow_too_early (tg_time_engine_start (is_tear_sheet st)) (pm_time_history_start (is_position st)) flow p")
    case (Some x)
    then have "\<not> entered_for flow st p" by (simp flip: entered_in_time)
    moreover have "st' = st \<and> u = x" using assms(1) Inr y Some some by (simp add: update_from_cash_flow_def Let_def)
    ultimately show ?thesis using one early_flow [OF Some] by simp
  next
    case None
    then have there: "entered_for flow st p" by (simp flip: entered_in_time)
    let ?slot = "carry_slot_of (in_underlying (is_instrument st)) (cf_asset flow)"
    obtain c p' where a: "apply_carry Some ?slot (cf_amount flow) (cf_time_exchange flow) p = (c, p')" by fastforce
    note carry = carry_exact [OF a]
    have wf: "im_wf (pm_positions (is_position st))" using assms(2) by (simp add: instrument_ok_def manager_ok_def)
    have "u = FlowBooked CarryApplied"
      "st' = st\<lparr>is_position := (is_position st)\<lparr>pm_positions := im_insert k p' (pm_positions (is_position st))\<rparr>\<rparr>"
      using assms(1) Inr y None a some carry(1) by (simp_all add: update_from_cash_flow_def Let_def)
    with one there carry(2,3) im_insert_present [OF wf mem] show ?thesis by auto
  qed
qed

definition ex_long :: "(unit, unit, unit, unit) instrument_state" where
  "ex_long = (ex_state Netting)\<lparr>is_position := (position_manager_new Netting)
     \<lparr>pm_positions := [(position_id_netting, (position_from_trade (ex_fill Buy 100 7))\<lparr>ps_contract_size := 1\<rparr>)]\<rparr>\<rparr>"

definition ex_funding :: "(unit, unit) asset_flow" where
  "ex_funding = cash_flow_new Rebate () 2 (Some ()) 5 None"

theorem cash_flow_is_booked_once_witness:
  "\<exists>u st' p'. update_from_cash_flow Some ex_funding ex_long = (u, st') \<and> u = FlowBooked CarryApplied \<and>
    pm_positions (is_position st') = [(position_id_netting, p')] \<and> carry_held CarryQuote p' = 2"
proof -
  have "instrument_ok 0 (ex_state Netting)" by (rule init_ok(1) [OF _ ex_state_def [symmetric]]) simp
  then have ok: "instrument_ok 0 ex_long"
    by (simp add: ex_long_def instrument_ok_def csize_of_def manager_ok_def position_ok_def im_wf_def position_from_trade_def
        ex_fill_def ex_state_def instrument_state_init_def position_manager_new_def ex_btc_def)
  obtain u st' where u: "update_from_cash_flow Some ex_funding ex_long = (u, st')" by fastforce
  let ?p = "(position_from_trade (ex_fill Buy 100 7))\<lparr>ps_contract_size := 1\<rparr>"
  have one: "flow_candidates ex_funding (is_position ex_long) = [(position_id_netting, ?p)]"
    by (simp add: flow_candidates_def ex_funding_def cash_flow_new_def ex_long_def)
  have there: "entered_for ex_funding ex_long ?p"
    by (simp add: entered_for_def ex_funding_def cash_flow_new_def position_from_trade_def ex_fill_def)
  have "carry_slot_of (in_underlying (is_instrument ex_long)) (cf_asset ex_funding) = CarryQuote"
    by (simp add: carry_slot_of_def ex_long_def ex_state_def instrument_state_init_def ex_btc_def)
  moreover have "cf_amount ex_funding = 2" by (simp add: ex_funding_def cash_flow_new_def)
  moreover have "carry_held CarryQuote ?p = 0" by (simp add: carry_held_def position_from_trade_def)
  moreover have "pm_positions (is_position ex_long) = [(position_id_netting, ?p)]" by (simp add: ex_long_def)
  ultimately show ?thesis using cash_flow_is_booked_once [OF u ok] one there u by auto
qed

end
