(* ===== verification/Corporate_Actions.thy ===== *)
theory Corporate_Actions
  imports Instrument_State
begin

text \<open>
  Stock splits in the engine (\<open>rustrade/src/engine/mod.rs\<close>, \<open>engine/state/instrument/mod.rs\<close>) and in the
  replica that follows its audit stream (\<open>engine/audit/state_replica.rs\<close>). A split is prepared as a
  plan, which checks all its arithmetic, and then committed to the positions of the equity and, if
  its ratio is a whole number above one, to the options on it.
\<close>

section \<open>The action\<close>

datatype corporate_action_kind = StockSplit decimal

datatype split_adjustment_kind = Standard | NonStandard

definition stock_split :: "rounding \<Rightarrow> decimal \<Rightarrow> decimal \<Rightarrow> corporate_action_kind option" where
  "stock_split R to from =
     (if \<not> 0 < to \<or> \<not> 0 < from then None
      else do { ratio \<leftarrow> dec_div R to from; ratio' \<leftarrow> split_ratio_new ratio; Some (StockSplit ratio') })"

text \<open>The fractional part of a decimal, cut towards zero.\<close>

definition dec_fract :: "decimal \<Rightarrow> decimal" where
  "dec_fract x = (if x < 0 then x - of_int \<lceil>x\<rceil> else x - of_int \<lfloor>x\<rfloor>)"

fun split_kind :: "corporate_action_kind \<Rightarrow> split_adjustment_kind option" where
  "split_kind (StockSplit ratio) = Some (if 1 < ratio \<and> dec_fract ratio = 0 then Standard else NonStandard)"

definition classify_option_split :: "corporate_action_kind \<Rightarrow> split_adjustment_kind option + bool" where
  "classify_option_split kind =
     (case split_kind kind of
        Some Standard \<Rightarrow> Inr True
      | Some NonStandard \<Rightarrow> Inr False
      | None \<Rightarrow> Inl None)"

definition option_split_adjust_in_place :: "corporate_action_kind \<Rightarrow> bool" where
  "option_split_adjust_in_place kind = (case classify_option_split kind of Inr b \<Rightarrow> b | Inl _ \<Rightarrow> False)"

section \<open>The instruments\<close>

text \<open>The states of all instruments, by index.\<close>

type_synonym ('e, 'a, 'd) instrument_states = "('e, 'a, nat, 'd) instrument_state list"

definition get_index :: "nat \<Rightarrow> ('e, 'a, 'd) instrument_states \<Rightarrow> ('e, 'a, nat, 'd) instrument_state option" where
  "get_index key states = (if key < length states then Some (states ! key) else None)"

definition is_on_underlying :: "'a underlying \<Rightarrow> 'e \<Rightarrow> ('e, 'a, 'i, 'd) instrument_state \<Rightarrow> bool" where
  "is_on_underlying u exchange st \<longleftrightarrow> un_base (in_underlying (is_instrument st)) = un_base u \<and>
     un_quote (in_underlying (is_instrument st)) = un_quote u \<and> in_exchange (is_instrument st) = exchange"

definition is_option_on_underlying :: "'a underlying \<Rightarrow> 'e \<Rightarrow> ('e, 'a, 'i, 'd) instrument_state \<Rightarrow> bool" where
  "is_option_on_underlying u exchange st \<longleftrightarrow>
     (case in_kind (is_instrument st) of OptionKind _ \<Rightarrow> True | _ \<Rightarrow> False) \<and> is_on_underlying u exchange st"

definition is_split_eligible_on_underlying :: "'a underlying \<Rightarrow> 'e \<Rightarrow> ('e, 'a, 'i, 'd) instrument_state \<Rightarrow> bool" where
  "is_split_eligible_on_underlying u exchange st \<longleftrightarrow>
     kind_is_split_eligible (in_kind (is_instrument st)) \<and> is_on_underlying u exchange st"

definition is_affected_option_on_underlying :: "'a underlying \<Rightarrow> 'e \<Rightarrow> ('e, 'a, 'i, 'd) instrument_state \<Rightarrow> bool" where
  "is_affected_option_on_underlying u exchange st \<longleftrightarrow>
     is_option_on_underlying u exchange st \<and> pm_positions (is_position st) \<noteq> []"

section \<open>What the engine reports\<close>

datatype unsupported_reason =
    UnknownInstrument
  | InstrumentKindNotSupported
  | ActionKindNotSupported
  | AmbiguousSplitTarget
  | ArithmeticOverflow
  | PositionStateInvalid

record open_order_at_split =
  oa_cid :: client_order_id
  oa_price_pre_split :: "decimal option"
  oa_quantity_pre_split :: decimal

text \<open>The outputs of a corporate action.\<close>

datatype 'a engine_output =
    PositionExit "('a, nat) position_exited"
  | SplitRemainder nat position_id side decimal decimal
  | OpenOrdersAtSplit nat "open_order_at_split list"
  | OptionPositionAdjustedForSplit nat decimal decimal decimal position_id
  | OptionPositionsRequireIdentityChange nat decimal "nat list"
  | UnsupportedCorporateAction nat corporate_action_kind unsupported_reason
  | CorporateActionAlreadyProcessed nat corporate_action_kind string

definition snapshot_open_orders_at_split ::
  "('a, 'i) engine_env \<Rightarrow> ('e, 'i) orders \<Rightarrow> open_order_at_split list" where
  "snapshot_open_orders_at_split env os = List.map_filter (\<lambda>c. map_option
     (\<lambda>ord. \<lparr>oa_cid = key_cid (o_key ord), oa_price_pre_split = o_price ord, oa_quantity_pre_split = o_quantity ord\<rparr>)
     (tracked os c)) (en_order env (dom (tracked os)))"

definition report_orders :: "nat \<Rightarrow> open_order_at_split list \<Rightarrow> 'a engine_output list" where
  "report_orders key os = (if os = [] then [] else [OpenOrdersAtSplit key os])"

section \<open>The plan\<close>

record option_split_plan =
  op_key :: nat
  op_strike_post_split :: decimal
  op_positions :: "(position_id \<times> prepared_split) list"

record split_plan =
  pl_equity_positions :: "(position_id \<times> prepared_split) list"
  pl_options :: "option_split_plan list"
  pl_options_already_adjusted :: "nat list"

text \<open>A step that may panic (\<open>None\<close>) or refuse (\<open>Inl\<close>), and the next one.\<close>

definition and_then :: "('r + 'x) option \<Rightarrow> ('x \<Rightarrow> ('r + 'y) option) \<Rightarrow> ('r + 'y) option" where
  "and_then m f = (case m of None \<Rightarrow> None | Some (Inl e) \<Rightarrow> Some (Inl e) | Some (Inr x) \<Rightarrow> f x)"

fun prepare_equity ::
  "rounding \<Rightarrow> decimal \<Rightarrow> split_rounding_policy \<Rightarrow> (position_id \<times> ('a, 'i) position) list
     \<Rightarrow> (unsupported_reason + (position_id \<times> prepared_split) list) option" where
  "prepare_equity R ratio policy [] = Some (Inr [])"
| "prepare_equity R ratio policy ((i, p) # ps) =
     and_then (map_option (map_sum (\<lambda>_. ArithmeticOverflow) (\<lambda>sp. sp)) (prepare_split R ratio policy p))
       (\<lambda>sp. and_then (prepare_equity R ratio policy ps) (\<lambda>rest. Some (Inr ((i, sp) # rest))))"

text \<open>The positions of an option are whole contracts.\<close>

fun prepare_contracts ::
  "rounding \<Rightarrow> decimal \<Rightarrow> (position_id \<times> ('a, 'i) position) list
     \<Rightarrow> (unsupported_reason + (position_id \<times> prepared_split) list) option" where
  "prepare_contracts R ratio [] = Some (Inr [])"
| "prepare_contracts R ratio ((i, p) # ps) =
     (if dec_fract (ps_quantity_abs p) \<noteq> 0 then Some (Inl PositionStateInvalid)
      else and_then (map_option (map_sum (\<lambda>_. ArithmeticOverflow) (\<lambda>sp. sp)) (prepare_split R ratio Fractional p))
        (\<lambda>sp. and_then (prepare_contracts R ratio ps) (\<lambda>rest. Some (Inr ((i, sp) # rest)))))"

fun prepare_options ::
  "rounding \<Rightarrow> string \<Rightarrow> decimal \<Rightarrow> ('e, 'a, 'd) instrument_states
     \<Rightarrow> (unsupported_reason + (option_split_plan list \<times> nat list)) option" where
  "prepare_options R aid ratio [] = Some (Inr ([], []))"
| "prepare_options R aid ratio (st # sts) =
     (if aid \<in> is_corporate_actions st then
        and_then (prepare_options R aid ratio sts) (\<lambda>(plans, skipped). Some (Inr (plans, is_key st # skipped)))
      else case in_kind (is_instrument st) of
        OptionKind c \<Rightarrow>
          (case dec_div R (oc_strike c) ratio of
             None \<Rightarrow> Some (Inl ArithmeticOverflow)
           | Some strike \<Rightarrow>
               and_then (prepare_contracts R ratio (pm_positions (is_position st)))
                 (\<lambda>ps. and_then (prepare_options R aid ratio sts)
                   (\<lambda>(plans, skipped). Some (Inr (\<lparr>op_key = is_key st, op_strike_post_split = strike, op_positions = ps\<rparr> # plans, skipped)))))
      | _ \<Rightarrow> None)"

definition split_eligible_target ::
  "nat \<Rightarrow> ('e, 'a, 'd) instrument_states \<Rightarrow> ('e, 'a, nat, 'd) instrument_state option option" where
  "split_eligible_target key states = map_option
     (\<lambda>st. if kind_is_split_eligible (in_kind (is_instrument st)) then Some st else None) (get_index key states)"

definition prepare_corporate_action_split ::
  "rounding \<Rightarrow> string \<Rightarrow> decimal \<Rightarrow> split_rounding_policy \<Rightarrow> bool \<Rightarrow> ('e, 'a, nat, 'd) instrument_state
     \<Rightarrow> ('e, 'a, 'd) instrument_states \<Rightarrow> (unsupported_reason + split_plan) option" where
  "prepare_corporate_action_split R aid ratio policy adjust_options_in_place target states =
     (let u = in_underlying (is_instrument target); exchange = in_exchange (is_instrument target) in
      if \<exists>st \<in> set states. is_key st \<noteq> is_key target \<and> is_split_eligible_on_underlying u exchange st
      then Some (Inl AmbiguousSplitTarget)
      else and_then (prepare_equity R ratio policy (pm_positions (is_position target)))
        (\<lambda>equity.
          if \<not> adjust_options_in_place then
            Some (Inr \<lparr>pl_equity_positions = equity, pl_options = [], pl_options_already_adjusted = []\<rparr>)
          else and_then (prepare_options R aid ratio (filter (is_option_on_underlying u exchange) states))
            (\<lambda>(plans, skipped). Some (Inr \<lparr>pl_equity_positions = equity, pl_options = plans,
              pl_options_already_adjusted = skipped\<rparr>))))"

section \<open>The commit\<close>

definition put_position ::
  "position_id \<Rightarrow> ('a, 'i) position \<Rightarrow> ('e, 'a, 'i, 'd) instrument_state \<Rightarrow> ('e, 'a, 'i, 'd) instrument_state" where
  "put_position i p st = st\<lparr>is_position := (is_position st)\<lparr>pm_positions := im_insert i p (pm_positions (is_position st))\<rparr>\<rparr>"

text \<open>The position of a plan; one that is missing is a panic.\<close>

definition split_plan_position_mut ::
  "position_id \<Rightarrow> ('e, 'a, 'i, 'd) instrument_state \<Rightarrow> ('a, 'i) position option" where
  "split_plan_position_mut i st = map_of (pm_positions (is_position st)) i"

text \<open>The routes to a position are dropped with it.\<close>

definition drop_routes :: "position_id \<Rightarrow> ('e, 'a, 'i, 'd) instrument_state \<Rightarrow> ('e, 'a, 'i, 'd) instrument_state" where
  "drop_routes i st = st\<lparr>is_position_ids := (\<lambda>c. if is_position_ids st c = Some i then None else is_position_ids st c)\<rparr>"

text \<open>A position that a reverse split rounds to nothing ends.\<close>

definition close_floored ::
  "rounding \<Rightarrow> time \<Rightarrow> position_id \<Rightarrow> ('e, 'a, nat, 'd) instrument_state
     \<Rightarrow> ('a engine_output list \<times> ('e, 'a, nat, 'd) instrument_state) option" where
  "close_floored R now i st =
     (case remove_ended i now (is_position st) of
        (None, _) \<Rightarrow> Some ([], st)
      | (Some gone, m) \<Rightarrow> do {
          let exit = (into_exited None gone)\<lparr>px_position_id := i, px_time_exit := now\<rparr>;
          sheet \<leftarrow> tear_sheet_update_from_position R exit (is_tear_sheet st);
          Some ([PositionExit exit], drop_routes i (st\<lparr>is_position := m, is_tear_sheet := sheet\<rparr>))
        })"

fun commit_equity ::
  "rounding \<Rightarrow> time \<Rightarrow> nat \<Rightarrow> decimal option \<Rightarrow> (position_id \<times> prepared_split) list
     \<Rightarrow> ('e, 'a, nat, 'd) instrument_state
     \<Rightarrow> ('a engine_output list \<times> ('e, 'a, nat, 'd) instrument_state) option" where
  "commit_equity R now key last_price [] st = Some ([], st)"
| "commit_equity R now key last_price ((i, sp) # plan) st = do {
     p \<leftarrow> split_plan_position_mut i st;
     (result, p') \<leftarrow> commit_split R sp last_price p;
     let remainder = (if 0 < sr_remainder result
       then [SplitRemainder key i (ps_side p) (sr_remainder result) (ps_price_entry_average p')] else []);
     (exits, st') \<leftarrow> (if ps_quantity_abs p' = 0 then close_floored R now i (put_position i p' st)
       else Some ([], put_position i p' st));
     (outs, st'') \<leftarrow> commit_equity R now key last_price plan st';
     Some (remainder @ exits @ outs, st'')
   }"

definition option_strike :: "('e, 'a, 'i, 'd) instrument_state \<Rightarrow> decimal option" where
  "option_strike st = (case in_kind (is_instrument st) of OptionKind c \<Rightarrow> Some (oc_strike c) | _ \<Rightarrow> None)"

definition set_strike :: "decimal \<Rightarrow> ('e, 'a, 'i, 'd) instrument_state \<Rightarrow> ('e, 'a, 'i, 'd) instrument_state" where
  "set_strike strike st =
     (case in_kind (is_instrument st) of
        OptionKind c \<Rightarrow> st\<lparr>is_instrument := (is_instrument st)\<lparr>in_kind := OptionKind (c\<lparr>oc_strike := strike\<rparr>)\<rparr>\<rparr>
      | _ \<Rightarrow> st)"

definition record_action :: "string \<Rightarrow> ('e, 'a, 'i, 'd) instrument_state \<Rightarrow> ('e, 'a, 'i, 'd) instrument_state" where
  "record_action aid st = st\<lparr>is_corporate_actions := insert aid (is_corporate_actions st)\<rparr>"

fun commit_contracts ::
  "rounding \<Rightarrow> nat \<Rightarrow> decimal \<Rightarrow> decimal \<Rightarrow> decimal \<Rightarrow> decimal option \<Rightarrow> (position_id \<times> prepared_split) list
     \<Rightarrow> ('e, 'a, nat, 'd) instrument_state
     \<Rightarrow> ('a engine_output list \<times> ('e, 'a, nat, 'd) instrument_state) option" where
  "commit_contracts R key ratio strike_pre strike_post last_price [] st = Some ([], st)"
| "commit_contracts R key ratio strike_pre strike_post last_price ((i, sp) # plan) st = do {
     p \<leftarrow> split_plan_position_mut i st;
     (_, p') \<leftarrow> commit_split R sp last_price p;
     (outs, st') \<leftarrow> commit_contracts R key ratio strike_pre strike_post last_price plan (put_position i p' st);
     Some (OptionPositionAdjustedForSplit key ratio strike_pre strike_post i # outs, st')
   }"

text \<open>The whole handling of one option: its strike, its record of the action, its orders, its positions.\<close>

definition commit_option ::
  "('a, nat) engine_env \<Rightarrow> ('d \<Rightarrow> decimal option) \<Rightarrow> string \<Rightarrow> decimal \<Rightarrow> option_split_plan
     \<Rightarrow> ('e, 'a, nat, 'd) instrument_state
     \<Rightarrow> ('a engine_output list \<times> ('e, 'a, nat, 'd) instrument_state) option" where
  "commit_option env price aid ratio plan st = do {
     strike_pre \<leftarrow> option_strike st;
     let st1 = record_action aid (set_strike (op_strike_post_split plan) st);
     let resting = report_orders (op_key plan) (snapshot_open_orders_at_split env (is_orders st1));
     if op_positions plan = [] then Some (resting, st1)
     else do {
       (outs, st2) \<leftarrow> commit_contracts (en_round env) (op_key plan) ratio strike_pre (op_strike_post_split plan)
         (price (is_data st1)) (op_positions plan) st1;
       Some (outs @ resting, st2)
     }
   }"

fun commit_standard_option_split ::
  "('a, nat) engine_env \<Rightarrow> ('d \<Rightarrow> decimal option) \<Rightarrow> string \<Rightarrow> decimal \<Rightarrow> option_split_plan list
     \<Rightarrow> ('e, 'a, 'd) instrument_states \<Rightarrow> ('a engine_output list \<times> ('e, 'a, 'd) instrument_states) option" where
  "commit_standard_option_split env price aid ratio [] states = Some ([], states)"
| "commit_standard_option_split env price aid ratio (plan # plans) states = do {
     st \<leftarrow> get_index (op_key plan) states;
     (outs, st') \<leftarrow> commit_option env price aid ratio plan st;
     (outs', states') \<leftarrow> commit_standard_option_split env price aid ratio plans (states[op_key plan := st']);
     Some (outs @ outs', states')
   }"

definition emit_option_identity_change ::
  "nat \<Rightarrow> decimal \<Rightarrow> ('e, 'a, nat, 'd) instrument_state \<Rightarrow> ('e, 'a, 'd) instrument_states \<Rightarrow> 'a engine_output list" where
  "emit_option_identity_change key ratio equity states =
     (let affected = map is_key (filter
        (is_affected_option_on_underlying (in_underlying (is_instrument equity)) (in_exchange (is_instrument equity))) states)
      in if affected = [] then [] else [OptionPositionsRequireIdentityChange key ratio affected])"

text \<open>What follows the equity positions: resting orders, the options, the record of the action.\<close>

definition commit_corporate_action ::
  "('a, nat) engine_env \<Rightarrow> ('d \<Rightarrow> decimal option) \<Rightarrow> time \<Rightarrow> string \<Rightarrow> nat \<Rightarrow> corporate_action_kind \<Rightarrow> decimal \<Rightarrow> bool
     \<Rightarrow> split_plan \<Rightarrow> ('e, 'a, 'd) instrument_states
     \<Rightarrow> ('a engine_output list \<times> ('e, 'a, 'd) instrument_states) option" where
  "commit_corporate_action env price now aid key kind ratio adjust plan states = do {
     st \<leftarrow> get_index key states;
     let resting = report_orders key (snapshot_open_orders_at_split env (is_orders st));
     (outs, st1) \<leftarrow> commit_equity (en_round env) now key (price (is_data st)) (pl_equity_positions plan) st;
     let states1 = states[key := st1];
     (options, states2) \<leftarrow> (if adjust then do {
          (outs', states') \<leftarrow> commit_standard_option_split env price aid ratio (pl_options plan) states1;
          Some (map (\<lambda>k. CorporateActionAlreadyProcessed k kind aid) (pl_options_already_adjusted plan) @ outs', states')
        }
        else Some (emit_option_identity_change key ratio st1 states1, states1));
     st2 \<leftarrow> get_index key states2;
     Some (outs @ resting @ options, states2[key := record_action aid st2])
   }"

definition process_corporate_action ::
  "('a, nat) engine_env \<Rightarrow> ('d \<Rightarrow> decimal option) \<Rightarrow> time \<Rightarrow> string \<Rightarrow> nat \<Rightarrow> corporate_action_kind
     \<Rightarrow> split_rounding_policy \<Rightarrow> ('e, 'a, 'd) instrument_states
     \<Rightarrow> ('a engine_output list \<times> ('e, 'a, 'd) instrument_states) option" where
  "process_corporate_action env price now aid key kind policy states =
     (case get_index key states of
        None \<Rightarrow> Some ([UnsupportedCorporateAction key kind UnknownInstrument], states)
      | Some st \<Rightarrow>
          if aid \<in> is_corporate_actions st then Some ([CorporateActionAlreadyProcessed key kind aid], states)
          else case split_eligible_target key states of
            None \<Rightarrow> None
          | Some None \<Rightarrow> Some ([UnsupportedCorporateAction key kind InstrumentKindNotSupported], states)
          | Some (Some target) \<Rightarrow>
              (case kind of StockSplit ratio \<Rightarrow>
                let adjust = option_split_adjust_in_place kind in
                (case prepare_corporate_action_split (en_round env) aid ratio policy adjust target states of
                   None \<Rightarrow> None
                 | Some (Inl reason) \<Rightarrow> Some ([UnsupportedCorporateAction key kind reason], states)
                 | Some (Inr plan) \<Rightarrow> commit_corporate_action env price now aid key kind ratio adjust plan states)))"

section \<open>The replica\<close>

text \<open>The replica sees the same event and the outputs of the engine: it rescales as the engine does, and
  mirrors the positions that the engine closed.\<close>

fun replica_commit_positions ::
  "rounding \<Rightarrow> decimal option \<Rightarrow> (position_id \<times> prepared_split) list \<Rightarrow> ('e, 'a, 'i, 'd) instrument_state
     \<Rightarrow> ('e, 'a, 'i, 'd) instrument_state option" where
  "replica_commit_positions R last_price [] st = Some st"
| "replica_commit_positions R last_price ((i, sp) # plan) st = do {
     p \<leftarrow> split_plan_position_mut i st;
     (_, p') \<leftarrow> commit_split R sp last_price p;
     replica_commit_positions R last_price plan (put_position i p' st)
   }"

definition mirror_exit ::
  "rounding \<Rightarrow> ('a, nat) position_exited \<Rightarrow> ('e, 'a, nat, 'd) instrument_state
     \<Rightarrow> ('e, 'a, nat, 'd) instrument_state option" where
  "mirror_exit R exit st = do {
     let m = snd (remove_ended (px_position_id exit) (px_time_exit exit) (is_position st));
     sheet \<leftarrow> tear_sheet_update_from_position R exit (is_tear_sheet st);
     Some (drop_routes (px_position_id exit) (st\<lparr>is_position := m, is_tear_sheet := sheet\<rparr>))
   }"

fun mirror_exits ::
  "rounding \<Rightarrow> nat \<Rightarrow> 'a engine_output list \<Rightarrow> ('e, 'a, nat, 'd) instrument_state
     \<Rightarrow> ('e, 'a, nat, 'd) instrument_state option" where
  "mirror_exits R key [] st = Some st"
| "mirror_exits R key (PositionExit exit # outs) st =
     (if px_instrument exit = key then Option.bind (mirror_exit R exit st) (mirror_exits R key outs)
      else mirror_exits R key outs st)"
| "mirror_exits R key (_ # outs) st = mirror_exits R key outs st"

definition replica_commit_option ::
  "rounding \<Rightarrow> ('d \<Rightarrow> decimal option) \<Rightarrow> string \<Rightarrow> option_split_plan \<Rightarrow> ('e, 'a, nat, 'd) instrument_state
     \<Rightarrow> ('e, 'a, nat, 'd) instrument_state option" where
  "replica_commit_option R price aid plan st = do {
     _ \<leftarrow> option_strike st;
     let st1 = record_action aid (set_strike (op_strike_post_split plan) st);
     if op_positions plan = [] then Some st1
     else replica_commit_positions R (price (is_data st1)) (op_positions plan) st1
   }"

fun replica_commit_options ::
  "rounding \<Rightarrow> ('d \<Rightarrow> decimal option) \<Rightarrow> string \<Rightarrow> option_split_plan list
     \<Rightarrow> ('e, 'a, 'd) instrument_states \<Rightarrow> ('e, 'a, 'd) instrument_states option" where
  "replica_commit_options R price aid [] states = Some states"
| "replica_commit_options R price aid (plan # plans) states = do {
     st \<leftarrow> get_index (op_key plan) states;
     st' \<leftarrow> replica_commit_option R price aid plan st;
     replica_commit_options R price aid plans (states[op_key plan := st'])
   }"

definition replica_commit_split ::
  "rounding \<Rightarrow> ('d \<Rightarrow> decimal option) \<Rightarrow> 'a engine_output list \<Rightarrow> string \<Rightarrow> nat \<Rightarrow> bool \<Rightarrow> split_plan
     \<Rightarrow> ('e, 'a, 'd) instrument_states \<Rightarrow> ('e, 'a, 'd) instrument_states option" where
  "replica_commit_split R price outs aid key adjust plan states = do {
     st \<leftarrow> get_index key states;
     st1 \<leftarrow> replica_commit_positions R (price (is_data st)) (pl_equity_positions plan) st;
     st2 \<leftarrow> mirror_exits R key outs st1;
     states1 \<leftarrow> (if adjust then replica_commit_options R price aid (pl_options plan) (states[key := st2])
       else Some (states[key := st2]));
     st3 \<leftarrow> get_index key states1;
     Some (states1[key := record_action aid st3])
   }"

definition replica_corporate_action ::
  "rounding \<Rightarrow> ('d \<Rightarrow> decimal option) \<Rightarrow> 'a engine_output list \<Rightarrow> string \<Rightarrow> nat \<Rightarrow> corporate_action_kind
     \<Rightarrow> split_rounding_policy \<Rightarrow> ('e, 'a, 'd) instrument_states \<Rightarrow> ('e, 'a, 'd) instrument_states option" where
  "replica_corporate_action R price outs aid key kind policy states =
     (case get_index key states of
        None \<Rightarrow> Some states
      | Some st \<Rightarrow>
          if aid \<in> is_corporate_actions st then Some states
          else case split_eligible_target key states of
            None \<Rightarrow> None
          | Some None \<Rightarrow> Some states
          | Some (Some target) \<Rightarrow>
              (case kind of StockSplit ratio \<Rightarrow>
                let adjust = (case classify_option_split kind of Inr b \<Rightarrow> b | Inl _ \<Rightarrow> False) in
                (case prepare_corporate_action_split R aid ratio policy adjust target states of
                   None \<Rightarrow> None
                 | Some (Inl _) \<Rightarrow> Some states
                 | Some (Inr plan) \<Rightarrow> replica_commit_split R price outs aid key adjust plan states)))"

end
