(* ===== verification/Corporate_Laws.thy ===== *)
theory Corporate_Laws
  imports Corporate_Actions Instrument_Laws
begin

text \<open>
  The replica of an engine that follows a split from the event and the engine's outputs reaches the
  state of the engine, with any rounding; and an action is applied once.
\<close>

section \<open>Positions filed under their instrument\<close>

definition filed_under :: "nat \<Rightarrow> ('e, 'a, nat, 'd) instrument_state \<Rightarrow> bool" where
  "filed_under key st \<longleftrightarrow> is_key st = key \<and> im_wf (pm_positions (is_position st)) \<and>
     (\<forall>(i, p) \<in> set (pm_positions (is_position st)). ps_instrument p = key)"

definition states_ok :: "('e, 'a, 'd) instrument_states \<Rightarrow> bool" where
  "states_ok states \<longleftrightarrow> (\<forall>key < length states. filed_under key (states ! key))"

lemma states_ok_get: "states_ok states \<Longrightarrow> get_index key states = Some st \<Longrightarrow> filed_under key st"
  by (auto simp: states_ok_def get_index_def split: if_splits)

lemma states_ok_put: "states_ok states \<Longrightarrow> filed_under key st \<Longrightarrow> states_ok (states[key := st])"
  by (cases "key < length states") (auto simp: states_ok_def nth_list_update)

lemma filed_put:
  assumes "filed_under key st" and "ps_instrument p = key"
  shows "filed_under key (put_position i p st)"
  using assms by (auto simp: filed_under_def put_position_def im_set_insert)

lemma filed_position: "filed_under key st \<Longrightarrow> split_plan_position_mut i st = Some p \<Longrightarrow> ps_instrument p = key"
  by (auto simp: filed_under_def split_plan_position_mut_def dest: map_of_SomeD)

lemma commit_split_instrument: "commit_split R sp lp p = Some (r, p') \<Longrightarrow> ps_instrument p' = ps_instrument p"
  by (auto simp: commit_split_def Let_def bind_eq_Some_conv split: option.splits)

lemma filed_mirror:
  assumes "filed_under key st" and "mirror_exit R x st = Some st'"
  shows "filed_under key st'"
  using assms by (auto simp: mirror_exit_def filed_under_def remove_ended_def record_position_end_def drop_routes_def
      im_set_remove Let_def bind_eq_Some_conv split: option.splits)

section \<open>A position closed, and mirrored\<close>

lemma im_remove_insert: "i \<noteq> j \<Longrightarrow> im_remove i (im_insert j p m) = im_insert j p (im_remove i m)"
  by (induction m) (auto simp: im_remove_def im_insert_def)

lemma close_floored_mirror:
  assumes "close_floored R now i st = Some (outs, st')" and "split_plan_position_mut i st = Some p"
  obtains x where "outs = [PositionExit x]" "px_instrument x = ps_instrument p" "px_position_id x = i" "mirror_exit R x st = Some st'"
proof -
  let ?x = "(into_exited None p)\<lparr>px_position_id := i, px_time_exit := now\<rparr>"
  have "outs = [PositionExit ?x] \<and> mirror_exit R ?x st = Some st'"
    using assms by (auto simp: close_floored_def mirror_exit_def split_plan_position_mut_def remove_ended_def Let_def bind_eq_Some_conv)
  then show ?thesis by (intro that [of ?x]) (simp_all add: into_exited_def)
qed

lemma mirror_lookup:
  assumes "mirror_exit R x st = Some st'" and "j \<noteq> px_position_id x"
  shows "split_plan_position_mut j st' = split_plan_position_mut j st"
  using assms by (auto simp: mirror_exit_def split_plan_position_mut_def remove_ended_def record_position_end_def drop_routes_def
      Let_def bind_eq_Some_conv split: option.splits)

lemma mirror_put:
  assumes "j \<noteq> px_position_id x"
  shows "mirror_exit R x (put_position j p st) = map_option (put_position j p) (mirror_exit R x st)"
proof (cases "tear_sheet_update_from_position R x (is_tear_sheet st)")
  case None
  then show ?thesis by (simp add: mirror_exit_def put_position_def Let_def)
next
  case (Some g)
  let ?i = "px_position_id x"
  have "snd (remove_ended ?i t (is_position (put_position j p st))) =
      (snd (remove_ended ?i t (is_position st)))\<lparr>pm_positions := im_insert j p (pm_positions (snd (remove_ended ?i t (is_position st))))\<rparr>" for t
    using assms by (cases "map_of (pm_positions (is_position st)) ?i")
      (simp_all add: remove_ended_def put_position_def record_position_end_def im_remove_insert)
  with Some show ?thesis by (simp add: mirror_exit_def put_position_def drop_routes_def Let_def cong: if_cong)
qed

lemma replica_after_mirror:
  assumes "mirror_exit R x st = Some st'" and "px_position_id x \<notin> fst ` set plan"
  shows "replica_commit_positions R lp plan st' = Option.bind (replica_commit_positions R lp plan st) (mirror_exit R x)"
  using assms
proof (induction plan arbitrary: st st')
  case (Cons y plan)
  obtain j sp where y: "y = (j, sp)" by fastforce
  have j: "j \<noteq> px_position_id x" using Cons.prems(2) y by auto
  note look = mirror_lookup [OF Cons.prems(1) j]
  show ?case
  proof (cases "split_plan_position_mut j st")
    case None
    with look y show ?thesis by simp
  next
    case (Some p)
    show ?thesis
    proof (cases "commit_split R sp lp p")
      case None
      with look y Some show ?thesis by simp
    next
      case c: (Some r)
      obtain res p' where r: "r = (res, p')" by fastforce
      have "mirror_exit R x (put_position j p' st) = Some (put_position j p' st')"
        by (simp add: mirror_put [OF j] Cons.prems(1))
      from Cons.IH [OF this] Cons.prems(2) have "replica_commit_positions R lp plan (put_position j p' st') =
          Option.bind (replica_commit_positions R lp plan (put_position j p' st)) (mirror_exit R x)" by simp
      with look y Some c r show ?thesis by simp
    qed
  qed
qed simp

text \<open>Outputs that close no position.\<close>

definition no_exit :: "'a engine_output list \<Rightarrow> bool" where
  "no_exit outs \<longleftrightarrow> (\<forall>x. PositionExit x \<notin> set outs)"

lemma no_exit_simps [simp]:
  "no_exit []" "no_exit (xs @ ys) \<longleftrightarrow> no_exit xs \<and> no_exit ys"
  "no_exit (out # outs) \<longleftrightarrow> (\<forall>x. out \<noteq> PositionExit x) \<and> no_exit outs"
  by (auto simp: no_exit_def)

lemma mirror_none: "no_exit outs \<Longrightarrow> mirror_exits R key outs st = Some st"
proof (induction outs)
  case (Cons out outs)
  then show ?case by (cases out) simp_all
qed simp

lemma mirror_append: "mirror_exits R key (xs @ ys) st = Option.bind (mirror_exits R key xs st) (mirror_exits R key ys)"
proof (induction xs arbitrary: st)
  case (Cons out xs)
  then show ?case by (cases out) (auto split: Option.bind_splits)
qed simp

section \<open>The equity\<close>

lemma commit_equity_replica:
  assumes "commit_equity R now key lp plan st = Some (outs, st')" and "distinct (map fst plan)" and "filed_under key st"
  shows "filed_under key st' \<and> (\<exists>st1. replica_commit_positions R lp plan st = Some st1 \<and> mirror_exits R key outs st1 = Some st')"
  using assms
proof (induction plan arbitrary: st outs)
  case (Cons y plan)
  obtain i sp where y: "y = (i, sp)" by fastforce
  obtain p where p: "split_plan_position_mut i st = Some p" using Cons.prems(1) y by (cases "split_plan_position_mut i st") simp_all
  obtain res p' where c: "commit_split R sp lp p = Some (res, p')" using Cons.prems(1) y p by (cases "commit_split R sp lp p") auto
  let ?st = "put_position i p' st"
  define close where "close = (if ps_quantity_abs p' = 0 then close_floored R now i ?st else Some ([], ?st))"
  obtain exits st2 where x: "close = Some (exits, st2)" using Cons.prems(1) y p c by (cases close) (auto simp: close_def)
  define rem where "rem = (if 0 < sr_remainder res
       then [SplitRemainder key i (ps_side p) (sr_remainder res) (ps_price_entry_average p')] else [] :: 'a engine_output list)"
  obtain outs' where rest: "commit_equity R now key lp plan st2 = Some (outs', st')" "outs = rem @ exits @ outs'"
    using Cons.prems(1) y p c x unfolding close_def rem_def by (auto simp: bind_eq_Some_conv)
  have instr: "ps_instrument p' = key"
    using commit_split_instrument [OF c] filed_position [OF Cons.prems(3) p] by simp
  have filed: "filed_under key ?st" using filed_put [OF Cons.prems(3) instr] .
  have look: "split_plan_position_mut i ?st = Some p'" by (simp add: split_plan_position_mut_def put_position_def)
  have plan: "distinct (map fst plan)" "i \<notin> fst ` set plan" using Cons.prems(2) y by auto
  have rem: "no_exit rem" by (simp add: rem_def)
  have step: "replica_commit_positions R lp (y # plan) st = replica_commit_positions R lp plan ?st" using y p c by simp
  show ?case
  proof (cases "ps_quantity_abs p' = 0")
    case False
    then have "exits = []" "st2 = ?st" using x by (simp_all add: close_def)
    with Cons.IH [OF rest(1) plan(1)] filed rest(2) step show ?thesis by (simp add: mirror_append mirror_none [OF rem])
  next
    case True
    then have "close_floored R now i ?st = Some (exits, st2)" using x by (simp add: close_def)
    then obtain e where e: "exits = [PositionExit e]" "px_instrument e = ps_instrument p'" "px_position_id e = i"
        "mirror_exit R e ?st = Some st2"
      using close_floored_mirror look by blast
    from Cons.IH [OF rest(1) plan(1) filed_mirror [OF filed e(4)]] obtain st1 where st1: "filed_under key st'"
        "replica_commit_positions R lp plan st2 = Some st1" "mirror_exits R key outs' st1 = Some st'" by blast
    from replica_after_mirror [OF e(4)] plan(2) e(3) st1(2) obtain st0 where
        "replica_commit_positions R lp plan ?st = Some st0" "mirror_exit R e st0 = Some st1"
      by (auto simp: bind_eq_Some_conv)
    with st1 e(1,2) instr rest(2) step show ?thesis by (simp add: mirror_append mirror_none [OF rem])
  qed
qed simp

section \<open>The options\<close>

lemma filed_option: "filed_under key (record_action aid (set_strike strike st)) = filed_under key st"
  by (auto simp: filed_under_def record_action_def set_strike_def split: instrument_kind.split)

lemma commit_contracts_replica:
  assumes "commit_contracts R key ratio pre post lp plan st = Some (outs, st')" and "filed_under k st"
  shows "replica_commit_positions R lp plan st = Some st' \<and> no_exit outs \<and> filed_under k st'"
  using assms
proof (induction plan arbitrary: st outs)
  case (Cons y plan)
  obtain i sp where y: "y = (i, sp)" by fastforce
  obtain p r p' outs' where s: "split_plan_position_mut i st = Some p" "commit_split R sp lp p = Some (r, p')"
      "commit_contracts R key ratio pre post lp plan (put_position i p' st) = Some (outs', st')"
      "outs = OptionPositionAdjustedForSplit key ratio pre post i # outs'"
    using Cons.prems(1) y by (auto simp: bind_eq_Some_conv)
  have "filed_under k (put_position i p' st)"
    using filed_put [OF Cons.prems(2)] filed_position [OF Cons.prems(2) s(1)] commit_split_instrument [OF s(2)] by simp
  with Cons.IH [OF s(3)] s y show ?case by simp
qed simp

lemma no_exit_orders [simp]: "no_exit (report_orders key os)"
  by (simp add: report_orders_def)

lemma commit_option_replica:
  assumes "commit_option env price aid ratio plan st = Some (outs, st')" and "filed_under k st"
  shows "replica_commit_option (en_round env) price aid plan st = Some st' \<and> no_exit outs \<and> filed_under k st'"
proof -
  let ?st = "record_action aid (set_strike (op_strike_post_split plan) st)"
  obtain pre where pre: "option_strike st = Some pre"
    using assms(1) by (cases "option_strike st") (simp_all add: commit_option_def)
  have filed: "filed_under k ?st" using assms(2) by (simp add: filed_option)
  show ?thesis
  proof (cases "op_positions plan = []")
    case True
    with assms(1) pre filed show ?thesis by (auto simp: commit_option_def replica_commit_option_def Let_def)
  next
    case False
    then obtain outs' where "commit_contracts (en_round env) (op_key plan) ratio pre (op_strike_post_split plan)
        (price (is_data ?st)) (op_positions plan) ?st = Some (outs', st')"
      "outs = outs' @ report_orders (op_key plan) (snapshot_open_orders_at_split env (is_orders ?st))"
      using assms(1) pre by (auto simp: commit_option_def Let_def bind_eq_Some_conv)
    with commit_contracts_replica [OF this(1) filed] False pre show ?thesis by (simp add: replica_commit_option_def Let_def)
  qed
qed

lemma commit_options_replica:
  assumes "commit_standard_option_split env price aid ratio plans states = Some (outs, states')" and "states_ok states"
  shows "replica_commit_options (en_round env) price aid plans states = Some states' \<and> no_exit outs \<and> states_ok states'"
  using assms
proof (induction plans arbitrary: states outs)
  case (Cons plan plans)
  obtain st outs1 st' outs2 where s: "get_index (op_key plan) states = Some st"
      "commit_option env price aid ratio plan st = Some (outs1, st')"
      "commit_standard_option_split env price aid ratio plans (states[op_key plan := st']) = Some (outs2, states')"
      "outs = outs1 @ outs2"
    using Cons.prems(1) by (auto simp: bind_eq_Some_conv)
  note one = commit_option_replica [OF s(2) states_ok_get [OF Cons.prems(2) s(1)]]
  then have "states_ok (states[op_key plan := st'])" using Cons.prems(2) by (simp add: states_ok_put)
  with Cons.IH [OF s(3)] one s(1,4) show ?case by simp
qed simp

section \<open>The whole action\<close>

lemma prepare_equity_keys:
  "prepare_equity R ratio policy ps = Some (Inr plan) \<Longrightarrow> map fst plan = map fst ps"
proof (induction ps arbitrary: plan)
  case (Cons y ps)
  then show ?case
    by (cases y) (auto simp: and_then_def map_sum_def split: option.splits sum.splits)
qed simp

lemma prepared_plan:
  assumes "prepare_corporate_action_split R aid ratio policy adjust target states = Some (Inr plan)"
  shows "map fst (pl_equity_positions plan) = map fst (pm_positions (is_position target))"
  using assms prepare_equity_keys
  by (fastforce simp: prepare_corporate_action_split_def Let_def and_then_def split: option.splits sum.splits if_splits)

lemma get_index_put: "get_index key states = Some st \<Longrightarrow> get_index key (states[key := st']) = Some st'"
  by (simp add: get_index_def split: if_splits)

lemma filed_record: "filed_under key (record_action aid st) = filed_under key st"
  by (simp add: filed_under_def record_action_def)

lemma commit_is_replicated:
  assumes "commit_corporate_action env price now aid key kind ratio adjust plan states = Some (outs, states')"
    and "states_ok states" and "get_index key states = Some st" and "distinct (map fst (pl_equity_positions plan))"
  shows "replica_commit_split (en_round env) price outs aid key adjust plan states = Some states' \<and> states_ok states'"
proof -
  let ?R = "en_round env" and ?resting = "report_orders key (snapshot_open_orders_at_split env (is_orders st))"
  obtain outs1 st1 where e: "commit_equity ?R now key (price (is_data st)) (pl_equity_positions plan) st = Some (outs1, st1)"
    using assms(1,3) by (cases "commit_equity ?R now key (price (is_data st)) (pl_equity_positions plan) st")
      (auto simp: commit_corporate_action_def Let_def)
  define later where "later = (if adjust then do {
          (outs', states') \<leftarrow> commit_standard_option_split env price aid ratio (pl_options plan) (states[key := st1]);
          Some (map (\<lambda>k. CorporateActionAlreadyProcessed k kind aid) (pl_options_already_adjusted plan) @ outs', states')
        }
        else Some (emit_option_identity_change key ratio st1 (states[key := st1]), states[key := st1]))"
  obtain options states2 where o: "later = Some (options, states2)"
    using assms(1,3) e by (cases later) (auto simp: commit_corporate_action_def Let_def later_def)
  obtain st2 where st2: "get_index key states2 = Some st2" "outs = outs1 @ ?resting @ options"
      "states' = states2[key := record_action aid st2]"
    using assms(1,3) e o unfolding commit_corporate_action_def Let_def later_def [symmetric]
    by (auto simp: bind_eq_Some_conv later_def [symmetric])
  from commit_equity_replica [OF e assms(4) states_ok_get [OF assms(2,3)]] obtain st0 where
    eq: "filed_under key st1" "replica_commit_positions ?R (price (is_data st)) (pl_equity_positions plan) st = Some st0"
      "mirror_exits ?R key outs1 st0 = Some st1" by blast
  have ok1: "states_ok (states[key := st1])" using states_ok_put [OF assms(2) eq(1)] .
  have opts: "(if adjust then replica_commit_options ?R price aid (pl_options plan) (states[key := st1])
      else Some (states[key := st1])) = Some states2 \<and> no_exit options \<and> states_ok states2"
  proof (cases adjust)
    case True
    then obtain outs' where c: "commit_standard_option_split env price aid ratio (pl_options plan) (states[key := st1]) = Some (outs', states2)"
      "options = map (\<lambda>k. CorporateActionAlreadyProcessed k kind aid) (pl_options_already_adjusted plan) @ outs'"
      using o by (auto simp: later_def bind_eq_Some_conv)
    with commit_options_replica [OF c(1) ok1] True show ?thesis by (auto simp: no_exit_def)
  next
    case False
    with o ok1 show ?thesis by (auto simp: later_def emit_option_identity_change_def Let_def)
  qed
  have "mirror_exits ?R key outs st0 = Some st1" using eq(3) opts by (simp add: st2(2) mirror_append mirror_none)
  moreover have "states_ok states'"
    using opts states_ok_put [of states2 key "record_action aid st2"] states_ok_get [of states2 key st2] st2(1,3)
    by (simp add: filed_record)
  ultimately show ?thesis using assms(3) eq(2) opts st2(1,3) by (simp add: replica_commit_split_def)
qed

text \<open>C40: The replica of an engine follows a corporate action to the state of the engine. Given the event and the outputs that the engine reported for it, the replica, which rescales every position first and closes afterwards those that the outputs say ended, ends with the same instruments as the engine, which closes a position that a reverse split rounds to nothing as it comes to it: the same positions, tear sheets, routes, strikes and records of the action, whatever the ratio, the rounding policy and the rounding of decimals, for an action that is applied and for one that is refused or was applied before. The instruments are filed under their indices, with their positions under one id each, and remain so.\<close>
theorem split_replica_is_the_engine:
  assumes "process_corporate_action env price now aid key kind policy states = Some (outs, states')"
    and "states_ok states"
  shows "replica_corporate_action (en_round env) price outs aid key kind policy states = Some states' \<and> states_ok states'"
proof (cases "get_index key states")
  case None
  with assms show ?thesis by (simp add: process_corporate_action_def replica_corporate_action_def)
next
  case (Some st)
  show ?thesis
  proof (cases "aid \<in> is_corporate_actions st \<or> \<not> kind_is_split_eligible (in_kind (is_instrument st))")
    case True
    with assms Some show ?thesis
      by (auto simp: process_corporate_action_def replica_corporate_action_def split_eligible_target_def split: if_splits)
  next
    case False
    then have target: "split_eligible_target key states = Some (Some st)" using Some by (simp add: split_eligible_target_def)
    obtain ratio where kind: "kind = StockSplit ratio" by (cases kind)
    let ?adjust = "option_split_adjust_in_place kind"
    obtain r where r: "prepare_corporate_action_split (en_round env) aid ratio policy ?adjust st states = Some r"
      using assms(1) Some False target kind
      by (cases "prepare_corporate_action_split (en_round env) aid ratio policy ?adjust st states")
        (auto simp: process_corporate_action_def Let_def)
    show ?thesis
    proof (cases r)
      case (Inl reason)
      with assms Some False target kind r show ?thesis
        by (auto simp: process_corporate_action_def replica_corporate_action_def Let_def option_split_adjust_in_place_def)
    next
      case (Inr plan)
      have "distinct (map fst (pl_equity_positions plan))"
        using prepared_plan [OF r [unfolded Inr]] states_ok_get [OF assms(2) Some] by (simp add: filed_under_def im_wf_def)
      moreover have "commit_corporate_action env price now aid key kind ratio ?adjust plan states = Some (outs, states')"
        using assms(1) Some False target kind r Inr by (auto simp: process_corporate_action_def Let_def)
      ultimately have "replica_commit_split (en_round env) price outs aid key ?adjust plan states = Some states' \<and> states_ok states'"
        using commit_is_replicated assms(2) Some by blast
      with Some False target kind r Inr show ?thesis
        by (simp add: replica_corporate_action_def Let_def option_split_adjust_in_place_def)
    qed
  qed
qed

text \<open>A long position of five shares under a reverse split of ten for one: it ends, in both.\<close>

definition ex_purchase :: "(unit, nat) trade" where
  "ex_purchase = \<lparr>tr_id = ''t'', tr_order_id = ''o'', tr_instrument = 0, tr_strategy = ''s'',
     tr_time_exchange = 1, tr_side = Buy, tr_price = 20, tr_quantity = 5, tr_order_filled_quantity = None,
     tr_fees = \<lparr>af_asset = (), af_fees = 1, af_fees_quote = Some 1\<rparr>, tr_origin = OriginOrder,
     tr_position_side = None, tr_client_order_id = None, tr_time_source = SourceVenue\<rparr>"

definition ex_equity :: "(unit, unit, nat, unit) instrument_state" where
  "ex_equity = instrument_state_init 0 ex_btc 0
     ((position_manager_new Hedging)\<lparr>pm_positions := [(''p'', position_from_trade ex_purchase)]\<rparr>) (orders_new Map.empty) ()"

definition ex_split_env :: "(unit, nat) engine_env" where
  "ex_split_env = \<lparr>en_round = Some, en_reason = (\<lambda>_. ''rejected''), en_order = (\<lambda>_. [])\<rparr>"

theorem split_replica_is_the_engine_witness:
  "\<exists>outs states'. process_corporate_action ex_split_env (\<lambda>_. None) 9 ''a'' 0 (StockSplit (1 / 10)) Floor [ex_equity] = Some (outs, states') \<and>
    replica_corporate_action Some (\<lambda>_. None) outs ''a'' 0 (StockSplit (1 / 10)) Floor [ex_equity] = Some states' \<and>
    pm_positions (is_position (states' ! 0)) = [] \<and> is_corporate_actions (states' ! 0) = {''a''}"
proof -
  let ?plan = "\<lparr>pl_equity_positions = [(''p'', \<lparr>sp_quantity_abs = 0, sp_price_entry_average = 200, sp_quantity_abs_max = 1 / 2,
    sp_remainder = 1 / 2\<rparr>)], pl_options = [], pl_options_already_adjusted = []\<rparr>"
  let ?p = "(position_from_trade ex_purchase)\<lparr>ps_price_entry_average := 200, ps_quantity_abs := 0, ps_quantity_abs_max := 1 / 2,
    ps_pnl_unrealised := 0\<rparr>"
  let ?x = "(into_exited None ?p)\<lparr>px_position_id := ''p'', px_time_exit := 9\<rparr>"
  have ok: "states_ok [ex_equity]"
    by (simp add: states_ok_def filed_under_def ex_equity_def instrument_state_init_def position_manager_new_def
        position_from_trade_def ex_purchase_def im_wf_def)
  have "\<exists>xs ys. data_set_default = data_set_of xs \<and> data_set_default = data_set_of ys"
    using data_set_of_Nil by (intro exI [of _ "[]"]) simp
  then have "sheet_ok (Suc 0) (is_tear_sheet ex_equity)"
    by (auto simp: ex_equity_def instrument_state_init_def sheet_ok_def sheet_counts_def sheet_load_def
        tear_sheet_init_def pnl_returns_default_def mean_drawdown_default_def)
  from sheet_update_ok [OF this, of ?x] obtain g where
    g: "tear_sheet_update_from_position Some ?x (is_tear_sheet ex_equity) = Some g" by blast
  have half: "\<lfloor>1 / 2 :: decimal\<rfloor> = 0" by (simp add: floor_eq_iff)
  have prep: "prepare_corporate_action_split Some ''a'' (1 / 10) Floor False ex_equity [ex_equity] = Some (Inr ?plan)"
    by (simp add: prepare_corporate_action_split_def and_then_def prepare_split_def dec_simps Let_def half ex_equity_def
        instrument_state_init_def position_manager_new_def position_from_trade_def ex_purchase_def)
  have commit: "commit_split Some \<lparr>sp_quantity_abs = 0, sp_price_entry_average = 200, sp_quantity_abs_max = 1 / 2,
    sp_remainder = 1 / 2\<rparr> None (position_from_trade ex_purchase) =
    Some (\<lparr>sr_remainder = 1 / 2, sr_pnl_unrealised_overflowed = False\<rparr>, ?p)"
    by (simp add: commit_split_def)
  let ?st = "put_position ''p'' ?p ex_equity"
  have fields: "is_position_ids ex_equity = Map.empty" "is_corporate_actions ex_equity = {}" "is_orders ex_equity = orders_new Map.empty"
    "kind_is_split_eligible (in_kind (is_instrument ex_equity))" "is_key ex_equity = 0"
    "pm_positions (is_position ex_equity) = [(''p'', position_from_trade ex_purchase)]"
    by (simp_all add: ex_equity_def instrument_state_init_def position_manager_new_def ex_btc_def)
  have positions: "pm_positions (is_position ?st) = [(''p'', ?p)]" "is_tear_sheet ?st = is_tear_sheet ex_equity"
    by (simp_all add: put_position_def fields im_insert_def)
  obtain m where m: "remove_ended ''p'' 9 (is_position ?st) = (Some ?p, m)" "pm_positions m = []"
    by (simp add: remove_ended_def positions im_remove_def record_position_end_def)
  let ?done = "drop_routes ''p'' (?st\<lparr>is_position := m, is_tear_sheet := g\<rparr>)"
  have "close_floored Some 9 ''p'' ?st = Some ([PositionExit ?x], ?done)"
    using g by (simp add: close_floored_def m(1) positions(2) Let_def)
  then have equity: "commit_equity Some 9 0 None (pl_equity_positions ?plan) ex_equity =
      Some ([SplitRemainder 0 ''p'' Buy (1 / 2) 200, PositionExit ?x], ?done)"
    by (simp add: split_plan_position_mut_def fields commit Let_def) (simp add: position_from_trade_def ex_purchase_def)
  have inplace: "\<not> option_split_adjust_in_place (StockSplit (1 / 10))"
    by (simp add: option_split_adjust_in_place_def classify_option_split_def)
  have resting: "snapshot_open_orders_at_split ex_split_env (orders_new Map.empty :: (unit, nat) orders) = []"
    by (simp add: snapshot_open_orders_at_split_def ex_split_env_def map_filter_simps)
  have "is_position (record_action ''a'' ?done) = m" "is_corporate_actions (record_action ''a'' ?done) = {''a''}"
    by (simp_all add: record_action_def drop_routes_def put_position_def fields)
  moreover have env: "en_round ex_split_env = Some" by (simp add: ex_split_env_def)
  ultimately obtain outs states' where p: "process_corporate_action ex_split_env (\<lambda>_. None) 9 ''a'' 0 (StockSplit (1 / 10)) Floor [ex_equity] =
      Some (outs, states')" "pm_positions (is_position (states' ! 0)) = []" "is_corporate_actions (states' ! 0) = {''a''}"
    using m(2)
    by (simp add: process_corporate_action_def commit_corporate_action_def get_index_def split_eligible_target_def fields Let_def
        env inplace resting prep equity [unfolded split_plan.select_convs] report_orders_def del: commit_equity.simps)
  then show ?thesis using split_replica_is_the_engine [OF p(1) ok] env by auto
qed

end
