(* ===== verification/Spec2Isabelle.thy ===== *)
theory Spec2Isabelle
  imports Prelude Order_Model Orders Books L2_Sequencer Position Open_Orders Price_Time
    Balance Mock_Account Account_Ledger Account_Invariants Order_Rules
    Venue_Market Settlement Settlement_Ledger Reduce_Only
    Price_Window Margin_Config Venue_State Venue_Valuation Venue_Commit Venue_Orders Venue_Matching
    Venue_Liquidation Venue_Clock Venue_Ledger Venue_Ledger_Market Venue_Runs Venue_Refusals
    Carry_Models Carry_Laws Venue_Accrual
    Statistics Tear_Sheets Statistics_Laws
    In_Flight In_Flight_Laws
    Cash_Flow Holding_Move Holding_Laws Instrument_State Instrument_Laws Instrument_Runs Fill_Routes Instrument_Fills
    Corporate_Actions Corporate_Laws
begin

text \<open>
  A verification library for rustrade, a trading engine and the simulated venues it trades
  against.

  \<^bold>\<open>The program.\<close> An engine keeps, per instrument, the orders it sent and the positions its fills
  made; it reads market data through local order books built from venue streams; it checks its
  orders against the venue's rules before it sends them; and in a backtest the venue itself is
  simulated, with a book of open orders and an account of balances, reservations and loans. The
  parts meet in the values they exchange: orders, their states and errors, fills, balances, levels
  and book events. The library follows that division.

  \<^bold>\<open>Theories.\<close>
  \<^item> \<open>Prelude\<close>: decimals and their arithmetic, time, insertion-ordered maps, and the locale
    \<open>recent_memory\<close> of bounded memories of recent keys.
  \<^item> \<open>Order_Model\<close> (\<open>rustrade-execution/src/order\<close>, \<open>error.rs\<close>): identifiers, order kinds, states,
    requests and errors, and the precedence of two reports of one working order.
  \<^item> \<open>Orders\<close> (\<open>rustrade/src/engine/state/order/mod.rs\<close>): the order manager. \<open>record_in_flight_open\<close>,
    \<open>record_in_flight_cancel\<close>, \<open>update_from_order_snapshot\<close>, \<open>update_from_fill\<close>,
    \<open>update_from_cancel_response\<close> and the rest of its methods, over the record \<open>orders\<close> of the
    tracked orders and the memory of retired ids. Its lemmas: the reachable
    invariant, that a retired order stays retired, that reports never rewind and may arrive in any
    order, and what a failed open does.
  \<^item> \<open>Books\<close> (\<open>rustrade-data/src/books/mod.rs\<close>): the sides of a book, upserts by binary search, depth
    snapshots and prices. Its lemmas: sides stay sorted, a side is a map from prices to amounts, and
    an event changes that map as its levels say.
  \<^item> \<open>L2_Sequencer\<close> (\<open>rustrade-data/src/exchange/binance\<close>, \<open>books/manager.rs\<close>): the sequencers of the
    spot and futures streams, their transformers, and the manager's step. Its locale states the
    contract of a sequencer once; both venues interpret it. The lemmas show that no gap passes and
    that a local book equals the venue's book as of the last update let through.
  \<^item> \<open>Position\<close> (\<open>rustrade/src/engine/state/position.rs\<close>): fills, positions and the manager of both
    position modes, with splits, carry and seeds. Its lemmas: the accounting identity between
    positions, what they realised and the fills, and the refinement of a signed ledger.
  \<^item> \<open>Open_Orders\<close> and \<open>Price_Time\<close> (\<open>rustrade-execution/src/exchange/mock/orders.rs\<close>): the book of a
    simulated venue, and the proof that its queues are a stable sort of the orders in arrival order.
  \<^item> \<open>Balance\<close> (\<open>rustrade-execution/src/balance.rs\<close>): balances with debt and accrual.
  \<^item> \<open>Mock_Account\<close>, \<open>Account_Ledger\<close> and \<open>Account_Invariants\<close>
    (\<open>rustrade-execution/src/exchange/mock/account.rs\<close>): the venue's account; what each of its
    operations moves; the invariants of every sequence of them. The account's use of its book is the
    locale \<open>open_order_index\<close>, interpreted on entering and on holding an order.
  \<^item> \<open>Order_Rules\<close> (\<open>rustrade-execution/src/rules.rs\<close>): the rules of an instrument, the check before an
    order is sent, and rounding to a grid.
  \<^item> \<open>Venue_Market\<close> (\<open>market.rs\<close>, \<open>rustrade-execution/src/fill.rs\<close>, \<open>slippage.rs\<close>, \<open>fee.rs\<close>): the market the
    simulated venue reads, its depth, and the fill, slippage and fee models it is configured with.
    \<open>Settlement\<close> (\<open>settlement.rs\<close>, \<open>venue.rs\<close>): what a fill moves under each kind of instrument, the
    venue's own record of positions, the checks of an order's kind and time in force, and what becomes
    of the part of an order that does not fill. \<open>Settlement_Ledger\<close>: the cash a venue settles is the
    profit the engine's position manager books from the same fills, a fee is paid once, prices stay
    within a limit, and a slippage walk resumes where it stopped.
  \<^item> \<open>Reduce_Only\<close> (\<open>rustrade-execution/src/reduce_only.rs\<close>): the record of which orders were sent
    reduce-only, its live orders and its bounded memory of ended ones, the second interpretation of
    \<open>recent_memory\<close> beside that of \<open>Orders\<close>.
  \<^item> \<open>Price_Window\<close> (\<open>mock/venue/price_window.rs\<close>): the two monotone queues that answer the lowest and
    the highest price of a sliding window, equal to a scan of every observation. \<open>Margin_Config\<close>
    (\<open>margin.rs\<close>): the configuration of spot margin and of its liquidation, with every check of its
    constructors; what they return keeps the documented bounds and reads back from its stored form.
  \<^item> \<open>Venue_State\<close> to \<open>Venue_Clock\<close> (\<open>rustrade-execution/src/exchange/mock/venue.rs\<close>,
    \<open>venue/liquidation.rs\<close>, \<open>venue/spot_pairs.rs\<close>): the simulated venue itself, in the order its code
    calls: the state with its configuration and the events it emits (\<open>Venue_State\<close>), prices, the value
    of a margin account and what may be lent (\<open>Venue_Valuation\<close>), one commitment to the account with
    its loan and interest, cancels and expiries (\<open>Venue_Commit\<close>), an order that arrives, with every
    refusal (\<open>Venue_Orders\<close>), resting orders that a market crosses and held ones it releases
    (\<open>Venue_Matching\<close>), the liquidation of a margin account (\<open>Venue_Liquidation\<close>), and the inputs
    that move its clock with the charges they cross (\<open>Venue_Clock\<close>). An order is placed by
    \<open>venue_open_order\<close>, which calls the modelled account, book, settlement and fill models.
  \<^item> \<open>Venue_Ledger\<close> and \<open>Venue_Ledger_Market\<close>: the locale \<open>venue_relation\<close>, the contract between the
    venue and what it calls: a transitive relation on venues that each primitive step (a move on the
    account, a booking, a print) keeps is kept by every operation, every input and so every run.
    \<open>Venue_Runs\<close> interprets it twice, with the equation between what is not free and what open orders
    reserve, and with the counter of trades, and shows that the ids it mints are new.
    \<open>Venue_Refusals\<close>: an order the venue refuses leaves it as it was.
  \<^item> \<open>Carry_Models\<close> (\<open>rustrade-execution/src/holding_cost.rs\<close>, \<open>margin.rs\<close>): the models of carry and
    interest the crate ships, perpetual funding, borrow fees, financing and periodic margin interest,
    with rate series, day counts, cutoffs and settlement calendars. \<open>Carry_Laws\<close> states what a venue
    relies on of a model's boundaries as the locale \<open>charging_schedule\<close>, interpreted on all four models,
    and what the models charge. \<open>Venue_Accrual\<close>: the search for boundaries ends, a clock step charges
    what falls due once, and a clock may be advanced in any number of steps.
  \<^item> \<open>Statistics\<close> and \<open>Tear_Sheets\<close> (\<open>rustrade/src/statistic\<close>): the running statistics of a run, its
    drawdowns and ratios, and the tear sheets of instruments and assets with their summary.
    \<open>Statistics_Laws\<close>: the running figures are those of the whole dataset, the maximum drawdown is the
    largest fall of the series, what a tear sheet's figures are of the closed positions, and the
    returns that make it panic.
  \<^item> \<open>In_Flight\<close> (\<open>rustrade/src/engine/in_flight.rs\<close>, \<open>rustrade/src/execution/unknown_outcome.rs\<close>): the
    lookups that settle an open whose outcome is unknown, the deadlines of requests, and the engine's
    watch on the requests in flight past theirs. \<open>In_Flight_Laws\<close>: what a conclusion of the lookups
    rests on and when they end, and that the watch, which looks at the orders only when one can be
    due, flags what a look at every check would.
  \<^item> \<open>Holding_Move\<close> (\<open>rustrade-execution/src/trade.rs\<close>, \<open>rustrade-instrument/src/instrument\<close>):
    instruments, and how a fill moves the holding of its position, with base-asset fees, dust and the
    cut of a reduce-only fill; \<open>Holding_Laws\<close>: nothing of a fill is lost. \<open>Cash_Flow\<close>
    (\<open>cash_flow.rs\<close>): the flows that both the venue and the engine book.
  \<^item> \<open>Instrument_State\<close> (\<open>rustrade/src/engine/state/instrument/mod.rs\<close>,
    \<open>state/order/in_flight_recorder.rs\<close>): the engine's state of one instrument, which composes
    \<open>Orders\<close>, \<open>Position\<close>, \<open>Reduce_Only\<close> and \<open>Tear_Sheets\<close> and adds the tables that route a fill to a
    position: \<open>replay_trade\<close>, \<open>replay_order_snapshot\<close> and the other operations. The third interpretation
    of \<open>recent_memory\<close> is its memory of retired routes. \<open>Instrument_Laws\<close>: its invariant and the
    accounting of one fill; \<open>Instrument_Runs\<close>: its events, each of which keeps the invariant;
    \<open>Fill_Routes\<close>: the routes, orders and fills put aside that booking a fill leaves alone;
    \<open>Instrument_Fills\<close>: the properties of fills, acknowledgements, resynchronisations and flows.
  \<^item> \<open>Corporate_Actions\<close> (\<open>rustrade/src/engine/mod.rs\<close>, \<open>engine/audit/state_replica.rs\<close>,
    \<open>rustrade-instrument/src/corporate_action.rs\<close>): a stock split over the states of all instruments:
    the plan of \<open>prepare_corporate_action_split\<close>, its commit by \<open>process_corporate_action\<close> to the equity and
    its options, and the audit replica's arm for the same event. \<open>Corporate_Laws\<close>: a position closed
    while the engine commits, and mirrored after the replica has, leave the same state, so the replica
    is the engine.

  \<^bold>\<open>Conventions.\<close> A \<open>Decimal\<close> of the third-party crate \<open>rust_decimal\<close> is a rational number here. Every
  operation that may round or overflow goes through a parameter \<open>R\<close> of the model, which returns
  the representable result or \<open>None\<close>; what a theorem needs of \<open>R\<close> is a hypothesis of it, and
  \<open>R = Some\<close> is exact arithmetic. A plain operator that overflows panics: an operation that may
  panic returns an option and \<open>None\<close> is the panic. An \<open>Err\<close> of the source is an \<open>Inl\<close>, a checked
  operation's absent result an option inside. Time stamps are integers. Unsigned 64-bit counters and
  update ids are words, and comparisons on them are those of the machine. Rust's ordered maps and
  sets are sorted lists, hash maps are HOL maps, an insertion-ordered map is an association list.

  \<^bold>\<open>Bounds.\<close> No definition runs on fuel: loops of the source are structural recursions or folds over
  the list they consume, but for one. The boundaries a clock step crosses are read from a model of
  charges one after another (\<open>boundaries_from\<close>), which a model might prolong for ever; it is a partial
  function, and each boundary is later than the one before, so it ends. A forced trade is nudged at
  most four times, as in the code. The book's insertion counter is a 64-bit word, so theorems on its
  price-time order ask for histories of fewer than \<open>2 ^ 64\<close> steps, which no run of the program
  reaches; the counters of orders and trades are words of the same width. The memory of retired ids
  holds 64 entries, so the theorem on retired orders speaks of runs in which fewer than 64 further orders end for good,
  and that on reduce-only fills of at most 64 retirements from the end of the order on.

  \<^bold>\<open>Parameters.\<close> What a venue is configured with and the repository leaves open is a field of its
  configuration: the rounding of decimals, the models of interest, carry and shortability (traits a
  user implements), the random generator behind slippage, and the scale of a decimal's last digit.

  \<^bold>\<open>Not modelled.\<close> Log lines, serialisation and display, and the text of a refusal beyond its kind.
  Checks compiled in debug builds only. The connectors to exchanges (websocket and HTTP clients,
  their wire formats and authentication), whose state is the venue's; the asynchronous plumbing of
  streams, channels and sockets, and the task that serves a simulated venue over them; the engine's
  own loop and its clocks, the execution manager and the index of instruments, which build on the
  parts above. The listing of a whole venue for a checkpoint, its
  restoration from one, and its read-only queries are left out with them.
\<close>

end
